(* ===== verification/Prelude.thy ===== *)
theory Prelude
  imports Main "HOL-Library.AList" "HOL-Library.Char_ord" "HOL-Library.List_Lexorder"
    "HOL-Library.Sublist"
begin

text \<open>
  Shared vocabulary of the development: the outcomes of a Go call (a value, an error value or
  a panic), Go maps as association lists whose order stands for the iteration order of one run,
  and the lemmas on them that the component theories share.
\<close>

named_theorems go_defs \<open>definitions of small helpers, unfolded by the component proofs\<close>
named_theorems kube_simps \<open>lookup and update laws of the YAML node tree\<close>
named_theorems disk_simps \<open>lookup and update laws of the file system\<close>

section \<open>Error values, panics and results\<close>

text \<open>
  What the operating system reports in a \<^verbatim>\<open>*PathError\<close>, as far as the code looks:
  \<^verbatim>\<open>os.IsNotExist\<close> and \<^verbatim>\<open>os.IsExist\<close> are the only two tests it makes.
\<close>

datatype oserr = ENOENT | EEXIST | EACCES | EISDIR | ENOTDIR | EOTHER string

text \<open>
  An error value: the text of a \<^verbatim>\<open>fmt.Errorf\<close> with its arguments (\<^verbatim>\<open>Errorf\<close>), one
  that wraps another with the verb \<^verbatim>\<open>%w\<close> (\<^verbatim>\<open>Wrapf\<close>), an operating system error with its
  path, or an error of a library outside the repository.
\<close>

datatype gerror =
    Errorf string "string list"
  | Wrapf string "string list" gerror
  | PathErr oserr string
  | LibErr string

text \<open>\<^verbatim>\<open>os.IsNotExist\<close> and \<^verbatim>\<open>os.IsExist\<close> do not look through a wrapped error.\<close>

fun IsNotExist :: "gerror \<Rightarrow> bool" where
  "IsNotExist (PathErr ENOENT p) = True"
| "IsNotExist _ = False"

fun IsExist :: "gerror \<Rightarrow> bool" where
  "IsExist (PathErr EEXIST p) = True"
| "IsExist _ = False"

datatype 'a res = Ok 'a | Err gerror | Panic string

fun bindR :: "'a res \<Rightarrow> ('a \<Rightarrow> 'b res) \<Rightarrow> 'b res" where
  "bindR (Ok a) f = f a"
| "bindR (Err e) f = Err e"
| "bindR (Panic p) f = Panic p"

fun mapR :: "('a \<Rightarrow> 'b) \<Rightarrow> 'a res \<Rightarrow> 'b res" where
  "mapR f (Ok a) = Ok (f a)"
| "mapR f (Err e) = Err e"
| "mapR f (Panic p) = Panic p"

text \<open>\<^verbatim>\<open>if err != nil { return fmt.Errorf("...: %w", err) }\<close>: wrap an error, keep the rest.\<close>

fun wrapR :: "string \<Rightarrow> string list \<Rightarrow> 'a res \<Rightarrow> 'a res" where
  "wrapR s args (Err e) = Err (Wrapf s args e)"
| "wrapR s args r = r"

fun is_ok :: "'a res \<Rightarrow> bool" where
  "is_ok (Ok a) = True"
| "is_ok _ = False"

fun is_panic :: "'a res \<Rightarrow> bool" where
  "is_panic (Panic p) = True"
| "is_panic _ = False"

lemma bindR_Ok_iff [simp]: "bindR m f = Ok b \<longleftrightarrow> (\<exists>a. m = Ok a \<and> f a = Ok b)"
  by (cases m) auto

lemma bindR_Panic_iff: "is_panic (bindR m f) \<longleftrightarrow> is_panic m \<or> (\<exists>a. m = Ok a \<and> is_panic (f a))"
  by (cases m) auto

lemma mapR_Ok_iff [simp]: "mapR f m = Ok b \<longleftrightarrow> (\<exists>a. m = Ok a \<and> b = f a)"
  by (cases m) auto

lemma mapR_Panic_iff [simp]: "is_panic (mapR f m) \<longleftrightarrow> is_panic m"
  by (cases m) auto

lemma wrapR_Ok_iff [simp]: "wrapR s args m = Ok b \<longleftrightarrow> m = Ok b"
  by (cases m) auto

lemma wrapR_Panic_iff [simp]: "is_panic (wrapR s args m) \<longleftrightarrow> is_panic m"
  by (cases m) auto

lemma is_ok_iff: "is_ok m \<longleftrightarrow> (\<exists>a. m = Ok a)"
  by (cases m) auto

lemma is_panic_iff: "is_panic m \<longleftrightarrow> (\<exists>p. m = Panic p)"
  by (cases m) auto

lemma bindR_assoc: "bindR (bindR m f) g = bindR m (\<lambda>a. bindR (f a) g)"
  by (cases m) auto

text \<open>A Go \<^verbatim>\<open>for\<close> loop that stops at the first error or panic.\<close>

fun foldR :: "('a \<Rightarrow> 's \<Rightarrow> 's res) \<Rightarrow> 'a list \<Rightarrow> 's \<Rightarrow> 's res" where
  "foldR f [] s = Ok s"
| "foldR f (x # xs) s = bindR (f x s) (foldR f xs)"

lemma foldR_append: "foldR f (xs @ ys) s = bindR (foldR f xs s) (foldR f ys)"
proof (induction xs arbitrary: s)
  case (Cons x xs)
  then show ?case by (cases "f x s") simp_all
qed simp

lemma foldR_inv:
  assumes "foldR f xs s = Ok s'" and "P s"
    and "\<And>x s s'. x \<in> set xs \<Longrightarrow> P s \<Longrightarrow> f x s = Ok s' \<Longrightarrow> P s'"
  shows "P s'"
  using assms by (induction xs arbitrary: s) auto

lemma foldR_no_panic:
  assumes "P s" and "\<And>x s. x \<in> set xs \<Longrightarrow> P s \<Longrightarrow> \<not> is_panic (f x s)"
    and "\<And>x s s'. x \<in> set xs \<Longrightarrow> P s \<Longrightarrow> f x s = Ok s' \<Longrightarrow> P s'"
  shows "\<not> is_panic (foldR f xs s)"
  using assms
proof (induction xs arbitrary: s)
  case Nil
  then show ?case by simp
next
  case (Cons x xs)
  show ?case
  proof (cases "f x s")
    case (Ok s')
    have "P s'" using Cons.prems(3) [OF _ Cons.prems(1) Ok] by simp
    then have "\<not> is_panic (foldR f xs s')"
      by (rule Cons.IH) (use Cons.prems(2,3) in \<open>simp; blast\<close>)+
    then show ?thesis using Ok by simp
  next
    case (Err e)
    then show ?thesis by simp
  next
    case (Panic p)
    then show ?thesis using Cons.prems(2) [OF _ Cons.prems(1), of x] by simp
  qed
qed

section \<open>Go maps\<close>

text \<open>
  A Go map is an association list with distinct keys. Its order is the order in which
  \<^verbatim>\<open>range\<close> visits it in the run at hand: Go leaves that order open, so a property that
  quantifies over the list holds for each of them.
\<close>

type_synonym ('k, 'v) gomap = "('k \<times> 'v) list"

abbreviation mget :: "('k, 'v) gomap \<Rightarrow> 'k \<Rightarrow> 'v option" where
  "mget m k \<equiv> map_of m k"

abbreviation mset :: "'k \<Rightarrow> 'v \<Rightarrow> ('k, 'v) gomap \<Rightarrow> ('k, 'v) gomap" where
  "mset k v m \<equiv> AList.update k v m"

abbreviation mdel :: "'k \<Rightarrow> ('k, 'v) gomap \<Rightarrow> ('k, 'v) gomap" where
  "mdel k m \<equiv> AList.delete k m"

abbreviation mkeys :: "('k, 'v) gomap \<Rightarrow> 'k list" where
  "mkeys m \<equiv> map fst m"

definition wf_map :: "('k, 'v) gomap \<Rightarrow> bool" where
  "wf_map m \<longleftrightarrow> distinct (mkeys m)"

text \<open>\<^verbatim>\<open>m[k]\<close> of a map of strings: the zero value \<^verbatim>\<open>""\<close> when the key is absent.\<close>

definition mgets :: "('k, string) gomap \<Rightarrow> 'k \<Rightarrow> string" where
  "mgets m k = (case mget m k of None \<Rightarrow> [] | Some v \<Rightarrow> v)"

lemma mget_mset [simp]: "mget (mset k v m) = (mget m)(k \<mapsto> v)"
  by (rule update_conv')

lemma mget_mdel [simp]: "mget (mdel k m) = (mget m)(k := None)"
  by (rule delete_conv')

lemma wf_map_Nil [simp]: "wf_map []"
  by (simp add: wf_map_def)

lemma wf_map_mset [simp]: "wf_map m \<Longrightarrow> wf_map (mset k v m)"
  by (simp add: wf_map_def distinct_update)

lemma wf_map_mdel [simp]: "wf_map m \<Longrightarrow> wf_map (mdel k m)"
  by (simp add: wf_map_def distinct_delete)

lemma wf_map_mem: "wf_map m \<Longrightarrow> (k, v) \<in> set m \<longleftrightarrow> mget m k = Some v"
  by (simp add: wf_map_def)

lemma mgets_mset [simp]: "mgets (mset k v m) k' = (if k' = k then v else mgets m k')"
  by (simp add: mgets_def)

text \<open>A fold of \<^verbatim>\<open>m[k] = v\<close> over a list of pairs: the last pair of a key wins.\<close>

lemma mget_fold_mset:
  "mget (fold (\<lambda>(k, v) m. mset k v m) ps m) = mget m ++ map_of (rev ps)"
proof (induction ps arbitrary: m)
  case Nil
  then show ?case by simp
next
  case (Cons p ps)
  obtain k v where [simp]: "p = (k, v)" by (cases p)
  show ?case
    by (rule ext) (auto simp: Cons map_add_def split: option.splits)
qed

lemma wf_map_fold_mset: "wf_map m \<Longrightarrow> wf_map (fold (\<lambda>(k, v) m. mset k v m) ps m)"
  by (induction ps arbitrary: m) auto

section \<open>Lists\<close>

lemma filter_id_conv': "filter P xs = xs \<longleftrightarrow> list_all P xs"
  by (simp add: filter_id_conv list_all_iff)

lemma list_all_filter [simp]: "list_all P (filter P xs)"
  by (simp add: list_all_iff)

lemma nth_lengthD: "xs ! i = x \<Longrightarrow> i < length xs \<Longrightarrow> x \<in> set xs"
  by auto

lemma find_Some_in: "List.find P xs = Some x \<Longrightarrow> x \<in> set xs \<and> P x"
  by (auto simp: find_Some_iff)

lemma find_None_all: "List.find P xs = None \<longleftrightarrow> (\<forall>x \<in> set xs. \<not> P x)"
  by (auto simp: find_None_iff)

text \<open>The first value of each key, in order of first appearance (a \<^verbatim>\<open>seen\<close> map in a loop).\<close>

fun dedup :: "'a list \<Rightarrow> 'a set \<Rightarrow> 'a list" where
  "dedup [] seen = []"
| "dedup (x # xs) seen = (if x \<in> seen then dedup xs seen else x # dedup xs (insert x seen))"

lemma set_dedup: "set (dedup xs seen) = set xs - seen"
  by (induction xs arbitrary: seen) auto

lemma distinct_dedup: "distinct (dedup xs seen)"
  by (induction xs arbitrary: seen) (auto simp: set_dedup)

lemma subseq_dedup: "subseq (dedup xs seen) xs"
  by (induction xs arbitrary: seen) auto

text \<open>The index of the first occurrence, and the list with the first occurrence replaced.\<close>

fun find_idx :: "'a \<Rightarrow> 'a list \<Rightarrow> nat option" where
  "find_idx a [] = None"
| "find_idx a (x # xs) = (if x = a then Some 0 else map_option Suc (find_idx a xs))"

fun replace_first :: "'a \<Rightarrow> 'a \<Rightarrow> 'a list \<Rightarrow> 'a list" where
  "replace_first a b [] = []"
| "replace_first a b (x # xs) = (if x = a then b # xs else x # replace_first a b xs)"

lemma find_idx_None: "find_idx a xs = None \<longleftrightarrow> a \<notin> set xs"
  by (induction xs) auto

lemma find_idx_SomeD: "find_idx a xs = Some i \<Longrightarrow> i < length xs \<and> xs ! i = a \<and> a \<notin> set (take i xs)"
  by (induction xs arbitrary: i) (auto split: if_splits)

lemma find_idx_nth: "find_idx a xs = Some i \<Longrightarrow> xs ! i = a"
  by (blast dest: find_idx_SomeD)

lemma find_idx_less: "find_idx a xs = Some i \<Longrightarrow> i < length xs"
  by (blast dest: find_idx_SomeD)

lemma set_replace_first: "a \<in> set xs \<Longrightarrow> b \<in> set (replace_first a b xs)"
  by (induction xs) auto

lemma length_replace_first [simp]: "length (replace_first a b xs) = length xs"
  by (induction xs) auto

end
