(* ===== verification/GoStrings.thy ===== *)
theory GoStrings
  imports Prelude
begin

text \<open>
  The functions of Go's packages \<^verbatim>\<open>strings\<close> and \<^verbatim>\<open>path/filepath\<close> that the code calls, on byte
  strings, with the lemmas about them that the components share.
\<close>

section \<open>Prefixes and suffixes\<close>

definition HasPrefix :: "string \<Rightarrow> string \<Rightarrow> bool" where
  "HasPrefix s p \<longleftrightarrow> take (length p) s = p"

definition TrimPrefix :: "string \<Rightarrow> string \<Rightarrow> string" where
  "TrimPrefix s p = (if HasPrefix s p then drop (length p) s else s)"

definition HasSuffix :: "string \<Rightarrow> string \<Rightarrow> bool" where
  "HasSuffix s p \<longleftrightarrow> HasPrefix (rev s) (rev p)"

lemma HasPrefix_prefix: "HasPrefix s p \<longleftrightarrow> prefix p s"
  by (metis HasPrefix_def append_take_drop_id prefix_def append_eq_conv_conj)

lemma HasPrefix_append [simp]: "HasPrefix (p @ s) p"
  by (simp add: HasPrefix_prefix)

lemma HasPrefix_Nil [simp]: "HasPrefix s []"
  by (simp add: HasPrefix_def)

lemma HasPrefix_iff: "HasPrefix s p \<longleftrightarrow> (\<exists>t. s = p @ t)"
  by (auto simp: HasPrefix_prefix prefix_def)

lemma HasSuffix_iff: "HasSuffix s p \<longleftrightarrow> (\<exists>t. s = t @ p)"
proof
  assume "HasSuffix s p"
  then obtain t where "rev s = rev p @ t" by (auto simp: HasSuffix_def HasPrefix_iff)
  then have "s = rev t @ p" by (metis rev_append rev_rev_ident)
  then show "\<exists>t. s = t @ p" ..
qed (auto simp: HasSuffix_def HasPrefix_iff)

lemma TrimPrefix_append [simp]: "TrimPrefix (p @ s) p = s"
  by (simp add: TrimPrefix_def)

section \<open>Searching and splitting\<close>

text \<open>\<^verbatim>\<open>strings.Index\<close>: the position of the first occurrence; \<^verbatim>\<open>None\<close> for Go's \<^verbatim>\<open>-1\<close>.\<close>

fun Index :: "string \<Rightarrow> string \<Rightarrow> nat option" where
  "Index [] sub = (if sub = [] then Some 0 else None)"
| "Index (c # s) sub = (if HasPrefix (c # s) sub then Some 0 else map_option Suc (Index s sub))"

definition Contains :: "string \<Rightarrow> string \<Rightarrow> bool" where
  "Contains s sub \<longleftrightarrow> Index s sub \<noteq> None"

definition ContainsAny :: "string \<Rightarrow> string \<Rightarrow> bool" where
  "ContainsAny s chars \<longleftrightarrow> list_ex (\<lambda>c. c \<in> set chars) s"

text \<open>\<^verbatim>\<open>strings.Cut\<close>: the text before and after the first separator.\<close>

definition Cut :: "string \<Rightarrow> string \<Rightarrow> (string \<times> string) option" where
  "Cut s sep = (case Index s sep of None \<Rightarrow> None
     | Some i \<Rightarrow> Some (take i s, drop (i + length sep) s))"

lemma Index_Some: "Index s sub = Some i \<Longrightarrow> s = take i s @ sub @ drop (i + length sub) s \<and> i + length sub \<le> length s"
proof (induction s arbitrary: i)
  case Nil
  then show ?case by (auto split: if_splits)
next
  case (Cons c s)
  show ?case
  proof (cases "HasPrefix (c # s) sub")
    case True
    then obtain t where "c # s = sub @ t" by (auto simp: HasPrefix_iff)
    with True Cons.prems show ?thesis by (metis Index.simps(2) add_0 append_eq_conv_conj length_append
      le_add1 option.inject append_Nil take0)
  next
    case False
    with Cons show ?thesis by auto
  qed
qed

lemma Cut_shorter: "Cut s sep = Some (a, b) \<Longrightarrow> sep \<noteq> [] \<Longrightarrow> length b < length s"
proof -
  assume c: "Cut s sep = Some (a, b)" and ne: "sep \<noteq> []"
  then obtain i where i: "Index s sep = Some i" "b = drop (i + length sep) s"
    by (auto simp: Cut_def split: option.splits)
  have "i + length sep \<le> length s" "0 < length sep"
    using Index_Some [OF i(1)] ne by auto
  then show ?thesis using i(2) by (metis diff_less length_drop less_le_trans trans_less_add2)
qed

lemma Cut_Some: "Cut s sep = Some (a, b) \<Longrightarrow> s = a @ sep @ b"
  by (auto simp: Cut_def split: option.splits dest!: Index_Some)

text \<open>\<^verbatim>\<open>strings.Split(s, sep)\<close> for the non-empty separators the code passes.\<close>

function Split :: "string \<Rightarrow> string \<Rightarrow> string list" where
  "Split s sep = (if sep = [] then [s] else
     (case Cut s sep of None \<Rightarrow> [s] | Some (a, b) \<Rightarrow> a # Split b sep))"
  by pat_completeness auto
termination
  by (relation "measure (\<lambda>(s, sep). length s)") (auto dest: Cut_shorter)

declare Split.simps [simp del]

text \<open>\<^verbatim>\<open>strings.SplitN(s, sep, 2)\<close>.\<close>

definition SplitN2 :: "string \<Rightarrow> string \<Rightarrow> string list" where
  "SplitN2 s sep = (case Cut s sep of None \<Rightarrow> [s] | Some (a, b) \<Rightarrow> [a, b])"

text \<open>\<^verbatim>\<open>strings.Join\<close> and \<^verbatim>\<open>strings.ReplaceAll\<close> (for a non-empty \<^verbatim>\<open>old\<close>).\<close>

fun Join :: "string list \<Rightarrow> string \<Rightarrow> string" where
  "Join [] sep = []"
| "Join [s] sep = s"
| "Join (s # t # ts) sep = s @ sep @ Join (t # ts) sep"

definition ReplaceAll :: "string \<Rightarrow> string \<Rightarrow> string \<Rightarrow> string" where
  "ReplaceAll s old new = Join (Split s old) new"

lemma Split_neq_Nil [simp]: "Split s sep \<noteq> []"
  by (subst Split.simps) (auto split: option.splits)

lemma Join_Cons: "ts \<noteq> [] \<Longrightarrow> Join (s # ts) sep = s @ sep @ Join ts sep"
  by (cases ts) auto

lemma Join_Split: "Join (Split s sep) sep = s"
proof (induction s sep rule: Split.induct)
  case (1 s sep)
  show ?case
  proof (cases "sep = [] \<or> Cut s sep = None")
    case True
    then show ?thesis by (subst Split.simps) auto
  next
    case False
    then obtain a b where c: "Cut s sep = Some (a, b)" and "sep \<noteq> []" by auto
    have "Split s sep = a # Split b sep"
      using c \<open>sep \<noteq> []\<close> by (subst Split.simps) simp
    moreover have "Join (Split b sep) sep = b"
      using 1 \<open>sep \<noteq> []\<close> c by blast
    ultimately show ?thesis
      using Cut_Some [OF c] by (simp add: Join_Cons)
  qed
qed

text \<open>The first occurrence, and what has none.\<close>

lemma Index_None: "Index s sub = None \<longleftrightarrow> (\<forall>a b. s \<noteq> a @ sub @ b)"
proof (induction s)
  case Nil
  then show ?case by auto
next
  case (Cons c s)
  have "Index (c # s) sub = None \<longleftrightarrow> \<not> HasPrefix (c # s) sub \<and> Index s sub = None"
    by simp
  also have "\<dots> \<longleftrightarrow> (\<forall>a b. c # s \<noteq> a @ sub @ b)"
    unfolding Cons HasPrefix_iff by (metis append_Cons append_Nil neq_Nil_conv list.inject)
  finally show ?case .
qed

lemma Index_first:
  assumes "s = a @ sub @ b" and "\<And>a' b'. s = a' @ sub @ b' \<Longrightarrow> length a \<le> length a'"
  shows "Index s sub = Some (length a)"
proof -
  obtain i where i: "Index s sub = Some i"
    using assms(1) Index_None by fastforce
  have "i \<le> length a"
    using i assms(1)
  proof (induction s arbitrary: a i)
    case (Cons c s)
    show ?case
    proof (cases a)
      case Nil
      with Cons.prems have "HasPrefix (c # s) sub" by (auto simp: HasPrefix_iff)
      with Cons.prems(1) show ?thesis by (metis Index.simps(2) le0 option.inject)
    next
      case (Cons x xs)
      then show ?thesis using Cons.prems Cons.IH by (auto split: if_splits)
    qed
  qed auto
  moreover have "length a \<le> i"
    using assms(2) Index_Some [OF i] by (metis length_take min.absorb2 add_leE)
  ultimately show ?thesis using i by simp
qed

lemma Index_single: "c \<notin> set a \<Longrightarrow> Index (a @ c # b) [c] = Some (length a)"
  by (induction a) (auto simp: HasPrefix_def)

lemma Cut_single: "c \<notin> set a \<Longrightarrow> Cut (a @ c # b) [c] = Some (a, b)"
  by (simp add: Cut_def Index_single)

lemma Contains_single: "Contains s [c] \<longleftrightarrow> c \<in> set s"
proof
  assume "Contains s [c]"
  then obtain i where "Index s [c] = Some i" by (auto simp: Contains_def)
  from Index_Some [OF this] show "c \<in> set s"
    by (metis append_Cons in_set_conv_decomp)
next
  assume "c \<in> set s"
  then obtain a b where "s = a @ c # b" "c \<notin> set a" by (meson split_list_first)
  then show "Contains s [c]" by (simp add: Contains_def Index_single)
qed

lemma Cut_None_single: "c \<notin> set s \<Longrightarrow> Cut s [c] = None"
  using Contains_single [of s c] by (simp add: Cut_def Contains_def)

lemma Split_single_no: "c \<notin> set s \<Longrightarrow> Split s [c] = [s]"
  by (subst Split.simps) (simp add: Cut_None_single)

lemma Split_single_Cons: "c \<notin> set a \<Longrightarrow> Split (a @ c # b) [c] = a # Split b [c]"
  by (subst Split.simps) (simp add: Cut_single)

lemma Split_single_no_sep: "x \<in> set (Split s [c]) \<Longrightarrow> c \<notin> set x"
proof (induction s "[c]" rule: Split.induct)
  case (1 s)
  show ?case
  proof (cases "c \<in> set s")
    case False
    with 1(2) show ?thesis by (simp add: Split_single_no)
  next
    case True
    then obtain a b where s: "s = a @ c # b" "c \<notin> set a" by (meson split_list_first)
    then have "x = a \<or> x \<in> set (Split b [c])"
      using 1(2) by (simp add: Split_single_Cons)
    then show ?thesis
      using s 1(1) by (auto simp: Cut_single)
  qed
qed

text \<open>\<^verbatim>\<open>ReplaceAll(s, "c", "")\<close> with a one byte \<^verbatim>\<open>old\<close> deletes that byte.\<close>

lemma ReplaceAll_delete: "ReplaceAll s [c] [] = filter (\<lambda>x. x \<noteq> c) s"
proof (induction s "[c]" rule: Split.induct)
  case (1 s)
  show ?case
  proof (cases "c \<in> set s")
    case False
    then have "filter (\<lambda>x. x \<noteq> c) s = s" by (intro filter_True) auto
    with False show ?thesis by (simp add: ReplaceAll_def Split_single_no)
  next
    case True
    then obtain a b where s: "s = a @ c # b" "c \<notin> set a" by (meson split_list_first)
    have "ReplaceAll b [c] [] = filter (\<lambda>x. x \<noteq> c) b"
      using 1 s by (auto simp: Cut_single)
    moreover have "filter (\<lambda>x. x \<noteq> c) a = a"
      using s(2) by (intro filter_True) auto
    ultimately show ?thesis
      using s by (simp add: ReplaceAll_def Split_single_Cons Join_Cons)
  qed
qed

section \<open>White space and lines\<close>

text \<open>The UTF-8 encodings of the code points \<^verbatim>\<open>unicode.IsSpace\<close> accepts.\<close>

definition spaces :: "string list" where
  "spaces = [
    [CHR 0x09], [CHR 0x0A], [CHR 0x0B], [CHR 0x0C], [CHR 0x0D], '' '', [CHR 0xC2, CHR 0x85],
    [CHR 0xC2, CHR 0xA0], [CHR 0xE1, CHR 0x9A, CHR 0x80], [CHR 0xE2, CHR 0x80, CHR 0x80],
    [CHR 0xE2, CHR 0x80, CHR 0x81], [CHR 0xE2, CHR 0x80, CHR 0x82],
    [CHR 0xE2, CHR 0x80, CHR 0x83], [CHR 0xE2, CHR 0x80, CHR 0x84],
    [CHR 0xE2, CHR 0x80, CHR 0x85], [CHR 0xE2, CHR 0x80, CHR 0x86],
    [CHR 0xE2, CHR 0x80, CHR 0x87], [CHR 0xE2, CHR 0x80, CHR 0x88],
    [CHR 0xE2, CHR 0x80, CHR 0x89], [CHR 0xE2, CHR 0x80, CHR 0x8A],
    [CHR 0xE2, CHR 0x80, CHR 0xA8], [CHR 0xE2, CHR 0x80, CHR 0xA9],
    [CHR 0xE2, CHR 0x80, CHR 0xAF], [CHR 0xE2, CHR 0x81, CHR 0x9F],
    [CHR 0xE3, CHR 0x80, CHR 0x80]]"

function trim_with :: "string list \<Rightarrow> string \<Rightarrow> string" where
  "trim_with toks s = (case List.find (\<lambda>t. t \<noteq> [] \<and> HasPrefix s t) toks of
     None \<Rightarrow> s | Some t \<Rightarrow> trim_with toks (drop (length t) s))"
  by pat_completeness auto
termination
proof (relation "measure (\<lambda>(toks, s). length s)")
  fix toks :: "string list" and s t
  assume "List.find (\<lambda>t. t \<noteq> [] \<and> HasPrefix s t) toks = Some t"
  then have "t \<noteq> []" "HasPrefix s t" by (auto dest: find_Some_in)
  then show "((toks, drop (length t) s), toks, s) \<in> measure (\<lambda>(toks, s). length s)"
    by (auto simp: HasPrefix_iff)
qed simp

declare trim_with.simps [simp del]

definition TrimSpace :: "string \<Rightarrow> string" where
  "TrimSpace s = rev (trim_with (map rev spaces) (rev (trim_with spaces s)))"

text \<open>A string that neither begins nor ends with white space.\<close>

definition trimmed :: "string \<Rightarrow> bool" where
  "trimmed s \<longleftrightarrow> list_all (\<lambda>t. \<not> HasPrefix s t \<and> \<not> HasSuffix s t) spaces"

lemma trim_with_none: "list_all (\<lambda>t. t = [] \<or> \<not> HasPrefix s t) toks \<Longrightarrow> trim_with toks s = s"
  by (subst trim_with.simps) (auto simp: list_all_iff split: option.splits dest: find_Some_in)

lemma TrimSpace_trimmed: "trimmed s \<Longrightarrow> TrimSpace s = s"
proof -
  assume t: "trimmed s"
  then have "trim_with spaces s = s" "trim_with (map rev spaces) (rev s) = rev s"
    by (auto intro!: trim_with_none simp: trimmed_def list_all_iff HasSuffix_def)
  then show ?thesis by (simp add: TrimSpace_def)
qed

lemma TrimSpace_suffix_newline:
  "trimmed s \<Longrightarrow> s \<noteq> [] \<Longrightarrow> list_all (\<lambda>t. \<not> HasPrefix (s @ [CHR 0x0A]) t) spaces \<Longrightarrow> TrimSpace (s @ [CHR 0x0A]) = s"
proof -
  assume t: "trimmed s" "s \<noteq> []" and p: "list_all (\<lambda>t. \<not> HasPrefix (s @ [CHR 0x0A]) t) spaces"
  have l: "trim_with spaces (s @ [CHR 0x0A]) = s @ [CHR 0x0A]"
    using p by (auto intro!: trim_with_none simp: list_all_iff)
  have r: "trim_with (map rev spaces) (rev s) = rev s"
    using t by (auto intro!: trim_with_none simp: trimmed_def list_all_iff HasSuffix_def)
  have f: "List.find (\<lambda>t. t \<noteq> [] \<and> HasPrefix (CHR 0x0A # rev s) t) (map rev spaces) = Some [CHR 0x0A]"
    by (simp add: spaces_def HasPrefix_def)
  have "trim_with (map rev spaces) (CHR 0x0A # rev s) = rev s"
    by (subst trim_with.simps) (simp only: f, simp add: r)
  then show ?thesis using l by (simp add: TrimSpace_def)
qed

text \<open>
  \<^verbatim>\<open>bufio.Scanner\<close> over the lines of a file: a line ends at a newline, one carriage return before it
  is dropped, a last line without a newline counts if it is not empty, and a line that does not
  fit the buffer of 64 KiB ends the scan with an error (here the flag).
\<close>

definition drop_cr :: "string \<Rightarrow> string" where
  "drop_cr l = (if l \<noteq> [] \<and> last l = CHR 0x0D then butlast l else l)"

fun scan_lines_from :: "string list \<Rightarrow> string list \<times> bool" where
  "scan_lines_from [] = ([], True)"
| "scan_lines_from [l] = (if l = [] then ([], True) else if length l \<ge> 65536 then ([], False) else ([drop_cr l], True))"
| "scan_lines_from (l # m # ls) = (if length l \<ge> 65536 then ([], False)
     else (case scan_lines_from (m # ls) of (r, okay) \<Rightarrow> (drop_cr l # r, okay)))"

definition ScanLines :: "string \<Rightarrow> string list \<times> bool" where
  "ScanLines s = scan_lines_from (Split s [CHR 0x0A])"

definition line_ok :: "string \<Rightarrow> bool" where
  "line_ok l \<longleftrightarrow> CHR 0x0A \<notin> set l \<and> length l < 65536 \<and> drop_cr l = l"

abbreviation unlines :: "string list \<Rightarrow> string" where
  "unlines ls \<equiv> concat (map (\<lambda>l. l @ [CHR 0x0A]) ls)"

lemma Split_unlines: "list_all line_ok ls \<Longrightarrow> Split (unlines ls) [CHR 0x0A] = ls @ [[]]"
  by (induction ls) (auto simp: line_ok_def Split_single_no Split_single_Cons)

lemma ScanLines_unlines: "list_all line_ok ls \<Longrightarrow> ScanLines (unlines ls) = (ls, True)"
proof -
  have "scan_lines_from (ls @ [[]]) = (ls, True)" if "list_all line_ok ls" for ls
    using that
  proof (induction ls)
    case (Cons l ls)
    then obtain m ms where "ls @ [[]] = m # ms" by (cases ls) auto
    then show ?case using Cons by (auto simp: line_ok_def)
  qed simp
  then show "list_all line_ok ls \<Longrightarrow> ScanLines (unlines ls) = (ls, True)"
    by (simp add: ScanLines_def Split_unlines)
qed

end
