(* ===== verification/Contracts.thy ===== *)
theory Contracts
  imports Prelude
begin

text \<open>
  The interfaces that several components share, as locales: a store of values under keys, a
  store one can also delete from, and a cursor on a list in a window. The components
  interpret them on their own operations.
\<close>

section \<open>Stores of values under keys\<close>

locale keyed_store =
  fixes get :: "'s \<Rightarrow> 'k \<Rightarrow> 'v option"
    and put :: "'k \<Rightarrow> 'v \<Rightarrow> 's \<Rightarrow> 's"
    and invar :: "'s \<Rightarrow> bool"
  assumes put_invar: "invar s \<Longrightarrow> invar (put k v s)"
    and get_put: "invar s \<Longrightarrow> get (put k v s) k' = (if k' = k then Some v else get s k')"
begin

lemma get_put_same: "invar s \<Longrightarrow> get (put k v s) k = Some v"
  by (simp add: get_put)

lemma get_put_other: "invar s \<Longrightarrow> k' \<noteq> k \<Longrightarrow> get (put k v s) k' = get s k'"
  by (simp add: get_put)

lemma puts_invar: "invar s \<Longrightarrow> invar (fold (\<lambda>(k, v). put k v) ps s)"
  by (induction ps arbitrary: s) (auto simp: put_invar)

text \<open>Several writes: the last write of a key is what a lookup returns.\<close>

lemma get_puts:
  "invar s \<Longrightarrow> get (fold (\<lambda>(k, v). put k v) ps s) k =
     (case map_of (rev ps) k of Some v \<Rightarrow> Some v | None \<Rightarrow> get s k)"
proof (induction ps arbitrary: s)
  case (Cons p ps)
  obtain a b where [simp]: "p = (a, b)" by (cases p)
  have "map_of (rev ps @ [(a, b)]) k = (case map_of (rev ps) k of Some v \<Rightarrow> Some v | None \<Rightarrow> if k = a then Some b else None)"
    by (auto simp: map_add_def split: option.splits)
  then show ?case
    using Cons.IH [OF put_invar [OF Cons.prems]] Cons.prems by (simp add: get_put split: option.splits)
qed simp

lemma get_puts_other: "invar s \<Longrightarrow> k \<notin> fst ` set ps \<Longrightarrow> get (fold (\<lambda>(k, v). put k v) ps s) k = get s k"
  by (subst get_puts) (auto split: option.splits dest!: map_of_SomeD simp: rev_image_eqI)

lemma get_puts_distinct:
  "invar s \<Longrightarrow> distinct (map fst ps) \<Longrightarrow> (k, v) \<in> set ps \<Longrightarrow>
     get (fold (\<lambda>(k, v). put k v) ps s) k = Some v"
  by (subst get_puts) (simp_all add: rev_map [symmetric] map_of_is_SomeI)

end

locale deletable_store = keyed_store get put invar
  for get :: "'s \<Rightarrow> 'k \<Rightarrow> 'v option" and put :: "'k \<Rightarrow> 'v \<Rightarrow> 's \<Rightarrow> 's" and invar :: "'s \<Rightarrow> bool" +
  fixes del :: "'k \<Rightarrow> 's \<Rightarrow> 's"
  assumes del_invar: "invar s \<Longrightarrow> invar (del k s)"
    and get_del: "invar s \<Longrightarrow> get (del k s) k' = (if k' = k then None else get s k')"
begin

lemma get_del_same: "invar s \<Longrightarrow> get (del k s) k = None"
  by (simp add: get_del)

lemma dels_invar: "invar s \<Longrightarrow> invar (fold del ks s)"
  by (induction ks arbitrary: s) (auto simp: del_invar)

lemma get_dels: "invar s \<Longrightarrow> get (fold del ks s) k = (if k \<in> set ks then None else get s k)"
  by (induction ks arbitrary: s) (auto simp: get_del del_invar)

lemma del_put: "invar s \<Longrightarrow> get (del k (put k v s)) k' = (if k' = k then None else get s k')"
  by (simp add: get_del get_put put_invar)

end

text \<open>Go maps are such a store.\<close>

interpretation gomap: deletable_store mget mset wf_map mdel
  by unfold_locales simp_all

section \<open>A cursor on a list in a window\<close>

text \<open>
  The rows of a list are counted from the input line upwards; the window shows the rows from the offset
  on. A move clamps the cursor to the list, brings it into the window, and scrolls only if it has to.
\<close>

locale list_window =
  fixes cursor :: "'m \<Rightarrow> int" and offset :: "'m \<Rightarrow> int" and height :: "'m \<Rightarrow> int" and rows :: "'m \<Rightarrow> nat"
    and move :: "int \<Rightarrow> 'm \<Rightarrow> 'm"
  assumes move_cursor: "0 < rows m \<Longrightarrow> cursor (move d m) = max 0 (min (int (rows m) - 1) (cursor m + d))"
    and move_shown: "0 < rows m \<Longrightarrow> offset (move d m) \<le> cursor (move d m) \<and> cursor (move d m) < offset (move d m) + height m"
    and move_keeps: "0 < rows m \<Longrightarrow> offset m \<le> max (int (rows m) - height m) 0 \<Longrightarrow>
      offset m \<le> cursor (move d m) \<Longrightarrow> cursor (move d m) < offset m + height m \<Longrightarrow> offset (move d m) = offset m"
    and move_rows: "rows (move d m) = rows m" and move_height: "height (move d m) = height m"
begin

lemma moved_on_row: "0 < rows m \<Longrightarrow> 0 \<le> cursor (move d m) \<and> cursor (move d m) < int (rows m)"
  by (simp add: move_cursor)

text \<open>After any sequence of moves the cursor is on a row, and that row is shown.\<close>

lemma moves_shown:
  assumes "0 < rows m" "ds \<noteq> []" and m': "m' = fold move ds m"
  shows "0 \<le> cursor m' \<and> cursor m' < int (rows m) \<and> offset m' \<le> cursor m' \<and> cursor m' < offset m' + height m"
proof -
  obtain ds' d where ds: "ds = ds' @ [d]" using assms(2) by (cases ds rule: rev_cases) auto
  have "rows (fold move es m) = rows m \<and> height (fold move es m) = height m" for es
    by (induction es arbitrary: m) (simp_all add: move_rows move_height)
  then show ?thesis using assms(1) moved_on_row [of "fold move ds' m" d] move_shown [of "fold move ds' m" d] m' ds by simp
qed

lemma every_row_reached: "i < rows m \<Longrightarrow> \<exists>d. cursor (move d m) = int i"
  by (rule exI [of _ "int i - cursor m"]) (simp add: move_cursor)

lemma move_back:
  "0 \<le> cursor m \<Longrightarrow> cursor m < int (rows m) \<Longrightarrow> 0 \<le> cursor m + d \<Longrightarrow> cursor m + d < int (rows m) \<Longrightarrow>
     cursor (move (- d) (move d m)) = cursor m"
  by (simp add: move_cursor move_rows)

text \<open>A move that stays inside the window moves the marked line by as many lines.\<close>

lemma moved_lines:
  assumes "0 < rows m" "offset m \<le> max (int (rows m) - height m) 0" "0 \<le> cursor m + d" "cursor m + d < int (rows m)"
    and "offset m \<le> cursor m + d" "cursor m + d < offset m + height m"
  shows "cursor (move d m) - offset (move d m) = cursor m - offset m + d"
proof -
  have "cursor (move d m) = cursor m + d" using assms by (simp add: move_cursor)
  then show ?thesis using move_keeps [of m d] assms by simp
qed

end

end
