(* ===== verification/GoOS.thy ===== *)
theory GoOS
  imports GoStrings Contracts "HOL-Library.Word"
begin

unbundle bit_operations_syntax

text \<open>
  The parts of Go's standard library through which the program sees the outside: the file
  system, environment variables, the clock, standard output and \<^verbatim>\<open>path/filepath\<close>. A call is a
  function from the world to a result and the next world.

  The file system is a finite map from path strings to entries. A path string names one file:
  symbolic links, and two spellings of one path, are not modelled. Every operation first asks
  \<^verbatim>\<open>faults\<close>, an arbitrary function of the environment, whether it fails for a reason the map
  does not show (permissions, a full disk), so each error branch of the code can be taken.
\<close>

section \<open>path/filepath\<close>

abbreviation slash :: string where
  "slash \<equiv> ''/''"

text \<open>One path element against the elements kept so far, the last one first.\<close>

definition clean_step :: "bool \<Rightarrow> string \<Rightarrow> string list \<Rightarrow> string list" where
  "clean_step rooted e st =
     (if e = [] \<or> e = ''.'' then st
      else if e = ''..'' then
        (case st of [] \<Rightarrow> if rooted then [] else [''..'']
         | t # ts \<Rightarrow> if t = ''..'' then ''..'' # t # ts else ts)
      else e # st)"

definition Clean :: "string \<Rightarrow> string" where
  "Clean p =
     (let rooted = HasPrefix p slash;
          st = rev (fold (clean_step rooted) (Split p slash) [])
      in if rooted then slash @ Join st slash
         else if st = [] then ''.'' else Join st slash)"

definition JoinPath :: "string list \<Rightarrow> string" where
  "JoinPath es = (case dropWhile (\<lambda>e. e = []) es of [] \<Rightarrow> [] | es' \<Rightarrow> Clean (Join es' slash))"

text \<open>The text after the last slash, and the text before it.\<close>

definition after_last_slash :: "string \<Rightarrow> string" where
  "after_last_slash p = rev (takeWhile (\<lambda>c. c \<noteq> CHR ''/'') (rev p))"

definition upto_last_slash :: "string \<Rightarrow> string" where
  "upto_last_slash p = rev (dropWhile (\<lambda>c. c \<noteq> CHR ''/'') (rev p))"

definition BasePath :: "string \<Rightarrow> string" where
  "BasePath p =
     (if p = [] then ''.''
      else let q = rev (dropWhile (\<lambda>c. c = CHR ''/'') (rev p))
           in if q = [] then slash else after_last_slash q)"

definition DirPath :: "string \<Rightarrow> string" where
  "DirPath p = Clean (upto_last_slash p)"

text \<open>\<^verbatim>\<open>filepath.SplitList\<close> on Unix: the empty list for the empty string.\<close>

definition SplitList :: "string \<Rightarrow> string list" where
  "SplitList p = (if p = [] then [] else Split p '':'')"

text \<open>
  A name that is one path element and is not \<^verbatim>\<open>.\<close> or \<^verbatim>\<open>..\<close>, and a directory that \<^verbatim>\<open>Clean\<close>
  leaves as it is.
\<close>

definition plain_elem :: "string \<Rightarrow> bool" where
  "plain_elem e \<longleftrightarrow> e \<noteq> [] \<and> e \<noteq> ''.'' \<and> e \<noteq> ''..'' \<and> CHR ''/'' \<notin> set e"

lemma clean_step_plain: "plain_elem e \<Longrightarrow> clean_step r e st = e # st"
  by (simp add: clean_step_def plain_elem_def)

lemma Join_snoc: "ss \<noteq> [] \<Longrightarrow> Join (ss @ [s]) sep = Join ss sep @ sep @ s"
proof (induction ss)
  case (Cons a ss)
  show ?case
  proof (cases ss)
    case Nil
    then show ?thesis by simp
  next
    case (Cons b bs)
    then have "ss \<noteq> []" by simp
    with Cons.IH [OF this] show ?thesis by (simp add: Join_Cons)
  qed
qed simp

lemma Split_single_snoc:
  "c \<notin> set b \<Longrightarrow> Split (a @ c # b) [c] = Split a [c] @ [b]"
proof (induction a "[c]" rule: Split.induct)
  case (1 a)
  show ?case
  proof (cases "c \<in> set a")
    case False
    with 1(2) show ?thesis by (simp add: Split_single_Cons Split_single_no)
  next
    case True
    then obtain x y where a: "a = x @ c # y" "c \<notin> set x" by (meson split_list_first)
    then have "Split (y @ c # b) [c] = Split y [c] @ [b]"
      using 1 by (auto simp: Cut_single)
    with a show ?thesis by (simp add: Split_single_Cons)
  qed
qed

text \<open>\<^verbatim>\<open>filepath.Join(dir, name)\<close> for a plain name stays directly below a clean directory.\<close>

lemma JoinPath_plain:
  assumes dir: "Clean dir = dir" "dir \<noteq> []" "dir \<noteq> slash" "dir \<noteq> ''.''"
    and e: "plain_elem e"
  shows "JoinPath [dir, e] = dir @ slash @ e"
proof -
  let ?r = "HasPrefix dir slash" and ?st = "fold (clean_step (HasPrefix dir slash)) (Split dir slash) []"
  have c: "CHR ''/'' \<notin> set e" using e by (simp add: plain_elem_def)
  have hp: "HasPrefix (dir @ CHR ''/'' # e) slash = ?r"
    using dir(2) by (cases dir) (auto simp: HasPrefix_def)
  have st: "fold (clean_step ?r) (Split (dir @ CHR ''/'' # e) slash) [] = e # ?st"
    using Split_single_snoc [OF c, of dir] by (simp add: clean_step_plain [OF e])
  have ne: "?st \<noteq> []"
  proof
    assume "?st = []"
    then have "Clean dir = (if ?r then slash else ''.'')" by (simp add: Clean_def)
    with dir show False by (auto split: if_splits)
  qed
  have "JoinPath [dir, e] = Clean (dir @ CHR ''/'' # e)"
    using dir(2) by (simp add: JoinPath_def)
  also have "\<dots> = (if ?r then slash else []) @ Join (rev ?st @ [e]) slash"
    by (simp add: Clean_def hp st)
  also have "\<dots> = ((if ?r then slash else []) @ Join (rev ?st) slash) @ slash @ e"
    using ne by (simp add: Join_snoc)
  also have "(if ?r then slash else []) @ Join (rev ?st) slash = dir"
    using ne dir(1) unfolding Clean_def by (simp add: Let_def split: if_splits)
  finally show ?thesis .
qed

section \<open>The world\<close>

type_synonym perm = "9 word"

datatype fentry = FileE string perm | DirE perm

datatype fsop = OpStat | OpRead | OpReadDir | OpCreate | OpWrite | OpRemove | OpRename | OpMkdir | OpChmod | OpClose

record world =
  disk :: "(string \<times> fentry) list"
  faults :: "fsop \<Rightarrow> string \<Rightarrow> oserr option"
  getenv :: "string \<Rightarrow> string"   \<comment> \<open>\<^verbatim>\<open>os.Getenv\<close>: empty when the variable is unset\<close>
  clock :: int                    \<comment> \<open>\<^verbatim>\<open>time.Now().UTC()\<close> in nanoseconds\<close>
  umask :: perm
  rnd :: "nat \<Rightarrow> string"          \<comment> \<open>the strings \<^verbatim>\<open>os.CreateTemp\<close> draws, in order\<close>
  rnd_pos :: nat
  out :: "string list"            \<comment> \<open>what was printed, the last line first\<close>

type_synonym 'a io = "world \<Rightarrow> 'a res \<times> world"

definition returnIO :: "'a \<Rightarrow> 'a io" where
  "returnIO a = (\<lambda>w. (Ok a, w))"

definition failIO :: "gerror \<Rightarrow> 'a io" where
  "failIO e = (\<lambda>w. (Err e, w))"

definition liftR :: "'a res \<Rightarrow> 'a io" where
  "liftR r = (\<lambda>w. (r, w))"

definition bindIO :: "'a io \<Rightarrow> ('a \<Rightarrow> 'b io) \<Rightarrow> 'b io" where
  "bindIO m f = (\<lambda>w. case m w of (Ok a, w') \<Rightarrow> f a w' | (Err e, w') \<Rightarrow> (Err e, w')
     | (Panic p, w') \<Rightarrow> (Panic p, w'))"

text \<open>\<^verbatim>\<open>if err != nil { ... } else { ... }\<close>: go on with the value or with the error.\<close>

definition tryIO :: "'a io \<Rightarrow> ('a \<Rightarrow> 'b io) \<Rightarrow> (gerror \<Rightarrow> 'b io) \<Rightarrow> 'b io" where
  "tryIO m f g = (\<lambda>w. case m w of (Ok a, w') \<Rightarrow> f a w' | (Err e, w') \<Rightarrow> g e w'
     | (Panic p, w') \<Rightarrow> (Panic p, w'))"

definition wrapIO :: "string \<Rightarrow> string list \<Rightarrow> 'a io \<Rightarrow> 'a io" where
  "wrapIO s args m = tryIO m returnIO (\<lambda>e. failIO (Wrapf s args e))"

text \<open>\<^verbatim>\<open>_ = f()\<close>: the error is dropped.\<close>

definition ignoreIO :: "'a io \<Rightarrow> unit io" where
  "ignoreIO m = tryIO m (\<lambda>_. returnIO ()) (\<lambda>_. returnIO ())"

text \<open>A \<^verbatim>\<open>defer\<close>: the clean-up runs after the body whatever its outcome.\<close>

definition finallyIO :: "'a io \<Rightarrow> unit io \<Rightarrow> 'a io" where
  "finallyIO m c = (\<lambda>w. case m w of (r, w') \<Rightarrow> (r, snd (c w')))"

text \<open>The outcome as a value, for a caller that goes on after an error.\<close>

definition attemptIO :: "'a io \<Rightarrow> 'a res io" where
  "attemptIO m = tryIO m (\<lambda>a. returnIO (Ok a)) (\<lambda>e. returnIO (Err e))"

fun foldIO :: "('a \<Rightarrow> 's \<Rightarrow> 's io) \<Rightarrow> 'a list \<Rightarrow> 's \<Rightarrow> 's io" where
  "foldIO f [] s = returnIO s"
| "foldIO f (x # xs) s = bindIO (f x s) (foldIO f xs)"

lemmas io_defs = returnIO_def failIO_def liftR_def bindIO_def tryIO_def wrapIO_def ignoreIO_def

lemma returnIO_apply [simp]: "returnIO a w = (Ok a, w)"
  by (simp add: io_defs)

lemma failIO_apply [simp]: "failIO e w = (Err e, w)"
  by (simp add: io_defs)

lemma liftR_apply [simp]: "liftR r w = (r, w)"
  by (simp add: io_defs)

lemma bindIO_Ok [simp]: "m w = (Ok a, w') \<Longrightarrow> bindIO m f w = f a w'"
  by (simp add: io_defs)

lemma bindIO_Err [simp]: "m w = (Err e, w') \<Longrightarrow> bindIO m f w = (Err e, w')"
  by (simp add: io_defs)

lemma bindIO_Panic [simp]: "m w = (Panic p, w') \<Longrightarrow> bindIO m f w = (Panic p, w')"
  by (simp add: io_defs)

lemma tryIO_Ok [simp]: "m w = (Ok a, w') \<Longrightarrow> tryIO m f g w = f a w'"
  by (simp add: io_defs)

lemma tryIO_Err [simp]: "m w = (Err e, w') \<Longrightarrow> tryIO m f g w = g e w'"
  by (simp add: io_defs)

lemma tryIO_Panic [simp]: "m w = (Panic p, w') \<Longrightarrow> tryIO m f g w = (Panic p, w')"
  by (simp add: io_defs)

lemma wrapIO_Ok [simp]: "m w = (Ok a, w') \<Longrightarrow> wrapIO s args m w = (Ok a, w')"
  by (simp add: wrapIO_def)

lemma wrapIO_Err [simp]: "m w = (Err e, w') \<Longrightarrow> wrapIO s args m w = (Err (Wrapf s args e), w')"
  by (simp add: wrapIO_def)

lemma bindIO_Ok_iff:
  "bindIO m f w = (Ok b, w2) \<longleftrightarrow> (\<exists>a w1. m w = (Ok a, w1) \<and> f a w1 = (Ok b, w2))"
  by (auto simp: bindIO_def split: prod.splits res.splits)

lemma tryIO_apply: "tryIO m f g w = (case m w of (Ok a, w') \<Rightarrow> f a w' | (Err e, w') \<Rightarrow> g e w'
     | (Panic p, w') \<Rightarrow> (Panic p, w'))"
  by (simp add: tryIO_def)

lemma bindIO_apply: "bindIO m f w = (case m w of (Ok a, w') \<Rightarrow> f a w' | (Err e, w') \<Rightarrow> (Err e, w')
     | (Panic p, w') \<Rightarrow> (Panic p, w'))"
  by (simp add: bindIO_def)

lemma wrapIO_apply: "wrapIO s args m w = (case m w of (Ok a, w') \<Rightarrow> (Ok a, w')
     | (Err e, w') \<Rightarrow> (Err (Wrapf s args e), w') | (Panic p, w') \<Rightarrow> (Panic p, w'))"
  by (simp add: wrapIO_def tryIO_def split: prod.splits res.splits)

lemma wrapIO_Ok_iff [simp]: "wrapIO s args m w = (Ok a, w') \<longleftrightarrow> m w = (Ok a, w')"
  by (auto simp: wrapIO_apply split: prod.splits res.splits)

lemma finallyIO_apply: "finallyIO m c w = (fst (m w), snd (c (snd (m w))))"
  by (simp add: finallyIO_def split: prod.splits)

lemma foldIO_inv:
  assumes "foldIO f xs s w = (r, w')" and "I w"
    and "\<And>x s w r w'. x \<in> set xs \<Longrightarrow> I w \<Longrightarrow> f x s w = (r, w') \<Longrightarrow> I w'"
  shows "I w'"
  using assms
proof (induction xs arbitrary: s w)
  case (Cons x xs)
  obtain r1 w1 where f: "f x s w = (r1, w1)" by (cases "f x s w")
  have I1: "I w1" by (rule Cons.prems(3) [OF _ Cons.prems(2) f]) simp
  have step: "\<And>x s w r w'. x \<in> set xs \<Longrightarrow> I w \<Longrightarrow> f x s w = (r, w') \<Longrightarrow> I w'"
    using Cons.prems(3) by (metis list.set_intros(2))
  have rest: "I w'" if "foldIO f xs s1 w1 = (r, w')" for s1
    by (rule Cons.IH [OF that I1]) (rule step)
  show ?case
    using Cons.prems(1) f I1 rest by (cases r1) (auto simp: bindIO_apply)
qed simp

section \<open>os: reading\<close>

definition with_fault :: "fsop \<Rightarrow> string \<Rightarrow> 'a io \<Rightarrow> 'a io" where
  "with_fault oper p m = (\<lambda>w. case faults w oper p of Some e \<Rightarrow> (Err (PathErr e p), w) | None \<Rightarrow> m w)"

definition os_Stat :: "string \<Rightarrow> fentry io" where
  "os_Stat p = with_fault OpStat p (\<lambda>w. (case map_of (disk w) p of
     None \<Rightarrow> Err (PathErr ENOENT p) | Some f \<Rightarrow> Ok f, w))"

definition os_ReadFile :: "string \<Rightarrow> string io" where
  "os_ReadFile p = with_fault OpRead p (\<lambda>w. (case map_of (disk w) p of
     None \<Rightarrow> Err (PathErr ENOENT p) | Some (DirE m) \<Rightarrow> Err (PathErr EISDIR p)
     | Some (FileE bs m) \<Rightarrow> Ok bs, w))"

text \<open>A directory entry as \<^verbatim>\<open>os.ReadDir\<close> returns it; they come sorted by name.\<close>

datatype dirent = DirEnt (dname: string) (disdir: bool)

instantiation dirent :: linorder
begin

definition less_eq_dirent :: "dirent \<Rightarrow> dirent \<Rightarrow> bool" where
  "less_eq_dirent a b \<longleftrightarrow> dname a < dname b \<or> (dname a = dname b \<and> disdir a \<le> disdir b)"

definition less_dirent :: "dirent \<Rightarrow> dirent \<Rightarrow> bool" where
  "less_dirent a b \<longleftrightarrow> dname a < dname b \<or> (dname a = dname b \<and> disdir a < disdir b)"

instance
  by standard (auto simp: less_eq_dirent_def less_dirent_def intro: dirent.expand)

end

definition raw_parent :: "string \<Rightarrow> string" where
  "raw_parent p = butlast (upto_last_slash p)"

text \<open>The name of \<^verbatim>\<open>p\<close> inside the directory \<^verbatim>\<open>d\<close>, if it is directly inside it.\<close>

definition child_name :: "string \<Rightarrow> string \<Rightarrow> string option" where
  "child_name d p =
     (let n = TrimPrefix p (d @ slash)
      in if HasPrefix p (d @ slash) \<and> n \<noteq> [] \<and> CHR ''/'' \<notin> set n then Some n else None)"

definition is_dir_entry :: "fentry \<Rightarrow> bool" where
  "is_dir_entry f = (case f of DirE m \<Rightarrow> True | FileE bs m \<Rightarrow> False)"

definition children :: "(string \<times> fentry) list \<Rightarrow> string \<Rightarrow> dirent list" where
  "children d dir = sort (List.map_filter (\<lambda>(p, f). map_option (\<lambda>n. DirEnt n (is_dir_entry f)) (child_name dir p)) d)"

definition os_ReadDir :: "string \<Rightarrow> dirent list io" where
  "os_ReadDir p = with_fault OpReadDir p (\<lambda>w. (case map_of (disk w) p of
     None \<Rightarrow> Err (PathErr ENOENT p) | Some (FileE bs m) \<Rightarrow> Err (PathErr ENOTDIR p)
     | Some (DirE m) \<Rightarrow> Ok (children (disk w) p), w))"

section \<open>os: writing\<close>

definition dir_ok :: "(string \<times> fentry) list \<Rightarrow> string \<Rightarrow> bool" where
  "dir_ok d p \<longleftrightarrow> p = [] \<or> p = ''.'' \<or> (\<exists>m. map_of d p = Some (DirE m))"

lemma dir_ok_code [code]:
  "dir_ok d p = (p = [] \<or> p = ''.'' \<or> (case map_of d p of Some (DirE m) \<Rightarrow> True | _ \<Rightarrow> False))"
  by (auto simp: dir_ok_def split: option.splits fentry.splits)

definition set_disk :: "(string \<times> fentry) list \<Rightarrow> world \<Rightarrow> world" where
  "set_disk d w = w\<lparr>disk := d\<rparr>"

text \<open>
  Open for writing: \<^verbatim>\<open>os.Create\<close> truncates an existing file, \<^verbatim>\<open>O_APPEND\<close> keeps its bytes. The
  mode is used for a new file only. Each handle the code opens writes at the end of the file.
\<close>

definition os_open_write :: "bool \<Rightarrow> perm \<Rightarrow> string \<Rightarrow> unit io" where
  "os_open_write truncate_it mode p = with_fault OpCreate p (\<lambda>w.
     (case map_of (disk w) p of
        Some (DirE m) \<Rightarrow> (Err (PathErr EISDIR p), w)
      | Some (FileE bs m) \<Rightarrow>
          (Ok (), if truncate_it then w\<lparr>disk := AList.update p (FileE [] m) (disk w)\<rparr> else w)
      | None \<Rightarrow>
          if dir_ok (disk w) (raw_parent p)
          then (Ok (), w\<lparr>disk := AList.update p (FileE [] (mode AND NOT (umask w))) (disk w)\<rparr>)
          else (Err (PathErr ENOENT p), w)))"

definition os_Create :: "string \<Rightarrow> unit io" where
  "os_Create = os_open_write True 438"

definition file_Write :: "string \<Rightarrow> string \<Rightarrow> unit io" where
  "file_Write p bs = with_fault OpWrite p (\<lambda>w.
     (case map_of (disk w) p of
        Some (FileE old m) \<Rightarrow> (Ok (), w\<lparr>disk := AList.update p (FileE (old @ bs) m) (disk w)\<rparr>)
      | _ \<Rightarrow> (Err (PathErr ENOENT p), w)))"

definition file_Close :: "string \<Rightarrow> unit io" where
  "file_Close p = with_fault OpClose p (\<lambda>w. (Ok (), w))"

text \<open>\<^verbatim>\<open>os.WriteFile\<close>.\<close>

definition os_WriteFile :: "string \<Rightarrow> string \<Rightarrow> perm \<Rightarrow> unit io" where
  "os_WriteFile p bs mode = bindIO (os_open_write True mode p) (\<lambda>_. file_Write p bs)"

definition os_Remove :: "string \<Rightarrow> unit io" where
  "os_Remove p = with_fault OpRemove p (\<lambda>w.
     (case map_of (disk w) p of
        None \<Rightarrow> (Err (PathErr ENOENT p), w)
      | Some f \<Rightarrow>
          if is_dir_entry f \<and> children (disk w) p \<noteq> []
          then (Err (PathErr (EOTHER ''ENOTEMPTY'') p), w)
          else (Ok (), w\<lparr>disk := AList.delete p (disk w)\<rparr>)))"

definition os_RemoveAll :: "string \<Rightarrow> unit io" where
  "os_RemoveAll p = with_fault OpRemove p (\<lambda>w.
     (Ok (), w\<lparr>disk := filter (\<lambda>(q, f). q \<noteq> p \<and> \<not> HasPrefix q (p @ slash)) (disk w)\<rparr>))"

definition os_Rename :: "string \<Rightarrow> string \<Rightarrow> unit io" where
  "os_Rename a b = with_fault OpRename a (\<lambda>w.
     (case (map_of (disk w) a, map_of (disk w) b) of
        (None, _) \<Rightarrow> (Err (PathErr ENOENT a), w)
      | (Some f, Some (DirE m)) \<Rightarrow> (Err (PathErr EEXIST b), w)
      | (Some f, _) \<Rightarrow> (Ok (), w\<lparr>disk := AList.update b f (AList.delete a (disk w))\<rparr>)))"

definition os_Mkdir :: "string \<Rightarrow> perm \<Rightarrow> unit io" where
  "os_Mkdir p mode = with_fault OpMkdir p (\<lambda>w.
     (if map_of (disk w) p \<noteq> None then (Err (PathErr EEXIST p), w)
      else if dir_ok (disk w) (raw_parent p)
      then (Ok (), w\<lparr>disk := AList.update p (DirE (mode AND NOT (umask w))) (disk w)\<rparr>)
      else (Err (PathErr ENOENT p), w)))"

lemma raw_parent_shorter: "CHR ''/'' \<in> set p \<Longrightarrow> length (raw_parent p) < length p"
proof -
  assume "CHR ''/'' \<in> set p"
  then have "upto_last_slash p \<noteq> []"
    by (simp add: upto_last_slash_def)
  moreover have "length (upto_last_slash p) \<le> length p"
    using length_dropWhile_le [of _ "rev p"] by (simp add: upto_last_slash_def)
  ultimately show ?thesis
    unfolding raw_parent_def by (cases "upto_last_slash p" rule: rev_cases) auto
qed

function os_MkdirAll :: "string \<Rightarrow> perm \<Rightarrow> unit io" where
  "os_MkdirAll p mode =
     (\<lambda>w. case map_of (disk w) p of
        Some (DirE m) \<Rightarrow> (Ok (), w)
      | Some (FileE bs m) \<Rightarrow> (Err (PathErr ENOTDIR p), w)
      | None \<Rightarrow>
          (if p = [] \<or> p = ''.'' then (Ok (), w)
           else if CHR ''/'' \<in> set p
           then bindIO (os_MkdirAll (raw_parent p) mode) (\<lambda>_. os_Mkdir p mode) w
           else os_Mkdir p mode w))"
  by pat_completeness auto
termination
  by (relation "measure (\<lambda>(p, mode). length p)") (auto simp: raw_parent_shorter)

declare os_MkdirAll.simps [simp del]

definition os_Chmod :: "string \<Rightarrow> perm \<Rightarrow> unit io" where
  "os_Chmod p mode = with_fault OpChmod p (\<lambda>w.
     (case map_of (disk w) p of
        None \<Rightarrow> (Err (PathErr ENOENT p), w)
      | Some (FileE bs m) \<Rightarrow> (Ok (), w\<lparr>disk := AList.update p (FileE bs mode) (disk w)\<rparr>)
      | Some (DirE m) \<Rightarrow> (Ok (), w\<lparr>disk := AList.update p (DirE mode) (disk w)\<rparr>)))"

text \<open>
  \<^verbatim>\<open>os.CreateTemp(dir, pattern)\<close>: the last \<^verbatim>\<open>*\<close> of the pattern (here given as the text before
  and after it) is replaced by a random string until the name is new, at most 10000 times.
\<close>

fun create_temp :: "nat \<Rightarrow> string \<Rightarrow> string \<Rightarrow> string \<Rightarrow> string io" where
  "create_temp 0 dir pre post = failIO (PathErr EEXIST (dir @ slash @ pre @ ''*'' @ post))"
| "create_temp (Suc n) dir pre post = (\<lambda>w.
     let p = dir @ slash @ pre @ rnd w (rnd_pos w) @ post; w' = w\<lparr>rnd_pos := Suc (rnd_pos w)\<rparr>
     in if map_of (disk w) p \<noteq> None then create_temp n dir pre post w'
        else bindIO (os_open_write True 384 p) (\<lambda>_. returnIO p) w')"

definition os_CreateTemp :: "string \<Rightarrow> string \<Rightarrow> string \<Rightarrow> string io" where
  "os_CreateTemp = create_temp 10000"

section \<open>Reading back what was written\<close>

definition file_bytes :: "world \<Rightarrow> string \<Rightarrow> string option" where
  "file_bytes w p = (case map_of (disk w) p of Some (FileE bs m) \<Rightarrow> Some bs | _ \<Rightarrow> None)"

definition file_perm :: "world \<Rightarrow> string \<Rightarrow> perm option" where
  "file_perm w p = (case map_of (disk w) p of Some (FileE bs m) \<Rightarrow> Some m | _ \<Rightarrow> None)"

definition is_file :: "world \<Rightarrow> string \<Rightarrow> bool" where
  "is_file w p \<longleftrightarrow> file_bytes w p \<noteq> None"

definition put_file :: "perm \<Rightarrow> string \<Rightarrow> string \<Rightarrow> world \<Rightarrow> world" where
  "put_file mode p bs w = w\<lparr>disk := AList.update p
     (FileE bs (case file_perm w p of Some m \<Rightarrow> m | None \<Rightarrow> mode AND NOT (umask w))) (disk w)\<rparr>"

definition del_file :: "string \<Rightarrow> world \<Rightarrow> world" where
  "del_file p w = w\<lparr>disk := AList.delete p (disk w)\<rparr>"

definition creatable :: "world \<Rightarrow> string \<Rightarrow> bool" where
  "creatable w p \<longleftrightarrow> faults w OpCreate p = None \<and>
     (case map_of (disk w) p of Some f \<Rightarrow> \<not> is_dir_entry f | None \<Rightarrow> dir_ok (disk w) (raw_parent p))"

definition writable :: "world \<Rightarrow> string \<Rightarrow> bool" where
  "writable w p \<longleftrightarrow> creatable w p \<and> faults w OpWrite p = None"

text \<open>Nothing but the file system differs.\<close>

definition only_disk :: "world \<Rightarrow> world \<Rightarrow> bool" where
  "only_disk w w' \<longleftrightarrow> w' = w\<lparr>disk := disk w'\<rparr>"

lemma only_disk_trans: "only_disk a b \<Longrightarrow> only_disk b c \<Longrightarrow> only_disk a c"
  by (cases a; cases b; cases c) (simp add: only_disk_def)

lemma only_disk_refl [simp]: "only_disk w w"
  by (simp add: only_disk_def)

lemma only_disk_env: "only_disk w w' \<Longrightarrow> faults w' = faults w \<and> getenv w' = getenv w \<and> clock w' = clock w \<and>
   umask w' = umask w \<and> rnd w' = rnd w \<and> rnd_pos w' = rnd_pos w \<and> out w' = out w"
  unfolding only_disk_def by (metis world.select_convs(2-8) world.update_convs(1) world.surjective)

lemma alist_update_update [simp]: "AList.update k a (AList.update k b m) = AList.update k a m"
  by (induction m) auto

interpretation fs: deletable_store file_bytes "put_file mode" "\<lambda>_. True" del_file
  by unfold_locales (auto simp: file_bytes_def put_file_def del_file_def)

lemma put_file_frame [simp]:
  "faults (put_file mode p bs w) = faults w" "getenv (put_file mode p bs w) = getenv w"
  "clock (put_file mode p bs w) = clock w" "umask (put_file mode p bs w) = umask w"
  "out (put_file mode p bs w) = out w" "only_disk w (put_file mode p bs w)"
  by (simp_all add: put_file_def only_disk_def)

lemma file_bytes_put [disk_simps, simp]:
  "file_bytes (put_file mode p bs w) q = (if q = p then Some bs else file_bytes w q)"
  by (simp add: fs.get_put)

lemma put_file_put_file [simp]: "put_file mode p b (put_file mode' p a w) = put_file mode' p b w"
  by (simp add: put_file_def file_perm_def)

lemma os_ReadFile_Ok [disk_simps]:
  "os_ReadFile p w = (Ok bs, w') \<longleftrightarrow> w' = w \<and> faults w OpRead p = None \<and> file_bytes w p = Some bs"
  by (auto simp: os_ReadFile_def with_fault_def file_bytes_def split: option.splits fentry.splits)

lemma os_open_write_True [disk_simps]:
  "os_open_write True mode p w =
     (if creatable w p then (Ok (), put_file mode p [] w)
      else (Err (PathErr (case faults w OpCreate p of Some e \<Rightarrow> e | None \<Rightarrow>
              if map_of (disk w) p = None then ENOENT else EISDIR) p), w))"
  by (auto simp: os_open_write_def with_fault_def creatable_def put_file_def file_perm_def is_dir_entry_def
      split: option.splits fentry.splits)

lemma file_Write_after_open [disk_simps]:
  "file_Write p bs (put_file mode p b w) =
     (case faults w OpWrite p of Some e \<Rightarrow> (Err (PathErr e p), put_file mode p b w)
      | None \<Rightarrow> (Ok (), put_file mode p (b @ bs) w))"
  by (auto simp: file_Write_def with_fault_def put_file_def file_perm_def split: option.splits fentry.splits)

lemma os_WriteFile_ok: "writable w p \<Longrightarrow> os_WriteFile p bs mode w = (Ok (), put_file mode p bs w)"
  by (simp add: os_WriteFile_def writable_def disk_simps)

lemma os_WriteFile_Ok [disk_simps]:
  "os_WriteFile p bs mode w = (Ok u, w') \<longleftrightarrow> writable w p \<and> w' = put_file mode p bs w"
  by (auto simp: os_WriteFile_def writable_def bindIO_def disk_simps split: option.splits if_splits)

lemma os_Stat_snd [simp]: "snd (os_Stat p w) = w"
  by (simp add: os_Stat_def with_fault_def split: option.split)

lemma os_ReadFile_snd [simp]: "snd (os_ReadFile p w) = w"
  by (simp add: os_ReadFile_def with_fault_def split: option.split)

lemma os_Stat_same: "os_Stat p w = (r, w') \<Longrightarrow> w' = w"
  using os_Stat_snd [of p w] by simp

lemma os_ReadFile_same: "os_ReadFile p w = (r, w') \<Longrightarrow> w' = w"
  using os_ReadFile_snd [of p w] by simp

lemma os_Stat_file: "is_file w p \<Longrightarrow> faults w OpStat p = None \<Longrightarrow> \<exists>f. os_Stat p w = (Ok f, w)"
  by (auto simp: os_Stat_def with_fault_def is_file_def file_bytes_def split: option.splits)

lemma os_Remove_file:
  "is_file w p \<Longrightarrow> faults w OpRemove p = None \<Longrightarrow> os_Remove p w = (Ok (), del_file p w)"
  by (auto simp: os_Remove_def with_fault_def del_file_def is_file_def file_bytes_def is_dir_entry_def
      split: option.splits fentry.splits)

lemma file_bytes_rnd [simp]: "file_bytes (w\<lparr>rnd_pos := n\<rparr>) = file_bytes w"
  by (simp add: file_bytes_def fun_eq_iff)

lemma create_temp_Ok:
  assumes "create_temp n dir pre post w = (Ok p, w')"
  shows "\<exists>r m. p = dir @ slash @ pre @ r @ post \<and> map_of (disk w) p = None \<and>
     w' = put_file 384 p [] (w\<lparr>rnd_pos := m\<rparr>)"
  using assms
proof (induction n arbitrary: w)
  case (Suc n)
  let ?p = "dir @ slash @ pre @ rnd w (rnd_pos w) @ post" and ?w = "w\<lparr>rnd_pos := Suc (rnd_pos w)\<rparr>"
  show ?case
  proof (cases "map_of (disk w) ?p = None")
    case True
    with Suc.prems have "os_open_write True 384 ?p ?w = (Ok (), w')" "p = ?p"
      by (auto simp: Let_def bindIO_Ok_iff)
    then show ?thesis using True by (auto simp: disk_simps split: if_splits)
  next
    case False
    then have "create_temp n dir pre post ?w = (Ok p, w')"
      using Suc.prems by (simp add: Let_def)
    from Suc.IH [OF this] show ?thesis by simp
  qed
qed simp

lemma create_temp_not_Ok:
  "create_temp n dir pre post w = (r, w') \<Longrightarrow> \<not> is_ok r \<Longrightarrow> \<not> is_panic r \<and> (\<exists>m. w' = w\<lparr>rnd_pos := m\<rparr>)"
proof (induction n arbitrary: w)
  case 0
  then show ?case by (auto intro!: exI [of _ "rnd_pos w"])
next
  case (Suc n)
  let ?p = "dir @ slash @ pre @ rnd w (rnd_pos w) @ post" and ?w = "w\<lparr>rnd_pos := Suc (rnd_pos w)\<rparr>"
  show ?case
  proof (cases "map_of (disk w) ?p = None")
    case True
    with Suc.prems show ?thesis
      by (cases "creatable ?w ?p") (auto simp: Let_def bindIO_apply os_open_write_True)
  next
    case False
    then have "create_temp n dir pre post ?w = (r, w')" using Suc.prems by (simp add: Let_def)
    from Suc.IH [OF this Suc.prems(2)] show ?thesis by auto
  qed
qed

lemma os_Mkdir_frame:
  "os_Mkdir p mode w = (r, w') \<Longrightarrow> file_bytes w' = file_bytes w \<and> faults w' = faults w \<and> getenv w' = getenv w \<and>
     (\<forall>q. q \<noteq> p \<longrightarrow> map_of (disk w') q = map_of (disk w) q)"
  by (auto simp: os_Mkdir_def with_fault_def file_bytes_def fun_eq_iff split: option.splits if_splits)

lemma Mkdir_or_exists_frame:
  assumes "tryIO (os_Mkdir p mode) returnIO (\<lambda>e. if \<not> IsExist e then failIO e else returnIO ()) w = (Ok u, w')"
  shows "file_bytes w' = file_bytes w \<and> faults w' = faults w \<and> getenv w' = getenv w"
  using assms os_Mkdir_frame [of p mode w]
  by (cases "os_Mkdir p mode w"; cases "fst (os_Mkdir p mode w)") (auto split: if_splits)

lemma os_Remove_frame:
  "os_Remove p w = (r, w') \<Longrightarrow> (\<forall>q. q \<noteq> p \<longrightarrow> map_of (disk w') q = map_of (disk w) q) \<and>
     only_disk w w' \<and> (map_of (disk w) p = None \<longrightarrow> w' = w)"
  by (auto simp: os_Remove_def with_fault_def only_disk_def split: option.splits if_splits)

lemma ignoreIO_snd [simp]: "snd (ignoreIO m w) = snd (m w)"
  by (auto simp: ignoreIO_def tryIO_def split: prod.splits res.splits)

lemma os_Rename_frame:
  "os_Rename a b w = (r, w') \<Longrightarrow> (\<forall>q. q \<noteq> a \<and> q \<noteq> b \<longrightarrow> map_of (disk w') q = map_of (disk w) q) \<and>
     only_disk w w' \<and> (\<not> is_ok r \<longrightarrow> w' = w) \<and>
     (is_ok r \<and> a \<noteq> b \<longrightarrow> map_of (disk w') b = map_of (disk w) a \<and> map_of (disk w') a = None)"
  by (auto simp: os_Rename_def with_fault_def only_disk_def split: option.splits fentry.splits if_splits)

lemma os_open_write_frame:
  "os_open_write t mode p w = (r, w') \<Longrightarrow> q \<noteq> p \<Longrightarrow> file_bytes w' q = file_bytes w q"
  by (auto simp: os_open_write_def with_fault_def file_bytes_def split: option.splits fentry.splits if_splits)

lemma file_Write_frame: "file_Write p bs w = (r, w') \<Longrightarrow> q \<noteq> p \<Longrightarrow> file_bytes w' q = file_bytes w q"
  by (auto simp: file_Write_def with_fault_def file_bytes_def split: option.splits fentry.splits)

text \<open>What a listing of a directory holds.\<close>

lemma child_name_Some: "child_name d p = Some n \<longleftrightarrow> p = d @ slash @ n \<and> n \<noteq> [] \<and> CHR ''/'' \<notin> set n"
  by (auto simp: child_name_def Let_def HasPrefix_iff TrimPrefix_def)

lemma children_mem:
  "wf_map dsk \<Longrightarrow> e \<in> set (children dsk d) \<longleftrightarrow>
     (\<exists>f. map_of dsk (d @ slash @ dname e) = Some f \<and> disdir e = is_dir_entry f) \<and>
     dname e \<noteq> [] \<and> CHR ''/'' \<notin> set (dname e)"
proof -
  assume wf: "wf_map dsk"
  have "e \<in> set (children dsk d) \<longleftrightarrow>
     (\<exists>p f n. (p, f) \<in> set dsk \<and> child_name d p = Some n \<and> e = DirEnt n (is_dir_entry f))"
    unfolding children_def by (auto simp: List.map_filter_def image_iff) force+
  also have "\<dots> \<longleftrightarrow> (\<exists>f. map_of dsk (d @ slash @ dname e) = Some f \<and> disdir e = is_dir_entry f) \<and>
     dname e \<noteq> [] \<and> CHR ''/'' \<notin> set (dname e)"
    by (cases e) (auto simp: child_name_Some wf_map_mem [OF wf])
  finally show ?thesis .
qed

lemma sorted_children: "sorted (children dsk d)"
  by (simp add: children_def)

section \<open>Environment, clock, output\<close>

definition os_Getenv :: "string \<Rightarrow> string io" where
  "os_Getenv v = (\<lambda>w. (Ok (getenv w v), w))"

definition time_Now :: "int io" where
  "time_Now = (\<lambda>w. (Ok (clock w), w))"

definition fmt_Print :: "string \<Rightarrow> unit io" where
  "fmt_Print s = (\<lambda>w. (Ok (), w\<lparr>out := s # out w\<rparr>))"

text \<open>
  \<^verbatim>\<open>os.Expand\<close>: the name after a dollar sign and how many bytes it takes. A brace without a name
  or without an end is dropped, a dollar sign without a name stays.
\<close>

definition is_shell_special :: "char \<Rightarrow> bool" where
  "is_shell_special c \<longleftrightarrow> c \<in> set ''*#$@!?-0123456789''"

definition is_shell_alnum :: "char \<Rightarrow> bool" where
  "is_shell_alnum c \<longleftrightarrow> c = CHR ''_'' \<or> (CHR ''0'' \<le> c \<and> c \<le> CHR ''9'') \<or> (CHR ''a'' \<le> c \<and> c \<le> CHR ''z'') \<or> (CHR ''A'' \<le> c \<and> c \<le> CHR ''Z'')"

definition shell_name :: "string \<Rightarrow> string \<times> nat" where
  "shell_name s = (case s of
     [] \<Rightarrow> ([], 0)
   | c # r \<Rightarrow>
       if c = CHR ''{'' then
         (if length s > 2 \<and> is_shell_special (s ! 1) \<and> s ! 2 = CHR ''}'' then ([s ! 1], 3)
          else case Index r ''}'' of
            Some i \<Rightarrow> if i = 0 then ([], 2) else (take i r, i + 2)
          | None \<Rightarrow> ([], 1))
       else if is_shell_special c then ([c], 1)
       else (takeWhile is_shell_alnum s, length (takeWhile is_shell_alnum s)))"

function expand_with :: "(string \<Rightarrow> string) \<Rightarrow> string \<Rightarrow> string" where
  "expand_with mapping [] = []"
| "expand_with mapping (c # s) =
     (if c = CHR ''$'' \<and> s \<noteq> [] then
        (case shell_name s of (name, w) \<Rightarrow>
           (if name = [] \<and> w > 0 then [] else if name = [] then [c] else mapping name) @ expand_with mapping (drop w s))
      else c # expand_with mapping s)"
  by pat_completeness auto
termination
  by (relation "measure (\<lambda>(mapping, s). length s)") auto

lemma expand_with_no_dollar: "CHR ''$'' \<notin> set s \<Longrightarrow> expand_with mapping s = s"
  by (induction s) auto

definition os_ExpandEnv :: "world \<Rightarrow> string \<Rightarrow> string" where
  "os_ExpandEnv w s = expand_with (getenv w) s"

text \<open>\<^verbatim>\<open>fmt.Sprintf("%d", n)\<close> of a natural number.\<close>

fun itoa :: "nat \<Rightarrow> string" where
  "itoa n = (if n < 10 then [char_of (48 + n)] else itoa (n div 10) @ [char_of (48 + n mod 10)])"

declare itoa.simps [simp del]

end
