(* ===== verification/KubeNode.thy ===== *)
theory KubeNode
  imports GoOS
begin

text \<open>
  A kubeconfig as a YAML node tree and the operations of \<^verbatim>\<open>pkg/util/kubectx_copied\<close> on it:
  reading fields, the current context, renaming and deleting contexts, the namespace of a
  context, the fields kswitch adds, loading and writing the file.
\<close>

section \<open>YAML nodes\<close>

text \<open>
  A node of the YAML library with the fields the code looks at. A pointer into the tree is
  the node it points to, and a write through it is an update of the tree at that place.
\<close>

datatype ykind = NoKind | DocumentNode | SequenceNode | MappingNode | ScalarNode | AliasNode

datatype ynode = YNode (Kind: ykind) (Tag: string) (Value: string) (Content: "ynode list")

definition set_Value :: "string \<Rightarrow> ynode \<Rightarrow> ynode" where
  "set_Value v n = YNode (Kind n) (Tag n) v (Content n)"

definition set_Content :: "ynode list \<Rightarrow> ynode \<Rightarrow> ynode" where
  "set_Content c n = YNode (Kind n) (Tag n) (Value n) c"

definition str_node :: "string \<Rightarrow> ynode" where
  "str_node s = YNode ScalarNode ''!!str'' s []"

definition is_key :: "string \<Rightarrow> ynode \<Rightarrow> bool" where
  "is_key key ch \<longleftrightarrow> Kind ch = ScalarNode \<and> Value ch = key"

text \<open>The loop of \<^verbatim>\<open>valueOf\<close>: a last key without a value is an index out of range.\<close>

fun value_at :: "ynode list \<Rightarrow> string \<Rightarrow> ynode option res" where
  "value_at [] key = Ok None"
| "value_at [ch] key = (if is_key key ch then Panic ''index out of range'' else Ok None)"
| "value_at (ch # v # rest) key = (if is_key key ch then Ok (Some v) else value_at rest key)"

definition valueOf :: "ynode \<Rightarrow> string \<Rightarrow> ynode option res" where
  "valueOf mapNode key =
     (if Kind mapNode \<noteq> MappingNode then Ok None else value_at (Content mapNode) key)"

text \<open>A write through the pointer that \<^verbatim>\<open>valueOf\<close> returned.\<close>

fun map_at :: "string \<Rightarrow> (ynode \<Rightarrow> ynode) \<Rightarrow> ynode list \<Rightarrow> ynode list" where
  "map_at key f (ch # v # rest) =
     (if is_key key ch then ch # f v # rest else ch # v # map_at key f rest)"
| "map_at key f c = c"

definition update_at :: "string \<Rightarrow> (ynode \<Rightarrow> ynode) \<Rightarrow> ynode \<Rightarrow> ynode" where
  "update_at key f n = set_Content (map_at key f (Content n)) n"

definition append_pair :: "string \<Rightarrow> ynode \<Rightarrow> ynode \<Rightarrow> ynode" where
  "append_pair key v n = set_Content (Content n @ [str_node key, v]) n"

text \<open>
  What a YAML parser guarantees: the content of a mapping has a value for each key, at every
  depth. \<^verbatim>\<open>field\<close> is then the lookup without its failure case.
\<close>

fun wf_node :: "ynode \<Rightarrow> bool" where
  "wf_node (YNode k t v c) \<longleftrightarrow> (k = MappingNode \<longrightarrow> even (length c)) \<and> list_all wf_node c"

fun field_at :: "ynode list \<Rightarrow> string \<Rightarrow> ynode option" where
  "field_at (ch # v # rest) key = (if is_key key ch then Some v else field_at rest key)"
| "field_at c key = None"

definition field :: "ynode \<Rightarrow> string \<Rightarrow> ynode option" where
  "field n key = (if Kind n \<noteq> MappingNode then None else field_at (Content n) key)"

lemma set_simps [simp]:
  "Kind (set_Value v n) = Kind n" "Tag (set_Value v n) = Tag n" "Value (set_Value v n) = v"
  "Content (set_Value v n) = Content n"
  "Kind (set_Content c n) = Kind n" "Tag (set_Content c n) = Tag n"
  "Value (set_Content c n) = Value n" "Content (set_Content c n) = c"
  "set_Content c (set_Content c' n) = set_Content c n"
  by (simp_all add: set_Value_def set_Content_def)

lemma str_node_simps [simp]:
  "Kind (str_node s) = ScalarNode" "Value (str_node s) = s" "Content (str_node s) = []"
  "wf_node (str_node s)"
  by (simp_all add: str_node_def)

lemma is_key_str_node [simp]: "is_key key (str_node s) \<longleftrightarrow> s = key"
  by (auto simp: is_key_def)

lemma wf_node_iff: "wf_node n \<longleftrightarrow> (Kind n = MappingNode \<longrightarrow> even (length (Content n))) \<and> list_all wf_node (Content n)"
  by (cases n) simp

lemma wf_set_Value [simp]: "wf_node (set_Value v n) \<longleftrightarrow> wf_node n"
  by (cases n) (simp add: set_Value_def)

lemma value_at_even: "even (length c) \<Longrightarrow> value_at c key = Ok (field_at c key)"
  by (induction c key rule: value_at.induct) auto

lemma valueOf_wf: "wf_node n \<Longrightarrow> valueOf n key = Ok (field n key)"
  by (simp add: valueOf_def field_def value_at_even wf_node_iff)

lemma field_at_mem: "field_at c key = Some v \<Longrightarrow> v \<in> set c"
  by (induction c key rule: field_at.induct) (auto split: if_splits)

lemma wf_field: "wf_node n \<Longrightarrow> field n key = Some v \<Longrightarrow> wf_node v"
  by (cases n) (auto simp: field_def list_all_iff dest!: field_at_mem split: if_splits)

lemma field_at_map_at:
  "field_at (map_at key f c) key' =
     (if key' = key then map_option f (field_at c key) else field_at c key')"
  by (induction key f c rule: map_at.induct) (auto simp: is_key_def)

lemma length_map_at [simp]: "length (map_at key f c) = length c"
  by (induction key f c rule: map_at.induct) auto

lemma Kind_update_at [simp]: "Kind (update_at key f n) = Kind n"
  by (simp add: update_at_def)

lemma Kind_append_pair [simp]: "Kind (append_pair key v n) = Kind n"
  by (simp add: append_pair_def)

lemma field_update_at [kube_simps]:
  "field (update_at key f n) key' =
     (if key' = key then map_option f (field n key) else field n key')"
  by (simp add: field_def update_at_def field_at_map_at)

lemma field_at_append:
  "even (length c) \<Longrightarrow> field_at (c @ [k, v]) key =
     (case field_at c key of Some x \<Rightarrow> Some x | None \<Rightarrow> if is_key key k then Some v else None)"
  by (induction c key rule: field_at.induct) (auto split: option.splits)

lemma field_append_pair [kube_simps]:
  "Kind n = MappingNode \<Longrightarrow> wf_node n \<Longrightarrow> field (append_pair key v n) key' =
     (case field n key' of Some x \<Rightarrow> Some x | None \<Rightarrow> if key' = key then Some v else None)"
  by (auto simp: field_def append_pair_def wf_node_iff field_at_append split: option.splits)

lemma list_all_map_at:
  "list_all P c \<Longrightarrow> (\<And>v. field_at c key = Some v \<Longrightarrow> P (f v)) \<Longrightarrow> list_all P (map_at key f c)"
  by (induction key f c rule: map_at.induct) (auto split: if_splits)

lemma wf_update_at:
  assumes "wf_node n" "Kind n = MappingNode" "\<And>v. field n key = Some v \<Longrightarrow> wf_node (f v)"
  shows "wf_node (update_at key f n)"
  using assms list_all_map_at [of wf_node "Content n" key f]
  by (cases n) (simp add: update_at_def field_def set_Content_def)

lemma wf_append_pair: "wf_node n \<Longrightarrow> wf_node v \<Longrightarrow> wf_node (append_pair key v n)"
  by (cases n) (simp add: append_pair_def set_Content_def)

end
