(* ===== verification/Types.thy ===== *)
theory Types
  imports KubeNode
begin

text \<open>
  The data of \<^verbatim>\<open>types/\<close>: the configuration file and its older format, stores and their
  configurations, hooks, indexes and the kubeconfig structure of the preview. A Go pointer to a
  value that may be nil is an option; durations and times are nanoseconds as \<^typ>\<open>int\<close>; a nil and an
  empty slice are both the empty list.
\<close>

section \<open>Store kinds\<close>

type_synonym StoreKind = string

definition StoreKindFilesystem :: StoreKind where "StoreKindFilesystem = ''filesystem''"
definition StoreKindVault :: StoreKind where "StoreKindVault = ''vault''"
definition StoreKindGardener :: StoreKind where "StoreKindGardener = ''gardener''"
definition StoreKindGKE :: StoreKind where "StoreKindGKE = ''gke''"
definition StoreKindAzure :: StoreKind where "StoreKindAzure = ''azure''"
definition StoreKindEKS :: StoreKind where "StoreKindEKS = ''eks''"
definition StoreKindExoscale :: StoreKind where "StoreKindExoscale = ''exoscale''"
definition StoreKindRancher :: StoreKind where "StoreKindRancher = ''rancher''"
definition StoreKindOVH :: StoreKind where "StoreKindOVH = ''ovh''"
definition StoreKindScaleway :: StoreKind where "StoreKindScaleway = ''scaleway''"
definition StoreKindDigitalOcean :: StoreKind where "StoreKindDigitalOcean = ''digitalocean''"
definition StoreKindAkamai :: StoreKind where "StoreKindAkamai = ''akamai''"
definition StoreKindCapi :: StoreKind where "StoreKindCapi = ''capi''"
definition StoreKindPlugin :: StoreKind where "StoreKindPlugin = ''plugin''"
definition StoreKindKind :: StoreKind where "StoreKindKind = ''kind''"
definition StoreKindK0smotron :: StoreKind where "StoreKindK0smotron = ''k0smotron''"
definition StoreKindKubernetes :: StoreKind where "StoreKindKubernetes = ''kubernetes''"

lemmas store_kinds [go_defs] = StoreKindFilesystem_def StoreKindVault_def StoreKindGardener_def StoreKindGKE_def
  StoreKindAzure_def StoreKindEKS_def StoreKindExoscale_def StoreKindRancher_def StoreKindOVH_def
  StoreKindScaleway_def StoreKindDigitalOcean_def StoreKindAkamai_def StoreKindCapi_def StoreKindPlugin_def
  StoreKindKind_def StoreKindK0smotron_def StoreKindKubernetes_def

definition ValidStoreKinds :: "StoreKind list" where
  "ValidStoreKinds = [StoreKindVault, StoreKindFilesystem, StoreKindGardener, StoreKindGKE, StoreKindAzure,
     StoreKindEKS, StoreKindExoscale, StoreKindRancher, StoreKindOVH, StoreKindScaleway, StoreKindDigitalOcean,
     StoreKindAkamai, StoreKindCapi, StoreKindPlugin, StoreKindKind, StoreKindKubernetes]"

definition ValidConfigVersions :: "string list" where
  "ValidConfigVersions = [''v1alpha1'']"

section \<open>Hooks and states\<close>

type_synonym HookType = string

definition HookTypeExecutable :: HookType where "HookTypeExecutable = ''Executable''"
definition HookTypeInlineCommand :: HookType where "HookTypeInlineCommand = ''InlineCommand''"

definition ValidHookTypes :: "HookType list" where
  "ValidHookTypes = [HookTypeInlineCommand, HookTypeExecutable]"

record Hook =
  hook_Name :: string
  hook_Type :: HookType
  hook_Path :: "string option"
  hook_Arguments :: "string list"
  hook_Execution :: "int option option"   \<comment> \<open>\<^verbatim>\<open>Execution\<close>, and in it \<^verbatim>\<open>Interval\<close>\<close>

record HookState =
  hs_HookName :: string
  hs_LastExecutionTime :: int

record Index =
  ix_Kind :: StoreKind
  ix_ContextToPathMapping :: "(string, string) gomap"
  ix_ContextToTags :: "(string, (string, string) gomap) gomap"

record IndexState =
  ixs_Kind :: StoreKind
  ixs_LastUpdateTime :: int

section \<open>Store configurations\<close>

record StoreConfigVault =
  VaultAPIAddress :: string
  VaultEngineVersion :: string
  VaultKeyKubeconfig :: string

record StoreConfigGardener =
  GardenerAPIKubeconfigPath :: string
  LandscapeName :: "string option"
  ShootLabelKeys :: "string list"

type_synonym GKEPreferredEndpoint = string

definition GkePrivateEndpoint :: GKEPreferredEndpoint where "GkePrivateEndpoint = ''private''"
definition GkePublicEndpoint :: GKEPreferredEndpoint where "GkePublicEndpoint = ''public''"
definition GkeDnsEndpoint :: GKEPreferredEndpoint where "GkeDnsEndpoint = ''dns''"

type_synonym GCPAuthenticationType = string

definition GcloudAuthentication :: GCPAuthenticationType where "GcloudAuthentication = ''gcloud''"
definition APIKeyAuthentication :: GCPAuthenticationType where "APIKeyAuthentication = ''api-key''"
definition ServiceAccountAuthentication :: GCPAuthenticationType where
  "ServiceAccountAuthentication = ''service-account''"
definition LegacyAuthentication :: GCPAuthenticationType where "LegacyAuthentication = ''legacy''"

record GKEAuthentication =
  AuthenticationType :: "GCPAuthenticationType option"
  APIKeyFilePath :: "string option"
  ServiceAccountFilePath :: "string option"

record StoreConfigGKE =
  gke_Authentication :: "GKEAuthentication option"
  GCPAccount :: "string option"
  ProjectIDs :: "string list"
  PreferredEndpoint :: "GKEPreferredEndpoint option"

record StoreConfigKind =
  KindBinary :: string

record KubernetesAliasConfig =
  FromLabels :: "string list"
  alias_List :: "string list"

record StoreConfigKubernetes =
  k8s_StoreID :: string
  k8s_Namespace :: string
  k8s_SecretName :: string
  k8s_SecretLabelSelector :: string
  k8s_Path :: string
  k8s_Alias :: KubernetesAliasConfig

text \<open>
  The field \<^verbatim>\<open>Config any\<close>: what the YAML library decoded, as a tree, or the Go value the
  migration puts there. \<^verbatim>\<open>None\<close> is nil.
\<close>

datatype any_config = AnyYaml ynode | AnyVault StoreConfigVault

record Cache =
  cache_Kind :: string
  cache_Config :: "any_config option"

record KubeconfigStore =
  ks_ID :: "string option"
  ks_Kind :: StoreKind
  ks_KubeconfigName :: "string option"
  ks_Paths :: "string list"
  ks_RefreshIndexAfter :: "int option"
  ks_Required :: "bool option"
  ks_ShowPrefix :: "bool option"
  ks_Config :: "any_config option"
  ks_Cache :: "Cache option"

record Config =
  cfg_Kind :: string
  cfg_Version :: string
  cfg_KubeconfigName :: "string option"
  cfg_ShowPreview :: "bool option"
  cfg_WriteToKubeconfig :: "bool option"
  cfg_ExecShell :: "string option"
  cfg_RefreshIndexAfter :: "int option"
  cfg_Hooks :: "Hook list"
  cfg_KubeconfigStores :: "KubeconfigStore list"

text \<open>The zero values.\<close>

definition zero_store :: KubeconfigStore where
  "zero_store = \<lparr>ks_ID = None, ks_Kind = [], ks_KubeconfigName = None, ks_Paths = [], ks_RefreshIndexAfter = None,
     ks_Required = None, ks_ShowPrefix = None, ks_Config = None, ks_Cache = None\<rparr>"

definition zero_config :: Config where
  "zero_config = \<lparr>cfg_Kind = [], cfg_Version = [], cfg_KubeconfigName = None, cfg_ShowPreview = None,
     cfg_WriteToKubeconfig = None, cfg_ExecShell = None, cfg_RefreshIndexAfter = None, cfg_Hooks = [],
     cfg_KubeconfigStores = []\<rparr>"

section \<open>The older configuration format\<close>

record KubeconfigPath =
  kp_Path :: string
  kp_Store :: StoreKind

record ConfigOld =
  old_Kind :: string
  old_KubeconfigName :: string
  old_KubeconfigRediscoveryInterval :: "int option"
  old_VaultAPIAddress :: string
  old_Hooks :: "Hook list"
  old_KubeconfigPaths :: "KubeconfigPath list"

section \<open>The kubeconfig of the preview\<close>

record AuthProvider =
  ap_Config :: "(string, string) gomap"
  ap_Name :: string

record EnvMap =
  env_Name :: string
  env_Value :: string

record ExecProvider =
  ep_APIVersion :: string
  ep_Args :: "string list"
  ep_Command :: string
  ep_Env :: "EnvMap list"
  ep_InstallHint :: string
  ep_ProvideClusterInfo :: bool

record User =
  u_AuthProvider :: "AuthProvider option"
  u_ExecProvider :: "ExecProvider option"

record KubeUser =
  ku_Name :: string
  ku_User :: User

record Cluster =
  cl_CertificateAuthorityData :: string
  cl_Server :: string
  cl_Insecure :: bool

record KubeCluster =
  kcl_Name :: string
  kcl_Cluster :: Cluster

record Context =
  cx_Cluster :: string
  cx_User :: string

record KubeContext =
  kcx_Name :: string
  kcx_Context :: Context

record KubeConfig =
  kcf_Kind :: string
  kcf_APIVersion :: string
  kcf_CurrentContext :: string
  kcf_Contexts :: "KubeContext list"
  kcf_Clusters :: "KubeCluster list"
  kcf_Users :: "KubeUser list"

end
