(* ===== verification/SearchIndex.thy ===== *)
theory SearchIndex
  imports Types
begin

text \<open>
  The index of a store (\<^verbatim>\<open>pkg/index/index.go\<close>): a file that maps contexts to kubeconfig paths and a
  state file with the time it was written, and the rule when a search may use it. The YAML
  library is a parameter; a document that is null leaves a nil pointer (\<^verbatim>\<open>None\<close>).
\<close>

section \<open>The operations\<close>

record SearchIndex =
  si_indexFilepath :: string
  si_indexStateFilepath :: string
  si_kubeconfigStoreKind :: StoreKind
  si_content :: "Index option"

definition zero_index :: Index where
  "zero_index = \<lparr>ix_Kind = [], ix_ContextToPathMapping = [], ix_ContextToTags = []\<rparr>"

definition zero_index_state :: IndexState where
  "zero_index_state = \<lparr>ixs_Kind = [], ixs_LastUpdateTime = 0\<rparr>"

definition index_path :: "string \<Rightarrow> string \<Rightarrow> string" where
  "index_path stateDirectory storeID = stateDirectory @ ''/switch.'' @ storeID @ ''.index''"

definition index_state_path :: "string \<Rightarrow> string \<Rightarrow> string" where
  "index_state_path stateDirectory storeID = stateDirectory @ ''/switch.'' @ storeID @ ''.index.state''"

definition loadFromFile :: "(string \<Rightarrow> Index option res) \<Rightarrow> SearchIndex \<Rightarrow> Index option io" where
  "loadFromFile um i =
     bindIO (os_Stat (si_indexFilepath i)) (\<lambda>_.
     bindIO (wrapIO ''failed to read index file from %q. File corrupt?: %w'' [si_indexFilepath i]
              (os_ReadFile (si_indexFilepath i))) (\<lambda>bytes.
       if length bytes = 0 then returnIO (Some zero_index)
       else wrapIO ''could not unmarshal index file with path '%s': %w'' [si_indexFilepath i] (liftR (um bytes))))"

definition NewIndex ::
    "(string \<Rightarrow> Index option res) \<Rightarrow> StoreKind \<Rightarrow> string \<Rightarrow> string \<Rightarrow> SearchIndex io" where
  "NewIndex um storeKind stateDirectory storeID =
     bindIO (tryIO (os_Stat stateDirectory) (\<lambda>_. returnIO ())
               (\<lambda>e. if IsNotExist e then os_Mkdir stateDirectory 448 else returnIO ())) (\<lambda>_.
     let i = \<lparr>si_indexFilepath = index_path stateDirectory storeID,
              si_indexStateFilepath = index_state_path stateDirectory storeID,
              si_kubeconfigStoreKind = storeKind, si_content = None\<rparr>
     in bindIO (tryIO (loadFromFile um i) returnIO
          (\<lambda>e. if \<not> IsNotExist e then failIO e else returnIO None))
        (\<lambda>indexFromFile. returnIO (i\<lparr>si_content := indexFromFile\<rparr>)))"

definition HasContent :: "SearchIndex \<Rightarrow> bool" where
  "HasContent i \<longleftrightarrow> si_content i \<noteq> None"

definition HasKind :: "StoreKind \<Rightarrow> SearchIndex \<Rightarrow> bool" where
  "HasKind kind i = (case si_content i of None \<Rightarrow> False | Some c \<Rightarrow> ix_Kind c = kind)"

definition GetContent :: "SearchIndex \<Rightarrow> (string, string) gomap \<times> (string, (string, string) gomap) gomap" where
  "GetContent i = (case si_content i of None \<Rightarrow> ([], [])
     | Some c \<Rightarrow> (ix_ContextToPathMapping c, ix_ContextToTags c))"

definition getIndexState :: "(string \<Rightarrow> IndexState option res) \<Rightarrow> SearchIndex \<Rightarrow> IndexState option io" where
  "getIndexState um i = tryIO (os_Stat (si_indexStateFilepath i))
     (\<lambda>_. bindIO (os_ReadFile (si_indexStateFilepath i)) (\<lambda>bytes.
        if length bytes = 0 then returnIO (Some zero_index_state)
        else wrapIO ''could not unmarshal index state file with path '%s': %w'' [si_indexStateFilepath i] (liftR (um bytes))))
     (\<lambda>e. if IsNotExist e then returnIO None else failIO e)"

definition ShouldBeUsed ::
    "(string \<Rightarrow> IndexState option res) \<Rightarrow> Config option \<Rightarrow> int option \<Rightarrow> SearchIndex \<Rightarrow> bool io" where
  "ShouldBeUsed um config storeLocalRefreshIndexAfter i =
     bindIO (wrapIO ''failed to get index state: %w'' [] (getIndexState um i)) (\<lambda>indexState.
       case indexState of
         None \<Rightarrow> returnIO False
       | Some st \<Rightarrow>
           if ixs_Kind st \<noteq> si_kubeconfigStoreKind i then returnIO False
           else
             (let refreshAfter = (case config of None \<Rightarrow> None | Some c \<Rightarrow> cfg_RefreshIndexAfter c);
                  refreshAfter = (case storeLocalRefreshIndexAfter of Some r \<Rightarrow> Some r | None \<Rightarrow> refreshAfter)
              in case refreshAfter of
                   None \<Rightarrow> returnIO False
                 | Some r \<Rightarrow> bindIO time_Now (\<lambda>now. returnIO (now < ixs_LastUpdateTime st + r))))"

definition WriteState :: "(IndexState \<Rightarrow> string res) \<Rightarrow> IndexState \<Rightarrow> SearchIndex \<Rightarrow> unit io" where
  "WriteState marshal toWrite i =
     bindIO (os_Create (si_indexStateFilepath i)) (\<lambda>_.
     bindIO (liftR (marshal toWrite)) (\<lambda>output.
     file_Write (si_indexStateFilepath i) output))"

definition WriteIndex :: "(Index \<Rightarrow> string res) \<Rightarrow> Index \<Rightarrow> SearchIndex \<Rightarrow> unit io" where
  "WriteIndex marshal toWrite i =
     bindIO (os_Create (si_indexFilepath i)) (\<lambda>_.
     bindIO (liftR (marshal toWrite)) (\<lambda>output.
     file_Write (si_indexFilepath i) output))"

definition DeleteIndex :: "SearchIndex \<Rightarrow> unit io" where
  "DeleteIndex i = tryIO (os_Stat (si_indexStateFilepath i))
     (\<lambda>_. bindIO (os_Remove (si_indexFilepath i)) (\<lambda>_. os_Remove (si_indexStateFilepath i)))
     (\<lambda>e. if IsNotExist e then returnIO () else failIO e)"

section \<open>Properties\<close>

lemma create_write_file:
  assumes "writable w p" "marshal x = Ok bs"
  shows "bindIO (os_Create p) (\<lambda>_. bindIO (liftR (marshal x)) (\<lambda>output. file_Write p output)) w = (Ok (), put_file 438 p bs w)"
  using assms by (simp add: os_Create_def bindIO_apply os_open_write_True file_Write_after_open writable_def)

lemma state_path_neq: "index_path d s \<noteq> index_state_path d s"
  by (simp add: index_path_def index_state_path_def)

text \<open>
  A written index is what the next search loads: \<^verbatim>\<open>New\<close> on the same directory and store id finds
  the content that \<^verbatim>\<open>Write\<close> stored, given that the YAML library reads back what it writes.
\<close>

theorem index_write_load:
  assumes yaml: "\<And>x bs. marshal x = Ok bs \<Longrightarrow> bs \<noteq> [] \<and> um bs = Ok (Some x)"
    and i: "si_indexFilepath i = index_path dir storeID"
    and "writable w (index_path dir storeID)" and "marshal idx = Ok bs" and "idx = c\<lparr>ix_Kind := kind\<rparr>"
    and "map_of (disk w) dir \<noteq> None" "faults w OpStat = (\<lambda>_. None)" "faults w OpRead (index_path dir storeID) = None"
    and "dir \<noteq> index_path dir storeID"
  shows "\<exists>w' i'. WriteIndex marshal idx i w = (Ok (), w') \<and> NewIndex um kind dir storeID w' = (Ok i', w') \<and>
     HasContent i' \<and> HasKind kind i' \<and> GetContent i' = (ix_ContextToPathMapping c, ix_ContextToTags c)"
proof -
  let ?p = "index_path dir storeID" and ?w = "put_file 438 (index_path dir storeID) bs w"
  have wr: "WriteIndex marshal idx i w = (Ok (), ?w)"
    using create_write_file [of w ?p marshal idx bs] assms(3,4) i by (simp add: WriteIndex_def)
  have fb: "file_bytes ?w ?p = Some bs" by simp
  obtain f where st: "os_Stat ?p ?w = (Ok f, ?w)"
    using os_Stat_file [of ?w ?p] assms(7) by (auto simp: is_file_def)
  have rd: "os_ReadFile ?p ?w = (Ok bs, ?w)" using assms(8) by (simp add: os_ReadFile_Ok)
  have "\<exists>f. os_Stat dir ?w = (Ok f, ?w)"
    using assms(6,7,9) by (auto simp: os_Stat_def with_fault_def put_file_def)
  then have "NewIndex um kind dir storeID ?w = (Ok \<lparr>si_indexFilepath = ?p,
      si_indexStateFilepath = index_state_path dir storeID, si_kubeconfigStoreKind = kind, si_content = Some idx\<rparr>, ?w)"
    using st rd yaml [OF assms(4)]
    by (auto simp: NewIndex_def loadFromFile_def Let_def bindIO_apply tryIO_apply wrapIO_apply)
  then show ?thesis
    using wr assms(5) by (auto simp: HasContent_def HasKind_def GetContent_def)
qed

text \<open>The refresh interval that counts: the store's own, or else the global one.\<close>

definition refresh_after :: "Config option \<Rightarrow> int option \<Rightarrow> int option" where
  "refresh_after config local_refresh = (case local_refresh of Some r \<Rightarrow> Some r
     | None \<Rightarrow> Option.bind config cfg_RefreshIndexAfter)"

text \<open>
  The index is used exactly when its state file exists, belongs to a store of this kind, a refresh
  interval is configured (the store's own before the global one) and has not yet passed; a
  missing state file is no error.
\<close>

theorem ShouldBeUsed_spec:
  assumes "faults w OpStat (si_indexStateFilepath i) = None" "faults w OpRead (si_indexStateFilepath i) = None"
    and "case file_bytes w (si_indexStateFilepath i) of
       None \<Rightarrow> map_of (disk w) (si_indexStateFilepath i) = None \<and> st = None
     | Some bs \<Rightarrow> (if bs = [] then st = Some zero_index_state else um bs = Ok st)"
  shows "ShouldBeUsed um config local_refresh i w = (Ok
     (case (st, refresh_after config local_refresh) of
        (Some s, Some r) \<Rightarrow> ixs_Kind s = si_kubeconfigStoreKind i \<and> clock w < ixs_LastUpdateTime s + r
      | _ \<Rightarrow> False), w)"
proof -
  let ?p = "si_indexStateFilepath i"
  have g: "getIndexState um i w = (Ok st, w)"
  proof (cases "file_bytes w ?p")
    case None
    then show ?thesis using assms
      by (simp add: getIndexState_def tryIO_apply os_Stat_def with_fault_def)
  next
    case (Some bs)
    then have "is_file w ?p" by (simp add: is_file_def)
    then obtain f where "os_Stat ?p w = (Ok f, w)" using os_Stat_file [OF _ assms(1)] by blast
    moreover have "os_ReadFile ?p w = (Ok bs, w)" using Some assms(2) by (simp add: os_ReadFile_Ok)
    ultimately show ?thesis using Some assms(3)
      by (auto simp: getIndexState_def tryIO_apply bindIO_apply wrapIO_apply split: if_splits)
  qed
  show ?thesis
    by (simp add: ShouldBeUsed_def bindIO_apply wrapIO_apply g refresh_after_def time_Now_def split: option.split)
qed

text \<open>
  \<^verbatim>\<open>Delete\<close> removes the index and its state together, so that the next \<^verbatim>\<open>New\<close> starts empty and the
  index is not used; other files stay.
\<close>

theorem DeleteIndex_spec:
  assumes "is_file w (index_path dir s)" "is_file w (index_state_path dir s)" "wf_map (disk w)"
    and "faults w = (\<lambda>_ _. None)"
    and "si_indexFilepath i = index_path dir s" "si_indexStateFilepath i = index_state_path dir s"
  shows "\<exists>w'. DeleteIndex i w = (Ok (), w') \<and> file_bytes w' (index_path dir s) = None \<and>
     ShouldBeUsed um config local_refresh i w' = (Ok False, w') \<and>
     (\<forall>q. q \<notin> {index_path dir s, index_state_path dir s} \<longrightarrow> file_bytes w' q = file_bytes w q)"
proof -
  let ?a = "index_path dir s" and ?b = "index_state_path dir s"
  let ?w1 = "del_file ?a w" and ?w2 = "del_file ?b (del_file ?a w)"
  obtain f where st: "os_Stat ?b w = (Ok f, w)" using os_Stat_file [OF assms(2)] assms(4) by auto
  have r1: "os_Remove ?a w = (Ok (), ?w1)" by (rule os_Remove_file) (use assms in simp_all)
  have f1: "is_file ?w1 ?b" "faults ?w1 = faults w"
    using assms(2) state_path_neq [of dir s] by (auto simp: is_file_def fs.get_del, simp add: del_file_def)
  have r2: "os_Remove ?b ?w1 = (Ok (), ?w2)" by (rule os_Remove_file) (use f1 assms in simp_all)
  have "DeleteIndex i w = (Ok (), ?w2)"
    using st r1 r2 assms(5,6) by (simp add: DeleteIndex_def tryIO_apply bindIO_apply)
  moreover have "map_of (disk ?w2) ?b = None" "faults ?w2 = (\<lambda>_ _. None)"
    using assms(4) by (simp_all add: del_file_def)
  then have "ShouldBeUsed um config local_refresh i ?w2 = (Ok False, ?w2)"
    using assms(6) by (simp add: ShouldBeUsed_def bindIO_apply wrapIO_apply getIndexState_def tryIO_apply os_Stat_def with_fault_def)
  ultimately show ?thesis by (intro exI [of _ ?w2]) (simp add: fs.get_del)
qed

section \<open>Witnesses\<close>

definition index_world :: world where
  "index_world = \<lparr>disk = [(''/s'', DirE 448), (''/s/switch.eks.a.index'', FileE ''i'' 384),
       (''/s/switch.eks.a.index.state'', FileE ''st'' 384)],
     faults = (\<lambda>_ _. None), getenv = (\<lambda>_. []), clock = 50, umask = 18, rnd = (\<lambda>_. ''1''), rnd_pos = 0, out = []\<rparr>"

definition sample_index :: SearchIndex where
  "sample_index = \<lparr>si_indexFilepath = ''/s/switch.eks.a.index'', si_indexStateFilepath = ''/s/switch.eks.a.index.state'',
     si_kubeconfigStoreKind = ''eks'', si_content = None\<rparr>"

definition sample_idx :: Index where
  "sample_idx = \<lparr>ix_Kind = ''eks'', ix_ContextToPathMapping = [(''ctx'', ''path'')], ix_ContextToTags = []\<rparr>"

definition sample_state :: IndexState where
  "sample_state = \<lparr>ixs_Kind = ''eks'', ixs_LastUpdateTime = 40\<rparr>"

lemma sample_paths: "index_path ''/s'' ''eks.a'' = ''/s/switch.eks.a.index''"
  "index_state_path ''/s'' ''eks.a'' = ''/s/switch.eks.a.index.state''"
  by (simp_all add: index_path_def index_state_path_def)

lemma index_write_load_witness:
  "\<exists>w' i'. WriteIndex (\<lambda>x. if x = sample_idx then Ok ''idx'' else Err (LibErr [])) sample_idx sample_index index_world = (Ok (), w') \<and>
     NewIndex (\<lambda>_. Ok (Some sample_idx)) ''eks'' ''/s'' ''eks.a'' w' = (Ok i', w') \<and>
     GetContent i' = ([(''ctx'', ''path'')], [])"
proof -
  let ?m = "\<lambda>x. if x = sample_idx then Ok ''idx'' else Err (LibErr [])"
  have y: "bs \<noteq> [] \<and> (\<lambda>_. Ok (Some sample_idx)) bs = Ok (Some x)" if "?m x = Ok bs" for x bs
    using that by (auto split: if_splits)
  have h: "si_indexFilepath sample_index = index_path ''/s'' ''eks.a''" "writable index_world (index_path ''/s'' ''eks.a'')"
    "?m sample_idx = Ok ''idx''" "sample_idx = sample_idx\<lparr>ix_Kind := ''eks''\<rparr>" "map_of (disk index_world) ''/s'' \<noteq> None"
    "faults index_world OpStat = (\<lambda>_. None)" "faults index_world OpRead (index_path ''/s'' ''eks.a'') = None"
    "''/s'' \<noteq> index_path ''/s'' ''eks.a''"
    by (simp_all add: sample_paths sample_index_def sample_idx_def index_world_def writable_def creatable_def is_dir_entry_def)
  from index_write_load [of ?m "\<lambda>_. Ok (Some sample_idx)", OF y h] show ?thesis
    by (auto simp: sample_idx_def)
qed

lemma ShouldBeUsed_spec_witness:
  "ShouldBeUsed (\<lambda>_. Ok (Some sample_state)) None (Some 20) sample_index index_world = (Ok True, index_world)"
proof -
  let ?um = "\<lambda>_::string. Ok (Some sample_state)"
  have "faults index_world OpStat (si_indexStateFilepath sample_index) = None"
    "faults index_world OpRead (si_indexStateFilepath sample_index) = None"
    "case file_bytes index_world (si_indexStateFilepath sample_index) of
       None \<Rightarrow> map_of (disk index_world) (si_indexStateFilepath sample_index) = None \<and> Some sample_state = None
     | Some bs \<Rightarrow> (if bs = [] then Some sample_state = Some zero_index_state else ?um bs = Ok (Some sample_state))"
    by (simp_all add: index_world_def sample_index_def file_bytes_def)
  from ShouldBeUsed_spec [OF this] show ?thesis
    by (simp add: refresh_after_def sample_state_def sample_index_def index_world_def)
qed

lemma DeleteIndex_spec_witness:
  "\<exists>w'. DeleteIndex sample_index index_world = (Ok (), w') \<and> file_bytes w' ''/s/switch.eks.a.index'' = None"
proof -
  have "is_file index_world (index_path ''/s'' ''eks.a'')" "is_file index_world (index_state_path ''/s'' ''eks.a'')"
    "wf_map (disk index_world)" "faults index_world = (\<lambda>_ _. None)"
    "si_indexFilepath sample_index = index_path ''/s'' ''eks.a''"
    "si_indexStateFilepath sample_index = index_state_path ''/s'' ''eks.a''"
    by (simp_all add: sample_paths index_world_def sample_index_def is_file_def file_bytes_def wf_map_def)
  from DeleteIndex_spec [OF this, of "\<lambda>_. Ok None" None None] show ?thesis by (auto simp: sample_paths)
qed

end
