(* ===== verification/Stores.thy ===== *)
theory Stores
  imports SearchIndex
begin

text \<open>
  What all stores share (\<^verbatim>\<open>pkg/store\<close>: \<^verbatim>\<open>base.go\<close>, \<^verbatim>\<open>types/types.go\<close>, \<^verbatim>\<open>registry.go\<close>,
  \<^verbatim>\<open>cluster_cache.go\<close>, \<^verbatim>\<open>lazy_init.go\<close>): the interface of a store, its id, the registry of
  factories, the cache of discovered clusters, and the lazy initialisation that several
  goroutines may race for, as a step relation.
\<close>

section \<open>The interface\<close>

type_synonym tags = "(string, string) gomap"

record SearchResult =
  sr_KubeconfigPath :: string
  sr_Tags :: tags
  sr_Error :: "gerror option"

text \<open>
  The interface \<^verbatim>\<open>KubeconfigStore\<close> and its optional parts, as a record of the methods of one
  store; \<^verbatim>\<open>StartSearch\<close> gives the results in the order it sends them.
\<close>

record store =
  st_GetID :: string
  st_GetKind :: StoreKind
  st_GetContextPrefix :: "string \<Rightarrow> string"
  st_VerifyKubeconfigPaths :: "unit io"
  st_StartSearch :: "SearchResult list io"
  st_GetKubeconfigForPath :: "string \<Rightarrow> tags \<Rightarrow> string io"
  st_GetStoreConfig :: KubeconfigStore
  st_GetSearchPreview :: "(string \<Rightarrow> tags \<Rightarrow> string io) option"   \<comment> \<open>\<^verbatim>\<open>Previewer\<close>\<close>
  st_GetShootLabelKeys :: "string list option"                 \<comment> \<open>\<^verbatim>\<open>GetShootLabelKeys\<close>, if it has it\<close>
  st_Flush :: "(nat \<times> gerror option) io option"                \<comment> \<open>\<^verbatim>\<open>cache.Flushable\<close>\<close>

section \<open>The base store\<close>

record BaseStore =
  base_Kind :: StoreKind
  base_KubeconfigStore :: KubeconfigStore

definition base_GetID :: "BaseStore \<Rightarrow> string" where
  "base_GetID b = base_Kind b @ ''.'' @
     (case ks_ID (base_KubeconfigStore b) of None \<Rightarrow> ''default'' | Some i \<Rightarrow> i)"

definition base_GetKind :: "BaseStore \<Rightarrow> StoreKind" where
  "base_GetKind b = base_Kind b"

definition base_GetStoreConfig :: "BaseStore \<Rightarrow> KubeconfigStore" where
  "base_GetStoreConfig b = base_KubeconfigStore b"

definition base_VerifyKubeconfigPaths :: "BaseStore \<Rightarrow> unit io" where
  "base_VerifyKubeconfigPaths b = returnIO ()"

text \<open>\<^verbatim>\<open>ParseStoreConfig\<close>: \<^verbatim>\<open>zero\<close> is the zero value of the type, \<^verbatim>\<open>um\<close> decodes over it.\<close>

definition ParseStoreConfig ::
    "'c \<Rightarrow> (any_config \<Rightarrow> string res) \<Rightarrow> (string \<Rightarrow> 'c \<Rightarrow> 'c res) \<Rightarrow> KubeconfigStore \<Rightarrow> 'c res" where
  "ParseStoreConfig zero marshal um s = (case ks_Config s of
     None \<Rightarrow> Ok zero
   | Some c \<Rightarrow>
       bindR (wrapR ''failed to process %s store config: %w'' [ks_Kind s] (marshal c)) (\<lambda>buf.
       wrapR ''failed to unmarshal %s store config: %w'' [ks_Kind s] (um buf zero)))"

text \<open>A store kind and an id without a dot can be read off the store id.\<close>

lemma kind_no_dot: "k \<in> set ValidStoreKinds \<Longrightarrow> CHR ''.'' \<notin> set k"
proof -
  have "list_all (\<lambda>k. CHR ''.'' \<notin> set k) ValidStoreKinds"
    by (simp add: ValidStoreKinds_def go_defs)
  then show "k \<in> set ValidStoreKinds \<Longrightarrow> CHR ''.'' \<notin> set k" by (simp add: list_all_iff)
qed

text \<open>
  The ids of two stores of valid kinds are equal only if their kinds are equal and their
  configured ids are, where a missing id counts as \<^verbatim>\<open>default\<close>: no id can imitate another kind.
\<close>

theorem GetID_injective:
  assumes "base_Kind a \<in> set ValidStoreKinds" "base_Kind b \<in> set ValidStoreKinds" "base_GetID a = base_GetID b"
  shows "base_Kind a = base_Kind b \<and>
     (case ks_ID (base_KubeconfigStore a) of None \<Rightarrow> ''default'' | Some i \<Rightarrow> i) =
     (case ks_ID (base_KubeconfigStore b) of None \<Rightarrow> ''default'' | Some i \<Rightarrow> i)"
proof -
  have split_id: "Cut (k @ ''.'' @ i) ''.'' = Some (k, i)" if "k \<in> set ValidStoreKinds" for k i
    using Cut_single [OF kind_no_dot [OF that]] by simp
  from assms(3) have "Some (base_Kind a, case ks_ID (base_KubeconfigStore a) of None \<Rightarrow> ''default'' | Some i \<Rightarrow> i) =
      Some (base_Kind b, case ks_ID (base_KubeconfigStore b) of None \<Rightarrow> ''default'' | Some i \<Rightarrow> i)"
    unfolding base_GetID_def split_id [OF assms(1), symmetric] split_id [OF assms(2), symmetric] by simp
  then show ?thesis by simp
qed

section \<open>The registry\<close>

record Dependencies =
  dep_KubeconfigName :: string
  dep_StateDirectory :: string
  dep_VaultAPIAddressFromFlag :: string
  dep_VaultTokenFileName :: string

text \<open>A factory may opt out with no store and no error.\<close>

type_synonym Factory = "KubeconfigStore \<Rightarrow> Dependencies \<Rightarrow> store option io"

type_synonym registry = "(StoreKind, Factory) gomap"

definition Register :: "StoreKind \<Rightarrow> Factory \<Rightarrow> registry \<Rightarrow> registry res" where
  "Register kind factory r = (if mget r kind \<noteq> None then Panic (''store kind '' @ kind @ '' is already registered'')
     else Ok (mset kind factory r))"

definition Create :: "registry \<Rightarrow> KubeconfigStore \<Rightarrow> Dependencies \<Rightarrow> store option io" where
  "Create r s deps = (case mget r (ks_Kind s) of
     None \<Rightarrow> failIO (Errorf ''unknown store %q'' [ks_Kind s])
   | Some factory \<Rightarrow> factory s deps)"

definition RegisteredKinds :: "registry \<Rightarrow> string list" where
  "RegisteredKinds r = sort (mkeys r)"

text \<open>
  Registering the stores one after the other never panics if their kinds differ, then every one of
  them is created by its own factory and no other kind is known; a kind registered twice panics.
\<close>

theorem registry_spec:
  assumes "wf_map r" "distinct (map fst fs)" "\<forall>k \<in> fst ` set fs. mget r k = None"
  shows "\<exists>r'. foldR (\<lambda>(k, f). Register k f) fs r = Ok r' \<and>
     (\<forall>k f. (k, f) \<in> set fs \<longrightarrow> mget r' k = Some f \<and> (\<forall>g. is_panic (Register k g r'))) \<and>
     (\<forall>k. k \<notin> fst ` set fs \<longrightarrow> mget r' k = mget r k) \<and>
     (\<forall>s d. mget r' (ks_Kind s) = None \<longrightarrow> Create r' s d = failIO (Errorf ''unknown store %q'' [ks_Kind s]))"
proof -
  let ?r = "fold (\<lambda>(k, f). mset k f) fs r"
  have "foldR (\<lambda>(k, f). Register k f) fs r = Ok ?r"
    using assms(2,3)
  proof (induction fs arbitrary: r)
    case (Cons p fs)
    obtain k f where p: "p = (k, f)" by (cases p)
    have "Register k f r = Ok (mset k f r)" using Cons.prems p by (simp add: Register_def)
    moreover have "foldR (\<lambda>(k, f). Register k f) fs (mset k f r) = Ok (fold (\<lambda>(k, f). mset k f) fs (mset k f r))"
      by (rule Cons.IH) (use Cons.prems p in auto)
    ultimately show ?case using p by simp
  qed simp
  moreover have "mget ?r k = Some f" if "(k, f) \<in> set fs" for k f
    using gomap.get_puts_distinct [OF assms(1,2) that] .
  moreover have "mget ?r k = mget r k" if "k \<notin> fst ` set fs" for k
    using gomap.get_puts_other [OF assms(1) that] .
  ultimately show ?thesis by (intro exI [of _ ?r]) (simp add: Register_def Create_def)
qed

section \<open>The cache of discovered clusters\<close>

text \<open>\<^verbatim>\<open>clusterCache\<close>: each method runs under its lock, so it is one step.\<close>

record ('k, 'v) clusterCache =
  cc_m :: "('k, 'v) gomap"

definition newClusterCache :: "('k, 'v) clusterCache" where
  "newClusterCache = \<lparr>cc_m = []\<rparr>"

definition cc_Get :: "('k, 'v) clusterCache \<Rightarrow> 'k \<Rightarrow> 'v option" where
  "cc_Get c key = mget (cc_m c) key"

definition cc_Set :: "'k \<Rightarrow> 'v \<Rightarrow> ('k, 'v) clusterCache \<Rightarrow> ('k, 'v) clusterCache" where
  "cc_Set key v c = c\<lparr>cc_m := mset key v (cc_m c)\<rparr>"

definition cc_Values :: "('k, 'v) clusterCache \<Rightarrow> 'v list" where
  "cc_Values c = map snd (cc_m c)"

definition cc_Keys :: "('k, 'v) clusterCache \<Rightarrow> 'k list" where
  "cc_Keys c = map fst (cc_m c)"

definition cc_Reset :: "('k, 'v) clusterCache \<Rightarrow> ('k, 'v) clusterCache" where
  "cc_Reset c = c\<lparr>cc_m := []\<rparr>"

definition wf_cc :: "('k, 'v) clusterCache \<Rightarrow> bool" where
  "wf_cc c \<longleftrightarrow> wf_map (cc_m c)"

interpretation cc: keyed_store cc_Get cc_Set wf_cc
  by unfold_locales (simp_all add: cc_Get_def cc_Set_def wf_cc_def)

lemma wf_newClusterCache [simp]: "wf_cc newClusterCache"
  by (simp add: wf_cc_def newClusterCache_def)

text \<open>
  After any sequence of stores the cache returns for each key the last value stored under it, lists
  each key once, its values are those of its keys, and a reset empties it.
\<close>

theorem clusterCache_spec:
  "let c = fold (\<lambda>(k, v). cc_Set k v) sets newClusterCache
   in (\<forall>k. cc_Get c k = map_of (rev sets) k) \<and> distinct (cc_Keys c) \<and> set (cc_Keys c) = fst ` set sets \<and>
      set (cc_Values c) = {v. \<exists>k. cc_Get c k = Some v} \<and> (\<forall>k. cc_Get (cc_Reset c) k = None)"
proof -
  let ?c = "fold (\<lambda>(k, v). cc_Set k v) sets newClusterCache"
  have wf: "wf_cc ?c" using cc.puts_invar [OF wf_newClusterCache] .
  have g: "cc_Get ?c k = map_of (rev sets) k" for k
    using cc.get_puts [OF wf_newClusterCache, of sets k]
    by (simp add: cc_Get_def newClusterCache_def split: option.splits)
  have "set (cc_Keys ?c) = {k. cc_Get ?c k \<noteq> None}"
    by (simp add: cc_Keys_def cc_Get_def dom_map_of_conv_image_fst [symmetric] dom_def)
  also have "\<dots> = fst ` set sets"
    unfolding g using dom_map_of_conv_image_fst [of "rev sets"] by (simp add: dom_def)
  finally have k: "set (cc_Keys ?c) = fst ` set sets" .
  have "set (cc_Values ?c) = {v. \<exists>k. cc_Get ?c k = Some v}"
    using wf wf_map_mem [of "cc_m ?c"] by (force simp: cc_Values_def cc_Get_def wf_cc_def)
  then show ?thesis
    using wf g k by (simp add: Let_def wf_cc_def wf_map_def cc_Keys_def cc_Get_def cc_Reset_def)
qed

section \<open>Lazy initialisation\<close>

text \<open>
  The goroutines that call \<^verbatim>\<open>ensure\<close> at the same time, each at one place of the function:
  before the first \<^verbatim>\<open>ready.Load\<close>, before \<^verbatim>\<open>mu.Lock\<close>, before the second load, before the call of
  \<^verbatim>\<open>init\<close>, before \<^verbatim>\<open>ready.Store\<close>, before the deferred \<^verbatim>\<open>Unlock\<close> with the result it returns
  (\<^verbatim>\<open>True\<close> for no error), and after the return.
\<close>

datatype lazy_pc = PStart | PLock | PRecheck | PInit | PStore | PUnlock bool | PReturned bool

record lazy_state =
  lz_ready :: bool
  lz_owner :: "nat option"
  lz_inits :: nat          \<comment> \<open>successful runs of \<^verbatim>\<open>init\<close> so far\<close>
  lz_pc :: "nat \<Rightarrow> lazy_pc"

definition goto :: "nat \<Rightarrow> lazy_pc \<Rightarrow> lazy_state \<Rightarrow> lazy_state" where
  "goto t p s = s\<lparr>lz_pc := (lz_pc s)(t := p)\<rparr>"

inductive lazy_step :: "lazy_state \<Rightarrow> lazy_state \<Rightarrow> bool" where
  load: "lz_pc s t = PStart \<Longrightarrow> lazy_step s (goto t (if lz_ready s then PReturned True else PLock) s)"
| lock: "lz_pc s t = PLock \<Longrightarrow> lz_owner s = None \<Longrightarrow> lazy_step s (goto t PRecheck (s\<lparr>lz_owner := Some t\<rparr>))"
| recheck: "lz_pc s t = PRecheck \<Longrightarrow> lazy_step s (goto t (if lz_ready s then PUnlock True else PInit) s)"
| init_fails: "lz_pc s t = PInit \<Longrightarrow> lazy_step s (goto t (PUnlock False) s)"
| init_succeeds: "lz_pc s t = PInit \<Longrightarrow> lazy_step s (goto t PStore (s\<lparr>lz_inits := Suc (lz_inits s)\<rparr>))"
| store: "lz_pc s t = PStore \<Longrightarrow> lazy_step s (goto t (PUnlock True) (s\<lparr>lz_ready := True\<rparr>))"
| unlock: "lz_pc s t = PUnlock r \<Longrightarrow> lazy_step s (goto t (PReturned r) (s\<lparr>lz_owner := None\<rparr>))"
| again: "lz_pc s t = PReturned r \<Longrightarrow> lazy_step s (goto t PStart s)"

definition lazy_init_state :: lazy_state where
  "lazy_init_state = \<lparr>lz_ready = False, lz_owner = None, lz_inits = 0, lz_pc = \<lambda>_. PStart\<rparr>"

inductive lazy_reachable :: "lazy_state \<Rightarrow> bool" where
  initial: "lazy_reachable lazy_init_state"
| step: "lazy_reachable s \<Longrightarrow> lazy_step s s' \<Longrightarrow> lazy_reachable s'"

definition in_section :: "lazy_pc \<Rightarrow> bool" where
  "in_section p \<longleftrightarrow> (case p of PRecheck \<Rightarrow> True | PInit \<Rightarrow> True | PStore \<Rightarrow> True | PUnlock r \<Rightarrow> True | _ \<Rightarrow> False)"

definition lazy_inv :: "lazy_state \<Rightarrow> bool" where
  "lazy_inv s \<longleftrightarrow> (\<forall>t. in_section (lz_pc s t) \<longleftrightarrow> lz_owner s = Some t) \<and>
     (\<forall>t. lz_pc s t \<in> {PUnlock True, PReturned True} \<longrightarrow> lz_ready s) \<and>
     (\<forall>t. lz_pc s t = PInit \<longrightarrow> \<not> lz_ready s \<and> lz_inits s = 0) \<and>
     (\<forall>t. lz_pc s t = PStore \<longrightarrow> \<not> lz_ready s \<and> lz_inits s = 1) \<and>
     (lz_ready s \<longrightarrow> lz_inits s = 1) \<and>
     (\<not> lz_ready s \<and> (\<forall>t. lz_pc s t \<noteq> PStore) \<longrightarrow> lz_inits s = 0)"

text \<open>The parts of the invariant, one by one.\<close>

lemma lazy_invD:
  assumes "lazy_inv s"
  shows "in_section (lz_pc s t) \<Longrightarrow> lz_owner s = Some t" "lz_owner s = Some t \<Longrightarrow> in_section (lz_pc s t)"
    "lz_pc s t = PUnlock True \<Longrightarrow> lz_ready s" "lz_pc s t = PReturned True \<Longrightarrow> lz_ready s"
    "lz_pc s t = PInit \<Longrightarrow> \<not> lz_ready s \<and> lz_inits s = 0" "lz_pc s t = PStore \<Longrightarrow> \<not> lz_ready s \<and> lz_inits s = 1"
    "lz_ready s \<Longrightarrow> lz_inits s = 1" "\<not> lz_ready s \<Longrightarrow> (\<And>u. lz_pc s u \<noteq> PStore) \<Longrightarrow> lz_inits s = 0"
  using assms by (auto simp: lazy_inv_def)

lemma lazy_invI:
  assumes "\<And>t. in_section (lz_pc s t) \<Longrightarrow> lz_owner s = Some t" "\<And>t. lz_owner s = Some t \<Longrightarrow> in_section (lz_pc s t)"
    "\<And>t. lz_pc s t = PUnlock True \<Longrightarrow> lz_ready s" "\<And>t. lz_pc s t = PReturned True \<Longrightarrow> lz_ready s"
    "\<And>t. lz_pc s t = PInit \<Longrightarrow> \<not> lz_ready s \<and> lz_inits s = 0" "\<And>t. lz_pc s t = PStore \<Longrightarrow> \<not> lz_ready s \<and> lz_inits s = 1"
    "lz_ready s \<Longrightarrow> lz_inits s = 1" "\<not> lz_ready s \<Longrightarrow> (\<And>u. lz_pc s u \<noteq> PStore) \<Longrightarrow> lz_inits s = 0"
  shows "lazy_inv s"
  unfolding lazy_inv_def using assms by blast

lemma goto_simps [simp]: "lz_pc (goto t p s) u = (if u = t then p else lz_pc s u)" "lz_ready (goto t p s) = lz_ready s"
  "lz_owner (goto t p s) = lz_owner s" "lz_inits (goto t p s) = lz_inits s"
  by (simp_all add: goto_def)

lemma in_section_simps [simp]: "in_section PRecheck" "in_section PInit" "in_section PStore" "in_section (PUnlock r)"
  "\<not> in_section PStart" "\<not> in_section PLock" "\<not> in_section (PReturned r)"
  by (simp_all add: in_section_def)

text \<open>A step outside the critical section, and one inside it by the owner of the lock.\<close>

lemma lazy_inv_outside:
  assumes inv: "lazy_inv s" and pc: "\<not> in_section (lz_pc s t)" "\<not> in_section p" and r: "p = PReturned True \<Longrightarrow> lz_ready s"
  shows "lazy_inv (goto t p s)"
proof (rule lazy_invI)
  note d = lazy_invD [OF inv]
  fix u
  show "in_section (lz_pc (goto t p s) u) \<Longrightarrow> lz_owner (goto t p s) = Some u" using d(1) pc by (auto split: if_splits)
  show "lz_owner (goto t p s) = Some u \<Longrightarrow> in_section (lz_pc (goto t p s) u)" using d(2) pc by (auto split: if_splits)
  show "lz_pc (goto t p s) u = PUnlock True \<Longrightarrow> lz_ready (goto t p s)" using d(3) pc by (auto split: if_splits)
  show "lz_pc (goto t p s) u = PReturned True \<Longrightarrow> lz_ready (goto t p s)" using d(4) r by (auto split: if_splits)
  show "lz_pc (goto t p s) u = PInit \<Longrightarrow> \<not> lz_ready (goto t p s) \<and> lz_inits (goto t p s) = 0"
    using d(5) pc by (auto split: if_splits)
  show "lz_pc (goto t p s) u = PStore \<Longrightarrow> \<not> lz_ready (goto t p s) \<and> lz_inits (goto t p s) = 1"
    using d(6) pc by (auto split: if_splits)
next
  show "lz_ready (goto t p s) \<Longrightarrow> lz_inits (goto t p s) = 1" using lazy_invD(7) [OF inv] by simp
next
  assume n: "\<not> lz_ready (goto t p s)" and u: "\<And>u. lz_pc (goto t p s) u \<noteq> PStore"
  have "lz_pc s u \<noteq> PStore" for u using u [of u] pc by (auto split: if_splits)
  then show "lz_inits (goto t p s) = 0" using lazy_invD(8) [OF inv] n by simp
qed

lemma lazy_owner_alone:
  "lazy_inv s \<Longrightarrow> lz_owner s = Some t \<Longrightarrow> u \<noteq> t \<Longrightarrow> \<not> in_section (lz_pc s u)"
  using lazy_invD(1) by fastforce

lemma lazy_inv_owner:
  assumes alone: "\<And>u. u \<noteq> t \<Longrightarrow> \<not> in_section (lz_pc s u)" and p: "lz_pc s t = p"
    and owner: "lz_owner s = (if in_section p then Some t else None)"
    and ready: "p = PUnlock True \<or> p = PReturned True \<Longrightarrow> lz_ready s" "\<And>u. u \<noteq> t \<Longrightarrow> lz_pc s u = PReturned True \<Longrightarrow> lz_ready s"
    and "p = PInit \<Longrightarrow> \<not> lz_ready s \<and> lz_inits s = 0" "p = PStore \<Longrightarrow> \<not> lz_ready s \<and> lz_inits s = 1"
    and "lz_ready s \<Longrightarrow> lz_inits s = 1" "\<not> lz_ready s \<Longrightarrow> p \<noteq> PStore \<Longrightarrow> lz_inits s = 0"
  shows "lazy_inv s"
proof (rule lazy_invI)
  have o: "lz_pc s u \<notin> {PRecheck, PInit, PStore, PUnlock True, PUnlock False}" if "u \<noteq> t" for u
    using alone [OF that] by auto
  fix u
  show "in_section (lz_pc s u) \<Longrightarrow> lz_owner s = Some u" using alone [of u] p owner by (cases "u = t") auto
  show "lz_owner s = Some u \<Longrightarrow> in_section (lz_pc s u)" using p owner by (auto split: if_splits)
  show "lz_pc s u = PUnlock True \<Longrightarrow> lz_ready s" using o [of u] p ready(1) by (cases "u = t") auto
  show "lz_pc s u = PReturned True \<Longrightarrow> lz_ready s" using p ready by (cases "u = t") auto
  show "lz_pc s u = PInit \<Longrightarrow> \<not> lz_ready s \<and> lz_inits s = 0" using o [of u] p assms(6) by (cases "u = t") auto
  show "lz_pc s u = PStore \<Longrightarrow> \<not> lz_ready s \<and> lz_inits s = 1" using o [of u] p assms(7) by (cases "u = t") auto
next
  show "lz_ready s \<Longrightarrow> lz_inits s = 1" by fact
next
  assume "\<not> lz_ready s" "\<And>u. lz_pc s u \<noteq> PStore"
  then show "lz_inits s = 0" using p assms(9) by blast
qed

lemma lazy_no_PStore: "lazy_inv s \<Longrightarrow> lz_owner s = Some t \<Longrightarrow> lz_pc s t \<noteq> PStore \<Longrightarrow> \<not> lz_ready s \<Longrightarrow> lz_inits s = 0"
  using lazy_invD(8) lazy_owner_alone by (metis in_section_simps(3))

lemma lazy_inv_step: "lazy_step s s' \<Longrightarrow> lazy_inv s \<Longrightarrow> lazy_inv s'"
proof (induction rule: lazy_step.induct)
  case (load s t)
  then show ?case by (intro lazy_inv_outside) (auto split: if_splits)
next
  case (lock s t)
  have out: "\<not> in_section (lz_pc s u)" for u using lock lazy_invD(1) by fastforce
  have "lz_inits s = 0" if "\<not> lz_ready s"
    using lazy_invD(8) [OF lock(3) that] out by (metis in_section_simps(3))
  then show ?case
    by (intro lazy_inv_owner [of t]) (use lock out lazy_invD(4-7) [OF lock(3)] in auto)
next
  case (recheck s t)
  then have o: "lz_owner s = Some t" using lazy_invD(1) by fastforce
  have "lz_inits s = 0" if "\<not> lz_ready s" using lazy_no_PStore [OF recheck(2) o] recheck(1) that by simp
  then show ?case
    by (intro lazy_inv_owner [of t]) (use recheck o lazy_owner_alone [OF recheck(2) o] lazy_invD(4-7) [OF recheck(2)] in \<open>auto split: if_splits\<close>)
next
  case (init_fails s t)
  then have o: "lz_owner s = Some t" using lazy_invD(1) by fastforce
  show ?case
    by (intro lazy_inv_owner [of t]) (use init_fails o lazy_owner_alone [OF init_fails(2) o] lazy_invD(4-7) [OF init_fails(2)] in auto)
next
  case (init_succeeds s t)
  then have o: "lz_owner s = Some t" using lazy_invD(1) by fastforce
  show ?case
    by (intro lazy_inv_owner [of t])
      (use init_succeeds o lazy_owner_alone [OF init_succeeds(2) o] lazy_invD(4-7) [OF init_succeeds(2)] in auto)
next
  case (store s t)
  then have o: "lz_owner s = Some t" using lazy_invD(1) by fastforce
  show ?case
    by (intro lazy_inv_owner [of t]) (use store o lazy_owner_alone [OF store(2) o] lazy_invD(4-7) [OF store(2)] in auto)
next
  case (unlock s t r)
  then have o: "lz_owner s = Some t" using lazy_invD(1) by fastforce
  have "lz_inits s = 0" if "\<not> lz_ready s" using lazy_no_PStore [OF unlock(2) o] unlock(1) that by simp
  then show ?case
    by (intro lazy_inv_owner [of t]) (use unlock o lazy_owner_alone [OF unlock(2) o] lazy_invD(3-7) [OF unlock(2)] in auto)
next
  case (again s t r)
  then show ?case by (intro lazy_inv_outside) auto
qed

text \<open>
  C32. However the callers of \<^verbatim>\<open>ensure\<close> interleave, \<^verbatim>\<open>init\<close> succeeds at most once, at most one of them is
  between lock and unlock, nobody runs \<^verbatim>\<open>init\<close> once it has completed, and a caller that returned
  without error finds it completed.
\<close>

theorem lazy_init_once:
  assumes "lazy_reachable s"
  shows "lz_inits s \<le> 1 \<and> (lz_ready s \<longrightarrow> lz_inits s = 1 \<and> (\<forall>t. lz_pc s t \<noteq> PInit)) \<and>
     (\<forall>t u. in_section (lz_pc s t) \<and> in_section (lz_pc s u) \<longrightarrow> t = u) \<and>
     (\<forall>t. lz_pc s t = PReturned True \<longrightarrow> lz_ready s)"
proof -
  have "lazy_inv s" using assms
  proof induction
    case initial
    then show ?case by (simp add: lazy_inv_def lazy_init_state_def in_section_def)
  qed (rule lazy_inv_step)
  note d = lazy_invD [OF this]
  have "lz_inits s \<le> 1"
  proof (cases "lz_ready s \<or> (\<exists>t. lz_pc s t = PStore)")
    case True
    then show ?thesis using d(6,7) by auto
  next
    case False
    then show ?thesis using d(8) by auto
  qed
  moreover have "t = u" if "in_section (lz_pc s t)" "in_section (lz_pc s u)" for t u
    using d(1) [OF that(1)] d(1) [OF that(2)] by simp
  ultimately show ?thesis using d by blast
qed

text \<open>
  A failed \<^verbatim>\<open>init\<close> is retried: from any reachable state in which the initialisation is not
  complete and nobody holds the lock, the next caller can run it to success and return.
\<close>

theorem lazy_init_retried:
  assumes "lazy_reachable s" "\<not> lz_ready s" "lz_owner s = None" "lz_pc s t = PStart"
  shows "\<exists>s'. lazy_step\<^sup>*\<^sup>* s s' \<and> lz_pc s' t = PReturned True \<and> lz_ready s'"
proof -
  let ?s1 = "goto t PLock s"
  let ?s2 = "goto t PRecheck (?s1\<lparr>lz_owner := Some t\<rparr>)"
  let ?s3 = "goto t PInit ?s2"
  let ?s4 = "goto t PStore (?s3\<lparr>lz_inits := Suc (lz_inits ?s3)\<rparr>)"
  let ?s5 = "goto t (PUnlock True) (?s4\<lparr>lz_ready := True\<rparr>)"
  let ?s6 = "goto t (PReturned True) (?s5\<lparr>lz_owner := None\<rparr>)"
  have "lazy_step s ?s1" using lazy_step.load [OF assms(4)] assms(2) by simp
  moreover have "lazy_step ?s1 ?s2" by (rule lazy_step.lock) (simp_all add: goto_def assms)
  moreover have "lazy_step ?s2 ?s3" using lazy_step.recheck [of ?s2 t] assms(2) by (simp add: goto_def)
  moreover have "lazy_step ?s3 ?s4" by (rule lazy_step.init_succeeds) (simp add: goto_def)
  moreover have "lazy_step ?s4 ?s5" by (rule lazy_step.store) (simp add: goto_def)
  moreover have "lazy_step ?s5 ?s6" by (rule lazy_step.unlock) (simp add: goto_def)
  ultimately have "lazy_step\<^sup>*\<^sup>* s ?s6"
    by (intro rtranclp.rtrancl_into_rtrancl [OF rtranclp.rtrancl_into_rtrancl [OF rtranclp.rtrancl_into_rtrancl
      [OF rtranclp.rtrancl_into_rtrancl [OF rtranclp.rtrancl_into_rtrancl [OF r_into_rtranclp]]]]])
  then show ?thesis by (intro exI [of _ ?s6]) (simp add: goto_def)
qed

section \<open>Witnesses\<close>

definition eks_a :: BaseStore where
  "eks_a = \<lparr>base_Kind = ''eks'', base_KubeconfigStore = zero_store\<lparr>ks_ID := Some ''default''\<rparr>\<rparr>"

definition eks_b :: BaseStore where
  "eks_b = \<lparr>base_Kind = ''eks'', base_KubeconfigStore = zero_store\<rparr>"

lemma GetID_injective_witness: "base_Kind eks_a = base_Kind eks_b"
proof -
  have "base_Kind eks_a \<in> set ValidStoreKinds" "base_Kind eks_b \<in> set ValidStoreKinds" "base_GetID eks_a = base_GetID eks_b"
    by (simp_all add: eks_a_def eks_b_def base_GetID_def ValidStoreKinds_def go_defs zero_store_def)
  from GetID_injective [OF this] show ?thesis by blast
qed

lemma registry_spec_witness:
  "\<exists>r. foldR (\<lambda>(k, f). Register k f) [(''eks'', \<lambda>_ _. returnIO None), (''gke'', \<lambda>_ _. failIO (LibErr []))] [] = Ok r \<and>
     is_panic (Register ''gke'' (\<lambda>_ _. returnIO None) r)"
proof -
  let ?fs = "[(''eks'', \<lambda>_ _. returnIO None), (''gke'', \<lambda>_ _. failIO (LibErr []))] :: (StoreKind \<times> Factory) list"
  have "wf_map ([] :: registry)" "distinct (map fst ?fs)" "\<forall>k \<in> fst ` set ?fs. mget [] k = None" by simp_all
  from registry_spec [OF this] show ?thesis by fastforce
qed

lemma lazy_init_once_witness: "lz_inits (goto 0 PLock lazy_init_state) \<le> 1"
proof -
  have "lazy_step lazy_init_state (goto 0 PLock lazy_init_state)"
    using lazy_step.load [of lazy_init_state 0] by (simp add: lazy_init_state_def)
  then have "lazy_reachable (goto 0 PLock lazy_init_state)" by (rule lazy_reachable.step [OF lazy_reachable.initial])
  from lazy_init_once [OF this] show ?thesis by blast
qed

lemma lazy_init_retried_witness: "\<exists>s'. lazy_step\<^sup>*\<^sup>* lazy_init_state s' \<and> lz_ready s'"
proof -
  have "lazy_reachable lazy_init_state" "\<not> lz_ready lazy_init_state" "lz_owner lazy_init_state = None"
    "lz_pc lazy_init_state 0 = PStart"
    by (rule lazy_reachable.initial) (simp_all add: lazy_init_state_def)
  from lazy_init_retried [OF this] show ?thesis by blast
qed

end
