(* ===== verification/Kubeconfig.thy ===== *)
theory Kubeconfig
  imports KubeNode
begin

text \<open>
  The operations on a loaded kubeconfig (\<^verbatim>\<open>contexts.go\<close>, \<^verbatim>\<open>contextmodify.go\<close>, \<^verbatim>\<open>namespace.go\<close>,
  \<^verbatim>\<open>kubeconfig.go\<close>). A nil pointer that the code dereferences is a panic. The YAML library is a
  parameter: \<^verbatim>\<open>um\<close> is \<^verbatim>\<open>yaml.Unmarshal\<close> into a node, \<^verbatim>\<open>enc\<close> the encoder of a node.
\<close>

record kubeconfig =
  kc_path :: string
  kc_useTmpFile :: bool
  kc_rootNode :: ynode

definition nil_deref :: string where
  "nil_deref = ''invalid memory address or nil pointer dereference''"

section \<open>Reading fields\<close>

definition contextsNode :: "kubeconfig \<Rightarrow> ynode res" where
  "contextsNode k = bindR (valueOf (kc_rootNode k) ''contexts'') (\<lambda>contexts.
     case contexts of
       None \<Rightarrow> Err (Errorf ''\"contexts\" entry is nil'' [])
     | Some n \<Rightarrow> if Kind n \<noteq> SequenceNode then Err (Errorf ''\"contexts\" is not a sequence node'' [])
                else Ok n)"

text \<open>The loop of \<^verbatim>\<open>contextNode\<close>: the index of the first entry with that name, and the entry.\<close>

fun find_context :: "ynode list \<Rightarrow> string \<Rightarrow> nat \<Rightarrow> (nat \<times> ynode) res" where
  "find_context [] name i = Err (Errorf ''context with name \"%s\" not found'' [name])"
| "find_context (c # cs) name i = bindR (valueOf c ''name'') (\<lambda>nameNode.
     case nameNode of
       None \<Rightarrow> Panic nil_deref
     | Some n \<Rightarrow> if Kind n = ScalarNode \<and> Value n = name then Ok (i, c)
                else find_context cs name (Suc i))"

definition contextNode :: "kubeconfig \<Rightarrow> string \<Rightarrow> (nat \<times> ynode) res" where
  "contextNode k name = bindR (contextsNode k) (\<lambda>contexts. find_context (Content contexts) name 0)"

text \<open>The value of a top-level field, or the empty string.\<close>

definition top_value :: "string \<Rightarrow> kubeconfig \<Rightarrow> string res" where
  "top_value key k = mapR (\<lambda>v. case v of None \<Rightarrow> [] | Some n \<Rightarrow> Value n) (valueOf (kc_rootNode k) key)"

definition GetCurrentContext :: "kubeconfig \<Rightarrow> string res" where
  "GetCurrentContext = top_value ''current-context''"

fun context_names :: "ynode list \<Rightarrow> string list res" where
  "context_names [] = Ok []"
| "context_names (c # cs) = bindR (valueOf c ''name'') (\<lambda>contextName.
     case contextName of
       None \<Rightarrow> context_names cs
     | Some n \<Rightarrow> mapR (\<lambda>ns. Value n # ns) (context_names cs))"

definition GetContextNames :: "kubeconfig \<Rightarrow> string list res" where
  "GetContextNames k = bindR (contextsNode k) (\<lambda>contexts. context_names (Content contexts))"

definition GetKswitchContext :: "kubeconfig \<Rightarrow> string res" where
  "GetKswitchContext = top_value ''kswitch-context''"

definition IsGardenerKubeconfig :: "kubeconfig \<Rightarrow> bool res" where
  "IsGardenerKubeconfig k = mapR (\<lambda>v. v \<noteq> None) (valueOf (kc_rootNode k) ''gardener-landscape-identity'')"

definition GetGardenerLandscapeIdentity :: "kubeconfig \<Rightarrow> string res" where
  "GetGardenerLandscapeIdentity = top_value ''gardener-landscape-identity''"

definition GetGardenerProject :: "kubeconfig \<Rightarrow> string res" where
  "GetGardenerProject = top_value ''gardener-project''"

definition GetGardenerClusterName :: "kubeconfig \<Rightarrow> string res" where
  "GetGardenerClusterName = top_value ''gardener-cluster-name''"

definition GetGardenerClusterType :: "kubeconfig \<Rightarrow> string res" where
  "GetGardenerClusterType = top_value ''gardener-cluster-type''"

section \<open>Writing fields\<close>

text \<open>
  The body that the \<^verbatim>\<open>Modify\<close> functions share: overwrite the value of the field in place, or
  append the field to the root node.
\<close>

definition set_field :: "string \<Rightarrow> string \<Rightarrow> ynode \<Rightarrow> ynode" where
  "set_field key v n = (case field n key of
     Some x \<Rightarrow> update_at key (set_Value v) n
   | None \<Rightarrow> append_pair key (str_node v) n)"

definition modify_field :: "string \<Rightarrow> string \<Rightarrow> kubeconfig \<Rightarrow> kubeconfig res" where
  "modify_field key v k = bindR (valueOf (kc_rootNode k) key) (\<lambda>node.
     case node of
       Some x \<Rightarrow> Ok (k\<lparr>kc_rootNode := update_at key (set_Value v) (kc_rootNode k)\<rparr>)
     | None \<Rightarrow> Ok (k\<lparr>kc_rootNode := append_pair key (str_node v) (kc_rootNode k)\<rparr>))"

definition ModifyKswitchContext :: "string \<Rightarrow> kubeconfig \<Rightarrow> kubeconfig res" where
  "ModifyKswitchContext = modify_field ''kswitch-context''"

definition ModifyGardenerLandscapeIdentity :: "string \<Rightarrow> kubeconfig \<Rightarrow> kubeconfig res" where
  "ModifyGardenerLandscapeIdentity = modify_field ''gardener-landscape-identity''"

definition ModifyGardenerProject :: "string \<Rightarrow> kubeconfig \<Rightarrow> kubeconfig res" where
  "ModifyGardenerProject = modify_field ''gardener-project''"

definition ModifyGardenerClusterName :: "string \<Rightarrow> kubeconfig \<Rightarrow> kubeconfig res" where
  "ModifyGardenerClusterName = modify_field ''gardener-cluster-name''"

definition ModifyGardenerClusterType :: "string \<Rightarrow> kubeconfig \<Rightarrow> kubeconfig res" where
  "ModifyGardenerClusterType = modify_field ''gardener-cluster-type''"

definition ModifyCurrentContext :: "string \<Rightarrow> kubeconfig \<Rightarrow> kubeconfig res" where
  "ModifyCurrentContext = modify_field ''current-context''"

text \<open>
  The loop of \<^verbatim>\<open>ModifyContextName\<close>: the entries with the first one of that name renamed, or
  \<^verbatim>\<open>None\<close> and the names seen.
\<close>

fun rename_context :: "string \<Rightarrow> string \<Rightarrow> ynode list \<Rightarrow> string list \<Rightarrow> (ynode list option \<times> string list) res" where
  "rename_context old new [] available = Ok (None, available)"
| "rename_context old new (c # cs) available = bindR (valueOf c ''name'') (\<lambda>nameNode.
     case nameNode of
       None \<Rightarrow> Panic nil_deref
     | Some n \<Rightarrow>
         (let available' = available @ [Value n]
          in if Kind n = ScalarNode \<and> Value n = old
             then Ok (Some (update_at ''name'' (set_Value new) c # cs), available')
             else mapR (\<lambda>(r, a). (map_option ((#) c) r, a)) (rename_context old new cs available')))"

definition set_contexts :: "ynode list \<Rightarrow> kubeconfig \<Rightarrow> kubeconfig" where
  "set_contexts cs k = k\<lparr>kc_rootNode := update_at ''contexts'' (set_Content cs) (kc_rootNode k)\<rparr>"

definition ModifyContextName :: "string \<Rightarrow> string \<Rightarrow> kubeconfig \<Rightarrow> kubeconfig res" where
  "ModifyContextName old new k = bindR (contextsNode k) (\<lambda>contexts.
     bindR (rename_context old new (Content contexts) []) (\<lambda>(changed, available).
       case changed of
         None \<Rightarrow> Err (Errorf ''context with name %q not found (available: %v)'' (old # available))
       | Some cs \<Rightarrow> Ok (set_contexts cs k)))"

text \<open>The value of \<^verbatim>\<open>field\<close> in the body of each remaining context (the map used as a set).\<close>

fun referenced_loop :: "string \<Rightarrow> ynode list \<Rightarrow> string list res" where
  "referenced_loop key [] = Ok []"
| "referenced_loop key (c # cs) = bindR (valueOf c ''context'') (\<lambda>ctxData.
     case ctxData of
       None \<Rightarrow> referenced_loop key cs
     | Some d \<Rightarrow> bindR (valueOf d key) (\<lambda>v.
         case v of
           None \<Rightarrow> referenced_loop key cs
         | Some x \<Rightarrow> mapR (\<lambda>r. Value x # r) (referenced_loop key cs)))"

definition referencedContextField :: "string \<Rightarrow> kubeconfig \<Rightarrow> string list res" where
  "referencedContextField key k = bindR (valueOf (kc_rootNode k) ''contexts'') (\<lambda>contexts.
     case contexts of
       None \<Rightarrow> Ok []
     | Some n \<Rightarrow> if Kind n \<noteq> SequenceNode then Ok [] else referenced_loop key (Content n))"

fun keep_referenced :: "string list \<Rightarrow> ynode list \<Rightarrow> ynode list res" where
  "keep_referenced referenced [] = Ok []"
| "keep_referenced referenced (c # cs) = bindR (valueOf c ''name'') (\<lambda>nameNode.
     mapR (\<lambda>keep. case nameNode of
         None \<Rightarrow> keep
       | Some n \<Rightarrow> if Value n \<in> set referenced then c # keep else keep)
       (keep_referenced referenced cs))"

definition remove_orphaned :: "string \<Rightarrow> string \<Rightarrow> kubeconfig \<Rightarrow> kubeconfig res" where
  "remove_orphaned section_key ref_field k = bindR (valueOf (kc_rootNode k) section_key) (\<lambda>entries.
     case entries of
       None \<Rightarrow> Ok k
     | Some n \<Rightarrow>
         if Kind n \<noteq> SequenceNode then Ok k
         else bindR (referencedContextField ref_field k) (\<lambda>referenced.
           mapR (\<lambda>keep. k\<lparr>kc_rootNode := update_at section_key (set_Content keep) (kc_rootNode k)\<rparr>)
             (keep_referenced referenced (Content n))))"

definition removeOrphanedClusters :: "kubeconfig \<Rightarrow> kubeconfig res" where
  "removeOrphanedClusters = remove_orphaned ''clusters'' ''cluster''"

definition removeOrphanedUsers :: "kubeconfig \<Rightarrow> kubeconfig res" where
  "removeOrphanedUsers = remove_orphaned ''users'' ''user''"

fun keep_contexts :: "string \<Rightarrow> ynode list \<Rightarrow> ynode list res" where
  "keep_contexts name [] = Ok []"
| "keep_contexts name (c # cs) = bindR (valueOf c ''name'') (\<lambda>contextName.
     case contextName of
       None \<Rightarrow> Panic nil_deref
     | Some n \<Rightarrow> if Value n = name then keep_contexts name cs
                else mapR ((#) c) (keep_contexts name cs))"

definition RemoveContext :: "string \<Rightarrow> kubeconfig \<Rightarrow> kubeconfig res" where
  "RemoveContext name k = bindR (valueOf (kc_rootNode k) ''contexts'') (\<lambda>contexts.
     case contexts of
       None \<Rightarrow> Err (Errorf ''contexts entry is nil'' [])
     | Some n \<Rightarrow>
         if Kind n \<noteq> SequenceNode then Err (Errorf ''contexts is not a sequence node'' [])
         else bindR (keep_contexts name (Content n)) (\<lambda>keep.
           bindR (removeOrphanedClusters (set_contexts keep k)) removeOrphanedUsers))"

section \<open>The namespace of a context\<close>

definition empty_body :: ynode where
  "empty_body = YNode MappingNode [] [] []"

definition SetNamespace :: "string \<Rightarrow> string \<Rightarrow> kubeconfig \<Rightarrow> kubeconfig res" where
  "SetNamespace ctxName ns k = bindR (contextsNode k) (\<lambda>contexts.
     bindR (contextNode k ctxName) (\<lambda>(i, ctxNode).
     bindR (valueOf ctxNode ''context'') (\<lambda>body.
     let ctxBodyNodeWasEmpty = (body = None);
         ctxBodyNode = (case body of None \<Rightarrow> empty_body | Some b \<Rightarrow> b)
     in mapR (\<lambda>nsNode.
          let ctxBodyNode' = (case nsNode of
                Some x \<Rightarrow> update_at ''namespace'' (set_Value ns) ctxBodyNode
              | None \<Rightarrow> append_pair ''namespace'' (str_node ns) ctxBodyNode);
              ctxNode' = (if ctxBodyNodeWasEmpty then append_pair ''context'' ctxBodyNode' ctxNode
                          else update_at ''context'' (\<lambda>_. ctxBodyNode') ctxNode)
          in set_contexts ((Content contexts)[i := ctxNode']) k)
        (valueOf ctxBodyNode ''namespace''))))"

definition NamespaceOfContext :: "string \<Rightarrow> kubeconfig \<Rightarrow> string res" where
  "NamespaceOfContext contextName k = bindR (contextNode k contextName) (\<lambda>(i, ctx).
     bindR (valueOf ctx ''context'') (\<lambda>ctxBody.
       case ctxBody of
         None \<Rightarrow> Ok ''default''
       | Some b \<Rightarrow> mapR (\<lambda>ns. case ns of
             None \<Rightarrow> ''default''
           | Some x \<Rightarrow> if Value x = [] then ''default'' else Value x)
           (valueOf b ''namespace'')))"

section \<open>Loading, switching, writing\<close>

definition New :: "(string \<Rightarrow> ynode res) \<Rightarrow> string \<Rightarrow> string \<Rightarrow> bool \<Rightarrow> kubeconfig res" where
  "New um kubeconfigData path useTmpFile = bindR (um kubeconfigData) (\<lambda>n.
     case Content n of
       [] \<Rightarrow> Err (Errorf ''kubeconfig at %q is empty or not a valid YAML document'' [path])
     | root # rest \<Rightarrow>
         if Kind root \<noteq> MappingNode
         then Err (Errorf ''kubeconfig file does not have expected format'' [])
         else Ok \<lparr>kc_path = path, kc_useTmpFile = useTmpFile, kc_rootNode = root\<rparr>)"

definition TemporaryKubeconfigDir :: "world \<Rightarrow> string" where
  "TemporaryKubeconfigDir w = getenv w ''HOME'' @ ''/.kube/.switch_tmp''"

definition NewKubeconfig :: "(string \<Rightarrow> ynode res) \<Rightarrow> string \<Rightarrow> kubeconfig io" where
  "NewKubeconfig um kubeconfigData = (\<lambda>w. (New um kubeconfigData (TemporaryKubeconfigDir w) True, w))"

definition NewKubeconfigForPath :: "(string \<Rightarrow> ynode res) \<Rightarrow> string \<Rightarrow> kubeconfig io" where
  "NewKubeconfigForPath um path =
     bindIO (wrapIO ''failed to read kubeconfig file: %w'' [] (os_ReadFile path))
       (\<lambda>bytes. liftR (New um bytes path False))"

definition kubeconfigPath :: "string io" where
  "kubeconfigPath = bindIO (os_Getenv ''KUBECONFIG'') (\<lambda>v.
     if v \<noteq> [] then
       (if length (SplitList v) > 1
        then failIO (Errorf ''multiple files in KUBECONFIG are currently not supported'' [])
        else returnIO v)
     else bindIO (os_Getenv ''HOME'') (\<lambda>home.
       if home = [] then failIO (Errorf ''HOME environment variable not set'' [])
       else returnIO (JoinPath [home, ''.kube'', ''config''])))"

definition LoadCurrentKubeconfig :: "(string \<Rightarrow> ynode res) \<Rightarrow> kubeconfig io" where
  "LoadCurrentKubeconfig um = bindIO kubeconfigPath (NewKubeconfigForPath um)"

definition SetContext :: "string \<Rightarrow> string \<Rightarrow> string \<Rightarrow> kubeconfig \<Rightarrow> kubeconfig res" where
  "SetContext currentContext originalContextBeforeAlias pre k =
     bindR
       (if length originalContextBeforeAlias > 0 then
          (let original =
             (if length pre > 0 \<and> HasPrefix originalContextBeforeAlias pre
              then TrimPrefix originalContextBeforeAlias (pre @ ''/'')
              else originalContextBeforeAlias)
           in wrapR ''failed to set currentContext on selected kubeconfig: %w'' []
                (ModifyContextName original currentContext k))
        else Ok k)
       (\<lambda>k'. wrapR ''failed to set current context on selected kubeconfig: %w'' []
          (ModifyCurrentContext currentContext k'))"

definition SetKswitchContext :: "string \<Rightarrow> kubeconfig \<Rightarrow> kubeconfig res" where
  "SetKswitchContext context_name k =
     wrapR ''failed to set switch context on selected kubeconfig: %w'' [] (ModifyKswitchContext context_name k)"

definition SetGardenerStoreMetaInformation ::
    "string \<Rightarrow> string \<Rightarrow> string \<Rightarrow> string \<Rightarrow> kubeconfig \<Rightarrow> kubeconfig res" where
  "SetGardenerStoreMetaInformation landscapeIdentity clusterType project name k =
     bindR (wrapR ''failed to set Gardener meta information (Landscape Identity): %w'' []
       (ModifyGardenerLandscapeIdentity landscapeIdentity k)) (\<lambda>k1.
     bindR (wrapR ''failed to set Gardener meta information (Cluster Type): %w'' []
       (ModifyGardenerClusterType clusterType k1)) (\<lambda>k2.
     bindR (wrapR ''failed to set Gardener meta information (project name): %w'' []
       (ModifyGardenerProject project k2)) (\<lambda>k3.
     wrapR ''failed to set Gardener meta information (Shoot/Seed name): %w'' []
       (ModifyGardenerClusterName name k3))))"

definition SetNamespaceForCurrentContext :: "string \<Rightarrow> kubeconfig \<Rightarrow> kubeconfig res" where
  "SetNamespaceForCurrentContext namespace k = bindR (GetCurrentContext k) (\<lambda>currentContext.
     if length currentContext = 0 then Err (Errorf ''current-context is not set'' [])
     else wrapR ''failed to set namespace %q: %w'' [namespace] (SetNamespace currentContext namespace k))"

text \<open>
  \<^verbatim>\<open>WriteKubeconfigFile\<close>: into a new file of the temporary directory, or over the file the
  kubeconfig was read from, which is truncated before the tree is encoded.
\<close>

definition WriteKubeconfigFile :: "(ynode \<Rightarrow> string res) \<Rightarrow> kubeconfig \<Rightarrow> string io" where
  "WriteKubeconfigFile enc k =
     bindIO
       (if kc_useTmpFile k then
          bindIO (tryIO (os_Mkdir (kc_path k) 448) returnIO
                   (\<lambda>e. if \<not> IsExist e then failIO e else returnIO ()))
            (\<lambda>_. os_CreateTemp (kc_path k) ''config.'' ''.tmp'')
        else
          bindIO (wrapIO ''failed to open existing kubeconfig file: %w'' []
                   (os_open_write True 384 (kc_path k)))
            (\<lambda>_. returnIO (kc_path k)))
       (\<lambda>name. bindIO (liftR (enc (kc_rootNode k))) (\<lambda>bs.
          bindIO (file_Write name bs) (\<lambda>_. returnIO name)))"

definition GetBytes :: "(ynode \<Rightarrow> string res) \<Rightarrow> kubeconfig \<Rightarrow> string res" where
  "GetBytes marshal k = marshal (kc_rootNode k)"

end
