(* ===== verification/Util.thy ===== *)
theory Util
  imports Stores Kubeconfig
begin

text \<open>
  \<^verbatim>\<open>pkg/util/util.go\<close>: the context names of a kubeconfig, the copy of it without credentials that
  previews show, and the arguments after \<^verbatim>\<open>--\<close>. \<^verbatim>\<open>um\<close> is the YAML library decoding a kubeconfig
  into the structure of \<^verbatim>\<open>types.KubeConfig\<close>.
\<close>

section \<open>Redaction\<close>

definition redactedValue :: string where
  "redactedValue = ''REDACTED''"

definition authProviderSafeKeys :: "string list" where
  "authProviderSafeKeys = [''client-id'', ''idp-issuer-url'', ''idp-certificate-authority'',
     ''idp-certificate-authority-data'', ''cmd-path'', ''expiry-key'', ''token-key'', ''scopes'']"

definition redact_auth :: "AuthProvider \<Rightarrow> AuthProvider" where
  "redact_auth a = a\<lparr>ap_Config := map (\<lambda>(key, v). (key, if key \<notin> set authProviderSafeKeys then redactedValue else v)) (ap_Config a)\<rparr>"

definition redact_exec :: "ExecProvider \<Rightarrow> ExecProvider" where
  "redact_exec e = e\<lparr>ep_Args := map (\<lambda>_. redactedValue) (ep_Args e),
     ep_Env := map (\<lambda>v. v\<lparr>env_Value := redactedValue\<rparr>) (ep_Env e)\<rparr>"

definition redactUserCredentials :: "KubeConfig \<Rightarrow> KubeConfig" where
  "redactUserCredentials config = config\<lparr>kcf_Users := map (\<lambda>ku.
     let user = ku_User ku
     in ku\<lparr>ku_User := user\<lparr>u_AuthProvider := map_option redact_auth (u_AuthProvider user),
                           u_ExecProvider := map_option redact_exec (u_ExecProvider user)\<rparr>\<rparr>) (kcf_Users config)\<rparr>"

definition ParseSanitizedKubeconfig :: "(string \<Rightarrow> KubeConfig res) \<Rightarrow> string \<Rightarrow> KubeConfig res" where
  "ParseSanitizedKubeconfig um data =
     mapR redactUserCredentials (wrapR ''could not unmarshal kubeconfig: %w'' [] (um data))"

section \<open>Context names\<close>

definition getContextNames :: "KubeConfig \<Rightarrow> string \<Rightarrow> string list" where
  "getContextNames config pre =
     (let pre' = (if length pre \<noteq> 0 then pre @ ''/'' else pre)
      in map (\<lambda>c. pre' @ kcx_Name c) (kcf_Contexts config))"

definition GetContextsNamesFromKubeconfig :: "(string \<Rightarrow> KubeConfig res) \<Rightarrow> string \<Rightarrow> string \<Rightarrow> string list res" where
  "GetContextsNamesFromKubeconfig um kubeconfigBytes contextPrefix =
     mapR (\<lambda>config. getContextNames config contextPrefix)
       (wrapR ''could not parse Kubeconfig: %w'' [] (ParseSanitizedKubeconfig um kubeconfigBytes))"

definition util_ExpandEnv :: "world \<Rightarrow> string \<Rightarrow> string" where
  "util_ExpandEnv w path = os_ExpandEnv w (ReplaceAll path ''~'' ''$HOME'')"

definition util_GetCurrentContext :: "(string \<Rightarrow> ynode res) \<Rightarrow> string io" where
  "util_GetCurrentContext um = bindIO (LoadCurrentKubeconfig um) (\<lambda>kc.
     bindIO (liftR (GetCurrentContext kc)) (\<lambda>currCtx.
       if currCtx = [] then failIO (Errorf ''current-context is not set'' []) else returnIO currCtx))"

section \<open>Additional arguments\<close>

text \<open>\<^verbatim>\<open>SliceFindIndex\<close>: \<^verbatim>\<open>None\<close> for \<^verbatim>\<open>-1\<close>.\<close>

definition SliceFindIndex :: "'a list \<Rightarrow> 'a \<Rightarrow> nat option" where
  "SliceFindIndex xs search = find_idx search xs"

definition getAdditionalArgs :: "string list \<Rightarrow> string list" where
  "getAdditionalArgs osArgs = (case SliceFindIndex osArgs ''--'' of
     None \<Rightarrow> [] | Some i \<Rightarrow> if i > 0 then drop (i + 1) osArgs else [])"

text \<open>The additional arguments and the remaining \<^verbatim>\<open>*args\<close>; a negative slice bound panics.\<close>

definition SplitAdditionalArgs :: "string list \<Rightarrow> string list \<Rightarrow> (string list \<times> string list) res" where
  "SplitAdditionalArgs osArgs args =
     (let additionalArgs = getAdditionalArgs osArgs; n = length additionalArgs
      in if n > 0
         then (if n > length args then Panic ''slice bounds out of range''
               else Ok (additionalArgs, take (length args - n) args))
         else Ok (additionalArgs, args))"

section \<open>What redaction hides and what it keeps\<close>

text \<open>Two configurations that differ at most in credentials.\<close>

definition same_public_auth :: "AuthProvider \<Rightarrow> AuthProvider \<Rightarrow> bool" where
  "same_public_auth a b \<longleftrightarrow> ap_Name a = ap_Name b \<and>
     list_all2 (\<lambda>(k, v) (k', v'). k = k' \<and> (k \<in> set authProviderSafeKeys \<longrightarrow> v = v')) (ap_Config a) (ap_Config b)"

definition same_public_exec :: "ExecProvider \<Rightarrow> ExecProvider \<Rightarrow> bool" where
  "same_public_exec a b \<longleftrightarrow> length (ep_Args a) = length (ep_Args b) \<and>
     map env_Name (ep_Env a) = map env_Name (ep_Env b) \<and>
     ep_APIVersion a = ep_APIVersion b \<and> ep_Command a = ep_Command b \<and> ep_InstallHint a = ep_InstallHint b \<and>
     ep_ProvideClusterInfo a = ep_ProvideClusterInfo b"

definition same_public_user :: "KubeUser \<Rightarrow> KubeUser \<Rightarrow> bool" where
  "same_public_user a b \<longleftrightarrow> ku_Name a = ku_Name b \<and>
     rel_option same_public_auth (u_AuthProvider (ku_User a)) (u_AuthProvider (ku_User b)) \<and>
     rel_option same_public_exec (u_ExecProvider (ku_User a)) (u_ExecProvider (ku_User b))"

lemma redact_auth_eq: "same_public_auth a b \<Longrightarrow> redact_auth a = redact_auth b"
proof -
  assume s: "same_public_auth a b"
  have "map (\<lambda>(key, v). (key, if key \<notin> set authProviderSafeKeys then redactedValue else v)) xs =
      map (\<lambda>(key, v). (key, if key \<notin> set authProviderSafeKeys then redactedValue else v)) ys"
    if "list_all2 (\<lambda>(k, v) (k', v'). k = k' \<and> (k \<in> set authProviderSafeKeys \<longrightarrow> v = v')) xs ys" for xs ys :: "(string \<times> string) list"
    using that by (induction rule: list_all2_induct) auto
  then show ?thesis using s by (cases a; cases b) (simp add: same_public_auth_def redact_auth_def)
qed

lemma redact_exec_eq: "same_public_exec a b \<Longrightarrow> redact_exec a = redact_exec b"
proof -
  assume s: "same_public_exec a b"
  have e: "map (\<lambda>v. v\<lparr>env_Value := redactedValue\<rparr>) xs = map (\<lambda>v. v\<lparr>env_Value := redactedValue\<rparr>) ys"
    if "map env_Name xs = map env_Name ys" for xs ys :: "EnvMap list"
  proof -
    have "list_all2 (\<lambda>x y. env_Name x = env_Name y) xs ys"
      using that by (simp add: list_all2_conv_all_nth list_eq_iff_nth_eq)
    then show ?thesis by (induction rule: list_all2_induct) auto
  qed
  have "map (\<lambda>_. redactedValue) (ep_Args a) = map (\<lambda>_. redactedValue) (ep_Args b)"
    using s by (simp add: same_public_exec_def map_replicate_const)
  then show ?thesis using s e [of "ep_Env a" "ep_Env b"] by (cases a; cases b) (simp add: same_public_exec_def redact_exec_def)
qed

lemma redact_same:
  assumes "list_all2 same_public_user (kcf_Users a) (kcf_Users b)"
    and "kcf_Users_update (\<lambda>_. []) a = kcf_Users_update (\<lambda>_. []) b"
  shows "redactUserCredentials a = redactUserCredentials b"
proof -
  let ?f = "\<lambda>ku. let user = ku_User ku
     in ku\<lparr>ku_User := user\<lparr>u_AuthProvider := map_option redact_auth (u_AuthProvider user),
                           u_ExecProvider := map_option redact_exec (u_ExecProvider user)\<rparr>\<rparr>"
  have f: "?f u = ?f v" if "same_public_user u v" for u v
  proof -
    obtain n au ex where u: "u = \<lparr>ku_Name = n, ku_User = \<lparr>u_AuthProvider = au, u_ExecProvider = ex\<rparr>\<rparr>"
      by (metis KubeUser.cases User.cases)
    obtain m av ey where v: "v = \<lparr>ku_Name = m, ku_User = \<lparr>u_AuthProvider = av, u_ExecProvider = ey\<rparr>\<rparr>"
      by (metis KubeUser.cases User.cases)
    from that have "n = m" "rel_option same_public_auth au av" "rel_option same_public_exec ex ey"
      by (simp_all add: same_public_user_def u v)
    then have "map_option redact_auth au = map_option redact_auth av" "map_option redact_exec ex = map_option redact_exec ey"
      by (auto simp: redact_auth_eq redact_exec_eq elim!: option.rel_cases)
    then show ?thesis using \<open>n = m\<close> by (simp add: u v)
  qed
  have users: "map ?f us = map ?f vs" if "list_all2 same_public_user us vs" for us vs
    using that by (induction rule: list_all2_induct) (simp_all add: f)
  show ?thesis
    using users [OF assms(1)] assms(2) by (cases a; cases b) (simp add: redactUserCredentials_def Let_def)
qed

text \<open>
  C33. The sanitized kubeconfig does not depend on credentials: two kubeconfigs that differ only in
  auth-provider values outside the allow-list, in arguments of the exec provider and in values of
  its environment have the same sanitized form.
\<close>

theorem redaction_noninterference:
  assumes "list_all2 same_public_user (kcf_Users a) (kcf_Users b)"
    and "kcf_Users_update (\<lambda>_. []) a = kcf_Users_update (\<lambda>_. []) b"
    and "um x = Ok a" "um y = Ok b"
  shows "ParseSanitizedKubeconfig um x = ParseSanitizedKubeconfig um y"
  using redact_same [OF assms(1,2)] assms(3,4) by (simp add: ParseSanitizedKubeconfig_def)

text \<open>
  Redaction leaves what the search reads: the context names, with the store prefix in front,
  and the clusters are those of the file.
\<close>

theorem context_names_of_kubeconfig:
  assumes "um data = Ok c"
  shows "GetContextsNamesFromKubeconfig um data pre =
      Ok (map (\<lambda>x. (if pre = [] then [] else pre @ ''/'') @ kcx_Name x) (kcf_Contexts c)) \<and>
    (\<exists>s. ParseSanitizedKubeconfig um data = Ok s \<and> kcf_Contexts s = kcf_Contexts c \<and> kcf_Clusters s = kcf_Clusters c \<and>
       kcf_CurrentContext s = kcf_CurrentContext c \<and> map ku_Name (kcf_Users s) = map ku_Name (kcf_Users c))"
  using assms by (auto simp: GetContextsNamesFromKubeconfig_def ParseSanitizedKubeconfig_def getContextNames_def
      redactUserCredentials_def Let_def)

text \<open>
  \<^verbatim>\<open>SplitAdditionalArgs\<close> separates the command's own arguments from those after the first \<^verbatim>\<open>--\<close>,
  provided the latter end the argument list it is given, as the flag parser leaves it.
\<close>

theorem SplitAdditionalArgs_spec:
  assumes "osArgs = before @ ''--'' # after" "''--'' \<notin> set before" "before \<noteq> []" "args = own @ after"
  shows "SplitAdditionalArgs osArgs args = Ok (after, own)"
proof -
  have "find_idx ''--'' (before @ ''--'' # after) = Some (length before)"
    using assms(2) by (induction before) auto
  then have "getAdditionalArgs osArgs = after"
    using assms(1,3) by (simp add: getAdditionalArgs_def SliceFindIndex_def)
  then show ?thesis using assms(4) by (auto simp: SplitAdditionalArgs_def Let_def)
qed

section \<open>Witnesses\<close>

definition kubeconfig_with :: "string \<Rightarrow> KubeConfig" where
  "kubeconfig_with secret = \<lparr>kcf_Kind = ''Config'', kcf_APIVersion = ''v1'', kcf_CurrentContext = ''dev'',
     kcf_Contexts = [\<lparr>kcx_Name = ''dev'', kcx_Context = \<lparr>cx_Cluster = ''c'', cx_User = ''u''\<rparr>\<rparr>], kcf_Clusters = [],
     kcf_Users = [\<lparr>ku_Name = ''u'', ku_User = \<lparr>u_AuthProvider = Some \<lparr>ap_Config = [(''id-token'', secret), (''client-id'', ''x'')], ap_Name = ''oidc''\<rparr>,
        u_ExecProvider = Some \<lparr>ep_APIVersion = [], ep_Args = [''--token'', secret], ep_Command = ''login'',
          ep_Env = [\<lparr>env_Name = ''TOKEN'', env_Value = secret\<rparr>], ep_InstallHint = [], ep_ProvideClusterInfo = False\<rparr>\<rparr>\<rparr>]\<rparr>"

lemma redaction_noninterference_witness:
  "ParseSanitizedKubeconfig (\<lambda>d. Ok (kubeconfig_with d)) ''s1'' = ParseSanitizedKubeconfig (\<lambda>d. Ok (kubeconfig_with d)) ''s2''"
proof (rule redaction_noninterference)
  show "list_all2 same_public_user (kcf_Users (kubeconfig_with ''s1'')) (kcf_Users (kubeconfig_with ''s2''))"
    by (simp add: kubeconfig_with_def same_public_user_def same_public_auth_def same_public_exec_def authProviderSafeKeys_def)
qed (simp_all add: kubeconfig_with_def)

lemma context_names_of_kubeconfig_witness:
  "GetContextsNamesFromKubeconfig (\<lambda>d. Ok (kubeconfig_with d)) ''s'' ''store'' = Ok [''store/dev'']"
  using context_names_of_kubeconfig [of "\<lambda>d. Ok (kubeconfig_with d)" "''s''" "kubeconfig_with ''s''" "''store''", OF refl]
  by (simp add: kubeconfig_with_def)

lemma SplitAdditionalArgs_spec_witness:
  "SplitAdditionalArgs [''switch'', ''exec'', ''ctx'', ''--'', ''kubectl'', ''get''] [''ctx'', ''kubectl'', ''get''] =
     Ok ([''kubectl'', ''get''], [''ctx''])"
  by (rule SplitAdditionalArgs_spec [of _ "[''switch'', ''exec'', ''ctx'']"]) simp_all

end
