(* ===== verification/AliasState.thy ===== *)
theory AliasState
  imports GoOS
begin

text \<open>
  The alias state (\<^verbatim>\<open>pkg/subcommands/alias/state/alias.go\<close>): one file per alias in a directory,
  the file name is the alias and its content the context; an in-memory map from context to
  alias; the migration from the older single file. And the alias subcommands on top of it
  that do not search (\<^verbatim>\<open>pkg/subcommands/alias/alias.go\<close>).
\<close>

section \<open>Names and files\<close>

record alias_state =
  al_dir :: string
  al_map :: "(string, string) gomap option"   \<comment> \<open>context to alias; \<^verbatim>\<open>None\<close> is the nil map\<close>

definition validateAliasName :: "string \<Rightarrow> unit res" where
  "validateAliasName aliasName =
     (if aliasName = [] then Err (Errorf ''alias name must not be empty'' [])
      else if aliasName = ''.'' \<or> aliasName = ''..'' then Err (Errorf ''alias name %q is reserved'' [aliasName])
      else if HasPrefix aliasName ''.'' then Err (Errorf ''alias name %q must not start with a dot'' [aliasName])
      else if ContainsAny aliasName [CHR ''/'', CHR 0x5C]
      then Err (Errorf ''alias name %q must not contain a path separator'' [aliasName])
      else Ok ())"

definition writeAliasFile :: "string \<Rightarrow> string \<Rightarrow> string \<Rightarrow> unit io" where
  "writeAliasFile dir aliasName contextName =
     bindIO (liftR (validateAliasName aliasName)) (\<lambda>_.
     let path = JoinPath [dir, aliasName]
     in bindIO (wrapIO ''failed to create temp alias file: %w'' [] (os_CreateTemp dir ''.alias-tmp-'' [])) (\<lambda>tmpName.
        finallyIO
          (bindIO (wrapIO ''failed to write alias file: %w'' [] (file_Write tmpName contextName)) (\<lambda>_.
           bindIO (wrapIO ''failed to close temp alias file: %w'' [] (file_Close tmpName)) (\<lambda>_.
           os_Rename tmpName path)))
          (ignoreIO (os_Remove tmpName))))"

definition al_content :: "alias_state \<Rightarrow> (string, string) gomap" where
  "al_content a = (case al_map a of None \<Rightarrow> [] | Some m \<Rightarrow> m)"

text \<open>The first entry in the order of the iteration whose value is the alias.\<close>

definition ContainsAlias :: "string \<Rightarrow> alias_state \<Rightarrow> string option" where
  "ContainsAlias aliasName a =
     map_option fst (List.find (\<lambda>(ctx, al). aliasName = al) (al_content a))"

definition WriteAlias :: "string \<Rightarrow> string \<Rightarrow> alias_state \<Rightarrow> (string option res \<times> alias_state) io" where
  "WriteAlias aliasName contextName a =
     (case validateAliasName aliasName of
        Err e \<Rightarrow> returnIO (Err e, a)
      | Panic p \<Rightarrow> liftR (Panic p)
      | Ok _ \<Rightarrow>
          (let replaced = ContainsAlias aliasName a;
               m = (case replaced of None \<Rightarrow> al_content a | Some ctx \<Rightarrow> mdel ctx (al_content a));
               a' = a\<lparr>al_map := Some (mset contextName aliasName m)\<rparr>
           in bindIO (attemptIO
                (bindIO (wrapIO ''failed to create alias directory: %w'' [] (os_MkdirAll (al_dir a) 448)) (\<lambda>_.
                 writeAliasFile (al_dir a) aliasName contextName)))
              (\<lambda>r. returnIO (mapR (\<lambda>_. replaced) r, a'))))"

text \<open>The first loop of \<^verbatim>\<open>WriteAllAliases\<close>; its value is the set \<^verbatim>\<open>desired\<close>.\<close>

definition write_desired :: "string \<Rightarrow> (string, string) gomap \<Rightarrow> string list io" where
  "write_desired dir m = foldIO (\<lambda>(contextName, aliasName) desired.
     if \<not> is_ok (validateAliasName aliasName) then returnIO desired
     else bindIO (writeAliasFile dir aliasName contextName) (\<lambda>_. returnIO (aliasName # desired))) m []"

definition remove_undesired :: "string \<Rightarrow> string list \<Rightarrow> dirent list \<Rightarrow> unit io" where
  "remove_undesired dir desired ents = foldIO (\<lambda>e _.
     if disdir e \<or> HasPrefix (dname e) ''.'' then returnIO ()
     else if dname e \<notin> set desired then ignoreIO (os_Remove (JoinPath [dir, dname e]))
     else returnIO ()) ents ()"

definition WriteAllAliases :: "alias_state \<Rightarrow> unit io" where
  "WriteAllAliases a =
     bindIO (wrapIO ''failed to create alias directory: %w'' [] (os_MkdirAll (al_dir a) 448)) (\<lambda>_.
     bindIO (write_desired (al_dir a) (al_content a)) (\<lambda>desired.
     bindIO (wrapIO ''failed to read alias directory: %w'' [] (os_ReadDir (al_dir a)))
       (remove_undesired (al_dir a) desired)))"

definition loadFromDir :: "alias_state \<Rightarrow> alias_state io" where
  "loadFromDir a =
     bindIO (wrapIO ''failed to read alias directory %q: %w'' [al_dir a] (os_ReadDir (al_dir a))) (\<lambda>ents.
     bindIO (foldIO (\<lambda>e m.
         if disdir e \<or> HasPrefix (dname e) ''.'' then returnIO m
         else bindIO (wrapIO ''failed to read alias file %q: %w'' [dname e] (os_ReadFile (JoinPath [al_dir a, dname e]))) (\<lambda>data.
           let ctx = TrimSpace data
           in returnIO (if ctx \<noteq> [] then mset ctx (dname e) m else m))) ents [])
       (\<lambda>m. returnIO (a\<lparr>al_map := Some m\<rparr>)))"

text \<open>\<^verbatim>\<open>um\<close> is the YAML library reading the legacy file: its map, or nil.\<close>

definition migrateFromLegacy ::
    "(string \<Rightarrow> (string, string) gomap option res) \<Rightarrow> string \<Rightarrow> alias_state \<Rightarrow> alias_state io" where
  "migrateFromLegacy um stateDir a =
     (let legacyPath = JoinPath [stateDir, ''switch.'' @ ''alias'']
      in tryIO (os_Stat legacyPath)
        (\<lambda>_. bindIO (wrapIO ''failed to read legacy alias file: %w'' [] (os_ReadFile legacyPath)) (\<lambda>data.
           bindIO (if length data > 0
                   then wrapIO ''failed to parse legacy alias file: %w'' [] (liftR (um data))
                   else returnIO (al_map a)) (\<lambda>m.
           let a' = a\<lparr>al_map := m\<rparr>
           in bindIO (wrapIO ''failed to create alias directory: %w'' [] (os_MkdirAll (al_dir a) 448)) (\<lambda>_.
              bindIO (WriteAllAliases a') (\<lambda>_.
              bindIO (ignoreIO (os_Remove legacyPath)) (\<lambda>_. returnIO a'))))))
        (\<lambda>e. if IsNotExist e then returnIO a else failIO e))"

definition load ::
    "(string \<Rightarrow> (string, string) gomap option res) \<Rightarrow> string \<Rightarrow> alias_state \<Rightarrow> alias_state io" where
  "load um stateDir a = tryIO (os_Stat (al_dir a)) (\<lambda>_. loadFromDir a)
     (\<lambda>e. if \<not> IsNotExist e then failIO e else migrateFromLegacy um stateDir a)"

definition GetDefaultAlias ::
    "(string \<Rightarrow> (string, string) gomap option res) \<Rightarrow> string \<Rightarrow> alias_state io" where
  "GetDefaultAlias um stateDir = load um stateDir
     \<lparr>al_dir = JoinPath [stateDir, ''aliases''], al_map = None\<rparr>"

text \<open>\<^verbatim>\<open>GetContextForAlias\<close>: the map it is given is from contexts to aliases.\<close>

definition GetContextForAlias :: "string \<Rightarrow> (string, string) gomap \<Rightarrow> string" where
  "GetContextForAlias context_name mapping =
     (case mget mapping context_name of Some v \<Rightarrow> v
      | None \<Rightarrow> (case mget mapping context_name of Some v \<Rightarrow> v | None \<Rightarrow> []))"

section \<open>The subcommands\<close>

definition ensureStateDir :: "string \<Rightarrow> unit io" where
  "ensureStateDir dir = tryIO (os_Stat dir) (\<lambda>_. returnIO ())
     (\<lambda>e. if IsNotExist e then os_Mkdir dir 448 else returnIO ())"

definition GetAliases ::
    "(string \<Rightarrow> (string, string) gomap option res) \<Rightarrow> string \<Rightarrow> string list io" where
  "GetAliases um stateDir =
     bindIO (ensureStateDir stateDir) (\<lambda>_.
     bindIO (GetDefaultAlias um stateDir) (\<lambda>a.
       returnIO (case al_map a of None \<Rightarrow> [] | Some m \<Rightarrow> map snd m)))"

text \<open>The table is drawn by a library; its rows and its footer are printed here.\<close>

definition ListAliases ::
    "(string \<Rightarrow> (string, string) gomap option res) \<Rightarrow> string \<Rightarrow> unit io" where
  "ListAliases um stateDir =
     bindIO (ensureStateDir stateDir) (\<lambda>_.
     bindIO (GetDefaultAlias um stateDir) (\<lambda>a.
       case al_map a of
         None \<Rightarrow> fmt_Print ''No aliases registered''
       | Some m \<Rightarrow> bindIO (foldIO (\<lambda>(ctx, aliasName) _. fmt_Print (aliasName @ ''|'' @ ctx)) m ())
           (\<lambda>_. fmt_Print (''Total|'' @ itoa (length m)))))"

definition RemoveAlias ::
    "(string \<Rightarrow> (string, string) gomap option res) \<Rightarrow> string \<Rightarrow> string \<Rightarrow> unit io" where
  "RemoveAlias um aliasToRemove stateDir =
     bindIO (ensureStateDir stateDir) (\<lambda>_.
     bindIO (GetDefaultAlias um stateDir) (\<lambda>a.
       case al_map a of
         None \<Rightarrow> fmt_Print ''No aliases registered''
       | Some m \<Rightarrow>
           (let newAliases = filter (\<lambda>(ctx, aliasName). aliasName \<noteq> aliasToRemove) m;
                aliasFound = list_ex (\<lambda>(ctx, aliasName). aliasName = aliasToRemove) m
            in if \<not> aliasFound then failIO (Errorf ''alias with name %q does not exist'' [aliasToRemove])
               else bindIO (wrapIO ''failed to write aliases: %w'' [] (WriteAllAliases (a\<lparr>al_map := Some newAliases\<rparr>)))
                 (\<lambda>_. fmt_Print (''Removed alias '' @ aliasToRemove @ ''. There are now ''
                        @ itoa (length newAliases) @ '' alias(es) defined.'')))))"

section \<open>An alias cannot leave its directory\<close>

definition clean_dir :: "string \<Rightarrow> bool" where
  "clean_dir d \<longleftrightarrow> Clean d = d \<and> d \<noteq> [] \<and> d \<noteq> slash \<and> d \<noteq> ''.''"

lemma JoinPath_clean_dir: "clean_dir d \<Longrightarrow> plain_elem e \<Longrightarrow> JoinPath [d, e] = d @ slash @ e"
  by (rule JoinPath_plain) (simp_all add: clean_dir_def)

definition valid_alias :: "string \<Rightarrow> bool" where
  "valid_alias a \<longleftrightarrow> is_ok (validateAliasName a)"

lemma validateAliasName_cases: "validateAliasName a = Ok () \<or> (\<exists>e. validateAliasName a = Err e)"
  by (simp add: validateAliasName_def)

lemma valid_aliasD:
  "valid_alias a \<Longrightarrow> validateAliasName a = Ok () \<and> plain_elem a \<and> \<not> HasPrefix a ''.'' \<and> hd a \<noteq> CHR ''.''"
  by (cases a) (auto simp: valid_alias_def validateAliasName_def plain_elem_def HasPrefix_def ContainsAny_def list_ex_iff
      split: if_splits)

lemma os_Remove_removes:
  "os_Remove p w = (r, w') \<Longrightarrow> map_of (disk w) p = Some (FileE b m) \<Longrightarrow>
     map_of (disk w') p = None \<or> faults w OpRemove p \<noteq> None"
  by (auto simp: os_Remove_def with_fault_def is_dir_entry_def split: option.splits)

text \<open>The body of \<^verbatim>\<open>writeAliasFile\<close> once the temporary file exists.\<close>

lemma write_tmp_rename:
  assumes "finallyIO
          (bindIO (wrapIO ''failed to write alias file: %w'' [] (file_Write tmp ctx)) (\<lambda>_.
           bindIO (wrapIO ''failed to close temp alias file: %w'' [] (file_Close tmp)) (\<lambda>_.
           os_Rename tmp path)))
          (ignoreIO (os_Remove tmp)) (put_file 384 tmp [] w) = (r, w')"
    and "map_of (disk w) tmp = None" and "tmp \<noteq> path"
  shows "(\<forall>q. q \<noteq> tmp \<and> q \<noteq> path \<longrightarrow> map_of (disk w') q = map_of (disk w) q) \<and>
    only_disk w w' \<and>
    (if is_ok r then \<exists>m. map_of (disk w') path = Some (FileE ctx m) \<and> map_of (disk w') tmp = None
     else map_of (disk w') path = map_of (disk w) path) \<and>
    (map_of (disk w') tmp = None \<or> \<not> is_ok r \<and> faults w OpRemove tmp \<noteq> None)"
proof -
  let ?w0 = "put_file 384 tmp [] w" and ?w1 = "put_file 384 tmp ctx w"
  have pf: "map_of (disk (put_file 384 tmp b w)) q = (if q = tmp then Some (FileE b (384 AND NOT (umask w))) else map_of (disk w) q)" for b q
    using assms(2) by (simp add: put_file_def file_perm_def)
  have fr: "put_file 384 tmp b w = w\<lparr>disk := disk (put_file 384 tmp b w)\<rparr>" for b
    by (simp add: put_file_def)
  show ?thesis
  proof (cases "faults w OpWrite tmp = None \<and> faults w OpClose tmp = None")
    case False
    have "\<exists>w2 e b m. (\<forall>q. q \<noteq> tmp \<longrightarrow> map_of (disk w2) q = map_of (disk w) q) \<and> only_disk w w2 \<and>
        r = Err e \<and> w' = snd (os_Remove tmp w2) \<and> map_of (disk w2) tmp = Some (FileE b m)"
    proof (cases "faults w OpWrite tmp")
      case None
      with False obtain e where "faults w OpClose tmp = Some e" by auto
      then show ?thesis
        using assms(1) None pf [of ctx] by (intro exI [of _ ?w1])
          (auto simp: finallyIO_apply bindIO_apply wrapIO_apply file_Write_after_open file_Close_def with_fault_def)
    next
      case (Some e)
      then show ?thesis
        using assms(1) pf [of "[]"] by (intro exI [of _ ?w0])
          (auto simp: finallyIO_apply bindIO_apply wrapIO_apply file_Write_after_open)
    qed
    then obtain w2 e b m where w2: "\<forall>q. q \<noteq> tmp \<longrightarrow> map_of (disk w2) q = map_of (disk w) q" "only_disk w w2"
        "r = Err e" "w' = snd (os_Remove tmp w2)" "map_of (disk w2) tmp = Some (FileE b m)" by blast
    obtain r2 where r2: "os_Remove tmp w2 = (r2, w')" using w2(4) by (metis surjective_pairing)
    note rm = os_Remove_frame [OF r2]
    have "map_of (disk w') tmp = None \<or> faults w OpRemove tmp \<noteq> None"
      using os_Remove_removes [OF r2 w2(5)] only_disk_env [OF w2(2)] by simp
    then show ?thesis using rm w2 assms(3) only_disk_trans [OF w2(2)] by simp
  next
    case True
    obtain r1 w1 where ren: "os_Rename tmp path ?w1 = (r1, w1)" by fastforce
    note rf = os_Rename_frame [OF ren]
    have r: "r = r1" "w' = snd (os_Remove tmp w1)"
      using assms(1) True ren
      by (auto simp: finallyIO_apply bindIO_apply wrapIO_apply file_Write_after_open file_Close_def with_fault_def)
    obtain r2 where r2: "os_Remove tmp w1 = (r2, w')" using r(2) by (metis surjective_pairing)
    note rm = os_Remove_frame [OF r2]
    have "only_disk ?w1 w1" "only_disk w1 w'" using rf rm by auto
    then have "only_disk w w'" using only_disk_trans put_file_frame(6) by metis
    moreover have "map_of (disk w') tmp = None" if "is_ok r"
    proof -
      have "map_of (disk w1) tmp = None" using rf that r(1) assms(3) by simp
      with rm show ?thesis by simp
    qed
    moreover have "map_of (disk w') tmp = None \<or> faults w OpRemove tmp \<noteq> None" if "\<not> is_ok r"
    proof -
      have "w1 = ?w1" using rf that r(1) by simp
      then show ?thesis using os_Remove_removes [OF r2] pf [of ctx tmp] by simp
    qed
    ultimately show ?thesis using rm rf pf [of ctx] r(1) assms(3) by (auto simp: assms(3)[symmetric])
  qed
qed

lemma create_temp_drawn:
  "create_temp n dir pre post w = (Ok p, w') \<Longrightarrow> \<exists>k. p = dir @ slash @ pre @ rnd w k @ post"
proof (induction n arbitrary: w)
  case (Suc n)
  from Suc.prems show ?case
    by (auto simp: Let_def bindIO_Ok_iff split: if_splits dest!: Suc.IH)
qed simp

text \<open>
  C24. An alias file is written atomically and inside its directory only. A name that could leave the
  directory is refused without touching the disk. After a success the alias's own file holds the
  new context and no other entry of the disk, old or new, differs from before. After a failure
  every entry is as it was, the alias's own included; only a file that was not there before can be
  left over, when its removal fails: a temporary file with the prefix \<^verbatim>\<open>.alias-tmp-\<close>, directly in
  the directory. (The directory is given by a clean path, and the names \<^verbatim>\<open>os.CreateTemp\<close> draws have
  no separator.)
\<close>

theorem writeAliasFile_confined:
  assumes "clean_dir dir" and "\<And>k. CHR ''/'' \<notin> set (rnd w k)"
    and "writeAliasFile dir aliasName ctx w = (r, w')"
  shows "if valid_alias aliasName
    then (if is_ok r
       then file_bytes w' (dir @ slash @ aliasName) = Some ctx \<and> CHR ''/'' \<notin> set aliasName \<and>
         (\<forall>q. q \<noteq> dir @ slash @ aliasName \<longrightarrow> map_of (disk w') q = map_of (disk w) q)
       else \<forall>q. map_of (disk w') q = map_of (disk w) q \<or>
         (map_of (disk w) q = None \<and> faults w OpRemove q \<noteq> None \<and>
          (\<exists>n. q = dir @ slash @ ''.alias-tmp-'' @ n \<and> CHR ''/'' \<notin> set n)))
    else w' = w \<and> (\<exists>e. r = Err e)"
proof (cases "valid_alias aliasName")
  case False
  then obtain e where "validateAliasName aliasName = Err e"
    using validateAliasName_cases [of aliasName] by (auto simp: valid_alias_def)
  then show ?thesis using False assms(3) by (auto simp: writeAliasFile_def bindIO_apply intro: sym)
next
  case True
  note v = valid_aliasD [OF True]
  have jp: "JoinPath [dir, aliasName] = dir @ slash @ aliasName"
    using JoinPath_clean_dir [OF assms(1)] v by blast
  obtain c w1 where ct: "os_CreateTemp dir ''.alias-tmp-'' [] w = (c, w1)" by fastforce
  show ?thesis
  proof (cases c)
    case (Ok tmp)
    obtain rn m where tmp: "tmp = dir @ slash @ ''.alias-tmp-'' @ rn" "map_of (disk w) tmp = None"
        "w1 = put_file 384 tmp [] (w\<lparr>rnd_pos := m\<rparr>)"
      using create_temp_Ok [of 10000 dir "''.alias-tmp-''" "[]" w tmp w1] ct Ok by (auto simp: os_CreateTemp_def)
    have rn: "CHR ''/'' \<notin> set rn"
      using create_temp_drawn [of 10000 dir "''.alias-tmp-''" "[]" w tmp w1] ct Ok tmp(1) assms(2)
      by (auto simp: os_CreateTemp_def)
    have ne: "tmp \<noteq> dir @ slash @ aliasName" using tmp(1) v by (cases aliasName) auto
    have "finallyIO
          (bindIO (wrapIO ''failed to write alias file: %w'' [] (file_Write tmp ctx)) (\<lambda>_.
           bindIO (wrapIO ''failed to close temp alias file: %w'' [] (file_Close tmp)) (\<lambda>_.
           os_Rename tmp (dir @ slash @ aliasName))))
          (ignoreIO (os_Remove tmp)) (put_file 384 tmp [] (w\<lparr>rnd_pos := m\<rparr>)) = (r, w')"
      using assms(3) v jp ct Ok tmp(3) by (simp add: writeAliasFile_def bindIO_apply wrapIO_apply)
    note wt = write_tmp_rename [OF this _ ne]
    have other: "map_of (disk w') q = map_of (disk w) q" if "q \<noteq> tmp" "q \<noteq> dir @ slash @ aliasName" for q
      using wt tmp(2) that by simp
    have slashless: "CHR ''/'' \<notin> set aliasName" using v by (simp add: plain_elem_def)
    show ?thesis
    proof (cases "is_ok r")
      case ok: True
      then have "map_of (disk w') q = map_of (disk w) q" if "q \<noteq> dir @ slash @ aliasName" for q
        using other [OF _ that] wt tmp(2) by (cases "q = tmp") simp_all
      then show ?thesis using True ok wt tmp(2) slashless by (auto simp: file_bytes_def)
    next
      case no: False
      have path: "map_of (disk w') (dir @ slash @ aliasName) = map_of (disk w) (dir @ slash @ aliasName)"
        using no wt tmp(2) by simp
      have "map_of (disk w') q = map_of (disk w) q \<or>
         (map_of (disk w) q = None \<and> faults w OpRemove q \<noteq> None \<and>
          (\<exists>n. q = dir @ slash @ ''.alias-tmp-'' @ n \<and> CHR ''/'' \<notin> set n))" for q
      proof (cases "q = tmp")
        case True
        have "map_of (disk w') tmp = None \<or> faults w OpRemove tmp \<noteq> None" using wt tmp(2) no by simp
        then show ?thesis using True tmp(1,2) rn by auto
      next
        case False
        show ?thesis using other [OF False] path by (cases "q = dir @ slash @ aliasName") simp_all
      qed
      then show ?thesis using True no by simp
    qed
  next
    case (Err e)
    then obtain m where "w1 = w\<lparr>rnd_pos := m\<rparr>"
      using create_temp_not_Ok [OF ct [unfolded os_CreateTemp_def]] by auto
    then show ?thesis using assms(3) v ct Err True by (auto simp: writeAliasFile_def bindIO_apply wrapIO_apply)
  next
    case (Panic p)
    then show ?thesis using create_temp_not_Ok [OF ct [unfolded os_CreateTemp_def]] by simp
  qed
qed

text \<open>A name with a separator, a leading dot, or no character at all is refused.\<close>

section \<open>One context per alias\<close>

definition one_context_per_alias :: "alias_state \<Rightarrow> bool" where
  "one_context_per_alias a \<longleftrightarrow> wf_map (al_content a) \<and> distinct (map snd (al_content a))"

lemma distinct_snd_iff:
  "wf_map m \<Longrightarrow> distinct (map snd m) \<longleftrightarrow> (\<forall>k k' v. mget m k = Some v \<and> mget m k' = Some v \<longrightarrow> k = k')"
proof (induction m)
  case (Cons p m)
  obtain k v where p: "p = (k, v)" by (cases p)
  have wf: "wf_map m" "k \<notin> fst ` set m" using Cons.prems p by (auto simp: wf_map_def)
  have v: "x \<in> snd ` set m \<longleftrightarrow> (\<exists>k'. mget m k' = Some x)" for x
    by (force simp: image_iff wf_map_mem [OF wf(1), symmetric])
  have k: "mget m k = None" using wf(2) by (simp add: map_of_eq_None_iff)
  have g: "mget (p # m) x = (if x = k then Some v else mget m x)" for x by (simp add: p)
  show ?case (is "?l \<longleftrightarrow> ?r")
  proof
    assume ?l
    then have "\<And>k'. mget m k' \<noteq> Some v" "\<forall>k k' v. mget m k = Some v \<and> mget m k' = Some v \<longrightarrow> k = k'"
      using p v [of v] Cons.IH [OF wf(1)] by auto
    then show ?r unfolding g by (metis option.inject)
  next
    assume r: ?r
    have "v \<notin> snd ` set m" using r k unfolding g v by (metis option.distinct(1))
    moreover have "\<forall>k k' v. mget m k = Some v \<and> mget m k' = Some v \<longrightarrow> k = k'"
      using r k unfolding g by (metis option.distinct(1))
    ultimately show ?l using p Cons.IH [OF wf(1)] by simp
  qed
qed simp

lemma ContainsAlias_Some:
  "wf_map (al_content a) \<Longrightarrow> ContainsAlias x a = Some ctx \<Longrightarrow> mget (al_content a) ctx = Some x"
  by (auto simp: ContainsAlias_def wf_map_mem [symmetric] dest!: find_Some_in)

lemma ContainsAlias_None:
  "wf_map (al_content a) \<Longrightarrow> ContainsAlias x a = None \<longleftrightarrow> (\<forall>ctx. mget (al_content a) ctx \<noteq> Some x)"
  by (auto simp: ContainsAlias_def find_None_all wf_map_mem [symmetric])

text \<open>
  \<^verbatim>\<open>WriteAlias\<close> keeps an alias on one context: afterwards the alias belongs to the new context
  alone, the context it was taken from is the one reported, every other context keeps its
  alias, and a refused name changes nothing.
\<close>

theorem WriteAlias_moves_alias:
  assumes "one_context_per_alias a" and "WriteAlias aliasName ctx a w = (Ok (r, a'), w')"
  shows "one_context_per_alias a' \<and>
     (if valid_alias aliasName
      then mget (al_content a') ctx = Some aliasName \<and>
        (\<forall>c. c \<noteq> ctx \<longrightarrow> mget (al_content a') c =
            (if mget (al_content a) c = Some aliasName then None else mget (al_content a) c)) \<and>
        (\<forall>old. r = Ok (Some old) \<longrightarrow> mget (al_content a) old = Some aliasName) \<and>
        (r = Ok None \<longrightarrow> (\<forall>c. mget (al_content a) c \<noteq> Some aliasName))
      else a' = a \<and> w' = w)"
proof (cases "valid_alias aliasName")
  case False
  then obtain e where "validateAliasName aliasName = Err e"
    using validateAliasName_cases [of aliasName] by (auto simp: valid_alias_def)
  then show ?thesis using False assms by (auto simp: WriteAlias_def)
next
  case True
  have wf: "wf_map (al_content a)" and d: "distinct (map snd (al_content a))"
    using assms(1) by (auto simp: one_context_per_alias_def)
  let ?m = "case ContainsAlias aliasName a of None \<Rightarrow> al_content a | Some c \<Rightarrow> mdel c (al_content a)"
  have a': "al_content a' = mset ctx aliasName ?m" "r = Ok x \<Longrightarrow> x = ContainsAlias aliasName a" for x
    using assms(2) valid_aliasD [OF True]
    by (auto simp: WriteAlias_def Let_def bindIO_apply al_content_def split: prod.splits res.splits)
  have m: "mget ?m c = (if mget (al_content a) c = Some aliasName then None else mget (al_content a) c)" for c
  proof (cases "ContainsAlias aliasName a")
    case None
    then show ?thesis using ContainsAlias_None [THEN iffD1, OF wf None] by simp
  next
    case (Some old)
    then have "mget (al_content a) c = Some aliasName \<longleftrightarrow> c = old"
      using ContainsAlias_Some [OF wf Some] d distinct_snd_iff [OF wf] by blast
    then show ?thesis using Some ContainsAlias_Some [OF wf Some] by auto
  qed
  have wf': "wf_map (al_content a')" using wf a'(1) by (auto split: option.splits)
  moreover have "distinct (map snd (al_content a'))"
    using d by (simp add: distinct_snd_iff [OF wf] distinct_snd_iff [OF wf']) (auto simp: a'(1) m split: if_splits)
  ultimately have "one_context_per_alias a'" by (simp add: one_context_per_alias_def)
  moreover have "\<forall>old. r = Ok (Some old) \<longrightarrow> mget (al_content a) old = Some aliasName"
    using a'(2) ContainsAlias_Some [OF wf] by auto
  moreover have "r = Ok None \<longrightarrow> (\<forall>c. mget (al_content a) c \<noteq> Some aliasName)"
    using a'(2) [of None] ContainsAlias_None [THEN iffD1, OF wf] by metis
  ultimately show ?thesis using True a'(1) m by simp
qed

section \<open>Loading the directory\<close>

text \<open>The files of the directory that count as aliases, with their contexts.\<close>

definition visible_name :: "string \<Rightarrow> bool" where
  "visible_name n \<longleftrightarrow> n \<noteq> [] \<and> CHR ''/'' \<notin> set n \<and> \<not> HasPrefix n ''.''"

definition alias_file :: "world \<Rightarrow> string \<Rightarrow> string \<Rightarrow> string \<Rightarrow> bool" where
  "alias_file w dir n ctx \<longleftrightarrow> visible_name n \<and> ctx \<noteq> [] \<and>
     map_option TrimSpace (file_bytes w (dir @ slash @ n)) = Some ctx"

lemma visible_plain: "visible_name n \<Longrightarrow> plain_elem n"
  by (auto simp: visible_name_def plain_elem_def HasPrefix_def)

definition alias_pair :: "world \<Rightarrow> string \<Rightarrow> dirent \<Rightarrow> (string \<times> string) option" where
  "alias_pair w dir e =
     (if disdir e \<or> HasPrefix (dname e) ''.'' then None
      else case file_bytes w (JoinPath [dir, dname e]) of
        None \<Rightarrow> None
      | Some bs \<Rightarrow> if TrimSpace bs = [] then None else Some (TrimSpace bs, dname e))"

lemma alias_pair_Some: "alias_pair w dir e = Some (ctx, n) \<Longrightarrow> e = DirEnt n False"
  by (cases e) (auto simp: alias_pair_def split: if_splits option.splits)

lemma load_loop:
  "foldIO (\<lambda>e m.
         if disdir e \<or> HasPrefix (dname e) ''.'' then returnIO m
         else bindIO (wrapIO ''failed to read alias file %q: %w'' [dname e] (os_ReadFile (JoinPath [dir, dname e]))) (\<lambda>data.
           let ctx = TrimSpace data
           in returnIO (if ctx \<noteq> [] then mset ctx (dname e) m else m))) ents m w = (Ok m', w') \<Longrightarrow>
   w' = w \<and> m' = fold (\<lambda>(k, v). mset k v) (List.map_filter (alias_pair w dir) ents) m"
proof (induction ents arbitrary: m)
  case (Cons e ents)
  show ?case
  proof (cases "disdir e \<or> HasPrefix (dname e) ''.''")
    case True
    then have "alias_pair w dir e = None" by (simp add: alias_pair_def)
    then show ?thesis using Cons True by (simp add: bindIO_apply List.map_filter_simps)
  next
    case False
    with Cons.prems obtain bs where bs: "os_ReadFile (JoinPath [dir, dname e]) w = (Ok bs, w)"
      by (auto simp: bindIO_Ok_iff os_ReadFile_Ok)
    then have "file_bytes w (JoinPath [dir, dname e]) = Some bs" by (simp add: os_ReadFile_Ok)
    then show ?thesis using Cons False bs
      by (auto simp: bindIO_apply wrapIO_apply List.map_filter_simps alias_pair_def Let_def split: if_splits)
  qed
qed (simp add: List.map_filter_simps)

text \<open>
  Loading the alias directory maps a context exactly when some alias file holds it, and then
  to one of the files that hold it; the disk is not changed.
\<close>

theorem loadFromDir_spec:
  assumes "wf_map (disk w)" and "clean_dir (al_dir a)" and "loadFromDir a w = (Ok a', w')"
  shows "w' = w \<and> al_dir a' = al_dir a \<and>
     (\<forall>ctx n. mget (al_content a') ctx = Some n \<longrightarrow> alias_file w (al_dir a) n ctx) \<and>
     (\<forall>ctx n. alias_file w (al_dir a) n ctx \<longrightarrow> mget (al_content a') ctx \<noteq> None)"
proof -
  let ?d = "al_dir a"
  obtain ents w1 m where rd: "os_ReadDir ?d w = (Ok ents, w1)" and
    lp: "foldIO (\<lambda>e m.
         if disdir e \<or> HasPrefix (dname e) ''.'' then returnIO m
         else bindIO (wrapIO ''failed to read alias file %q: %w'' [dname e] (os_ReadFile (JoinPath [?d, dname e]))) (\<lambda>data.
           let ctx = TrimSpace data
           in returnIO (if ctx \<noteq> [] then mset ctx (dname e) m else m))) ents [] w1 = (Ok m, w')" and
    a': "a' = a\<lparr>al_map := Some m\<rparr>"
    using assms(3) by (auto simp: loadFromDir_def bindIO_Ok_iff)
  have ents: "w1 = w" "ents = children (disk w) ?d"
    using rd by (auto simp: os_ReadDir_def with_fault_def split: option.splits fentry.splits)
  let ?ps = "List.map_filter (alias_pair w ?d) ents"
  have m: "w' = w" "m = fold (\<lambda>(k, v). mset k v) ?ps []"
    using load_loop [OF lp] ents(1) by auto
  have fl: "(ctx, n) \<in> set ?ps \<longleftrightarrow> alias_file w ?d n ctx" for ctx n
  proof -
    have "(ctx, n) \<in> set ?ps \<longleftrightarrow> (\<exists>e \<in> set ents. alias_pair w ?d e = Some (ctx, n))"
      by (auto simp: List.map_filter_def image_iff)
    also have "\<dots> \<longleftrightarrow> DirEnt n False \<in> set ents \<and> alias_pair w ?d (DirEnt n False) = Some (ctx, n)"
      using alias_pair_Some [of w ?d _ ctx n] by blast
    also have "\<dots> \<longleftrightarrow> alias_file w ?d n ctx"
    proof (cases "visible_name n")
      case True
      then have "JoinPath [?d, n] = ?d @ slash @ n"
        using JoinPath_clean_dir [OF assms(2)] visible_plain by blast
      then show ?thesis using True children_mem [OF assms(1), of "DirEnt n False" ?d] ents(2)
        by (auto simp: alias_file_def alias_pair_def visible_name_def file_bytes_def is_dir_entry_def
            split: option.splits fentry.splits if_splits)
    next
      case False
      then show ?thesis using children_mem [OF assms(1), of "DirEnt n False" ?d] ents(2)
        by (auto simp: alias_file_def alias_pair_def visible_name_def)
    qed
    finally show ?thesis .
  qed
  have get: "mget m ctx = map_of (rev ?ps) ctx" for ctx
    using gomap.get_puts [of "[]" ?ps ctx] m(2) by (simp split: option.splits)
  have "alias_file w ?d n ctx" if "mget m ctx = Some n" for ctx n
    using that fl get map_of_SomeD by fastforce
  moreover have "mget m ctx \<noteq> None" if "alias_file w ?d n ctx" for ctx n
  proof -
    have "(ctx, n) \<in> set (rev ?ps)" using that fl by simp
    from weak_map_of_SomeI [OF this] show ?thesis unfolding get by auto
  qed
  ultimately show ?thesis using m(1) a' by (simp add: al_content_def)
qed

section \<open>A sample state directory\<close>

definition alias_world :: world where
  "alias_world = \<lparr>disk = [(''/s'', DirE 448), (''/s/aliases'', DirE 448), (''/s/aliases/x'', FileE ''ctx-a'' 384)],
     faults = (\<lambda>_ _. None), getenv = (\<lambda>_. []), clock = 0, umask = 18, rnd = (\<lambda>_. ''1''), rnd_pos = 0, out = []\<rparr>"

definition alias_empty :: alias_state where
  "alias_empty = \<lparr>al_dir = ''/s/aliases'', al_map = None\<rparr>"

definition alias_loaded :: alias_state where
  "alias_loaded = \<lparr>al_dir = ''/s/aliases'', al_map = Some [(''ctx-a'', ''x'')]\<rparr>"

text \<open>Two \<^verbatim>\<open>switch alias\<close> runs on one context, and what the next run loads.\<close>

definition realias :: "string \<Rightarrow> string \<Rightarrow> string \<Rightarrow> alias_state io" where
  "realias first second ctx =
     bindIO (WriteAlias first ctx alias_empty) (\<lambda>(r, a).
     bindIO (liftR r) (\<lambda>_.
     bindIO (loadFromDir alias_empty) (\<lambda>a1.
     bindIO (WriteAlias second ctx a1) (\<lambda>(r', a2).
     bindIO (liftR r') (\<lambda>_. loadFromDir alias_empty)))))"

text \<open>
  Giving a context a second alias leaves the file of the first one behind, and the next run reads
  whichever name sorts last: after \<^verbatim>\<open>alias zz\<close> and then \<^verbatim>\<open>alias aa\<close> the context still has the
  alias \<^verbatim>\<open>zz\<close>.
\<close>

theorem realias_keeps_stale_alias:
  "\<exists>a w'. realias ''zz'' ''aa'' ''ctx'' alias_world = (Ok a, w') \<and> mget (al_content a) ''ctx'' = Some ''zz''"
proof -
  have "(case fst (realias ''zz'' ''aa'' ''ctx'' alias_world) of Ok a \<Rightarrow> mget (al_content a) ''ctx'' = Some ''zz'' | _ \<Rightarrow> False)"
    by code_simp
  then show ?thesis by (cases "realias ''zz'' ''aa'' ''ctx'' alias_world") (auto split: res.splits)
qed

lemma writeAliasFile_confined_witness:
  "\<exists>w'. writeAliasFile ''/s/aliases'' ''y'' ''ctx-b'' alias_world = (Ok (), w') \<and>
     file_bytes w' ''/s/aliases/y'' = Some ''ctx-b'' \<and> file_bytes w' ''/s/aliases/x'' = Some ''ctx-a''"
proof -
  have ok: "is_ok (fst (writeAliasFile ''/s/aliases'' ''y'' ''ctx-b'' alias_world))" by code_simp
  then obtain u w' where run: "writeAliasFile ''/s/aliases'' ''y'' ''ctx-b'' alias_world = (Ok u, w')"
    by (cases "writeAliasFile ''/s/aliases'' ''y'' ''ctx-b'' alias_world") (auto simp: is_ok_iff)
  have "clean_dir ''/s/aliases''" "valid_alias ''y''" "map_of (disk alias_world) ''/s/aliases/x'' = Some (FileE ''ctx-a'' 384)"
    by code_simp+
  moreover have "\<And>k. CHR ''/'' \<notin> set (rnd alias_world k)" by (simp add: alias_world_def)
  ultimately show ?thesis
    using writeAliasFile_confined [OF _ _ run] run by (auto simp: file_bytes_def)
qed

lemma WriteAlias_moves_alias_witness:
  "\<exists>r a' w'. WriteAlias ''x'' ''ctx-b'' alias_loaded alias_world = (Ok (r, a'), w') \<and>
     mget (al_content a') ''ctx-b'' = Some ''x'' \<and> mget (al_content a') ''ctx-a'' = None"
proof -
  have ok: "is_ok (fst (WriteAlias ''x'' ''ctx-b'' alias_loaded alias_world))" by code_simp
  then obtain r a' w' where run: "WriteAlias ''x'' ''ctx-b'' alias_loaded alias_world = (Ok (r, a'), w')"
    by (cases "WriteAlias ''x'' ''ctx-b'' alias_loaded alias_world") (auto simp: is_ok_iff)
  have "one_context_per_alias alias_loaded" "valid_alias ''x''" "mget (al_content alias_loaded) ''ctx-a'' = Some ''x''"
    by code_simp+
  then show ?thesis
    using WriteAlias_moves_alias [OF _ run] run by auto
qed

lemma loadFromDir_spec_witness:
  "\<exists>a'. loadFromDir alias_empty alias_world = (Ok a', alias_world) \<and> mget (al_content a') ''ctx-a'' \<noteq> None"
proof -
  have ok: "is_ok (fst (loadFromDir alias_empty alias_world))" by code_simp
  then obtain a' w' where run: "loadFromDir alias_empty alias_world = (Ok a', w')"
    by (cases "loadFromDir alias_empty alias_world") (auto simp: is_ok_iff)
  have "wf_map (disk alias_world)" "clean_dir (al_dir alias_empty)"
    "alias_file alias_world (al_dir alias_empty) ''x'' ''ctx-a''" by code_simp+
  then show ?thesis
    using loadFromDir_spec [OF _ _ run] run by blast
qed

end
