(* ===== verification/KubeLaws.thy ===== *)
theory KubeLaws
  imports Kubeconfig
begin

text \<open>
  What the kubeconfig operations promise on the trees a parser builds: getters read what
  setters wrote, renaming and deleting a context change exactly that context, and a
  namespace is stored where it is looked up.
\<close>

section \<open>Well-formed kubeconfigs\<close>

definition wf_root :: "ynode \<Rightarrow> bool" where
  "wf_root n \<longleftrightarrow> wf_node n \<and> Kind n = MappingNode"

definition wf_kc :: "kubeconfig \<Rightarrow> bool" where
  "wf_kc k \<longleftrightarrow> wf_root (kc_rootNode k)"

definition node_name :: "ynode \<Rightarrow> string option" where
  "node_name c = map_option Value (field c ''name'')"

text \<open>The entries of a section (\<^verbatim>\<open>contexts\<close>, \<^verbatim>\<open>clusters\<close>, \<^verbatim>\<open>users\<close>) that is a sequence.\<close>

definition entries :: "string \<Rightarrow> kubeconfig \<Rightarrow> ynode list" where
  "entries s k = (case field (kc_rootNode k) s of
     Some n \<Rightarrow> if Kind n = SequenceNode then Content n else [] | None \<Rightarrow> [])"

definition has_section :: "string \<Rightarrow> kubeconfig \<Rightarrow> bool" where
  "has_section s k \<longleftrightarrow> (case field (kc_rootNode k) s of Some n \<Rightarrow> Kind n = SequenceNode | None \<Rightarrow> False)"

lemma has_section_iff: "has_section s k \<longleftrightarrow> (\<exists>n. field (kc_rootNode k) s = Some n \<and> Kind n = SequenceNode)"
  by (simp add: has_section_def split: option.splits)

lemma field_set_field:
  "wf_root n \<Longrightarrow> field (set_field key v n) key' =
     (if key' = key then Some (case field n key of Some x \<Rightarrow> set_Value v x | None \<Rightarrow> str_node v)
      else field n key')"
  by (auto simp: set_field_def wf_root_def kube_simps split: option.splits)

lemma wf_set_field: "wf_root n \<Longrightarrow> wf_root (set_field key v n)"
  by (cases "field n key")
    (auto simp: set_field_def wf_root_def wf_append_pair dest: wf_field intro!: wf_update_at)

text \<open>The top-level scalar fields are a store in the sense of \<^theory_text>\<open>keyed_store\<close>.\<close>

definition get_field :: "ynode \<Rightarrow> string \<Rightarrow> string option" where
  "get_field n key = map_option Value (field n key)"

interpretation top_fields: keyed_store get_field set_field wf_root
  by unfold_locales (auto simp: get_field_def field_set_field wf_set_field split: option.splits)

lemma modify_field_wf:
  "wf_kc k \<Longrightarrow> modify_field key v k = Ok (k\<lparr>kc_rootNode := set_field key v (kc_rootNode k)\<rparr>)"
  by (auto simp: modify_field_def wf_kc_def wf_root_def valueOf_wf set_field_def split: option.splits)

lemma top_value_wf:
  "wf_kc k \<Longrightarrow> top_value key k = Ok (case get_field (kc_rootNode k) key of None \<Rightarrow> [] | Some v \<Rightarrow> v)"
  by (auto simp: top_value_def wf_kc_def wf_root_def valueOf_wf get_field_def split: option.splits)

lemma wf_kc_set_field [simp]: "wf_kc k \<Longrightarrow> wf_kc (k\<lparr>kc_rootNode := set_field key v (kc_rootNode k)\<rparr>)"
  by (simp add: wf_kc_def wf_set_field)

lemma wf_kc_update [simp]: "wf_root n \<Longrightarrow> wf_kc (k\<lparr>kc_rootNode := n\<rparr>)"
  by (simp add: wf_kc_def)

lemma entries_set_field [simp]:
  "wf_kc k \<Longrightarrow> s \<noteq> key \<Longrightarrow> entries s (k\<lparr>kc_rootNode := set_field key v (kc_rootNode k)\<rparr>) = entries s k"
  by (simp add: entries_def wf_kc_def field_set_field)

lemma has_section_set_field [simp]:
  "wf_kc k \<Longrightarrow> s \<noteq> key \<Longrightarrow> has_section s (k\<lparr>kc_rootNode := set_field key v (kc_rootNode k)\<rparr>) = has_section s k"
  by (simp add: has_section_iff wf_kc_def field_set_field)

lemma contextsNode_wf:
  "wf_kc k \<Longrightarrow> contextsNode k = Ok n \<longleftrightarrow> field (kc_rootNode k) ''contexts'' = Some n \<and> Kind n = SequenceNode"
  by (auto simp: contextsNode_def wf_kc_def wf_root_def valueOf_wf split: option.splits if_splits)

lemma contextsNode_entries:
  "wf_kc k \<Longrightarrow> contextsNode k = Ok n \<Longrightarrow> Content n = entries ''contexts'' k \<and> has_section ''contexts'' k"
  by (auto simp: contextsNode_wf entries_def has_section_iff)

lemma has_sectionD: "wf_kc k \<Longrightarrow> has_section ''contexts'' k \<Longrightarrow>
   \<exists>n. contextsNode k = Ok n \<and> Content n = entries ''contexts'' k"
  by (auto simp: contextsNode_wf entries_def has_section_iff)

lemma wf_entries: "wf_kc k \<Longrightarrow> c \<in> set (entries s k) \<Longrightarrow> wf_node c"
proof -
  assume wf: "wf_kc k" and c: "c \<in> set (entries s k)"
  from c obtain n where n: "field (kc_rootNode k) s = Some n" "c \<in> set (Content n)"
    by (cases "field (kc_rootNode k) s") (auto simp: entries_def split: if_splits)
  then have "wf_node n" using wf wf_field by (auto simp: wf_kc_def wf_root_def)
  with n(2) show "wf_node c" by (cases n) (auto simp: list_all_iff)
qed

lemma context_names_wf:
  "list_all wf_node cs \<Longrightarrow> context_names cs = Ok (List.map_filter node_name cs)"
  by (induction cs) (auto simp: valueOf_wf node_name_def List.map_filter_simps split: option.splits)

lemma all_wf_entries: "wf_kc k \<Longrightarrow> list_all wf_node (entries s k)"
  by (simp add: list_all_iff wf_entries)

lemma GetContextNames_wf:
  assumes "wf_kc k" and "has_section ''contexts'' k"
  shows "GetContextNames k = Ok (List.map_filter node_name (entries ''contexts'' k))"
  using has_sectionD [OF assms] by (auto simp: GetContextNames_def context_names_wf all_wf_entries assms)

lemma GetContextNames_Ok:
  "wf_kc k \<Longrightarrow> GetContextNames k = Ok ns \<longleftrightarrow>
     has_section ''contexts'' k \<and> ns = List.map_filter node_name (entries ''contexts'' k)"
  using contextsNode_entries GetContextNames_wf by (auto simp: GetContextNames_def context_names_wf all_wf_entries)

section \<open>Replacing the entries of a section\<close>

definition set_entries :: "string \<Rightarrow> ynode list \<Rightarrow> kubeconfig \<Rightarrow> kubeconfig" where
  "set_entries s cs k = k\<lparr>kc_rootNode := update_at s (set_Content cs) (kc_rootNode k)\<rparr>"

lemma wf_Content: "list_all wf_node cs \<Longrightarrow> Kind n \<noteq> MappingNode \<Longrightarrow> wf_node (set_Content cs n)"
  by (cases n) (simp add: set_Content_def)

lemma field_set_entries:
  "field (kc_rootNode (set_entries s cs k)) s' =
     (if s' = s then map_option (set_Content cs) (field (kc_rootNode k) s) else field (kc_rootNode k) s')"
  by (simp add: set_entries_def field_update_at)

lemma wf_set_entries:
  assumes "wf_kc k" "has_section s k" "list_all wf_node cs"
  shows "wf_kc (set_entries s cs k)"
  using assms by (auto simp: set_entries_def has_section_iff wf_root_def wf_kc_def intro!: wf_update_at wf_Content)

lemma entries_set_entries:
  "entries s' (set_entries s cs k) = (if s' = s \<and> has_section s k then cs else entries s' k)"
  by (auto simp: entries_def field_set_entries has_section_iff split: option.splits)

lemma has_section_set_entries [simp]: "has_section s' (set_entries s cs k) = has_section s' k"
  by (auto simp: has_section_iff field_set_entries)

lemma set_contexts_entries: "set_contexts = set_entries ''contexts''"
  by (simp add: set_contexts_def set_entries_def fun_eq_iff)

lemma get_field_set_entries [simp]:
  "get_field (kc_rootNode (set_entries s cs k)) key = get_field (kc_rootNode k) key"
  by (cases "field (kc_rootNode k) key") (auto simp: get_field_def field_set_entries option.map_comp)

section \<open>The fields kswitch adds\<close>

lemma modify_field_top_value:
  "wf_kc k \<Longrightarrow> modify_field key v k = Ok k' \<Longrightarrow>
     wf_kc k' \<and> kc_path k' = kc_path k \<and> kc_useTmpFile k' = kc_useTmpFile k \<and>
     (\<forall>key'. top_value key' k' = (if key' = key then Ok v else top_value key' k)) \<and>
     (\<forall>s. s \<noteq> key \<longrightarrow> entries s k' = entries s k \<and> has_section s k' = has_section s k)"
  by (auto simp: modify_field_wf top_value_wf top_fields.get_put wf_kc_def wf_set_field entries_def
      has_section_iff field_set_field)

text \<open>
  After \<^verbatim>\<open>SetGardenerStoreMetaInformation\<close> each of the four getters returns what was
  stored, whatever the file held before; the current context, the kswitch context and every
  section are untouched, and the call cannot fail.
\<close>

theorem gardener_meta_roundtrip:
  assumes "wf_kc k"
  shows "\<exists>k'. SetGardenerStoreMetaInformation landscape ctype project name k = Ok k' \<and> wf_kc k' \<and>
     IsGardenerKubeconfig k' = Ok True \<and>
     GetGardenerLandscapeIdentity k' = Ok landscape \<and> GetGardenerClusterType k' = Ok ctype \<and>
     GetGardenerProject k' = Ok project \<and> GetGardenerClusterName k' = Ok name \<and>
     GetCurrentContext k' = GetCurrentContext k \<and> GetKswitchContext k' = GetKswitchContext k \<and>
     GetContextNames k' = GetContextNames k"
proof -
  let ?ps = "[(''gardener-landscape-identity'', landscape), (''gardener-cluster-type'', ctype),
    (''gardener-project'', project), (''gardener-cluster-name'', name)]"
  let ?root = "fold (\<lambda>(key, v). set_field key v) ?ps (kc_rootNode k)"
  let ?k' = "k\<lparr>kc_rootNode := ?root\<rparr>"
  have wf: "wf_root (kc_rootNode k)" using assms by (simp add: wf_kc_def)
  have wf': "wf_kc ?k'" using top_fields.puts_invar [OF wf, of ?ps] by (simp add: wf_kc_def)
  have run: "SetGardenerStoreMetaInformation landscape ctype project name k = Ok ?k'"
    using assms by (simp add: SetGardenerStoreMetaInformation_def ModifyGardenerLandscapeIdentity_def
      ModifyGardenerClusterType_def ModifyGardenerProject_def ModifyGardenerClusterName_def
      modify_field_wf wf_kc_def wf_set_field)
  have get: "get_field ?root key = (case map_of (rev ?ps) key of Some v \<Rightarrow> Some v | None \<Rightarrow> get_field (kc_rootNode k) key)" for key
    using top_fields.get_puts [OF wf, of ?ps key] by simp
  have fields: "field ?root s = field (kc_rootNode k) s" if "s \<notin> fst ` set ?ps" for s
    using that wf by (simp add: field_set_field wf_set_field)
  have ctxs: "GetContextNames ?k' = GetContextNames k"
    using assms wf' fields [of "''contexts''"]
    by (simp add: GetContextNames_def contextsNode_def wf_kc_def wf_root_def valueOf_wf)
  have "field ?root ''gardener-landscape-identity'' \<noteq> None"
    using get [of "''gardener-landscape-identity''"] by (auto simp: get_field_def)
  then have "IsGardenerKubeconfig ?k' = Ok True"
    using wf' by (simp add: IsGardenerKubeconfig_def wf_kc_def wf_root_def valueOf_wf)
  then show ?thesis
    using run wf' ctxs get assms
    by (auto simp: GetGardenerLandscapeIdentity_def GetGardenerClusterType_def GetGardenerProject_def
        GetGardenerClusterName_def GetCurrentContext_def GetKswitchContext_def top_value_wf)
qed

section \<open>Kubeconfigs whose contexts have names\<close>

text \<open>
  The usual file: each entry of \<^verbatim>\<open>contexts\<close> has a scalar name. (Other trees are parsed too;
  what the code does with them is shown further down.)
\<close>

definition scalar_named :: "ynode \<Rightarrow> bool" where
  "scalar_named c \<longleftrightarrow> wf_node c \<and> (case field c ''name'' of Some n \<Rightarrow> Kind n = ScalarNode | None \<Rightarrow> False)"

definition name_of :: "ynode \<Rightarrow> string" where
  "name_of c = Value (the (field c ''name''))"

definition named :: "kubeconfig \<Rightarrow> bool" where
  "named k \<longleftrightarrow> wf_kc k \<and> has_section ''contexts'' k \<and> list_all scalar_named (entries ''contexts'' k)"

definition ctx_names :: "kubeconfig \<Rightarrow> string list" where
  "ctx_names k = map name_of (entries ''contexts'' k)"

lemma scalar_namedD:
  "scalar_named c \<Longrightarrow> \<exists>n. valueOf c ''name'' = Ok (Some n) \<and> field c ''name'' = Some n \<and> Kind n = ScalarNode \<and>
     Value n = name_of c \<and> node_name c = Some (name_of c)"
  by (auto simp: scalar_named_def name_of_def valueOf_wf node_name_def split: option.splits)

lemma named_names: "named k \<Longrightarrow> GetContextNames k = Ok (ctx_names k)"
proof -
  assume n: "named k"
  have "List.map_filter node_name cs = map name_of cs" if "list_all scalar_named cs" for cs
    using that by (induction cs) (auto simp: List.map_filter_simps dest!: scalar_namedD)
  then show ?thesis using n by (simp add: named_def GetContextNames_wf ctx_names_def)
qed

lemma find_context_named:
  "list_all scalar_named cs \<Longrightarrow> find_context cs name i =
     (case find_idx name (map name_of cs) of
        None \<Rightarrow> Err (Errorf ''context with name \"%s\" not found'' [name])
      | Some j \<Rightarrow> Ok (i + j, cs ! j))"
proof (induction cs arbitrary: i)
  case (Cons c cs)
  then show ?case by (auto dest!: scalar_namedD split: option.splits)
qed simp

lemma contextNode_named:
  "named k \<Longrightarrow> contextNode k name =
     (case find_idx name (ctx_names k) of
        None \<Rightarrow> Err (Errorf ''context with name \"%s\" not found'' [name])
      | Some j \<Rightarrow> Ok (j, entries ''contexts'' k ! j))"
  using has_sectionD [of k]
  by (auto simp: named_def contextNode_def find_context_named ctx_names_def split: option.splits)

lemma named_set_field: "named k \<Longrightarrow> key \<noteq> ''contexts'' \<Longrightarrow>
    named (k\<lparr>kc_rootNode := set_field key v (kc_rootNode k)\<rparr>) \<and>
    ctx_names (k\<lparr>kc_rootNode := set_field key v (kc_rootNode k)\<rparr>) = ctx_names k"
  by (simp add: named_def ctx_names_def)

lemma named_set_entries:
  "named k \<Longrightarrow> list_all scalar_named cs \<Longrightarrow>
     named (set_entries ''contexts'' cs k) \<and> ctx_names (set_entries ''contexts'' cs k) = map name_of cs"
  by (simp add: named_def ctx_names_def entries_set_entries wf_set_entries list_all_iff scalar_named_def)

lemma list_all_list_update: "list_all P xs \<Longrightarrow> P x \<Longrightarrow> list_all P (xs[i := x])"
  by (auto simp: list_all_iff dest!: set_update_subset_insert [THEN subsetD])

section \<open>Renaming a context\<close>

lemma scalar_named_rename:
  "scalar_named c \<Longrightarrow> scalar_named (update_at ''name'' (set_Value new) c) \<and>
     name_of (update_at ''name'' (set_Value new) c) = new"
proof -
  assume c: "scalar_named c"
  then obtain n where n: "field c ''name'' = Some n" "Kind n = ScalarNode" "wf_node c"
    by (auto simp: scalar_named_def split: option.splits)
  then have "Kind c = MappingNode" by (auto simp: field_def split: if_splits)
  then have "wf_node (update_at ''name'' (set_Value new) c)"
    using n by (auto intro!: wf_update_at dest: wf_field)
  with n show ?thesis by (simp add: scalar_named_def name_of_def field_update_at)
qed

lemma rename_context_named:
  "list_all scalar_named cs \<Longrightarrow>
     (old \<in> set (map name_of cs) \<longrightarrow> (\<exists>cs' av'. rename_context old new cs av = Ok (Some cs', av') \<and>
        list_all scalar_named cs' \<and> map name_of cs' = replace_first old new (map name_of cs))) \<and>
     (old \<notin> set (map name_of cs) \<longrightarrow> rename_context old new cs av = Ok (None, av @ map name_of cs))"
proof (induction cs arbitrary: av)
  case (Cons c cs)
  then obtain n where n: "valueOf c ''name'' = Ok (Some n)" "Kind n = ScalarNode" "Value n = name_of c"
    by (auto dest: scalar_namedD)
  show ?case
  proof (cases "name_of c = old")
    case True
    with n Cons.prems show ?thesis by (simp add: scalar_named_rename)
  next
    case False
    with n Cons.prems Cons.IH [of "av @ [name_of c]"] show ?thesis by auto
  qed
qed simp

text \<open>
  C14. Switching to an alias renames the first context of the original name (its store prefix
  stripped) to the alias and makes the alias the current context, so that the current context
  always names a context of the file; it succeeds exactly when that context exists, and then
  changes no other name.
\<close>

theorem SetContext_alias:
  assumes "named k" and "original \<noteq> []"
    and "stripped = (if pre \<noteq> [] \<and> HasPrefix original pre then TrimPrefix original (pre @ ''/'') else original)"
  shows "if stripped \<in> set (ctx_names k)
    then (\<exists>k'. SetContext cur original pre k = Ok k' \<and> named k' \<and> GetCurrentContext k' = Ok cur \<and>
            GetContextNames k' = Ok (replace_first stripped cur (ctx_names k)) \<and>
            cur \<in> set (ctx_names k'))
    else (\<exists>e. SetContext cur original pre k = Err e)"
proof -
  obtain contexts where c: "contextsNode k = Ok contexts" "Content contexts = entries ''contexts'' k"
    using assms(1) has_sectionD by (auto simp: named_def)
  have r: "ModifyContextName stripped cur k =
      bindR (rename_context stripped cur (entries ''contexts'' k) []) (\<lambda>(changed, available).
       case changed of
         None \<Rightarrow> Err (Errorf ''context with name %q not found (available: %v)'' (stripped # available))
       | Some cs \<Rightarrow> Ok (set_entries ''contexts'' cs k))"
    using c unfolding ModifyContextName_def set_contexts_entries by simp
  have s: "SetContext cur original pre k =
     bindR (wrapR ''failed to set currentContext on selected kubeconfig: %w'' [] (ModifyContextName stripped cur k))
       (\<lambda>k'. wrapR ''failed to set current context on selected kubeconfig: %w'' [] (ModifyCurrentContext cur k'))"
    using assms(2,3) by (simp add: SetContext_def Let_def)
  have sn: "list_all scalar_named (entries ''contexts'' k)" using assms(1) by (simp add: named_def)
  note rn = rename_context_named [OF sn, of stripped cur "[]"]
  show ?thesis
  proof (cases "stripped \<in> set (ctx_names k)")
    case True
    then obtain cs' av where cs': "rename_context stripped cur (entries ''contexts'' k) [] = Ok (Some cs', av)"
      "list_all scalar_named cs'" "map name_of cs' = replace_first stripped cur (ctx_names k)"
      using rn by (auto simp: ctx_names_def)
    let ?k1 = "set_entries ''contexts'' cs' k"
    let ?k2 = "?k1\<lparr>kc_rootNode := set_field ''current-context'' cur (kc_rootNode ?k1)\<rparr>"
    have k1: "named ?k1" "ctx_names ?k1 = map name_of cs'"
      using named_set_entries [OF assms(1) cs'(2)] by auto
    have k2: "named ?k2" "ctx_names ?k2 = map name_of cs'" using named_set_field [OF k1(1)] k1(2) by auto
    have "SetContext cur original pre k = Ok ?k2"
      using k1(1) cs'(1) by (simp add: s r ModifyCurrentContext_def modify_field_wf named_def)
    moreover have "GetCurrentContext ?k2 = Ok cur"
      using k1(1) k2(1) by (simp add: GetCurrentContext_def top_value_wf named_def top_fields.get_put wf_kc_def)
    ultimately show ?thesis
      using True k2 cs'(3) by (auto simp: named_names set_replace_first)
  next
    case False
    then show ?thesis using rn by (simp add: s r ctx_names_def)
  qed
qed

section \<open>The namespace of a context\<close>

definition body_ok :: "ynode \<Rightarrow> bool" where
  "body_ok c \<longleftrightarrow> (case field c ''context'' of Some b \<Rightarrow> Kind b = MappingNode | None \<Rightarrow> True)"

definition node_ns :: "ynode \<Rightarrow> string" where
  "node_ns c = (case field c ''context'' of None \<Rightarrow> ''default''
     | Some b \<Rightarrow> (case field b ''namespace'' of None \<Rightarrow> ''default''
        | Some x \<Rightarrow> if Value x = [] then ''default'' else Value x))"

lemma field_Some_Mapping: "field c key = Some n \<Longrightarrow> Kind c = MappingNode"
  by (simp add: field_def split: if_splits)

lemma NamespaceOfContext_named:
  assumes "named k"
  shows "NamespaceOfContext name k =
     (case find_idx name (ctx_names k) of
        None \<Rightarrow> Err (Errorf ''context with name \"%s\" not found'' [name])
      | Some j \<Rightarrow> Ok (node_ns (entries ''contexts'' k ! j)))"
proof (cases "find_idx name (ctx_names k)")
  case None
  then show ?thesis using assms by (simp add: NamespaceOfContext_def contextNode_named)
next
  case (Some j)
  let ?c = "entries ''contexts'' k ! j"
  have "j < length (entries ''contexts'' k)" using Some find_idx_less by (force simp: ctx_names_def)
  then have wf: "wf_node ?c" using assms wf_entries [OF _ nth_mem] by (simp add: named_def)
  have "valueOf ?c ''context'' = Ok (field ?c ''context'')"
    "\<And>b. field ?c ''context'' = Some b \<Longrightarrow> valueOf b ''namespace'' = Ok (field b ''namespace'')"
    using wf by (simp_all add: valueOf_wf wf_field)
  then show ?thesis
    using Some assms
    by (cases "field ?c ''context''")
      (simp_all add: NamespaceOfContext_def contextNode_named node_ns_def)
qed

lemma set_field_namespace:
  assumes "wf_node b" "Kind b = MappingNode"
  shows "wf_node (set_field ''namespace'' ns b)" "Kind (set_field ''namespace'' ns b) = MappingNode"
    "get_field (set_field ''namespace'' ns b) ''namespace'' = Some ns"
  using wf_set_field [of b "''namespace''" ns] top_fields.get_put_same [of b "''namespace''" ns] assms
  by (auto simp: wf_root_def)

text \<open>What \<^verbatim>\<open>SetNamespace\<close> puts in the place of the context's node.\<close>

definition ns_node :: "string \<Rightarrow> ynode \<Rightarrow> ynode" where
  "ns_node ns c = (case field c ''context'' of
     None \<Rightarrow> append_pair ''context'' (set_field ''namespace'' ns empty_body) c
   | Some b \<Rightarrow> update_at ''context'' (\<lambda>_. set_field ''namespace'' ns b) c)"

lemma wf_empty_body [simp]: "wf_node empty_body" "Kind empty_body = MappingNode"
  by (simp_all add: empty_body_def)

lemma ns_node_field:
  assumes "scalar_named c" "body_ok c"
  shows "scalar_named (ns_node ns c) \<and> name_of (ns_node ns c) = name_of c \<and>
     node_ns (ns_node ns c) = (if ns = [] then ''default'' else ns)"
proof -
  obtain n where c: "wf_node c" "field c ''name'' = Some n" "Kind n = ScalarNode" "Kind c = MappingNode"
    using assms(1) field_Some_Mapping by (auto simp: scalar_named_def split: option.splits)
  show ?thesis
  proof (cases "field c ''context''")
    case None
    note b = set_field_namespace [OF wf_empty_body, of ns]
    have wf: "wf_node (ns_node ns c)" using None c b by (simp add: ns_node_def wf_append_pair)
    have f: "field (ns_node ns c) ''context'' = Some (set_field ''namespace'' ns empty_body)"
      "field (ns_node ns c) ''name'' = Some n"
      using None c by (simp_all add: ns_node_def field_append_pair)
    show ?thesis
      using wf f b(3) c by (auto simp: scalar_named_def name_of_def node_ns_def get_field_def split: option.splits)
  next
    case (Some x)
    then have x: "wf_node x" "Kind x = MappingNode" using c assms(2) wf_field by (auto simp: body_ok_def)
    note b = set_field_namespace [OF x, of ns]
    have wf: "wf_node (ns_node ns c)" using Some c b by (auto simp: ns_node_def intro!: wf_update_at)
    have f: "field (ns_node ns c) ''context'' = Some (set_field ''namespace'' ns x)"
      "field (ns_node ns c) ''name'' = Some n"
      using Some c by (simp_all add: ns_node_def field_update_at)
    show ?thesis
      using wf f b(3) c by (auto simp: scalar_named_def name_of_def node_ns_def get_field_def split: option.splits)
  qed
qed

lemma SetNamespace_named:
  assumes "named k" "find_idx name (ctx_names k) = Some j"
  shows "SetNamespace name ns k =
     Ok (set_entries ''contexts'' ((entries ''contexts'' k)[j := ns_node ns (entries ''contexts'' k ! j)]) k)"
proof -
  let ?c = "entries ''contexts'' k ! j"
  obtain contexts where c: "contextsNode k = Ok contexts" "Content contexts = entries ''contexts'' k"
    using assms(1) has_sectionD by (auto simp: named_def)
  have "j < length (entries ''contexts'' k)" using assms(2) find_idx_less by (force simp: ctx_names_def)
  then have wf: "wf_node ?c" using assms wf_entries [OF _ nth_mem] by (simp add: named_def)
  show ?thesis
  proof (cases "field ?c ''context''")
    case None
    then show ?thesis
      using assms c wf by (auto simp: SetNamespace_def contextNode_named valueOf_wf set_contexts_entries ns_node_def set_field_def split: option.splits)
  next
    case (Some x)
    then have "wf_node x" using wf wf_field by auto
    then show ?thesis
      using Some assms c wf by (auto simp: SetNamespace_def contextNode_named valueOf_wf set_contexts_entries ns_node_def set_field_def split: option.splits)
  qed
qed

text \<open>
  \<^verbatim>\<open>SetNamespace\<close> on a context whose body is a mapping or missing stores the namespace where
  \<^verbatim>\<open>NamespaceOfContext\<close> finds it (an empty one reads as \<^verbatim>\<open>default\<close>), and changes neither the
  names, nor the current context, nor the namespace of any other context.
\<close>

theorem SetNamespace_roundtrip:
  assumes "named k" and "contextNode k ctx = Ok (i, c)" and "body_ok c"
  shows "\<exists>k'. SetNamespace ctx ns k = Ok k' \<and> named k' \<and>
     NamespaceOfContext ctx k' = Ok (if ns = [] then ''default'' else ns) \<and>
     GetContextNames k' = GetContextNames k \<and> GetCurrentContext k' = GetCurrentContext k \<and>
     (\<forall>other. other \<noteq> ctx \<longrightarrow> NamespaceOfContext other k' = NamespaceOfContext other k)"
proof -
  let ?cs = "entries ''contexts'' k"
  have j: "find_idx ctx (ctx_names k) = Some i" "c = ?cs ! i"
    using assms(1,2) by (auto simp: contextNode_named split: option.splits)
  then have i: "i < length ?cs" "name_of c = ctx" using find_idx_SomeD by (force simp: ctx_names_def)+
  let ?cs' = "?cs[i := ns_node ns c]" and ?k' = "set_entries ''contexts'' (?cs[i := ns_node ns c]) k"
  have cn: "list_all scalar_named ?cs" using assms(1) by (simp add: named_def)
  then have c: "scalar_named c" using i j by (simp add: list_all_length)
  note nn = ns_node_field [OF c assms(3), of ns]
  have "list_all scalar_named ?cs'" using cn nn by (simp add: list_all_list_update)
  moreover have names: "map name_of ?cs' = ctx_names k"
    using nn i j by (simp add: ctx_names_def map_update list_update_same_conv)
  ultimately have k': "named ?k'" "ctx_names ?k' = ctx_names k"
    using named_set_entries [OF assms(1)] by auto
  have e: "entries ''contexts'' ?k' = ?cs'" using assms(1) by (simp add: entries_set_entries named_def)
  have "NamespaceOfContext other ?k' = NamespaceOfContext other k" if "other \<noteq> ctx" for other
  proof (cases "find_idx other (ctx_names k)")
    case (Some m)
    then have "m \<noteq> i" using that i(2) j by (auto dest!: find_idx_SomeD simp: ctx_names_def)
    then show ?thesis using Some k' e assms(1) by (simp add: NamespaceOfContext_named)
  qed (use k' assms(1) in \<open>simp add: NamespaceOfContext_named\<close>)
  moreover have "NamespaceOfContext ctx ?k' = Ok (if ns = [] then ''default'' else ns)"
    using k' e j i nn by (simp add: NamespaceOfContext_named)
  moreover have "GetCurrentContext ?k' = GetCurrentContext k"
    using k'(1) assms(1) by (simp add: GetCurrentContext_def top_value_wf named_def)
  moreover have "SetNamespace ctx ns k = Ok ?k'" using SetNamespace_named [OF assms(1) j(1)] j(2) by simp
  ultimately show ?thesis using k' named_names assms(1) by (intro exI [of _ ?k']) simp
qed

section \<open>Deleting a context\<close>

lemma keep_contexts_named:
  "list_all scalar_named cs \<Longrightarrow> keep_contexts name cs = Ok (filter (\<lambda>c. name_of c \<noteq> name) cs)"
  by (induction cs) (auto dest!: scalar_namedD)

definition ctx_ref :: "string \<Rightarrow> ynode \<Rightarrow> string option" where
  "ctx_ref key c = (case field c ''context'' of None \<Rightarrow> None | Some d \<Rightarrow> get_field d key)"

text \<open>The entry \<^verbatim>\<open>c\<close> of a section is named by the field \<^verbatim>\<open>key\<close> of some context.\<close>

definition referenced :: "string \<Rightarrow> kubeconfig \<Rightarrow> ynode \<Rightarrow> bool" where
  "referenced key k c \<longleftrightarrow> node_name c \<noteq> None \<and>
     list_ex (\<lambda>x. ctx_ref key x = node_name c) (entries ''contexts'' k)"

lemma referenced_loop_wf:
  "list_all wf_node cs \<Longrightarrow> referenced_loop key cs = Ok (List.map_filter (ctx_ref key) cs)"
proof (induction cs)
  case (Cons c cs)
  show ?case
  proof (cases "field c ''context''")
    case (Some d)
    then have "wf_node d" using Cons.prems wf_field by auto
    then show ?thesis using Some Cons
      by (auto simp: valueOf_wf ctx_ref_def get_field_def List.map_filter_simps split: option.splits)
  qed (use Cons in \<open>auto simp: valueOf_wf ctx_ref_def List.map_filter_simps\<close>)
qed (simp add: List.map_filter_simps)

lemma keep_referenced_wf:
  "list_all wf_node cs \<Longrightarrow> keep_referenced refs cs =
     Ok (filter (\<lambda>c. case node_name c of None \<Rightarrow> False | Some n \<Rightarrow> n \<in> set refs) cs)"
  by (induction cs) (auto simp: valueOf_wf node_name_def split: option.splits)

lemma remove_orphaned_wf:
  assumes "named k"
  shows "remove_orphaned s key k =
     Ok (if has_section s k then set_entries s (filter (referenced key k) (entries s k)) k else k)"
proof -
  have wf: "wf_kc k" "wf_node (kc_rootNode k)" and h: "has_section ''contexts'' k"
    using assms by (auto simp: named_def wf_kc_def wf_root_def)
  have refs: "referencedContextField key k = Ok (List.map_filter (ctx_ref key) (entries ''contexts'' k))"
    using wf h all_wf_entries [OF wf(1), of "''contexts''"]
    by (auto simp: referencedContextField_def valueOf_wf has_section_iff entries_def referenced_loop_wf)
  have p: "(case node_name c of None \<Rightarrow> False | Some n \<Rightarrow> n \<in> set (List.map_filter (ctx_ref key) cs)) =
      (node_name c \<noteq> None \<and> list_ex (\<lambda>x. ctx_ref key x = node_name c) cs)" for c cs
    by (auto simp: List.map_filter_def list_ex_iff split: option.splits) force
  show ?thesis
    using wf refs all_wf_entries [OF wf(1), of s]
    by (auto simp: remove_orphaned_def valueOf_wf has_section_iff entries_def keep_referenced_wf
        set_entries_def referenced_def [abs_def] p split: option.splits)
qed

lemma named_set_entries_other:
  "named k \<Longrightarrow> s \<noteq> ''contexts'' \<Longrightarrow> has_section s k \<Longrightarrow> list_all wf_node cs \<Longrightarrow>
     named (set_entries s cs k) \<and> ctx_names (set_entries s cs k) = ctx_names k"
  by (simp add: named_def ctx_names_def entries_set_entries wf_set_entries)

lemma remove_orphaned_named:
  assumes "named k" "s \<noteq> ''contexts''"
  shows "\<exists>k'. remove_orphaned s key k = Ok k' \<and> named k' \<and> ctx_names k' = ctx_names k \<and>
     entries ''contexts'' k' = entries ''contexts'' k \<and>
     (\<forall>s'. entries s' k' = (if s' = s then filter (referenced key k) (entries s k) else entries s' k)) \<and>
     (\<forall>key. get_field (kc_rootNode k') key = get_field (kc_rootNode k) key)"
proof (cases "has_section s k")
  case True
  have "list_all wf_node (filter (referenced key k) (entries s k))"
    using assms wf_entries by (auto simp: list_all_iff named_def)
  with True assms named_set_entries_other [OF assms True] show ?thesis
    by (auto simp: remove_orphaned_wf entries_set_entries)
next
  case False
  then have "entries s k = []" by (auto simp: has_section_iff entries_def split: option.splits)
  then show ?thesis using False assms by (auto simp: remove_orphaned_wf)
qed

text \<open>
  C16. \<^verbatim>\<open>RemoveContext\<close> takes out every context of that name and no other, leaves a cluster or
  user entry exactly when a context that remains refers to it, and does not touch the
  current context; it succeeds also when no context has that name.
\<close>

theorem RemoveContext_spec:
  assumes "named k"
  shows "\<exists>k'. RemoveContext name k = Ok k' \<and> named k' \<and>
     ctx_names k' = filter (\<lambda>n. n \<noteq> name) (ctx_names k) \<and>
     entries ''clusters'' k' = filter (referenced ''cluster'' k') (entries ''clusters'' k) \<and>
     entries ''users'' k' = filter (referenced ''user'' k') (entries ''users'' k) \<and>
     GetCurrentContext k' = GetCurrentContext k"
proof -
  let ?cs = "filter (\<lambda>c. name_of c \<noteq> name) (entries ''contexts'' k)"
  let ?k1 = "set_entries ''contexts'' ?cs k"
  have cn: "list_all scalar_named (entries ''contexts'' k)" using assms by (simp add: named_def)
  then have "list_all scalar_named ?cs" by (auto simp: list_all_iff)
  then have k1: "named ?k1" "ctx_names ?k1 = filter (\<lambda>n. n \<noteq> name) (ctx_names k)"
    using named_set_entries [OF assms] by (auto simp: ctx_names_def filter_map o_def)
  have e1: "entries s ?k1 = entries s k" if "s \<noteq> ''contexts''" for s
    using that by (simp add: entries_set_entries)
  obtain k2 where k2: "removeOrphanedClusters ?k1 = Ok k2" "named k2" "ctx_names k2 = ctx_names ?k1"
    "entries ''contexts'' k2 = entries ''contexts'' ?k1"
    "entries ''clusters'' k2 = filter (referenced ''cluster'' ?k1) (entries ''clusters'' ?k1)"
    "entries ''users'' k2 = entries ''users'' ?k1"
    "\<forall>key. get_field (kc_rootNode k2) key = get_field (kc_rootNode ?k1) key"
    using remove_orphaned_named [OF k1(1), of "''clusters''" "''cluster''"] by (auto simp: removeOrphanedClusters_def)
  obtain k3 where k3: "removeOrphanedUsers k2 = Ok k3" "named k3" "ctx_names k3 = ctx_names k2"
    "entries ''contexts'' k3 = entries ''contexts'' k2"
    "entries ''users'' k3 = filter (referenced ''user'' k2) (entries ''users'' k2)"
    "entries ''clusters'' k3 = entries ''clusters'' k2"
    "\<forall>key. get_field (kc_rootNode k3) key = get_field (kc_rootNode k2) key"
    using remove_orphaned_named [OF k2(2), of "''users''" "''user''"] by (auto simp: removeOrphanedUsers_def)
  have "RemoveContext name k = Ok k3"
    using assms k2(1) k3(1) cn
    by (auto simp: RemoveContext_def named_def has_section_iff wf_kc_def wf_root_def valueOf_wf entries_def
        keep_contexts_named set_contexts_entries)
  moreover have "referenced key k3 = referenced key ?k1" "referenced key k2 = referenced key ?k1" for key
    using k2(4) k3(4) by (simp_all add: referenced_def fun_eq_iff)
  moreover have "GetCurrentContext k3 = GetCurrentContext k"
    using k2(7) k3(2,7) assms by (simp add: GetCurrentContext_def top_value_wf named_def)
  ultimately show ?thesis using k1 k2 k3 e1 by (intro exI [of _ k3]) simp
qed

section \<open>Kubeconfigs with a nameless context\<close>

text \<open>
  A context entry without a name: \<^verbatim>\<open>GetContextNames\<close> skips it, but looking up, renaming or
  deleting a context that is not found before it dereferences a nil node.
\<close>

theorem nameless_context_panics:
  assumes "wf_kc k" and "contextsNode k = Ok n" and "Content n = xs @ c # ys"
    and "list_all scalar_named xs" and "ctx \<notin> name_of ` set xs" and "field c ''name'' = None"
  shows "is_ok (GetContextNames k) \<and> is_panic (contextNode k ctx) \<and> is_panic (NamespaceOfContext ctx k) \<and>
     is_panic (SetNamespace ctx ns k) \<and> is_panic (ModifyContextName ctx new k) \<and> is_panic (RemoveContext ctx k)"
proof -
  have n: "field (kc_rootNode k) ''contexts'' = Some n" "Kind n = SequenceNode"
    using assms(1,2) contextsNode_wf by auto
  have e: "entries ''contexts'' k = xs @ c # ys" using n assms(3) by (simp add: entries_def)
  have "wf_node c" using wf_entries [OF assms(1), of c "''contexts''"] e by simp
  then have v: "valueOf c ''name'' = Ok None" using assms(6) valueOf_wf by simp
  have find: "find_context (xs @ c # ys) ctx i = Panic nil_deref" for i
    using assms(4,5) v by (induction xs arbitrary: i) (auto dest!: scalar_namedD)
  have ren: "rename_context ctx new (xs @ c # ys) av = Panic nil_deref" for av
    using assms(4,5) v by (induction xs arbitrary: av) (auto dest!: scalar_namedD)
  have keep: "keep_contexts ctx (xs @ c # ys) = Panic nil_deref"
    using assms(4,5) v by (induction xs) (auto dest!: scalar_namedD)
  have "is_ok (GetContextNames k)"
    using GetContextNames_wf [OF assms(1)] n by (simp add: has_section_iff)
  then show ?thesis
    using assms(1,2,3) n find ren keep
    by (simp add: contextNode_def NamespaceOfContext_def SetNamespace_def ModifyContextName_def RemoveContext_def
        wf_kc_def wf_root_def valueOf_wf)
qed

text \<open>
  A context whose \<^verbatim>\<open>context\<close> is a scalar or null: \<^verbatim>\<open>SetNamespace\<close> reports success, and the
  namespace read back is still \<^verbatim>\<open>default\<close>.
\<close>

theorem SetNamespace_scalar_body_lost:
  assumes "named k" and "contextNode k ctx = Ok (i, c)" and "field c ''context'' = Some b"
    and "Kind b \<noteq> MappingNode"
  shows "\<exists>k'. SetNamespace ctx ns k = Ok k' \<and> NamespaceOfContext ctx k' = Ok ''default''"
proof -
  let ?cs = "entries ''contexts'' k"
  have j: "find_idx ctx (ctx_names k) = Some i" "c = ?cs ! i"
    using assms(1,2) by (auto simp: contextNode_named split: option.splits)
  then have i: "i < length ?cs" "name_of c = ctx" using find_idx_SomeD by (force simp: ctx_names_def)+
  have c: "scalar_named c" "wf_node c" "Kind c = MappingNode"
    using assms(1,3) i(1) j(2) field_Some_Mapping by (auto simp: named_def list_all_length scalar_named_def)
  have b: "set_field ''namespace'' ns b = append_pair ''namespace'' (str_node ns) b" "wf_node b"
    using assms(3,4) c wf_field by (auto simp: set_field_def field_def)
  have f: "field (ns_node ns c) ''context'' = Some (append_pair ''namespace'' (str_node ns) b)"
    "field (ns_node ns c) ''name'' = field c ''name''"
    using assms(3) b by (simp_all add: ns_node_def field_update_at)
  have "scalar_named (ns_node ns c)"
    using c f(2) b assms(3) by (auto simp: scalar_named_def ns_node_def wf_append_pair intro!: wf_update_at)
  moreover have "name_of (ns_node ns c) = name_of c" using f(2) by (simp add: name_of_def)
  moreover have "node_ns (ns_node ns c) = ''default''"
    using f(1) assms(4) by (simp add: node_ns_def field_def)
  moreover have "list_all scalar_named ?cs" using assms(1) by (simp add: named_def)
  ultimately have "list_all scalar_named (?cs[i := ns_node ns c])"
    "map name_of (?cs[i := ns_node ns c]) = ctx_names k" "node_ns (ns_node ns c) = ''default''"
    using i j by (auto simp: list_all_list_update ctx_names_def map_update list_update_same_conv)
  then show ?thesis
    using named_set_entries [OF assms(1)] SetNamespace_named [OF assms(1) j(1)] j i assms(1)
    by (auto simp: NamespaceOfContext_named entries_set_entries named_def [of k])
qed

section \<open>A sample file\<close>

definition map_node :: "(string \<times> ynode) list \<Rightarrow> ynode" where
  "map_node ps = YNode MappingNode ''!!map'' [] (concat (map (\<lambda>(k, v). [str_node k, v]) ps))"

definition seq_node :: "ynode list \<Rightarrow> ynode" where
  "seq_node xs = YNode SequenceNode ''!!seq'' [] xs"

definition context_entry :: "string \<Rightarrow> string \<Rightarrow> string \<Rightarrow> ynode" where
  "context_entry name cluster user = map_node [(''name'', str_node name),
     (''context'', map_node [(''cluster'', str_node cluster), (''user'', str_node user)])]"

definition sample_kc :: kubeconfig where
  "sample_kc = \<lparr>kc_path = ''/home/u/.kube/config'', kc_useTmpFile = False,
     kc_rootNode = map_node
       [(''current-context'', str_node ''dev''),
        (''contexts'', seq_node [context_entry ''dev'' ''c1'' ''u1'', context_entry ''prod'' ''c2'' ''u1'']),
        (''clusters'', seq_node [map_node [(''name'', str_node ''c1'')], map_node [(''name'', str_node ''c2'')]]),
        (''users'', seq_node [map_node [(''name'', str_node ''u1'')], map_node [(''name'', str_node ''u2'')]])]\<rparr>"

text \<open>The same file with a context entry that has no name, and one whose body is null.\<close>

definition sample_nameless :: kubeconfig where
  "sample_nameless = set_entries ''contexts''
     [context_entry ''dev'' ''c1'' ''u1'', map_node [(''context'', map_node [])]] sample_kc"

definition sample_null_body :: kubeconfig where
  "sample_null_body = set_entries ''contexts''
     [map_node [(''name'', str_node ''dev''), (''context'', YNode ScalarNode ''!!null'' [] [])]] sample_kc"

lemma sample_named: "named sample_kc" "named sample_null_body" "wf_kc sample_nameless"
  by code_simp+

lemma sample_wf: "wf_kc sample_kc"
  using sample_named by (simp add: named_def)

lemma sample_names: "ctx_names sample_kc = [''dev'', ''prod'']"
  by code_simp

lemma gardener_meta_roundtrip_witness:
  "\<exists>k'. SetGardenerStoreMetaInformation ''dev-landscape'' ''Shoot'' ''garden-a'' ''s1'' sample_kc = Ok k' \<and>
     GetGardenerProject k' = Ok ''garden-a'' \<and> GetCurrentContext k' = GetCurrentContext sample_kc"
  using gardener_meta_roundtrip [OF sample_wf, of "''dev-landscape''" "''Shoot''" "''garden-a''" "''s1''"] by blast

lemma SetContext_alias_witness:
  "\<exists>k'. SetContext ''my-alias'' ''store/prod'' ''store'' sample_kc = Ok k' \<and>
     GetCurrentContext k' = Ok ''my-alias'' \<and> GetContextNames k' = Ok [''dev'', ''my-alias'']"
proof -
  have s: "''prod'' = (if ''store'' \<noteq> [] \<and> HasPrefix ''store/prod'' ''store''
     then TrimPrefix ''store/prod'' (''store'' @ ''/'') else ''store/prod'')" by code_simp
  show ?thesis
    using SetContext_alias [OF sample_named(1) _ s, of "''my-alias''"] by (auto simp: sample_names)
qed

lemma SetNamespace_roundtrip_witness:
  "\<exists>k'. SetNamespace ''prod'' ''kube-system'' sample_kc = Ok k' \<and>
     NamespaceOfContext ''prod'' k' = Ok ''kube-system'' \<and>
     NamespaceOfContext ''dev'' k' = NamespaceOfContext ''dev'' sample_kc"
proof -
  have c: "contextNode sample_kc ''prod'' = Ok (1, context_entry ''prod'' ''c2'' ''u1'')"
    and b: "body_ok (context_entry ''prod'' ''c2'' ''u1'')" by code_simp+
  show ?thesis using SetNamespace_roundtrip [OF sample_named(1) c b, of "''kube-system''"] by fastforce
qed

lemma RemoveContext_spec_witness:
  "\<exists>k'. RemoveContext ''prod'' sample_kc = Ok k' \<and> ctx_names k' = [''dev'']"
  using RemoveContext_spec [OF sample_named(1), of "''prod''"] by (auto simp: sample_names)

lemma nameless_context_panics_witness:
  "is_panic (RemoveContext ''prod'' sample_nameless) \<and> is_panic (SetNamespace ''prod'' ''ns'' sample_nameless)"
proof -
  let ?n = "seq_node [context_entry ''dev'' ''c1'' ''u1'', map_node [(''context'', map_node [])]]"
  have "contextsNode sample_nameless = Ok ?n"
    "Content ?n = [context_entry ''dev'' ''c1'' ''u1''] @ map_node [(''context'', map_node [])] # []"
    "list_all scalar_named [context_entry ''dev'' ''c1'' ''u1'']"
    "''prod'' \<notin> name_of ` set [context_entry ''dev'' ''c1'' ''u1'']"
    "field (map_node [(''context'', map_node [])]) ''name'' = None" by code_simp+
  then show ?thesis
    using nameless_context_panics [OF sample_named(3), of ?n _ _ _ "''prod''" "''ns''" "''x''"] by blast
qed

lemma SetNamespace_scalar_body_lost_witness:
  "\<exists>k'. SetNamespace ''dev'' ''kube-system'' sample_null_body = Ok k' \<and> NamespaceOfContext ''dev'' k' = Ok ''default''"
proof -
  let ?c = "map_node [(''name'', str_node ''dev''), (''context'', YNode ScalarNode ''!!null'' [] [])]"
  have "contextNode sample_null_body ''dev'' = Ok (0, ?c)"
    "field ?c ''context'' = Some (YNode ScalarNode ''!!null'' [] [])"
    "Kind (YNode ScalarNode ''!!null'' [] []) \<noteq> MappingNode" by code_simp+
  then show ?thesis
    using SetNamespace_scalar_body_lost [OF sample_named(2), of "''dev''" 0 ?c _ "''kube-system''"] by blast
qed

end
