(* ===== verification/KubeFiles.thy ===== *)
theory KubeFiles
  imports KubeLaws
begin

text \<open>
  Writing a kubeconfig and reading it back: \<^verbatim>\<open>WriteKubeconfigFile\<close> against
  \<^verbatim>\<open>NewKubeconfigForPath\<close> on the same world.
\<close>

lemma fresh_not_file: "map_of (disk w) p = None \<Longrightarrow> file_bytes w p = None"
  by (simp add: file_bytes_def)

lemma write_opened:
  assumes "bindIO (liftR r) (\<lambda>bs. bindIO (file_Write name bs) (\<lambda>_. returnIO name)) (put_file mode name [] w) = (Ok name', w')"
  shows "name' = name \<and> (\<exists>bs. r = Ok bs \<and> w' = put_file mode name bs w)"
  using assms by (auto simp: bindIO_Ok_iff disk_simps split: option.splits)

lemma WriteKubeconfigFile_Ok:
  assumes "WriteKubeconfigFile enc k w = (Ok name, w')"
  shows "\<exists>bs w1. enc (kc_rootNode k) = Ok bs \<and> w' = put_file 384 name bs w1 \<and> faults w1 = faults w \<and> getenv w1 = getenv w \<and>
     file_bytes w1 = file_bytes w \<and>
     (if kc_useTmpFile k then file_bytes w name = None \<and> (\<exists>r. name = kc_path k @ ''/config.'' @ r @ ''.tmp'')
      else name = kc_path k)"
proof (cases "kc_useTmpFile k")
  case True
  then obtain w1 w2 name1 u where
    m: "tryIO (os_Mkdir (kc_path k) 448) returnIO (\<lambda>e. if \<not> IsExist e then failIO e else returnIO ()) w = (Ok u, w1)"
    and c: "os_CreateTemp (kc_path k) ''config.'' ''.tmp'' w1 = (Ok name1, w2)"
    and wr: "bindIO (liftR (enc (kc_rootNode k))) (\<lambda>bs. bindIO (file_Write name1 bs) (\<lambda>_. returnIO name1)) w2 = (Ok name, w')"
    using assms by (auto simp: WriteKubeconfigFile_def bindIO_Ok_iff)
  from create_temp_Ok [OF c [unfolded os_CreateTemp_def]] obtain r i where
    r: "name1 = kc_path k @ slash @ ''config.'' @ r @ ''.tmp''" "map_of (disk w1) name1 = None"
      "w2 = put_file 384 name1 [] (w1\<lparr>rnd_pos := i\<rparr>)" by blast
  from write_opened [OF wr [unfolded r(3)]] obtain bs where
    "name = name1" "enc (kc_rootNode k) = Ok bs" "w' = put_file 384 name1 bs (w1\<lparr>rnd_pos := i\<rparr>)" by blast
  moreover have "file_bytes w1 = file_bytes w" "faults w1 = faults w" "getenv w1 = getenv w"
    using Mkdir_or_exists_frame [OF m] by auto
  moreover have "file_bytes w1 name1 = None" by (rule fresh_not_file [OF r(2)])
  ultimately show ?thesis
    using True r(1) by (intro exI [of _ bs] exI [of _ "w1\<lparr>rnd_pos := i\<rparr>"]) auto
next
  case False
  let ?open = "os_open_write True 384 (kc_path k) :: unit io"
  from assms False have "creatable w (kc_path k)"
    by (cases "creatable w (kc_path k)") (simp_all add: WriteKubeconfigFile_def bindIO_def wrapIO_def tryIO_def disk_simps)
  then have "bindIO (liftR (enc (kc_rootNode k))) (\<lambda>bs. bindIO (file_Write (kc_path k) bs) (\<lambda>_. returnIO (kc_path k)))
      (put_file 384 (kc_path k) [] w) = (Ok name, w')"
    using assms False by (simp add: WriteKubeconfigFile_def bindIO_def wrapIO_def tryIO_def disk_simps)
  from write_opened [OF this] False show ?thesis by (auto intro!: exI [of _ w])
qed

text \<open>
  What \<^verbatim>\<open>WriteKubeconfigFile\<close> reports as written can be loaded again from the path it
  returns and is the same tree, given that the YAML library parses what it encodes; every
  other file keeps its bytes, and a temporary file never overwrites an existing one.
\<close>

theorem write_load_roundtrip:
  assumes "WriteKubeconfigFile enc k w = (Ok name, w')" and "Kind (kc_rootNode k) = MappingNode"
    and yaml: "\<And>n bs. enc n = Ok bs \<Longrightarrow> \<exists>t v. um bs = Ok (YNode DocumentNode t v [n])"
    and "faults w OpRead name = None"
  shows "NewKubeconfigForPath um name w' =
       (Ok \<lparr>kc_path = name, kc_useTmpFile = False, kc_rootNode = kc_rootNode k\<rparr>, w') \<and>
     (\<forall>q. q \<noteq> name \<longrightarrow> file_bytes w' q = file_bytes w q) \<and>
     (if kc_useTmpFile k then file_bytes w name = None else name = kc_path k)"
proof -
  from WriteKubeconfigFile_Ok [OF assms(1)] obtain bs w1 where
    w': "enc (kc_rootNode k) = Ok bs" "w' = put_file 384 name bs w1" "faults w1 = faults w"
      "file_bytes w1 = file_bytes w"
    and n: "if kc_useTmpFile k then file_bytes w name = None \<and> (\<exists>r. name = kc_path k @ ''/config.'' @ r @ ''.tmp'')
      else name = kc_path k" by blast
  obtain t v where um: "um bs = Ok (YNode DocumentNode t v [kc_rootNode k])"
    using yaml [OF w'(1)] by blast
  have "os_ReadFile name w' = (Ok bs, w')"
    using w' assms(4) by (simp add: os_ReadFile_Ok)
  then have "NewKubeconfigForPath um name w' =
       (Ok \<lparr>kc_path = name, kc_useTmpFile = False, kc_rootNode = kc_rootNode k\<rparr>, w')"
    using um assms(2) by (simp add: NewKubeconfigForPath_def New_def)
  then show ?thesis using w' n by (auto split: if_splits)
qed

definition sample_world :: world where
  "sample_world = \<lparr>disk = [(''/home/u'', DirE 493), (''/home/u/.kube'', DirE 448),
       (''/home/u/.kube/config'', FileE ''old'' 420)],
     faults = (\<lambda>_ _. None), getenv = (\<lambda>v. if v = ''HOME'' then ''/home/u'' else []), clock = 0,
     umask = 18, rnd = (\<lambda>n. itoa n), rnd_pos = 0, out = []\<rparr>"

definition sample_enc :: "ynode \<Rightarrow> string res" where
  "sample_enc n = (if n = kc_rootNode sample_kc then Ok ''sample'' else Err (LibErr ''yaml''))"

definition sample_um :: "string \<Rightarrow> ynode res" where
  "sample_um bs = (if bs = ''sample'' then Ok (YNode DocumentNode [] [] [kc_rootNode sample_kc])
     else Err (LibErr ''yaml''))"

lemma write_load_roundtrip_witness:
  "\<exists>w'. WriteKubeconfigFile sample_enc sample_kc sample_world = (Ok ''/home/u/.kube/config'', w') \<and>
     NewKubeconfigForPath sample_um ''/home/u/.kube/config'' w' = (Ok sample_kc, w')"
proof -
  have "creatable sample_world ''/home/u/.kube/config''" by code_simp
  then have run: "WriteKubeconfigFile sample_enc sample_kc sample_world =
      (Ok ''/home/u/.kube/config'', put_file 384 ''/home/u/.kube/config'' ''sample'' sample_world)"
    by (simp add: WriteKubeconfigFile_def bindIO_def wrapIO_def tryIO_def disk_simps sample_enc_def)
      (simp add: sample_kc_def sample_world_def disk_simps)
  have k: "Kind (kc_rootNode sample_kc) = MappingNode" by (simp add: sample_kc_def map_node_def)
  have f: "faults sample_world OpRead ''/home/u/.kube/config'' = None" by (simp add: sample_world_def)
  have s: "\<lparr>kc_path = ''/home/u/.kube/config'', kc_useTmpFile = False, kc_rootNode = kc_rootNode sample_kc\<rparr> = sample_kc"
    by (simp add: sample_kc_def)
  have y: "\<exists>t v. sample_um bs = Ok (YNode DocumentNode t v [n])" if "sample_enc n = Ok bs" for n bs
    using that by (auto simp: sample_enc_def sample_um_def split: if_splits)
  show ?thesis
    using write_load_roundtrip [OF run k y f] run s by auto
qed

end
