(* ===== verification/Caches.thy ===== *)
theory Caches
  imports Util AliasState KubeFiles
begin

text \<open>
  The caches in front of a store (\<^verbatim>\<open>pkg/cache\<close>): the registry of cache kinds, the memory cache, with
  concurrent lookups as a step relation, and the file cache. A cache is a store whose
  \<^verbatim>\<open>GetKubeconfigForPath\<close> is replaced, the other methods are the upstream's.
\<close>

section \<open>The registry of caches\<close>

type_synonym CacheFactory = "store \<Rightarrow> Cache option \<Rightarrow> store io"

definition cache_Register :: "string \<Rightarrow> CacheFactory \<Rightarrow> (string, CacheFactory) gomap \<Rightarrow> (string, CacheFactory) gomap" where
  "cache_Register kind creator caches = mset kind creator caches"

definition cache_New :: "(string, CacheFactory) gomap \<Rightarrow> string \<Rightarrow> store \<Rightarrow> Cache option \<Rightarrow> store io" where
  "cache_New caches kind s cfg = (case mget caches kind of
     None \<Rightarrow> failIO (Errorf ''no cache factory registered for kind %s'' [kind])
   | Some create \<Rightarrow> create s cfg)"

section \<open>The memory cache\<close>

record memoryCache =
  mc_upstream :: store
  mc_cache :: "(string, string) gomap"

definition memory_New :: "store \<Rightarrow> memoryCache" where
  "memory_New upstream = \<lparr>mc_upstream = upstream, mc_cache = []\<rparr>"

text \<open>One lookup on its own: the result and the cache after it.\<close>

definition memory_GetKubeconfigForPath :: "memoryCache \<Rightarrow> string \<Rightarrow> tags \<Rightarrow> (string res \<times> memoryCache) io" where
  "memory_GetKubeconfigForPath c path tags =
     (case mget (mc_cache c) path of
        Some val \<Rightarrow> returnIO (Ok val, c)
      | None \<Rightarrow> bindIO (attemptIO (st_GetKubeconfigForPath (mc_upstream c) path tags)) (\<lambda>r.
          returnIO (case r of
              Ok kube \<Rightarrow> (Ok kube, c\<lparr>mc_cache := mset path kube (mc_cache c)\<rparr>)
            | _ \<Rightarrow> (r, c))))"

definition memory_GetSearchPreview :: "memoryCache \<Rightarrow> string \<Rightarrow> tags \<Rightarrow> string io" where
  "memory_GetSearchPreview c path optionalTags = (case st_GetSearchPreview (mc_upstream c) of
     None \<Rightarrow> returnIO [] | Some preview \<Rightarrow> preview path optionalTags)"

definition memory_GetShootLabelKeys :: "memoryCache \<Rightarrow> string list" where
  "memory_GetShootLabelKeys c = (case st_GetShootLabelKeys (mc_upstream c) of None \<Rightarrow> [] | Some ks \<Rightarrow> ks)"

definition memory_Unwrap :: "memoryCache \<Rightarrow> store" where
  "memory_Unwrap c = mc_upstream c"

text \<open>
  Concurrent lookups. The upstream is a fixed function of path and tags; a goroutine looks the path
  up under the read lock, then, on a miss, asks the upstream without a lock, then stores the
  answer under the write lock.
\<close>

datatype lookup_pc = LStart | LMissed | LFetched "string res" | LDone "string res"

record mem_state =
  ms_cache :: "(string, string) gomap"
  ms_pc :: "nat \<Rightarrow> lookup_pc"

definition lgoto :: "nat \<Rightarrow> lookup_pc \<Rightarrow> mem_state \<Rightarrow> mem_state" where
  "lgoto t p s = s\<lparr>ms_pc := (ms_pc s)(t := p)\<rparr>"

inductive mem_step :: "(string \<Rightarrow> tags \<Rightarrow> string res) \<Rightarrow> (nat \<Rightarrow> string \<times> tags) \<Rightarrow> mem_state \<Rightarrow> mem_state \<Rightarrow> bool"
  for up :: "string \<Rightarrow> tags \<Rightarrow> string res" and req :: "nat \<Rightarrow> string \<times> tags" where
  hit: "ms_pc s t = LStart \<Longrightarrow> mget (ms_cache s) (fst (req t)) = Some v \<Longrightarrow> mem_step up req s (lgoto t (LDone (Ok v)) s)"
| miss: "ms_pc s t = LStart \<Longrightarrow> mget (ms_cache s) (fst (req t)) = None \<Longrightarrow> mem_step up req s (lgoto t LMissed s)"
| fetch: "ms_pc s t = LMissed \<Longrightarrow> mem_step up req s (lgoto t (LFetched (up (fst (req t)) (snd (req t)))) s)"
| put: "ms_pc s t = LFetched (Ok v) \<Longrightarrow>
    mem_step up req s (lgoto t (LDone (Ok v)) (s\<lparr>ms_cache := mset (fst (req t)) v (ms_cache s)\<rparr>))"
| fail: "ms_pc s t = LFetched r \<Longrightarrow> \<not> is_ok r \<Longrightarrow> mem_step up req s (lgoto t (LDone r) s)"

inductive mem_reachable :: "(string \<Rightarrow> tags \<Rightarrow> string res) \<Rightarrow> (nat \<Rightarrow> string \<times> tags) \<Rightarrow> mem_state \<Rightarrow> bool"
  for up :: "string \<Rightarrow> tags \<Rightarrow> string res" and req :: "nat \<Rightarrow> string \<times> tags" where
  initial: "mem_reachable up req \<lparr>ms_cache = [], ms_pc = \<lambda>_. LStart\<rparr>"
| step: "mem_reachable up req s \<Longrightarrow> mem_step up req s s' \<Longrightarrow> mem_reachable up req s'"

section \<open>The memory cache is transparent\<close>

text \<open>
  The contract of a cache: looking up under an invariant gives what the source gives, and keeps the
  invariant.
\<close>

locale transparent_cache =
  fixes lookup :: "'c \<Rightarrow> 'k \<Rightarrow> 'v \<times> 'c" and source :: "'k \<Rightarrow> 'v" and invar :: "'c \<Rightarrow> bool"
  assumes lookup_value: "invar c \<Longrightarrow> fst (lookup c k) = source k"
    and lookup_invar: "invar c \<Longrightarrow> invar (snd (lookup c k))"
begin

fun lookups :: "'c \<Rightarrow> 'k list \<Rightarrow> 'v list" where
  "lookups c [] = []"
| "lookups c (k # ks) = fst (lookup c k) # lookups (snd (lookup c k)) ks"

lemma lookups_transparent: "invar c \<Longrightarrow> lookups c ks = map source ks"
  by (induction ks arbitrary: c) (simp_all add: lookup_value lookup_invar)

end

text \<open>A store that answers by a function \<^verbatim>\<open>f\<close> of the path and does not change the world.\<close>

definition answers :: "store \<Rightarrow> (string \<Rightarrow> string res) \<Rightarrow> bool" where
  "answers s f \<longleftrightarrow> (\<forall>p t w. st_GetKubeconfigForPath s p t w = (f p, w)) \<and> (\<forall>p q. f p \<noteq> Panic q)"

definition mem_invar :: "(string \<Rightarrow> string res) \<Rightarrow> memoryCache \<Rightarrow> bool" where
  "mem_invar f c \<longleftrightarrow> answers (mc_upstream c) f \<and> (\<forall>p v. mget (mc_cache c) p = Some v \<longrightarrow> f p = Ok v)"

definition mem_lookup :: "world \<Rightarrow> memoryCache \<Rightarrow> string \<times> tags \<Rightarrow> string res \<times> memoryCache" where
  "mem_lookup w c pt = (case fst (memory_GetKubeconfigForPath c (fst pt) (snd pt) w) of
     Ok rc \<Rightarrow> rc | Err e \<Rightarrow> (Err e, c) | Panic p \<Rightarrow> (Panic p, c))"

lemma memory_lookup_result:
  assumes "mem_invar f c"
  shows "\<exists>c'. memory_GetKubeconfigForPath c path tags w = (Ok (f path, c'), w) \<and> mem_invar f c'"
proof (cases "mget (mc_cache c) path")
  case None
  have up: "st_GetKubeconfigForPath (mc_upstream c) path tags w = (f path, w)" "\<And>q. f path \<noteq> Panic q"
    using assms by (auto simp: mem_invar_def answers_def)
  show ?thesis
    using assms None up by (cases "f path")
      (auto simp: memory_GetKubeconfigForPath_def bindIO_apply attemptIO_def tryIO_apply mem_invar_def)
next
  case (Some v)
  then have "f path = Ok v" using assms by (simp add: mem_invar_def)
  then show ?thesis using Some assms by (simp add: memory_GetKubeconfigForPath_def)
qed

interpretation mem: transparent_cache "mem_lookup w" "\<lambda>pt. f (fst pt)" "mem_invar f"
proof unfold_locales
  fix c and k :: "string \<times> tags" assume "mem_invar f c"
  from memory_lookup_result [OF this, of "fst k" "snd k" w]
  obtain c' where "memory_GetKubeconfigForPath c (fst k) (snd k) w = (Ok (f (fst k), c'), w)" "mem_invar f c'" by blast
  then show "fst (mem_lookup w c k) = f (fst k)" "mem_invar f (snd (mem_lookup w c k))" by (simp_all add: mem_lookup_def)
qed

lemma memory_cache_by_path:
  assumes "answers s f"
  shows "mem.lookups w (memory_New s) pts = map (\<lambda>pt. f (fst pt)) pts"
  by (rule mem.lookups_transparent) (use assms in \<open>simp add: mem_invar_def memory_New_def\<close>)

text \<open>A session of lookups through one cache: the results in order, the cache and the world they leave.\<close>

definition mem_session :: "memoryCache \<Rightarrow> (string \<times> tags) list \<Rightarrow> (string res list \<times> memoryCache) io" where
  "mem_session c qs = foldIO (\<lambda>q (rs, c). bindIO (memory_GetKubeconfigForPath c (fst q) (snd q))
     (\<lambda>(r, c'). returnIO (rs @ [r], c'))) qs ([], c)"

text \<open>The first of the requests for a path that the upstream answers without an error.\<close>

definition first_ok :: "(string \<Rightarrow> tags \<Rightarrow> string res) \<Rightarrow> string \<Rightarrow> (string \<times> tags) list \<Rightarrow> (string \<times> tags) option" where
  "first_ok up p qs = List.find (\<lambda>q. fst q = p \<and> is_ok (up (fst q) (snd q))) qs"

lemma first_ok_Nil [simp]: "first_ok up p [] = None"
  by (simp add: first_ok_def)

lemma find_snoc: "List.find P (xs @ [x]) = (case List.find P xs of Some y \<Rightarrow> Some y | None \<Rightarrow> if P x then Some x else None)"
  by (induction xs) auto

lemma first_ok_snoc:
  "first_ok up p (qs @ [q]) = (case first_ok up p qs of Some x \<Rightarrow> Some x
     | None \<Rightarrow> if fst q = p \<and> is_ok (up (fst q) (snd q)) then Some q else None)"
  by (simp add: first_ok_def find_snoc)

lemma first_ok_Some: "first_ok up p qs = Some q \<Longrightarrow> fst q = p \<and> is_ok (up p (snd q))"
  unfolding first_ok_def by (auto simp: find_Some_iff)

lemma foldIO_snoc: "foldIO f (xs @ [x]) s = bindIO (foldIO f xs s) (f x)"
proof (induction xs arbitrary: s)
  case Nil
  then show ?case by (simp add: fun_eq_iff bindIO_apply split: prod.split res.split)
next
  case (Cons y ys)
  then show ?case by (simp add: fun_eq_iff bindIO_apply split: prod.split res.split)
qed

definition session_answer :: "(string \<Rightarrow> tags \<Rightarrow> string res) \<Rightarrow> (string \<times> tags) list \<Rightarrow> nat \<Rightarrow> string res" where
  "session_answer up qs i = (case first_ok up (fst (qs ! i)) (take (Suc i) qs) of
     Some q \<Rightarrow> up (fst q) (snd q) | None \<Rightarrow> up (fst (qs ! i)) (snd (qs ! i)))"

definition session_misses :: "(string \<Rightarrow> tags \<Rightarrow> string res) \<Rightarrow> (string \<times> tags) list \<Rightarrow> nat list" where
  "session_misses up qs = filter (\<lambda>i. first_ok up (fst (qs ! i)) (take i qs) = None) [0..<length qs]"

lemma session_answer_prefix: "i < length qs \<Longrightarrow> session_answer up (qs @ [q]) i = session_answer up qs i"
  by (simp add: session_answer_def nth_append split: option.split)

lemma session_answer_last:
  "session_answer up (qs @ [q]) (length qs) = (case first_ok up (fst q) qs of
     Some x \<Rightarrow> up (fst x) (snd x) | None \<Rightarrow> up (fst q) (snd q))"
  by (simp add: session_answer_def first_ok_snoc split: option.split)

lemma session_misses_snoc:
  "session_misses up (qs @ [q]) = session_misses up qs @ (if first_ok up (fst q) qs = None then [length qs] else [])"
  by (auto simp: session_misses_def nth_append intro!: filter_cong)

lemma mem_session_run:
  assumes up: "\<And>p t w. st_GetKubeconfigForPath s p t w = (up p t, effect p t w)" "\<And>p t q. up p t \<noteq> Panic q"
  shows "\<exists>c. mem_session (memory_New s) qs w = (Ok (map (session_answer up qs) [0..<length qs], c),
       fold (\<lambda>i. effect (fst (qs ! i)) (snd (qs ! i))) (session_misses up qs) w) \<and>
     mc_upstream c = s \<and>
     (\<forall>p. mget (mc_cache c) p = Option.bind (first_ok up p qs) (\<lambda>q. case up p (snd q) of Ok v \<Rightarrow> Some v | _ \<Rightarrow> None))"
proof (induction qs rule: rev_induct)
  case Nil
  then show ?case by (simp add: mem_session_def memory_New_def session_misses_def)
next
  case (snoc q qs)
  let ?w = "fold (\<lambda>i. effect (fst (qs ! i)) (snd (qs ! i))) (session_misses up qs) w"
  let ?rs = "map (session_answer up qs) [0..<length qs]"
  from snoc.IH obtain c where run: "mem_session (memory_New s) qs w = (Ok (?rs, c), ?w)" and c: "mc_upstream c = s"
    and cache: "\<And>p. mget (mc_cache c) p = Option.bind (first_ok up p qs) (\<lambda>q. case up p (snd q) of Ok v \<Rightarrow> Some v | _ \<Rightarrow> None)"
    by blast
  have rs: "map (session_answer up (qs @ [q])) [0..<length (qs @ [q])] = ?rs @ [session_answer up (qs @ [q]) (length qs)]"
    by (simp add: session_answer_prefix)
  have w: "fold (\<lambda>i. effect (fst ((qs @ [q]) ! i)) (snd ((qs @ [q]) ! i))) (session_misses up (qs @ [q])) w =
      (if first_ok up (fst q) qs = None then effect (fst q) (snd q) ?w else ?w)"
  proof -
    have "fold (\<lambda>i. effect (fst ((qs @ [q]) ! i)) (snd ((qs @ [q]) ! i))) (session_misses up qs) w = ?w"
      by (rule fold_cong) (auto simp: session_misses_def nth_append)
    then show ?thesis by (simp add: session_misses_snoc)
  qed
  have step: "mem_session (memory_New s) (qs @ [q]) w =
      bindIO (memory_GetKubeconfigForPath c (fst q) (snd q)) (\<lambda>(r, c'). returnIO (?rs @ [r], c')) ?w"
    using run by (simp add: mem_session_def foldIO_snoc)
  show ?case
  proof (cases "first_ok up (fst q) qs")
    case (Some x)
    then obtain v where v: "up (fst q) (snd x) = Ok v" "fst x = fst q" using first_ok_Some [OF Some] by (auto simp: is_ok_iff)
    then have "mget (mc_cache c) (fst q) = Some v" using cache Some by simp
    then have "memory_GetKubeconfigForPath c (fst q) (snd q) ?w = (Ok (Ok v, c), ?w)"
      by (simp add: memory_GetKubeconfigForPath_def)
    then show ?thesis unfolding step rs w using Some v c cache
      by (auto simp: session_answer_last first_ok_snoc bindIO_apply split: option.split)
  next
    case None
    then have miss: "mget (mc_cache c) (fst q) = None" using cache by simp
    show ?thesis
    proof (cases "up (fst q) (snd q)")
      case (Ok v)
      have "memory_GetKubeconfigForPath c (fst q) (snd q) ?w =
          (Ok (Ok v, c\<lparr>mc_cache := mset (fst q) v (mc_cache c)\<rparr>), effect (fst q) (snd q) ?w)"
        using miss Ok up c by (simp add: memory_GetKubeconfigForPath_def bindIO_apply attemptIO_def tryIO_apply)
      then show ?thesis unfolding step rs w using None Ok c cache
        by (auto simp: session_answer_last first_ok_snoc bindIO_apply split: option.split)
    next
      case (Err e)
      have "memory_GetKubeconfigForPath c (fst q) (snd q) ?w = (Ok (Err e, c), effect (fst q) (snd q) ?w)"
        using miss Err up c by (simp add: memory_GetKubeconfigForPath_def bindIO_apply attemptIO_def tryIO_apply)
      then show ?thesis unfolding step rs w using None Err c cache
        by (auto simp: session_answer_last first_ok_snoc bindIO_apply split: option.split)
    next
      case (Panic p)
      then show ?thesis using up(2) by simp
    qed
  qed
qed

text \<open>
  C34. Through the memory cache every request gets the answer of the first request for its path, up to
  and including itself, that the upstream answered without an error, whatever the tags of the two;
  as long as there is none it gets the error of the upstream for its own tags. The upstream is asked
  exactly for the requests that come before or at the first success of their path: the world changes
  by the effects of these calls only. (The upstream's answers depend on path and tags, and it
  does not panic.)
\<close>

theorem memory_cache_first_answer:
  assumes "\<And>p t w. st_GetKubeconfigForPath s p t w = (up p t, effect p t w)" and "\<And>p t q. up p t \<noteq> Panic q"
  shows "\<exists>rs c. mem_session (memory_New s) qs w = (Ok (rs, c),
       fold (\<lambda>i. effect (fst (qs ! i)) (snd (qs ! i)))
         (filter (\<lambda>i. first_ok up (fst (qs ! i)) (take i qs) = None) [0..<length qs]) w) \<and>
     length rs = length qs \<and>
     (\<forall>i < length qs. rs ! i = (case first_ok up (fst (qs ! i)) (take (Suc i) qs) of
        Some q \<Rightarrow> up (fst q) (snd q) | None \<Rightarrow> up (fst (qs ! i)) (snd (qs ! i))))"
  using mem_session_run [OF assms, of qs w] by (auto simp: session_misses_def session_answer_def)

text \<open>
  With concurrent lookups every result comes from the upstream: a goroutine that finished with a
  value got an answer the upstream gives for its path, under its own tags or those of another
  goroutine asking for the same path, and an error is only ever its own.
\<close>

theorem memory_cache_concurrent:
  assumes "mem_reachable up req s" and "ms_pc s t = LDone r"
  shows "\<exists>u. fst (req u) = fst (req t) \<and> r = up (fst (req u)) (snd (req u)) \<and> (\<not> is_ok r \<longrightarrow> r = up (fst (req t)) (snd (req t)))"
proof -
  have "(\<forall>p v. mget (ms_cache s) p = Some v \<longrightarrow> (\<exists>u. fst (req u) = p \<and> up p (snd (req u)) = Ok v)) \<and>
     (\<forall>t r. ms_pc s t = LFetched r \<longrightarrow> r = up (fst (req t)) (snd (req t))) \<and>
     (\<forall>t r. ms_pc s t = LDone r \<longrightarrow> (\<exists>u. fst (req u) = fst (req t) \<and> r = up (fst (req u)) (snd (req u)) \<and>
         (\<not> is_ok r \<longrightarrow> r = up (fst (req t)) (snd (req t)))))"
    using assms(1)
  proof induction
    case initial
    then show ?case by simp
  next
    case (step s s')
    note ih = step.IH
    from step.hyps(2) show ?case
    proof cases
      case (hit t v)
      then obtain u where "fst (req u) = fst (req t)" "up (fst (req t)) (snd (req u)) = Ok v" using ih by blast
      then show ?thesis using ih hit by (auto simp: lgoto_def)
    next
      case (miss t)
      then show ?thesis using ih by (auto simp: lgoto_def)
    next
      case (fetch t)
      then show ?thesis using ih by (auto simp: lgoto_def)
    next
      case (put t v)
      then have "up (fst (req t)) (snd (req t)) = Ok v" using ih by metis
      then show ?thesis using ih put by (auto simp: lgoto_def)
    next
      case (fail t r)
      then have "r = up (fst (req t)) (snd (req t))" using ih by blast
      then show ?thesis using ih fail by (auto simp: lgoto_def)
    qed
  qed
  then show ?thesis using assms(2) by blast
qed

section \<open>The file cache\<close>

record fileCacheCfg =
  fcc_Path :: string
  fcc_TTL :: "int option"

record fileCache =
  fc_upstream :: store
  fc_cfg :: fileCacheCfg

definition unmarshalFileCacheCfg :: "(any_config \<Rightarrow> string res) \<Rightarrow> (string \<Rightarrow> fileCacheCfg res) \<Rightarrow> any_config option \<Rightarrow> fileCacheCfg res" where
  "unmarshalFileCacheCfg marshal um cfg = (case cfg of
     None \<Rightarrow> Err (Errorf ''cache is not configured'' [])
   | Some c \<Rightarrow> bindR (wrapR ''failed to marshal cache config: %w'' [] (marshal c)) (\<lambda>buf.
       wrapR ''cache config is invalid: %w'' [] (um buf)))"

text \<open>The permission bits of a file or directory; \<^verbatim>\<open>0077\<close> is 63 and \<^verbatim>\<open>0700\<close> is 448.\<close>

definition entry_perm :: "fentry \<Rightarrow> perm" where
  "entry_perm f = (case f of FileE bs m \<Rightarrow> m | DirE m \<Rightarrow> m)"

definition cacheDirPerm :: perm where "cacheDirPerm = 448"
definition cacheFilePerm :: perm where "cacheFilePerm = 384"

definition ensureCacheDir :: "string \<Rightarrow> unit io" where
  "ensureCacheDir path =
     bindIO (wrapIO ''path: %s was not able to be created: %w'' [path] (os_MkdirAll path cacheDirPerm)) (\<lambda>_.
     bindIO (wrapIO ''path: %s was not able to be read: %w'' [path] (os_Stat path)) (\<lambda>info.
       if entry_perm info AND 63 \<noteq> 0
       then wrapIO ''path: %s holds kubeconfigs but is accessible by other users and could not be restricted: %w'' [path]
              (os_Chmod path cacheDirPerm)
       else returnIO ()))"

text \<open>\<^verbatim>\<open>New\<close>: the home directory is \<^verbatim>\<open>HOME\<close>; its absence is ignored. The expanded path is checked, the
  configured one is kept.\<close>

definition file_New :: "(any_config \<Rightarrow> string res) \<Rightarrow> (string \<Rightarrow> fileCacheCfg res) \<Rightarrow> store \<Rightarrow> Cache option \<Rightarrow> fileCache io" where
  "file_New marshal um upstream ccfg = (case ccfg of
     None \<Rightarrow> failIO (Errorf ''cache config must be provided for file cache'' [])
   | Some c \<Rightarrow> bindIO (liftR (unmarshalFileCacheCfg marshal um (cache_Config c))) (\<lambda>cfg.
       if length (fcc_Path cfg) = 0 then failIO (Errorf ''path for filesystem cache was not configured'' [])
       else bindIO (os_Getenv ''HOME'') (\<lambda>homedir.
         let path = (if HasPrefix (fcc_Path cfg) ''~/'' then JoinPath [homedir, drop 2 (fcc_Path cfg)] else fcc_Path cfg)
         in bindIO (ensureCacheDir path) (\<lambda>_. returnIO \<lparr>fc_upstream = upstream, fc_cfg = cfg\<rparr>))))"

text \<open>
  \<^verbatim>\<open>ModTime\<close> gives the modification time the file system keeps for a path; \<^verbatim>\<open>sha\<close> is the hexadecimal
  SHA-256 digest of a string.
\<close>

definition isExpired :: "(world \<Rightarrow> string \<Rightarrow> int) \<Rightarrow> fileCache \<Rightarrow> string \<Rightarrow> bool io" where
  "isExpired ModTime c path = (case fcc_TTL (fc_cfg c) of
     None \<Rightarrow> returnIO False
   | Some ttl \<Rightarrow>
       if ttl \<le> 0 then returnIO False
       else tryIO (os_Stat path) (\<lambda>_. \<lambda>w. (Ok (clock w - ModTime w path > ttl), w)) (\<lambda>_. returnIO True))"

definition cache_suffix :: "fileCache \<Rightarrow> string" where
  "cache_suffix c = ''.'' @ st_GetID (fc_upstream c) @ ''.cache''"

definition cache_file :: "(string \<Rightarrow> string) \<Rightarrow> world \<Rightarrow> fileCache \<Rightarrow> string \<Rightarrow> string" where
  "cache_file sha w c path = util_ExpandEnv w (JoinPath [fcc_Path (fc_cfg c), sha path @ cache_suffix c])"

definition file_GetKubeconfigForPath ::
    "(string \<Rightarrow> string) \<Rightarrow> (world \<Rightarrow> string \<Rightarrow> int) \<Rightarrow> (string \<Rightarrow> ynode res) \<Rightarrow> (ynode \<Rightarrow> string res) \<Rightarrow>
     (ynode \<Rightarrow> string res) \<Rightarrow> fileCache \<Rightarrow> string \<Rightarrow> tags \<Rightarrow> string io" where
  "file_GetKubeconfigForPath sha ModTime um enc marshal c path tags = (\<lambda>w.
     let f = cache_file sha w c path;
         miss = bindIO (st_GetKubeconfigForPath (fc_upstream c) path tags) (\<lambda>kubeconfig.
           bindIO (wrapIO ''failed to store kubeconfig in cache: %w'' [] (liftR (New um kubeconfig f False))) (\<lambda>k.
           bindIO (WriteKubeconfigFile enc k) (\<lambda>_. returnIO kubeconfig)))
     in tryIO (NewKubeconfigForPath um f)
          (\<lambda>k. bindIO (isExpired ModTime c f) (\<lambda>expired.
             if \<not> expired then bindIO (ignoreIO (os_Chmod f cacheFilePerm)) (\<lambda>_. liftR (GetBytes marshal k))
             else miss))
          (\<lambda>_. miss) w)"

text \<open>The number of deleted files, and the error that ended the loop.\<close>

fun flush_loop :: "string \<Rightarrow> string \<Rightarrow> dirent list \<Rightarrow> nat \<Rightarrow> (nat \<times> gerror option) io" where
  "flush_loop path suf [] deleted = returnIO (deleted, None)"
| "flush_loop path suf (e # es) deleted =
     (if disdir e \<or> \<not> HasSuffix (dname e) suf then flush_loop path suf es deleted
      else tryIO (os_Remove (JoinPath [path, dname e])) (\<lambda>_. flush_loop path suf es (Suc deleted))
        (\<lambda>err. returnIO (deleted, Some (Wrapf ''failed to delete file '%s': %w'' [dname e] err))))"

definition file_Flush :: "fileCache \<Rightarrow> (nat \<times> gerror option) io" where
  "file_Flush c = (\<lambda>w. let path = util_ExpandEnv w (fcc_Path (fc_cfg c))
     in tryIO (os_ReadDir path) (\<lambda>files. flush_loop path (cache_suffix c) files 0)
          (\<lambda>_. flush_loop path (cache_suffix c) [] 0) w)"

definition file_GetSearchPreview :: "fileCache \<Rightarrow> string \<Rightarrow> tags \<Rightarrow> string io" where
  "file_GetSearchPreview c path optionalTags = (case st_GetSearchPreview (fc_upstream c) of
     None \<Rightarrow> returnIO [] | Some preview \<Rightarrow> preview path optionalTags)"

definition file_GetShootLabelKeys :: "fileCache \<Rightarrow> string list" where
  "file_GetShootLabelKeys c = (case st_GetShootLabelKeys (fc_upstream c) of None \<Rightarrow> [] | Some ks \<Rightarrow> ks)"

text \<open>The cache as a store: the pass-through methods are the upstream's.\<close>

definition file_store ::
    "(string \<Rightarrow> string) \<Rightarrow> (world \<Rightarrow> string \<Rightarrow> int) \<Rightarrow> (string \<Rightarrow> ynode res) \<Rightarrow> (ynode \<Rightarrow> string res) \<Rightarrow>
     (ynode \<Rightarrow> string res) \<Rightarrow> fileCache \<Rightarrow> store" where
  "file_store sha ModTime um enc marshal c = (fc_upstream c)
     \<lparr>st_GetKubeconfigForPath := file_GetKubeconfigForPath sha ModTime um enc marshal c,
      st_GetSearchPreview := Some (file_GetSearchPreview c),
      st_GetShootLabelKeys := Some (file_GetShootLabelKeys c),
      st_Flush := Some (file_Flush c)\<rparr>"

section \<open>The file cache: permissions\<close>

text \<open>
  When \<^verbatim>\<open>ensureCacheDir\<close> succeeds the cache directory exists and nobody but its owner has any
  permission on it, whatever it was before.
\<close>

theorem ensureCacheDir_private:
  assumes "ensureCacheDir path w = (Ok (), w')" and "path \<noteq> []" "path \<noteq> ''.''"
  shows "\<exists>f. map_of (disk w') path = Some f \<and> entry_perm f AND 63 = 0"
proof -
  from assms(1) obtain w1 info where st: "os_Stat path w1 = (Ok info, w1)" and
    rest: "(if entry_perm info AND 63 \<noteq> 0
       then wrapIO ''path: %s holds kubeconfigs but is accessible by other users and could not be restricted: %w'' [path]
              (os_Chmod path cacheDirPerm)
       else returnIO ()) w1 = (Ok (), w')"
    using os_Stat_same by (force simp: ensureCacheDir_def bindIO_Ok_iff)
  from st have f: "map_of (disk w1) path = Some info"
    by (auto simp: os_Stat_def with_fault_def split: option.splits)
  show ?thesis
  proof (cases "entry_perm info AND 63 = 0")
    case True
    then show ?thesis using rest f by auto
  next
    case False
    then have "os_Chmod path cacheDirPerm w1 = (Ok (), w')"
      using rest by (auto simp: wrapIO_apply split: res.splits prod.splits)
    then have "\<exists>g. map_of (disk w') path = Some g \<and> entry_perm g = cacheDirPerm"
      using f by (cases info) (auto simp: os_Chmod_def with_fault_def entry_perm_def update_conv' split: option.splits)
    then show ?thesis by (auto simp: cacheDirPerm_def)
  qed
qed

section \<open>The file cache: hits, misses and flushes\<close>

lemma New_path:
  assumes "New um data p tmp = Ok k" shows "kc_path k = p" "kc_useTmpFile k = tmp"
proof -
  from assms obtain n where "um data = Ok n" and
    c: "(case Content n of [] \<Rightarrow> Err (Errorf ''kubeconfig at %q is empty or not a valid YAML document'' [p])
     | root # rest \<Rightarrow> if Kind root \<noteq> MappingNode then Err (Errorf ''kubeconfig file does not have expected format'' [])
         else Ok \<lparr>kc_path = p, kc_useTmpFile = tmp, kc_rootNode = root\<rparr>) = Ok k"
    by (auto simp: New_def bindR_Ok_iff)
  show "kc_path k = p" "kc_useTmpFile k = tmp" using c by (cases "Content n"; auto split: if_splits)+
qed

lemma os_Chmod_bytes:
  assumes "os_Chmod p m w = (r, w')" shows "file_bytes w' = file_bytes w" "\<not> is_panic r"
proof -
  have "file_bytes w' = file_bytes w \<and> \<not> is_panic r"
  proof (cases "faults w OpChmod p")
    case None
    show ?thesis
    proof (cases "map_of (disk w) p")
      case (Some f)
      then show ?thesis using assms None
        by (cases f) (auto simp: os_Chmod_def with_fault_def file_bytes_def fun_eq_iff update_conv')
    qed (use assms None in \<open>auto simp: os_Chmod_def with_fault_def\<close>)
  qed (use assms in \<open>auto simp: os_Chmod_def with_fault_def\<close>)
  then show "file_bytes w' = file_bytes w" "\<not> is_panic r" by simp_all
qed

lemma distinct_children: "wf_map dsk \<Longrightarrow> distinct (children dsk d)"
proof -
  have "distinct (List.map_filter (\<lambda>(p, f). map_option (\<lambda>n. DirEnt n (is_dir_entry f)) (child_name d p)) dsk)"
    if "distinct (map fst dsk)" for dsk
    using that
  proof (induction dsk)
    case (Cons a dsk)
    obtain p f where a: "a = (p, f)" by (cases a)
    have IH: "distinct (List.map_filter (\<lambda>(p, f). map_option (\<lambda>n. DirEnt n (is_dir_entry f)) (child_name d p)) dsk)"
      using Cons by simp
    show ?case
    proof (cases "child_name d p")
      case (Some n)
      have "DirEnt n b \<notin> set (List.map_filter (\<lambda>(p, f). map_option (\<lambda>n. DirEnt n (is_dir_entry f)) (child_name d p)) dsk)" for b
        using Cons.prems a Some by (force simp: List.map_filter_def child_name_Some)
      then show ?thesis using IH a Some by (simp add: List.map_filter_simps)
    qed (use IH a in \<open>simp add: List.map_filter_simps\<close>)
  qed (simp add: List.map_filter_simps)
  then show "wf_map dsk \<Longrightarrow> distinct (children dsk d)"
    by (simp add: children_def wf_map_def)
qed

lemma flush_loop_spec:
  assumes "wf_map (disk w)" and "faults w = (\<lambda>_ _. None)" and "clean_dir path"
    and "distinct es" "\<And>e. e \<in> set es \<Longrightarrow> \<not> disdir e \<Longrightarrow> HasSuffix (dname e) suf \<Longrightarrow> is_file w (path @ slash @ dname e) \<and> plain_elem (dname e)"
    and "\<And>e e'. e \<in> set es \<Longrightarrow> e' \<in> set es \<Longrightarrow> dname e = dname e' \<Longrightarrow> e = e'"
  shows "\<exists>w'. flush_loop path suf es n w =
      (Ok (n + length (filter (\<lambda>e. \<not> disdir e \<and> HasSuffix (dname e) suf) es), None), w') \<and>
     (\<forall>q. file_bytes w' q = (if q \<in> {path @ slash @ dname e |e. e \<in> set es \<and> \<not> disdir e \<and> HasSuffix (dname e) suf}
        then None else file_bytes w q))"
  using assms
proof (induction es arbitrary: n w)
  case (Cons e es)
  show ?case
  proof (cases "disdir e \<or> \<not> HasSuffix (dname e) suf")
    case True
    have "\<exists>w'. flush_loop path suf es n w = (Ok (n + length (filter (\<lambda>e. \<not> disdir e \<and> HasSuffix (dname e) suf) es), None), w') \<and>
     (\<forall>q. file_bytes w' q = (if q \<in> {path @ slash @ dname e |e. e \<in> set es \<and> \<not> disdir e \<and> HasSuffix (dname e) suf}
        then None else file_bytes w q))"
      by (rule Cons.IH) (use Cons.prems in auto)
    then show ?thesis using True by auto
  next
    case False
    let ?p = "path @ slash @ dname e" and ?w = "del_file (path @ slash @ dname e) w"
    have pe: "plain_elem (dname e)" "is_file w ?p" using Cons.prems(5) [of e] False by auto
    have rm: "os_Remove (JoinPath [path, dname e]) w = (Ok (), ?w)"
      using JoinPath_clean_dir [OF Cons.prems(3) pe(1)] os_Remove_file [OF pe(2)] Cons.prems(2) by simp
    have "\<exists>w'. flush_loop path suf es (Suc n) ?w = (Ok (Suc n + length (filter (\<lambda>e. \<not> disdir e \<and> HasSuffix (dname e) suf) es), None), w') \<and>
     (\<forall>q. file_bytes w' q = (if q \<in> {path @ slash @ dname e |e. e \<in> set es \<and> \<not> disdir e \<and> HasSuffix (dname e) suf}
        then None else file_bytes ?w q))"
    proof (rule Cons.IH)
      show "wf_map (disk ?w)" "faults ?w = (\<lambda>_ _. None)" using Cons.prems(1,2) by (simp_all add: del_file_def)
      show "is_file ?w (path @ slash @ dname x) \<and> plain_elem (dname x)" if "x \<in> set es" "\<not> disdir x" "HasSuffix (dname x) suf" for x
      proof -
        have "dname x \<noteq> dname e" using Cons.prems(4,6) that by auto
        then show ?thesis using Cons.prems(5) [of x] that by (simp add: is_file_def fs.get_del)
      qed
    qed (use Cons.prems in auto)
    then obtain w' where w': "flush_loop path suf es (Suc n) ?w =
        (Ok (Suc n + length (filter (\<lambda>e. \<not> disdir e \<and> HasSuffix (dname e) suf) es), None), w')"
      "\<forall>q. file_bytes w' q = (if q \<in> {path @ slash @ dname e |e. e \<in> set es \<and> \<not> disdir e \<and> HasSuffix (dname e) suf}
        then None else file_bytes ?w q)" by blast
    then show ?thesis using False rm by (intro exI [of _ w']) (auto simp: tryIO_apply fs.get_del)
  qed
qed simp

text \<open>
  A file cache entry that is there, parses and has not expired is answered from the cache, without
  the upstream, and only its mode is touched.
\<close>

theorem file_cache_hit:
  assumes "NewKubeconfigForPath um (cache_file sha w c path) w = (Ok k, w)"
    and "fst (isExpired ModTime c (cache_file sha w c path) w) = Ok False"
  shows "\<exists>w'. file_GetKubeconfigForPath sha ModTime um enc marshal c path tags w = (GetBytes marshal k, w') \<and>
     (\<forall>q. file_bytes w' q = file_bytes w q)"
proof -
  let ?f = "cache_file sha w c path"
  have e: "isExpired ModTime c ?f w = (Ok False, w)"
    using assms(2) os_Stat_same [of ?f w]
    by (auto simp: isExpired_def tryIO_apply split: option.splits if_splits prod.splits res.splits)
  obtain r w' where ch: "os_Chmod ?f cacheFilePerm w = (r, w')" by fastforce
  have "file_bytes w' = file_bytes w" "\<not> is_panic r"
    using ch by (auto dest: os_Chmod_bytes)
  then show ?thesis
    using assms(1) e ch by (cases r)
      (auto simp: file_GetKubeconfigForPath_def Let_def tryIO_apply bindIO_apply ignoreIO_def)
qed

text \<open>
  A miss, an entry that does not parse or an expired one asks the upstream: its error is returned and
  nothing is cached; its kubeconfig is returned as it is and stored where the next lookup finds it.
\<close>

theorem file_cache_miss:
  assumes miss: "(\<exists>e. NewKubeconfigForPath um (cache_file sha w c path) w = (Err e, w)) \<or>
      (\<exists>k. NewKubeconfigForPath um (cache_file sha w c path) w = (Ok k, w) \<and>
           fst (isExpired ModTime c (cache_file sha w c path) w) = Ok True)"
    and up: "st_GetKubeconfigForPath (fc_upstream c) path tags w = (u, w)"
    and "case u of Ok data \<Rightarrow> \<exists>k bs. New um data (cache_file sha w c path) False = Ok k \<and> enc (kc_rootNode k) = Ok bs \<and>
           New um bs (cache_file sha w c path) False = Ok k | _ \<Rightarrow> True"
    and "writable w (cache_file sha w c path)" "faults w OpRead (cache_file sha w c path) = None"
  shows "\<exists>w'. file_GetKubeconfigForPath sha ModTime um enc marshal c path tags w = (u, w') \<and>
     (case u of
        Ok data \<Rightarrow> \<exists>k. New um data (cache_file sha w c path) False = Ok k \<and>
          NewKubeconfigForPath um (cache_file sha w c path) w' = (Ok k, w') \<and>
          (\<forall>q. q \<noteq> cache_file sha w c path \<longrightarrow> file_bytes w' q = file_bytes w q)
      | _ \<Rightarrow> w' = w)"
proof -
  let ?f = "cache_file sha w c path"
  let ?miss = "bindIO (st_GetKubeconfigForPath (fc_upstream c) path tags) (\<lambda>kubeconfig.
           bindIO (wrapIO ''failed to store kubeconfig in cache: %w'' [] (liftR (New um kubeconfig ?f False))) (\<lambda>k.
           bindIO (WriteKubeconfigFile enc k) (\<lambda>_. returnIO kubeconfig)))"
  have ex: "isExpired ModTime c ?f w = (Ok True, w)" if "fst (isExpired ModTime c ?f w) = Ok True"
    using that os_Stat_same [of ?f w]
    by (auto simp: isExpired_def tryIO_apply split: option.splits if_splits prod.splits res.splits)
  have run: "file_GetKubeconfigForPath sha ModTime um enc marshal c path tags w = ?miss w"
    using miss ex by (auto simp: file_GetKubeconfigForPath_def Let_def tryIO_apply bindIO_apply)
  show ?thesis
  proof (cases u)
    case (Ok data)
    then obtain k bs where k: "New um data ?f False = Ok k" "enc (kc_rootNode k) = Ok bs" "New um bs ?f False = Ok k"
      using assms(3) by auto
    have kf: "kc_path k = ?f" "\<not> kc_useTmpFile k"
      using New_path [OF k(1)] by simp_all
    let ?w = "put_file 384 ?f bs w"
    have "WriteKubeconfigFile enc k w = (Ok ?f, ?w)"
      using kf k(2) assms(4) by (simp add: WriteKubeconfigFile_def bindIO_apply wrapIO_apply os_open_write_True
        file_Write_after_open writable_def)
    then have "?miss w = (Ok data, ?w)" using up Ok k(1) by (simp add: bindIO_apply wrapIO_apply)
    moreover have "NewKubeconfigForPath um ?f ?w = (Ok k, ?w)"
      using assms(5) k(3) os_ReadFile_Ok [of ?f ?w bs ?w] by (simp add: NewKubeconfigForPath_def bindIO_apply wrapIO_apply)
    ultimately show ?thesis using run Ok k(1) by auto
  next
    case (Err e)
    then show ?thesis using run up by (simp add: bindIO_apply)
  next
    case (Panic p)
    then show ?thesis using run up by (simp add: bindIO_apply)
  qed
qed

text \<open>An id of the form kind, dot, id, both without a dot, and the digest without one.\<close>

definition two_part_id :: "string \<Rightarrow> bool" where
  "two_part_id s \<longleftrightarrow> length (Split s ''.'') = 2"

lemma two_part_idE:
  assumes "two_part_id s"
  obtains k i where "s = k @ ''.'' @ i" "CHR ''.'' \<notin> set k" "CHR ''.'' \<notin> set i"
proof -
  obtain k i where s: "Split s ''.'' = [k, i]"
    using assms by (cases "Split s ''.''"; cases "tl (Split s ''.'')") (auto simp: two_part_id_def)
  have "s = k @ ''.'' @ i" using Join_Split [of s "''.''"] s by simp
  moreover have "CHR ''.'' \<notin> set k" "CHR ''.'' \<notin> set i"
    using Split_single_no_sep [of k s "CHR ''.''"] Split_single_no_sep [of i s "CHR ''.''"] s by simp_all
  ultimately show thesis by (rule that)
qed

lemma suffix_exact:
  assumes "two_part_id a" "two_part_id b" "CHR ''.'' \<notin> set h"
  shows "HasSuffix (h @ ''.'' @ b @ ''.cache'') (''.'' @ a @ ''.cache'') \<longleftrightarrow> a = b"
proof
  obtain k i where a: "a = k @ ''.'' @ i" "CHR ''.'' \<notin> set k" "CHR ''.'' \<notin> set i"
    using assms(1) by (rule two_part_idE)
  obtain k' i' where b: "b = k' @ ''.'' @ i'" "CHR ''.'' \<notin> set k'" "CHR ''.'' \<notin> set i'"
    using assms(2) by (rule two_part_idE)
  assume "HasSuffix (h @ ''.'' @ b @ ''.cache'') (''.'' @ a @ ''.cache'')"
  then obtain t where t: "h @ ''.'' @ b @ ''.cache'' = t @ ''.'' @ a @ ''.cache''" by (auto simp: HasSuffix_iff)
  then have eq: "h @ ''.'' @ b = t @ ''.'' @ a" by (metis append.assoc append_same_eq)
  have count: "length (filter (\<lambda>c. c = CHR ''.'') (h @ ''.'' @ b)) = 2 + length (filter (\<lambda>c. c = CHR ''.'') h)"
    "length (filter (\<lambda>c. c = CHR ''.'') (t @ ''.'' @ a)) = 2 + length (filter (\<lambda>c. c = CHR ''.'') t)"
    using a b by (auto simp: filter_empty_conv)
  have "filter (\<lambda>c. c = CHR ''.'') h = []" using assms(3) by (auto simp: filter_empty_conv)
  moreover have "length (filter (\<lambda>c. c = CHR ''.'') (h @ ''.'' @ b)) = length (filter (\<lambda>c. c = CHR ''.'') (t @ ''.'' @ a))"
    by (simp only: eq)
  ultimately have "length (filter (\<lambda>c. c = CHR ''.'') t) = 0" unfolding count by simp
  then have "CHR ''.'' \<notin> set t" by (auto simp: filter_empty_conv)
  then have "Cut (h @ ''.'' @ b) ''.'' = Some (h, b)" "Cut (t @ ''.'' @ a) ''.'' = Some (t, a)"
    using assms(3) by (simp_all add: Cut_single)
  then have "Some (h, b) = Some (t, a)" using eq by metis
  then show "a = b" by simp
next
  assume "a = b" then show "HasSuffix (h @ ''.'' @ b @ ''.cache'') (''.'' @ a @ ''.cache'')" by (auto simp: HasSuffix_iff)
qed

text \<open>
  Flushing the cache of one store removes exactly the entries of that store from the directory: an
  entry that the cache of another store id wrote for any path stays, and so does every other file.
\<close>

theorem file_Flush_exact:
  assumes "wf_map (disk w)" "faults w = (\<lambda>_ _. None)" "clean_dir (fcc_Path (fc_cfg c))" "map_of (disk w) (fcc_Path (fc_cfg c)) = Some (DirE m)"
    and "util_ExpandEnv w (fcc_Path (fc_cfg c)) = fcc_Path (fc_cfg c)"
    and "two_part_id (st_GetID (fc_upstream c))"
  shows "\<exists>n w'. file_Flush c w = (Ok (n, None), w') \<and>
     (\<forall>q. file_bytes w' q = (if \<exists>nm. q = fcc_Path (fc_cfg c) @ slash @ nm \<and> CHR ''/'' \<notin> set nm \<and> HasSuffix nm (cache_suffix c)
        then None else file_bytes w q)) \<and>
     (\<forall>h b. two_part_id b \<and> CHR ''.'' \<notin> set h \<and> CHR ''/'' \<notin> set (h @ b) \<and> b \<noteq> st_GetID (fc_upstream c) \<longrightarrow>
        file_bytes w' (fcc_Path (fc_cfg c) @ slash @ h @ ''.'' @ b @ ''.cache'') =
        file_bytes w (fcc_Path (fc_cfg c) @ slash @ h @ ''.'' @ b @ ''.cache''))"
proof -
  let ?d = "fcc_Path (fc_cfg c)" and ?s = "cache_suffix c"
  let ?es = "children (disk w) ?d"
  have rd: "os_ReadDir ?d w = (Ok ?es, w)" using assms(2,4) by (simp add: os_ReadDir_def with_fault_def)
  have mem: "e \<in> set ?es \<longleftrightarrow> (\<exists>f. map_of (disk w) (?d @ slash @ dname e) = Some f \<and> disdir e = is_dir_entry f) \<and>
      dname e \<noteq> [] \<and> CHR ''/'' \<notin> set (dname e)" for e by (rule children_mem [OF assms(1)])
  have names: "e = e'" if "e \<in> set ?es" "e' \<in> set ?es" "dname e = dname e'" for e e'
    using that mem by (auto intro: dirent.expand)
  have plain: "plain_elem (dname e)" if "e \<in> set ?es" "HasSuffix (dname e) ?s" for e
    using that mem [of e] by (auto simp: plain_elem_def cache_suffix_def HasSuffix_iff Cons_eq_append_conv append_eq_Cons_conv)
  have dist: "distinct ?es" using assms(1) by (rule distinct_children)
  let ?rm = "{?d @ slash @ dname e |e. e \<in> set ?es \<and> \<not> disdir e \<and> HasSuffix (dname e) ?s}"
  have "\<exists>w'. flush_loop ?d ?s ?es 0 w = (Ok (0 + length (filter (\<lambda>e. \<not> disdir e \<and> HasSuffix (dname e) ?s) ?es), None), w') \<and>
      (\<forall>q. file_bytes w' q = (if q \<in> ?rm then None else file_bytes w q))"
  proof (rule flush_loop_spec [OF assms(1-3) dist])
    show "is_file w (?d @ slash @ dname e) \<and> plain_elem (dname e)"
      if "e \<in> set ?es" "\<not> disdir e" "HasSuffix (dname e) ?s" for e
    proof -
      have "\<exists>f. map_of (disk w) (?d @ slash @ dname e) = Some f \<and> \<not> is_dir_entry f"
        using that(1,2) mem [of e] by force
      then obtain f where "map_of (disk w) (?d @ slash @ dname e) = Some f" "\<not> is_dir_entry f" by blast
      then have "is_file w (?d @ slash @ dname e)"
        by (cases f) (auto simp: is_file_def file_bytes_def is_dir_entry_def)
      then show ?thesis using plain that by simp
    qed
  qed (rule names)
  then obtain n w' where fl: "flush_loop ?d ?s ?es 0 w = (Ok (n, None), w')"
      and fb: "\<And>q. file_bytes w' q = (if q \<in> ?rm then None else file_bytes w q)" by auto
  have eq: "file_bytes w' (?d @ slash @ nm) = (if HasSuffix nm ?s then None else file_bytes w (?d @ slash @ nm))"
    if "CHR ''/'' \<notin> set nm" for nm
  proof (cases "is_file w (?d @ slash @ nm) \<and> HasSuffix nm ?s")
    case True
    then obtain bs m where "map_of (disk w) (?d @ slash @ nm) = Some (FileE bs m)"
      by (auto simp: is_file_def file_bytes_def split: option.splits fentry.splits)
    moreover have "nm \<noteq> []" using True by (auto simp: HasSuffix_iff cache_suffix_def)
    ultimately have "DirEnt nm False \<in> set ?es" using mem [of "DirEnt nm False"] that by (simp add: is_dir_entry_def)
    then have "?d @ slash @ nm \<in> ?rm" using True by force
    then show ?thesis using fb True by simp
  next
    case False
    then show ?thesis using fb by (auto simp: is_file_def)
  qed
  have other: "file_bytes w' q = file_bytes w q" if "\<nexists>nm. q = ?d @ slash @ nm \<and> CHR ''/'' \<notin> set nm \<and> HasSuffix nm ?s" for q
    using that mem by (subst fb) auto
  have run: "file_Flush c w = (Ok (n, None), w')"
    using rd fl assms(5) by (simp add: file_Flush_def Let_def tryIO_apply)
  have keep: "file_bytes w' (?d @ slash @ h @ ''.'' @ b @ ''.cache'') = file_bytes w (?d @ slash @ h @ ''.'' @ b @ ''.cache'')"
    if "two_part_id b" "CHR ''.'' \<notin> set h" "CHR ''/'' \<notin> set (h @ b)" "b \<noteq> st_GetID (fc_upstream c)" for h b
    using eq [of "h @ ''.'' @ b @ ''.cache''"] that suffix_exact [OF assms(6) that(1,2)]
    by (simp add: cache_suffix_def)
  show ?thesis
  proof (intro exI conjI allI impI)
    show "file_Flush c w = (Ok (n, None), w')" by (rule run)
    show "file_bytes w' q = (if \<exists>nm. q = ?d @ slash @ nm \<and> CHR ''/'' \<notin> set nm \<and> HasSuffix nm ?s then None else file_bytes w q)" for q
      using eq other [of q] by (cases "\<exists>nm. q = ?d @ slash @ nm \<and> CHR ''/'' \<notin> set nm \<and> HasSuffix nm ?s") auto
  qed (use keep in auto)
qed

section \<open>Sample stores and witnesses\<close>

definition cached_store :: store where
  "cached_store = \<lparr>st_GetID = ''eks.default'', st_GetKind = ''eks'', st_GetContextPrefix = (\<lambda>_. []),
     st_VerifyKubeconfigPaths = returnIO (), st_StartSearch = returnIO [],
     st_GetKubeconfigForPath = (\<lambda>p _. returnIO ''sample''), st_GetStoreConfig = zero_store,
     st_GetSearchPreview = None, st_GetShootLabelKeys = None, st_Flush = None\<rparr>"

definition cached :: fileCache where
  "cached = \<lparr>fc_upstream = cached_store, fc_cfg = \<lparr>fcc_Path = ''/c'', fcc_TTL = Some 5\<rparr>\<rparr>"

definition cached_world :: world where
  "cached_world = \<lparr>disk = [(''/c'', DirE 493), (''/c/p.eks.default.cache'', FileE ''sample'' 420),
       (''/c/p.eks.other.cache'', FileE ''kept'' 384)],
     faults = (\<lambda>_ _. None), getenv = (\<lambda>_. []), clock = 10, umask = 18, rnd = (\<lambda>_. ''1''), rnd_pos = 0, out = []\<rparr>"

definition tagged_answer :: "string \<Rightarrow> tags \<Rightarrow> string res" where
  "tagged_answer p t = (case t of [] \<Rightarrow> Err (LibErr p) | (k, v) # _ \<Rightarrow> Ok v)"

text \<open>An error is asked for again; after a success other tags get the first answer, and nobody is asked.\<close>

lemma memory_cache_first_answer_witness:
  "\<exists>c. mem_session (memory_New (cached_store\<lparr>st_GetKubeconfigForPath := \<lambda>p t w. (tagged_answer p t, w\<lparr>out := p # out w\<rparr>)\<rparr>))
       [(''a'', []), (''a'', [(''k'', ''v'')]), (''b'', []), (''a'', [(''k'', ''u'')])] sample_world =
     (Ok ([Err (LibErr ''a''), Ok ''v'', Err (LibErr ''b''), Ok ''v''], c), sample_world\<lparr>out := [''b'', ''a'', ''a''] @ out sample_world\<rparr>)"
proof -
  let ?qs = "[(''a'', []), (''a'', [(''k'', ''v'')]), (''b'', []), (''a'', [(''k'', ''u'')])] :: (string \<times> tags) list"
  let ?s = "cached_store\<lparr>st_GetKubeconfigForPath := \<lambda>p t w. (tagged_answer p t, w\<lparr>out := p # out w\<rparr>)\<rparr>"
  have "tagged_answer p t \<noteq> Panic q" for p t q by (auto simp: tagged_answer_def split: list.splits)
  then obtain rs c where r: "mem_session (memory_New ?s) ?qs sample_world = (Ok (rs, c),
       fold (\<lambda>i w. w\<lparr>out := fst (?qs ! i) # out w\<rparr>)
         (filter (\<lambda>i. first_ok tagged_answer (fst (?qs ! i)) (take i ?qs) = None) [0..<length ?qs]) sample_world)"
     "length rs = length ?qs" "\<forall>i < length ?qs. rs ! i = (case first_ok tagged_answer (fst (?qs ! i)) (take (Suc i) ?qs) of
        Some q \<Rightarrow> tagged_answer (fst q) (snd q) | None \<Rightarrow> tagged_answer (fst (?qs ! i)) (snd (?qs ! i)))"
    using memory_cache_first_answer [of ?s tagged_answer "\<lambda>p t w. w\<lparr>out := p # out w\<rparr>" ?qs sample_world] by auto
  have m: "filter (\<lambda>i. first_ok tagged_answer (fst (?qs ! i)) (take i ?qs) = None) [0..<length ?qs] = [0, 1, 2]"
    by code_simp
  have "rs = map (\<lambda>i. rs ! i) [0..<length ?qs]" using r(2) by (metis map_nth)
  also have "\<dots> = [Err (LibErr ''a''), Ok ''v'', Err (LibErr ''b''), Ok ''v'']"
    using r(3) by (simp add: upt_rec first_ok_def tagged_answer_def)
  finally show ?thesis using r(1) unfolding m by auto
qed

lemma memory_cache_concurrent_witness:
  "\<exists>u. fst ((\<lambda>_. (''p'', [])) u) = ''p'' \<and> (Ok ''v'' :: string res) = (\<lambda>_ _. Ok ''v'') ''p'' []"
proof -
  let ?up = "\<lambda>_ _. Ok ''v'' :: string res" and ?req = "\<lambda>_ :: nat. (''p'', [] :: tags)"
  let ?s0 = "\<lparr>ms_cache = [], ms_pc = \<lambda>_. LStart\<rparr>"
  have "mem_reachable ?up ?req ?s0" by (rule mem_reachable.initial)
  then have "mem_reachable ?up ?req (lgoto 0 LMissed ?s0)" by (rule mem_reachable.step) (rule mem_step.miss, simp_all)
  then have "mem_reachable ?up ?req (lgoto 0 (LFetched (?up (fst (?req 0)) (snd (?req 0)))) (lgoto 0 LMissed ?s0))"
    by (rule mem_reachable.step) (rule mem_step.fetch, simp add: lgoto_def)
  then have r: "mem_reachable ?up ?req (lgoto 0 (LFetched (Ok ''v'')) (lgoto 0 LMissed ?s0))" by simp
  have "\<exists>s. mem_reachable ?up ?req s \<and> ms_pc s 0 = LDone (Ok ''v'')"
  proof (intro exI conjI)
    show "mem_reachable ?up ?req (lgoto 0 (LDone (Ok ''v''))
        ((lgoto 0 (LFetched (Ok ''v'')) (lgoto 0 LMissed ?s0))\<lparr>ms_cache := mset (fst (?req 0)) ''v'' (ms_cache (lgoto 0 (LFetched (Ok ''v'')) (lgoto 0 LMissed ?s0)))\<rparr>))"
      by (rule mem_reachable.step [OF r], rule mem_step.put) (simp add: lgoto_def)
  qed (simp add: lgoto_def)
  then obtain s where "mem_reachable ?up ?req s" "ms_pc s 0 = LDone (Ok ''v'')" by blast
  from memory_cache_concurrent [OF this] show ?thesis by simp
qed

lemma ensureCacheDir_private_witness:
  "\<exists>w'. ensureCacheDir ''/c'' cached_world = (Ok (), w') \<and> (\<exists>f. map_of (disk w') ''/c'' = Some f \<and> entry_perm f AND 63 = 0)"
proof -
  have "is_ok (fst (ensureCacheDir ''/c'' cached_world))" by code_simp
  then obtain u w' where run: "ensureCacheDir ''/c'' cached_world = (Ok u, w')"
    by (cases "ensureCacheDir ''/c'' cached_world") (auto simp: is_ok_iff)
  then show ?thesis using ensureCacheDir_private [of "''/c''" cached_world w'] by simp
qed

lemma cached_file: "cache_file (\<lambda>p. p) cached_world cached ''p'' = ''/c/p.eks.default.cache''"
  by code_simp

lemma cached_hit: "NewKubeconfigForPath sample_um ''/c/p.eks.default.cache'' cached_world =
    (Ok (sample_kc\<lparr>kc_path := ''/c/p.eks.default.cache''\<rparr>), cached_world)"
  by (simp add: NewKubeconfigForPath_def bindIO_apply wrapIO_apply os_ReadFile_def with_fault_def cached_world_def
      New_def sample_um_def sample_kc_def map_node_def)

lemma file_cache_hit_witness:
  "\<exists>w'. file_GetKubeconfigForPath (\<lambda>p. p) (\<lambda>_ _. 7) sample_um sample_enc sample_enc cached ''p'' [] cached_world = (Ok ''sample'', w')"
proof -
  let ?k = "sample_kc\<lparr>kc_path := ''/c/p.eks.default.cache''\<rparr>"
  have "GetBytes sample_enc ?k = Ok ''sample''" by (simp add: GetBytes_def sample_enc_def)
  moreover have "fst (isExpired (\<lambda>_ _. 7) cached (cache_file (\<lambda>p. p) cached_world cached ''p'') cached_world) = Ok False"
    by code_simp
  ultimately show ?thesis
    using file_cache_hit [of sample_um "\<lambda>p. p" cached_world cached "''p''" ?k "\<lambda>_ _. 7" sample_enc sample_enc "[]"] cached_hit cached_file
    by auto
qed

lemma file_cache_miss_witness:
  "\<exists>w'. file_GetKubeconfigForPath (\<lambda>p. p) (\<lambda>_ _. 1) sample_um sample_enc sample_enc cached ''p'' [] cached_world = (Ok ''sample'', w') \<and>
     file_bytes w' ''/c/p.eks.other.cache'' = Some ''kept''"
proof -
  let ?k = "sample_kc\<lparr>kc_path := ''/c/p.eks.default.cache''\<rparr>"
  have new: "New sample_um ''sample'' ''/c/p.eks.default.cache'' False = Ok ?k"
    by (simp add: New_def sample_um_def sample_kc_def map_node_def)
  have enc: "sample_enc (kc_rootNode ?k) = Ok ''sample''" by (simp add: sample_enc_def)
  have up: "st_GetKubeconfigForPath (fc_upstream cached) ''p'' [] cached_world = (Ok ''sample'', cached_world)"
    by (simp add: cached_def cached_store_def returnIO_def)
  have ex: "fst (isExpired (\<lambda>_ _. 1) cached (cache_file (\<lambda>p. p) cached_world cached ''p'') cached_world) = Ok True"
    by code_simp
  have wr: "writable cached_world (cache_file (\<lambda>p. p) cached_world cached ''p'')" by code_simp
  have rd: "faults cached_world OpRead (cache_file (\<lambda>p. p) cached_world cached ''p'') = None" by (simp add: cached_world_def)
  have kept: "file_bytes cached_world ''/c/p.eks.other.cache'' = Some ''kept''" by code_simp
  show ?thesis
    using file_cache_miss [of sample_um "\<lambda>p. p" cached_world cached "''p''" "\<lambda>_ _. 1" "[]" "Ok ''sample''" sample_enc sample_enc, OF _ up _ wr rd]
      cached_hit cached_file new enc ex kept by auto
qed

lemma file_Flush_exact_witness:
  "\<exists>n w'. file_Flush cached cached_world = (Ok (n, None), w') \<and>
     file_bytes w' ''/c/p.eks.default.cache'' = None \<and> file_bytes w' ''/c/p.eks.other.cache'' = Some ''kept''"
proof -
  have "wf_map (disk cached_world)" "faults cached_world = (\<lambda>_ _. None)" "map_of (disk cached_world) (fcc_Path (fc_cfg cached)) = Some (DirE 493)"
    by (simp_all add: cached_world_def wf_map_def cached_def)
  moreover have "clean_dir (fcc_Path (fc_cfg cached))" by code_simp
  moreover have "util_ExpandEnv cached_world (fcc_Path (fc_cfg cached)) = fcc_Path (fc_cfg cached)" by code_simp
  moreover have "two_part_id (st_GetID (fc_upstream cached))" by code_simp
  ultimately obtain n w' where run: "file_Flush cached cached_world = (Ok (n, None), w')" and
    f: "\<And>q. file_bytes w' q = (if \<exists>nm. q = fcc_Path (fc_cfg cached) @ slash @ nm \<and> CHR ''/'' \<notin> set nm \<and> HasSuffix nm (cache_suffix cached)
        then None else file_bytes cached_world q)"
    using file_Flush_exact [of cached_world cached 493] by blast
  have "file_bytes cached_world ''/c/p.eks.other.cache'' = Some ''kept''" by code_simp
  then show ?thesis using run f
    by (auto simp: cached_def cache_suffix_def cached_store_def HasSuffix_iff append_eq_Cons_conv Cons_eq_append_conv)
qed

end
