(* ===== verification/Search.thy ===== *)
theory Search
  imports Caches
begin

text \<open>
  The search over all stores (\<^verbatim>\<open>pkg/search.go\<close>, \<^verbatim>\<open>pkg/context_filters.go\<close> and the use \<^verbatim>\<open>Switcher\<close>
  makes of them in \<^verbatim>\<open>pkg/main.go\<close>). A goroutine per store is a program that gives the contexts it
  sends, in order; the goroutines, the channel they share, the \<^verbatim>\<open>WaitGroup\<close> and the closer are a
  step relation over these lists.
\<close>

section \<open>Discovered contexts\<close>

record DiscoveredContext =
  dc_Path :: string
  dc_Name :: string
  dc_Alias :: string
  dc_Tags :: tags
  dc_Store :: "store option"
  dc_Error :: "gerror option"

definition error_result :: "gerror \<Rightarrow> DiscoveredContext" where
  "error_result e = \<lparr>dc_Path = [], dc_Name = [], dc_Alias = [], dc_Tags = [], dc_Store = None, dc_Error = Some e\<rparr>"

text \<open>What the search needs of the YAML library: the decoders and encoders of the files it touches.\<close>

record search_libs =
  sl_um_alias :: "string \<Rightarrow> (string, string) gomap option res"
  sl_um_kube :: "string \<Rightarrow> KubeConfig res"
  sl_um_index :: "string \<Rightarrow> Index option res"
  sl_um_state :: "string \<Rightarrow> IndexState option res"
  sl_enc_index :: "Index \<Rightarrow> string res"
  sl_enc_state :: "IndexState \<Rightarrow> string res"

definition storeAliasesFromTags :: "tags \<Rightarrow> string list" where
  "storeAliasesFromTags ts =
     (let raw = (case mget ts ''aliases'' of None \<Rightarrow> [] | Some v \<Rightarrow> v)
      in if raw = [] then [] else filter (\<lambda>p. p \<noteq> []) (Split raw '',''))"

text \<open>The display aliases of one context: the persistent alias, else the ones of its store, else none.\<close>

definition displayAliases :: "(string, string) gomap \<Rightarrow> string \<Rightarrow> tags \<Rightarrow> string list" where
  "displayAliases contextToAlias contextName ts =
     (let persistentAlias = GetContextForAlias contextName contextToAlias;
          storeAliases = storeAliasesFromTags ts
      in if persistentAlias \<noteq> [] then [persistentAlias]
         else if length storeAliases > 0 then storeAliases else [[]])"

definition emit :: "store \<Rightarrow> (string, string) gomap \<Rightarrow> string \<Rightarrow> tags \<Rightarrow> string \<Rightarrow> DiscoveredContext list" where
  "emit s contextToAlias path ts contextName =
     map (\<lambda>a. \<lparr>dc_Path = path, dc_Name = contextName, dc_Alias = a, dc_Tags = ts, dc_Store = Some s, dc_Error = None\<rparr>)
       (displayAliases contextToAlias contextName ts)"

section \<open>Reading a store from its index\<close>

definition index_contexts :: "store \<Rightarrow> (string, string) gomap \<Rightarrow> SearchIndex \<Rightarrow> DiscoveredContext list" where
  "index_contexts s contextToAlias i = (case GetContent i of (content, tgs) \<Rightarrow>
     concat (map (\<lambda>(contextName, path).
       let tagsForContextName = (case mget tgs contextName of Some t \<Rightarrow> t | None \<Rightarrow> [])
       in emit s contextToAlias path tagsForContextName contextName) content))"

section \<open>Searching a store\<close>

definition LabelKeyClusterName :: string where
  "LabelKeyClusterName = ''gardener.clusters.openmcp.cloud/cluster-name''"

text \<open>The auto alias of a labelled cluster; a failure to load or to write is logged only.\<close>

definition write_auto_aliases :: "search_libs \<Rightarrow> string \<Rightarrow> string \<Rightarrow> string list \<Rightarrow> unit io" where
  "write_auto_aliases L stateDir clusterName contexts =
     tryIO (GetDefaultAlias (sl_um_alias L) stateDir)
       (\<lambda>a. bindIO (foldIO (\<lambda>contextName a. bindIO (WriteAlias clusterName contextName a) (\<lambda>(r, a'). returnIO a')) contexts a)
              (\<lambda>_. returnIO ()))
       (\<lambda>e. returnIO ())"

text \<open>What the loop over the results of a store accumulates: the contexts sent and the two maps for the index.\<close>

record search_acc =
  ac_sent :: "DiscoveredContext list"
  ac_paths :: "(string, string) gomap"
  ac_tags :: "(string, tags) gomap"

definition add_context :: "store \<Rightarrow> (string, string) gomap \<Rightarrow> string \<Rightarrow> tags \<Rightarrow> string \<Rightarrow> search_acc \<Rightarrow> search_acc" where
  "add_context s contextToAlias path ts contextName acc =
     \<lparr>ac_sent = ac_sent acc @ emit s contextToAlias path ts contextName,
      ac_paths = mset contextName path (ac_paths acc),
      ac_tags = (if length ts > 0 then mset contextName ts (ac_tags acc) else ac_tags acc)\<rparr>"

definition send_error :: "gerror \<Rightarrow> search_acc \<Rightarrow> search_acc" where
  "send_error e acc = acc\<lparr>ac_sent := ac_sent acc @ [error_result e]\<rparr>"

definition not_required :: "store \<Rightarrow> bool" where
  "not_required s \<longleftrightarrow> ks_Required (st_GetStoreConfig s) = Some False"

definition live_result ::
    "search_libs \<Rightarrow> string \<Rightarrow> (string, string) gomap \<Rightarrow> store \<Rightarrow> SearchResult \<Rightarrow> search_acc \<Rightarrow> search_acc io" where
  "live_result L stateDir contextToAlias s r acc =
     (case sr_Error r of
        Some e \<Rightarrow> returnIO (if not_required s then acc
          else send_error (Wrapf ''store %q returned an error during the search: %w'' [st_GetID s] e) acc)
      | None \<Rightarrow>
          tryIO (st_GetKubeconfigForPath s (sr_KubeconfigPath r) (sr_Tags r))
            (\<lambda>bytes. tryIO (liftR (GetContextsNamesFromKubeconfig (sl_um_kube L) bytes (st_GetContextPrefix s (sr_KubeconfigPath r))))
               (\<lambda>contexts.
                  bindIO (case mget (sr_Tags r) LabelKeyClusterName of
                      Some clusterName \<Rightarrow> if clusterName \<noteq> [] then write_auto_aliases L stateDir clusterName contexts else returnIO ()
                    | None \<Rightarrow> returnIO ())
                  (\<lambda>_. returnIO (fold (add_context s contextToAlias (sr_KubeconfigPath r) (sr_Tags r)) contexts acc)))
               (\<lambda>e. returnIO (send_error
                  (Wrapf ''failed to get kubeconfig context names for kubeconfig with path %q: %w'' [sr_KubeconfigPath r] e) acc)))
            (\<lambda>e. returnIO acc))"

definition live_results ::
    "search_libs \<Rightarrow> string \<Rightarrow> (string, string) gomap \<Rightarrow> store \<Rightarrow> SearchResult list \<Rightarrow> search_acc io" where
  "live_results L stateDir contextToAlias s rs =
     foldIO (live_result L stateDir contextToAlias s) rs \<lparr>ac_sent = [], ac_paths = [], ac_tags = []\<rparr>"

text \<open>\<^verbatim>\<open>writeIndex\<close> of \<^verbatim>\<open>main.go\<close>: failures are logged, and the state is written only after the index.\<close>

definition index_of :: "store \<Rightarrow> (string, string) gomap \<Rightarrow> (string, tags) gomap \<Rightarrow> Index" where
  "index_of s paths tgs = \<lparr>ix_Kind = st_GetKind s, ix_ContextToPathMapping = paths, ix_ContextToTags = tgs\<rparr>"

definition writeIndex :: "search_libs \<Rightarrow> store \<Rightarrow> SearchIndex \<Rightarrow> (string, string) gomap \<Rightarrow> (string, tags) gomap \<Rightarrow> unit io" where
  "writeIndex L s i ctxToPathMapping ctxToTagsMapping =
     tryIO (WriteIndex (sl_enc_index L) (index_of s ctxToPathMapping ctxToTagsMapping) i)
       (\<lambda>_. bindIO time_Now (\<lambda>now.
          ignoreIO (WriteState (sl_enc_state L) \<lparr>ixs_Kind = st_GetKind s, ixs_LastUpdateTime = now\<rparr> i)))
       (\<lambda>e. returnIO ())"

definition live_search :: "search_libs \<Rightarrow> string \<Rightarrow> (string, string) gomap \<Rightarrow> store \<Rightarrow> SearchIndex \<Rightarrow> DiscoveredContext list io" where
  "live_search L stateDir contextToAlias s i =
     bindIO (st_StartSearch s) (\<lambda>rs.
     bindIO (live_results L stateDir contextToAlias s rs) (\<lambda>acc.
     bindIO (if length (ac_paths acc) > 0 then writeIndex L s i (ac_paths acc) (ac_tags acc) else returnIO ())
       (\<lambda>_. returnIO (ac_sent acc))))"

section \<open>Launching the goroutines\<close>

datatype job = FromIndex store SearchIndex | Live store SearchIndex

fun job_store :: "job \<Rightarrow> store" where
  "job_store (FromIndex s i) = s"
| "job_store (Live s i) = s"

fun run_job :: "search_libs \<Rightarrow> string \<Rightarrow> (string, string) gomap \<Rightarrow> job \<Rightarrow> DiscoveredContext list io" where
  "run_job L stateDir contextToAlias (FromIndex s i) = returnIO (index_contexts s contextToAlias i)"
| "run_job L stateDir contextToAlias (Live s i) = live_search L stateDir contextToAlias s i"

definition shouldReadFromIndex :: "search_libs \<Rightarrow> SearchIndex \<Rightarrow> store \<Rightarrow> Config option \<Rightarrow> bool io" where
  "shouldReadFromIndex L searchIndex s config =
     (if st_GetID s = StoreKindFilesystem @ ''.'' @ ''env-and-flag'' then returnIO False
      else if HasContent searchIndex \<and> HasKind (st_GetKind s) searchIndex
      then ShouldBeUsed (sl_um_state L) config (ks_RefreshIndexAfter (st_GetStoreConfig s)) searchIndex
      else returnIO False)"

text \<open>
  One store of the loop: the jobs launched so far and the count of the \<^verbatim>\<open>WaitGroup\<close>, which starts at
  the number of stores; a store that may fail gives its slot back.
\<close>

definition launch_store ::
    "search_libs \<Rightarrow> Config option \<Rightarrow> string \<Rightarrow> bool \<Rightarrow> bool \<Rightarrow> store \<Rightarrow> job list \<times> nat \<Rightarrow> (job list \<times> nat) io" where
  "launch_store L config stateDir noIndex forceIndex s = (\<lambda>(jobs, wg).
     bindIO (attemptIO (st_VerifyKubeconfigPaths s)) (\<lambda>r. case r of
       Err e \<Rightarrow> if not_required s then returnIO (jobs, wg - 1) else failIO e
     | Panic p \<Rightarrow> liftR (Panic p)
     | Ok _ \<Rightarrow>
         bindIO (NewIndex (sl_um_index L) (st_GetKind s) stateDir (st_GetID s)) (\<lambda>searchIndex.
         bindIO (if noIndex then returnIO False
                 else if forceIndex \<and> HasContent searchIndex \<and> HasKind (st_GetKind s) searchIndex then returnIO True
                 else shouldReadFromIndex L searchIndex s config) (\<lambda>readFromIndex.
           returnIO (jobs @ [if readFromIndex then FromIndex s searchIndex else Live s searchIndex], wg)))))"

definition doSearch ::
    "search_libs \<Rightarrow> store list \<Rightarrow> Config option \<Rightarrow> string \<Rightarrow> bool \<Rightarrow> bool \<Rightarrow>
     ((string, string) gomap \<times> job list \<times> nat) io" where
  "doSearch L stores config stateDir noIndex forceIndex =
     bindIO (GetDefaultAlias (sl_um_alias L) stateDir) (\<lambda>a.
     bindIO (foldIO (launch_store L config stateDir noIndex forceIndex) stores ([], length stores)) (\<lambda>(jobs, wg).
       returnIO (al_content a, jobs, wg)))"

definition DoSearch :: "search_libs \<Rightarrow> store list \<Rightarrow> Config option \<Rightarrow> string \<Rightarrow> bool \<Rightarrow>
    ((string, string) gomap \<times> job list \<times> nat) io" where
  "DoSearch L stores config stateDir noIndex = doSearch L stores config stateDir noIndex False"

definition DoSearchFromIndex :: "search_libs \<Rightarrow> store list \<Rightarrow> Config option \<Rightarrow> string \<Rightarrow>
    ((string, string) gomap \<times> job list \<times> nat) io" where
  "DoSearchFromIndex L stores config stateDir = doSearch L stores config stateDir False True"

section \<open>The channel, the wait group and the closer\<close>

text \<open>
  Each goroutine still has a list to send; the receiver notes who sent what. The wait group counts
  down once per goroutine, the closer closes the channel when it is zero. Sending on a closed
  channel and a negative counter are panics.
\<close>

record 'a chan_state =
  ch_todo :: "'a list list"
  ch_done :: "bool list"
  ch_wg :: nat
  ch_closed :: bool
  ch_recv :: "(nat \<times> 'a) list"
  ch_panicked :: bool

definition chan_start :: "nat \<Rightarrow> 'a list list \<Rightarrow> 'a chan_state" where
  "chan_start wg outs = \<lparr>ch_todo = outs, ch_done = replicate (length outs) False, ch_wg = wg,
     ch_closed = False, ch_recv = [], ch_panicked = False\<rparr>"

inductive chan_step :: "'a chan_state \<Rightarrow> 'a chan_state \<Rightarrow> bool" where
  send: "i < length (ch_todo s) \<Longrightarrow> ch_todo s ! i = x # xs \<Longrightarrow> \<not> ch_closed s \<Longrightarrow>
    chan_step s (s\<lparr>ch_todo := (ch_todo s)[i := xs], ch_recv := ch_recv s @ [(i, x)]\<rparr>)"
| send_closed: "i < length (ch_todo s) \<Longrightarrow> ch_todo s ! i = x # xs \<Longrightarrow> ch_closed s \<Longrightarrow>
    chan_step s (s\<lparr>ch_panicked := True\<rparr>)"
| finish: "i < length (ch_todo s) \<Longrightarrow> ch_todo s ! i = [] \<Longrightarrow> \<not> ch_done s ! i \<Longrightarrow> ch_wg s = Suc n \<Longrightarrow>
    chan_step s (s\<lparr>ch_done := (ch_done s)[i := True], ch_wg := n\<rparr>)"
| finish_negative: "i < length (ch_todo s) \<Longrightarrow> ch_todo s ! i = [] \<Longrightarrow> \<not> ch_done s ! i \<Longrightarrow> ch_wg s = 0 \<Longrightarrow>
    chan_step s (s\<lparr>ch_panicked := True\<rparr>)"
| close: "ch_wg s = 0 \<Longrightarrow> \<not> ch_closed s \<Longrightarrow> chan_step s (s\<lparr>ch_closed := True\<rparr>)"

inductive_cases chan_stepE: "chan_step s s'"

inductive chan_run :: "nat \<Rightarrow> 'a list list \<Rightarrow> nat \<Rightarrow> 'a chan_state \<Rightarrow> bool" for wg :: nat and outs :: "'a list list" where
  start: "chan_run wg outs 0 (chan_start wg outs)"
| more: "chan_run wg outs n s \<Longrightarrow> chan_step s s' \<Longrightarrow> chan_run wg outs (Suc n) s'"

text \<open>What the receiver got from goroutine \<^verbatim>\<open>i\<close>, in order.\<close>

definition received :: "nat \<Rightarrow> 'a chan_state \<Rightarrow> 'a list" where
  "received i s = map snd (filter (\<lambda>p. fst p = i) (ch_recv s))"

section \<open>The channel is closed exactly when everything has been received\<close>

definition chan_inv :: "'a list list \<Rightarrow> nat \<Rightarrow> 'a chan_state \<Rightarrow> bool" where
  "chan_inv outs n s \<longleftrightarrow>
     length (ch_todo s) = length outs \<and> length (ch_done s) = length outs \<and>
     ch_wg s = length (filter Not (ch_done s)) \<and>
     (\<forall>i < length outs. received i s @ ch_todo s ! i = outs ! i) \<and>
     (\<forall>i < length outs. ch_done s ! i \<longrightarrow> ch_todo s ! i = []) \<and>
     (ch_closed s \<longrightarrow> ch_wg s = 0) \<and> \<not> ch_panicked s \<and>
     n + sum_list (map length (ch_todo s)) + ch_wg s + (if ch_closed s then 0 else 1) =
       sum_list (map length outs) + length outs + 1"

lemma filter_Not_update:
  "i < length bs \<Longrightarrow> \<not> bs ! i \<Longrightarrow> Suc (length (filter Not (bs[i := True]))) = length (filter Not bs)"
proof (induction bs arbitrary: i)
  case (Cons b bs)
  then show ?case by (cases i) auto
qed simp

lemma sum_length_update:
  "i < length xss \<Longrightarrow> xss ! i = x # xs \<Longrightarrow>
     Suc (sum_list (map length (xss[i := xs]))) = sum_list (map length xss)"
proof (induction xss arbitrary: i)
  case (Cons ys yss)
  then show ?case by (cases i) auto
qed simp

lemma filter_Not_Nil: "filter Not bs = [] \<Longrightarrow> i < length bs \<Longrightarrow> bs ! i"
  by (metis filter_empty_conv nth_mem)

lemma received_send: "received j (s\<lparr>ch_todo := t, ch_recv := ch_recv s @ [(i, x)]\<rparr>) =
    received j s @ (if i = j then [x] else [])"
  by (simp add: received_def)

lemma received_frame [simp]:
  "received i (s\<lparr>ch_done := d, ch_wg := n\<rparr>) = received i s" "received i (s\<lparr>ch_closed := c\<rparr>) = received i s"
  by (simp_all add: received_def)

lemma chan_inv_all_done:
  assumes "chan_inv outs n s" "ch_wg s = 0" "i < length outs" shows "ch_done s ! i"
proof -
  have "length (filter Not (ch_done s)) = 0" using assms(1,2) unfolding chan_inv_def by metis
  then show ?thesis using assms(1,3) by (intro filter_Not_Nil) (simp_all add: chan_inv_def)
qed

lemma chan_inv_closed: "chan_inv outs n s \<Longrightarrow> ch_closed s \<Longrightarrow> ch_wg s = 0"
  unfolding chan_inv_def by blast

lemma chan_inv_lengths: "chan_inv outs n s \<Longrightarrow> length (ch_todo s) = length outs \<and> length (ch_done s) = length outs"
  unfolding chan_inv_def by blast

lemma chan_inv_start: "chan_inv outs 0 (chan_start (length outs) outs)"
  by (simp add: chan_inv_def chan_start_def received_def)

lemma chan_inv_step:
  assumes "chan_inv outs n s" and "chan_step s s'"
  shows "chan_inv outs (Suc n) s'"
  using assms(2)
proof cases
  case (send i x xs)
  have i: "i < length (ch_todo s)" "i < length outs" using send(2) assms(1) by (simp_all add: chan_inv_def)
  have "received j s' @ ch_todo s' ! j = outs ! j" if "j < length outs" for j
    using assms(1) send i that unfolding send(1) received_send
    by (cases "j = i") (auto simp: chan_inv_def)
  moreover have "ch_done s ! i \<Longrightarrow> False" using assms(1) send i by (auto simp: chan_inv_def)
  ultimately show ?thesis
    using assms(1) send i sum_length_update [OF send(2,3)]
    by (auto simp: chan_inv_def nth_list_update)
next
  case (send_closed i x xs)
  have "ch_done s ! i" using send_closed chan_inv_lengths [OF assms(1)] by (intro chan_inv_all_done [OF assms(1)] chan_inv_closed [OF assms(1)]) simp_all
  then show ?thesis using send_closed assms(1) by (simp add: chan_inv_def)
next
  case (finish i n')
  have "Suc (length (filter Not ((ch_done s)[i := True]))) = length (filter Not (ch_done s))"
    using finish assms(1) by (intro filter_Not_update) (simp_all add: chan_inv_def)
  then show ?thesis using finish assms(1) by (auto simp: chan_inv_def nth_list_update)
next
  case (finish_negative i)
  have "ch_done s ! i" using finish_negative assms(1) by (intro chan_inv_all_done [OF assms(1)]) (simp_all add: chan_inv_def)
  then show ?thesis using finish_negative by simp
next
  case close
  then show ?thesis using assms(1) by (auto simp: chan_inv_def)
qed

lemma chan_run_inv: "chan_run (length outs) outs n s \<Longrightarrow> chan_inv outs n s"
  by (induction rule: chan_run.induct) (auto intro: chan_inv_start chan_inv_step)

text \<open>
  C2. With one wait group slot per goroutine no interleaving sends on a closed channel or drives the
  wait group negative, and when the channel is closed the receiver has, from every goroutine,
  everything it had to send, in its order.
\<close>

theorem search_channel_complete:
  assumes "chan_run (length outs) outs n s"
  shows "\<not> ch_panicked s \<and> (ch_closed s \<longrightarrow> (\<forall>i < length outs. received i s = outs ! i))"
proof -
  have inv: "chan_inv outs n s" by (rule chan_run_inv [OF assms])
  have "received i s = outs ! i" if "ch_closed s" "i < length outs" for i
  proof -
    have "ch_done s ! i" using that by (intro chan_inv_all_done [OF inv] chan_inv_closed [OF inv])
    then show ?thesis using inv that by (auto simp: chan_inv_def)
  qed
  then show ?thesis using inv by (simp add: chan_inv_def)
qed

lemma chan_progress:
  assumes inv: "chan_inv outs n s" and op: "\<not> ch_closed s"
  shows "\<exists>s'. chan_step s s'"
proof (cases "ch_wg s")
  case 0
  then show ?thesis using op chan_step.close by blast
next
  case (Suc m)
  then have "filter Not (ch_done s) \<noteq> []" using inv by (auto simp: chan_inv_def)
  then obtain i where i: "i < length (ch_done s)" "\<not> ch_done s ! i"
    by (auto simp: filter_empty_conv in_set_conv_nth)
  have l: "i < length (ch_todo s)" using i inv by (simp add: chan_inv_def)
  show ?thesis
  proof (cases "ch_todo s ! i")
    case Nil
    then show ?thesis using chan_step.finish [OF l _ i(2) Suc] by blast
  next
    case (Cons x xs)
    then show ?thesis using chan_step.send [OF l _ op] by blast
  qed
qed

text \<open>
  C4. The search ends: a run that has not closed the channel can go on, and no run has more steps
  than there are contexts to send, goroutines to finish and the one close.
\<close>

theorem search_channel_terminates:
  assumes "chan_run (length outs) outs n s"
  shows "n \<le> sum_list (map length outs) + length outs + 1 \<and> (\<not> ch_closed s \<longrightarrow> (\<exists>s'. chan_step s s')) \<and>
     (n = sum_list (map length outs) + length outs + 1 \<longrightarrow> ch_closed s)"
proof -
  have inv: "chan_inv outs n s" by (rule chan_run_inv [OF assms])
  have "n + sum_list (map length (ch_todo s)) + ch_wg s + (if ch_closed s then 0 else 1) =
      sum_list (map length outs) + length outs + 1" using inv by (simp add: chan_inv_def)
  then show ?thesis using chan_progress [OF inv] by (auto split: if_splits)
qed

text \<open>With a slot too many, as when a skipped store keeps its own, the channel is never closed.\<close>

lemma chan_step_wg_excess:
  assumes "chan_run (length outs + Suc k) outs n s"
  shows "\<not> ch_closed s \<and> ch_wg s = length (filter Not (ch_done s)) + Suc k \<and> length (ch_done s) = length outs \<and> length (ch_todo s) = length outs"
  using assms
proof induction
  case start
  then show ?case by (simp add: chan_start_def)
next
  case (more n s s')
  from more.hyps(2) show ?case
  proof cases
    case (finish i n')
    have "Suc (length (filter Not ((ch_done s)[i := True]))) = length (filter Not (ch_done s))"
      using finish more.IH by (intro filter_Not_update) simp_all
    then show ?thesis using finish more.IH by simp
  qed (use more.IH in auto)
qed

section \<open>What is launched\<close>

text \<open>
  An index is fresh when its state file can be read, belongs to an index of this kind, a refresh
  interval is configured, and the interval has not passed since the last update.
\<close>

definition index_fresh :: "search_libs \<Rightarrow> Config option \<Rightarrow> store \<Rightarrow> SearchIndex \<Rightarrow> world \<Rightarrow> bool" where
  "index_fresh L config s i w \<longleftrightarrow>
     faults w OpStat (si_indexStateFilepath i) = None \<and> faults w OpRead (si_indexStateFilepath i) = None \<and>
     (\<exists>bs st r. file_bytes w (si_indexStateFilepath i) = Some bs \<and>
        (if bs = [] then st = zero_index_state else sl_um_state L bs = Ok (Some st)) \<and>
        ixs_Kind st = si_kubeconfigStoreKind i \<and>
        refresh_after config (ks_RefreshIndexAfter (st_GetStoreConfig s)) = Some r \<and>
        clock w < ixs_LastUpdateTime st + r)"

lemma ShouldBeUsed_fresh:
  assumes "ShouldBeUsed (sl_um_state L) config (ks_RefreshIndexAfter (st_GetStoreConfig s)) i w = (Ok b, w')"
  shows "b \<longleftrightarrow> index_fresh L config s i w"
proof -
  let ?p = "si_indexStateFilepath i"
  obtain st where g: "getIndexState (sl_um_state L) i w = (Ok st, w)"
    and b: "b \<longleftrightarrow> (case (st, refresh_after config (ks_RefreshIndexAfter (st_GetStoreConfig s))) of
        (Some s, Some r) \<Rightarrow> ixs_Kind s = si_kubeconfigStoreKind i \<and> clock w < ixs_LastUpdateTime s + r | _ \<Rightarrow> False)"
  proof -
    obtain st w1 where g: "getIndexState (sl_um_state L) i w = (Ok st, w1)"
      using assms by (auto simp: ShouldBeUsed_def bindIO_Ok_iff)
    have "w1 = w"
      using g by (auto simp: getIndexState_def tryIO_apply bindIO_apply wrapIO_apply split: prod.splits res.splits if_splits
        dest!: os_Stat_same os_ReadFile_same)
    then show thesis using that [of st] g assms
      by (auto simp: ShouldBeUsed_def bindIO_apply wrapIO_apply time_Now_def refresh_after_def Let_def split: option.splits if_splits)
  qed
  have mem: "st = Some x \<longleftrightarrow> faults w OpStat ?p = None \<and> faults w OpRead ?p = None \<and>
      (\<exists>bs. file_bytes w ?p = Some bs \<and> (if bs = [] then x = zero_index_state else sl_um_state L bs = Ok (Some x)))" for x
    using g by (auto simp: getIndexState_def tryIO_apply bindIO_apply wrapIO_apply os_Stat_def os_ReadFile_def with_fault_def
      file_bytes_def split: option.splits res.splits fentry.splits if_splits)
  have "index_fresh L config s i w \<longleftrightarrow> (\<exists>x r. st = Some x \<and> ixs_Kind x = si_kubeconfigStoreKind i \<and>
      refresh_after config (ks_RefreshIndexAfter (st_GetStoreConfig s)) = Some r \<and> clock w < ixs_LastUpdateTime x + r)"
    unfolding index_fresh_def mem by blast
  then show ?thesis unfolding b
    by (cases st; cases "refresh_after config (ks_RefreshIndexAfter (st_GetStoreConfig s))") auto
qed

fun job_index :: "job \<Rightarrow> SearchIndex" where
  "job_index (FromIndex s i) = i"
| "job_index (Live s i) = i"

fun from_index :: "job \<Rightarrow> bool" where
  "from_index (FromIndex s i) = True"
| "from_index (Live s i) = False"

text \<open>The choice a goroutine's job stands for: the index that was loaded, and whether it is read.\<close>

definition rightly_chosen :: "search_libs \<Rightarrow> Config option \<Rightarrow> string \<Rightarrow> bool \<Rightarrow> bool \<Rightarrow> job \<Rightarrow> bool" where
  "rightly_chosen L config stateDir noIndex forceIndex j \<longleftrightarrow>
     (\<exists>v0 v. NewIndex (sl_um_index L) (st_GetKind (job_store j)) stateDir (st_GetID (job_store j)) v0 = (Ok (job_index j), v) \<and>
       (from_index j \<longleftrightarrow> \<not> noIndex \<and> HasContent (job_index j) \<and> HasKind (st_GetKind (job_store j)) (job_index j) \<and>
          (forceIndex \<or> st_GetID (job_store j) \<noteq> ''filesystem.env-and-flag'' \<and> index_fresh L config (job_store j) (job_index j) v)))"

definition verified :: "store \<times> world \<Rightarrow> bool" where
  "verified = (\<lambda>(s, v). is_ok (fst (st_VerifyKubeconfigPaths s v)))"

lemma launch_store_Ok:
  assumes "launch_store L config stateDir noIndex forceIndex s (jobs, wg) w = (Ok (jobs', wg'), w')"
  shows "(\<not> verified (s, w) \<and> not_required s \<and> jobs' = jobs \<and> wg' = wg - 1) \<or>
     (verified (s, w) \<and> wg' = wg \<and>
      (\<exists>j. jobs' = jobs @ [j] \<and> job_store j = s \<and> rightly_chosen L config stateDir noIndex forceIndex j))"
proof -
  let ?read = "\<lambda>i. if noIndex then returnIO False
                 else if forceIndex \<and> HasContent i \<and> HasKind (st_GetKind s) i then returnIO True
                 else shouldReadFromIndex L i s config"
  have read: "b \<longleftrightarrow> \<not> noIndex \<and> HasContent i \<and> HasKind (st_GetKind s) i \<and>
         (forceIndex \<or> st_GetID s \<noteq> ''filesystem.env-and-flag'' \<and> index_fresh L config s i w1)"
    if "?read i w1 = (Ok b, w2)" for i w1 w2 b
    using that ShouldBeUsed_fresh [of L config s i w1 b w2]
    by (auto simp: shouldReadFromIndex_def StoreKindFilesystem_def split: if_splits)
  obtain r w1 where v: "st_VerifyKubeconfigPaths s w = (r, w1)" by fastforce
  show ?thesis
  proof (cases r)
    case (Ok u)
    then obtain i b w2 w3 where i: "NewIndex (sl_um_index L) (st_GetKind s) stateDir (st_GetID s) w1 = (Ok i, w2)"
      and b: "?read i w2 = (Ok b, w3)" and j: "jobs' = jobs @ [if b then FromIndex s i else Live s i]" "wg' = wg"
      using assms v unfolding launch_store_def by (fastforce simp: bindIO_apply attemptIO_def bindIO_Ok_iff split: prod.splits res.splits)
    have "rightly_chosen L config stateDir noIndex forceIndex (if b then FromIndex s i else Live s i)"
      unfolding rightly_chosen_def by (rule exI [of _ w1], rule exI [of _ w2]) (use i read [OF b] in auto)
    then show ?thesis using v Ok j by (intro disjI2 conjI exI [of _ "if b then FromIndex s i else Live s i"]) (simp_all add: verified_def)
  qed (use assms v in \<open>auto simp: launch_store_def bindIO_apply attemptIO_def verified_def split: if_splits\<close>)
qed

lemma launch_loop:
  assumes "foldIO (launch_store L config stateDir noIndex forceIndex) stores (jobs, length jobs + length stores) w = (Ok (jobs', wg'), w')"
  shows "wg' = length jobs' \<and> (\<exists>new vs. jobs' = jobs @ new \<and> length vs = length stores \<and>
     map job_store new = map fst (filter verified (zip stores vs)) \<and>
     (\<forall>p \<in> set (zip stores vs). verified p \<or> not_required (fst p)) \<and>
     (\<forall>j \<in> set new. rightly_chosen L config stateDir noIndex forceIndex j))"
  using assms
proof (induction stores arbitrary: jobs w)
  case (Cons s stores)
  obtain j1 g1 w1 where s1: "launch_store L config stateDir noIndex forceIndex s (jobs, length jobs + length (s # stores)) w = (Ok (j1, g1), w1)"
    and s2: "foldIO (launch_store L config stateDir noIndex forceIndex) stores (j1, g1) w1 = (Ok (jobs', wg'), w')"
    using Cons.prems(1) by (auto simp: bindIO_Ok_iff)
  from launch_store_Ok [OF s1] have "g1 = length j1 + length stores" by auto
  from Cons.IH [OF s2 [unfolded this]] obtain new vs where n: "wg' = length jobs'" "jobs' = j1 @ new" "length vs = length stores"
     "map job_store new = map fst (filter verified (zip stores vs))"
     "\<forall>p \<in> set (zip stores vs). verified p \<or> not_required (fst p)"
     "\<forall>j \<in> set new. rightly_chosen L config stateDir noIndex forceIndex j" by blast
  from launch_store_Ok [OF s1] show ?case
  proof (elim disjE conjE exE)
    assume "\<not> verified (s, w)" "not_required s" "j1 = jobs"
    then show ?thesis using n by (intro conjI exI [of _ new] exI [of _ "w # vs"]) simp_all
  next
    fix j assume "verified (s, w)" "j1 = jobs @ [j]" "job_store j = s" "rightly_chosen L config stateDir noIndex forceIndex j"
    then show ?thesis using n by (intro conjI exI [of _ "j # new"] exI [of _ "w # vs"]) simp_all
  qed
qed simp


section \<open>The index written after a search gives the same contexts\<close>

text \<open>What a run found: path, tags and context name, in order; and the three results it determines.\<close>

type_synonym found = "string \<times> tags \<times> string"

definition found_paths :: "found list \<Rightarrow> (string, string) gomap" where
  "found_paths fs = fold (\<lambda>(p, t, n). mset n p) fs []"

definition found_tags :: "found list \<Rightarrow> (string, tags) gomap" where
  "found_tags fs = fold (\<lambda>(p, t, n) m. if length t > 0 then mset n t m else m) fs []"

definition found_sent :: "store \<Rightarrow> (string, string) gomap \<Rightarrow> found list \<Rightarrow> DiscoveredContext list" where
  "found_sent s al fs = concat (map (\<lambda>(p, t, n). emit s al p t n) fs)"

definition acc_of :: "store \<Rightarrow> (string, string) gomap \<Rightarrow> search_acc \<Rightarrow> found list \<Rightarrow> bool" where
  "acc_of s al acc fs \<longleftrightarrow> filter (\<lambda>dc. dc_Error dc = None) (ac_sent acc) = found_sent s al fs \<and>
     ac_paths acc = found_paths fs \<and> ac_tags acc = found_tags fs"

lemma found_append [simp]:
  "found_paths (fs @ [(p, t, n)]) = mset n p (found_paths fs)"
  "found_tags (fs @ [(p, t, n)]) = (if length t > 0 then mset n t (found_tags fs) else found_tags fs)"
  "found_sent s al (fs @ [(p, t, n)]) = found_sent s al fs @ emit s al p t n"
  by (simp_all add: found_paths_def found_tags_def found_sent_def)

lemma emit_no_error: "dc \<in> set (emit s al p t n) \<Longrightarrow> dc_Error dc = None"
  by (auto simp: emit_def)

lemma emit_filter [simp]: "filter (\<lambda>dc. dc_Error dc = None) (emit s al p t n) = emit s al p t n"
  by (rule filter_True) (simp add: emit_no_error)

lemma acc_of_add_contexts:
  "acc_of s al acc fs \<Longrightarrow> \<exists>fs'. acc_of s al (fold (add_context s al p t) ns acc) fs'"
proof (induction ns arbitrary: acc fs)
  case (Cons n ns)
  have "acc_of s al (add_context s al p t n acc) (fs @ [(p, t, n)])"
    using Cons.prems by (simp add: acc_of_def add_context_def)
  from Cons.IH [OF this] show ?case by simp
qed auto

lemma acc_of_send_error: "acc_of s al acc fs \<Longrightarrow> acc_of s al (send_error e acc) fs"
  by (simp add: acc_of_def send_error_def error_result_def)

lemma live_result_acc:
  assumes "live_result L stateDir al s r acc w = (Ok acc', w')" and "acc_of s al acc fs"
  shows "\<exists>fs'. acc_of s al acc' fs'"
proof (cases "sr_Error r")
  case (Some e)
  then show ?thesis using assms acc_of_send_error [OF assms(2)]
    by (cases "not_required s") (auto simp: live_result_def)
next
  case None
  then show ?thesis
    using assms acc_of_send_error [OF assms(2)] acc_of_add_contexts [OF assms(2)]
    by (auto simp: live_result_def tryIO_apply bindIO_apply split: res.splits prod.splits)
qed

lemma live_results_acc:
  assumes "live_results L stateDir al s rs w = (Ok acc, w')"
  shows "\<exists>fs. acc_of s al acc fs"
proof -
  have "\<exists>fs. acc_of s al acc' fs"
    if "foldIO (live_result L stateDir al s) rs a w = (Ok acc', w')" "acc_of s al a fs" for a fs acc' w
    using that
  proof (induction rs arbitrary: a fs w)
    case (Cons r rs)
    obtain a1 w1 where r1: "live_result L stateDir al s r a w = (Ok a1, w1)"
      and r2: "foldIO (live_result L stateDir al s) rs a1 w1 = (Ok acc', w')"
      using Cons.prems(1) by (auto simp: bindIO_Ok_iff)
    from live_result_acc [OF r1 Cons.prems(2)] obtain fs' where "acc_of s al a1 fs'" by blast
    from Cons.IH [OF r2 this] show ?case .
  qed auto
  moreover have "acc_of s al \<lparr>ac_sent = [], ac_paths = [], ac_tags = []\<rparr> []"
    by (simp add: acc_of_def found_paths_def found_tags_def found_sent_def)
  ultimately show ?thesis using assms unfolding live_results_def by blast
qed

lemma found_maps:
  "wf_map (found_paths fs) \<and> (mget (found_paths fs) n = None \<longleftrightarrow> (\<forall>p t. (p, t, n) \<notin> set fs)) \<and>
   (\<forall>p. mget (found_paths fs) n = Some p \<longrightarrow> (\<exists>t. (p, t, n) \<in> set fs)) \<and>
   (\<forall>t. mget (found_tags fs) n = Some t \<longrightarrow> t \<noteq> [] \<and> (\<exists>p. (p, t, n) \<in> set fs)) \<and>
   (mget (found_tags fs) n = None \<longrightarrow> (\<forall>p t. (p, t, n) \<in> set fs \<longrightarrow> t = []))"
proof (induction fs rule: rev_induct)
  case Nil
  then show ?case by (simp add: found_paths_def found_tags_def)
next
  case (snoc f fs)
  obtain p t m where [simp]: "f = (p, t, m)" by (cases f)
  show ?case using snoc by (cases "t = []") auto
qed

definition index_after :: "store \<Rightarrow> search_acc \<Rightarrow> SearchIndex \<Rightarrow> SearchIndex" where
  "index_after s acc i = i\<lparr>si_content := Some (index_of s (ac_paths acc) (ac_tags acc))\<rparr>"

lemma index_contexts_mem:
  assumes "wf_map paths"
  shows "dc \<in> set (index_contexts s al (i\<lparr>si_content := Some (index_of s paths tgs)\<rparr>)) \<longleftrightarrow>
     (\<exists>n p. mget paths n = Some p \<and> dc \<in> set (emit s al p (case mget tgs n of Some t \<Rightarrow> t | None \<Rightarrow> []) n))"
  by (auto simp: index_contexts_def GetContent_def index_of_def wf_map_mem [OF assms, symmetric] Let_def)


section \<open>A context found twice\<close>

definition twice_acc :: "store \<Rightarrow> search_acc" where
  "twice_acc s = fold (\<lambda>(p, t, n). add_context s [] p t n) [(''p1'', [(''k'', ''v'')], ''c''), (''p2'', [], ''c'')]
     \<lparr>ac_sent = [], ac_paths = [], ac_tags = []\<rparr>"

text \<open>
  When a store reports the same context name for two paths, first with tags and then without, the
  index pairs the second path with the tags of the first, a context the search never sent.
\<close>

theorem index_mixes_tags:
  "\<exists>d \<in> set (index_contexts s [] (index_after s (twice_acc s) i)). d \<notin> set (ac_sent (twice_acc s)) \<and>
     dc_Path d = ''p2'' \<and> dc_Tags d = [(''k'', ''v'')]"
  by (simp add: twice_acc_def add_context_def emit_def displayAliases_def GetContextForAlias_def
    storeAliasesFromTags_def index_contexts_def index_after_def GetContent_def index_of_def)

section \<open>Sample stores and witnesses\<close>

definition sample_kubeconfig :: KubeConfig where
  "sample_kubeconfig = \<lparr>kcf_Kind = ''Config'', kcf_APIVersion = ''v1'', kcf_CurrentContext = ''dev'',
     kcf_Contexts = [\<lparr>kcx_Name = ''dev'', kcx_Context = \<lparr>cx_Cluster = ''c1'', cx_User = ''u1''\<rparr>\<rparr>],
     kcf_Clusters = [\<lparr>kcl_Name = ''c1'', kcl_Cluster = \<lparr>cl_CertificateAuthorityData = ''ca'', cl_Server = ''https://s'', cl_Insecure = False\<rparr>\<rparr>],
     kcf_Users = []\<rparr>"

definition sample_um_kube :: "string \<Rightarrow> KubeConfig res" where
  "sample_um_kube bs = (if bs = ''sample'' then Ok sample_kubeconfig else Err (LibErr ''yaml''))"

definition sample_libs :: search_libs where
  "sample_libs = \<lparr>sl_um_alias = (\<lambda>_. Ok None), sl_um_kube = sample_um_kube, sl_um_index = (\<lambda>_. Ok None),
     sl_um_state = (\<lambda>_. Ok None), sl_enc_index = (\<lambda>_. Ok ''i''), sl_enc_state = (\<lambda>_. Ok ''s'')\<rparr>"

definition sample_found :: "SearchResult list" where
  "sample_found = [\<lparr>sr_KubeconfigPath = ''p1'', sr_Tags = [(''aliases'', ''a,b'')], sr_Error = None\<rparr>,
     \<lparr>sr_KubeconfigPath = [], sr_Tags = [], sr_Error = Some (LibErr ''denied'')\<rparr>]"

lemma search_channel_complete_witness:
  "\<exists>s :: nat chan_state. chan_run 1 [[7]] 3 s \<and> ch_closed s \<and> received 0 s = [7]"
proof -
  let ?s0 = "chan_start 1 [[7 :: nat]]"
  let ?s1 = "?s0\<lparr>ch_todo := (ch_todo ?s0)[0 := []], ch_recv := ch_recv ?s0 @ [(0, 7)]\<rparr>"
  let ?s2 = "?s1\<lparr>ch_done := (ch_done ?s1)[0 := True], ch_wg := 0\<rparr>"
  have "chan_run 1 [[7]] (Suc 0) ?s1"
    by (rule chan_run.more [OF chan_run.start], rule chan_step.send) (simp_all add: chan_start_def)
  then have "chan_run 1 [[7]] (Suc (Suc 0)) ?s2"
    by (rule chan_run.more, intro chan_step.finish) (simp_all add: chan_start_def)
  then have "chan_run 1 [[7]] (Suc (Suc (Suc 0))) (?s2\<lparr>ch_closed := True\<rparr>)"
    by (rule chan_run.more, intro chan_step.close) (simp_all add: chan_start_def)
  then have r: "chan_run (length [[7 :: nat]]) [[7]] 3 (?s2\<lparr>ch_closed := True\<rparr>)" by (simp add: numeral_3_eq_3)
  from search_channel_complete [OF this] have "received 0 (?s2\<lparr>ch_closed := True\<rparr>) = [7]" by simp
  then show ?thesis using r by (intro exI [of _ "?s2\<lparr>ch_closed := True\<rparr>"]) simp
qed

lemma search_channel_terminates_witness: "\<exists>s'. chan_step (chan_start 1 [[7 :: nat]]) s'"
  using search_channel_terminates [OF chan_run.start [of "length [[7 :: nat]]" "[[7]]"]] by (simp add: chan_start_def)


definition live_index :: SearchIndex where
  "live_index = \<lparr>si_indexFilepath = ''/c/i'', si_indexStateFilepath = ''/c/i.s'', si_kubeconfigStoreKind = ''eks'', si_content = None\<rparr>"


end
