(* ===== verification/Filters.thy ===== *)
theory Filters
  imports Search
begin

text \<open>
  The filters that prune the discovered contexts before they are shown
  (\<^verbatim>\<open>pkg/context_filters.go\<close>): clusters that a kind store and a kubeconfig file both name, and
  the internal contexts of a kubeconfig that has external ones.
\<close>

section \<open>The identity of a cluster\<close>

type_synonym clusterIdentity = "string \<times> string"   \<comment> \<open>server and CA\<close>

text \<open>Using \<^verbatim>\<open>*dc.Store\<close> of a context without a store is a panic.\<close>

definition store_of :: "DiscoveredContext \<Rightarrow> store res" where
  "store_of dc = (case dc_Store dc of None \<Rightarrow> Panic nil_deref | Some s \<Rightarrow> Ok s)"

definition labelDisplayKeys :: "store \<Rightarrow> string list" where
  "labelDisplayKeys s = (case st_GetShootLabelKeys s of Some ks \<Rightarrow> ks | None \<Rightarrow> [])"

definition current_cluster :: "KubeConfig \<Rightarrow> string" where
  "current_cluster k =
     (let ctxName = (if kcf_CurrentContext k = [] \<and> length (kcf_Contexts k) > 0
                     then kcx_Name (kcf_Contexts k ! 0) else kcf_CurrentContext k)
      in case find (\<lambda>c. kcx_Name c = ctxName) (kcf_Contexts k) of
           None \<Rightarrow> [] | Some c \<Rightarrow> cx_Cluster (kcx_Context c))"

definition cluster_identity :: "KubeConfig \<Rightarrow> clusterIdentity option" where
  "cluster_identity k = map_option (\<lambda>c. (cl_Server (kcl_Cluster c), cl_CertificateAuthorityData (kcl_Cluster c)))
     (find (\<lambda>c. kcl_Name c = current_cluster k) (kcf_Clusters k))"

definition clusterIdentityForContext :: "(string \<Rightarrow> KubeConfig res) \<Rightarrow> DiscoveredContext \<Rightarrow> clusterIdentity option io" where
  "clusterIdentityForContext um dc = bindIO (liftR (store_of dc)) (\<lambda>s.
     tryIO (st_GetKubeconfigForPath s (dc_Path dc) (dc_Tags dc))
       (\<lambda>data. tryIO (liftR (ParseSanitizedKubeconfig um data)) (\<lambda>k. returnIO (cluster_identity k)) (\<lambda>e. returnIO None))
       (\<lambda>e. returnIO None))"

section \<open>Clusters of kind stores\<close>

type_synonym contextFilter = "DiscoveredContext list \<Rightarrow> DiscoveredContext list io"

fun has_kind_store :: "DiscoveredContext list \<Rightarrow> bool res" where
  "has_kind_store [] = Ok False"
| "has_kind_store (dc # dcs) = bindR (store_of dc) (\<lambda>s.
     if st_GetKind s = StoreKindKind then Ok True else has_kind_store dcs)"

fun kind_identities :: "(string \<Rightarrow> KubeConfig res) \<Rightarrow> DiscoveredContext list \<Rightarrow> clusterIdentity list \<Rightarrow> clusterIdentity list io" where
  "kind_identities um [] ids = returnIO ids"
| "kind_identities um (dc # dcs) ids = bindIO (liftR (store_of dc)) (\<lambda>s.
     if st_GetKind s \<noteq> StoreKindKind then kind_identities um dcs ids
     else bindIO (clusterIdentityForContext um dc) (\<lambda>i. case i of
         Some ident \<Rightarrow> kind_identities um dcs (if fst ident \<noteq> [] then ident # ids else ids)
       | None \<Rightarrow> kind_identities um dcs ids))"

fun drop_shadowed :: "(string \<Rightarrow> KubeConfig res) \<Rightarrow> clusterIdentity list \<Rightarrow> DiscoveredContext list \<Rightarrow> DiscoveredContext list \<Rightarrow> DiscoveredContext list io" where
  "drop_shadowed um ids [] result = returnIO result"
| "drop_shadowed um ids (dc # dcs) result = bindIO (liftR (store_of dc)) (\<lambda>s.
     if st_GetKind s = StoreKindFilesystem
     then bindIO (clusterIdentityForContext um dc) (\<lambda>i. case i of
         Some ident \<Rightarrow> if ident \<in> set ids then drop_shadowed um ids dcs result
                        else drop_shadowed um ids dcs (result @ [dc])
       | None \<Rightarrow> drop_shadowed um ids dcs (result @ [dc]))
     else drop_shadowed um ids dcs (result @ [dc]))"

definition filterKindDuplicates :: "(string \<Rightarrow> KubeConfig res) \<Rightarrow> contextFilter" where
  "filterKindDuplicates um contexts = bindIO (liftR (has_kind_store contexts)) (\<lambda>hasKind.
     if \<not> hasKind then returnIO contexts
     else bindIO (kind_identities um contexts []) (\<lambda>ids.
       if length ids = 0 then returnIO contexts else drop_shadowed um ids contexts []))"

section \<open>External contexts\<close>

definition is_external :: "DiscoveredContext \<Rightarrow> bool" where
  "is_external dc = HasSuffix (dc_Name dc) ''-external''"

text \<open>The contexts by path, and the paths in the order they are first seen.\<close>

definition group_step :: "DiscoveredContext \<Rightarrow> string list \<times> (string, DiscoveredContext list) gomap \<Rightarrow>
    string list \<times> (string, DiscoveredContext list) gomap" where
  "group_step dc = (\<lambda>(order, byPath).
     (if dc_Path dc \<notin> set order then order @ [dc_Path dc] else order,
      mset (dc_Path dc) ((case mget byPath (dc_Path dc) of None \<Rightarrow> [] | Some es \<Rightarrow> es) @ [dc]) byPath))"

definition keep_external :: "DiscoveredContext list \<Rightarrow> DiscoveredContext list" where
  "keep_external es = (let externals = filter is_external es
     in if length externals > 0 then externals else es)"

definition filterPreferExternal :: "DiscoveredContext list \<Rightarrow> DiscoveredContext list" where
  "filterPreferExternal contexts = (case fold group_step contexts ([], []) of (order, byPath) \<Rightarrow>
     concat (map (\<lambda>path. keep_external (case mget byPath path of None \<Rightarrow> [] | Some es \<Rightarrow> es)) order))"

section \<open>Running the filters\<close>

definition applyContextFilters :: "contextFilter list \<Rightarrow> contextFilter" where
  "applyContextFilters filters contexts = foldIO (\<lambda>f cs. f cs) filters contexts"

definition contextFilters :: "(string \<Rightarrow> KubeConfig res) \<Rightarrow> contextFilter list" where
  "contextFilters um = [filterKindDuplicates um, \<lambda>cs. returnIO (filterPreferExternal cs)]"

definition ApplyContextFilters :: "(string \<Rightarrow> KubeConfig res) \<Rightarrow> contextFilter" where
  "ApplyContextFilters um contexts = applyContextFilters (contextFilters um) contexts"

section \<open>Preferring external contexts\<close>

definition at_path :: "string \<Rightarrow> DiscoveredContext list \<Rightarrow> DiscoveredContext list" where
  "at_path p ds = filter (\<lambda>d. dc_Path d = p) ds"

lemma at_path_simps [simp]:
  "at_path p [] = []" "at_path p (d # ds) = (if dc_Path d = p then d # at_path p ds else at_path p ds)"
  "at_path p (ds @ es) = at_path p ds @ at_path p es"
  by (simp_all add: at_path_def)

lemma at_path_eq_Nil: "at_path p ds = [] \<longleftrightarrow> p \<notin> dc_Path ` set ds"
  by (auto simp: at_path_def filter_empty_conv)

lemma group_spec:
  "fold group_step ds ([], []) = (order, byPath) \<Longrightarrow>
     distinct order \<and> set order = dc_Path ` set ds \<and>
     (\<forall>p. (case mget byPath p of None \<Rightarrow> [] | Some es \<Rightarrow> es) = at_path p ds)"
proof (induction ds arbitrary: order byPath rule: rev_induct)
  case (snoc d ds)
  obtain o1 b1 where g: "fold group_step ds ([], []) = (o1, b1)" by fastforce
  have step: "group_step d (o1, b1) = (order, byPath)" using snoc.prems g by simp
  then have o: "order = (if dc_Path d \<notin> set o1 then o1 @ [dc_Path d] else o1)"
    and b: "byPath = mset (dc_Path d) ((case mget b1 (dc_Path d) of None \<Rightarrow> [] | Some es \<Rightarrow> es) @ [d]) b1"
    by (simp_all add: group_step_def)
  show ?case using snoc.IH [OF g] by (auto simp: o b)
qed simp

lemma keep_external_simps:
  "set (keep_external ds) \<subseteq> set ds" "keep_external ds = [] \<longleftrightarrow> ds = []"
  "keep_external (keep_external ds) = keep_external ds"
  by (auto simp: keep_external_def Let_def filter_empty_conv)

lemma at_path_keep: "at_path p (keep_external (at_path q ds)) = (if p = q then keep_external (at_path p ds) else [])"
proof -
  have "dc_Path d = q" if "d \<in> set (keep_external (at_path q ds))" for d
    using that keep_external_simps(1) by (fastforce simp: at_path_def)
  then show ?thesis
    by (cases "p = q") (simp_all add: at_path_def [of _ "keep_external _"] filter_id_conv filter_empty_conv)
qed

lemma at_path_concat:
  "distinct ps \<Longrightarrow> at_path p (concat (map (\<lambda>q. keep_external (at_path q ds)) ps)) =
     (if p \<in> set ps then keep_external (at_path p ds) else [])"
  by (induction ps) (auto simp: at_path_keep)

lemma filterPreferExternal_groups:
  obtains ps where "distinct ps" "set ps = dc_Path ` set ds"
    "filterPreferExternal ds = concat (map (\<lambda>q. keep_external (at_path q ds)) ps)"
proof -
  obtain ps b where g: "fold group_step ds ([], []) = (ps, b)" by fastforce
  show ?thesis
    using group_spec [OF g] g by (intro that [of ps]) (simp_all add: filterPreferExternal_def)
qed

lemma at_path_filterPreferExternal: "at_path p (filterPreferExternal ds) = keep_external (at_path p ds)"
proof -
  obtain ps where ps: "distinct ps" "set ps = dc_Path ` set ds"
    "filterPreferExternal ds = concat (map (\<lambda>q. keep_external (at_path q ds)) ps)"
    by (rule filterPreferExternal_groups)
  then show ?thesis
    using at_path_concat [OF ps(1), of p ds] at_path_eq_Nil [of p ds] keep_external_simps(2) [of "at_path p ds"]
    by (cases "p \<in> set ps") simp_all
qed


lemma paths_filterPreferExternal: "dc_Path ` set (filterPreferExternal ds) = dc_Path ` set ds"
proof -
  have "p \<in> dc_Path ` set (filterPreferExternal ds) \<longleftrightarrow> p \<in> dc_Path ` set ds" for p
    using at_path_filterPreferExternal [of p ds] keep_external_simps(2) [of "at_path p ds"]
      at_path_eq_Nil [of p ds] at_path_eq_Nil [of p "filterPreferExternal ds"] by metis
  then show ?thesis by blast
qed

lemma set_filterPreferExternal: "set (filterPreferExternal ds) \<subseteq> set ds"
proof
  fix d assume "d \<in> set (filterPreferExternal ds)"
  then have "d \<in> set (at_path (dc_Path d) (filterPreferExternal ds))" by (simp add: at_path_def)
  then have "d \<in> set (at_path (dc_Path d) ds)"
    using keep_external_simps(1) by (auto simp: at_path_filterPreferExternal)
  then show "d \<in> set ds" by (simp add: at_path_def)
qed

text \<open>
  Per kubeconfig path the filter keeps, in their order, the contexts whose name ends in
  \<^verbatim>\<open>-external\<close> when there are some and all of them otherwise: no path is lost, and filtering
  again changes no path any more.
\<close>

theorem filterPreferExternal_spec:
  "filter (\<lambda>d. dc_Path d = p) (filterPreferExternal ds) =
     (let here = filter (\<lambda>d. dc_Path d = p) ds; ext = filter (\<lambda>d. HasSuffix (dc_Name d) ''-external'') here
      in if ext \<noteq> [] then ext else here) \<and>
   dc_Path ` set (filterPreferExternal ds) = dc_Path ` set ds \<and>
   filter (\<lambda>d. dc_Path d = p) (filterPreferExternal (filterPreferExternal ds)) = filter (\<lambda>d. dc_Path d = p) (filterPreferExternal ds)"
  using at_path_filterPreferExternal [of p ds] at_path_filterPreferExternal [of p "filterPreferExternal ds"]
    paths_filterPreferExternal [of ds] keep_external_simps(3) [of "at_path p ds"]
  by (simp add: at_path_def keep_external_def is_external_def Let_def)

section \<open>Dropping what a kind store shadows\<close>

text \<open>The stores of the contexts are there and answer, for the identity, without changing the world.\<close>

definition identified :: "(string \<Rightarrow> KubeConfig res) \<Rightarrow> (DiscoveredContext \<Rightarrow> clusterIdentity option) \<Rightarrow> DiscoveredContext list \<Rightarrow> bool" where
  "identified um ident ds \<longleftrightarrow> (\<forall>d \<in> set ds. dc_Store d \<noteq> None \<and> (\<forall>w. clusterIdentityForContext um d w = (Ok (ident d), w)))"

definition of_kind :: "StoreKind \<Rightarrow> DiscoveredContext \<Rightarrow> bool" where
  "of_kind k d \<longleftrightarrow> (\<exists>s. dc_Store d = Some s \<and> st_GetKind s = k)"

lemma identified_Cons: "identified um ident (d # ds) \<longleftrightarrow>
    (\<exists>s. dc_Store d = Some s) \<and> (\<forall>w. clusterIdentityForContext um d w = (Ok (ident d), w)) \<and> identified um ident ds"
  by (auto simp: identified_def)

lemma has_kind_store_spec: "identified um ident ds \<Longrightarrow> has_kind_store ds = Ok (\<exists>d \<in> set ds. of_kind StoreKindKind d)"
  by (induction ds) (auto simp: identified_Cons store_of_def of_kind_def)

lemma kind_identities_spec:
  "identified um ident ds \<Longrightarrow> \<exists>ids'. kind_identities um ds ids w = (Ok ids', w) \<and>
     set ids' = set ids \<union> {i. fst i \<noteq> [] \<and> (\<exists>d \<in> set ds. of_kind StoreKindKind d \<and> ident d = Some i)}"
proof (induction ds arbitrary: ids)
  case (Cons d ds)
  obtain s where s: "dc_Store d = Some s" "\<And>w. clusterIdentityForContext um d w = (Ok (ident d), w)" "identified um ident ds"
    using Cons.prems by (auto simp: identified_Cons)
  have k: "of_kind StoreKindKind d \<longleftrightarrow> st_GetKind s = StoreKindKind" using s by (simp add: of_kind_def)
  show ?case
  proof (cases "st_GetKind s = StoreKindKind")
    case False
    then show ?thesis using Cons.IH [OF s(3), of ids] s k by (auto simp: store_of_def bindIO_apply)
  next
    case True
    show ?thesis
    proof (cases "ident d")
      case None
      then show ?thesis using Cons.IH [OF s(3), of ids] s k True by (auto simp: store_of_def bindIO_apply)
    next
      case (Some i)
      show ?thesis using Cons.IH [OF s(3), of "if fst i \<noteq> [] then i # ids else ids"] s k True Some
        by (cases "fst i = []") (auto simp: store_of_def bindIO_apply)
    qed
  qed
qed simp

lemma drop_shadowed_spec:
  "identified um ident ds \<Longrightarrow> drop_shadowed um ids ds result w =
     (Ok (result @ filter (\<lambda>d. \<not> (of_kind StoreKindFilesystem d \<and> (\<exists>i \<in> set ids. ident d = Some i))) ds), w)"
proof (induction ds arbitrary: result)
  case (Cons d ds)
  obtain s where s: "dc_Store d = Some s" "\<And>w. clusterIdentityForContext um d w = (Ok (ident d), w)" "identified um ident ds"
    using Cons.prems by (auto simp: identified_Cons)
  show ?case
    by (cases "st_GetKind s = StoreKindFilesystem"; cases "ident d")
      (use s in \<open>auto simp: Cons.IH [OF s(3)] store_of_def of_kind_def bindIO_apply\<close>)
qed simp

text \<open>
  A filesystem context is dropped exactly when some context of a kind store has the same
  API server, not empty, and the same CA; every other context stays, in its place.
\<close>

theorem filterKindDuplicates_spec:
  assumes "identified um ident ds"
  shows "filterKindDuplicates um ds w = (Ok (filter (\<lambda>d. \<not> (of_kind StoreKindFilesystem d \<and>
     (\<exists>k \<in> set ds. of_kind StoreKindKind k \<and> ident k = ident d \<and> (\<exists>i. ident d = Some i \<and> fst i \<noteq> [])))) ds), w)"
proof -
  have hk: "has_kind_store ds = Ok (\<exists>d \<in> set ds. of_kind StoreKindKind d)" by (rule has_kind_store_spec [OF assms])
  obtain ids where ids: "kind_identities um ds [] w = (Ok ids, w)"
    "set ids = {i. fst i \<noteq> [] \<and> (\<exists>d \<in> set ds. of_kind StoreKindKind d \<and> ident d = Some i)}"
    using kind_identities_spec [OF assms, of "[]" w] by auto
  have cond: "(\<exists>i \<in> set ids. ident d = Some i) \<longleftrightarrow>
      (\<exists>k \<in> set ds. of_kind StoreKindKind k \<and> ident k = ident d \<and> (\<exists>i. ident d = Some i \<and> fst i \<noteq> []))" for d
    unfolding ids(2) by auto
  show ?thesis
  proof (cases "(\<exists>d \<in> set ds. of_kind StoreKindKind d) \<and> ids \<noteq> []")
    case True
    then show ?thesis
      using hk ids(1) drop_shadowed_spec [OF assms, of ids "[]" w] by (simp add: filterKindDuplicates_def bindIO_apply cond)
  next
    case False
    have "set ids = {}"
    proof (cases "ids = []")
      case False
      then show ?thesis using \<open>\<not> (_ \<and> _)\<close> unfolding ids(2) by blast
    qed simp
    then have none: "\<not> (\<exists>i \<in> set ids. ident d = Some i)" for d by simp
    have "filterKindDuplicates um ds w = (Ok ds, w)"
      using False hk ids(1) by (auto simp: filterKindDuplicates_def bindIO_apply)
    then show ?thesis using none unfolding cond by simp
  qed
qed

section \<open>The contract of a filter\<close>

text \<open>
  A filter only removes: what it returns was there and is not returned more often, and, for each path
  with a context that must stay, some context remains.
\<close>

locale context_filter =
  fixes f :: contextFilter
  assumes only_removes: "f ds w = (Ok es, w') \<Longrightarrow> d \<in> set es \<Longrightarrow> d \<in> set ds"
    and keeps_path: "f ds w = (Ok es, w') \<Longrightarrow> d \<in> set ds \<Longrightarrow> \<not> of_kind StoreKindFilesystem d \<Longrightarrow>
      \<exists>d' \<in> set es. dc_Path d' = dc_Path d"
    and keeps_others: "f ds w = (Ok es, w') \<Longrightarrow> d \<in> set ds \<Longrightarrow> \<not> of_kind StoreKindFilesystem d \<Longrightarrow> is_external d \<Longrightarrow> d \<in> set es"
begin

lemma Ball_kept: "f ds w = (Ok es, w') \<Longrightarrow> \<forall>d \<in> set ds. P d \<Longrightarrow> \<forall>d \<in> set es. P d"
  using only_removes by blast

end

lemma drop_shadowed_mem:
  "drop_shadowed um ids ds result w = (Ok es, w') \<Longrightarrow>
     set es \<subseteq> set result \<union> set ds \<and> set result \<union> {d \<in> set ds. \<not> of_kind StoreKindFilesystem d} \<subseteq> set es"
proof (induction ds arbitrary: result w)
  case (Cons d ds)
  obtain s where s: "dc_Store d = Some s"
    using Cons.prems by (cases "dc_Store d") (simp_all add: store_of_def bindIO_apply)
  show ?case
  proof (cases "st_GetKind s = StoreKindFilesystem")
    case True
    then have k: "of_kind StoreKindFilesystem d" using s by (simp add: of_kind_def)
    obtain i w1 where "clusterIdentityForContext um d w = (Ok i, w1)"
      "(case i of Some ident \<Rightarrow> if ident \<in> set ids then drop_shadowed um ids ds result
                        else drop_shadowed um ids ds (result @ [d])
       | None \<Rightarrow> drop_shadowed um ids ds (result @ [d])) w1 = (Ok es, w')"
      using Cons.prems s True by (auto simp: store_of_def bindIO_Ok_iff)
    then have "drop_shadowed um ids ds result w1 = (Ok es, w') \<or> drop_shadowed um ids ds (result @ [d]) w1 = (Ok es, w')"
      by (cases i) (auto split: if_splits)
    then show ?thesis using Cons.IH k by fastforce
  next
    case False
    then have "drop_shadowed um ids ds (result @ [d]) w = (Ok es, w')"
      using Cons.prems s by (simp add: store_of_def bindIO_apply)
    from Cons.IH [OF this] show ?thesis by auto
  qed
qed simp

lemma filterKindDuplicates_mem:
  assumes "filterKindDuplicates um ds w = (Ok es, w')"
  shows "set es \<subseteq> set ds \<and> {d \<in> set ds. \<not> of_kind StoreKindFilesystem d} \<subseteq> set es"
  using assms drop_shadowed_mem [of um _ ds "[]" _ es w']
  by (auto simp: filterKindDuplicates_def bindIO_Ok_iff split: if_splits)

interpretation kinds: context_filter "filterKindDuplicates um"
  by unfold_locales (use filterKindDuplicates_mem in blast)+

interpretation external: context_filter "\<lambda>ds. returnIO (filterPreferExternal ds)"
proof unfold_locales
  fix ds es w w' d
  assume r: "returnIO (filterPreferExternal ds) w = (Ok es, w')"
  then have es: "es = filterPreferExternal ds" by simp
  show "d \<in> set es \<Longrightarrow> d \<in> set ds" using set_filterPreferExternal es by blast
  assume d: "d \<in> set ds" "\<not> of_kind StoreKindFilesystem d"
  show "\<exists>d' \<in> set es. dc_Path d' = dc_Path d" using paths_filterPreferExternal [of ds] es d by (metis image_iff)
  assume "is_external d"
  then have "d \<in> set (keep_external (at_path (dc_Path d) ds))"
    using d by (auto simp: keep_external_def at_path_def Let_def filter_empty_conv)
  then show "d \<in> set es" using at_path_filterPreferExternal [of "dc_Path d" ds] es by (metis at_path_def mem_Collect_eq set_filter)
qed

lemma ApplyContextFilters_run:
  "ApplyContextFilters um ds w = (Ok es, w') \<longleftrightarrow>
     (\<exists>xs. filterKindDuplicates um ds w = (Ok xs, w') \<and> es = filterPreferExternal xs)"
  by (auto simp: ApplyContextFilters_def applyContextFilters_def contextFilters_def bindIO_Ok_iff)

interpretation all: context_filter "ApplyContextFilters um"
proof unfold_locales
  fix ds es w w' d
  assume "ApplyContextFilters um ds w = (Ok es, w')"
  then obtain xs where xs: "filterKindDuplicates um ds w = (Ok xs, w')" and es: "returnIO (filterPreferExternal xs) w' = (Ok es, w')"
    by (auto simp: ApplyContextFilters_run)
  show "d \<in> set es \<Longrightarrow> d \<in> set ds" using kinds.only_removes [OF xs] external.only_removes [OF es] by blast
  assume d: "d \<in> set ds" "\<not> of_kind StoreKindFilesystem d"
  then have "d \<in> set xs" using filterKindDuplicates_mem [OF xs] by blast
  then show "\<exists>d' \<in> set es. dc_Path d' = dc_Path d" "is_external d \<Longrightarrow> d \<in> set es"
    using external.keeps_path [OF es] external.keeps_others [OF es] d by blast+
qed

text \<open>
  C12. What is shown was discovered; for every context that is not of a filesystem store some context of
  its path is still shown, and it is shown itself when its name ends in \<^verbatim>\<open>-external\<close>.
\<close>

theorem ApplyContextFilters_sound:
  assumes "ApplyContextFilters um ds w = (Ok es, w')"
  shows "set es \<subseteq> set ds \<and>
     (\<forall>d \<in> set ds. \<not> of_kind StoreKindFilesystem d \<longrightarrow>
        (\<exists>d' \<in> set es. dc_Path d' = dc_Path d) \<and> (HasSuffix (dc_Name d) ''-external'' \<longrightarrow> d \<in> set es))"
  using all.only_removes [OF assms] all.keeps_path [OF assms] all.keeps_others [OF assms] unfolding is_external_def by blast

section \<open>Witnesses\<close>

definition seen_in :: "StoreKind \<Rightarrow> string \<Rightarrow> string \<Rightarrow> DiscoveredContext" where
  "seen_in k path name = \<lparr>dc_Path = path, dc_Name = name, dc_Alias = [], dc_Tags = [],
     dc_Store = Some (cached_store\<lparr>st_GetKind := k\<rparr>), dc_Error = None\<rparr>"

lemma filterKindDuplicates_spec_witness:
  "filterKindDuplicates sample_um_kube [seen_in ''filesystem'' ''f'' ''kind-x'', seen_in ''kind'' ''x'' ''kind-x''] cached_world =
     (Ok [seen_in ''kind'' ''x'' ''kind-x''], cached_world)"
proof -
  let ?ds = "[seen_in ''filesystem'' ''f'' ''kind-x'', seen_in ''kind'' ''x'' ''kind-x'']"
  have "identified sample_um_kube (\<lambda>_. Some (''https://s'', ''ca'')) ?ds"
    by (simp add: identified_def seen_in_def clusterIdentityForContext_def store_of_def bindIO_apply tryIO_apply cached_store_def
      ParseSanitizedKubeconfig_def sample_um_kube_def sample_kubeconfig_def redactUserCredentials_def cluster_identity_def
      current_cluster_def)
  from filterKindDuplicates_spec [OF this, of cached_world] show ?thesis by (simp add: of_kind_def seen_in_def go_defs)
qed

lemma ApplyContextFilters_sound_witness:
  "\<exists>es w'. ApplyContextFilters sample_um_kube [seen_in ''eks'' ''p'' ''a-internal'', seen_in ''eks'' ''p'' ''a-external''] cached_world = (Ok es, w') \<and>
     seen_in ''eks'' ''p'' ''a-external'' \<in> set es"
proof -
  let ?ds = "[seen_in ''eks'' ''p'' ''a-internal'', seen_in ''eks'' ''p'' ''a-external'']"
  have "has_kind_store ?ds = Ok False" by (simp add: seen_in_def store_of_def go_defs)
  then have "ApplyContextFilters sample_um_kube ?ds cached_world = (Ok (filterPreferExternal ?ds), cached_world)"
    by (simp add: ApplyContextFilters_run filterKindDuplicates_def bindIO_apply del: has_kind_store.simps)
  from ApplyContextFilters_sound [OF this] this show ?thesis
    by (simp add: of_kind_def seen_in_def go_defs HasSuffix_iff)
qed

end
