(* ===== verification/MergeDefault.thy ===== *)
theory MergeDefault
  imports KubeFiles
begin

text \<open>
  Merging a kubeconfig into another (\<^verbatim>\<open>pkg/subcommands/merge-to-default/merge.go\<close>): which file
  is the target, the upsert of named entries, and the write.
\<close>

section \<open>The operations\<close>

record merge_result =
  mr_Context :: string
  mr_Destination :: string

definition nodeValue :: "ynode \<Rightarrow> string \<Rightarrow> ynode option res" where
  "nodeValue mapNode key =
     (if Kind mapNode \<noteq> MappingNode then Ok None else value_at (Content mapNode) key)"

definition scalarValue :: "ynode \<Rightarrow> string \<Rightarrow> string res" where
  "scalarValue mapNode key = mapR (\<lambda>n. case n of None \<Rightarrow> [] | Some x \<Rightarrow> Value x) (nodeValue mapNode key)"

text \<open>\<^verbatim>\<open>setScalar\<close> looks at the content whatever the kind of the node.\<close>

definition setScalar :: "string \<Rightarrow> string \<Rightarrow> ynode \<Rightarrow> ynode res" where
  "setScalar key v mapNode = bindR (value_at (Content mapNode) key) (\<lambda>found.
     case found of
       Some x \<Rightarrow> Ok (update_at key (set_Value v) mapNode)
     | None \<Rightarrow> Ok (append_pair key (str_node v) mapNode))"

text \<open>The inner loop of \<^verbatim>\<open>mergeSection\<close>: replace the first entry of that name, if there is one.\<close>

fun replace_entry :: "string \<Rightarrow> ynode \<Rightarrow> ynode list \<Rightarrow> ynode list option res" where
  "replace_entry srcName srcEntry [] = Ok None"
| "replace_entry srcName srcEntry (d # ds) = bindR (nodeValue d ''name'') (\<lambda>dstName.
     if (case dstName of None \<Rightarrow> False | Some n \<Rightarrow> Value n = srcName)
     then Ok (Some (srcEntry # ds))
     else mapR (map_option ((#) d)) (replace_entry srcName srcEntry ds))"

definition upsert_entry :: "ynode \<Rightarrow> ynode list \<Rightarrow> ynode list res" where
  "upsert_entry srcEntry ds = bindR (nodeValue srcEntry ''name'') (\<lambda>srcName.
     case srcName of
       None \<Rightarrow> Ok ds
     | Some n \<Rightarrow> mapR (\<lambda>r. case r of None \<Rightarrow> ds @ [srcEntry] | Some ds' \<Rightarrow> ds')
         (replace_entry (Value n) srcEntry ds))"

definition mergeSection :: "ynode \<Rightarrow> string \<Rightarrow> ynode \<Rightarrow> ynode res" where
  "mergeSection srcRoot section_key dstRoot = bindR (nodeValue srcRoot section_key) (\<lambda>srcSeq.
     case srcSeq of
       None \<Rightarrow> Ok dstRoot
     | Some s \<Rightarrow>
         if Kind s \<noteq> SequenceNode then Ok dstRoot
         else bindR (nodeValue dstRoot section_key) (\<lambda>dstSeq.
           let seqNode = YNode SequenceNode ''!!seq'' [] [];
               dstRoot1 = (if dstSeq = None then append_pair section_key seqNode dstRoot else dstRoot);
               dst = (case dstSeq of None \<Rightarrow> seqNode | Some d \<Rightarrow> d)
           in mapR (\<lambda>c. update_at section_key (set_Content c) dstRoot1)
                (foldR upsert_entry (Content s) (Content dst))))"

definition mergeKubeconfigs ::
    "(string \<Rightarrow> ynode res) \<Rightarrow> (ynode \<Rightarrow> string res) \<Rightarrow> string \<Rightarrow> string \<Rightarrow> string res" where
  "mergeKubeconfigs um marshal dstBytes srcBytes =
     (case um dstBytes of
        Panic p \<Rightarrow> Panic p
      | Err e \<Rightarrow> Err (Errorf ''invalid dst kubeconfig YAML'' [])
      | Ok dstDoc \<Rightarrow>
          (case Content dstDoc of
             [] \<Rightarrow> Err (Errorf ''invalid dst kubeconfig YAML'' [])
           | dstRoot # dstRest \<Rightarrow>
               (case um srcBytes of
                  Panic p \<Rightarrow> Panic p
                | Err e \<Rightarrow> Err (Errorf ''invalid src kubeconfig YAML'' [])
                | Ok srcDoc \<Rightarrow>
                    (case Content srcDoc of
                       [] \<Rightarrow> Err (Errorf ''invalid src kubeconfig YAML'' [])
                     | srcRoot # srcRest \<Rightarrow>
                         bindR (foldR (mergeSection srcRoot) [''clusters'', ''contexts'', ''users''] dstRoot) (\<lambda>root1.
                         bindR (scalarValue srcRoot ''current-context'') (\<lambda>cc.
                         bindR (if cc \<noteq> [] then setScalar ''current-context'' cc root1 else Ok root1) (\<lambda>root2.
                           marshal (set_Content (root2 # dstRest) dstDoc))))))))"

definition isKswitchTmp :: "world \<Rightarrow> string \<Rightarrow> bool" where
  "isKswitchTmp w path =
     (let tmpDir = TemporaryKubeconfigDir w
      in length path > length tmpDir \<and> take (length tmpDir) path = tmpDir)"

definition defaultKubeconfigPath :: "world \<Rightarrow> string" where
  "defaultKubeconfigPath w = JoinPath [getenv w ''HOME'', ''.kube'', ''config'']"

definition ResolveWriteTarget :: "string io" where
  "ResolveWriteTarget = (\<lambda>w.
     let kc = getenv w ''KUBECONFIG''
     in (Ok (if kc \<noteq> [] \<and> \<not> isKswitchTmp w kc then kc else defaultKubeconfigPath w), w))"

definition empty_kubeconfig :: string where
  "empty_kubeconfig = concat (map (\<lambda>l. l @ [CHR 0x0A])
     [''apiVersion: v1'', ''kind: Config'', ''clusters: []'', ''contexts: []'', ''users: []''])"

definition ensureDefaultExists :: "string \<Rightarrow> unit io" where
  "ensureDefaultExists path = tryIO (os_Stat path) (\<lambda>_. returnIO ()) (\<lambda>e.
     if IsNotExist e
     then bindIO (os_MkdirAll (DirPath path) 448) (\<lambda>_. os_WriteFile path empty_kubeconfig 384)
     else returnIO ())"

definition MergeDataToTarget ::
    "(string \<Rightarrow> ynode res) \<Rightarrow> (ynode \<Rightarrow> string res) \<Rightarrow> string \<Rightarrow> string \<Rightarrow> merge_result io" where
  "MergeDataToTarget um marshal srcData targetPath =
     bindIO (ensureDefaultExists targetPath) (\<lambda>_.
     bindIO (wrapIO ''failed to read %s: %w'' [targetPath] (os_ReadFile targetPath)) (\<lambda>dstBytes.
     bindIO (wrapIO ''failed to merge kubeconfigs: %w'' [] (liftR (mergeKubeconfigs um marshal dstBytes srcData))) (\<lambda>merged.
     bindIO (wrapIO ''failed to write %s: %w'' [targetPath] (os_WriteFile targetPath merged 384)) (\<lambda>_.
     bindIO (liftR (case um srcData of
         Ok srcDoc \<Rightarrow> (case Content srcDoc of [] \<Rightarrow> Ok [] | root # _ \<Rightarrow> scalarValue root ''current-context'')
       | Err e \<Rightarrow> Ok []
       | Panic p \<Rightarrow> Panic p)) (\<lambda>ctx.
     returnIO \<lparr>mr_Context = ctx, mr_Destination = targetPath\<rparr>)))))"

definition MergeToDefault ::
    "(string \<Rightarrow> ynode res) \<Rightarrow> (ynode \<Rightarrow> string res) \<Rightarrow> merge_result io" where
  "MergeToDefault um marshal =
     bindIO (wrapIO ''failed to load current KUBECONFIG: %w'' [] (LoadCurrentKubeconfig um)) (\<lambda>src.
     bindIO (liftR (GetBytes marshal src)) (\<lambda>srcBytes.
     bindIO ResolveWriteTarget (MergeDataToTarget um marshal srcBytes)))"

section \<open>The upsert of named entries\<close>

lemma nodeValue_valueOf: "nodeValue = valueOf"
  by (simp add: nodeValue_def valueOf_def fun_eq_iff)

definition entry_named :: "string \<Rightarrow> ynode list \<Rightarrow> ynode option" where
  "entry_named name cs = List.find (\<lambda>c. node_name c = Some name) cs"

text \<open>The specification of one upsert.\<close>

fun upsert :: "string \<Rightarrow> ynode \<Rightarrow> ynode list \<Rightarrow> ynode list" where
  "upsert name e [] = [e]"
| "upsert name e (d # ds) = (if node_name d = Some name then e # ds else d # upsert name e ds)"

lemma upsert_entry_wf:
  assumes "wf_node e" "list_all wf_node ds"
  shows "upsert_entry e ds = Ok (case node_name e of None \<Rightarrow> ds | Some n \<Rightarrow> upsert n e ds)"
proof -
  have r: "mapR (\<lambda>r. case r of None \<Rightarrow> ds @ [e] | Some ds' \<Rightarrow> ds') (replace_entry n e ds) = Ok (upsert n e ds)" for n
  proof -
    have "replace_entry n e ds = Ok (if Some n \<in> node_name ` set ds then Some (upsert n e ds) else None) \<and>
        (Some n \<notin> node_name ` set ds \<longrightarrow> upsert n e ds = ds @ [e])"
      using assms(2) by (induction ds) (auto simp: nodeValue_valueOf valueOf_wf node_name_def split: option.splits)
    then show ?thesis by (auto split: option.splits)
  qed
  show ?thesis
    using assms(1) r by (cases "field e ''name''") (simp_all add: upsert_entry_def nodeValue_valueOf valueOf_wf node_name_def)
qed

definition merge_entries :: "ynode list \<Rightarrow> ynode list \<Rightarrow> ynode list" where
  "merge_entries src dst = fold (\<lambda>e ds. case node_name e of None \<Rightarrow> ds | Some n \<Rightarrow> upsert n e ds) src dst"

lemma set_upsert: "set (upsert n e ds) \<subseteq> insert e (set ds)"
  by (induction ds) auto

lemma upsert_wf: "wf_node e \<Longrightarrow> list_all wf_node ds \<Longrightarrow> list_all wf_node (upsert n e ds)"
  using set_upsert [of n e ds] by (auto simp: list_all_iff)

lemma foldR_upsert:
  "list_all wf_node src \<Longrightarrow> list_all wf_node dst \<Longrightarrow>
     foldR upsert_entry src dst = Ok (merge_entries src dst) \<and> list_all wf_node (merge_entries src dst)"
  by (induction src arbitrary: dst) (auto simp: merge_entries_def upsert_entry_wf upsert_wf split: option.splits)

lemma entry_named_upsert:
  "node_name e = Some n \<Longrightarrow> entry_named m (upsert n e ds) = (if m = n then Some e else entry_named m ds)"
  by (induction ds) (auto simp: entry_named_def)

lemma entry_named_append: "entry_named n (xs @ ys) = (case entry_named n xs of Some e \<Rightarrow> Some e | None \<Rightarrow> entry_named n ys)"
  by (induction xs) (auto simp: entry_named_def)

lemma entry_named_merge:
  "entry_named n (merge_entries src dst) =
     (case entry_named n (rev src) of Some e \<Rightarrow> Some e | None \<Rightarrow> entry_named n dst)"
proof (induction src arbitrary: dst)
  case (Cons e src)
  have m: "merge_entries (e # src) dst =
     merge_entries src (case node_name e of None \<Rightarrow> dst | Some n \<Rightarrow> upsert n e dst)"
    by (simp add: merge_entries_def)
  show ?case
    by (cases "node_name e"; cases "entry_named n (rev src)")
      (auto simp: m Cons entry_named_append entry_named_upsert, auto simp: entry_named_def)
qed (simp add: merge_entries_def entry_named_def)

definition distinct_names :: "ynode list \<Rightarrow> bool" where
  "distinct_names cs \<longleftrightarrow> distinct (List.map_filter node_name cs)"

lemma map_filter_upsert:
  "node_name e = Some n \<Longrightarrow> List.map_filter node_name (upsert n e ds) =
     (if n \<in> set (List.map_filter node_name ds) then List.map_filter node_name ds
      else List.map_filter node_name ds @ [n])"
  by (induction ds) (auto simp: List.map_filter_simps split: option.splits)

lemma distinct_merge: "distinct_names dst \<Longrightarrow> distinct_names (merge_entries src dst)"
  unfolding distinct_names_def merge_entries_def
  by (induction src arbitrary: dst) (auto simp: map_filter_upsert split: option.splits)

lemma upsert_same: "entry_named n ds = Some e \<Longrightarrow> upsert n e ds = ds"
  by (induction ds) (auto simp: entry_named_def split: if_splits)

section \<open>Merging one section\<close>

definition section_of :: "string \<Rightarrow> ynode \<Rightarrow> ynode list" where
  "section_of s n = (case field n s of Some x \<Rightarrow> if Kind x = SequenceNode then Content x else [] | None \<Rightarrow> [])"

definition section_ok :: "string \<Rightarrow> ynode \<Rightarrow> bool" where
  "section_ok s n \<longleftrightarrow> (case field n s of None \<Rightarrow> True | Some x \<Rightarrow> Kind x = SequenceNode)"

lemma wf_node_Content: "wf_node x \<Longrightarrow> list_all wf_node (Content x)"
  by (cases x) simp

lemma section_of_wf: "wf_node n \<Longrightarrow> list_all wf_node (section_of s n)"
  using wf_field [of n s] by (auto simp: section_of_def wf_node_Content split: option.splits)

lemma mergeSection_wf:
  assumes src: "wf_root src" and dst: "wf_root dst" and ok: "section_ok s dst"
  shows "\<exists>r. mergeSection src s dst = Ok r \<and> wf_root r \<and> section_ok s r \<and>
     section_of s r = merge_entries (section_of s src) (section_of s dst) \<and>
     (\<forall>s'. s' \<noteq> s \<longrightarrow> field r s' = field dst s')"
proof -
  have ws: "wf_node src" "Kind src = MappingNode" "wf_node dst" "Kind dst = MappingNode"
    using src dst by (auto simp: wf_root_def)
  show ?thesis
  proof (cases "\<exists>x. field src s = Some x \<and> Kind x = SequenceNode")
    case False
    then have "section_of s src = []" by (auto simp: section_of_def split: option.splits)
    moreover have "mergeSection src s dst = Ok dst"
      using False ws by (auto simp: mergeSection_def nodeValue_valueOf valueOf_wf split: option.splits)
    ultimately show ?thesis using dst ok by (simp add: merge_entries_def)
  next
    case True
    then obtain x where x: "field src s = Some x" "Kind x = SequenceNode" by blast
    define seqn where "seqn = YNode SequenceNode ''!!seq'' [] []"
    define d1 where "d1 = (if field dst s = None then append_pair s seqn dst else dst)"
    define d where "d = (case field dst s of None \<Rightarrow> seqn | Some y \<Rightarrow> y)"
    let ?c = "merge_entries (section_of s src) (section_of s dst)"
    let ?r = "update_at s (set_Content ?c) d1"
    have d1: "wf_node d1" "Kind d1 = MappingNode" "field d1 s = Some d" "\<And>s'. s' \<noteq> s \<Longrightarrow> field d1 s' = field dst s'"
      using ws by (auto simp: d1_def d_def seqn_def wf_append_pair field_append_pair split: option.splits)
    have d: "Kind d = SequenceNode" "Content d = section_of s dst"
      using ok by (auto simp: d_def seqn_def section_ok_def section_of_def split: option.splits)
    have c: "foldR upsert_entry (Content x) (Content d) = Ok ?c" "list_all wf_node ?c"
      using foldR_upsert [OF section_of_wf [OF ws(1), of s] section_of_wf [OF ws(3), of s]] x d
      by (auto simp: section_of_def [of s src])
    have "mergeSection src s dst = Ok ?r"
      using ws x c(1) by (cases "field dst s")
        (simp_all add: mergeSection_def nodeValue_valueOf valueOf_wf Let_def d1_def d_def seqn_def)
    moreover have "wf_root ?r"
      using d1 d c(2) by (auto simp: wf_root_def intro!: wf_update_at wf_Content)
    moreover have "field ?r s = Some (set_Content ?c d)" "\<And>s'. s' \<noteq> s \<Longrightarrow> field ?r s' = field dst s'"
      using d1 by (simp_all add: field_update_at)
    ultimately show ?thesis using d(1) by (intro exI [of _ ?r]) (simp add: section_ok_def section_of_def)
  qed
qed

text \<open>
  C20. \<^verbatim>\<open>mergeKubeconfigs\<close> on two well-formed files whose target sections are sequences or missing:
  in clusters, contexts and users a name of the source resolves to the source's (last) entry and
  any other name to the target's entry, distinct names stay distinct, the current context is
  the source's unless that is empty, and every other field of the target is kept.
\<close>

theorem mergeKubeconfigs_spec:
  assumes "um dstB = Ok dstDoc" "Content dstDoc = dst # rest" "um srcB = Ok srcDoc" "Content srcDoc = src # rest'"
    and "wf_root dst" "wf_root src"
    and ok: "\<And>s. s \<in> {''clusters'', ''contexts'', ''users''} \<Longrightarrow> section_ok s dst"
  shows "\<exists>root. mergeKubeconfigs um marshal dstB srcB = marshal (set_Content (root # rest) dstDoc) \<and> wf_root root \<and>
     (\<forall>s \<in> {''clusters'', ''contexts'', ''users''}.
        (\<forall>n. entry_named n (section_of s root) =
          (case entry_named n (rev (section_of s src)) of Some e \<Rightarrow> Some e | None \<Rightarrow> entry_named n (section_of s dst))) \<and>
        (distinct_names (section_of s dst) \<longrightarrow> distinct_names (section_of s root))) \<and>
     get_field root ''current-context'' =
       (case get_field src ''current-context'' of None \<Rightarrow> get_field dst ''current-context''
        | Some cc \<Rightarrow> if cc = [] then get_field dst ''current-context'' else Some cc) \<and>
     (\<forall>f. f \<notin> {''clusters'', ''contexts'', ''users'', ''current-context''} \<longrightarrow> field root f = field dst f)"
proof -
  obtain r1 where r1: "mergeSection src ''clusters'' dst = Ok r1" "wf_root r1"
    "section_of ''clusters'' r1 = merge_entries (section_of ''clusters'' src) (section_of ''clusters'' dst)"
    "\<And>f. f \<noteq> ''clusters'' \<Longrightarrow> field r1 f = field dst f"
    using mergeSection_wf [OF assms(6,5) ok, of "''clusters''"] by auto
  have ok1: "section_ok ''contexts'' r1" using ok [of "''contexts''"] r1(4) by (simp add: section_ok_def)
  obtain r2 where r2: "mergeSection src ''contexts'' r1 = Ok r2" "wf_root r2"
    "section_of ''contexts'' r2 = merge_entries (section_of ''contexts'' src) (section_of ''contexts'' r1)"
    "\<And>f. f \<noteq> ''contexts'' \<Longrightarrow> field r2 f = field r1 f"
    using mergeSection_wf [OF assms(6) r1(2) ok1] by auto
  have ok2: "section_ok ''users'' r2" using ok [of "''users''"] r1(4) r2(4) by (simp add: section_ok_def)
  obtain r3 where r3: "mergeSection src ''users'' r2 = Ok r3" "wf_root r3"
    "section_of ''users'' r3 = merge_entries (section_of ''users'' src) (section_of ''users'' r2)"
    "\<And>f. f \<noteq> ''users'' \<Longrightarrow> field r3 f = field r2 f"
    using mergeSection_wf [OF assms(6) r2(2) ok2] by auto
  let ?cc = "case get_field src ''current-context'' of None \<Rightarrow> [] | Some v \<Rightarrow> v"
  let ?root = "if ?cc \<noteq> [] then set_field ''current-context'' ?cc r3 else r3"
  have cc: "scalarValue src ''current-context'' = Ok ?cc"
    using assms(6) by (auto simp: scalarValue_def nodeValue_valueOf wf_root_def valueOf_wf get_field_def split: option.splits)
  have set: "setScalar ''current-context'' v r3 = Ok (set_field ''current-context'' v r3)" for v
  proof -
    have "value_at (Content r3) ''current-context'' = Ok (field r3 ''current-context'')"
      using valueOf_wf [of r3] r3(2) by (simp add: valueOf_def wf_root_def)
    then show ?thesis by (auto simp: setScalar_def set_field_def split: option.splits)
  qed
  have run: "mergeKubeconfigs um marshal dstB srcB = marshal (set_Content (?root # rest) dstDoc)"
    using assms(1-4) r1(1) r2(1) r3(1) cc set by (simp add: mergeKubeconfigs_def)
  have f: "field ?root f = field r3 f" if "f \<noteq> ''current-context''" for f
    using that r3(2) by (simp add: field_set_field)
  have s: "section_of s ?root = merge_entries (section_of s src) (section_of s dst)"
    if "s \<in> {''clusters'', ''contexts'', ''users''}" for s
    using that f [of s] r1(3,4) r2(3,4) r3(3,4) by (auto simp: section_of_def [of _ ?root] section_of_def [of _ r1]
        section_of_def [of _ r2] section_of_def [of _ r3] section_of_def [of _ dst])
  have "get_field r3 ''current-context'' = get_field dst ''current-context''"
    using r1(4) r2(4) r3(4) by (simp add: get_field_def)
  then have "get_field ?root ''current-context'' =
       (case get_field src ''current-context'' of None \<Rightarrow> get_field dst ''current-context''
        | Some cc \<Rightarrow> if cc = [] then get_field dst ''current-context'' else Some cc)"
    using r3(2) by (auto simp: top_fields.get_put split: option.splits)
  moreover have "wf_root ?root" using r3(2) by (simp add: wf_set_field)
  ultimately show ?thesis
    using run s f r1(4) r2(4) r3(4) by (intro exI [of _ ?root]) (simp add: entry_named_merge distinct_merge)
qed

text \<open>
  A target whose \<^verbatim>\<open>contexts\<close> is null: the merge succeeds, but hangs the source's contexts on
  the scalar node, so that the merged tree still has no list of contexts.
\<close>

theorem merge_into_null_section_lost:
  assumes "wf_root src" "wf_root dst" "field dst s = Some d" "Kind d = ScalarNode" "list_all wf_node (Content d)"
  shows "\<exists>r. mergeSection src s dst = Ok r \<and> \<not> section_ok s r \<and> section_of s r = []"
proof (cases "\<exists>x. field src s = Some x \<and> Kind x = SequenceNode")
  case False
  then have "mergeSection src s dst = Ok dst"
    using assms(1) by (auto simp: mergeSection_def nodeValue_valueOf valueOf_wf wf_root_def split: option.splits)
  then show ?thesis using assms(3,4) by (simp add: section_ok_def section_of_def)
next
  case True
  then obtain x where x: "field src s = Some x" "Kind x = SequenceNode" by blast
  let ?c = "merge_entries (Content x) (Content d)" and ?ok = "\<lambda>c. update_at s (set_Content c) dst"
  have "list_all wf_node (Content x)"
    using section_of_wf [of src s] x assms(1) by (simp add: section_of_def wf_root_def)
  then have "mergeSection src s dst = Ok (?ok ?c)"
    using assms x foldR_upsert [of "Content x" "Content d"]
    by (simp add: mergeSection_def nodeValue_valueOf valueOf_wf wf_root_def)
  moreover have "field (?ok ?c) s = Some (set_Content ?c d)" using assms(3) by (simp add: field_update_at)
  ultimately show ?thesis using assms(4) by (simp add: section_ok_def section_of_def)
qed

section \<open>The target file\<close>

text \<open>
  C22. Merging into an existing file that can be read: when the merge fails the file is as it was,
  when it succeeds and the file is writable the file holds exactly the merged bytes under its
  old mode, and no other file changes.
\<close>

theorem MergeDataToTarget_existing:
  assumes "file_bytes w target = Some old" "faults w OpStat target = None" "faults w OpRead target = None"
    and "writable w target" and "MergeDataToTarget um marshal srcData target w = (r, w')"
  shows "case mergeKubeconfigs um marshal old srcData of
      Err e \<Rightarrow> r = Err (Wrapf ''failed to merge kubeconfigs: %w'' [] e) \<and> w' = w
    | Panic p \<Rightarrow> r = Panic p \<and> w' = w
    | Ok merged \<Rightarrow> file_bytes w' target = Some merged \<and> file_perm w' target = file_perm w target \<and>
        (\<forall>q. q \<noteq> target \<longrightarrow> map_of (disk w') q = map_of (disk w) q) \<and>
        (\<forall>m. r = Ok m \<longrightarrow> mr_Destination m = target)"
proof -
  obtain perm where p: "map_of (disk w) target = Some (FileE old perm)"
    using assms(1) by (auto simp: file_bytes_def split: option.splits fentry.splits)
  have e: "ensureDefaultExists target w = (Ok (), w)"
    using p assms(2) by (simp add: ensureDefaultExists_def os_Stat_def with_fault_def tryIO_def)
  have rd: "os_ReadFile target w = (Ok old, w)"
    using assms(1,3) by (simp add: os_ReadFile_Ok)
  note run = assms(5) [unfolded MergeDataToTarget_def]
  show ?thesis
  proof (cases "mergeKubeconfigs um marshal old srcData")
    case (Ok merged)
    have wr: "os_WriteFile target merged 384 w = (Ok (), put_file 384 target merged w)"
      by (rule os_WriteFile_ok [OF assms(4)])
    have w': "w' = put_file 384 target merged w" "\<forall>m. r = Ok m \<longrightarrow> mr_Destination m = target"
      using run e rd Ok wr by (auto simp: bindIO_def wrapIO_def tryIO_def split: res.splits)
    then show ?thesis using Ok p by (simp add: file_perm_def put_file_def file_bytes_def)
  next
    case (Err e')
    then show ?thesis using run e rd by (auto simp: bindIO_def wrapIO_def tryIO_def)
  next
    case (Panic p)
    then show ?thesis using run e rd by (auto simp: bindIO_def wrapIO_def tryIO_def)
  qed
qed

lemma clean_absolute_Join:
  assumes "Clean home = home" "home \<noteq> []" "home \<noteq> slash" "home \<noteq> ''.''" "plain_elem a" "plain_elem b"
  shows "JoinPath [home, a, b] = home @ slash @ a @ slash @ b"
proof -
  have d: "JoinPath [home, a] = home @ slash @ a" by (rule JoinPath_plain [OF assms(1-5)])
  have hd: "Clean (home @ slash @ a) = home @ slash @ a"
    using d assms(2) by (simp add: JoinPath_def)
  have "JoinPath [home @ slash @ a, b] = (home @ slash @ a) @ slash @ b"
    by (rule JoinPath_plain [OF hd _ _ _ assms(6)]) (use assms(2,5) in \<open>auto simp: plain_elem_def append_eq_Cons_conv\<close>)
  then show ?thesis using assms(2) by (simp add: JoinPath_def)
qed

text \<open>
  The write target is never a file of the temporary directory of kswitch: \<^verbatim>\<open>KUBECONFIG\<close> is
  taken when it points elsewhere, and the default file otherwise.
\<close>

theorem ResolveWriteTarget_not_tmp:
  assumes "Clean (getenv w ''HOME'') = getenv w ''HOME''" "getenv w ''HOME'' \<notin> {[], slash, ''.''}"
  shows "\<exists>t. ResolveWriteTarget w = (Ok t, w) \<and> \<not> isKswitchTmp w t \<and>
     (t = getenv w ''KUBECONFIG'' \<or> t = getenv w ''HOME'' @ ''/.kube/config'') \<and>
     (isKswitchTmp w (getenv w ''KUBECONFIG'') \<longrightarrow> t = getenv w ''HOME'' @ ''/.kube/config'')"
proof -
  have "defaultKubeconfigPath w = getenv w ''HOME'' @ ''/.kube/config''"
    using clean_absolute_Join [of "getenv w ''HOME''" "''.kube''" "''config''"] assms
    by (simp add: defaultKubeconfigPath_def plain_elem_def)
  then show ?thesis
    by (simp add: ResolveWriteTarget_def isKswitchTmp_def TemporaryKubeconfigDir_def Let_def)
qed

section \<open>Witnesses\<close>

definition sample_src :: ynode where
  "sample_src = map_node
     [(''current-context'', str_node ''prod''),
      (''contexts'', seq_node [context_entry ''prod'' ''c9'' ''u9'', context_entry ''new'' ''c9'' ''u9''])]"

definition sample_um2 :: "string \<Rightarrow> ynode res" where
  "sample_um2 bs = (if bs = ''src'' then Ok (YNode DocumentNode [] [] [sample_src])
     else if bs = ''old'' then Ok (YNode DocumentNode [] [] [kc_rootNode sample_kc]) else Err (LibErr ''yaml''))"

lemma mergeKubeconfigs_spec_witness:
  "\<exists>root. mergeKubeconfigs sample_um2 (\<lambda>n. Ok (Value (hd (Content n)))) ''old'' ''src'' =
      Ok (Value root) \<and>
     entry_named ''prod'' (section_of ''contexts'' root) = Some (context_entry ''prod'' ''c9'' ''u9'') \<and>
     entry_named ''dev'' (section_of ''contexts'' root) = Some (context_entry ''dev'' ''c1'' ''u1'') \<and>
     get_field root ''current-context'' = Some ''prod''"
proof -
  let ?dst = "kc_rootNode sample_kc"
  have u: "sample_um2 ''old'' = Ok (YNode DocumentNode [] [] [?dst])" "sample_um2 ''src'' = Ok (YNode DocumentNode [] [] [sample_src])"
    by (simp_all add: sample_um2_def)
  have c: "Content (YNode DocumentNode [] [] [?dst]) = ?dst # []"
    "Content (YNode DocumentNode [] [] [sample_src]) = sample_src # []" by simp_all
  have wf: "wf_root ?dst" "wf_root sample_src" by code_simp+
  have ok: "section_ok s ?dst" if "s \<in> {''clusters'', ''contexts'', ''users''}" for s
  proof -
    have "list_all (\<lambda>s. section_ok s ?dst) [''clusters'', ''contexts'', ''users'']" by code_simp
    then show ?thesis using that by (auto simp: list_all_iff)
  qed
  have e: "entry_named ''prod'' (rev (section_of ''contexts'' sample_src)) = Some (context_entry ''prod'' ''c9'' ''u9'')"
    "entry_named ''dev'' (rev (section_of ''contexts'' sample_src)) = None"
    "entry_named ''dev'' (section_of ''contexts'' ?dst) = Some (context_entry ''dev'' ''c1'' ''u1'')"
    "get_field sample_src ''current-context'' = Some ''prod''" by code_simp+
  obtain root where r: "mergeKubeconfigs sample_um2 (\<lambda>n. Ok (Value (hd (Content n)))) ''old'' ''src'' = Ok (Value root)"
    "\<forall>n. entry_named n (section_of ''contexts'' root) =
          (case entry_named n (rev (section_of ''contexts'' sample_src)) of Some e \<Rightarrow> Some e
           | None \<Rightarrow> entry_named n (section_of ''contexts'' ?dst))"
    "get_field root ''current-context'' = Some ''prod''"
    using mergeKubeconfigs_spec [OF u(1) c(1) u(2) c(2) wf ok, of "\<lambda>n. Ok (Value (hd (Content n)))"] e(4) by auto
  then show ?thesis using e(1-3) by (intro exI [of _ root]) simp
qed

lemma merge_into_null_section_lost_witness:
  "\<exists>r. mergeSection sample_src ''contexts'' (map_node [(''contexts'', YNode ScalarNode ''!!null'' [] [])]) = Ok r \<and>
     section_of ''contexts'' r = []"
proof -
  have "wf_root sample_src" "wf_root (map_node [(''contexts'', YNode ScalarNode ''!!null'' [] [])])"
    "field (map_node [(''contexts'', YNode ScalarNode ''!!null'' [] [])]) ''contexts'' = Some (YNode ScalarNode ''!!null'' [] [])"
    by code_simp+
  from merge_into_null_section_lost [OF this] show ?thesis by auto
qed

lemma MergeDataToTarget_existing_witness:
  "\<exists>r w'. MergeDataToTarget sample_um2 (\<lambda>n. Ok ''merged'') ''src'' ''/home/u/.kube/config'' sample_world = (r, w') \<and>
     file_bytes w' ''/home/u/.kube/config'' = Some ''merged''"
proof -
  have "file_bytes sample_world ''/home/u/.kube/config'' = Some ''old''"
    "faults sample_world OpStat ''/home/u/.kube/config'' = None"
    "faults sample_world OpRead ''/home/u/.kube/config'' = None"
    "writable sample_world ''/home/u/.kube/config''" by code_simp+
  note t = MergeDataToTarget_existing [OF this, of sample_um2 "\<lambda>n. Ok ''merged''" "''src''"]
  have m: "mergeKubeconfigs sample_um2 (\<lambda>n. Ok ''merged'') ''old'' ''src'' = Ok ''merged''" by code_simp
  obtain r w' where run: "MergeDataToTarget sample_um2 (\<lambda>n. Ok ''merged'') ''src'' ''/home/u/.kube/config'' sample_world = (r, w')"
    by (rule prod.exhaust)
  show ?thesis using t [OF run] m run by auto
qed

lemma ResolveWriteTarget_not_tmp_witness:
  "\<exists>t. ResolveWriteTarget sample_world = (Ok t, sample_world) \<and> \<not> isKswitchTmp sample_world t"
proof -
  have "Clean (getenv sample_world ''HOME'') = getenv sample_world ''HOME''"
    "getenv sample_world ''HOME'' \<notin> {[], slash, ''.''}" by code_simp+
  from ResolveWriteTarget_not_tmp [OF this] show ?thesis by blast
qed

end
