(* ===== verification/History.thy ===== *)
theory History
  imports GoOS
begin

text \<open>
  The history of contexts and namespaces (\<^verbatim>\<open>pkg/subcommands/history/util/util.go\<close>): one line
  \<^verbatim>\<open>context:: namespace\<close> per switch, the newest last in the file and first in memory.
\<close>

section \<open>The operations\<close>

definition historyFilePath :: "world \<Rightarrow> string" where
  "historyFilePath w = getenv w ''HOME'' @ ''/.kube/.switch_history''"

definition ReadHistory :: "string list io" where
  "ReadHistory = (\<lambda>w. tryIO (os_ReadFile (historyFilePath w))
     (\<lambda>bs. case ScanLines bs of (lines, okay) \<Rightarrow>
        if okay then returnIO (rev lines) else failIO (LibErr ''bufio.Scanner: token too long''))
     (\<lambda>e. if IsNotExist e then failIO (Errorf ''no history entries yet - please run `switch` first'' [])
          else failIO e) w)"

text \<open>
  \<^verbatim>\<open>getLastLineWithSeek\<close> reads bytes backwards from the end: the last byte always belongs to the line,
  a newline or carriage return before it ends the line.
\<close>

definition last_line :: "string \<Rightarrow> string" where
  "last_line bs = (case rev bs of [] \<Rightarrow> []
     | c # cs \<Rightarrow> rev (takeWhile (\<lambda>x. x \<noteq> CHR 0x0A \<and> x \<noteq> CHR 0x0D) cs) @ [c])"

definition getLastLineWithSeek :: "string \<Rightarrow> string io" where
  "getLastLineWithSeek path =
     bindIO (wrapIO ''cannot open file: %w'' [] (os_ReadFile path)) (\<lambda>bs. returnIO (last_line bs))"

definition history_entry :: "string \<Rightarrow> string \<Rightarrow> string" where
  "history_entry context_name namespace = context_name @ '':: '' @ namespace @ [CHR 0x0A]"

definition AppendToHistory :: "string \<Rightarrow> string \<Rightarrow> unit io" where
  "AppendToHistory context_name namespace = (\<lambda>w.
     let path = historyFilePath w; historyEntry = history_entry context_name namespace
     in bindIO (os_open_write False 384 path) (\<lambda>_.
        bindIO (getLastLineWithSeek path) (\<lambda>lastHistoryEntry.
          if historyEntry = lastHistoryEntry then returnIO ()
          else file_Write path historyEntry)) w)"

definition ParseHistoryEntry :: "string \<Rightarrow> (string \<times> string option) res" where
  "ParseHistoryEntry entry = (case Split entry ''::'' of
     [c] \<Rightarrow> Ok (c, None)
   | [c, n] \<Rightarrow> Ok (c, Some (ReplaceAll n '' '' []))
   | _ \<Rightarrow> Err (Errorf ''history entry with unrecognized format'' []))"

section \<open>Parsing what was written\<close>

text \<open>A text without \<^verbatim>\<open>::\<close> that does not end in a colon either.\<close>

definition no_sep :: "string \<Rightarrow> bool" where
  "no_sep c \<longleftrightarrow> \<not> Contains c ''::'' \<and> (c = [] \<or> last c \<noteq> CHR '':'')"

lemma Contains_iff: "Contains s sub \<longleftrightarrow> (\<exists>a b. s = a @ sub @ b)"
  using Index_None by (auto simp: Contains_def)

lemma Index_no_sep: "no_sep c \<Longrightarrow> Index (c @ ''::'' @ r) ''::'' = Some (length c)"
proof (rule Index_first [OF refl])
  fix a' b' assume c: "no_sep c" and s: "c @ ''::'' @ r = a' @ ''::'' @ b'"
  show "length c \<le> length a'"
  proof (rule ccontr)
    assume "\<not> length c \<le> length a'"
    then obtain u where u: "c = a' @ u" "u \<noteq> []" "u @ ''::'' @ r = ''::'' @ b'"
      using s by (auto simp: append_eq_append_conv2)
    then obtain x d where "u = x # d" by (cases u) auto
    with u have d: "c = a' @ CHR '':'' # d" "d @ ''::'' @ r = CHR '':'' # b'" by auto
    show False
    proof (cases d)
      case Nil
      then show ?thesis using c d by (simp add: no_sep_def)
    next
      case (Cons y e)
      then have "c = a' @ ''::'' @ e" using d by simp
      then show ?thesis using c Contains_iff by (auto simp: no_sep_def)
    qed
  qed
qed

text \<open>
  A history line parses back to the context and namespace it was written from, when the
  context has no \<^verbatim>\<open>::\<close> and no colon at its end and the namespace has neither \<^verbatim>\<open>::\<close> nor a space.
\<close>

theorem history_entry_roundtrip:
  assumes "no_sep c" and "\<not> Contains ns ''::''" and "CHR '' '' \<notin> set ns"
  shows "ParseHistoryEntry (c @ '':: '' @ ns) = Ok (c, Some ns)"
proof -
  have cut: "Cut (c @ '':: '' @ ns) ''::'' = Some (c, '' '' @ ns)"
    using Index_no_sep [OF assms(1), of "'' '' @ ns"] by (simp add: Cut_def)
  have "\<not> Contains ('' '' @ ns) ''::''"
    using assms(2) by (auto simp: Contains_iff Cons_eq_append_conv)
  then have "Split ('' '' @ ns) ''::'' = ['' '' @ ns]"
    by (subst Split.simps) (simp add: Cut_def Contains_def)
  then have "Split (c @ '':: '' @ ns) ''::'' = [c, '' '' @ ns]"
    using cut by (subst Split.simps) simp
  moreover have "ReplaceAll ('' '' @ ns) '' '' [] = ns"
    using assms(3) by (auto simp: ReplaceAll_delete intro: filter_True)
  ultimately show ?thesis by (simp add: ParseHistoryEntry_def)
qed

text \<open>
  A context with \<^verbatim>\<open>::\<close> in its name is written to the history all the same, and the line it leaves
  behind is one no later command can parse.
\<close>

theorem history_entry_with_separator:
  assumes "c = a @ ''::'' @ b" and "no_sep a" and "no_sep b"
  shows "\<not> is_ok (ParseHistoryEntry (c @ '':: '' @ ns))"
proof -
  have 1: "Cut (c @ '':: '' @ ns) ''::'' = Some (a, b @ '':: '' @ ns)"
    using Index_no_sep [OF assms(2), of "b @ '':: '' @ ns"] assms(1) by (simp add: Cut_def)
  have 2: "Cut (b @ '':: '' @ ns) ''::'' = Some (b, '' '' @ ns)"
    using Index_no_sep [OF assms(3), of "'' '' @ ns"] by (simp add: Cut_def)
  have "Split (c @ '':: '' @ ns) ''::'' = a # b # Split ('' '' @ ns) ''::''"
    using 1 2 by (subst Split.simps, simp, subst Split.simps, simp)
  moreover obtain x xs where "Split ('' '' @ ns) ''::'' = x # xs"
    using Split_neq_Nil by (metis list.exhaust)
  ultimately show ?thesis by (simp add: ParseHistoryEntry_def)
qed

section \<open>Reading what was appended\<close>

definition plain_line :: "string \<Rightarrow> bool" where
  "plain_line l \<longleftrightarrow> CHR 0x0A \<notin> set l \<and> CHR 0x0D \<notin> set l \<and> length l < 65536"

lemma plain_line_ok: "plain_line l \<Longrightarrow> line_ok l"
  using last_in_set by (fastforce simp: plain_line_def line_ok_def drop_cr_def)

lemma last_line_unlines: "plain_line l \<Longrightarrow> last_line (unlines (ls @ [l])) = l @ [CHR 0x0A]"
proof -
  assume l: "plain_line l"
  have "takeWhile (\<lambda>x. x \<noteq> CHR 0x0A \<and> x \<noteq> CHR 0x0D) (rev l @ rev (unlines ls)) = rev l"
  proof (cases ls rule: rev_cases)
    case Nil
    then show ?thesis using l by (auto simp: takeWhile_eq_all_conv plain_line_def)
  next
    case (snoc ms m)
    then show ?thesis using l by (subst takeWhile_append2) (auto simp: plain_line_def)
  qed
  then show ?thesis by (simp add: last_line_def)
qed

text \<open>
  C28. Appending to a history of complete lines and reading it back gives the new entry in front,
  and leaves the file alone when it is the same as the newest one.
\<close>

theorem append_read_history:
  assumes "file_bytes w (historyFilePath w) = Some (unlines ls)" and "list_all plain_line ls"
    and "plain_line (c @ '':: '' @ ns)"
    and "faults w OpCreate (historyFilePath w) = None" "faults w OpRead (historyFilePath w) = None"
      "faults w OpWrite (historyFilePath w) = None"
  shows "\<exists>w'. AppendToHistory c ns w = (Ok (), w') \<and>
     ReadHistory w' = (Ok (if ls \<noteq> [] \<and> last ls = c @ '':: '' @ ns then rev ls else (c @ '':: '' @ ns) # rev ls), w') \<and>
     (\<forall>q. q \<noteq> historyFilePath w \<longrightarrow> file_bytes w' q = file_bytes w q)"
proof -
  let ?p = "historyFilePath w" and ?e = "c @ '':: '' @ ns"
  obtain m where m: "map_of (disk w) ?p = Some (FileE (unlines ls) m)"
    using assms(1) by (auto simp: file_bytes_def split: option.splits fentry.splits)
  have op: "os_open_write False 384 ?p w = (Ok (), w)"
    using m assms(4) by (simp add: os_open_write_def with_fault_def)
  have ll: "getLastLineWithSeek ?p w = (Ok (last_line (unlines ls)), w)"
    using assms(1,5) by (simp add: getLastLineWithSeek_def bindIO_apply wrapIO_apply os_ReadFile_Ok [THEN iffD2])
  have same: "history_entry c ns = last_line (unlines ls) \<longleftrightarrow> ls \<noteq> [] \<and> last ls = ?e"
  proof (cases ls rule: rev_cases)
    case Nil
    then show ?thesis by (simp add: history_entry_def last_line_def)
  next
    case (snoc ms l)
    then have "plain_line l" using assms(2) by simp
    from last_line_unlines [OF this, of ms] show ?thesis using snoc by (auto simp: history_entry_def)
  qed
  have read: "ReadHistory v = (Ok (rev xs), v)"
    if "file_bytes v ?p = Some (unlines xs)" "list_all plain_line xs" "faults v = faults w" "historyFilePath v = ?p" for v xs
  proof -
    have "list_all line_ok xs" using that(2) plain_line_ok by (auto simp: list_all_iff)
    then show ?thesis using that assms(5)
      by (simp add: ReadHistory_def tryIO_apply os_ReadFile_Ok [THEN iffD2] ScanLines_unlines)
  qed
  show ?thesis
  proof (cases "ls \<noteq> [] \<and> last ls = ?e")
    case True
    then have "AppendToHistory c ns w = (Ok (), w)"
      using op ll same by (simp add: AppendToHistory_def Let_def bindIO_apply)
    then show ?thesis using True read [OF assms(1,2)] by auto
  next
    case False
    let ?w = "w\<lparr>disk := AList.update ?p (FileE (unlines ls @ history_entry c ns) m) (disk w)\<rparr>"
    have "history_entry c ns \<noteq> last_line (unlines ls)" using same False by simp
    then have "AppendToHistory c ns w = (Ok (), ?w)"
      using op ll m assms(6)
      by (simp add: AppendToHistory_def Let_def bindIO_apply file_Write_def with_fault_def)
    moreover have "file_bytes ?w ?p = Some (unlines (ls @ [?e]))" "historyFilePath ?w = ?p"
      by (simp_all add: file_bytes_def history_entry_def historyFilePath_def)
    moreover have "list_all plain_line (ls @ [?e])" using assms(2,3) by simp
    moreover have "\<forall>q. q \<noteq> ?p \<longrightarrow> file_bytes ?w q = file_bytes w q" by (simp add: file_bytes_def)
    ultimately show ?thesis using read [of ?w "ls @ [?e]"] False by (intro exI [of _ ?w]) auto
  qed
qed

section \<open>Witnesses\<close>

definition history_world :: world where
  "history_world = \<lparr>disk = [(''/h/.kube'', DirE 448), (''/h/.kube/.switch_history'', FileE (unlines [''dev:: default'']) 384)],
     faults = (\<lambda>_ _. None), getenv = (\<lambda>v. if v = ''HOME'' then ''/h'' else []), clock = 0, umask = 18,
     rnd = (\<lambda>_. ''1''), rnd_pos = 0, out = []\<rparr>"

lemma history_entry_roundtrip_witness:
  "ParseHistoryEntry (''arn:aws:eks:eu:c'' @ '':: '' @ ''kube-system'') = Ok (''arn:aws:eks:eu:c'', Some ''kube-system'')"
proof -
  have "no_sep ''arn:aws:eks:eu:c''" "\<not> Contains ''kube-system'' ''::''" "CHR '' '' \<notin> set ''kube-system''" by code_simp+
  then show ?thesis by (rule history_entry_roundtrip)
qed

lemma history_entry_with_separator_witness:
  "\<not> is_ok (ParseHistoryEntry (''a::b'' @ '':: '' @ ''default''))"
proof -
  have "''a::b'' = ''a'' @ ''::'' @ ''b''" "no_sep ''a''" "no_sep ''b''" by code_simp+
  then show ?thesis by (rule history_entry_with_separator)
qed

lemma append_read_history_witness:
  "\<exists>w'. AppendToHistory ''prod'' ''kube-system'' history_world = (Ok (), w') \<and>
     ReadHistory w' = (Ok [''prod:: kube-system'', ''dev:: default''], w')"
proof -
  have "file_bytes history_world (historyFilePath history_world) = Some (unlines [''dev:: default''])"
    "list_all plain_line [''dev:: default'']" "plain_line (''prod'' @ '':: '' @ ''kube-system'')"
    "faults history_world OpCreate (historyFilePath history_world) = None"
    "faults history_world OpRead (historyFilePath history_world) = None"
    "faults history_world OpWrite (historyFilePath history_world) = None"
    by (simp_all add: plain_line_def file_bytes_def history_world_def historyFilePath_def)
  from append_read_history [OF this] show ?thesis by auto
qed

lemma AppendToHistory_frame:
  "AppendToHistory c n w = (r, w') \<Longrightarrow> q \<noteq> historyFilePath w \<Longrightarrow> file_bytes w' q = file_bytes w q"
  by (auto simp: AppendToHistory_def getLastLineWithSeek_def bindIO_apply wrapIO_apply Let_def
      split: prod.splits res.splits if_splits dest!: os_open_write_frame file_Write_frame os_ReadFile_same)

end
