(* ===== verification/Commands.thy ===== *)
theory Commands
  imports Filters MergeDefault History
begin

text \<open>
  The commands that select a context: \<^verbatim>\<open>Switcher\<close> (\<^verbatim>\<open>pkg/main.go\<close>), \<^verbatim>\<open>SetContext\<close>, \<^verbatim>\<open>Show\<close>, \<^verbatim>\<open>Alias\<close> and
  the history commands, and those that edit the current kubeconfig or clean up. They consume the
  channel of the search; \<^verbatim>\<open>merge\<close> stands for the interleaving in which the contexts of the stores
  arrive. The programs of the stores are run to their end first, also when the consumer stops early.
\<close>

section \<open>Consuming the search\<close>

type_synonym merge = "DiscoveredContext list list \<Rightarrow> DiscoveredContext list"

definition received_contexts ::
    "search_libs \<Rightarrow> merge \<Rightarrow> string \<Rightarrow> (string, string) gomap \<times> job list \<times> nat \<Rightarrow> DiscoveredContext list io" where
  "received_contexts L merge stateDir = (\<lambda>(contextToAlias, jobs, wg).
     bindIO (foldIO (\<lambda>j outs. bindIO (run_job L stateDir contextToAlias j) (\<lambda>o1. returnIO (outs @ [o1]))) jobs [])
       (\<lambda>outs. returnIO (merge outs)))"

text \<open>The name without the prefix of its store.\<close>

definition without_prefix :: "store \<Rightarrow> string \<Rightarrow> string \<Rightarrow> string" where
  "without_prefix s path name = (let p = st_GetContextPrefix s path
     in if length p > 0 \<and> HasPrefix name p then TrimPrefix name (p @ ''/'') else name)"

section \<open>SetContext\<close>

definition switch_found ::
    "(string \<Rightarrow> ynode res) \<Rightarrow> (ynode \<Rightarrow> string res) \<Rightarrow> string \<Rightarrow> bool \<Rightarrow> DiscoveredContext \<Rightarrow> store \<Rightarrow> (string \<times> string) io" where
  "switch_found um enc desiredContext appendToHistory dc s =
     (let contextWithoutPrefix = without_prefix s (dc_Path dc) (dc_Name dc);
          originalContextBeforeAlias = (if length (dc_Alias dc) > 0 then contextWithoutPrefix else [])
      in bindIO (st_GetKubeconfigForPath s (dc_Path dc) (dc_Tags dc)) (\<lambda>kubeconfigData.
         bindIO (wrapIO ''failed to parse kubeconfig: %w'' [] (NewKubeconfig um kubeconfigData)) (\<lambda>k.
         bindIO (liftR (SetContext contextWithoutPrefix originalContextBeforeAlias (st_GetContextPrefix s (dc_Path dc)) k)) (\<lambda>k1.
         bindIO (liftR (SetKswitchContext desiredContext k1)) (\<lambda>k2.
         bindIO (wrapIO ''failed to write temporary kubeconfig file: %w'' [] (WriteKubeconfigFile enc k2)) (\<lambda>tempKubeconfigPath.
         bindIO (if appendToHistory
             then bindIO (wrapIO ''failed to get namespace of current context: %w'' []
                    (liftR (bindR (GetCurrentContext k2) (\<lambda>c. NamespaceOfContext c k2)))) (\<lambda>ns.
                  ignoreIO (AppendToHistory desiredContext ns))
             else returnIO ())
           (\<lambda>_. returnIO (tempKubeconfigPath, desiredContext))))))))"

definition matches :: "string \<Rightarrow> DiscoveredContext \<Rightarrow> store \<Rightarrow> bool" where
  "matches desiredContext dc s \<longleftrightarrow> desiredContext = dc_Name dc \<or>
     desiredContext = without_prefix s (dc_Path dc) (dc_Name dc) \<or> desiredContext = dc_Alias dc"

fun set_context_loop ::
    "(string \<Rightarrow> ynode res) \<Rightarrow> (ynode \<Rightarrow> string res) \<Rightarrow> string \<Rightarrow> bool \<Rightarrow> DiscoveredContext list \<Rightarrow> gerror list \<Rightarrow> (string \<times> string) io" where
  "set_context_loop um enc desiredContext appendToHistory [] mError =
     (if mError \<noteq> [] then failIO (Errorf ''context with name %q not found. Possibly due to errors: %v'' [desiredContext])
      else failIO (Errorf ''context with name %q not found'' [desiredContext]))"
| "set_context_loop um enc desiredContext appendToHistory (dc # dcs) mError =
     (case dc_Error dc of
        Some e \<Rightarrow> set_context_loop um enc desiredContext appendToHistory dcs (mError @ [e])
      | None \<Rightarrow> (case dc_Store dc of
          None \<Rightarrow> set_context_loop um enc desiredContext appendToHistory dcs mError
        | Some s \<Rightarrow> if matches desiredContext dc s then switch_found um enc desiredContext appendToHistory dc s
                    else set_context_loop um enc desiredContext appendToHistory dcs mError))"

definition cmd_SetContext ::
    "search_libs \<Rightarrow> merge \<Rightarrow> (string \<Rightarrow> ynode res) \<Rightarrow> (ynode \<Rightarrow> string res) \<Rightarrow> string \<Rightarrow> store list \<Rightarrow> Config option \<Rightarrow>
     string \<Rightarrow> bool \<Rightarrow> bool \<Rightarrow> (string \<times> string) io" where
  "cmd_SetContext L merge um enc desiredContext stores config stateDir noIndex appendToHistory =
     bindIO (DoSearch L stores config stateDir noIndex) (\<lambda>c.
     bindIO (received_contexts L merge stateDir c) (\<lambda>dcs.
       set_context_loop um enc desiredContext appendToHistory dcs []))"

section \<open>Show\<close>

fun show_loop :: "string \<Rightarrow> DiscoveredContext list \<Rightarrow> string io" where
  "show_loop desiredName [] = failIO (Errorf ''context not found'' [])"
| "show_loop desiredName (dc # dcs) =
     (if dc_Error dc \<noteq> None then show_loop desiredName dcs
      else (let name = (if dc_Alias dc \<noteq> [] then dc_Alias dc else dc_Name dc)
        in if name = desiredName
           then bindIO (liftR (store_of dc)) (\<lambda>s.
             wrapIO ''failed to get kubeconfig: %w'' [] (st_GetKubeconfigForPath s (dc_Path dc) (dc_Tags dc)))
           else show_loop desiredName dcs))"

definition cmd_Show ::
    "search_libs \<Rightarrow> merge \<Rightarrow> string \<Rightarrow> store list \<Rightarrow> Config option \<Rightarrow> string \<Rightarrow> bool \<Rightarrow> string io" where
  "cmd_Show L merge desiredName stores config stateDir noIndex =
     bindIO (wrapIO ''cannot list contexts: %w'' [] (DoSearch L stores config stateDir noIndex)) (\<lambda>c.
     bindIO (received_contexts L merge stateDir c) (\<lambda>dcs. show_loop desiredName dcs))"

section \<open>Alias\<close>

text \<open>Here the name without prefix is empty when there is no prefix to remove.\<close>

fun alias_loop :: "string \<Rightarrow> string \<Rightarrow> DiscoveredContext list \<Rightarrow> alias_state \<Rightarrow> unit io" where
  "alias_loop aliasName ctx [] a = failIO (Errorf ''cannot set aliasStore %q: context %q not found'' [aliasName, ctx])"
| "alias_loop aliasName ctx (dc # dcs) a =
     (case dc_Error dc of Some e \<Rightarrow> alias_loop aliasName ctx dcs a
      | None \<Rightarrow> (case dc_Store dc of None \<Rightarrow> alias_loop aliasName ctx dcs a
        | Some s \<Rightarrow>
            (let p = st_GetContextPrefix s (dc_Path dc);
                 contextWithoutPrefix = (if length p > 0 \<and> HasPrefix (dc_Name dc) p then TrimPrefix (dc_Name dc) (p @ ''/'') else [])
             in if ctx = dc_Name dc \<or> ctx = contextWithoutPrefix
                then bindIO (WriteAlias aliasName (dc_Name dc) a) (\<lambda>(r, a').
                     bindIO (liftR r) (\<lambda>replaced. fmt_Print (''Set alias '' @ aliasName)))
                else alias_loop aliasName ctx dcs a)))"

definition cmd_Alias ::
    "search_libs \<Rightarrow> merge \<Rightarrow> string \<Rightarrow> string \<Rightarrow> store list \<Rightarrow> Config option \<Rightarrow> string \<Rightarrow> bool \<Rightarrow> unit io" where
  "cmd_Alias L merge aliasName ctxNameToBeAliased stores config stateDir noIndex =
     bindIO (ensureStateDir stateDir) (\<lambda>_.
     bindIO (GetDefaultAlias (sl_um_alias L) stateDir) (\<lambda>a.
     bindIO (DoSearch L stores config stateDir noIndex) (\<lambda>c.
     bindIO (received_contexts L merge stateDir c) (\<lambda>dcs. alias_loop aliasName ctxNameToBeAliased dcs a))))"

section \<open>The history commands\<close>

text \<open>\<^verbatim>\<open>setNamespace\<close>: read the kubeconfig just written, set the namespace of its current context, write it back.\<close>

definition history_setNamespace :: "(string \<Rightarrow> ynode res) \<Rightarrow> (ynode \<Rightarrow> string res) \<Rightarrow> string \<Rightarrow> string \<Rightarrow> unit io" where
  "history_setNamespace um enc ns tmpKubeconfigFile =
     bindIO (NewKubeconfigForPath um tmpKubeconfigFile) (\<lambda>k.
     bindIO (wrapIO ''failed to set namespace %q: %w'' [ns] (liftR (SetNamespaceForCurrentContext ns k))) (\<lambda>k1.
     bindIO (wrapIO ''failed to write namespace to kubeconfig %q: %w'' [ns] (WriteKubeconfigFile enc k1)) (\<lambda>_. returnIO ())))"

text \<open>
  The common tail of the three commands: the file is returned in every case, the context only with a
  namespace, and an error of setting the namespace goes with the file.
\<close>

definition switch_to_entry ::
    "(string \<Rightarrow> (string \<times> string) io) \<Rightarrow> (string \<Rightarrow> ynode res) \<Rightarrow> (ynode \<Rightarrow> string res) \<Rightarrow> string \<Rightarrow> string \<Rightarrow>
     (string option \<times> string option \<times> gerror option) io" where
  "switch_to_entry setctx um enc msg entry =
     bindIO (wrapIO msg [] (liftR (ParseHistoryEntry entry))) (\<lambda>(context_name, ns).
     bindIO (setctx context_name) (\<lambda>(tmp, _).
       case ns of None \<Rightarrow> returnIO (Some tmp, None, None)
       | Some n \<Rightarrow> tryIO (history_setNamespace um enc n tmp) (\<lambda>_. returnIO (Some tmp, Some context_name, None))
           (\<lambda>e. returnIO (Some tmp, Some context_name, Some e))))"

definition SetPreviousContext ::
    "(string \<Rightarrow> (string \<times> string) io) \<Rightarrow> (string \<Rightarrow> ynode res) \<Rightarrow> (ynode \<Rightarrow> string res) \<Rightarrow>
     (string option \<times> string option \<times> gerror option) io" where
  "SetPreviousContext setctx um enc = bindIO ReadHistory (\<lambda>history.
     if length history = 0 then returnIO (None, None, None)
     else (let position = (if length history = 1 then 0 else 1)
       in switch_to_entry setctx um enc ''failed to set previous context: %w'' (history ! position)))"

definition SetLastContext ::
    "(string \<Rightarrow> (string \<times> string) io) \<Rightarrow> (string \<Rightarrow> ynode res) \<Rightarrow> (ynode \<Rightarrow> string res) \<Rightarrow>
     (string option \<times> string option \<times> gerror option) io" where
  "SetLastContext setctx um enc = bindIO ReadHistory (\<lambda>history.
     if length history = 0 then returnIO (None, None, None)
     else switch_to_entry setctx um enc ''failed to set previous context: %w'' (history ! 0))"

text \<open>
  \<^verbatim>\<open>SwitchToHistory\<close>: \<^verbatim>\<open>RunList\<close> shows the entries and gives the index of the chosen one. An index
  outside the history is a panic.
\<close>

definition SwitchToHistory ::
    "(string list \<Rightarrow> nat io) \<Rightarrow> (string \<Rightarrow> (string \<times> string) io) \<Rightarrow> (string \<Rightarrow> ynode res) \<Rightarrow> (ynode \<Rightarrow> string res) \<Rightarrow>
     (string option \<times> string option \<times> gerror option) io" where
  "SwitchToHistory RunList setctx um enc = bindIO ReadHistory (\<lambda>history.
     bindIO (RunList history) (\<lambda>idx.
     if idx \<ge> length history then liftR (Panic ''index out of range'')
     else bindIO (wrapIO ''failed to set namespace: %w'' [] (liftR (ParseHistoryEntry (history ! idx)))) (\<lambda>(context_name, ns).
     bindIO (setctx context_name) (\<lambda>(tmp, _).
       case ns of None \<Rightarrow> returnIO (Some tmp, None, None)
       | Some n \<Rightarrow> tryIO (history_setNamespace um enc n tmp)
           (\<lambda>_. tryIO (AppendToHistory context_name n) (\<lambda>_. returnIO (Some tmp, Some context_name, None))
                   (\<lambda>e. returnIO (Some tmp, Some context_name, Some e)))
           (\<lambda>e. returnIO (Some tmp, None, Some e))))))"

section \<open>Editing the current kubeconfig\<close>

definition UnsetCurrentContext :: "(string \<Rightarrow> ynode res) \<Rightarrow> (ynode \<Rightarrow> string res) \<Rightarrow> unit io" where
  "UnsetCurrentContext um enc = bindIO (os_Getenv ''KUBECONFIG'') (\<lambda>kcPath.
     bindIO (NewKubeconfigForPath um kcPath) (\<lambda>k.
     bindIO (liftR (ModifyCurrentContext [] k)) (\<lambda>k1.
     bindIO (wrapIO ''failed to write temporary kubeconfig file: %w'' [] (WriteKubeconfigFile enc k1)) (\<lambda>_. returnIO ()))))"

definition DeleteContext :: "(string \<Rightarrow> ynode res) \<Rightarrow> (ynode \<Rightarrow> string res) \<Rightarrow> string \<Rightarrow> unit io" where
  "DeleteContext um enc desiredContext = bindIO (os_Getenv ''KUBECONFIG'') (\<lambda>kcPath.
     bindIO (NewKubeconfigForPath um kcPath) (\<lambda>k.
     bindIO (liftR (RemoveContext desiredContext k)) (\<lambda>k1.
     bindIO (wrapIO ''failed to write kubeconfig file: %w'' [] (WriteKubeconfigFile enc k1)) (\<lambda>_. returnIO ()))))"

section \<open>Clean\<close>

fun clean_stores :: "store list \<Rightarrow> unit io" where
  "clean_stores [] = returnIO ()"
| "clean_stores (s # ss) = (case st_Flush s of
     None \<Rightarrow> clean_stores ss
   | Some flush \<Rightarrow> bindIO flush (\<lambda>(deleted, err).
       bindIO (fmt_Print (''Cleaned '' @ itoa deleted @ '' files of '' @ st_GetID s @ '' cache'')) (\<lambda>_.
         case err of Some e \<Rightarrow> failIO e | None \<Rightarrow> clean_stores ss)))"

definition Clean_cmd :: "store list \<Rightarrow> unit io" where
  "Clean_cmd stores = (\<lambda>w. let tempDir = TemporaryKubeconfigDir w
     in bindIO (tryIO (os_ReadDir tempDir) returnIO (\<lambda>e. returnIO [])) (\<lambda>files.
        bindIO (os_RemoveAll tempDir) (\<lambda>_.
        bindIO (fmt_Print (''Cleaned '' @ itoa (length files) @ '' files from temporary kubeconfig directory.'')) (\<lambda>_.
          clean_stores stores))) w)"

section \<open>Switcher\<close>

record ContextItem =
  it_ContextName :: string
  it_Alias :: string
  it_StoreKind :: StoreKind
  it_Path :: string
  it_Tags :: tags
  it_StoreID :: string
  it_LabelDisplayKeys :: "string list"

record tui_result =
  tr_path :: string
  tr_context :: string
  tr_storeID :: string
  tr_tags :: tags
  tr_dynamicStore :: "store option"

text \<open>The items for the list, and the alias map in the order it is written.\<close>

fun switch_items :: "DiscoveredContext list \<Rightarrow> (string, string) gomap \<Rightarrow> (ContextItem list \<times> (string, string) gomap) res" where
  "switch_items [] aliasToContext = Ok ([], aliasToContext)"
| "switch_items (dc # dcs) aliasToContext = bindR (store_of dc) (\<lambda>s.
     let contextName = (if length (dc_Alias dc) > 0 then dc_Alias dc else dc_Name dc);
         m = (if length (dc_Alias dc) > 0 then mset (dc_Alias dc) (dc_Name dc) aliasToContext else aliasToContext);
         it = \<lparr>it_ContextName = contextName, it_Alias = dc_Alias dc, it_StoreKind = st_GetKind s, it_Path = dc_Path dc,
               it_Tags = dc_Tags dc, it_StoreID = st_GetID s, it_LabelDisplayKeys = labelDisplayKeys s\<rparr>
     in mapR (\<lambda>(its, m'). (it # its, m')) (switch_items dcs m))"

definition resolveStore :: "(string, store) gomap \<Rightarrow> string \<Rightarrow> store option \<Rightarrow> store res" where
  "resolveStore kindToStore storeID dynamicStore = (case dynamicStore of
     Some s \<Rightarrow> Ok s
   | None \<Rightarrow> (case mget kindToStore storeID of
       None \<Rightarrow> Err (Errorf ''failed to find the kubeconfig store %q the selected context was discovered from'' [storeID])
     | Some s \<Rightarrow> Ok s))"

definition kind_to_store :: "store list \<Rightarrow> (string, store) gomap" where
  "kind_to_store stores = fold (\<lambda>s. mset (st_GetID s) s) stores []"

definition switch_selected ::
    "(string \<Rightarrow> ynode res) \<Rightarrow> (ynode \<Rightarrow> string res) \<Rightarrow> (string, string) gomap \<Rightarrow> store \<Rightarrow> tui_result \<Rightarrow> (string \<times> string) io" where
  "switch_selected um enc aliasToContext s r =
     (let contextForHistory = tr_context r;
          selectedContext = without_prefix s (tr_path r) (tr_context r)
      in bindIO (st_GetKubeconfigForPath s (tr_path r) (tr_tags r)) (\<lambda>kubeconfigData.
         bindIO (wrapIO ''failed to parse selected kubeconfig. Please check if this file is a valid kubeconfig: %w'' []
           (NewKubeconfig um kubeconfigData)) (\<lambda>k.
         bindIO (liftR (SetContext selectedContext (GetContextForAlias selectedContext aliasToContext)
           (st_GetContextPrefix s (tr_path r)) k)) (\<lambda>k1.
         bindIO (liftR (SetKswitchContext contextForHistory k1)) (\<lambda>k2.
         bindIO (wrapIO ''failed to write temporary kubeconfig file: %w'' [] (WriteKubeconfigFile enc k2)) (\<lambda>tempKubeconfigPath.
         bindIO (tryIO (liftR (bindR (GetCurrentContext k2) (\<lambda>c. NamespaceOfContext c k2)))
             (\<lambda>ns. ignoreIO (AppendToHistory contextForHistory ns)) (\<lambda>e. returnIO ()))
           (\<lambda>_. returnIO (tempKubeconfigPath, selectedContext))))))))"

definition Switcher ::
    "search_libs \<Rightarrow> merge \<Rightarrow> (string \<Rightarrow> ynode res) \<Rightarrow> (ynode \<Rightarrow> string res) \<Rightarrow>
     (ContextItem list \<Rightarrow> (string, store) gomap \<Rightarrow> bool \<Rightarrow> tui_result io) \<Rightarrow> (string, string) gomap \<Rightarrow>
     store list \<Rightarrow> Config option \<Rightarrow> string \<Rightarrow> bool \<Rightarrow> bool \<Rightarrow> (string \<times> string) option io" where
  "Switcher L merge um enc tui_Run aliasToContext stores config stateDir noIndex showPreview =
     bindIO (DoSearch L stores config stateDir noIndex) (\<lambda>c.
     bindIO (received_contexts L merge stateDir c) (\<lambda>dcs.
     bindIO (ApplyContextFilters (sl_um_kube L) (filter (\<lambda>dc. dc_Error dc = None \<and> dc_Store dc \<noteq> None) dcs)) (\<lambda>deduplicated.
     bindIO (liftR (switch_items deduplicated aliasToContext)) (\<lambda>(its, aliases).
     bindIO (tui_Run its (kind_to_store stores) showPreview) (\<lambda>r.
       if tr_path r = [] then returnIO None
       else bindIO (liftR (resolveStore (kind_to_store stores) (tr_storeID r) (tr_dynamicStore r))) (\<lambda>s.
         bindIO (switch_selected um enc aliases s r) (\<lambda>p. returnIO (Some p))))))))"

section \<open>Well-formedness through SetContext\<close>

lemma rename_context_wf:
  "rename_context old new cs av = Ok (Some cs', av') \<Longrightarrow> list_all wf_node cs \<Longrightarrow> list_all wf_node cs'"
proof (induction cs arbitrary: av cs' av')
  case (Cons c cs)
  then obtain n where n: "field c ''name'' = Some n" "wf_node n"
    by (cases "field c ''name''") (auto simp: valueOf_wf dest: wf_field)
  show ?case
  proof (cases "Kind n = ScalarNode \<and> Value n = old")
    case True
    then have "cs' = update_at ''name'' (set_Value new) c # cs" using Cons.prems n by (simp add: valueOf_wf Let_def)
    moreover have "wf_node c" "list_all wf_node cs" using Cons.prems(2) by simp_all
    ultimately show ?thesis using n field_Some_Mapping [OF n(1)] by (auto intro!: wf_update_at)
  next
    case False
    then obtain ds av1 where "rename_context old new cs (av @ [Value n]) = Ok (Some ds, av1)" "cs' = c # ds"
      using Cons.prems n by (auto simp: valueOf_wf Let_def eq_commute [of "Some cs'"] split: prod.splits)
    then show ?thesis using Cons by auto
  qed
qed simp

lemma top_value_set_field:
  assumes "wf_kc k"
  shows "top_value key (k\<lparr>kc_rootNode := set_field key' v (kc_rootNode k)\<rparr>) = (if key = key' then Ok v else top_value key k)"
proof -
  have "wf_root (kc_rootNode k)" using assms by (simp add: wf_kc_def)
  then show ?thesis
    using top_value_wf [OF wf_kc_set_field [OF assms], of key key' v] top_value_wf [OF assms, of key]
    by (simp add: top_fields.get_put)
qed

lemma SetContext_wf:
  assumes "SetContext cur orig pre k = Ok k'" and "wf_kc k"
  shows "wf_kc k' \<and> GetCurrentContext k' = Ok cur \<and> kc_path k' = kc_path k \<and> kc_useTmpFile k' = kc_useTmpFile k"
proof -
  have "\<exists>k1. wf_kc k1 \<and> ModifyCurrentContext cur k1 = Ok k' \<and> kc_path k1 = kc_path k \<and> kc_useTmpFile k1 = kc_useTmpFile k"
  proof (cases "length orig > 0")
    case False
    then show ?thesis using assms by (auto simp: SetContext_def)
  next
    case True
    then obtain old k1 where m: "ModifyContextName old cur k = Ok k1" "ModifyCurrentContext cur k1 = Ok k'"
      using assms by (auto simp: SetContext_def Let_def)
    then obtain contexts cs av where c: "contextsNode k = Ok contexts"
      "rename_context old cur (Content contexts) [] = Ok (Some cs, av)" "k1 = set_contexts cs k"
      by (auto simp: ModifyContextName_def split: option.splits)
    obtain n where n: "field (kc_rootNode k) ''contexts'' = Some n" "n = contexts" "Kind n = SequenceNode"
      using c(1) assms(2) by (auto simp: contextsNode_wf split: option.splits if_splits)
    have "list_all wf_node (Content contexts)"
      using n assms(2) by (metis wf_field wf_kc_def wf_node_iff wf_root_def)
    then have "list_all wf_node cs" using rename_context_wf c(2) by blast
    then have "wf_kc k1" unfolding c(3) set_contexts_entries using assms(2) n
      by (intro wf_set_entries) (auto simp: has_section_iff)
    then show ?thesis using m(2) c(3) by (auto simp: set_contexts_def)
  qed
  then obtain k1 where k1: "wf_kc k1" "ModifyCurrentContext cur k1 = Ok k'" "kc_path k1 = kc_path k" "kc_useTmpFile k1 = kc_useTmpFile k"
    by blast
  then have k': "k' = k1\<lparr>kc_rootNode := set_field ''current-context'' cur (kc_rootNode k1)\<rparr>"
    by (simp add: ModifyCurrentContext_def modify_field_wf)
  then show ?thesis using k1 by (simp add: GetCurrentContext_def top_value_set_field)
qed

lemma SetKswitchContext_wf:
  assumes "SetKswitchContext c k = Ok k'" and "wf_kc k"
  shows "wf_kc k' \<and> GetKswitchContext k' = Ok c \<and> GetCurrentContext k' = GetCurrentContext k \<and>
     kc_path k' = kc_path k \<and> kc_useTmpFile k' = kc_useTmpFile k"
  using assms
  by (auto simp: SetKswitchContext_def ModifyKswitchContext_def modify_field_wf GetKswitchContext_def GetCurrentContext_def
    top_value_set_field)

text \<open>The trees the YAML library gives are well formed.\<close>

definition parses_wf :: "(string \<Rightarrow> ynode res) \<Rightarrow> bool" where
  "parses_wf um \<longleftrightarrow> (\<forall>bs n. um bs = Ok n \<longrightarrow> list_all wf_node (Content n))"

lemma New_wf: "New um data p tmp = Ok k \<Longrightarrow> parses_wf um \<Longrightarrow> wf_kc k"
proof -
  assume "New um data p tmp = Ok k" "parses_wf um"
  then obtain n where "um data = Ok n" "list_all wf_node (Content n)" and
    c: "(case Content n of [] \<Rightarrow> Err (Errorf ''kubeconfig at %q is empty or not a valid YAML document'' [p])
     | root # rest \<Rightarrow> if Kind root \<noteq> MappingNode then Err (Errorf ''kubeconfig file does not have expected format'' [])
         else Ok \<lparr>kc_path = p, kc_useTmpFile = tmp, kc_rootNode = root\<rparr>) = Ok k"
    by (auto simp: New_def parses_wf_def)
  then show ?thesis by (cases "Content n") (auto simp: wf_kc_def wf_root_def split: if_splits)
qed

section \<open>Switching writes what was asked for\<close>

lemma switch_chain:
  assumes "NewKubeconfig um data w = (Ok k, w1)" "SetContext cur orig pre k = Ok k1" "SetKswitchContext d k1 = Ok k2"
    and wr: "WriteKubeconfigFile enc k2 w1 = (Ok tmp, w2)" and "parses_wf um"
  shows "GetCurrentContext k2 = Ok cur \<and> GetKswitchContext k2 = Ok d \<and>
     (\<exists>bs. enc (kc_rootNode k2) = Ok bs \<and> file_bytes w2 tmp = Some bs) \<and> tmp \<noteq> historyFilePath w2"
proof -
  have k: "New um data (TemporaryKubeconfigDir w) True = Ok k" "w = w1" using assms(1) by (auto simp: NewKubeconfig_def)
  have wf: "wf_kc k" by (rule New_wf [OF k(1) assms(5)])
  note s1 = SetContext_wf [OF assms(2) wf]
  note s2 = SetKswitchContext_wf [OF assms(3)]
  have p: "kc_path k2 = TemporaryKubeconfigDir w" "kc_useTmpFile k2" using s1 s2 New_path [OF k(1)] by simp_all
  from WriteKubeconfigFile_Ok [OF wr] obtain bs v r where
    f: "enc (kc_rootNode k2) = Ok bs" "w2 = put_file 384 tmp bs v" "getenv v = getenv w1" "tmp = kc_path k2 @ ''/config.'' @ r @ ''.tmp''"
    using p(2) by auto
  have "tmp \<noteq> historyFilePath w2"
    using f(2-4) p(1) k(2) by (simp add: TemporaryKubeconfigDir_def historyFilePath_def)
  then show ?thesis using s1 s2 f by auto
qed

text \<open>The context a command looks for, as far as the received context says.\<close>

definition target :: "string \<Rightarrow> DiscoveredContext \<Rightarrow> bool" where
  "target desired dc \<longleftrightarrow> dc_Error dc = None \<and> (\<exists>s. dc_Store dc = Some s \<and> matches desired dc s)"

lemma set_context_loop_find:
  "set_context_loop um enc desired appendToHistory dcs errs w =
     (case find (target desired) dcs of
        Some dc \<Rightarrow> switch_found um enc desired appendToHistory dc (the (dc_Store dc)) w
      | None \<Rightarrow> set_context_loop um enc desired appendToHistory [] (errs @ List.map_filter dc_Error dcs) w)"
proof (induction dcs arbitrary: errs)
  case (Cons dc dcs)
  show ?case
  proof (cases "dc_Error dc")
    case (Some e)
    then have "\<not> target desired dc" "List.map_filter dc_Error (dc # dcs) = e # List.map_filter dc_Error dcs"
      by (simp_all add: target_def List.map_filter_simps)
    then show ?thesis using Cons [of "errs @ [e]"] Some
      by (cases "find (target desired) dcs") (simp_all del: set_context_loop.simps(1))
  next
    case None
    then have "List.map_filter dc_Error (dc # dcs) = List.map_filter dc_Error dcs" by (simp add: List.map_filter_simps)
    moreover have "target desired dc \<longleftrightarrow> (\<exists>s. dc_Store dc = Some s \<and> matches desired dc s)"
      using None by (simp add: target_def)
    ultimately show ?thesis using Cons [of errs] None
      by (cases "find (target desired) dcs"; cases "dc_Store dc") (simp_all del: set_context_loop.simps(1))
  qed
qed (simp add: List.map_filter_simps)

text \<open>
  C1. \<^verbatim>\<open>SetContext\<close> switches to the first context that arrived, without an error, under the desired
  name, the name without its prefix or an alias: the temporary file holds a kubeconfig whose
  \<^verbatim>\<open>current-context\<close> is the name without the prefix, also when it was chosen by its alias, and
  whose \<^verbatim>\<open>kswitch-context\<close> is the desired name. Without such a context it fails and changes nothing.
\<close>

theorem SetContext_switches:
  assumes "parses_wf um"
  shows "case find (target desired) dcs of
     Some dc \<Rightarrow> \<forall>tmp ctx w'. set_context_loop um enc desired appendToHistory dcs [] w = (Ok (tmp, ctx), w') \<longrightarrow>
       ctx = desired \<and> (\<exists>s k bs. dc_Store dc = Some s \<and>
         GetCurrentContext k = Ok (without_prefix s (dc_Path dc) (dc_Name dc)) \<and> GetKswitchContext k = Ok desired \<and>
         enc (kc_rootNode k) = Ok bs \<and> file_bytes w' tmp = Some bs)
   | None \<Rightarrow> \<exists>e. set_context_loop um enc desired appendToHistory dcs [] w = (Err e, w)"
proof (cases "find (target desired) dcs")
  case None
  then show ?thesis using set_context_loop_find [of um enc desired appendToHistory dcs "[]" w] by simp
next
  case (Some dc)
  then obtain s where s: "dc_Store dc = Some s" by (auto simp: find_Some_iff target_def)
  let ?n = "without_prefix s (dc_Path dc) (dc_Name dc)"
  have "ctx = desired \<and> (\<exists>k bs. GetCurrentContext k = Ok ?n \<and> GetKswitchContext k = Ok desired \<and>
         enc (kc_rootNode k) = Ok bs \<and> file_bytes w' tmp = Some bs)"
    if "set_context_loop um enc desired appendToHistory dcs [] w = (Ok (tmp, ctx), w')" for tmp ctx w'
  proof -
    have "switch_found um enc desired appendToHistory dc s w = (Ok (tmp, ctx), w')"
      using that set_context_loop_find [of um enc desired appendToHistory dcs "[]" w] Some s by simp
    then obtain data k k1 k2 w1 w2 w3 orig where run: "NewKubeconfig um data w1 = (Ok k, w2)"
      "SetContext ?n orig (st_GetContextPrefix s (dc_Path dc)) k = Ok k1" "SetKswitchContext desired k1 = Ok k2"
      "WriteKubeconfigFile enc k2 w2 = (Ok tmp, w3)" "ctx = desired"
      and rest: "(if appendToHistory
             then bindIO (wrapIO ''failed to get namespace of current context: %w'' []
                    (liftR (bindR (GetCurrentContext k2) (\<lambda>c. NamespaceOfContext c k2)))) (\<lambda>ns.
                  ignoreIO (AppendToHistory desired ns))
             else returnIO ()) w3 = (Ok (), w')"
      unfolding switch_found_def Let_def by (auto simp: bindIO_Ok_iff)
    note sw = switch_chain [OF run(1-4) assms]
    have "file_bytes w' tmp = file_bytes w3 tmp"
    proof (cases appendToHistory)
      case False
      then show ?thesis using rest by simp
    next
      case True
      then obtain ns where "ignoreIO (AppendToHistory desired ns) w3 = (Ok (), w')" using rest by (auto simp: bindIO_Ok_iff)
      then have "snd (AppendToHistory desired ns w3) = w'" by (metis ignoreIO_snd snd_conv)
      then show ?thesis using AppendToHistory_frame [of desired ns w3] sw by (metis prod.collapse)
    qed
    then show ?thesis using sw run(5) by auto
  qed
  then show ?thesis using Some s by auto
qed

section \<open>Editing a kubeconfig in place\<close>

text \<open>Load, edit, write back: what \<^verbatim>\<open>DeleteContext\<close>, \<^verbatim>\<open>UnsetCurrentContext\<close> and \<^verbatim>\<open>setNamespace\<close> share.\<close>

definition edit_file :: "(string \<Rightarrow> ynode res) \<Rightarrow> (ynode \<Rightarrow> string res) \<Rightarrow> (kubeconfig \<Rightarrow> kubeconfig res) \<Rightarrow> string \<Rightarrow> string list \<Rightarrow> string \<Rightarrow> unit io" where
  "edit_file um enc edit msg args path = bindIO (NewKubeconfigForPath um path) (\<lambda>k.
     bindIO (liftR (edit k)) (\<lambda>k1.
     bindIO (wrapIO msg args (WriteKubeconfigFile enc k1)) (\<lambda>_. returnIO ())))"

locale kubeconfig_edit =
  fixes edit :: "kubeconfig \<Rightarrow> kubeconfig res"
  assumes keeps_place: "edit k = Ok k' \<Longrightarrow>
    Kind (kc_rootNode k') = Kind (kc_rootNode k) \<and> kc_path k' = kc_path k \<and> kc_useTmpFile k' = kc_useTmpFile k"
begin

lemma edit_file_Ok:
  assumes run: "edit_file um enc edit msg args path w = (Ok (), w')"
    and yaml: "\<And>n bs. enc n = Ok bs \<Longrightarrow> \<exists>t v. um bs = Ok (YNode DocumentNode t v [n])"
  shows "\<exists>k k'. NewKubeconfigForPath um path w = (Ok k, w) \<and> edit k = Ok k' \<and>
     NewKubeconfigForPath um path w' = (Ok k', w') \<and> (\<forall>q. q \<noteq> path \<longrightarrow> file_bytes w' q = file_bytes w q)"
proof -
  obtain k k' name w1 w2 where l: "NewKubeconfigForPath um path w = (Ok k, w1)" and e: "edit k = Ok k'"
    and wr: "WriteKubeconfigFile enc k' w1 = (Ok name, w2)" "w' = w2"
    using run by (auto simp: edit_file_def bindIO_Ok_iff)
  obtain bytes where rd: "os_ReadFile path w = (Ok bytes, w1)" "New um bytes path False = Ok k"
    using l by (auto simp: NewKubeconfigForPath_def bindIO_Ok_iff)
  have w1: "w1 = w" using os_ReadFile_same [OF rd(1)] .
  have kp: "kc_path k = path" "\<not> kc_useTmpFile k" using New_path [OF rd(2)] by simp_all
  have kind: "Kind (kc_rootNode k) = MappingNode"
  proof -
    obtain n where "um bytes = Ok n" and
      c: "(case Content n of [] \<Rightarrow> Err (Errorf ''kubeconfig at %q is empty or not a valid YAML document'' [path])
       | root # rest \<Rightarrow> if Kind root \<noteq> MappingNode then Err (Errorf ''kubeconfig file does not have expected format'' [])
           else Ok \<lparr>kc_path = path, kc_useTmpFile = False, kc_rootNode = root\<rparr>) = Ok k"
      using rd(2) by (auto simp: New_def)
    then show ?thesis by (cases "Content n") (auto split: if_splits)
  qed
  note ke = keeps_place [OF e]
  from WriteKubeconfigFile_Ok [OF wr(1)] obtain bs v where f: "enc (kc_rootNode k') = Ok bs" "w2 = put_file 384 name bs v"
    "faults v = faults w1" "file_bytes v = file_bytes w1" "name = path" using ke kp by auto
  obtain t x where um: "um bs = Ok (YNode DocumentNode t x [kc_rootNode k'])" using yaml [OF f(1)] by blast
  have nf: "faults w OpRead path = None" using rd(1) w1 by (auto simp: os_ReadFile_def with_fault_def split: option.splits)
  have "os_ReadFile path w' = (Ok bs, w')" using f wr(2) nf w1 by (simp add: os_ReadFile_Ok)
  moreover have "k' = \<lparr>kc_path = path, kc_useTmpFile = False, kc_rootNode = kc_rootNode k'\<rparr>" using ke kp by (cases k') simp
  ultimately have "NewKubeconfigForPath um path w' = (Ok k', w')"
    using um ke kind by (simp add: NewKubeconfigForPath_def New_def)
  then show ?thesis using l e f wr(2) w1 by (intro exI [of _ k] exI [of _ k']) auto
qed

end

lemma remove_orphaned_keeps:
  "remove_orphaned s r k = Ok k' \<Longrightarrow> Kind (kc_rootNode k') = Kind (kc_rootNode k) \<and> kc_path k' = kc_path k \<and> kc_useTmpFile k' = kc_useTmpFile k"
  by (auto simp: remove_orphaned_def split: option.splits if_splits)

lemma set_contexts_keeps [simp]:
  "Kind (kc_rootNode (set_contexts cs k)) = Kind (kc_rootNode k)" "kc_path (set_contexts cs k) = kc_path k"
  "kc_useTmpFile (set_contexts cs k) = kc_useTmpFile k"
  by (simp_all add: set_contexts_def)

interpretation del: kubeconfig_edit "RemoveContext name"
proof unfold_locales
  fix k k' assume "RemoveContext name k = Ok k'"
  then obtain keep k1 where "remove_orphaned ''clusters'' ''cluster'' (set_contexts keep k) = Ok k1"
    "remove_orphaned ''users'' ''user'' k1 = Ok k'"
    by (auto simp: RemoveContext_def removeOrphanedClusters_def removeOrphanedUsers_def split: option.splits if_splits)
  from remove_orphaned_keeps [OF this(1)] remove_orphaned_keeps [OF this(2)]
  show "Kind (kc_rootNode k') = Kind (kc_rootNode k) \<and> kc_path k' = kc_path k \<and> kc_useTmpFile k' = kc_useTmpFile k" by simp
qed

interpretation unset: kubeconfig_edit "ModifyCurrentContext c"
  by unfold_locales (auto simp: ModifyCurrentContext_def modify_field_def split: option.splits)

interpretation setns: kubeconfig_edit "SetNamespaceForCurrentContext ns"
  by unfold_locales (auto simp: SetNamespaceForCurrentContext_def SetNamespace_def Let_def split: if_splits prod.splits)

text \<open>
  C18. When \<^verbatim>\<open>DeleteContext\<close> succeeds, the file of \<^verbatim>\<open>KUBECONFIG\<close>, read again, is the kubeconfig it held
  with the context removed, and no other file has changed.
\<close>

theorem DeleteContext_in_place:
  assumes "DeleteContext um enc c w = (Ok (), w')"
    and "\<And>n bs. enc n = Ok bs \<Longrightarrow> \<exists>t v. um bs = Ok (YNode DocumentNode t v [n])"
  shows "\<exists>k k'. NewKubeconfigForPath um (getenv w ''KUBECONFIG'') w = (Ok k, w) \<and> RemoveContext c k = Ok k' \<and>
     NewKubeconfigForPath um (getenv w ''KUBECONFIG'') w' = (Ok k', w') \<and>
     (\<forall>q. q \<noteq> getenv w ''KUBECONFIG'' \<longrightarrow> file_bytes w' q = file_bytes w q)"
proof -
  have "edit_file um enc (RemoveContext c) ''failed to write kubeconfig file: %w'' [] (getenv w ''KUBECONFIG'') w = (Ok (), w')"
    using assms(1) by (simp add: DeleteContext_def edit_file_def os_Getenv_def bindIO_apply)
  from del.edit_file_Ok [OF this assms(2)] show ?thesis by blast
qed

text \<open>
  \<^verbatim>\<open>setNamespace\<close> after a switch: when it succeeds, the temporary kubeconfig, read again, is the one
  written by the switch with the namespace of its current context set, and no other file has changed.
\<close>

theorem history_setNamespace_in_place:
  assumes "history_setNamespace um enc ns tmp w = (Ok (), w')"
    and "\<And>n bs. enc n = Ok bs \<Longrightarrow> \<exists>t v. um bs = Ok (YNode DocumentNode t v [n])"
  shows "\<exists>k k'. NewKubeconfigForPath um tmp w = (Ok k, w) \<and> SetNamespaceForCurrentContext ns k = Ok k' \<and>
     NewKubeconfigForPath um tmp w' = (Ok k', w') \<and> (\<forall>q. q \<noteq> tmp \<longrightarrow> file_bytes w' q = file_bytes w q)"
proof -
  have "edit_file um enc (SetNamespaceForCurrentContext ns) ''failed to write namespace to kubeconfig %q: %w'' [ns] tmp w = (Ok (), w')"
    using assms(1) by (auto simp: history_setNamespace_def edit_file_def bindIO_Ok_iff)
  from setns.edit_file_Ok [OF this assms(2)] show ?thesis by blast
qed

text \<open>
  The kubeconfig file is truncated before the tree is encoded: when the encoder fails,
  \<^verbatim>\<open>DeleteContext\<close> reports the error and the file of \<^verbatim>\<open>KUBECONFIG\<close> is left empty.
\<close>

theorem DeleteContext_encode_error_empties:
  assumes "NewKubeconfigForPath um (getenv w ''KUBECONFIG'') w = (Ok k, w)" and "RemoveContext c k = Ok k'"
    and "enc (kc_rootNode k') = Err e" and "creatable w (getenv w ''KUBECONFIG'')"
  shows "\<exists>e' w'. DeleteContext um enc c w = (Err e', w') \<and> file_bytes w' (getenv w ''KUBECONFIG'') = Some []"
proof -
  let ?p = "getenv w ''KUBECONFIG''"
  obtain bytes where "New um bytes ?p False = Ok k" using assms(1) by (auto simp: NewKubeconfigForPath_def bindIO_Ok_iff)
  then have "kc_path k' = ?p" "\<not> kc_useTmpFile k'" using New_path del.keeps_place [OF assms(2)] by auto
  then have "WriteKubeconfigFile enc k' w = (Err e, put_file 384 ?p [] w)"
    using assms(3,4) by (simp add: WriteKubeconfigFile_def bindIO_apply wrapIO_apply os_open_write_True)
  then show ?thesis using assms(1,2) by (simp add: DeleteContext_def os_Getenv_def bindIO_apply wrapIO_apply)
qed

text \<open>
  \<^verbatim>\<open>Clean\<close> without caches to flush removes every temporary kubeconfig and nothing else.
\<close>

theorem Clean_temporary_files:
  assumes "Clean_cmd stores w = (Ok (), w')" and "\<forall>s \<in> set stores. st_Flush s = None"
  shows "file_bytes w' q = (if q = TemporaryKubeconfigDir w \<or> HasPrefix q (TemporaryKubeconfigDir w @ ''/'') then None else file_bytes w q)"
proof -
  let ?d = "TemporaryKubeconfigDir w"
  have rd: "snd (tryIO (os_ReadDir ?d) returnIO (\<lambda>e. returnIO []) w) = w"
    by (auto simp: tryIO_apply os_ReadDir_def with_fault_def split: option.splits fentry.splits)
  have cl: "clean_stores stores v = (Ok (), v)" for v using assms(2) by (induction stores) auto
  obtain files where rd': "tryIO (os_ReadDir ?d) returnIO (\<lambda>e. returnIO []) w = (Ok files, w)"
    using assms(1) rd by (cases "tryIO (os_ReadDir ?d) returnIO (\<lambda>e. returnIO []) w")
      (auto simp: Clean_cmd_def Let_def bindIO_apply split: res.splits)
  then obtain w1 where rm: "os_RemoveAll ?d w = (Ok (), w1)" "disk w' = disk w1"
    using assms(1) cl by (auto simp: Clean_cmd_def Let_def bindIO_Ok_iff fmt_Print_def)
  then have d: "disk w' = filter (\<lambda>(q, f). q \<noteq> ?d \<and> \<not> HasPrefix q (?d @ slash)) (disk w)"
    by (auto simp: os_RemoveAll_def with_fault_def split: option.splits)
  have "map_of (filter (\<lambda>(q, f). P q) m) q = (if P q then map_of m q else None)" for P and m :: "(string \<times> fentry) list"
    by (induction m) auto
  from this [of "\<lambda>q. q \<noteq> ?d \<and> \<not> HasPrefix q (?d @ slash)"]
  show ?thesis unfolding file_bytes_def d by simp
qed

section \<open>Witnesses\<close>

definition cli_world :: world where
  "cli_world = sample_world\<lparr>getenv := (\<lambda>v. if v = ''HOME'' then ''/home/u'' else if v = ''KUBECONFIG'' then ''/home/u/.kube/config'' else []),
     disk := [(''/home/u'', DirE 493), (''/home/u/.kube'', DirE 448), (''/home/u/.kube/config'', FileE ''0'' 420),
       (''/home/u/.kube/.switch_tmp'', DirE 448), (''/home/u/.kube/.switch_tmp/config.9.tmp'', FileE ''0'' 384)]\<rparr>"

text \<open>A YAML library for the witnesses: it knows three trees, by number.\<close>

definition cli_trees :: "ynode list" where
  "cli_trees = (let k = sample_kc; k1 = (case RemoveContext ''prod'' k of Ok x \<Rightarrow> x | _ \<Rightarrow> k);
     k2 = (case SetNamespaceForCurrentContext ''n'' k of Ok x \<Rightarrow> x | _ \<Rightarrow> k)
   in [kc_rootNode k, kc_rootNode k1, kc_rootNode k2])"

definition cli_um :: "string \<Rightarrow> ynode res" where
  "cli_um bs = (if length bs \<le> 2 \<and> bs \<noteq> [] then Ok (YNode DocumentNode [] [] [cli_trees ! (length bs - 1)]) else
     if length bs = 3 then Ok (YNode DocumentNode [] [] [cli_trees ! 2]) else Err (LibErr ''yaml''))"

definition cli_enc :: "ynode \<Rightarrow> string res" where
  "cli_enc n = (if n = cli_trees ! 0 then Ok ''0'' else if n = cli_trees ! 1 then Ok ''00'' else
     if n = cli_trees ! 2 then Ok ''000'' else Err (LibErr ''yaml''))"

lemma cli_yaml: "cli_enc n = Ok bs \<Longrightarrow> \<exists>t v. cli_um bs = Ok (YNode DocumentNode t v [n])"
  by (auto simp: cli_enc_def cli_um_def split: if_splits)

lemma cli_read: "NewKubeconfigForPath cli_um ''/home/u/.kube/config'' cli_world =
    (Ok \<lparr>kc_path = ''/home/u/.kube/config'', kc_useTmpFile = False, kc_rootNode = kc_rootNode sample_kc\<rparr>, cli_world)"
proof -
  have "os_ReadFile ''/home/u/.kube/config'' cli_world = (Ok ''0'', cli_world)"
    by (simp add: os_ReadFile_Ok cli_world_def sample_world_def file_bytes_def)
  moreover have "cli_trees ! 0 = kc_rootNode sample_kc" by (simp add: cli_trees_def Let_def)
  moreover have "Kind (kc_rootNode sample_kc) = MappingNode" by (simp add: sample_kc_def map_node_def)
  ultimately show ?thesis by (simp add: NewKubeconfigForPath_def bindIO_apply wrapIO_apply New_def cli_um_def)
qed

lemma DeleteContext_in_place_witness:
  "\<exists>w'. DeleteContext cli_um cli_enc ''prod'' cli_world = (Ok (), w') \<and>
     file_bytes w' ''/home/u/.kube/.switch_tmp/config.9.tmp'' = Some ''0''"
proof -
  have "is_ok (fst (DeleteContext cli_um cli_enc ''prod'' cli_world))" by code_simp
  then obtain u w' where run: "DeleteContext cli_um cli_enc ''prod'' cli_world = (Ok u, w')"
    by (cases "DeleteContext cli_um cli_enc ''prod'' cli_world") (auto simp: is_ok_iff)
  have "file_bytes cli_world ''/home/u/.kube/.switch_tmp/config.9.tmp'' = Some ''0''" by code_simp
  moreover have "getenv cli_world ''KUBECONFIG'' = ''/home/u/.kube/config''" by code_simp
  ultimately show ?thesis using DeleteContext_in_place [of cli_um cli_enc "''prod''" cli_world w'] cli_yaml run by auto
qed

lemma history_setNamespace_in_place_witness:
  "\<exists>k w'. history_setNamespace cli_um cli_enc ''n'' ''/home/u/.kube/.switch_tmp/config.9.tmp'' cli_world = (Ok (), w') \<and>
     NewKubeconfigForPath cli_um ''/home/u/.kube/.switch_tmp/config.9.tmp'' w' = (Ok k, w')"
proof -
  let ?run = "history_setNamespace cli_um cli_enc ''n'' ''/home/u/.kube/.switch_tmp/config.9.tmp'' cli_world"
  have "is_ok (fst ?run)" by code_simp
  then obtain u w' where run: "?run = (Ok u, w')" by (cases ?run) (auto simp: is_ok_iff)
  then show ?thesis using history_setNamespace_in_place [of cli_um cli_enc _ _ cli_world w'] cli_yaml by fastforce
qed

lemma DeleteContext_encode_error_empties_witness:
  "\<exists>e' w'. DeleteContext cli_um (\<lambda>_. Err (LibErr ''yaml'')) ''prod'' cli_world = (Err e', w') \<and> file_bytes w' ''/home/u/.kube/config'' = Some []"
proof -
  let ?k = "\<lparr>kc_path = ''/home/u/.kube/config'', kc_useTmpFile = False, kc_rootNode = kc_rootNode sample_kc\<rparr>"
  have env: "getenv cli_world ''KUBECONFIG'' = ''/home/u/.kube/config''" by code_simp
  have "is_ok (RemoveContext ''prod'' ?k)" by code_simp
  then obtain k' where "RemoveContext ''prod'' ?k = Ok k'" by (auto simp: is_ok_iff)
  moreover have "creatable cli_world ''/home/u/.kube/config''" by code_simp
  ultimately show ?thesis
    using DeleteContext_encode_error_empties [of cli_um cli_world ?k "''prod''" k' "\<lambda>_. Err (LibErr ''yaml'')"] cli_read
    unfolding env by blast
qed

lemma Clean_temporary_files_witness:
  "\<exists>w'. Clean_cmd [cached_store] cli_world = (Ok (), w') \<and> file_bytes w' ''/home/u/.kube/.switch_tmp/config.9.tmp'' = None"
proof -
  have "is_ok (fst (Clean_cmd [cached_store] cli_world))" by code_simp
  then obtain u w' where run: "Clean_cmd [cached_store] cli_world = (Ok u, w')"
    by (cases "Clean_cmd [cached_store] cli_world") (auto simp: is_ok_iff)
  have "\<forall>s \<in> set [cached_store]. st_Flush s = None" by (simp add: cached_store_def)
  moreover have "HasPrefix ''/home/u/.kube/.switch_tmp/config.9.tmp'' (TemporaryKubeconfigDir cli_world @ ''/'')" by code_simp
  ultimately show ?thesis using Clean_temporary_files [of "[cached_store]" cli_world w'] run by auto
qed

lemma cli_parses_wf: "parses_wf cli_um"
proof -
  have "wf_node (cli_trees ! 0)" "wf_node (cli_trees ! 1)" "wf_node (cli_trees ! 2)" by code_simp+
  moreover have "length bs - 1 = 0 \<or> length bs - 1 = 1" if "length bs \<le> 2" for bs :: string using that by linarith
  ultimately show ?thesis by (fastforce simp: parses_wf_def cli_um_def)
qed

definition cli_found :: DiscoveredContext where
  "cli_found = \<lparr>dc_Path = ''p'', dc_Name = ''dev'', dc_Alias = ''d'', dc_Tags = [],
     dc_Store = Some (cached_store\<lparr>st_GetKubeconfigForPath := (\<lambda>p t. returnIO ''0'')\<rparr>), dc_Error = None\<rparr>"

lemma SetContext_switches_witness:
  "\<exists>tmp w' k. set_context_loop cli_um (\<lambda>n. Ok ''0'') ''d'' True [error_result (LibErr []), cli_found] [] cli_world = (Ok (tmp, ''d''), w') \<and>
     GetCurrentContext k = Ok ''dev'' \<and> GetKswitchContext k = Ok ''d''"
proof -
  let ?dcs = "[error_result (LibErr []), cli_found]"
  let ?run = "set_context_loop cli_um (\<lambda>n. Ok ''0'') ''d'' True ?dcs [] cli_world"
  have "is_ok (fst ?run)" by code_simp
  then obtain tmp ctx w' where run: "?run = (Ok (tmp, ctx), w')" by (cases ?run) (auto simp: is_ok_iff)
  have "find (target ''d'') ?dcs = Some cli_found"
    by (simp add: target_def error_result_def cli_found_def matches_def)
  then show ?thesis
    using SetContext_switches [OF cli_parses_wf, where desired = "''d''" and dcs = ?dcs and enc = "\<lambda>n. Ok ''0''" and appendToHistory = True and w = cli_world] run
    by (fastforce simp: cli_found_def without_prefix_def cached_store_def)
qed

end
