(* ===== verification/SwitchConfig.thy ===== *)
theory SwitchConfig
  imports Types
begin

text \<open>
  The configuration file: loading it, migrating the older format (\<^verbatim>\<open>pkg/config\<close>) and validating it
  (\<^verbatim>\<open>pkg/config/validation\<close>, \<^verbatim>\<open>pkg/store/gardener/validation.go\<close>, \<^verbatim>\<open>pkg/store/gke/validation.go\<close>).
\<close>

section \<open>Loading and migrating\<close>

definition ConvertConfiguration :: "ConfigOld \<Rightarrow> Config" where
  "ConvertConfiguration old =
     (let config = zero_config\<lparr>cfg_Kind := ''SwitchConfig'', cfg_Version := ''v1alpha1'',
            cfg_RefreshIndexAfter := old_KubeconfigRediscoveryInterval old, cfg_Hooks := old_Hooks old\<rparr>;
          config = (if length (old_KubeconfigName old) > 0
                    then config\<lparr>cfg_KubeconfigName := Some (old_KubeconfigName old)\<rparr> else config);
          filesystemStore = zero_store\<lparr>ks_ID := Some ''default'', ks_Kind := StoreKindFilesystem\<rparr>;
          vaultStore = zero_store\<lparr>ks_ID := Some ''default'', ks_Kind := StoreKindVault\<rparr>;
          vaultStore = (if length (old_VaultAPIAddress old) > 0
             then vaultStore\<lparr>ks_Config := Some (AnyVault \<lparr>VaultAPIAddress = old_VaultAPIAddress old,
                     VaultEngineVersion = [], VaultKeyKubeconfig = []\<rparr>)\<rparr> else vaultStore);
          (filesystemStore, vaultStore) = fold (\<lambda>path (f, v).
             if kp_Store path = StoreKindFilesystem then (f\<lparr>ks_Paths := ks_Paths f @ [kp_Path path]\<rparr>, v)
             else if kp_Store path = StoreKindVault then (f, v\<lparr>ks_Paths := ks_Paths v @ [kp_Path path]\<rparr>)
             else (f, v)) (old_KubeconfigPaths old) (filesystemStore, vaultStore);
          config = (if length (ks_Paths filesystemStore) > 0
             then config\<lparr>cfg_KubeconfigStores := cfg_KubeconfigStores config @ [filesystemStore]\<rparr> else config)
      in if length (ks_Paths vaultStore) > 0
         then config\<lparr>cfg_KubeconfigStores := cfg_KubeconfigStores config @ [vaultStore]\<rparr> else config)"

text \<open>The YAML library: \<^verbatim>\<open>mo\<close> writes the old format, \<^verbatim>\<open>mn\<close> the new one.\<close>

definition MigrateConfig ::
    "(ConfigOld \<Rightarrow> string res) \<Rightarrow> (Config \<Rightarrow> string res) \<Rightarrow> ConfigOld \<Rightarrow> string \<Rightarrow> Config io" where
  "MigrateConfig mo mn old filename =
     bindIO (wrapIO ''failed to migrate SwitchConfig file: %w'' [] (os_Create (filename @ ''.old''))) (\<lambda>_.
     bindIO (liftR (mo old)) (\<lambda>output.
     bindIO (file_Write (filename @ ''.old'') output) (\<lambda>_.
     let new = ConvertConfiguration old
     in bindIO (wrapIO ''failed to migrate SwitchConfig file: %w'' [] (os_Create filename)) (\<lambda>_.
        bindIO (liftR (mn new)) (\<lambda>output.
        bindIO (file_Write filename output) (\<lambda>_. returnIO new))))))"

text \<open>
  \<^verbatim>\<open>LoadConfigFromFile\<close>: \<^verbatim>\<open>un\<close> and \<^verbatim>\<open>uo\<close> decode the new and the old format, \<^verbatim>\<open>Ok None\<close> is a null
  document, which leaves a nil pointer. On an error of \<^verbatim>\<open>un\<close> the value is not looked at.
\<close>

definition LoadConfigFromFile ::
    "(string \<Rightarrow> Config option res) \<Rightarrow> (string \<Rightarrow> ConfigOld option res) \<Rightarrow> (ConfigOld \<Rightarrow> string res) \<Rightarrow>
     (Config \<Rightarrow> string res) \<Rightarrow> string \<Rightarrow> Config option io" where
  "LoadConfigFromFile un uo mo mn path = tryIO (os_Stat path)
     (\<lambda>_. bindIO (os_ReadFile path) (\<lambda>bytes.
        if length bytes = 0 then returnIO (Some zero_config)
        else
          (let try_old =
             (case uo bytes of
                Ok (Some oldConfig) \<Rightarrow> bindIO (MigrateConfig mo mn oldConfig path) (\<lambda>c. returnIO (Some c))
              | Ok None \<Rightarrow> failIO (Errorf ''could not unmarshal config with path '%s': %w'' [path])
              | Err e \<Rightarrow> failIO (Wrapf ''could not unmarshal config with path '%s': %w'' [path] e)
              | Panic p \<Rightarrow> liftR (Panic p))
           in case un bytes of
                Panic p \<Rightarrow> liftR (Panic p)
              | Err e \<Rightarrow> try_old
              | Ok None \<Rightarrow> liftR (Panic ''invalid memory address or nil pointer dereference'')
              | Ok (Some config) \<Rightarrow>
                  if length (cfg_Version config) = 0 \<and> length (cfg_KubeconfigStores config) = 0 then try_old
                  else returnIO (Some config))))
     (\<lambda>e. if IsNotExist e then returnIO None else failIO e)"

section \<open>Validation\<close>

text \<open>An error of a field: its path and the message.\<close>

datatype field_error = FInvalid string string | FRequired string string | FForbidden string string

abbreviation field_index :: "string \<Rightarrow> nat \<Rightarrow> string" where
  "field_index p i \<equiv> p @ ''['' @ itoa i @ '']''"

abbreviation field_child :: "string \<Rightarrow> string \<Rightarrow> string" where
  "field_child p c \<equiv> p @ ''.'' @ c"

text \<open>\<^verbatim>\<open>get_config\<close> is \<^verbatim>\<open>GetStoreConfig\<close> of the store's package: it decodes \<^verbatim>\<open>store.Config\<close>.\<close>

definition allowedPaths :: "string list" where
  "allowedPaths = [''/'', ''garden'']"

definition ValidateGardenerStoreConfiguration ::
    "(any_config \<Rightarrow> StoreConfigGardener res) \<Rightarrow> string \<Rightarrow> KubeconfigStore \<Rightarrow> string option \<times> field_error list" where
  "ValidateGardenerStoreConfiguration get_config path store =
     (let errors = concat (map (\<lambda>(i, p).
            (if p \<notin> set allowedPaths \<and> \<not> HasPrefix p ''garden-''
             then [FForbidden (field_index (field_child path ''paths'') i)
                     ''Search paths can only equal \"garden\" or have the prefix \"garden-\"''] else []) @
            (if p = ''/'' \<and> length (ks_Paths store) > 1
             then [FForbidden (field_index (field_child path ''paths'') i)
                     ''The search path \"/\" defines to search over all namespaces.''] else []))
            (enumerate 0 (ks_Paths store)));
          configPath = field_child path ''config''
      in case ks_Config store of
           None \<Rightarrow> (None, errors @ [FRequired configPath ''Missing configuration in the SwitchConfig file for the Gardener store''])
         | Some c \<Rightarrow>
             (case get_config c of
                Ok config \<Rightarrow>
                  (LandscapeName config, errors @
                     (if length (GardenerAPIKubeconfigPath config) = 0
                      then [FInvalid (field_child configPath ''gardenerAPIKubeconfigPath'')
                              ''The kubeconfig to the Gardener API server must be set''] else []) @
                     (if LandscapeName config = Some []
                      then [FInvalid (field_child configPath ''landscapeName'')
                              ''The optional Gardener landscape name must not be empty''] else []))
              | _ \<Rightarrow> (None, errors @ [FInvalid configPath ''cannot decode the configuration''])))"

definition ValidateGKEStoreConfiguration ::
    "(any_config \<Rightarrow> StoreConfigGKE res) \<Rightarrow> string \<Rightarrow> KubeconfigStore \<Rightarrow> field_error list" where
  "ValidateGKEStoreConfiguration get_config path store =
     (let errors = (if length (ks_Paths store) > 0
            then [FForbidden (field_child path ''paths'') ''Configuring paths for the GKE store is not allowed''] else []);
          configPath = field_child path ''config''
      in case ks_Config store of
           None \<Rightarrow> errors
         | Some c \<Rightarrow>
             (case get_config c of
                Ok config \<Rightarrow> errors @
                  (case gke_Authentication config of
                     None \<Rightarrow> []
                   | Some auth \<Rightarrow>
                       (case AuthenticationType auth of
                          None \<Rightarrow> []
                        | Some ty \<Rightarrow>
                            (if GCPAccount config \<noteq> None \<and> ty \<noteq> GcloudAuthentication
                             then [FInvalid (field_child configPath ''gcpAccount'')
                                     ''Can only specify a GCP account when using authentication via gcloud''] else []) @
                            (if ty = APIKeyAuthentication \<and> (case APIKeyFilePath auth of None \<Rightarrow> True | Some p \<Rightarrow> length p = 0)
                             then [FInvalid (field_child (field_child configPath ''gkeAuthentication'') ''apiKeyFilePath'')
                                     ''The filepath to the file containing thr GCP API key must be specified''] else []) @
                            (if ty = ServiceAccountAuthentication \<and>
                                (case ServiceAccountFilePath auth of None \<Rightarrow> True | Some p \<Rightarrow> length p = 0)
                             then [FInvalid (field_child (field_child configPath ''gkeAuthentication'') ''serviceAccountFilePath'')
                                     ''The filepath to the file containing thr GCP service account must be specified''] else [])))
              | _ \<Rightarrow> errors @ [FInvalid configPath ''cannot decode the configuration'']))"

definition validateHooks :: "string \<Rightarrow> Hook list \<Rightarrow> field_error list" where
  "validateHooks path hooks = concat (map (\<lambda>(i, hook).
     (if hook_Type hook \<notin> set ValidHookTypes
      then [FInvalid (field_child (field_index path i) ''type'') ''Unknown hook type.''] else []) @
     (if hook_Type hook = HookTypeExecutable \<and> hook_Path hook = None
      then [FRequired (field_child (field_index path i) ''path'') ''Path to the hook executable has to be provided''] else []) @
     (if hook_Type hook = HookTypeInlineCommand \<and> length (hook_Arguments hook) = 0
      then [FRequired (field_child (field_index path i) ''arguments'')
              ''arguments have to be provided for a hook with an inline command''] else [])) (enumerate 0 hooks))"

text \<open>One round of the loop over the stores; \<^verbatim>\<open>storeKinds\<close> is a set kept as a list.\<close>

definition validate_store ::
    "(any_config \<Rightarrow> StoreConfigGardener res) \<Rightarrow> (any_config \<Rightarrow> StoreConfigGKE res) \<Rightarrow> bool \<Rightarrow>
     nat \<times> KubeconfigStore \<Rightarrow> field_error list \<times> string list \<Rightarrow> field_error list \<times> string list" where
  "validate_store gardener gke usesIndex = (\<lambda>(i, store) (errors, storeKinds).
     (let id0 = (case ks_ID store of None \<Rightarrow> [] | Some x \<Rightarrow> x);
          storeUsesIndex = (usesIndex \<or> ks_RefreshIndexAfter store \<noteq> None);
          p = field_index ''kubeconfigStores'' i;
          e1 = (if ks_Kind store \<notin> set ValidStoreKinds
                then [FInvalid (field_child p ''kind'') ''kind %q of kubeconfig store is unknown.''] else []);
          e2 = (if ks_ID store \<noteq> None \<and> Contains id0 ''.''
                then [FInvalid (field_child p ''id'') ''store ID must not contain a dot''] else []);
          e3 = (if length (ks_Paths store) = 0 \<and> (ks_Kind store = StoreKindFilesystem \<or> ks_Kind store = StoreKindVault)
                then [FInvalid (field_child p ''paths'') ''Must provide at least one path for the kubeconfig store.''] else []);
          (landscapeName, e4) = (if ks_Kind store = StoreKindGardener
                then ValidateGardenerStoreConfiguration gardener p store else (None, []));
          storeid = (case landscapeName of
                Some l \<Rightarrow> if length l > 0 \<and> ks_ID store = None then l else id0
              | None \<Rightarrow> id0);
          e5 = (if ks_Kind store = StoreKindGKE then ValidateGKEStoreConfiguration gke p store else []);
          key = ks_Kind store @ '':'' @ storeid;
          e6 = (if storeUsesIndex \<and> key \<in> set storeKinds
                then [FInvalid (field_child p ''id'') ''there are multiple kubeconfig stores with the same Kind %q configured.'']
                else [])
      in (errors @ e1 @ e2 @ e3 @ e4 @ e5 @ e6, key # storeKinds)))"

definition ValidateConfig ::
    "(any_config \<Rightarrow> StoreConfigGardener res) \<Rightarrow> (any_config \<Rightarrow> StoreConfigGKE res) \<Rightarrow> Config \<Rightarrow> field_error list" where
  "ValidateConfig gardener gke config =
     (let usesIndex = (cfg_RefreshIndexAfter config \<noteq> None);
          e0 = (if cfg_Version config \<notin> set ValidConfigVersions
                then [FInvalid ''version'' ''Config version %q is unknown.''] else []);
          (errors, storeKinds) = fold (validate_store gardener gke usesIndex)
             (enumerate 0 (cfg_KubeconfigStores config)) (e0, [])
      in if length (cfg_Hooks config) > 0 then errors @ validateHooks ''hooks'' (cfg_Hooks config) else errors)"

section \<open>What an accepted configuration guarantees\<close>

text \<open>The key under which \<^verbatim>\<open>ValidateConfig\<close> remembers a store, as the loop computes it.\<close>

definition store_key :: "(any_config \<Rightarrow> StoreConfigGardener res) \<Rightarrow> KubeconfigStore \<Rightarrow> string" where
  "store_key gardener store =
     (let id0 = (case ks_ID store of None \<Rightarrow> [] | Some x \<Rightarrow> x);
          l = (if ks_Kind store = StoreKindGardener
               then fst (ValidateGardenerStoreConfiguration gardener [] store) else None)
      in ks_Kind store @ '':'' @ (case l of
           Some n \<Rightarrow> if length n > 0 \<and> ks_ID store = None then n else id0 | None \<Rightarrow> id0))"

lemma gardener_landscape_path:
  "fst (ValidateGardenerStoreConfiguration gc p s) = fst (ValidateGardenerStoreConfiguration gc q s)"
  by (simp add: ValidateGardenerStoreConfiguration_def Let_def split: option.splits res.splits)

definition store_ok :: "KubeconfigStore \<Rightarrow> bool" where
  "store_ok s \<longleftrightarrow> ks_Kind s \<in> set ValidStoreKinds \<and>
     (case ks_ID s of None \<Rightarrow> True | Some x \<Rightarrow> CHR ''.'' \<notin> set x) \<and>
     (ks_Kind s = StoreKindFilesystem \<or> ks_Kind s = StoreKindVault \<longrightarrow> ks_Paths s \<noteq> [])"

lemma validate_store_result:
  "\<exists>e. validate_store gardener gke ui (i, s) (es, kinds) = (es @ e, store_key gardener s # kinds) \<and>
     (e = [] \<longrightarrow> store_ok s \<and> (ui \<or> ks_RefreshIndexAfter s \<noteq> None \<longrightarrow> store_key gardener s \<notin> set kinds))"
proof -
  obtain l e4 where g: "(if ks_Kind s = StoreKindGardener
       then ValidateGardenerStoreConfiguration gardener (field_index ''kubeconfigStores'' i) s else (None, [])) = (l, e4)"
    by fastforce
  then have l: "l = (if ks_Kind s = StoreKindGardener then fst (ValidateGardenerStoreConfiguration gardener [] s) else None)"
    using gardener_landscape_path by (metis fst_conv)
  show ?thesis
    unfolding validate_store_def Let_def prod.case g
    by (auto simp: store_key_def l [symmetric] store_ok_def Contains_single split: option.splits if_splits)
qed

lemma validate_stores_result:
  "\<exists>e. fold (validate_store gardener gke ui) (enumerate n ss) (es, kinds) =
       (es @ e, rev (map (store_key gardener) ss) @ kinds) \<and>
     (e = [] \<longrightarrow> list_all store_ok ss \<and>
        (\<forall>j < length ss. ui \<or> ks_RefreshIndexAfter (ss ! j) \<noteq> None \<longrightarrow>
           store_key gardener (ss ! j) \<notin> set kinds \<union> store_key gardener ` set (take j ss)))"
proof (induction ss arbitrary: n es kinds)
  case (Cons s ss)
  obtain e1 where 1: "validate_store gardener gke ui (n, s) (es, kinds) = (es @ e1, store_key gardener s # kinds)"
      "e1 = [] \<longrightarrow> store_ok s \<and> (ui \<or> ks_RefreshIndexAfter s \<noteq> None \<longrightarrow> store_key gardener s \<notin> set kinds)"
    using validate_store_result by blast
  obtain e2 where 2: "fold (validate_store gardener gke ui) (enumerate (Suc n) ss) (es @ e1, store_key gardener s # kinds) =
       ((es @ e1) @ e2, rev (map (store_key gardener) ss) @ store_key gardener s # kinds)"
     "e2 = [] \<longrightarrow> list_all store_ok ss \<and>
        (\<forall>j < length ss. ui \<or> ks_RefreshIndexAfter (ss ! j) \<noteq> None \<longrightarrow>
           store_key gardener (ss ! j) \<notin> set (store_key gardener s # kinds) \<union> store_key gardener ` set (take j ss))"
    using Cons.IH [of "Suc n" "es @ e1" "store_key gardener s # kinds"] by blast
  have "store_key gardener ((s # ss) ! j) \<notin> set kinds \<union> store_key gardener ` set (take j (s # ss))"
    if e: "e1 @ e2 = []" and j: "j < length (s # ss)" and u: "ui \<or> ks_RefreshIndexAfter ((s # ss) ! j) \<noteq> None" for j
  proof (cases j)
    case 0
    then show ?thesis using 1(2) e u by auto
  next
    case (Suc m)
    then have "store_key gardener (ss ! m) \<notin> set (store_key gardener s # kinds) \<union> store_key gardener ` set (take m ss)"
      using 2(2) e j u by auto
    then show ?thesis using Suc by simp
  qed
  then show ?case
    using 1 2 by (intro exI [of _ "e1 @ e2"]) simp
qed simp

lemma accepted_stores_ok:
  assumes "ValidateConfig gardener gke config = []"
  shows "list_all store_ok (cfg_KubeconfigStores config)"
proof -
  let ?ui = "cfg_RefreshIndexAfter config \<noteq> None"
  let ?e0 = "if cfg_Version config \<notin> set ValidConfigVersions then [FInvalid ''version'' ''Config version %q is unknown.''] else []"
  obtain e where e: "fold (validate_store gardener gke ?ui) (enumerate 0 (cfg_KubeconfigStores config)) (?e0, []) =
       (?e0 @ e, rev (map (store_key gardener) (cfg_KubeconfigStores config)) @ [])"
    "e = [] \<longrightarrow> list_all store_ok (cfg_KubeconfigStores config)"
    using validate_stores_result by blast
  from assms have "e = []" unfolding ValidateConfig_def Let_def e(1) by (auto split: if_splits)
  then show ?thesis using e(2) by simp
qed

text \<open>
  The name a store has of its own: its id or, for a Gardener store without one, its landscape; and the
  id that \<^verbatim>\<open>GetID\<close> of \<^verbatim>\<open>base.go\<close> and of the Gardener store make of it, which names the index file.
\<close>

definition own_id :: "(any_config \<Rightarrow> StoreConfigGardener res) \<Rightarrow> KubeconfigStore \<Rightarrow> string option" where
  "own_id gardener s = (case ks_ID s of Some i \<Rightarrow> Some i
     | None \<Rightarrow> if ks_Kind s = ''gardener''
         then (case ks_Config s of None \<Rightarrow> None
           | Some c \<Rightarrow> (case gardener c of Ok g \<Rightarrow> LandscapeName g | _ \<Rightarrow> None))
         else None)"

definition full_id :: "(any_config \<Rightarrow> StoreConfigGardener res) \<Rightarrow> KubeconfigStore \<Rightarrow> string" where
  "full_id gardener s = ks_Kind s @ ''.'' @ (case own_id gardener s of None \<Rightarrow> ''default'' | Some i \<Rightarrow> i)"

lemma store_key_own:
  "store_key gardener s = ks_Kind s @ '':'' @ (case own_id gardener s of None \<Rightarrow> [] | Some i \<Rightarrow> i)"
  by (auto simp: store_key_def own_id_def Let_def ValidateGardenerStoreConfiguration_def StoreKindGardener_def
    split: option.splits res.splits)

lemma valid_kind_no_dot: "store_ok s \<Longrightarrow> CHR ''.'' \<notin> set (ks_Kind s)"
proof -
  have "list_all (\<lambda>k. CHR ''.'' \<notin> set k) ValidStoreKinds" by (simp add: ValidStoreKinds_def go_defs)
  then show "store_ok s \<Longrightarrow> CHR ''.'' \<notin> set (ks_Kind s)" by (simp add: store_ok_def list_all_iff)
qed

lemma full_id_shared:
  assumes "store_ok a" "store_ok b" "full_id gardener a = full_id gardener b" "store_key gardener a \<noteq> store_key gardener b"
  shows "{own_id gardener a, own_id gardener b} = {None, Some ''default''}"
proof -
  let ?n = "\<lambda>s. case own_id gardener s of None \<Rightarrow> ''default'' | Some i \<Rightarrow> i"
  have "Cut (full_id gardener s) ''.'' = Some (ks_Kind s, ?n s)" if "store_ok s" for s
    using Cut_single [OF valid_kind_no_dot [OF that]] by (simp add: full_id_def)
  then have "ks_Kind a = ks_Kind b" "?n a = ?n b" using assms(1-3) by (metis option.inject prod.inject)+
  then show ?thesis using assms(4)
    by (cases "own_id gardener a"; cases "own_id gardener b") (auto simp: store_key_own)
qed

text \<open>
  C29. A configuration that \<^verbatim>\<open>ValidateConfig\<close> accepts has a known version and known store kinds, no store
  id with a dot, a path for each filesystem and vault store, and no store that uses an index has the
  kind and the id of an earlier one. Hence a store that uses an index has an index file of its own
  among the stores before it, with one exception that the validation overlooks: a store without
  any id and one of the same kind whose id is \<^verbatim>\<open>default\<close> have the same full id. (The full id is the
  one of \<^verbatim>\<open>base.go\<close> and of the Gardener store; a plugin makes up its own.)
\<close>

theorem ValidateConfig_sound:
  assumes "ValidateConfig gardener gke config = []"
  shows "cfg_Version config = ''v1alpha1'' \<and> list_all store_ok (cfg_KubeconfigStores config) \<and>
     (\<forall>i j. i < j \<and> j < length (cfg_KubeconfigStores config) \<and>
        (cfg_RefreshIndexAfter config \<noteq> None \<or> ks_RefreshIndexAfter (cfg_KubeconfigStores config ! j) \<noteq> None) \<longrightarrow>
        store_key gardener (cfg_KubeconfigStores config ! i) \<noteq> store_key gardener (cfg_KubeconfigStores config ! j) \<and>
        (full_id gardener (cfg_KubeconfigStores config ! i) = full_id gardener (cfg_KubeconfigStores config ! j) \<longrightarrow>
         {own_id gardener (cfg_KubeconfigStores config ! i), own_id gardener (cfg_KubeconfigStores config ! j)} =
         {None, Some ''default''})) \<and>
     validateHooks ''hooks'' (cfg_Hooks config) = []"
proof -
  let ?ss = "cfg_KubeconfigStores config" and ?ui = "cfg_RefreshIndexAfter config \<noteq> None"
  let ?e0 = "if cfg_Version config \<notin> set ValidConfigVersions then [FInvalid ''version'' ''Config version %q is unknown.''] else []"
  obtain e where e: "fold (validate_store gardener gke ?ui) (enumerate 0 ?ss) (?e0, []) =
       (?e0 @ e, rev (map (store_key gardener) ?ss) @ [])"
     "e = [] \<longrightarrow> list_all store_ok ?ss \<and>
        (\<forall>j < length ?ss. ?ui \<or> ks_RefreshIndexAfter (?ss ! j) \<noteq> None \<longrightarrow>
           store_key gardener (?ss ! j) \<notin> set [] \<union> store_key gardener ` set (take j ?ss))"
    using validate_stores_result by blast
  from assms have z: "?e0 = []" "e = []" "validateHooks ''hooks'' (cfg_Hooks config) = []"
    unfolding ValidateConfig_def Let_def e(1) by (auto simp: validateHooks_def split: if_splits)
  have "store_key gardener (?ss ! i) \<noteq> store_key gardener (?ss ! j)"
    if "i < j" "j < length ?ss" "?ui \<or> ks_RefreshIndexAfter (?ss ! j) \<noteq> None" for i j
  proof -
    have "?ss ! i \<in> set (take j ?ss)" using that by (auto simp: in_set_conv_nth intro!: exI [of _ i])
    then show ?thesis using e(2) z(2) that by (metis UnCI image_eqI)
  qed
  moreover have "{own_id gardener (?ss ! i), own_id gardener (?ss ! j)} = {None, Some ''default''}"
    if "i < j" "j < length ?ss" "?ui \<or> ks_RefreshIndexAfter (?ss ! j) \<noteq> None"
      "full_id gardener (?ss ! i) = full_id gardener (?ss ! j)" for i j
  proof -
    have "store_ok (?ss ! i)" "store_ok (?ss ! j)" using e(2) z(2) that(1,2) by (simp_all add: list_all_length)
    from full_id_shared [OF this that(4) calculation [OF that(1-3)]] show ?thesis .
  qed
  ultimately show ?thesis using e(2) z by (auto simp: ValidConfigVersions_def split: if_splits)
qed

section \<open>The migration\<close>

definition old_paths :: "StoreKind \<Rightarrow> ConfigOld \<Rightarrow> string list" where
  "old_paths kind old = map kp_Path (filter (\<lambda>p. kp_Store p = kind) (old_KubeconfigPaths old))"

lemma migrate_fold:
  "fold (\<lambda>path (f, v).
     if kp_Store path = StoreKindFilesystem then (f\<lparr>ks_Paths := ks_Paths f @ [kp_Path path]\<rparr>, v)
     else if kp_Store path = StoreKindVault then (f, v\<lparr>ks_Paths := ks_Paths v @ [kp_Path path]\<rparr>)
     else (f, v)) ps (f, v) =
   (f\<lparr>ks_Paths := ks_Paths f @ map kp_Path (filter (\<lambda>p. kp_Store p = StoreKindFilesystem) ps)\<rparr>,
    v\<lparr>ks_Paths := ks_Paths v @ map kp_Path (filter (\<lambda>p. kp_Store p = StoreKindVault) ps)\<rparr>)"
  by (induction ps arbitrary: f v) (auto simp: go_defs)

definition migrated_stores :: "ConfigOld \<Rightarrow> KubeconfigStore list" where
  "migrated_stores old =
     (if old_paths StoreKindFilesystem old = [] then []
      else [zero_store\<lparr>ks_ID := Some ''default'', ks_Kind := StoreKindFilesystem, ks_Paths := old_paths StoreKindFilesystem old\<rparr>]) @
     (if old_paths StoreKindVault old = [] then []
      else [zero_store\<lparr>ks_ID := Some ''default'', ks_Kind := StoreKindVault, ks_Paths := old_paths StoreKindVault old,
              ks_Config := (if old_VaultAPIAddress old = [] then None
                else Some (AnyVault \<lparr>VaultAPIAddress = old_VaultAPIAddress old, VaultEngineVersion = [], VaultKeyKubeconfig = []\<rparr>))\<rparr>])"

lemma ConvertConfiguration_fields:
  "cfg_KubeconfigStores (ConvertConfiguration old) = migrated_stores old"
  "cfg_Version (ConvertConfiguration old) = ''v1alpha1''"
  "cfg_Hooks (ConvertConfiguration old) = old_Hooks old"
  "cfg_RefreshIndexAfter (ConvertConfiguration old) = old_KubeconfigRediscoveryInterval old"
  by (simp_all add: ConvertConfiguration_def Let_def migrate_fold old_paths_def zero_store_def zero_config_def migrated_stores_def)

text \<open>
  The migration of an old configuration keeps every filesystem and vault path in its order,
  under one store per kind, and its result passes the validation, apart from complaints about
  the hooks, which are taken over as they are.
\<close>

theorem migration_valid:
  "ValidateConfig gardener gke (ConvertConfiguration old) = validateHooks ''hooks'' (old_Hooks old) \<and>
   concat (map ks_Paths (cfg_KubeconfigStores (ConvertConfiguration old))) =
     old_paths StoreKindFilesystem old @ old_paths StoreKindVault old \<and>
   cfg_RefreshIndexAfter (ConvertConfiguration old) = old_KubeconfigRediscoveryInterval old"
proof -
  have "\<exists>k. fold (validate_store gardener gke ui) (enumerate 0 (migrated_stores old)) ([], []) = ([], k)" for ui
    by (simp add: migrated_stores_def validate_store_def Let_def zero_store_def ValidStoreKinds_def go_defs Contains_single)
  then obtain k where v: "fold (validate_store gardener gke (old_KubeconfigRediscoveryInterval old \<noteq> None))
      (enumerate 0 (migrated_stores old)) ([], []) = ([], k)" by blast
  have "ValidateConfig gardener gke (ConvertConfiguration old) = validateHooks ''hooks'' (old_Hooks old)"
    by (simp add: ValidateConfig_def Let_def ConvertConfiguration_fields ValidConfigVersions_def v [simplified] validateHooks_def)
  then show ?thesis by (simp add: ConvertConfiguration_fields migrated_stores_def zero_store_def)
qed

section \<open>Loading\<close>

text \<open>
  C30. Loading an old configuration file rewrites it once: the old content is kept under \<^verbatim>\<open>.old\<close>, and
  loading the file again gives the same configuration and changes nothing. A file counts as old when
  it is no configuration in the new format, or when it decodes to one with neither a version
  nor stores, as an old file does. (Reading and writing do not fail, and the file written decodes to what
  was encoded.)
\<close>

theorem load_migrates_once:
  assumes "file_bytes w path = Some bytes" "bytes \<noteq> []" "faults w = (\<lambda>_ _. None)"
    and "case un bytes of Err e \<Rightarrow> True | Ok (Some c) \<Rightarrow> cfg_Version c = [] \<and> cfg_KubeconfigStores c = [] | _ \<Rightarrow> False"
    and "uo bytes = Ok (Some old)" "mo old = Ok obs" "mn (ConvertConfiguration old) = Ok nbs" "nbs \<noteq> []"
    and yaml: "un nbs = Ok (Some (ConvertConfiguration old))"
    and "writable w path" "writable w (path @ ''.old'')"
  shows "\<exists>w'. LoadConfigFromFile un uo mo mn path w = (Ok (Some (ConvertConfiguration old)), w') \<and>
     file_bytes w' (path @ ''.old'') = Some obs \<and> file_bytes w' path = Some nbs \<and>
     LoadConfigFromFile un uo mo mn path w' = (Ok (Some (ConvertConfiguration old)), w')"
proof -
  let ?o = "path @ ''.old''"
  let ?w1 = "put_file 438 ?o obs w" and ?w2 = "put_file 438 path nbs (put_file 438 ?o obs w)"
  obtain f where st: "os_Stat path w = (Ok f, w)"
    using assms(1,3) by (auto simp: os_Stat_def with_fault_def file_bytes_def split: option.splits)
  have rd: "os_ReadFile path w = (Ok bytes, w)" using assms(1,3) by (simp add: os_ReadFile_Ok)
  have c1: "creatable w ?o" and c2: "creatable ?w1 path"
    using assms(1,10,11) by (auto simp: writable_def creatable_def put_file_def file_bytes_def split: option.splits fentry.splits)
  have mig: "MigrateConfig mo mn old path w = (Ok (ConvertConfiguration old), ?w2)"
    using assms(3,6,7) c1 c2
    by (simp add: MigrateConfig_def bindIO_apply wrapIO_apply os_Create_def os_open_write_True file_Write_after_open Let_def)
  have "LoadConfigFromFile un uo mo mn path w = (Ok (Some (ConvertConfiguration old)), ?w2)"
    using st rd assms(2,4,5) mig
    by (auto simp: LoadConfigFromFile_def tryIO_apply bindIO_apply Let_def split: res.splits option.splits)
  moreover have "LoadConfigFromFile un uo mo mn path ?w2 = (Ok (Some (ConvertConfiguration old)), ?w2)"
  proof -
    obtain f2 where "os_Stat path ?w2 = (Ok f2, ?w2)"
      using assms(3) by (auto simp: os_Stat_def with_fault_def put_file_def)
    moreover have "os_ReadFile path ?w2 = (Ok nbs, ?w2)" using assms(3) by (simp add: os_ReadFile_Ok)
    ultimately show ?thesis
      using yaml assms(8) by (simp add: LoadConfigFromFile_def tryIO_apply bindIO_apply ConvertConfiguration_fields)
  qed
  ultimately show ?thesis by (intro exI [of _ ?w2]) simp
qed

text \<open>
  A configuration file whose only document is null makes the load panic: the decoder leaves a nil
  pointer, whose version is read next.
\<close>

theorem load_null_document_panics:
  assumes "file_bytes w path = Some bytes" "bytes \<noteq> []" "faults w = (\<lambda>_ _. None)" "un bytes = Ok None"
  shows "is_panic (fst (LoadConfigFromFile un uo mo mn path w))"
proof -
  obtain f where "os_Stat path w = (Ok f, w)"
    using assms(1,3) by (auto simp: os_Stat_def with_fault_def file_bytes_def split: option.splits)
  moreover have "os_ReadFile path w = (Ok bytes, w)" using assms(1,3) by (simp add: os_ReadFile_Ok)
  ultimately show ?thesis using assms(2,4) by (simp add: LoadConfigFromFile_def tryIO_apply bindIO_apply Let_def)
qed

section \<open>Witnesses\<close>

definition two_stores :: Config where
  "two_stores = zero_config\<lparr>cfg_Version := ''v1alpha1'', cfg_RefreshIndexAfter := Some 3600,
     cfg_KubeconfigStores := [zero_store\<lparr>ks_Kind := ''eks'', ks_ID := Some ''a''\<rparr>,
       zero_store\<lparr>ks_Kind := ''eks'', ks_ID := Some ''b''\<rparr>]\<rparr>"

definition config_world :: world where
  "config_world = \<lparr>disk = [(''/c'', DirE 448), (''/c/f'', FileE ''old'' 384)], faults = (\<lambda>_ _. None), getenv = (\<lambda>_. []),
     clock = 0, umask = 18, rnd = (\<lambda>_. ''1''), rnd_pos = 0, out = []\<rparr>"

definition sample_old :: ConfigOld where
  "sample_old = \<lparr>old_Kind = ''SwitchConfig'', old_KubeconfigName = [], old_KubeconfigRediscoveryInterval = None,
     old_VaultAPIAddress = [], old_Hooks = [],
     old_KubeconfigPaths = [\<lparr>kp_Path = ''~/.kube'', kp_Store = ''filesystem''\<rparr>]\<rparr>"

lemma ValidateConfig_sound_witness:
  "store_key (\<lambda>_. Err (LibErr [])) (cfg_KubeconfigStores two_stores ! 0) \<noteq>
     store_key (\<lambda>_. Err (LibErr [])) (cfg_KubeconfigStores two_stores ! 1)"
proof -
  have v: "ValidateConfig (\<lambda>_. Err (LibErr [])) (\<lambda>_. Err (LibErr [])) two_stores = []" by code_simp
  have l: "length (cfg_KubeconfigStores two_stores) = 2" "cfg_RefreshIndexAfter two_stores \<noteq> None"
    by (simp_all add: two_stores_def)
  show ?thesis using ValidateConfig_sound [OF v] l by auto
qed

lemma load_migrates_once_witness:
  "\<exists>w'. LoadConfigFromFile (\<lambda>b. Ok (Some (if b = ''new'' then ConvertConfiguration sample_old else zero_config)))
      (\<lambda>_. Ok (Some sample_old)) (\<lambda>_. Ok ''o'') (\<lambda>_. Ok ''new'') ''/c/f'' config_world =
      (Ok (Some (ConvertConfiguration sample_old)), w') \<and> file_bytes w' ''/c/f.old'' = Some ''o''"
proof -
  let ?un = "\<lambda>b. Ok (Some (if b = ''new'' then ConvertConfiguration sample_old else zero_config))"
  have h: "file_bytes config_world ''/c/f'' = Some ''old''" "''old'' \<noteq> []" "faults config_world = (\<lambda>_ _. None)"
    "case ?un ''old'' of Err e \<Rightarrow> True | Ok (Some c) \<Rightarrow> cfg_Version c = [] \<and> cfg_KubeconfigStores c = [] | _ \<Rightarrow> False"
    by (simp_all add: config_world_def file_bytes_def zero_config_def)
  have w: "writable config_world ''/c/f''" "writable config_world (''/c/f'' @ ''.old'')" by code_simp+
  show ?thesis
    using load_migrates_once [of config_world "''/c/f''" "''old''" ?un "\<lambda>_. Ok (Some sample_old)" sample_old
        "\<lambda>_. Ok ''o''" "''o''" "\<lambda>_. Ok ''new''" "''new''", OF h] w
    by auto
qed

lemma load_null_document_panics_witness:
  "is_panic (fst (LoadConfigFromFile (\<lambda>_. Ok None) (\<lambda>_. Ok None) (\<lambda>_. Ok []) (\<lambda>_. Ok []) ''/c/f'' config_world))"
proof -
  have "file_bytes config_world ''/c/f'' = Some ''old''" "''old'' \<noteq> []" "faults config_world = (\<lambda>_ _. None)"
    by (simp_all add: config_world_def file_bytes_def)
  from load_null_document_panics [OF this] show ?thesis by simp
qed

end
