(* ===== verification/Hooks.thy ===== *)
theory Hooks
  imports SwitchConfig
begin

text \<open>
  Hooks (\<^verbatim>\<open>pkg/subcommands/hooks/hooks.go\<close>, \<^verbatim>\<open>pkg/state/state.go\<close>): which hooks are due, the state file
  with the time of the last execution, running them and listing them. \<^verbatim>\<open>load\<close> is
  \<^verbatim>\<open>LoadConfigFromFile\<close>, \<^verbatim>\<open>um\<close> and \<^verbatim>\<open>marshal\<close> are the YAML library on the state, and \<^verbatim>\<open>run\<close> starts an
  external command and gives its output lines or the error of \<^verbatim>\<open>Start\<close> or \<^verbatim>\<open>Wait\<close>.
\<close>

section \<open>The state of a hook\<close>

definition zero_hook_state :: HookState where
  "zero_hook_state = \<lparr>hs_HookName = [], hs_LastExecutionTime = 0\<rparr>"

definition GetHookState :: "(string \<Rightarrow> HookState option res) \<Rightarrow> string \<Rightarrow> HookState option io" where
  "GetHookState um path = tryIO (os_Stat path)
     (\<lambda>_. bindIO (os_ReadFile path) (\<lambda>bytes.
        if length bytes = 0 then returnIO (Some zero_hook_state)
        else wrapIO ''could not unmarshal hook state file with path '%s': %w'' [path] (liftR (um bytes))))
     (\<lambda>e. if IsNotExist e then returnIO None else failIO e)"

definition UpdateHookState :: "(HookState \<Rightarrow> string res) \<Rightarrow> string \<Rightarrow> string \<Rightarrow> unit io" where
  "UpdateHookState marshal hookName stateFileName =
     bindIO (os_Create stateFileName) (\<lambda>_.
     bindIO time_Now (\<lambda>now.
     bindIO (liftR (marshal \<lparr>hs_HookName = hookName, hs_LastExecutionTime = now\<rparr>)) (\<lambda>output.
     file_Write stateFileName output)))"

section \<open>Running\<close>

definition getHookForName :: "Config \<Rightarrow> string \<Rightarrow> Hook option" where
  "getHookForName c name = List.find (\<lambda>hook. hook_Name hook = name) (cfg_Hooks c)"

definition getHookStateFileName :: "string \<Rightarrow> string \<Rightarrow> string" where
  "getHookStateFileName hookName stateDir = stateDir @ ''/hookstate-'' @ hookName @ ''.yaml''"

definition getHooksToBeExecuted ::
    "(string \<Rightarrow> HookState option res) \<Rightarrow> Hook list \<Rightarrow> string \<Rightarrow> Hook list io" where
  "getHooksToBeExecuted um hooks stateDir = foldIO (\<lambda>hook acc.
     if hook_Type hook \<noteq> HookTypeExecutable \<and> hook_Type hook \<noteq> HookTypeInlineCommand then returnIO acc
     else case hook_Execution hook of
       None \<Rightarrow> returnIO acc
     | Some None \<Rightarrow> returnIO acc
     | Some (Some interval) \<Rightarrow>
         tryIO (GetHookState um (getHookStateFileName (hook_Name hook) stateDir))
           (\<lambda>hookState. case hookState of
              None \<Rightarrow> returnIO (acc @ [hook])
            | Some st \<Rightarrow> bindIO time_Now (\<lambda>now.
                returnIO (if now > hs_LastExecutionTime st + interval then acc @ [hook] else acc)))
           (\<lambda>e. returnIO acc)) hooks []"

definition executeHook :: "(string \<Rightarrow> string list \<Rightarrow> string list io) \<Rightarrow> Hook \<Rightarrow> unit io" where
  "executeHook run hook =
     bindIO
       (if hook_Type hook = HookTypeInlineCommand then
          (if length (hook_Arguments hook) = 0
           then failIO (Errorf ''cannot execute hook %q - inline command has no arguments'' [hook_Name hook])
           else returnIO (''bash'', ''-c'' # hook_Arguments hook))
        else case hook_Path hook of
          None \<Rightarrow> failIO (Errorf ''cannot execute hook %q - no executable path set'' [hook_Name hook])
        | Some path \<Rightarrow>
            if length path = 0
            then failIO (Errorf ''cannot execute hook %q - no executable path set'' [hook_Name hook])
            else tryIO (os_Stat path) (\<lambda>_. returnIO (path, hook_Arguments hook))
              (\<lambda>_. failIO (Errorf ''cannot find executable for hook with name %q. File does not exist: %q'' [hook_Name hook, path])))
       (\<lambda>(cmd, args). bindIO (wrapIO ''error running hook %q: %+w'' [hook_Name hook] (run cmd args)) (\<lambda>_. returnIO ()))"

definition run_hooks ::
    "(HookState \<Rightarrow> string res) \<Rightarrow> (string \<Rightarrow> string list \<Rightarrow> string list io) \<Rightarrow> string \<Rightarrow> Hook list \<Rightarrow> unit io" where
  "run_hooks marshal run stateDirectory hooks = foldIO (\<lambda>hook _.
     bindIO (UpdateHookState marshal (hook_Name hook) (getHookStateFileName (hook_Name hook) stateDirectory))
       (\<lambda>_. ignoreIO (executeHook run hook))) hooks ()"

definition RunHooks ::
    "(string \<Rightarrow> Config option io) \<Rightarrow> (string \<Rightarrow> HookState option res) \<Rightarrow> (HookState \<Rightarrow> string res) \<Rightarrow>
     (string \<Rightarrow> string list \<Rightarrow> string list io) \<Rightarrow> string \<Rightarrow> string \<Rightarrow> string \<Rightarrow> bool \<Rightarrow> unit io" where
  "RunHooks load_config um marshal run configPath stateDirectory flagHookName runImmediately =
     bindIO (load_config configPath) (\<lambda>config.
       case config of
         None \<Rightarrow> returnIO ()
       | Some c \<Rightarrow>
           if length (cfg_Hooks c) = 0 then returnIO ()
           else bindIO (tryIO (os_Mkdir stateDirectory 448) returnIO
                  (\<lambda>e. if \<not> IsExist e then failIO e else returnIO ())) (\<lambda>_.
             bindIO
               (if length flagHookName > 0 then
                  (case getHookForName c flagHookName of
                     None \<Rightarrow> failIO (Errorf ''no hook with name %q found'' [flagHookName])
                   | Some hook \<Rightarrow> returnIO [hook])
                else if runImmediately then returnIO (cfg_Hooks c)
                else getHooksToBeExecuted um (cfg_Hooks c) stateDirectory)
               (\<lambda>hooksToBeExecuted.
                  if length hooksToBeExecuted = 0 then returnIO ()
                  else run_hooks marshal run stateDirectory hooksToBeExecuted)))"

section \<open>Listing\<close>

datatype next_execution = NextOnDemand | NextUnknown | NextNow | NextIn int

text \<open>\<^verbatim>\<open>d.Round(m)\<close>: to the nearest multiple, halves away from zero.\<close>

definition duration_round :: "int \<Rightarrow> int \<Rightarrow> int" where
  "duration_round d m = (if d \<ge> 0 then (let r = d mod m in if 2 * r < m then d - r else d + m - r)
     else (let r = (- d) mod m in if 2 * r < m then d + r else d - m + r))"

definition minute :: int where
  "minute = 60000000000"

text \<open>
  A row of the table: name, type, interval (\<^verbatim>\<open>None\<close> is \<^verbatim>\<open>OnDemand\<close>) and next execution. The interval's
  \<^verbatim>\<open>String\<close> method dereferences the pointer.
\<close>

definition list_hook ::
    "(string \<Rightarrow> HookState option res) \<Rightarrow> string \<Rightarrow> Hook \<Rightarrow> (string \<times> HookType \<times> int option \<times> next_execution) io" where
  "list_hook um stateDir hook =
     (case hook_Execution hook of
        None \<Rightarrow> returnIO (hook_Name hook, hook_Type hook, None, NextOnDemand)
      | Some None \<Rightarrow> liftR (Panic ''invalid memory address or nil pointer dereference'')
      | Some (Some interval) \<Rightarrow>
          tryIO (GetHookState um (getHookStateFileName (hook_Name hook) stateDir))
            (\<lambda>hookState. case hookState of
               None \<Rightarrow> returnIO (hook_Name hook, hook_Type hook, Some interval, NextOnDemand)
             | Some st \<Rightarrow> bindIO time_Now (\<lambda>now.
                 let nextTime = hs_LastExecutionTime st + interval
                 in returnIO (hook_Name hook, hook_Type hook, Some interval,
                      if now > nextTime then NextNow else NextIn (duration_round (nextTime - now) minute))))
            (\<lambda>e. returnIO (hook_Name hook, hook_Type hook, Some interval, NextUnknown)))"

definition ListHooks ::
    "(string \<Rightarrow> Config option io) \<Rightarrow> (string \<Rightarrow> HookState option res) \<Rightarrow> string \<Rightarrow> string \<Rightarrow>
     (string \<times> HookType \<times> int option \<times> next_execution) list io" where
  "ListHooks load_config um configPath stateDir =
     bindIO (load_config configPath) (\<lambda>config.
       case config of
         None \<Rightarrow> bindIO (fmt_Print ''No hooks configured.'') (\<lambda>_. returnIO [])
       | Some c \<Rightarrow> foldIO (\<lambda>hook rows. bindIO (list_hook um stateDir hook) (\<lambda>row. returnIO (rows @ [row])))
           (cfg_Hooks c) [])"

section \<open>Which hooks are due\<close>

text \<open>
  What the disk says of the last run of a hook, without the code that reads it: there is no state
  file (or one that holds only a null document), or there is one that can be read and names the
  time; an empty file stands for the zero time. A file that cannot be read or decoded says neither.
\<close>

definition never_ran :: "(string \<Rightarrow> HookState option res) \<Rightarrow> world \<Rightarrow> string \<Rightarrow> bool" where
  "never_ran um w p \<longleftrightarrow>
     (if faults w OpStat p = None then map_of (disk w) p = None else faults w OpStat p = Some ENOENT) \<or>
     (faults w OpStat p = None \<and> faults w OpRead p = None \<and>
      (\<exists>bs. file_bytes w p = Some bs \<and> bs \<noteq> [] \<and> um bs = Ok None))"

definition last_ran :: "(string \<Rightarrow> HookState option res) \<Rightarrow> world \<Rightarrow> string \<Rightarrow> int \<Rightarrow> bool" where
  "last_ran um w p t \<longleftrightarrow> faults w OpStat p = None \<and> faults w OpRead p = None \<and>
     (\<exists>bs. file_bytes w p = Some bs \<and>
       (if bs = [] then t = 0 else \<exists>st. um bs = Ok (Some st) \<and> hs_LastExecutionTime st = t))"

definition due :: "(string \<Rightarrow> HookState option res) \<Rightarrow> world \<Rightarrow> string \<Rightarrow> Hook \<Rightarrow> bool" where
  "due um w dir hook \<longleftrightarrow> hook_Type hook \<in> {''Executable'', ''InlineCommand''} \<and>
     (\<exists>interval. hook_Execution hook = Some (Some interval) \<and>
       (let p = dir @ ''/hookstate-'' @ hook_Name hook @ ''.yaml''
        in never_ran um w p \<or> (\<exists>t. last_ran um w p t \<and> t + interval < clock w)))"

definition state_of :: "(string \<Rightarrow> HookState option res) \<Rightarrow> world \<Rightarrow> string \<Rightarrow> HookState option res" where
  "state_of um w p = fst (GetHookState um p w)"

lemma never_ran_state: "never_ran um w p \<longleftrightarrow> state_of um w p = Ok None"
  by (auto simp: never_ran_def state_of_def GetHookState_def tryIO_apply bindIO_apply wrapIO_apply os_Stat_def
    os_ReadFile_def with_fault_def file_bytes_def zero_hook_state_def
    split: option.splits res.splits fentry.splits if_splits elim!: IsNotExist.elims)

lemma last_ran_state: "last_ran um w p t \<longleftrightarrow> (\<exists>st. state_of um w p = Ok (Some st) \<and> hs_LastExecutionTime st = t)"
  by (auto simp: last_ran_def state_of_def GetHookState_def tryIO_apply bindIO_apply wrapIO_apply os_Stat_def
    os_ReadFile_def with_fault_def file_bytes_def zero_hook_state_def
    split: option.splits res.splits fentry.splits if_splits)

lemma due_state:
  "due um w dir hook \<longleftrightarrow> hook_Type hook \<in> set ValidHookTypes \<and>
     (case hook_Execution hook of
        Some (Some interval) \<Rightarrow>
          (case state_of um w (getHookStateFileName (hook_Name hook) dir) of
             Ok None \<Rightarrow> True
           | Ok (Some st) \<Rightarrow> clock w > hs_LastExecutionTime st + interval
           | _ \<Rightarrow> False)
      | _ \<Rightarrow> False)"
  by (auto simp: due_def Let_def never_ran_state last_ran_state getHookStateFileName_def ValidHookTypes_def
    HookTypeExecutable_def HookTypeInlineCommand_def split: option.splits res.splits)

lemma GetHookState_snd [simp]: "snd (GetHookState um p w) = w"
  by (auto simp: GetHookState_def tryIO_apply bindIO_apply wrapIO_apply split: prod.splits res.splits
    dest!: os_Stat_same os_ReadFile_same)

lemma GetHookState_apply: "GetHookState um p w = (state_of um w p, w)"
  by (metis GetHookState_snd state_of_def prod.collapse)

lemma due_loop:
  assumes "\<And>p q. um p \<noteq> Panic q"
  shows "foldIO (\<lambda>hook acc.
     if hook_Type hook \<noteq> HookTypeExecutable \<and> hook_Type hook \<noteq> HookTypeInlineCommand then returnIO acc
     else case hook_Execution hook of
       None \<Rightarrow> returnIO acc
     | Some None \<Rightarrow> returnIO acc
     | Some (Some interval) \<Rightarrow>
         tryIO (GetHookState um (getHookStateFileName (hook_Name hook) dir))
           (\<lambda>hookState. case hookState of
              None \<Rightarrow> returnIO (acc @ [hook])
            | Some st \<Rightarrow> bindIO time_Now (\<lambda>now.
                returnIO (if now > hs_LastExecutionTime st + interval then acc @ [hook] else acc)))
           (\<lambda>e. returnIO acc)) hooks acc w = (Ok (acc @ filter (due um w dir) hooks), w)"
proof (induction hooks arbitrary: acc)
  case (Cons h hs)
  have np: "state_of um w p \<noteq> Panic q" for p q
    using assms by (auto simp: state_of_def GetHookState_def tryIO_apply bindIO_apply wrapIO_apply
      os_Stat_def os_ReadFile_def with_fault_def split: option.splits res.splits fentry.splits)
  show ?case
  proof (cases "hook_Type h \<in> set ValidHookTypes \<and> (\<exists>i. hook_Execution h = Some (Some i))")
    case False
    then have "\<not> due um w dir h" by (auto simp: due_state split: option.splits)
    then show ?thesis using False Cons by (auto simp: bindIO_apply ValidHookTypes_def split: option.splits)
  next
    case True
    then obtain i where i: "hook_Execution h = Some (Some i)" by blast
    show ?thesis
    proof (cases "state_of um w (getHookStateFileName (hook_Name h) dir)")
      case (Ok s)
      then show ?thesis using True i Cons
        by (cases s) (auto simp: bindIO_apply tryIO_apply GetHookState_apply due_state time_Now_def ValidHookTypes_def)
    next
      case (Err e)
      then show ?thesis using True i Cons
        by (auto simp: bindIO_apply tryIO_apply GetHookState_apply due_state ValidHookTypes_def)
    qed (use np in simp)
  qed
qed simp

text \<open>
  C31. The hooks that run without being asked for are exactly those of a known type with an interval
  whose state file is missing, or readable and older than the interval; a hook whose state
  cannot be read is skipped, and looking changes nothing.
\<close>

theorem getHooksToBeExecuted_spec:
  assumes "\<And>p q. um p \<noteq> Panic q"
  shows "getHooksToBeExecuted um hooks dir w = (Ok (filter (due um w dir) hooks), w)"
  unfolding getHooksToBeExecuted_def by (subst due_loop [OF assms]) simp

lemma state_file_inj: "getHookStateFileName a d = getHookStateFileName b d \<longleftrightarrow> a = b"
  by (simp add: getHookStateFileName_def)

lemma UpdateHookState_Ok:
  assumes "UpdateHookState marshal name p w = (Ok u, w')"
  shows "\<exists>bs. marshal \<lparr>hs_HookName = name, hs_LastExecutionTime = clock w\<rparr> = Ok bs \<and> w' = put_file 438 p bs w"
  using assms by (auto simp: UpdateHookState_def os_Create_def bindIO_Ok_iff time_Now_def disk_simps split: if_splits option.splits)

text \<open>
  A hook that has just been executed, successfully or not, is not due again at the same time: its
  state file, which is written before the command runs, holds the present time.
\<close>

theorem executed_hook_not_due:
  assumes yaml: "\<And>s bs. marshal s = Ok bs \<Longrightarrow> bs \<noteq> [] \<and> um bs = Ok (Some s)"
    and run: "\<And>c a v. file_bytes (snd (run c a v)) = file_bytes v \<and> faults (snd (run c a v)) = faults v \<and> clock (snd (run c a v)) = clock v"
    and "run_hooks marshal run dir hooks w = (Ok u, w')"
    and "h \<in> set hooks" and "hook_Execution h = Some (Some interval)" "interval \<ge> 0"
    and "faults w = (\<lambda>_ _. None)"
  shows "\<not> due um w' dir h \<and> clock w' = clock w"
proof -
  let ?f = "\<lambda>hook (_::unit). bindIO (UpdateHookState marshal (hook_Name hook) (getHookStateFileName (hook_Name hook) dir))
       (\<lambda>_. ignoreIO (executeHook run hook))"
  let ?st = "\<lambda>v n. \<exists>bs. file_bytes v (getHookStateFileName n dir) = Some bs \<and> bs \<noteq> [] \<and>
       um bs = Ok (Some \<lparr>hs_HookName = n, hs_LastExecutionTime = clock w\<rparr>)"
  have exec: "file_bytes (snd (executeHook run h v)) = file_bytes v \<and> faults (snd (executeHook run h v)) = faults v \<and>
      clock (snd (executeHook run h v)) = clock v" for h v
  proof -
    have r: "run c a v = (r, v1) \<Longrightarrow> file_bytes v1 = file_bytes v \<and> faults v1 = faults v \<and> clock v1 = clock v" for c a r v1
      using run [of c a v] by simp
    note s = os_Stat_same
    show ?thesis
      by (auto simp: executeHook_def bindIO_apply wrapIO_apply tryIO_apply split: option.split prod.split res.split
        dest!: r s)
  qed
  have step: "clock v' = clock v \<and> faults v' = faults v \<and> ?st v' (hook_Name x) \<and> (\<forall>n. ?st v n \<longrightarrow> ?st v' n)"
    if f: "?f x s v = (r, v')" "is_ok r" and v: "clock v = clock w" for x s v r v'
  proof -
    obtain v1 where u: "UpdateHookState marshal (hook_Name x) (getHookStateFileName (hook_Name x) dir) v = (Ok (), v1)"
      and v': "v' = snd (executeHook run x v1)"
      using f by (auto simp: bindIO_apply is_ok_iff split: prod.splits res.splits) (metis ignoreIO_snd snd_conv)
    obtain bs where bs: "marshal \<lparr>hs_HookName = hook_Name x, hs_LastExecutionTime = clock v\<rparr> = Ok bs"
      "v1 = put_file 438 (getHookStateFileName (hook_Name x) dir) bs v" using UpdateHookState_Ok [OF u] by blast
    then show ?thesis using exec [of x v1] v' yaml [OF bs(1)] v by (simp add: state_file_inj)
  qed
  have loop: "clock v' = clock w \<and> faults v' = faults v \<and> (\<forall>n. n \<in> hook_Name ` set hs \<or> ?st v n \<longrightarrow> ?st v' n)"
    if "foldIO ?f hs () v = (Ok (), v')" "clock v = clock w" for hs v v'
    using that
  proof (induction hs arbitrary: v)
    case (Cons x hs)
    then obtain v1 where f: "?f x () v = (Ok (), v1)" and rest: "foldIO ?f hs () v1 = (Ok (), v')"
      by (auto simp: bindIO_Ok_iff)
    note s = step [OF f _ Cons.prems(2)]
    have "clock v1 = clock w" using s Cons.prems(2) by simp
    from Cons.IH [OF rest this] s show ?case by auto
  qed simp
  have l: "clock w' = clock w \<and> faults w' = faults w \<and> (\<forall>n. n \<in> hook_Name ` set hooks \<or> ?st w n \<longrightarrow> ?st w' n)"
    using loop [of hooks w w'] assms(3) by (simp add: run_hooks_def)
  then obtain bs where bs: "file_bytes w' (getHookStateFileName (hook_Name h) dir) = Some bs" "bs \<noteq> []"
     "um bs = Ok (Some \<lparr>hs_HookName = hook_Name h, hs_LastExecutionTime = clock w\<rparr>)" using assms(4) by blast
  obtain f where "os_Stat (getHookStateFileName (hook_Name h) dir) w' = (Ok f, w')"
    using bs(1) l assms(7) by (auto simp: os_Stat_def with_fault_def file_bytes_def split: option.splits)
  moreover have "os_ReadFile (getHookStateFileName (hook_Name h) dir) w' = (Ok bs, w')"
    using bs(1) l assms(7) by (simp add: os_ReadFile_Ok)
  ultimately have "state_of um w' (getHookStateFileName (hook_Name h) dir) =
      Ok (Some \<lparr>hs_HookName = hook_Name h, hs_LastExecutionTime = clock w\<rparr>)"
    using bs by (simp add: state_of_def GetHookState_def tryIO_apply bindIO_apply wrapIO_apply)
  then show ?thesis using assms(5,6) l by (simp add: due_state)
qed

text \<open>
  Listing the hooks panics as soon as one of them has an execution block without an interval, a
  configuration that the validation accepts and that running the hooks skips.
\<close>

theorem ListHooks_panics_without_interval:
  assumes "load_config path w = (Ok (Some c), w)" "cfg_Hooks c = hs @ h # hs'" "hook_Execution h = Some None"
    and "\<And>x. x \<in> set hs \<Longrightarrow> hook_Execution x = None"
  shows "is_panic (fst (ListHooks load_config um path dir w)) \<and> \<not> due um w dir h"
proof -
  let ?f = "\<lambda>hook rows. bindIO (list_hook um dir hook) (\<lambda>row. returnIO (rows @ [row]))"
  have "is_panic (fst (foldIO ?f (hs @ h # hs') acc w))" for acc
    using assms(4)
  proof (induction hs arbitrary: acc)
    case Nil
    then show ?case using assms(3) by (simp add: bindIO_apply list_hook_def)
  next
    case (Cons x hs)
    then show ?case by (simp add: bindIO_apply list_hook_def)
  qed
  then show ?thesis using assms(1-3) by (simp add: ListHooks_def bindIO_apply due_state)
qed

section \<open>Witnesses\<close>

definition hook_world :: world where
  "hook_world = \<lparr>disk = [(''/s'', DirE 448)], faults = (\<lambda>_ _. None), getenv = (\<lambda>_. []), clock = 100, umask = 18,
     rnd = (\<lambda>_. ''1''), rnd_pos = 0, out = []\<rparr>"

definition sample_hook :: Hook where
  "sample_hook = \<lparr>hook_Name = ''h'', hook_Type = ''InlineCommand'', hook_Path = None, hook_Arguments = [''date''],
     hook_Execution = Some (Some 60)\<rparr>"

definition hook_state_100 :: HookState where
  "hook_state_100 = \<lparr>hs_HookName = ''h'', hs_LastExecutionTime = 100\<rparr>"

definition hook_um :: "string \<Rightarrow> HookState option res" where
  "hook_um b = Ok (Some hook_state_100)"

definition hook_marshal :: "HookState \<Rightarrow> string res" where
  "hook_marshal s = (if s = hook_state_100 then Ok ''state'' else Err (LibErr []))"

lemma getHooksToBeExecuted_spec_witness:
  "getHooksToBeExecuted hook_um [sample_hook] ''/s'' hook_world = (Ok [sample_hook], hook_world)"
proof -
  have "hook_um p \<noteq> Panic q" for p q by (simp add: hook_um_def)
  note np = this
  show ?thesis
    using getHooksToBeExecuted_spec [of hook_um "[sample_hook]" "''/s''" hook_world, OF np]
    by (simp add: due_state sample_hook_def state_of_def GetHookState_def tryIO_apply os_Stat_def with_fault_def hook_world_def
        getHookStateFileName_def ValidHookTypes_def HookTypeInlineCommand_def)
qed

lemma executed_hook_not_due_witness:
  "\<exists>w'. run_hooks hook_marshal (\<lambda>_ _. returnIO []) ''/s'' [sample_hook] hook_world = (Ok (), w') \<and>
     \<not> due hook_um w' ''/s'' sample_hook"
proof -
  have y: "bs \<noteq> [] \<and> hook_um bs = Ok (Some s)" if "hook_marshal s = Ok bs" for s bs
    using that by (auto simp: hook_marshal_def hook_um_def split: if_splits)
  have ok: "is_ok (fst (run_hooks hook_marshal (\<lambda>_ _. returnIO []) ''/s'' [sample_hook] hook_world))"
    by code_simp
  then obtain w' where r: "run_hooks hook_marshal (\<lambda>_ _. returnIO []) ''/s'' [sample_hook] hook_world = (Ok (), w')"
    by (cases "run_hooks hook_marshal (\<lambda>_ _. returnIO []) ''/s'' [sample_hook] hook_world") (auto simp: is_ok_iff)
  have h: "sample_hook \<in> set [sample_hook]" "hook_Execution sample_hook = Some (Some 60)" "(60::int) \<ge> 0"
    "faults hook_world = (\<lambda>_ _. None)"
    by (simp_all add: sample_hook_def hook_world_def)
  show ?thesis using executed_hook_not_due [OF y _ r h] r by simp
qed

lemma ListHooks_panics_without_interval_witness:
  "is_panic (fst (ListHooks (\<lambda>_. returnIO (Some (zero_config\<lparr>cfg_Hooks := [sample_hook\<lparr>hook_Execution := Some None\<rparr>]\<rparr>)))
     hook_um ''/c'' ''/s'' hook_world))"
proof -
  let ?c = "zero_config\<lparr>cfg_Hooks := [sample_hook\<lparr>hook_Execution := Some None\<rparr>]\<rparr>"
  have "(\<lambda>_. returnIO (Some ?c)) ''/c'' hook_world = (Ok (Some ?c), hook_world)"
    "cfg_Hooks ?c = [] @ sample_hook\<lparr>hook_Execution := Some None\<rparr> # []"
    "hook_Execution (sample_hook\<lparr>hook_Execution := Some None\<rparr>) = Some None"
    by simp_all
  from ListHooks_panics_without_interval [of "\<lambda>_. returnIO (Some ?c)" "''/c''" hook_world ?c "[]"
      "sample_hook\<lparr>hook_Execution := Some None\<rparr>" "[]" hook_um "''/s''", OF this]
  show ?thesis by simp
qed

end
