(* ===== verification/Tui.thy ===== *)
theory Tui
  imports Commands
begin

text \<open>
  The interactive list of contexts (\<^verbatim>\<open>pkg/tui/model.go\<close>, \<^verbatim>\<open>fuzzy.go\<close>) with its tree of sub-clusters, as a function from
  a message and a state to a state and a command. The text input and the fuzzy matcher are libraries,
  given as a record of functions. Go leaves open whether \<^verbatim>\<open>return m, m.fetchPreviewCmd()\<close> copies \<^verbatim>\<open>m\<close> before or after
  the call changes it; the call comes first here, as the compiler has it.
\<close>

section \<open>Items\<close>

record item =
  it_displayName :: string
  it_dimSuffix :: string
  it_contextName :: string
  it_path :: string
  it_tags :: tags
  it_storeID :: string
  it_matchedIndexes :: "nat list"
  it_depth :: nat
  it_parentPath :: string
  it_isLoading :: bool
  it_expanded :: bool
  it_expandedEmpty :: bool

text \<open>
  The libraries: the text input (\<^verbatim>\<open>Update\<close>, \<^verbatim>\<open>Value\<close>, \<^verbatim>\<open>SetValue\<close>, \<^verbatim>\<open>CursorEnd\<close>), \<^verbatim>\<open>fuzzy.Find\<close> as the list of
  matched indices with the matched positions, and the Unicode tables behind \<^verbatim>\<open>strings.ToLower\<close>.
\<close>

datatype msg =
    WindowSizeMsg int int
  | ItemsMsg "item list"
  | DiscoveryDoneMsg
  | PreviewMsg string string
  | ExpandResultMsg string "item list" "store option" "gerror option"
  | PasteMsg string
  | KeyPressMsg string

record 'i tui_libs =
  tl_Update :: "'i \<Rightarrow> msg \<Rightarrow> 'i"
  tl_Value :: "'i \<Rightarrow> string"
  tl_SetValue :: "string \<Rightarrow> 'i \<Rightarrow> 'i"
  tl_CursorEnd :: "'i \<Rightarrow> 'i"
  tl_New :: 'i
  tl_Find :: "string \<Rightarrow> string list \<Rightarrow> (nat \<times> nat list) list"
  tl_ToLower :: "string \<Rightarrow> string"

section \<open>Filtering\<close>

text \<open>The number of runes of a valid UTF-8 text: the bytes that do not continue a rune.\<close>

definition rune_count :: "string \<Rightarrow> nat" where
  "rune_count s = length (filter (\<lambda>c. \<not> (128 \<le> (of_char c :: nat) \<and> (of_char c :: nat) < 192)) s)"

text \<open>
  The position found in the lower-case text is used to slice the text itself, a panic when it is behind its end.
\<close>

definition improveMatchPositions :: "(string \<Rightarrow> string) \<Rightarrow> string \<Rightarrow> string \<Rightarrow> nat list \<Rightarrow> nat list res" where
  "improveMatchPositions ToLower query txt fuzzyIndexes =
     (case GoStrings.Index (ToLower txt) (ToLower query) of
        None \<Rightarrow> Ok fuzzyIndexes
      | Some idx \<Rightarrow> if idx > length txt then Panic ''slice bounds out of range''
          else (let runeOff = rune_count (take idx txt) in Ok (map (\<lambda>i. runeOff + i) [0..<rune_count query])))"

definition item_search_name :: "item \<Rightarrow> string" where
  "item_search_name it = (if it_dimSuffix it \<noteq> [] then it_displayName it @ '' '' @ it_dimSuffix it else it_displayName it)"

fun match_loop :: "(string \<Rightarrow> string) \<Rightarrow> string \<Rightarrow> item list \<Rightarrow> string list \<Rightarrow> (nat \<times> nat list) list \<Rightarrow> item list res" where
  "match_loop ToLower query its names [] = Ok []"
| "match_loop ToLower query its names ((i, ix) # ms) =
     (if i < length its
      then bindR (improveMatchPositions ToLower query (names ! i) ix) (\<lambda>ix'.
        mapR ((#) ((its ! i)\<lparr>it_matchedIndexes := ix'\<rparr>)) (match_loop ToLower query its names ms))
      else Panic ''index out of range'')"

definition filterItems :: "('i, 'z) tui_libs_scheme \<Rightarrow> string \<Rightarrow> item list \<Rightarrow> item list res" where
  "filterItems L query its =
     (if query = [] then Ok (map (\<lambda>it. it\<lparr>it_matchedIndexes := []\<rparr>) its)
      else (let names = map item_search_name its
        in match_loop (tl_ToLower L) query its names (tl_Find L query names)))"

section \<open>The state of the context list\<close>

record 'i model =
  md_stores :: "(string, store) gomap"
  md_showPreview :: bool
  md_input :: 'i
  md_query :: string
  md_allItems :: "item list"
  md_filtered :: "item list"
  md_cursor :: int
  md_viewOffset :: int
  md_previewContent :: string
  md_previewForPath :: string
  md_loading :: bool
  md_Aborted :: bool
  md_Selected :: "item option"
  md_width :: int
  md_height :: int
  md_dynamicStores :: "(string, store) gomap"

datatype cmd = NoCmd | Quit | InputCmd | FetchPreview item | ExpandK0smotron item | Batch cmd cmd

definition NewModel :: "'i tui_libs \<Rightarrow> (string, store) gomap \<Rightarrow> bool \<Rightarrow> 'i model" where
  "NewModel L stores showPreview = \<lparr>md_stores = stores, md_showPreview = showPreview, md_input = tl_New L, md_query = [],
     md_allItems = [], md_filtered = [], md_cursor = 0, md_viewOffset = 0, md_previewContent = [], md_previewForPath = [],
     md_loading = True, md_Aborted = False, md_Selected = None, md_width = 0, md_height = 0, md_dynamicStores = []\<rparr>"

section \<open>The cursor and the window\<close>

definition window_height :: "int \<Rightarrow> int" where
  "window_height h = max (h - 2) 1"

definition listHeight :: "'i model \<Rightarrow> int" where
  "listHeight m = window_height (md_height m)"

definition scrollIntoView :: "'i model \<Rightarrow> 'i model" where
  "scrollIntoView m =
     (let m1 = (if md_cursor m < md_viewOffset m then m\<lparr>md_viewOffset := md_cursor m\<rparr> else m)
      in if md_cursor m1 \<ge> md_viewOffset m1 + listHeight m1 then m1\<lparr>md_viewOffset := md_cursor m1 - listHeight m1 + 1\<rparr> else m1)"

definition clampCursor :: "'i model \<Rightarrow> 'i model" where
  "clampCursor m =
     (if md_filtered m = [] then m\<lparr>md_cursor := 0, md_viewOffset := 0\<rparr>
      else (let n = int (length (md_filtered m));
                c1 = (if md_cursor m < 0 then 0 else md_cursor m);
                c2 = (if c1 \<ge> n then n - 1 else c1);
                maxOffset = max (n - listHeight m) 0
            in m\<lparr>md_cursor := c2, md_viewOffset := (if md_viewOffset m > maxOffset then maxOffset else md_viewOffset m)\<rparr>))"

definition moveCursor :: "int \<Rightarrow> 'i model \<Rightarrow> 'i model" where
  "moveCursor delta m =
     (if md_filtered m = [] then m
      else scrollIntoView (clampCursor (m\<lparr>md_cursor := md_cursor m + delta\<rparr>)))"

text \<open>\<^verbatim>\<open>m.filtered = filterItems(m.query, m.allItems)\<close>.\<close>

definition refresh :: "('i, 'z) tui_libs_scheme \<Rightarrow> 'i model \<Rightarrow> 'i model res" where
  "refresh L m = mapR (\<lambda>its. m\<lparr>md_filtered := its\<rparr>) (filterItems L (md_query m) (md_allItems m))"

definition refilter :: "('i, 'z) tui_libs_scheme \<Rightarrow> 'i model \<Rightarrow> 'i model res" where
  "refilter L m = mapR (\<lambda>m1. m1\<lparr>md_cursor := 0, md_viewOffset := 0\<rparr>) (refresh L m)"

text \<open>The value without its last word: \<^verbatim>\<open>TrimRight\<close>, \<^verbatim>\<open>LastIndex\<close> of a space and the prefix up to it.\<close>

definition without_last_word :: "string \<Rightarrow> string" where
  "without_last_word v =
     (let rtrimmed = rev (dropWhile (\<lambda>c. c = CHR '' '') (rev v));
          upto = length (dropWhile (\<lambda>c. c \<noteq> CHR '' '') (rev rtrimmed))
      in take upto v)"

definition deleteWord :: "('i, 'z) tui_libs_scheme \<Rightarrow> 'i model \<Rightarrow> 'i model" where
  "deleteWord L m = (let v = tl_Value L (md_input m)
     in if length v = 0 then m
        else (let newVal = without_last_word v
              in m\<lparr>md_input := tl_CursorEnd L (tl_SetValue L newVal (md_input m)), md_query := newVal\<rparr>))"

text \<open>Indexing \<^verbatim>\<open>m.filtered[m.cursor]\<close> out of range is a panic.\<close>

definition at_cursor :: "'a list \<Rightarrow> int \<Rightarrow> 'a res" where
  "at_cursor xs i = (if 0 \<le> i \<and> i < int (length xs) then Ok (xs ! nat i) else Panic ''index out of range'')"

definition fetchPreviewCmd :: "'i model \<Rightarrow> ('i model \<times> cmd) res" where
  "fetchPreviewCmd m =
     (if \<not> md_showPreview m \<or> length (md_filtered m) = 0 then Ok (m, NoCmd)
      else bindR (at_cursor (md_filtered m) (md_cursor m)) (\<lambda>sel.
        if it_path sel = md_previewForPath m then Ok (m, NoCmd)
        else Ok (m\<lparr>md_previewForPath := it_path sel, md_previewContent := []\<rparr>, FetchPreview sel)))"

section \<open>Sub-clusters\<close>

definition mark :: "string \<Rightarrow> (item \<Rightarrow> item) \<Rightarrow> item list \<Rightarrow> item list" where
  "mark path f its = map (\<lambda>it. if it_path it = path then f it else it) its"

definition markLoading :: "('i, 'z) tui_libs_scheme \<Rightarrow> string \<Rightarrow> 'i model \<Rightarrow> 'i model res" where
  "markLoading L path m = refresh L (m\<lparr>md_allItems := mark path (\<lambda>it. it\<lparr>it_isLoading := True\<rparr>) (md_allItems m)\<rparr>)"

text \<open>The index of the first item with the path.\<close>

fun path_idx :: "string \<Rightarrow> item list \<Rightarrow> nat option" where
  "path_idx p [] = None"
| "path_idx p (it # its) = (if it_path it = p then Some 0 else map_option Suc (path_idx p its))"

definition expand_mark :: "gerror option \<Rightarrow> item list \<Rightarrow> item \<Rightarrow> item" where
  "expand_mark err kids it = (let it1 = it\<lparr>it_isLoading := False\<rparr>
     in if err = None \<and> length kids > 0 then it1\<lparr>it_expanded := True\<rparr>
        else if err = None then it1\<lparr>it_expandedEmpty := True\<rparr> else it1)"

definition insert_kids :: "string \<Rightarrow> item list \<Rightarrow> item list \<Rightarrow> item list" where
  "insert_kids parentPath kids its = (case path_idx parentPath its of
       Some i \<Rightarrow> take i its @ kids @ drop i its
     | None \<Rightarrow> its @ kids)"

definition applyExpandResult ::
    "('i, 'z) tui_libs_scheme \<Rightarrow> string \<Rightarrow> item list \<Rightarrow> store option \<Rightarrow> gerror option \<Rightarrow> 'i model \<Rightarrow> 'i model res" where
  "applyExpandResult L parentPath kids st err m =
     (let m1 = m\<lparr>md_allItems := mark parentPath (expand_mark err kids) (md_allItems m)\<rparr>
      in if err \<noteq> None \<or> length kids = 0 then refresh L m1
         else (let m2 = (case st of None \<Rightarrow> m1 | Some s \<Rightarrow> m1\<lparr>md_dynamicStores := mset (st_GetID s) s (md_dynamicStores m1)\<rparr>);
                   parentIdx = path_idx parentPath (md_allItems m2)
               in mapR (\<lambda>m3. case parentIdx of
                    Some i \<Rightarrow> scrollIntoView (clampCursor (m3\<lparr>md_cursor := int i + int (length kids) - 1\<rparr>))
                  | None \<Rightarrow> clampCursor m3)
                  (refresh L (m2\<lparr>md_allItems := insert_kids parentPath kids (md_allItems m2)\<rparr>))))"

text \<open>
  Walking up from a path: \<^verbatim>\<open>None\<close> when the walk never ends, as it does at a path that no item has,
  because the variable then keeps its value.
\<close>

definition parent_of :: "item list \<Rightarrow> string \<Rightarrow> string" where
  "parent_of its p = (case find (\<lambda>a. it_path a = p) its of Some a \<Rightarrow> it_parentPath a | None \<Rightarrow> p)"

partial_function (option) walk_up :: "item list \<Rightarrow> string \<Rightarrow> string \<Rightarrow> bool option" where
  "walk_up its path p =
     (if p = [] then Some False else if p = path then Some True else walk_up its path (parent_of its p))"

declare walk_up.simps [code]

fun collapse_loop :: "item list \<Rightarrow> string \<Rightarrow> item list \<Rightarrow> item list option" where
  "collapse_loop allItems path [] = Some []"
| "collapse_loop allItems path (it # its) =
     (if it_path it = path then map_option ((#) (it\<lparr>it_expanded := False, it_isLoading := False\<rparr>)) (collapse_loop allItems path its)
      else (case walk_up allItems path (it_parentPath it) of
          None \<Rightarrow> None
        | Some desc \<Rightarrow> map_option (\<lambda>r. if desc then r else it # r) (collapse_loop allItems path its)))"

definition collapseItem :: "('i, 'z) tui_libs_scheme \<Rightarrow> string \<Rightarrow> 'i model \<Rightarrow> 'i model res option" where
  "collapseItem L path m = map_option (\<lambda>its. mapR clampCursor (refresh L (m\<lparr>md_allItems := its\<rparr>)))
     (collapse_loop (md_allItems m) path (md_allItems m))"

section \<open>One message\<close>

text \<open>\<^verbatim>\<open>None\<close> when the handler does not return.\<close>

type_synonym 'i outcome = "('i model \<times> cmd) res option"

text \<open>\<^verbatim>\<open>return m, m.fetchPreviewCmd()\<close>, and \<^verbatim>\<open>tea.Batch(cmd, m.fetchPreviewCmd())\<close>.\<close>

definition with_preview :: "'i model res \<Rightarrow> 'i outcome" where
  "with_preview r = Some (bindR r fetchPreviewCmd)"

definition delegate :: "('i, 'z) tui_libs_scheme \<Rightarrow> msg \<Rightarrow> 'i model \<Rightarrow> 'i outcome" where
  "delegate L msg m =
     (let m1 = m\<lparr>md_input := tl_Update L (md_input m) msg\<rparr>; newQuery = tl_Value L (md_input m1)
      in if newQuery \<noteq> md_query m1
         then map_option (mapR (\<lambda>(m2, c). (m2, Batch InputCmd c))) (with_preview (refilter L (m1\<lparr>md_query := newQuery\<rparr>)))
         else Some (Ok (m1, InputCmd)))"

text \<open>The item under the cursor, for the keys that need one; without rows nothing happens.\<close>

definition at_row :: "'i model \<Rightarrow> 'i outcome \<Rightarrow> (item \<Rightarrow> 'i outcome) \<Rightarrow> 'i outcome" where
  "at_row m none f =
     (if length (md_filtered m) = 0 then none
      else (case at_cursor (md_filtered m) (md_cursor m) of
          Ok sel \<Rightarrow> f sel | Err e \<Rightarrow> Some (Err e) | Panic p \<Rightarrow> Some (Panic p)))"

definition move_to_path :: "string \<Rightarrow> 'i model \<Rightarrow> 'i model" where
  "move_to_path path m = (case path_idx path (md_filtered m) of
       Some i \<Rightarrow> scrollIntoView (m\<lparr>md_cursor := int i\<rparr>) | None \<Rightarrow> m)"

definition key_left :: "('i, 'z) tui_libs_scheme \<Rightarrow> 'i model \<Rightarrow> 'i outcome" where
  "key_left L m = at_row m (Some (Ok (m, NoCmd))) (\<lambda>sel.
     if it_expanded sel then Option.bind (collapseItem L (it_path sel) m) with_preview
     else if it_parentPath sel \<noteq> [] then
       Option.bind (collapseItem L (it_parentPath sel) m) (\<lambda>r. with_preview (mapR (move_to_path (it_parentPath sel)) r))
     else Some (Ok (m, NoCmd)))"

definition key_right :: "('i, 'z) tui_libs_scheme \<Rightarrow> 'i model \<Rightarrow> 'i outcome" where
  "key_right L m = at_row m (Some (Ok (m, NoCmd))) (\<lambda>sel.
     if \<not> it_expanded sel \<and> \<not> it_isLoading sel
     then Some (mapR (\<lambda>m1. (m1, ExpandK0smotron sel)) (markLoading L (it_path sel) m))
     else Some (Ok (m, NoCmd)))"

definition key_enter :: "'i model \<Rightarrow> 'i outcome" where
  "key_enter m = at_row m (Some (Ok (m, Quit))) (\<lambda>sel. Some (Ok (m\<lparr>md_Selected := Some sel\<rparr>, Quit)))"

text \<open>The scroll position is kept.\<close>

definition key_ctrl_u :: "('i, 'z) tui_libs_scheme \<Rightarrow> 'i model \<Rightarrow> 'i outcome" where
  "key_ctrl_u L m = with_preview (mapR (\<lambda>its. m\<lparr>md_input := tl_SetValue L [] (md_input m), md_query := [],
     md_filtered := its, md_cursor := 0\<rparr>) (filterItems L [] (md_allItems m)))"

definition key_press :: "('i, 'z) tui_libs_scheme \<Rightarrow> string \<Rightarrow> 'i model \<Rightarrow> 'i outcome" where
  "key_press L k m =
     (if k \<in> {''esc'', ''ctrl+c'', ''ctrl+d''} then Some (Ok (m\<lparr>md_Aborted := True\<rparr>, Quit))
      else if k = ''enter'' then key_enter m
      else if k = ''right'' then key_right L m
      else if k = ''left'' then key_left L m
      else if k \<in> {''up'', ''ctrl+k'', ''ctrl+p''} then with_preview (Ok (moveCursor 1 m))
      else if k \<in> {''down'', ''ctrl+j'', ''ctrl+n''} then with_preview (Ok (moveCursor (-1) m))
      else if k = ''pgup'' then with_preview (Ok (moveCursor (listHeight m) m))
      else if k = ''pgdown'' then with_preview (Ok (moveCursor (- listHeight m) m))
      else if k = ''ctrl+u'' then key_ctrl_u L m
      else if k \<in> {''ctrl+w'', ''alt+backspace''} then with_preview (refilter L (deleteWord L m))
      else delegate L (KeyPressMsg k) m)"

fun Update :: "('i, 'z) tui_libs_scheme \<Rightarrow> msg \<Rightarrow> 'i model \<Rightarrow> 'i outcome" where
  "Update L (WindowSizeMsg w h) m = Some (Ok (m\<lparr>md_width := w, md_height := h\<rparr>, NoCmd))"
| "Update L (ItemsMsg its) m = with_preview (mapR clampCursor (refresh L (m\<lparr>md_allItems := md_allItems m @ its\<rparr>)))"
| "Update L DiscoveryDoneMsg m = Some (Ok (m\<lparr>md_loading := False\<rparr>, NoCmd))"
| "Update L (PreviewMsg content forPath) m =
     Some (Ok (if forPath = md_previewForPath m then m\<lparr>md_previewContent := content\<rparr> else m, NoCmd))"
| "Update L (ExpandResultMsg parentPath kids st err) m = with_preview (applyExpandResult L parentPath kids st err m)"
| "Update L (PasteMsg s) m = delegate L (PasteMsg s) m"
| "Update L (KeyPressMsg k) m = key_press L k m"

end
