(* ===== verification/TuiLaws.thy ===== *)
theory TuiLaws
  imports Tui
begin

text \<open>
  The laws of the context list: the invariant that keeps indexing safe and the loops over parents finite,
  that every message keeps it, where the cursor is after a move, what the selection can be, and what goes
  wrong without it.
\<close>

section \<open>The invariant of the context list\<close>

text \<open>\<^verbatim>\<open>fuzzy.Find\<close> gives indices into the list it searched.\<close>

definition find_ok :: "('i, 'z) tui_libs_scheme \<Rightarrow> bool" where
  "find_ok L \<longleftrightarrow> (\<forall>q names i ix. (i, ix) \<in> set (tl_Find L q names) \<longrightarrow> i < length names)"

text \<open>A name that does not grow when it is made lower case, as every ASCII name.\<close>

definition name_ok :: "('i, 'z) tui_libs_scheme \<Rightarrow> item \<Rightarrow> bool" where
  "name_ok L it \<longleftrightarrow> length (tl_ToLower L (item_search_name it)) \<le> length (item_search_name it)"

definition cursor_ok :: "'a list \<Rightarrow> int \<Rightarrow> bool" where
  "cursor_ok xs c \<longleftrightarrow> (if xs = [] then c = 0 else 0 \<le> c \<and> c < int (length xs))"

text \<open>Every parent is there and has a shorter path than its children.\<close>

definition tree_ok :: "item list \<Rightarrow> bool" where
  "tree_ok its \<longleftrightarrow> (\<forall>a \<in> set its. it_parentPath a \<noteq> [] \<longrightarrow>
     it_parentPath a \<in> it_path ` set its \<and> length (it_parentPath a) < length (it_path a))"

definition items_ok :: "('i, 'z) tui_libs_scheme \<Rightarrow> item list \<Rightarrow> bool" where
  "items_ok L its \<longleftrightarrow> tree_ok its \<and> (\<forall>it \<in> set its. name_ok L it)"

definition model_inv :: "('i, 'z) tui_libs_scheme \<Rightarrow> 'i model \<Rightarrow> bool" where
  "model_inv L m \<longleftrightarrow> filterItems L (md_query m) (md_allItems m) = Ok (md_filtered m) \<and>
     cursor_ok (md_filtered m) (md_cursor m) \<and> 0 \<le> md_viewOffset m \<and> items_ok L (md_allItems m)"

definition visible :: "'i model \<Rightarrow> bool" where
  "visible m \<longleftrightarrow> md_viewOffset m \<le> md_cursor m \<and> md_cursor m < md_viewOffset m + listHeight m"

text \<open>
  The messages the program sends: discovered items have no parent; sub-clusters have the path of
  their parent as a prefix of their own, and the parent is still listed.
\<close>

fun msg_ok :: "('i, 'z) tui_libs_scheme \<Rightarrow> 'i model \<Rightarrow> msg \<Rightarrow> bool" where
  "msg_ok L m (ItemsMsg its) \<longleftrightarrow> (\<forall>it \<in> set its. it_parentPath it = [] \<and> name_ok L it)"
| "msg_ok L m (ExpandResultMsg parentPath kids st err) \<longleftrightarrow> (err = None \<and> kids \<noteq> [] \<longrightarrow>
     parentPath \<in> it_path ` set (md_allItems m) \<and>
     (\<forall>k \<in> set kids. it_parentPath k = parentPath \<and> length parentPath < length (it_path k) \<and> name_ok L k))"
| "msg_ok L m _ \<longleftrightarrow> True"

section \<open>Filtering\<close>

lemma match_loop_length: "match_loop lo q its names ms = Ok fs \<Longrightarrow> length fs = length ms"
  by (induction lo q its names ms arbitrary: fs rule: match_loop.induct) (auto split: if_splits)

lemma match_loop_mem:
  "match_loop lo q its names ms = Ok fs \<Longrightarrow> x \<in> set fs \<Longrightarrow> \<exists>it \<in> set its. \<exists>ix. x = it\<lparr>it_matchedIndexes := ix\<rparr>"
  by (induction lo q its names ms arbitrary: fs rule: match_loop.induct) (fastforce split: if_splits)+

lemma improve_Ok: "length (lo txt) \<le> length txt \<Longrightarrow> \<exists>ix'. improveMatchPositions lo q txt ix = Ok ix'"
  using Index_Some [of "lo txt" "lo q"] by (force simp: improveMatchPositions_def Let_def split: option.splits)

lemma match_loop_Ok:
  assumes "\<forall>(i, ix) \<in> set ms. i < length its" "\<forall>it \<in> set its. length (lo (item_search_name it)) \<le> length (item_search_name it)"
  shows "\<exists>fs. match_loop lo q its (map item_search_name its) ms = Ok fs"
  using assms(1)
proof (induction ms)
  case (Cons m ms)
  obtain i ix where m: "m = (i, ix)" by (cases m)
  obtain fs where "match_loop lo q its (map item_search_name its) ms = Ok fs" using Cons by auto
  moreover obtain ix' where "improveMatchPositions lo q (item_search_name (its ! i)) ix = Ok ix'"
    using improve_Ok [of lo "item_search_name (its ! i)" q ix] assms(2) Cons.prems m by (auto simp: all_set_conv_all_nth)
  ultimately show ?case using Cons.prems m by simp
qed simp

lemma filterItems_Ok: "find_ok L \<Longrightarrow> items_ok L its \<Longrightarrow> \<exists>fs. filterItems L q its = Ok fs"
  using match_loop_Ok [of "tl_Find L q (map item_search_name its)" its "tl_ToLower L" q]
  by (fastforce simp: filterItems_def Let_def find_ok_def items_ok_def name_ok_def)

lemma filterItems_mem:
  assumes "filterItems L q its = Ok fs" "x \<in> set fs" shows "\<exists>it \<in> set its. \<exists>ix. x = it\<lparr>it_matchedIndexes := ix\<rparr>"
  using assms match_loop_mem by (fastforce simp: filterItems_def Let_def split: if_splits)

lemma filterItems_length:
  assumes "map item_search_name its = map item_search_name its'"
    and "filterItems L q its = Ok fs" "filterItems L q its' = Ok fs'"
  shows "length fs' = length fs"
  using assms map_eq_imp_length_eq [OF assms(1)] match_loop_length
  by (fastforce simp: filterItems_def Let_def split: if_splits)

lemma refresh_Ok:
  assumes "find_ok L" "items_ok L (md_allItems m)"
  obtains fs where "refresh L m = Ok (m\<lparr>md_filtered := fs\<rparr>)" "filterItems L (md_query m) (md_allItems m) = Ok fs"
  using filterItems_Ok [OF assms, of "md_query m"] by (auto simp: refresh_def)

section \<open>The cursor and the window\<close>

lemma window_height_pos [simp]: "0 < window_height h" by (simp add: window_height_def)

lemma clampCursor_spec:
  obtains c v where "clampCursor m = m\<lparr>md_cursor := c, md_viewOffset := v\<rparr>" "cursor_ok (md_filtered m) c"
    "0 \<le> md_viewOffset m \<Longrightarrow> 0 \<le> v"
    "cursor_ok (md_filtered m) (md_cursor m) \<Longrightarrow> c = md_cursor m"
proof -
  have "\<exists>c v. clampCursor m = m\<lparr>md_cursor := c, md_viewOffset := v\<rparr> \<and> cursor_ok (md_filtered m) c \<and>
      (0 \<le> md_viewOffset m \<longrightarrow> 0 \<le> v) \<and> (cursor_ok (md_filtered m) (md_cursor m) \<longrightarrow> c = md_cursor m)"
  proof (cases "md_filtered m = []")
    case True
    then show ?thesis by (intro exI [of _ 0]) (simp add: clampCursor_def cursor_ok_def)
  next
    case False
    let ?n = "int (length (md_filtered m))"
    let ?c1 = "if md_cursor m < 0 then 0 else md_cursor m"
    let ?c = "if ?c1 \<ge> ?n then ?n - 1 else ?c1"
    let ?x = "max (?n - listHeight m) 0"
    let ?v = "if md_viewOffset m > ?x then ?x else md_viewOffset m"
    have n: "0 < ?n" using False by simp
    have "clampCursor m = m\<lparr>md_cursor := ?c, md_viewOffset := ?v\<rparr>"
      using False by (simp only: clampCursor_def Let_def if_False)
    moreover have "cursor_ok (md_filtered m) ?c" using False n by (simp add: cursor_ok_def)
    moreover have "0 \<le> md_viewOffset m \<longrightarrow> 0 \<le> ?v" by simp
    moreover have "cursor_ok (md_filtered m) (md_cursor m) \<longrightarrow> ?c = md_cursor m" using False by (simp add: cursor_ok_def)
    ultimately show ?thesis by blast
  qed
  then show thesis using that by blast
qed

lemma scrollIntoView_spec:
  obtains v where "scrollIntoView m = m\<lparr>md_viewOffset := v\<rparr>"
    "0 \<le> md_viewOffset m \<Longrightarrow> 0 \<le> md_cursor m \<Longrightarrow> 0 \<le> v" "v \<le> md_cursor m" "md_cursor m < v + listHeight m"
proof -
  let ?lh = "listHeight m"
  let ?v1 = "if md_cursor m < md_viewOffset m then md_cursor m else md_viewOffset m"
  let ?v = "if md_cursor m \<ge> ?v1 + ?lh then md_cursor m - ?lh + 1 else ?v1"
  have lh: "0 < ?lh" by (simp add: listHeight_def)
  have "scrollIntoView m = m\<lparr>md_viewOffset := ?v\<rparr>"
  proof (cases "md_cursor m < md_viewOffset m")
    case True
    then show ?thesis using lh by (simp add: scrollIntoView_def Let_def listHeight_def)
  next
    case False
    then show ?thesis by (simp add: scrollIntoView_def Let_def listHeight_def)
  qed
  moreover have "0 \<le> md_viewOffset m \<Longrightarrow> 0 \<le> md_cursor m \<Longrightarrow> 0 \<le> ?v" using lh by simp
  moreover have "?v \<le> md_cursor m" "md_cursor m < ?v + ?lh" using lh by simp_all
  ultimately show thesis by (rule that)
qed

lemma clampCursor_inv:
  assumes "filterItems L (md_query m) (md_allItems m) = Ok (md_filtered m)" "0 \<le> md_viewOffset m" "items_ok L (md_allItems m)"
  shows "model_inv L (clampCursor m)"
  by (rule clampCursor_spec [of m]) (use assms in \<open>simp add: model_inv_def\<close>)

lemma scrollIntoView_inv: "model_inv L m \<Longrightarrow> model_inv L (scrollIntoView m)"
  by (rule scrollIntoView_spec [of m]) (auto simp: model_inv_def cursor_ok_def split: if_splits)

lemma moveCursor_inv: "model_inv L m \<Longrightarrow> model_inv L (moveCursor d m)"
  by (cases "md_filtered m = []") (simp_all add: moveCursor_def model_inv_def [of L m] scrollIntoView_inv clampCursor_inv)

text \<open>The outcome of a handler that returns a model with the invariant.\<close>

definition fine :: "('i, 'z) tui_libs_scheme \<Rightarrow> 'i outcome \<Rightarrow> bool" where
  "fine L r \<longleftrightarrow> (\<exists>m' c. r = Some (Ok (m', c)) \<and> model_inv L m')"

lemma fine_Some [simp]: "fine L (Some (Ok (m, c))) \<longleftrightarrow> model_inv L m"
  by (simp add: fine_def)

definition good :: "('i, 'z) tui_libs_scheme \<Rightarrow> 'i model res \<Rightarrow> bool" where
  "good L r \<longleftrightarrow> (\<exists>m. r = Ok m \<and> model_inv L m)"

lemma good_Ok [simp]: "good L (Ok m) \<longleftrightarrow> model_inv L m"
  by (simp add: good_def)

lemma good_mapR: "good L r \<Longrightarrow> (\<And>m. model_inv L m \<Longrightarrow> model_inv L (f m)) \<Longrightarrow> good L (mapR f r)"
  by (auto simp: good_def)

lemma at_cursor_ok: "cursor_ok xs c \<Longrightarrow> xs \<noteq> [] \<Longrightarrow> \<exists>x \<in> set xs. at_cursor xs c = Ok x"
  by (auto simp: cursor_ok_def at_cursor_def)

lemma fetchPreview_ok:
  assumes "model_inv L m" shows "\<exists>m' c. fetchPreviewCmd m = Ok (m', c) \<and> model_inv L m'"
proof (cases "md_showPreview m \<and> md_filtered m \<noteq> []")
  case True
  then obtain x where "at_cursor (md_filtered m) (md_cursor m) = Ok x"
    using at_cursor_ok [of "md_filtered m" "md_cursor m"] assms by (auto simp: model_inv_def)
  then show ?thesis using True assms by (auto simp: fetchPreviewCmd_def model_inv_def)
qed (use assms in \<open>auto simp: fetchPreviewCmd_def\<close>)

lemma with_preview_fine: "good L r \<Longrightarrow> fine L (with_preview r)"
  using fetchPreview_ok by (fastforce simp: with_preview_def good_def fine_def)

lemma at_row_fine:
  assumes "model_inv L m" "fine L none" "\<And>sel. sel \<in> set (md_filtered m) \<Longrightarrow> fine L (f sel)" shows "fine L (at_row m none f)"
  using assms at_cursor_ok [of "md_filtered m" "md_cursor m"] by (auto simp: at_row_def model_inv_def)

lemma clamped_refresh:
  assumes "find_ok L" "items_ok L (md_allItems m)" "0 \<le> md_viewOffset m" shows "good L (mapR clampCursor (refresh L m))"
  by (rule refresh_Ok [OF assms(1,2)]) (use assms in \<open>simp add: clampCursor_inv\<close>)

lemma refilter_good:
  assumes "find_ok L" "items_ok L (md_allItems m)" shows "good L (refilter L m)"
  by (rule refresh_Ok [OF assms]) (use assms in \<open>simp add: refilter_def model_inv_def cursor_ok_def\<close>)

section \<open>Collapsing returns\<close>

lemma parent_of_mem:
  assumes "p \<in> it_path ` set its" shows "\<exists>a \<in> set its. it_path a = p \<and> parent_of its p = it_parentPath a"
proof -
  obtain a where "find (\<lambda>a. it_path a = p) its = Some a"
    using assms by (cases "find (\<lambda>a. it_path a = p) its") (auto simp: find_None_iff)
  moreover from this have "a \<in> set its \<and> it_path a = p" by (auto simp: find_Some_iff)
  ultimately show ?thesis by (auto simp: parent_of_def)
qed

lemma parent_of_tree: "tree_ok its \<Longrightarrow> p \<in> it_path ` set its \<Longrightarrow>
    parent_of its p = [] \<or> (parent_of its p \<in> it_path ` set its \<and> length (parent_of its p) < length p)"
  using parent_of_mem [of p its] by (auto simp: tree_ok_def)

lemma walk_up_simps:
  "walk_up its path [] = Some False"
  "p \<noteq> [] \<Longrightarrow> walk_up its path p = (if p = path then Some True else walk_up its path (parent_of its p))"
  by (subst walk_up.simps, simp)+

lemma walk_up_returns: "tree_ok its \<Longrightarrow> p = [] \<or> p \<in> it_path ` set its \<Longrightarrow> \<exists>b. walk_up its path p = Some b"
proof (induction "length p" arbitrary: p rule: less_induct)
  case less
  show ?case
  proof (cases "p = [] \<or> p = path")
    case False
    then show ?thesis using less parent_of_tree [of its p] by (auto simp: walk_up_simps)
  next
    case True
    then show ?thesis by (cases "p = []") (auto simp: walk_up_simps)
  qed
qed

lemma walk_up_shorter: "tree_ok its \<Longrightarrow> p = [] \<or> p \<in> it_path ` set its \<Longrightarrow> length p < length path \<Longrightarrow>
    walk_up its path p = Some False"
proof (induction "length p" arbitrary: p rule: less_induct)
  case less
  show ?case
  proof (cases "p = []")
    case False
    then show ?thesis using less parent_of_tree [of its p] by (auto simp: walk_up_simps)
  qed (simp add: walk_up_simps)
qed

definition stays :: "item list \<Rightarrow> string \<Rightarrow> item \<Rightarrow> bool" where
  "stays all path it \<longleftrightarrow> it_path it = path \<or> walk_up all path (it_parentPath it) = Some False"

definition closed_at :: "string \<Rightarrow> item \<Rightarrow> item" where
  "closed_at path it = (if it_path it = path then it\<lparr>it_expanded := False, it_isLoading := False\<rparr> else it)"

lemma closed_at_simps [simp]: "it_path (closed_at path it) = it_path it" "it_parentPath (closed_at path it) = it_parentPath it"
  by (simp_all add: closed_at_def)

lemma tree_walk: "tree_ok all \<Longrightarrow> it \<in> set all \<Longrightarrow> \<exists>b. walk_up all path (it_parentPath it) = Some b"
  by (rule walk_up_returns) (auto simp: tree_ok_def)

lemma collapse_loop_spec:
  assumes "tree_ok all" "set its \<subseteq> set all"
  shows "collapse_loop all path its = Some (map (closed_at path) (filter (stays all path) its))"
  using assms(2)
proof (induction its)
  case (Cons it its)
  obtain b where "walk_up all path (it_parentPath it) = Some b" using tree_walk [OF assms(1), of it path] Cons.prems by auto
  then show ?case using Cons by (auto simp: stays_def closed_at_def)
qed simp

lemma collapse_tree:
  assumes t: "tree_ok all" shows "tree_ok (map (closed_at path) (filter (stays all path) all))"
  unfolding tree_ok_def
proof (intro ballI impI)
  fix it' assume "it' \<in> set (map (closed_at path) (filter (stays all path) all))" and p: "it_parentPath it' \<noteq> []"
  then obtain it where it: "it \<in> set all" "stays all path it" "it' = closed_at path it" by auto
  let ?p = "it_parentPath it"
  have p': "?p \<noteq> []" "?p \<in> it_path ` set all" "length ?p < length (it_path it)"
    using t it(1) p unfolding it(3) by (auto simp: tree_ok_def)
  obtain a where a: "a \<in> set all" "it_path a = ?p" "parent_of all ?p = it_parentPath a"
    using parent_of_mem [OF p'(2)] by blast
  have ap: "it_parentPath a = [] \<or> it_parentPath a \<in> it_path ` set all" using t a(1) by (auto simp: tree_ok_def)
  have "stays all path a"
  proof (cases "it_path it = path")
    case True
    then have "length (it_parentPath a) < length path"
      using t a p' by (cases "it_parentPath a = []") (auto simp: tree_ok_def)
    then show ?thesis using walk_up_shorter [OF t ap] by (simp add: stays_def)
  next
    case False
    then have "walk_up all path ?p = Some False" using it(2) by (simp add: stays_def)
    then show ?thesis using p'(1) a by (auto simp: stays_def walk_up_simps split: if_splits)
  qed
  then have "?p \<in> it_path ` set (map (closed_at path) (filter (stays all path) all))"
    using a by force
  then show "it_parentPath it' \<in> it_path ` set (map (closed_at path) (filter (stays all path) all)) \<and>
      length (it_parentPath it') < length (it_path it')" using p' it(3) by simp
qed

lemma collapseItem_ok:
  assumes L: "find_ok L" and inv: "model_inv L m"
  shows "\<exists>r. collapseItem L path m = Some r \<and> good L r"
proof -
  have ok: "tree_ok (md_allItems m)" "\<forall>it \<in> set (md_allItems m). name_ok L it"
    using inv by (simp_all add: model_inv_def items_ok_def)
  let ?its = "map (closed_at path) (filter (stays (md_allItems m) path) (md_allItems m))"
  have "name_ok L (closed_at path it) \<longleftrightarrow> name_ok L it" for it
    by (simp add: name_ok_def closed_at_def item_search_name_def)
  then have its: "items_ok L ?its" using ok collapse_tree [OF ok(1)] by (simp add: items_ok_def)
  have "good L (mapR clampCursor (refresh L (m\<lparr>md_allItems := ?its\<rparr>)))"
    by (rule clamped_refresh [OF L]) (use its inv in \<open>simp_all add: model_inv_def\<close>)
  then show ?thesis using collapse_loop_spec [OF ok(1) order_refl, of path] by (simp add: collapseItem_def)
qed

section \<open>Expanding\<close>

lemma mark_mem: "it' \<in> set (mark p f its) \<longleftrightarrow> (\<exists>it \<in> set its. it' = (if it_path it = p then f it else it))"
  by (simp only: mark_def set_map image_iff)

lemma mark_paths:
  assumes "\<And>it. it_path (f it) = it_path it" shows "it_path ` set (mark p f its) = it_path ` set its"
proof -
  have "it_path (if it_path it = p then f it else it) = it_path it" for it using assms by simp
  then show ?thesis by (simp only: mark_def set_map image_image)
qed

text \<open>A change of an item that leaves what the list is built from.\<close>

definition only_flags :: "(item \<Rightarrow> item) \<Rightarrow> bool" where
  "only_flags f \<longleftrightarrow> (\<forall>it. it_path (f it) = it_path it \<and> it_parentPath (f it) = it_parentPath it \<and>
     item_search_name (f it) = item_search_name it)"

lemma flags_loading: "only_flags (\<lambda>it. it\<lparr>it_isLoading := True\<rparr>)"
  by (simp add: only_flags_def item_search_name_def)

lemma flags_expand: "only_flags (expand_mark err kids)"
  by (simp add: only_flags_def expand_mark_def Let_def item_search_name_def)

lemma mark_ok:
  assumes "items_ok L its" and f: "only_flags f" shows "items_ok L (mark p f its)"
  unfolding items_ok_def tree_ok_def
proof (intro conjI ballI impI)
  have paths: "it_path ` set (mark p f its) = it_path ` set its" using f by (intro mark_paths) (simp add: only_flags_def)
  fix a assume a: "a \<in> set (mark p f its)"
  then obtain it where it: "it \<in> set its" "a = (if it_path it = p then f it else it)" unfolding mark_mem by blast
  then have same: "it_path a = it_path it" "it_parentPath a = it_parentPath it" "item_search_name a = item_search_name it"
    using f by (simp_all add: only_flags_def)
  show "name_ok L a" using assms(1) it(1) same by (simp add: items_ok_def name_ok_def)
  assume "it_parentPath a \<noteq> []"
  then show "it_parentPath a \<in> it_path ` set (mark p f its)" "length (it_parentPath a) < length (it_path a)"
    using assms(1) it(1) unfolding paths same by (simp_all add: items_ok_def tree_ok_def)
qed

lemma mark_refresh:
  assumes L: "find_ok L" and inv: "model_inv L m" and f: "only_flags f"
  shows "good L (refresh L (m\<lparr>md_allItems := mark p f (md_allItems m)\<rparr>))"
proof -
  let ?all = "mark p f (md_allItems m)"
  have ok: "items_ok L ?all" using inv f by (intro mark_ok) (simp_all add: model_inv_def)
  obtain fs where fs: "filterItems L (md_query m) ?all = Ok fs" using filterItems_Ok [OF L ok] by blast
  have "map item_search_name ?all = map item_search_name (md_allItems m)" using f by (simp add: mark_def only_flags_def)
  then have "length fs = length (md_filtered m)"
    using filterItems_length [of "md_allItems m" ?all L "md_query m"] inv fs by (simp add: model_inv_def)
  then have "cursor_ok fs (md_cursor m)" using inv by (auto simp: model_inv_def cursor_ok_def split: if_splits)
  then show ?thesis using fs ok inv by (simp add: refresh_def good_def model_inv_def)
qed

lemma path_idx_Some: "path_idx p its = Some i \<Longrightarrow> i < length its \<and> it_path (its ! i) = p"
  by (induction its arbitrary: i) (auto split: if_splits)

lemma path_idx_None: "path_idx p its = None \<longleftrightarrow> p \<notin> it_path ` set its"
  by (induction its) (auto split: if_splits)

lemma insert_kids_set: "set (insert_kids p kids its) = set its \<union> set kids"
proof (cases "path_idx p its")
  case (Some i)
  have "set its = set (take i its) \<union> set (drop i its)" by (metis append_take_drop_id set_append)
  then show ?thesis using Some by (auto simp: insert_kids_def)
qed (simp add: insert_kids_def)

lemma items_ok_union:
  assumes "items_ok L its" "set new = set its \<union> set kids"
    "\<And>k. k \<in> set kids \<Longrightarrow> name_ok L k \<and> (it_parentPath k = [] \<or>
       it_parentPath k \<in> it_path ` set its \<and> length (it_parentPath k) < length (it_path k))"
  shows "items_ok L new"
  unfolding items_ok_def tree_ok_def
proof (intro conjI ballI impI)
  fix a assume a: "a \<in> set new"
  show "name_ok L a" using a assms by (auto simp: items_ok_def)
  assume p: "it_parentPath a \<noteq> []"
  have "it_parentPath a \<in> it_path ` set its \<and> length (it_parentPath a) < length (it_path a)"
    using a p assms unfolding items_ok_def tree_ok_def by blast
  then show "it_parentPath a \<in> it_path ` set new" "length (it_parentPath a) < length (it_path a)"
    using assms(2) by auto
qed

lemma applyExpandResult_good:
  assumes L: "find_ok L" and inv: "model_inv L m" and ok: "msg_ok L m (ExpandResultMsg p kids st err)"
  shows "good L (applyExpandResult L p kids st err m)"
proof (cases "err \<noteq> None \<or> kids = []")
  case True
  then show ?thesis using mark_refresh [OF L inv flags_expand] by (auto simp: applyExpandResult_def Let_def)
next
  case False
  let ?all = "mark p (expand_mark err kids) (md_allItems m)"
  let ?new = "insert_kids p kids ?all"
  have all: "items_ok L ?all" using inv by (intro mark_ok flags_expand) (simp add: model_inv_def)
  have "it_path ` set ?all = it_path ` set (md_allItems m)"
    using flags_expand by (intro mark_paths) (simp add: only_flags_def)
  then have new: "items_ok L ?new" using ok False by (intro items_ok_union [OF all insert_kids_set]) simp
  define m2 where "m2 = (case st of None \<Rightarrow> m | Some s \<Rightarrow> m\<lparr>md_dynamicStores := mset (st_GetID s) s (md_dynamicStores m)\<rparr>)"
  have m2: "md_query m2 = md_query m" "0 \<le> md_viewOffset m2"
    using inv by (simp_all add: m2_def model_inv_def split: option.splits)
  obtain fs where fs: "filterItems L (md_query m) ?new = Ok fs" using filterItems_Ok [OF L new] by blast
  let ?m3 = "m2\<lparr>md_allItems := ?new, md_filtered := fs\<rparr>"
  have "applyExpandResult L p kids st err m = Ok (case path_idx p ?all of
      Some i \<Rightarrow> scrollIntoView (clampCursor (?m3\<lparr>md_cursor := int i + int (length kids) - 1\<rparr>)) | None \<Rightarrow> clampCursor ?m3)"
    using False fs by (cases st) (simp_all add: applyExpandResult_def Let_def m2_def refresh_def split: option.split)
  moreover have "model_inv L (clampCursor (?m3\<lparr>md_cursor := c\<rparr>))" for c by (rule clampCursor_inv) (simp_all add: fs m2 new)
  moreover have "model_inv L (clampCursor ?m3)" by (rule clampCursor_inv) (simp_all add: fs m2 new)
  ultimately show ?thesis by (simp add: scrollIntoView_inv split: option.splits)
qed

section \<open>Every message keeps the invariant\<close>

lemma move_to_path_inv:
  assumes "model_inv L m" shows "model_inv L (move_to_path p m)"
proof (cases "path_idx p (md_filtered m)")
  case (Some i)
  then have "i < length (md_filtered m)" using path_idx_Some by blast
  then have "model_inv L (m\<lparr>md_cursor := int i\<rparr>)" using assms by (auto simp: model_inv_def cursor_ok_def)
  then show ?thesis using Some scrollIntoView_inv by (simp add: move_to_path_def)
qed (use assms in \<open>simp add: move_to_path_def\<close>)

lemma delegate_fine:
  assumes "find_ok L" "model_inv L m" shows "fine L (delegate L msg m)"
proof -
  let ?m1 = "m\<lparr>md_input := tl_Update L (md_input m) msg\<rparr>"
  have "model_inv L ?m1" using assms by (auto simp: model_inv_def)
  moreover have "good L (refilter L (?m1\<lparr>md_query := q\<rparr>))" for q
    using assms by (intro refilter_good) (simp_all add: model_inv_def)
  ultimately show ?thesis using with_preview_fine
    by (fastforce simp: delegate_def Let_def fine_def)
qed

lemma key_left_fine:
  assumes "find_ok L" "model_inv L m" shows "fine L (key_left L m)"
  unfolding key_left_def
proof (rule at_row_fine [OF assms(2)])
  fix sel
  obtain r1 where r1: "collapseItem L (it_path sel) m = Some r1" "good L r1" using collapseItem_ok [OF assms] by blast
  obtain r2 where r2: "collapseItem L (it_parentPath sel) m = Some r2" "good L r2" using collapseItem_ok [OF assms] by blast
  show "fine L (if it_expanded sel then Option.bind (collapseItem L (it_path sel) m) with_preview
     else if it_parentPath sel \<noteq> [] then
       Option.bind (collapseItem L (it_parentPath sel) m) (\<lambda>r. with_preview (mapR (move_to_path (it_parentPath sel)) r))
     else Some (Ok (m, NoCmd)))"
    using r1 r2 assms(2) by (simp add: with_preview_fine good_mapR move_to_path_inv)
qed (use assms in simp)

lemma key_right_fine:
  assumes "find_ok L" "model_inv L m" shows "fine L (key_right L m)"
  unfolding key_right_def
proof (rule at_row_fine [OF assms(2)])
  fix sel show "fine L (if \<not> it_expanded sel \<and> \<not> it_isLoading sel
     then Some (mapR (\<lambda>m1. (m1, ExpandK0smotron sel)) (markLoading L (it_path sel) m)) else Some (Ok (m, NoCmd)))"
    using mark_refresh [OF assms flags_loading] assms(2) by (auto simp: markLoading_def good_def fine_def)
qed (use assms in simp)

lemma key_enter_fine: "model_inv L m \<Longrightarrow> fine L (key_enter m)"
  unfolding key_enter_def by (rule at_row_fine) (auto simp: model_inv_def)

lemma key_ctrl_u_fine:
  assumes "find_ok L" "model_inv L m" shows "fine L (key_ctrl_u L m)"
proof -
  obtain fs where fs: "filterItems L [] (md_allItems m) = Ok fs"
    using filterItems_Ok [OF assms(1)] assms(2) by (auto simp: model_inv_def)
  show ?thesis unfolding key_ctrl_u_def
    by (rule with_preview_fine) (use fs assms(2) in \<open>simp add: model_inv_def cursor_ok_def\<close>)
qed

lemma key_press_fine:
  assumes L: "find_ok L" and inv: "model_inv L m" shows "fine L (key_press L k m)"
proof -
  have del: "good L (refilter L (deleteWord L m))"
    using inv by (intro refilter_good L) (simp add: deleteWord_def Let_def model_inv_def)
  have abort: "model_inv L (m\<lparr>md_Aborted := True\<rparr>)" using inv by (auto simp: model_inv_def)
  note moves = with_preview_fine [where r = "Ok (moveCursor d m)" for d, simplified, OF moveCursor_inv [OF inv]]
  show ?thesis
    unfolding key_press_def
    using abort key_enter_fine [OF inv] key_right_fine [OF L inv] key_left_fine [OF L inv] key_ctrl_u_fine [OF L inv]
      with_preview_fine [OF del] delegate_fine [OF L inv, of "KeyPressMsg k"] moves
    by (simp split del: if_split) (simp split: if_split)
qed

lemma Update_fine:
  assumes "find_ok L" and "model_inv L m" and "msg_ok L m msg"
  shows "fine L (Update L msg m)"
proof (cases msg)
  case (ItemsMsg its)
  have "items_ok L (md_allItems m @ its)"
    by (rule items_ok_union [of L "md_allItems m" _ its]) (use assms ItemsMsg in \<open>auto simp: model_inv_def\<close>)
  then show ?thesis using assms ItemsMsg by (simp add: with_preview_fine clamped_refresh model_inv_def)
next
  case (ExpandResultMsg p kids st err)
  then show ?thesis using with_preview_fine [OF applyExpandResult_good] assms by simp
next
  case (PasteMsg s)
  then show ?thesis using assms by (simp add: delegate_fine)
next
  case (KeyPressMsg k)
  then show ?thesis using assms by (simp add: key_press_fine)
qed (use assms in \<open>simp_all add: model_inv_def\<close>)

text \<open>
  C35. A message is handled without a panic and without an endless loop, and keeps what the list relies on: the
  rows are the items matching the query, the cursor is on a row, the parent of every sub-cluster is
  in the list. This holds for every key, paste, resize and preview, for discovered items, and for the answer to an
  expansion whose parent is still listed (\<^verbatim>\<open>msg_ok\<close>; \<^verbatim>\<open>late_expansion_hangs\<close> is the other case), where the names
  do not grow when they are made lower case (\<^verbatim>\<open>growing_name_panics\<close>).
\<close>

theorem Update_keeps_invariant:
  assumes "find_ok L" and "model_inv L m" and "msg_ok L m msg"
  shows "\<exists>m' c. Update L msg m = Some (Ok (m', c)) \<and> model_inv L m'"
  using Update_fine [OF assms] by (simp add: fine_def)

section \<open>Runs of the program\<close>

inductive reachable :: "('i, 'z) tui_libs_scheme \<Rightarrow> 'i model \<Rightarrow> bool" for L where
  start: "md_allItems m = [] \<Longrightarrow> md_filtered m = [] \<Longrightarrow> md_query m = [] \<Longrightarrow> md_cursor m = 0 \<Longrightarrow> md_viewOffset m = 0 \<Longrightarrow> reachable L m"
| step: "reachable L m \<Longrightarrow> msg_ok L m msg \<Longrightarrow> Update L msg m = Some (Ok (m', c)) \<Longrightarrow> reachable L m'"

lemma NewModel_reachable: "reachable (L :: 'i tui_libs) (NewModel L stores showPreview)"
  by (rule start) (simp_all add: NewModel_def)

lemma reachable_inv:
  assumes "reachable L m" "find_ok L" shows "model_inv L m"
  using assms
proof (induction rule: reachable.induct)
  case (start m)
  then show ?case by (simp add: model_inv_def filterItems_def cursor_ok_def items_ok_def tree_ok_def)
next
  case (step m msg m' c)
  then show ?case using Update_fine [of L m msg] by (auto simp: fine_def)
qed

text \<open>
  In every state the program reaches, enter selects the item under the cursor: an item of the
  list with its own path, context, store and tags, and nothing when no item matches.
\<close>

theorem enter_selects_item:
  assumes L: "find_ok L" and r: "reachable L m"
  shows "\<exists>m'. Update L (KeyPressMsg ''enter'') m = Some (Ok (m', Quit)) \<and>
    (md_filtered m = [] \<longrightarrow> m' = m) \<and>
    (md_filtered m \<noteq> [] \<longrightarrow> (\<exists>it \<in> set (md_allItems m). \<exists>ix.
       it\<lparr>it_matchedIndexes := ix\<rparr> = md_filtered m ! nat (md_cursor m) \<and> m' = m\<lparr>md_Selected := Some (it\<lparr>it_matchedIndexes := ix\<rparr>)\<rparr>))"
proof -
  have inv: "model_inv L m" by (rule reachable_inv [OF r L])
  show ?thesis
  proof (cases "md_filtered m = []")
    case False
    then have c: "0 \<le> md_cursor m" "nat (md_cursor m) < length (md_filtered m)"
      using inv by (auto simp: model_inv_def cursor_ok_def)
    then obtain it ix where "it \<in> set (md_allItems m)" "md_filtered m ! nat (md_cursor m) = it\<lparr>it_matchedIndexes := ix\<rparr>"
      using filterItems_mem [of L "md_query m" "md_allItems m" "md_filtered m", OF _ nth_mem [OF c(2)]] inv
      unfolding model_inv_def by blast
    then show ?thesis using c False by (auto simp: key_press_def key_enter_def at_row_def at_cursor_def)
  qed (simp add: key_press_def key_enter_def at_row_def)
qed

text \<open>
  After a move the cursor is on a row and inside the window, whatever the distance; a move that stays on the rows
  is exact.
\<close>

theorem moveCursor_visible:
  assumes "md_filtered m \<noteq> []"
  shows "cursor_ok (md_filtered m) (md_cursor (moveCursor d m)) \<and> visible (moveCursor d m) \<and>
    (cursor_ok (md_filtered m) (md_cursor m + d) \<longrightarrow> md_cursor (moveCursor d m) = md_cursor m + d)"
proof -
  let ?m1 = "m\<lparr>md_cursor := md_cursor m + d\<rparr>"
  obtain c v where cv: "clampCursor ?m1 = ?m1\<lparr>md_cursor := c, md_viewOffset := v\<rparr>" "cursor_ok (md_filtered m) c"
    "cursor_ok (md_filtered m) (md_cursor m + d) \<longrightarrow> c = md_cursor m + d"
    by (rule clampCursor_spec [of ?m1]) force
  obtain v' where "scrollIntoView (clampCursor ?m1) = (clampCursor ?m1)\<lparr>md_viewOffset := v'\<rparr>"
    "v' \<le> md_cursor (clampCursor ?m1)" "md_cursor (clampCursor ?m1) < v' + listHeight (clampCursor ?m1)"
    by (rule scrollIntoView_spec)
  then show ?thesis using assms cv by (auto simp: moveCursor_def visible_def listHeight_def)
qed

section \<open>Where the list goes wrong\<close>

text \<open>
  Clearing the query with ctrl+u puts the cursor on the first row but leaves the window where it
  was scrolled to, so the cursor is not among the visible rows.
\<close>

theorem ctrl_u_hides_cursor:
  assumes "find_ok L" "model_inv L m" "0 < md_viewOffset m"
  shows "\<exists>m' c. Update L (KeyPressMsg ''ctrl+u'') m = Some (Ok (m', c)) \<and> md_cursor m' = 0 \<and> \<not> visible m'"
proof -
  obtain fs where fs: "filterItems L [] (md_allItems m) = Ok fs"
    using filterItems_Ok [OF assms(1)] assms(2) unfolding model_inv_def by blast
  show ?thesis
    using fs assms(3) by (auto simp: key_press_def key_ctrl_u_def with_preview_def fetchPreviewCmd_def at_cursor_def visible_def listHeight_def)
qed

lemma match_loop_panics:
  assumes "(i, ix) \<in> set ms" "i < length its" "is_panic (improveMatchPositions lo q (names ! i) ix)"
  shows "is_panic (match_loop lo q its names ms)"
  using assms(1)
proof (induction ms)
  case (Cons m ms)
  obtain j jx where m: "m = (j, jx)" by (cases m)
  have noerr: "\<not> (\<exists>e. improveMatchPositions lo q t jx = Err e)" for t
    by (auto simp: improveMatchPositions_def Let_def split: option.splits)
  show ?case
  proof (cases "m = (i, ix)")
    case True
    then show ?thesis using assms by (auto simp: bindR_Panic_iff)
  next
    case False
    then have "is_panic (match_loop lo q its names ms)" using Cons by auto
    then show ?thesis using m noerr [of "names ! j"]
      by (cases "improveMatchPositions lo q (names ! j) jx") (auto simp: bindR_Panic_iff)
  qed
qed simp

text \<open>
  A matching name whose lower-case form puts the match behind the end of the name itself makes
  filtering panic: the position is computed in one string and used to slice the other.
\<close>

theorem growing_name_panics:
  assumes "find_ok L" "q \<noteq> []" "(i, ix) \<in> set (tl_Find L q (map item_search_name its))"
    and "GoStrings.Index (tl_ToLower L (item_search_name (its ! i))) (tl_ToLower L q) = Some idx"
    and "length (item_search_name (its ! i)) < idx"
  shows "is_panic (filterItems L q its)"
proof -
  have i: "i < length its" using assms(1,3) unfolding find_ok_def by (metis length_map)
  then have "is_panic (improveMatchPositions (tl_ToLower L) q (map item_search_name its ! i) ix)"
    using assms(4,5) by (simp add: improveMatchPositions_def)
  then show ?thesis using match_loop_panics [OF assms(3) i] assms(2) by (simp add: filterItems_def Let_def)
qed

lemma parent_of_orphan: "p \<notin> it_path ` set its \<Longrightarrow> parent_of its p = p"
proof -
  assume "p \<notin> it_path ` set its"
  then have "find (\<lambda>a. it_path a = p) its = None" by (auto simp: find_None_iff)
  then show "parent_of its p = p" by (simp add: parent_of_def)
qed

lemma walk_up_orphan_raw:
  assumes "walk_up its path p = Some b" shows "p = [] \<or> p = path \<or> p \<in> it_path ` set its"
proof (rule walk_up.raw_induct [of "\<lambda>its path p b. p = [] \<or> p = path \<or> p \<in> it_path ` set its", OF _ assms])
  fix walk :: "item list \<Rightarrow> string \<Rightarrow> string \<Rightarrow> bool option" and its path p b
  assume IH: "\<And>its path p b. walk its path p = Some b \<Longrightarrow> p = [] \<or> p = path \<or> p \<in> it_path ` set its"
    and eq: "(if p = [] then Some False else if p = path then Some True else walk its path (parent_of its p)) = Some b"
  show "p = [] \<or> p = path \<or> p \<in> it_path ` set its"
  proof (rule ccontr)
    assume o: "\<not> ?thesis"
    then have "walk its path p = Some b" using eq parent_of_orphan [of p its] by simp
    then show False using IH o by blast
  qed
qed

lemma walk_up_orphan: "p \<noteq> [] \<Longrightarrow> p \<noteq> path \<Longrightarrow> p \<notin> it_path ` set its \<Longrightarrow> walk_up its path p = None"
  using walk_up_orphan_raw [of its path p] by (cases "walk_up its path p") auto

lemma cursor_items [simp]:
  "md_allItems (clampCursor m) = md_allItems m" "md_allItems (scrollIntoView m) = md_allItems m"
  by (rule clampCursor_spec [of m], simp) (rule scrollIntoView_spec [of m], simp)

lemma applyExpandResult_items:
  assumes "kids \<noteq> []" "applyExpandResult L p kids st None m = Ok m1"
  shows "md_allItems m1 = insert_kids p kids (mark p (expand_mark None kids) (md_allItems m))"
proof -
  let ?all = "mark p (expand_mark None kids) (md_allItems m)"
  define m2 where "m2 = (case st of None \<Rightarrow> m | Some s \<Rightarrow> m\<lparr>md_dynamicStores := mset (st_GetID s) s (md_dynamicStores m)\<rparr>)"
  let ?m3 = "m2\<lparr>md_allItems := insert_kids p kids ?all\<rparr>"
  have "applyExpandResult L p kids st None m = mapR (\<lambda>m3. case path_idx p ?all of
      Some i \<Rightarrow> scrollIntoView (clampCursor (m3\<lparr>md_cursor := int i + int (length kids) - 1\<rparr>)) | None \<Rightarrow> clampCursor m3)
      (refresh L ?m3)"
    using assms(1) by (cases st) (simp_all add: applyExpandResult_def Let_def m2_def)
  from this [symmetric] obtain m3 where m3: "refresh L ?m3 = Ok m3" "m1 = (case path_idx p ?all of
      Some i \<Rightarrow> scrollIntoView (clampCursor (m3\<lparr>md_cursor := int i + int (length kids) - 1\<rparr>)) | None \<Rightarrow> clampCursor m3)"
    using assms(2) by auto
  have "md_allItems m1 = md_allItems m3" using m3(2) by (simp split: option.splits)
  also have "\<dots> = md_allItems ?m3" using m3(1) by (auto simp: refresh_def)
  finally show ?thesis by simp
qed

lemma collapse_loop_orphan:
  "k \<in> set its \<Longrightarrow> it_path k \<noteq> path \<Longrightarrow> walk_up all path (it_parentPath k) = None \<Longrightarrow> collapse_loop all path its = None"
  by (induction all path its rule: collapse_loop.induct) (auto split: option.splits)

text \<open>
  When the sub-clusters of an item arrive after the item was collapsed away, they are appended
  without their parent, and collapsing any other expanded item then never returns: the walk
  over the parents does not move at a path that is not listed.
\<close>

theorem late_expansion_hangs:
  assumes "p \<noteq> []" "p \<notin> it_path ` set (md_allItems m)" "k \<in> set kids" "it_parentPath k = p"
    and "\<forall>k' \<in> set kids. it_path k' \<noteq> p"
    and late: "Update L (ExpandResultMsg p kids st None) m = Some (Ok (m', c))"
    and "at_cursor (md_filtered m') (md_cursor m') = Ok sel" "it_expanded sel" "it_path sel \<noteq> p" "it_path sel \<noteq> it_path k"
  shows "Update L (KeyPressMsg ''left'') m' = None"
proof -
  let ?all = "mark p (expand_mark None kids) (md_allItems m)"
  have paths: "it_path ` set ?all = it_path ` set (md_allItems m)"
    using flags_expand by (intro mark_paths) (simp add: only_flags_def)
  then have none: "path_idx p ?all = None" using assms(2) by (simp add: path_idx_None)
  obtain m1 where m1: "applyExpandResult L p kids st None m = Ok m1" "fetchPreviewCmd m1 = Ok (m', c)"
    using late by (cases "applyExpandResult L p kids st None m") (auto simp: with_preview_def)
  have "md_allItems m1 = ?all @ kids"
    using applyExpandResult_items [OF _ m1(1)] assms(3) none by (cases kids) (simp_all add: insert_kids_def)
  moreover have "md_allItems m' = md_allItems m1" using m1(2) by (auto simp: fetchPreviewCmd_def split: if_splits)
  ultimately have all: "md_allItems m' = ?all @ kids" by simp
  have "p \<notin> it_path ` set (md_allItems m')" using all paths assms(2,5) by auto
  then have "walk_up (md_allItems m') (it_path sel) p = None" by (intro walk_up_orphan) (use assms in auto)
  then have "collapse_loop (md_allItems m') (it_path sel) (md_allItems m') = None"
    by (intro collapse_loop_orphan [of k]) (use assms all in auto)
  moreover have "md_filtered m' \<noteq> []" using assms(7) by (auto simp: at_cursor_def split: if_splits)
  ultimately show ?thesis using assms(7,8) by (simp add: key_press_def key_left_def at_row_def collapseItem_def)
qed

section \<open>Concrete runs\<close>

text \<open>
  A text input that appends what is typed, a matcher that finds the names containing the query, and
  lower-casing of one letter whose lower-case form is one byte longer (U+023A to U+2C65).
\<close>

definition sample_find :: "string \<Rightarrow> string list \<Rightarrow> (nat \<times> nat list) list" where
  "sample_find q names = map (\<lambda>i. (i, [])) (filter (\<lambda>i. Contains (names ! i) q) [0..<length names])"

definition tui_sample :: "string tui_libs" where
  "tui_sample = \<lparr>tl_Update = (\<lambda>i m. case m of KeyPressMsg k \<Rightarrow> i @ k | PasteMsg s \<Rightarrow> i @ s | _ \<Rightarrow> i), tl_Value = (\<lambda>i. i),
     tl_SetValue = (\<lambda>s i. s), tl_CursorEnd = (\<lambda>i. i), tl_New = [], tl_Find = sample_find,
     tl_ToLower = (\<lambda>s. ReplaceAll s [CHR 0xC8, CHR 0xBA] [CHR 0xE2, CHR 0xB1, CHR 0xA5])\<rparr>"

lemma sample_find_ok: "find_ok tui_sample"
  by (auto simp: find_ok_def tui_sample_def sample_find_def)

definition top_item :: "string \<Rightarrow> item" where
  "top_item p = \<lparr>it_displayName = p, it_dimSuffix = [], it_contextName = p, it_path = p, it_tags = [], it_storeID = ''s'',
     it_matchedIndexes = [], it_depth = 0, it_parentPath = [], it_isLoading = False, it_expanded = False, it_expandedEmpty = False\<rparr>"

definition sub_item :: "string \<Rightarrow> string \<Rightarrow> item" where
  "sub_item parent p = (top_item p)\<lparr>it_parentPath := parent, it_depth := 1\<rparr>"

definition small_model :: "string model" where
  "small_model = (NewModel tui_sample [] True)\<lparr>md_allItems := [top_item ''a'', top_item ''b''],
     md_filtered := [top_item ''a'', top_item ''b''], md_cursor := 1, md_viewOffset := 1, md_height := 3\<rparr>"

lemma small_inv: "model_inv tui_sample small_model"
  by (simp add: model_inv_def small_model_def NewModel_def filterItems_def top_item_def cursor_ok_def items_ok_def
      tree_ok_def name_ok_def item_search_name_def tui_sample_def ReplaceAll_def Split.simps Cut_def HasPrefix_def)

text \<open>The messages one after the other, without their commands.\<close>

fun run_msgs :: "('i, 'z) tui_libs_scheme \<Rightarrow> msg list \<Rightarrow> 'i model \<Rightarrow> 'i model res option" where
  "run_msgs L [] m = Some (Ok m)"
| "run_msgs L (msg # msgs) m = (case Update L msg m of
      Some (Ok (m1, c)) \<Rightarrow> run_msgs L msgs m1 | Some (Err e) \<Rightarrow> Some (Err e) | Some (Panic p) \<Rightarrow> Some (Panic p) | None \<Rightarrow> None)"

text \<open>
  Two contexts are expanded; the sub-cluster of the first is asked for its own, and its parent is
  collapsed while that runs; the cursor ends on the second.
\<close>

definition hang_trace :: "msg list" where
  "hang_trace = [ItemsMsg [top_item ''a'', top_item ''b''], KeyPressMsg ''right'', ExpandResultMsg ''a'' [sub_item ''a'' ''a/k''] None None,
     KeyPressMsg ''right'', KeyPressMsg ''up'', KeyPressMsg ''up'', KeyPressMsg ''right'',
     ExpandResultMsg ''b'' [sub_item ''b'' ''b/k''] None None, KeyPressMsg ''down'', KeyPressMsg ''down'', KeyPressMsg ''left'',
     KeyPressMsg ''up'', KeyPressMsg ''up'']"

definition hang_state :: "string model" where
  "hang_state = (case run_msgs tui_sample hang_trace (NewModel tui_sample [] False) of Some (Ok m) \<Rightarrow> m | _ \<Rightarrow> small_model)"

lemma hang_state_run: "run_msgs tui_sample hang_trace (NewModel tui_sample [] False) = Some (Ok hang_state)"
proof -
  have "(case run_msgs tui_sample hang_trace (NewModel tui_sample [] False) of Some (Ok m) \<Rightarrow> True | _ \<Rightarrow> False)" by code_simp
  then show ?thesis unfolding hang_state_def by (auto split: option.splits res.splits)
qed

lemma Update_keeps_invariant_witness:
  "\<exists>m' c. Update tui_sample (ExpandResultMsg ''a'' [sub_item ''a'' ''a/k''] None None) small_model = Some (Ok (m', c)) \<and>
     model_inv tui_sample m'"
proof (rule Update_keeps_invariant [OF sample_find_ok small_inv])
  have "name_ok tui_sample (sub_item ''a'' ''a/k'')" by code_simp
  then show "msg_ok tui_sample small_model (ExpandResultMsg ''a'' [sub_item ''a'' ''a/k''] None None)"
    by (simp add: small_model_def NewModel_def top_item_def sub_item_def)
qed

lemma enter_selects_item_witness:
  "\<exists>m m' it. reachable tui_sample m \<and> it \<in> set (md_allItems m) \<and> it_path it = ''a'' \<and>
     Update tui_sample (KeyPressMsg ''enter'') m = Some (Ok (m', Quit)) \<and> md_Selected m' = Some it"
proof -
  let ?m0 = "NewModel tui_sample [] False"
  let ?m1 = "?m0\<lparr>md_allItems := [top_item ''a''], md_filtered := [top_item ''a'']\<rparr>"
  have "Update tui_sample (ItemsMsg [top_item ''a'']) ?m0 = Some (Ok (?m1, NoCmd))"
    by (simp add: NewModel_def refresh_def filterItems_def top_item_def clampCursor_def listHeight_def with_preview_def fetchPreviewCmd_def)
  moreover have "name_ok tui_sample (top_item ''a'')" by code_simp
  ultimately have r: "reachable tui_sample ?m1"
    by (intro step [OF NewModel_reachable, where msg = "ItemsMsg [top_item ''a'']"]) (simp_all add: top_item_def)
  have rows: "md_filtered ?m1 \<noteq> []" "md_filtered ?m1 ! nat (md_cursor ?m1) = top_item ''a''" by (simp_all add: NewModel_def)
  from enter_selects_item [OF sample_find_ok r] rows(1) obtain m' it ix where
    u: "Update tui_sample (KeyPressMsg ''enter'') ?m1 = Some (Ok (m', Quit))"
    and it: "it\<lparr>it_matchedIndexes := ix\<rparr> = md_filtered ?m1 ! nat (md_cursor ?m1)"
      "m' = ?m1\<lparr>md_Selected := Some (it\<lparr>it_matchedIndexes := ix\<rparr>)\<rparr>" by blast
  have "md_Selected m' = Some (top_item ''a'')" unfolding it(2) it(1) rows(2) by simp
  moreover have "top_item ''a'' \<in> set (md_allItems ?m1)" "it_path (top_item ''a'') = ''a''" by (simp_all add: top_item_def)
  ultimately show ?thesis using r u by blast
qed

lemma moveCursor_visible_witness:
  "cursor_ok (md_filtered small_model) (md_cursor (moveCursor (-5) small_model)) \<and> visible (moveCursor (-5) small_model)"
  using moveCursor_visible [of small_model "-5"] by (simp add: small_model_def NewModel_def)

lemma ctrl_u_hides_cursor_witness:
  "\<exists>m' c. Update tui_sample (KeyPressMsg ''ctrl+u'') small_model = Some (Ok (m', c)) \<and> md_cursor m' = 0 \<and> \<not> visible m'"
  by (rule ctrl_u_hides_cursor [OF sample_find_ok small_inv]) (simp add: small_model_def)

lemma growing_name_panics_witness:
  "is_panic (filterItems tui_sample ''x'' [top_item [CHR 0xC8, CHR 0xBA, CHR 0xC8, CHR 0xBA, CHR ''x'']])"
proof (rule growing_name_panics [OF sample_find_ok, where i = 0 and ix = "[]" and idx = 6])
  let ?it = "top_item [CHR 0xC8, CHR 0xBA, CHR 0xC8, CHR 0xBA, CHR ''x'']"
  show "GoStrings.Index (tl_ToLower tui_sample (item_search_name ([?it] ! 0))) (tl_ToLower tui_sample ''x'') = Some 6" by code_simp
  show "(0, []) \<in> set (tl_Find tui_sample ''x'' (map item_search_name [?it]))" by code_simp
  show "length (item_search_name ([?it] ! 0)) < 6" by code_simp
qed simp

lemma late_expansion_hangs_witness:
  "\<exists>m m' c. run_msgs tui_sample hang_trace (NewModel tui_sample [] False) = Some (Ok m) \<and>
     Update tui_sample (ExpandResultMsg ''a/k'' [sub_item ''a/k'' ''a/k/z''] None None) m = Some (Ok (m', c)) \<and>
     Update tui_sample (KeyPressMsg ''left'') m' = None"
proof -
  let ?late = "Update tui_sample (ExpandResultMsg ''a/k'' [sub_item ''a/k'' ''a/k/z''] None None) hang_state"
  have "(case ?late of Some (Ok (m', c)) \<Rightarrow> (case at_cursor (md_filtered m') (md_cursor m') of
      Ok sel \<Rightarrow> it_expanded sel \<and> it_path sel = ''b'' | _ \<Rightarrow> False) | _ \<Rightarrow> False)" by code_simp
  then obtain m' c sel where late: "?late = Some (Ok (m', c))" and sel: "at_cursor (md_filtered m') (md_cursor m') = Ok sel"
    "it_expanded sel" "it_path sel = ''b''" by (auto split: option.splits res.splits)
  have "Update tui_sample (KeyPressMsg ''left'') m' = None"
  proof (rule late_expansion_hangs [OF _ _ _ _ _ late sel(1,2)])
    have "''a/k'' \<notin> set (map it_path (md_allItems hang_state))" by code_simp
    then show "''a/k'' \<notin> it_path ` set (md_allItems hang_state)" by simp
    show "sub_item ''a/k'' ''a/k/z'' \<in> set [sub_item ''a/k'' ''a/k/z'']" by simp
  qed (simp_all add: sel sub_item_def top_item_def)
  then show ?thesis using hang_state_run late by blast
qed

end
