(* ===== verification/GardenerIds.thy ===== *)
theory GardenerIds
  imports Commands
begin

text \<open>
  The identifiers of Gardener clusters (\<^verbatim>\<open>pkg/store/gardener/util.go\<close>), which serve as kubeconfig paths, and
  the names shown for them in the list (\<^verbatim>\<open>pkg/tui/display.go\<close>).
\<close>

section \<open>Identifiers\<close>

datatype GardenerResource = ResourceShoot | ResourceSeed

definition resource_name :: "GardenerResource \<Rightarrow> string" where
  "resource_name r = (case r of ResourceShoot \<Rightarrow> ''Shoot'' | ResourceSeed \<Rightarrow> ''Seed'')"

definition GetGardenKubeconfigPath :: "string \<Rightarrow> string" where
  "GetGardenKubeconfigPath landscapeIdentity = landscapeIdentity @ ''-garden''"

definition GetSeedIdentifier :: "string \<Rightarrow> string \<Rightarrow> string" where
  "GetSeedIdentifier landscape seedName = landscape @ ''--seed--'' @ seedName"

definition GetShootIdentifier :: "string \<Rightarrow> string \<Rightarrow> string \<Rightarrow> string" where
  "GetShootIdentifier landscape project shoot = landscape @ ''--shoot--'' @ project @ ''--'' @ shoot"

text \<open>The landscape, the resource, its name, its namespace and its project.\<close>

definition ParseIdentifier :: "string \<Rightarrow> (string \<times> GardenerResource \<times> string \<times> string \<times> string) res" where
  "ParseIdentifier path = (case Split path ''--'' of
     [s0, s1, s2, s3] \<Rightarrow>
       if \<not> Contains path ''shoot'' then Err (Errorf ''cannot parse kubeconfig path %q'' [path])
       else if s2 \<noteq> ''garden'' then Ok (s0, ResourceShoot, s3, ''garden-'' @ s2, s2)
       else Ok (s0, ResourceShoot, s3, ''garden'', ''garden'')
   | [s0, s1, s2] \<Rightarrow>
       if \<not> Contains path ''seed'' then Err (Errorf ''cannot parse kubeconfig path: %q'' [path])
       else Ok (s0, ResourceSeed, s2, ''garden'', ''garden'')
   | _ \<Rightarrow> Err (Errorf ''cannot parse kubeconfig path: %q'' [path]))"

definition project_namespace :: "string \<Rightarrow> string" where
  "project_namespace project = (if project = ''garden'' then ''garden'' else ''garden-'' @ project)"

section \<open>Display names\<close>

definition shortGardenerContextName :: "string \<Rightarrow> string \<Rightarrow> string \<Rightarrow> string" where
  "shortGardenerContextName contextName namespace shootName =
     (let c = (case Cut contextName ''/'' of Some (_, after) \<Rightarrow> after | None \<Rightarrow> contextName)
      in TrimPrefix c (namespace @ ''--'' @ shootName @ ''-''))"

fun other_names :: "string list \<Rightarrow> string set \<Rightarrow> string list" where
  "other_names [] seen = []"
| "other_names (n # ns) seen = (if n \<noteq> [] \<and> n \<notin> seen then n # other_names ns (insert n seen) else other_names ns seen)"

definition collectOtherNames :: "string \<Rightarrow> string \<Rightarrow> string \<Rightarrow> tags \<Rightarrow> string list \<Rightarrow> string list" where
  "collectOtherNames primaryName contextName aliasName ts labelKeys =
     other_names (map (mgets ts) labelKeys @ [aliasName, contextName]) {primaryName}"

definition formatGardener :: "string \<Rightarrow> string \<Rightarrow> string \<Rightarrow> tags \<Rightarrow> string list \<Rightarrow> (string \<times> string) option" where
  "formatGardener path contextName aliasName ts labelKeys = (case ParseIdentifier path of
     Ok (landscape, resource, name, namespace, _) \<Rightarrow>
       (let primary = (case resource of
              ResourceShoot \<Rightarrow> ''gardener/'' @ landscape @ ''/'' @ namespace @ ''/'' @ name
            | ResourceSeed \<Rightarrow> ''gardener/'' @ landscape @ ''/garden/'' @ name);
            others = collectOtherNames name (shortGardenerContextName contextName namespace name) aliasName ts labelKeys
        in if length others > 0 then Some (primary, ''('' @ Join others '', '' @ '')'') else Some (primary, []))
   | _ \<Rightarrow> None)"

definition FormatDisplayName ::
    "StoreKind \<Rightarrow> string \<Rightarrow> string \<Rightarrow> string \<Rightarrow> tags \<Rightarrow> string list \<Rightarrow> string \<times> string" where
  "FormatDisplayName storeKind path contextName aliasName ts labelKeys =
     (case (if storeKind = StoreKindGardener then formatGardener path contextName aliasName ts labelKeys else None) of
        Some ps \<Rightarrow> ps
      | None \<Rightarrow> if aliasName \<noteq> [] \<and> aliasName \<noteq> contextName then (aliasName, ''('' @ contextName @ '')'')
                else (contextName, []))"

section \<open>An identifier is read back\<close>

text \<open>A part of an identifier that does not run into the separator.\<close>

definition part_ok :: "string \<Rightarrow> bool" where
  "part_ok a \<longleftrightarrow> \<not> Contains (a @ ''-'') ''--''"

lemma Index_part:
  assumes "part_ok a" shows "GoStrings.Index (a @ ''--'' @ b) ''--'' = Some (length a)"
proof (rule Index_first)
  fix a' b' assume e: "a @ ''--'' @ b = a' @ ''--'' @ b'"
  show "length a \<le> length a'"
  proof (rule ccontr)
    assume "\<not> length a \<le> length a'"
    then obtain c where c: "a = a' @ c" "c \<noteq> []" using e by (auto simp: append_eq_append_conv2)
    then have "c @ ''--'' @ b = ''--'' @ b'" using e by simp
    then obtain d where "c @ ''-'' = ''--'' @ d"
      using c(2) by (cases c rule: list.exhaust; cases "tl c") auto
    then have "a @ ''-'' = a' @ ''--'' @ d" using c(1) by simp
    then show False using assms by (auto simp: part_ok_def Contains_iff)
  qed
qed simp

lemma Split_part: "part_ok a \<Longrightarrow> Split (a @ ''--'' @ b) ''--'' = a # Split b ''--''"
  using Index_part [of a b] by (subst Split.simps) (simp add: Cut_def)

lemma Split_last: "\<not> Contains a ''--'' \<Longrightarrow> Split a ''--'' = [a]"
  by (subst Split.simps) (auto simp: Cut_def Contains_def)

lemma Contains_mid: "Contains (a @ sub @ b) sub"
  by (auto simp: Contains_iff)

text \<open>
  A path sent for a shoot or a seed parses back to its landscape, resource, name, project and the
  namespace of the project, as long as no part runs into the separator.
\<close>

theorem ParseIdentifier_roundtrip:
  assumes "part_ok landscape" "part_ok project" "\<not> Contains name ''--''"
  shows "ParseIdentifier (GetShootIdentifier landscape project name) =
      Ok (landscape, ResourceShoot, name, project_namespace project, project) \<and>
    ParseIdentifier (GetSeedIdentifier landscape name) = Ok (landscape, ResourceSeed, name, ''garden'', ''garden'')"
proof (rule conjI)
  have k: "part_ok ''shoot''" "part_ok ''seed''" by (simp_all add: part_ok_def Contains_def HasPrefix_def)
  have "Contains (GetShootIdentifier landscape project name) ''shoot''"
    using Contains_mid [of "landscape @ ''--''" "''shoot''" "''--'' @ project @ ''--'' @ name"]
    by (simp add: GetShootIdentifier_def)
  moreover have "Split (GetShootIdentifier landscape project name) ''--'' = [landscape, ''shoot'', project, name]"
    using Split_part [OF assms(1), of "''shoot--'' @ project @ ''--'' @ name"] Split_part [OF k(1), of "project @ ''--'' @ name"]
      Split_part [OF assms(2), of name] Split_last [OF assms(3)] by (simp add: GetShootIdentifier_def)
  ultimately show "ParseIdentifier (GetShootIdentifier landscape project name) =
      Ok (landscape, ResourceShoot, name, project_namespace project, project)"
    by (simp add: ParseIdentifier_def project_namespace_def)
  have "Contains (GetSeedIdentifier landscape name) ''seed''"
    using Contains_mid [of "landscape @ ''--''" "''seed''" "''--'' @ name"] by (simp add: GetSeedIdentifier_def)
  moreover have "Split (GetSeedIdentifier landscape name) ''--'' = [landscape, ''seed'', name]"
    using Split_part [OF assms(1), of "''seed--'' @ name"] Split_part [OF k(2), of name] Split_last [OF assms(3)]
    by (simp add: GetSeedIdentifier_def)
  ultimately show "ParseIdentifier (GetSeedIdentifier landscape name) = Ok (landscape, ResourceSeed, name, ''garden'', ''garden'')"
    by (simp add: ParseIdentifier_def)
qed

section \<open>What the display names contain\<close>

lemma other_names_set: "set (other_names ns seen) = set ns - seen - {[]}"
  by (induction ns seen rule: other_names.induct) auto

lemma other_names_distinct: "distinct (other_names ns seen)"
  by (induction ns seen rule: other_names.induct) (auto simp: other_names_set)

lemma Join_mid: "x \<in> set xs \<Longrightarrow> \<exists>a b. Join xs sep = a @ x @ b"
proof (induction xs)
  case (Cons y ys)
  show ?case
  proof (cases "ys = []")
    case True
    then show ?thesis using Cons.prems by (auto intro: exI [of _ "[]"])
  next
    case False
    then have j: "Join (y # ys) sep = y @ sep @ Join ys sep" by (cases ys) simp_all
    show ?thesis
    proof (cases "x = y")
      case True
      then show ?thesis using j by (metis append_Nil)
    next
      case False
      then obtain a b where "Join ys sep = a @ x @ b" using Cons by auto
      then show ?thesis using j by (metis append_assoc)
    qed
  qed
qed simp

text \<open>
  Whatever the store, the alias of a context can be found in the text that is searched, and for a
  Gardener cluster so can each configured label, at most once and never repeating the cluster's name.
\<close>

theorem display_name_searchable:
  assumes "FormatDisplayName kind path contextName aliasName ts keys = (primary, suf)"
  shows "(aliasName \<noteq> [] \<longrightarrow> Contains primary aliasName \<or> Contains suf aliasName) \<and>
    (kind = StoreKindGardener \<and> is_ok (ParseIdentifier path) \<longrightarrow>
      (\<forall>k \<in> set keys. Contains primary (mgets ts k) \<or> Contains suf (mgets ts k)))"
proof (cases "kind = StoreKindGardener \<and> is_ok (ParseIdentifier path)")
  case True
  then obtain l r name ns p where id: "ParseIdentifier path = Ok (l, r, name, ns, p)" by (auto simp: is_ok_iff)
  let ?others = "collectOtherNames name (shortGardenerContextName contextName ns name) aliasName ts keys"
  have fmt: "formatGardener path contextName aliasName ts keys = Some (primary, suf)"
    using assms True id by (simp add: FormatDisplayName_def formatGardener_def Let_def split: if_splits)
  then have "\<exists>a. primary = a @ name"
    using id by (auto simp: formatGardener_def Let_def split: GardenerResource.splits if_splits)
  then have n: "Contains primary name" by (metis Contains_iff append_Nil2)
  have o: "Contains suf x" if x: "x \<in> set ?others" for x
  proof -
    obtain a b where "Join ?others '', '' = a @ x @ b" using Join_mid [OF x] by blast
    then have "suf = (''('' @ a) @ x @ (b @ '')'')"
      using fmt id x by (cases ?others) (simp_all add: formatGardener_def Let_def)
    then show ?thesis using Contains_mid by metis
  qed
  have "Contains primary x \<or> Contains suf x" if "x \<in> set (map (mgets ts) keys @ [aliasName])" for x
  proof (cases "x = [] \<or> x = name")
    case True
    then show ?thesis using n Contains_mid [of "[]" "[]"] by auto
  next
    case False
    then have "x \<in> set ?others" using that by (auto simp: collectOtherNames_def other_names_set)
    then show ?thesis using o by blast
  qed
  then show ?thesis by auto
next
  case False
  then have g: "(if kind = StoreKindGardener then formatGardener path contextName aliasName ts keys else None) = None"
    by (cases "ParseIdentifier path") (auto simp: formatGardener_def)
  have "(primary, suf) = (if aliasName \<noteq> [] \<and> aliasName \<noteq> contextName then (aliasName, ''('' @ contextName @ '')'')
      else (contextName, []))" using assms unfolding FormatDisplayName_def g by simp
  then show ?thesis using False Contains_mid [of "[]" aliasName "[]"] by (auto split: if_splits)
qed

lemma ParseIdentifier_roundtrip_witness:
  "ParseIdentifier (GetShootIdentifier ''dev'' ''proj'' ''crate'') = Ok (''dev'', ResourceShoot, ''crate'', ''garden-proj'', ''proj'') \<and>
   ParseIdentifier (GetSeedIdentifier ''dev'' ''crate'') = Ok (''dev'', ResourceSeed, ''crate'', ''garden'', ''garden'')"
  using ParseIdentifier_roundtrip [of "''dev''" "''proj''" "''crate''"]
  by (simp add: part_ok_def Contains_def HasPrefix_def project_namespace_def)

lemma display_name_searchable_witness:
  "FormatDisplayName StoreKindGardener ''canary--shoot--mcpd--crate'' ''ctx'' ''cr'' [(''l'', ''onboarding'')] [''l''] =
      (''gardener/canary/garden-mcpd/crate'', ''(onboarding, cr, ctx)'') \<and>
   (Contains ''gardener/canary/garden-mcpd/crate'' ''cr'' \<or> Contains ''(onboarding, cr, ctx)'' ''cr'')"
proof -
  have "FormatDisplayName StoreKindGardener ''canary--shoot--mcpd--crate'' ''ctx'' ''cr'' [(''l'', ''onboarding'')] [''l''] =
      (''gardener/canary/garden-mcpd/crate'', ''(onboarding, cr, ctx)'')" by code_simp
  with display_name_searchable [OF this] show ?thesis by simp
qed

end
