(* ===== verification/TuiRun.thy ===== *)
theory TuiRun
  imports TuiLaws GardenerIds
begin

text \<open>
  What feeds the context list and what it yields (\<^verbatim>\<open>pkg/tui\<close>: \<^verbatim>\<open>run.go\<close>, \<^verbatim>\<open>k0smotron.go\<close>, \<^verbatim>\<open>preview.go\<close>, and
  \<^verbatim>\<open>pkg/store/kubeconfig_store_k0smotron.go\<close>): discovered contexts become batches of items, the commands of the
  model fetch a preview or the sub-clusters of an item, and the final model gives the selection.
\<close>

section \<open>Discovered contexts as items\<close>

definition itemFor :: "ContextItem \<Rightarrow> item" where
  "itemFor ci = (let (primary, suf) = FormatDisplayName (it_StoreKind ci) (it_Path ci) (it_ContextName ci) (it_Alias ci)
       (it_Tags ci) (it_LabelDisplayKeys ci)
     in \<lparr>it_displayName = primary, it_dimSuffix = suf, it_contextName = it_ContextName ci, it_path = it_Path ci,
         it_tags = it_Tags ci, it_storeID = it_StoreID ci, it_matchedIndexes = [], it_depth = 0, it_parentPath = [],
         it_isLoading = False, it_expanded = False, it_expandedEmpty = False\<rparr>)"

text \<open>The messages the feeding goroutine sends until the channel is closed.\<close>

fun feed :: "item list \<Rightarrow> ContextItem list \<Rightarrow> msg list" where
  "feed batch [] = (if length batch > 0 then [ItemsMsg batch] else []) @ [DiscoveryDoneMsg]"
| "feed batch (ci # cis) = (let b = batch @ [itemFor ci]
     in if length b \<ge> 50 then ItemsMsg b # feed [] cis else feed b cis)"

text \<open>\<^verbatim>\<open>ErrAbort\<close>.\<close>

definition ErrAbort :: gerror where
  "ErrAbort = LibErr ''abort''"

definition selectionFor :: "'i model \<Rightarrow> tui_result res" where
  "selectionFor m = (if md_Aborted m then Err ErrAbort
     else (case md_Selected m of None \<Rightarrow> Err ErrAbort
       | Some sel \<Rightarrow> Ok \<lparr>tr_path = it_path sel, tr_context = it_contextName sel, tr_storeID = it_storeID sel, tr_tags = it_tags sel,
                         tr_dynamicStore = mget (md_dynamicStores m) (it_storeID sel)\<rparr>))"

section \<open>Sub-clusters\<close>

text \<open>
  The Kubernetes client as the search for sub-clusters uses it: the name and namespace of the \<^verbatim>\<open>k0smotron\<close>
  clusters, the data of a secret, the test for a missing resource kind, and \<^verbatim>\<open>clientcmd\<close>.
\<close>

record k0s_client =
  k0_List :: "(string \<times> string) list res"
  k0_Get :: "string \<Rightarrow> string \<Rightarrow> (string, string) gomap res"

record 'r k0s_env =
  k0_RESTConfig :: "string \<Rightarrow> 'r res"
  k0_NewClient :: "'r \<Rightarrow> k0s_client res"
  k0_IsNoMatch :: "gerror \<Rightarrow> bool"
  k0_CurrentContext :: "string \<Rightarrow> string res"

record mem_store =
  mem_Base :: BaseStore
  mem_pathToKubeconfig :: "(string, string) gomap"

definition NewK0smotronInMemoryStore :: "string \<Rightarrow> mem_store" where
  "NewK0smotronInMemoryStore i =
     \<lparr>mem_Base = \<lparr>base_Kind = StoreKindK0smotron,
        base_KubeconfigStore = zero_store\<lparr>ks_Kind := StoreKindK0smotron, ks_ID := Some i\<rparr>\<rparr>,
      mem_pathToKubeconfig = []\<rparr>"

definition mem_GetKubeconfigForPath :: "mem_store \<Rightarrow> string \<Rightarrow> string res" where
  "mem_GetKubeconfigForPath s path = (case mget (mem_pathToKubeconfig s) path of
     None \<Rightarrow> Err (Errorf ''k0smotron: kubeconfig not found for path %q'' [path]) | Some data \<Rightarrow> Ok data)"

record K0smotronClusterEntry =
  ke_Path :: string
  ke_DisplayName :: string
  ke_Namespace :: string
  ke_Name :: string
  ke_ContextName :: string
  ke_StoreID :: string

fun discover_loop ::
    "'r k0s_env \<Rightarrow> k0s_client \<Rightarrow> string \<Rightarrow> (string \<times> string) list \<Rightarrow> mem_store \<Rightarrow> mem_store \<times> K0smotronClusterEntry list" where
  "discover_loop E c parentPath [] s = (s, [])"
| "discover_loop E c parentPath ((name, namespace) # cs) s =
     (case k0_Get c namespace (name @ ''-kubeconfig'') of
        Ok data \<Rightarrow>
          (let bytes = mgets data ''value''
           in if mget data ''value'' = None \<or> length bytes = 0 then discover_loop E c parentPath cs s
              else (let contextName = (case k0_CurrentContext E bytes of Ok cc \<Rightarrow> if cc \<noteq> [] then cc else name | _ \<Rightarrow> name);
                        path = parentPath @ ''/'' @ namespace @ ''/'' @ name;
                        s1 = s\<lparr>mem_pathToKubeconfig := mset path bytes (mem_pathToKubeconfig s)\<rparr>;
                        (s2, es) = discover_loop E c parentPath cs s1
                    in (s2, \<lparr>ke_Path = path, ke_DisplayName = namespace @ ''/'' @ name, ke_Namespace = namespace, ke_Name = name,
                             ke_ContextName = contextName, ke_StoreID = base_GetID (mem_Base s1)\<rparr> # es)))
      | _ \<Rightarrow> discover_loop E c parentPath cs s)"

text \<open>No store and no entries when the cluster does not know the resource.\<close>

definition DiscoverK0smotronClusters ::
    "'r k0s_env \<Rightarrow> string \<Rightarrow> string \<Rightarrow> (mem_store option \<times> K0smotronClusterEntry list) res" where
  "DiscoverK0smotronClusters E parentPath kubeconfigData =
     bindR (wrapR ''k0smotron: build rest config: %w'' [] (k0_RESTConfig E kubeconfigData)) (\<lambda>rc.
     bindR (wrapR ''k0smotron: create client: %w'' [] (k0_NewClient E rc)) (\<lambda>c.
       case k0_List c of
         Err e \<Rightarrow> if k0_IsNoMatch E e then Ok (None, []) else Err (Wrapf ''k0smotron: list clusters: %w'' [] e)
       | Panic p \<Rightarrow> Panic p
       | Ok its \<Rightarrow> (let (s, es) = discover_loop E c parentPath its (NewK0smotronInMemoryStore (''k0smotron-'' @ parentPath))
                   in Ok (Some s, es))))"

text \<open>\<^verbatim>\<open>dynamicStoreAdapter\<close>: the in-memory store behind the interface of all stores.\<close>

definition dynamicStoreAdapter :: "mem_store \<Rightarrow> store" where
  "dynamicStoreAdapter s = \<lparr>st_GetID = base_GetID (mem_Base s), st_GetKind = StoreKindK0smotron,
     st_GetContextPrefix = (\<lambda>_. StoreKindK0smotron), st_VerifyKubeconfigPaths = returnIO (), st_StartSearch = returnIO [],
     st_GetKubeconfigForPath = (\<lambda>path ts. liftR (mem_GetKubeconfigForPath s path)),
     st_GetStoreConfig = zero_store\<lparr>ks_Kind := StoreKindK0smotron\<rparr>,
     st_GetSearchPreview = None, st_GetShootLabelKeys = None, st_Flush = None\<rparr>"

definition entry_item :: "item \<Rightarrow> K0smotronClusterEntry \<Rightarrow> item" where
  "entry_item parent e = \<lparr>it_displayName = ke_DisplayName e, it_dimSuffix = ''(k0smotron)'', it_contextName = ke_ContextName e,
     it_path = ke_Path e, it_tags = [(''namespace'', ke_Namespace e), (''name'', ke_Name e)], it_storeID = ke_StoreID e,
     it_matchedIndexes = [], it_depth = it_depth parent + 1, it_parentPath = it_path parent,
     it_isLoading = False, it_expanded = False, it_expandedEmpty = False\<rparr>"

text \<open>The command of a pressed right arrow: it always answers for the path of the parent.\<close>

definition expandK0smotronCmd ::
    "'r k0s_env \<Rightarrow> (string, store) gomap \<Rightarrow> (string, store) gomap \<Rightarrow> item \<Rightarrow> msg io" where
  "expandK0smotronCmd E stores dynamicStores parent =
     (let st = (case mget dynamicStores (it_storeID parent) of Some s \<Rightarrow> Some s | None \<Rightarrow> mget stores (it_storeID parent))
      in case st of
           None \<Rightarrow> returnIO (ExpandResultMsg (it_path parent) [] None None)
         | Some s \<Rightarrow> tryIO (bindIO (st_GetKubeconfigForPath s (it_path parent) (it_tags parent)) (\<lambda>data.
               liftR (DiscoverK0smotronClusters E (it_path parent) data)))
             (\<lambda>(memStore, entries). returnIO
               (if length entries = 0 then ExpandResultMsg (it_path parent) [] None None
                else ExpandResultMsg (it_path parent) (map (entry_item parent) entries) (map_option dynamicStoreAdapter memStore) None))
             (\<lambda>e. returnIO (ExpandResultMsg (it_path parent) [] None (Some e))))"

section \<open>Preview\<close>

text \<open>The rule between the kubeconfig and the preview of the store: 40 times U+2500.\<close>

definition preview_rule :: string where
  "preview_rule = concat (replicate 40 [CHR 0xE2, CHR 0x94, CHR 0x80])"

text \<open>\<^verbatim>\<open>show_err\<close> is the text of an error, \<^verbatim>\<open>um\<close> and \<^verbatim>\<open>marshal\<close> the YAML library.\<close>

definition fetchPreview ::
    "(gerror \<Rightarrow> string) \<Rightarrow> (string \<Rightarrow> KubeConfig res) \<Rightarrow> (KubeConfig \<Rightarrow> string res) \<Rightarrow> (string, store) gomap \<Rightarrow> item \<Rightarrow> msg io" where
  "fetchPreview show_err um marshal stores it = (case mget stores (it_storeID it) of
     None \<Rightarrow> returnIO (PreviewMsg [] (it_path it))
   | Some s \<Rightarrow> tryIO (st_GetKubeconfigForPath s (it_path it) (it_tags it))
       (\<lambda>data. tryIO (liftR (ParseSanitizedKubeconfig um data))
         (\<lambda>config. tryIO (liftR (marshal config))
           (\<lambda>content. case st_GetSearchPreview s of
              None \<Rightarrow> returnIO (PreviewMsg content (it_path it))
            | Some previewer \<Rightarrow> tryIO (previewer (it_path it) (it_tags it))
                (\<lambda>storePreview. returnIO (PreviewMsg
                   (if storePreview \<noteq> [] then content @ [CHR 10] @ preview_rule @ [CHR 10] @ storePreview else content) (it_path it)))
                (\<lambda>e. returnIO (PreviewMsg content (it_path it))))
           (\<lambda>e. returnIO (PreviewMsg (''error marshaling kubeconfig: '' @ show_err e) (it_path it))))
         (\<lambda>e. returnIO (PreviewMsg (''error parsing kubeconfig: '' @ show_err e) (it_path it))))
       (\<lambda>e. returnIO (PreviewMsg (''error loading preview: '' @ show_err e) (it_path it))))"

section \<open>The list shows what was discovered\<close>

fun msg_items :: "msg \<Rightarrow> item list" where
  "msg_items (ItemsMsg its) = its"
| "msg_items _ = []"

text \<open>
  The goroutine that fills the list sends every discovered context once and in order, in batches of at
  most 50, never an empty one, and reports the end last.
\<close>

theorem feed_spec:
  "\<exists>batches. feed [] cis = map ItemsMsg batches @ [DiscoveryDoneMsg] \<and> concat batches = map itemFor cis \<and>
     (\<forall>b \<in> set batches. b \<noteq> [] \<and> length b \<le> 50)"
proof -
  have "\<exists>batches. feed batch cis = map ItemsMsg batches @ [DiscoveryDoneMsg] \<and> concat batches = batch @ map itemFor cis \<and>
     (\<forall>b \<in> set batches. b \<noteq> [] \<and> length b \<le> 50)" if "length batch < 50" for batch
    using that
  proof (induction batch cis rule: feed.induct)
    case (1 batch)
    then show ?case by (cases batch) (auto intro: exI [of _ "[]"] exI [of _ "[batch]"])
  next
    case (2 batch ci cis)
    let ?b = "batch @ [itemFor ci]"
    show ?case
    proof (cases "length ?b \<ge> 50")
      case True
      then obtain bs where "feed [] cis = map ItemsMsg bs @ [DiscoveryDoneMsg]" "concat bs = map itemFor cis"
        "\<forall>b \<in> set bs. b \<noteq> [] \<and> length b \<le> 50" using 2(1) [OF refl] by auto
      then show ?thesis using True 2(3) by (intro exI [of _ "?b # bs"]) (auto simp: Let_def)
    next
      case False
      then obtain bs where "feed ?b cis = map ItemsMsg bs @ [DiscoveryDoneMsg]" "concat bs = ?b @ map itemFor cis"
        "\<forall>b \<in> set bs. b \<noteq> [] \<and> length b \<le> 50" using 2(2) [OF refl] by auto
      then show ?thesis using False by (intro exI [of _ bs]) (simp add: Let_def)
    qed
  qed
  from this [of "[]"] show ?thesis by simp
qed

lemma itemFor_simps [simp]:
  "it_path (itemFor ci) = it_Path ci" "it_contextName (itemFor ci) = it_ContextName ci" "it_tags (itemFor ci) = it_Tags ci"
  "it_storeID (itemFor ci) = it_StoreID ci" "it_parentPath (itemFor ci) = []"
  by (simp_all add: itemFor_def split: prod.splits)

section \<open>Sub-clusters can be fetched\<close>

definition served :: "mem_store \<Rightarrow> string \<Rightarrow> bool" where
  "served s path \<longleftrightarrow> (\<exists>bytes. mget (mem_pathToKubeconfig s) path = Some bytes \<and> bytes \<noteq> [])"

lemma discover_loop_spec:
  assumes "discover_loop E c p its s = (s', es)"
  shows "mem_Base s' = mem_Base s \<and> (\<forall>path. served s path \<longrightarrow> served s' path) \<and>
    (\<forall>e \<in> set es. served s' (ke_Path e) \<and> ke_StoreID e = base_GetID (mem_Base s) \<and>
       (\<exists>name ns. (name, ns) \<in> set its \<and> ke_Path e = p @ ''/'' @ ns @ ''/'' @ name))"
  using assms
proof (induction its arbitrary: s s' es)
  case (Cons it cs)
  obtain name ns where it: "it = (name, ns)" by (cases it)
  show ?case
  proof (cases "\<exists>data bytes. k0_Get c ns (name @ ''-kubeconfig'') = Ok data \<and> mget data ''value'' = Some bytes \<and> bytes \<noteq> []")
    case False
    then have "discover_loop E c p (it # cs) s = discover_loop E c p cs s"
      by (auto simp: it mgets_def Let_def split: res.splits option.splits)
    then have "discover_loop E c p cs s = (s', es)" using Cons.prems by simp
    from Cons.IH [OF this] show ?thesis by (metis list.set_intros(2))
  next
    case True
    then obtain data bytes where d: "k0_Get c ns (name @ ''-kubeconfig'') = Ok data" "mget data ''value'' = Some bytes" "bytes \<noteq> []" by blast
    let ?path = "p @ ''/'' @ ns @ ''/'' @ name"
    let ?s1 = "s\<lparr>mem_pathToKubeconfig := mset ?path bytes (mem_pathToKubeconfig s)\<rparr>"
    obtain s2 es2 where r: "discover_loop E c p cs ?s1 = (s2, es2)" by fastforce
    note ih = Cons.IH [OF r]
    have s1: "served ?s1 ?path" "\<And>path. served s path \<Longrightarrow> served ?s1 path" "mem_Base ?s1 = mem_Base s"
      using d by (auto simp: served_def)
    obtain e where e: "s' = s2" "es = e # es2" "ke_Path e = ?path" "ke_StoreID e = base_GetID (mem_Base s)"
      using Cons.prems d r by (auto simp: it mgets_def Let_def)
    have "\<exists>name ns. (name, ns) \<in> set (it # cs) \<and> ke_Path e = p @ ''/'' @ ns @ ''/'' @ name" using e(3) it by auto
    moreover have "served s2 (ke_Path e)" using ih s1(1) e(3) by simp
    ultimately show ?thesis using ih s1(2,3) e(1,2,4) by (auto 0 3)
  qed
qed simp

lemma DiscoverK0smotronClusters_spec:
  assumes "DiscoverK0smotronClusters E p data = Ok (ms, es)" "es \<noteq> []"
  shows "\<exists>s. ms = Some s \<and> (\<forall>e \<in> set es. served s (ke_Path e) \<and> ke_StoreID e = base_GetID (mem_Base s) \<and>
     length p < length (ke_Path e))"
proof -
  obtain rc c where c: "k0_RESTConfig E data = Ok rc" "k0_NewClient E rc = Ok c"
    using assms by (auto simp: DiscoverK0smotronClusters_def)
  show ?thesis
  proof (cases "k0_List c")
    case (Ok its)
    obtain s es' where r: "discover_loop E c p its (NewK0smotronInMemoryStore (''k0smotron-'' @ p)) = (s, es')" by fastforce
    then have "ms = Some s" "es' = es" using assms c Ok by (auto simp: DiscoverK0smotronClusters_def)
    moreover note discover_loop_spec [OF r]
    ultimately show ?thesis by fastforce
  qed (use assms c in \<open>auto simp: DiscoverK0smotronClusters_def split: if_splits\<close>)
qed

text \<open>
  What the expansion of an item finds can be used: each sub-cluster is a child of the item with a longer
  path, and the store the list registers for it returns a non-empty kubeconfig for its path.
\<close>

theorem expanded_clusters_resolve:
  assumes "expandK0smotronCmd E stores dynamicStores parent w = (Ok msg, w')"
  shows "\<exists>kids st err. msg = ExpandResultMsg (it_path parent) kids st err \<and> (err \<noteq> None \<longrightarrow> kids = []) \<and>
    (kids \<noteq> [] \<longrightarrow> (\<exists>s. st = Some s \<and> (\<forall>k \<in> set kids. it_parentPath k = it_path parent \<and>
       length (it_path parent) < length (it_path k) \<and> it_storeID k = st_GetID s \<and>
       (\<forall>v. \<exists>bytes. bytes \<noteq> [] \<and> st_GetKubeconfigForPath s (it_path k) (it_tags k) v = (Ok bytes, v)))))"
proof -
  let ?st = "case mget dynamicStores (it_storeID parent) of Some s \<Rightarrow> Some s | None \<Rightarrow> mget stores (it_storeID parent)"
  show ?thesis
  proof (cases ?st)
    case None
    then show ?thesis using assms by (auto simp: expandK0smotronCmd_def)
  next
    case (Some s0)
    let ?fetch = "bindIO (st_GetKubeconfigForPath s0 (it_path parent) (it_tags parent)) (\<lambda>data.
               liftR (DiscoverK0smotronClusters E (it_path parent) data))"
    have eq: "expandK0smotronCmd E stores dynamicStores parent w = tryIO ?fetch
             (\<lambda>(memStore, entries). returnIO
               (if length entries = 0 then ExpandResultMsg (it_path parent) [] None None
                else ExpandResultMsg (it_path parent) (map (entry_item parent) entries) (map_option dynamicStoreAdapter memStore) None))
             (\<lambda>e. returnIO (ExpandResultMsg (it_path parent) [] None (Some e))) w"
      using Some by (simp add: expandK0smotronCmd_def)
    obtain r w1 where r: "?fetch w = (r, w1)" by fastforce
    show ?thesis
    proof (cases r)
      case (Ok p)
      obtain ms es where p: "p = (ms, es)" by (cases p)
      have msg: "msg = (if length es = 0 then ExpandResultMsg (it_path parent) [] None None
          else ExpandResultMsg (it_path parent) (map (entry_item parent) es) (map_option dynamicStoreAdapter ms) None)"
        using assms r Ok p unfolding eq by (simp add: tryIO_def returnIO_def)
      show ?thesis
      proof (cases "es = []")
        case False
        obtain data where "DiscoverK0smotronClusters E (it_path parent) data = Ok (ms, es)"
          using r Ok p by (auto simp: bindIO_def liftR_def split: prod.splits res.splits)
        from DiscoverK0smotronClusters_spec [OF this False] obtain s where s: "ms = Some s"
          "\<forall>e \<in> set es. served s (ke_Path e) \<and> ke_StoreID e = base_GetID (mem_Base s) \<and> length (it_path parent) < length (ke_Path e)"
          by blast
        have "st_GetKubeconfigForPath (dynamicStoreAdapter s) path ts v = (Ok bytes, v)"
          if "mget (mem_pathToKubeconfig s) path = Some bytes" for path ts v bytes
          using that by (simp add: dynamicStoreAdapter_def mem_GetKubeconfigForPath_def liftR_def)
        then show ?thesis using msg s False
          by (fastforce simp: entry_item_def served_def dynamicStoreAdapter_def)
      qed (use msg in simp)
    qed (use assms r in \<open>auto simp: eq tryIO_def returnIO_def\<close>)
  qed
qed

section \<open>The selection was discovered\<close>

text \<open>What the selection takes from an item; no message changes it.\<close>

definition core :: "item \<Rightarrow> string \<times> string \<times> string \<times> tags" where
  "core it = (it_path it, it_contextName it, it_storeID it, it_tags it)"

lemma core_flags [simp]:
  "core (it\<lparr>it_matchedIndexes := ix\<rparr>) = core it" "core (it\<lparr>it_isLoading := b\<rparr>) = core it"
  "core (it\<lparr>it_expanded := b\<rparr>) = core it" "core (it\<lparr>it_expandedEmpty := b\<rparr>) = core it"
  "core (expand_mark err kids it) = core it"
  by (simp_all add: core_def expand_mark_def Let_def)

definition listed :: "(string \<times> string \<times> string \<times> tags) set \<Rightarrow> (string, store) gomap \<Rightarrow> 'i model \<Rightarrow> bool" where
  "listed C D m \<longleftrightarrow> md_dynamicStores m = D \<and> core ` set (md_allItems m) \<subseteq> C \<and> core ` set (md_filtered m) \<subseteq> C \<and>
     (\<forall>sel. md_Selected m = Some sel \<longrightarrow> core sel \<in> C)"

lemma listed_mono: "listed C D m \<Longrightarrow> C \<subseteq> C' \<Longrightarrow> listed C' D m"
  by (auto simp: listed_def)

text \<open>The in-memory stores after a message.\<close>

fun new_dynamic :: "msg \<Rightarrow> (string, store) gomap \<Rightarrow> (string, store) gomap" where
  "new_dynamic (ExpandResultMsg p kids (Some s) None) D = (if kids = [] then D else mset (st_GetID s) s D)"
| "new_dynamic _ D = D"

fun msg_cores :: "msg \<Rightarrow> (string \<times> string \<times> string \<times> tags) set" where
  "msg_cores (ItemsMsg its) = core ` set its"
| "msg_cores (ExpandResultMsg p kids st err) = core ` set kids"
| "msg_cores _ = {}"

lemma filterItems_cores: "filterItems L q its = Ok fs \<Longrightarrow> core ` set fs \<subseteq> core ` set its"
  using filterItems_mem [of L q its fs] by fastforce

lemma refresh_listed:
  assumes "refresh L m = Ok m'" "core ` set (md_allItems m) \<subseteq> C" "\<forall>sel. md_Selected m = Some sel \<longrightarrow> core sel \<in> C"
    and "md_dynamicStores m = D"
  shows "listed C D m'"
proof -
  obtain fs where fs: "filterItems L (md_query m) (md_allItems m) = Ok fs" "m' = m\<lparr>md_filtered := fs\<rparr>"
    using assms(1) by (auto simp: refresh_def)
  show ?thesis using subset_trans [OF filterItems_cores [OF fs(1)] assms(2)] assms(2,3) by (simp add: fs(2) listed_def assms(4))
qed

lemma clampCursor_listed [simp]: "listed C D (clampCursor m) \<longleftrightarrow> listed C D m"
  by (rule clampCursor_spec [of m]) (simp add: listed_def)

lemma scrollIntoView_listed [simp]: "listed C D (scrollIntoView m) \<longleftrightarrow> listed C D m"
  by (rule scrollIntoView_spec [of m]) (simp add: listed_def)

lemma cursor_listed [simp]: "listed C D (m\<lparr>md_cursor := c\<rparr>) \<longleftrightarrow> listed C D m"
  by (simp add: listed_def)

lemma moveCursor_listed [simp]: "listed C D (moveCursor d m) \<longleftrightarrow> listed C D m"
  by (simp add: moveCursor_def)

lemma move_to_path_listed [simp]: "listed C D (move_to_path p m) \<longleftrightarrow> listed C D m"
  by (simp add: move_to_path_def split: option.split)

lemma fetchPreview_listed: "fetchPreviewCmd m = Ok (m', c) \<Longrightarrow> listed C D m \<Longrightarrow> listed C D m'"
  by (auto simp: fetchPreviewCmd_def listed_def split: if_splits)

lemma with_preview_listed: "with_preview r = Some (Ok (m', c)) \<Longrightarrow> (\<And>m. r = Ok m \<Longrightarrow> listed C D m) \<Longrightarrow> listed C D m'"
  using fetchPreview_listed by (fastforce simp: with_preview_def)

lemma collapse_loop_cores: "collapse_loop all path its = Some r \<Longrightarrow> core ` set r \<subseteq> core ` set its"
  by (induction all path its arbitrary: r rule: collapse_loop.induct) (fastforce split: if_splits option.splits)+

lemma collapseItem_listed: "collapseItem L path m = Some (Ok m') \<Longrightarrow> listed C D m \<Longrightarrow> listed C D m'"
proof -
  assume a: "collapseItem L path m = Some (Ok m')" and l: "listed C D m"
  obtain its m1 where its: "collapse_loop (md_allItems m) path (md_allItems m) = Some its"
    "refresh L (m\<lparr>md_allItems := its\<rparr>) = Ok m1" "m' = clampCursor m1"
  proof (cases "collapse_loop (md_allItems m) path (md_allItems m)")
    case (Some its)
    then show thesis using a that by (cases "refresh L (m\<lparr>md_allItems := its\<rparr>)") (auto simp: collapseItem_def)
  qed (use a in \<open>simp add: collapseItem_def\<close>)
  have "core ` set its \<subseteq> C" using collapse_loop_cores [OF its(1)] l by (auto simp: listed_def)
  then have "listed C D m1" by (intro refresh_listed [OF its(2)]) (use l in \<open>simp_all add: listed_def\<close>)
  then show ?thesis using its(3) by simp
qed

lemma mark_cores: "(\<And>it. core (f it) = core it) \<Longrightarrow> core ` set (mark p f its) = core ` set its"
proof -
  assume f: "\<And>it. core (f it) = core it"
  have "core (if it_path it = p then f it else it) = core it" for it using f by simp
  then show ?thesis by (simp only: mark_def set_map image_image)
qed

lemma applyExpandResult_listed:
  assumes "applyExpandResult L p kids st err m = Ok m'" "listed C D m" "core ` set kids \<subseteq> C"
  shows "listed C (new_dynamic (ExpandResultMsg p kids st err) D) m'"
proof -
  let ?D = "new_dynamic (ExpandResultMsg p kids st err) D"
  let ?all = "mark p (expand_mark err kids) (md_allItems m)"
  have all: "core ` set ?all \<subseteq> C" using assms(2) mark_cores [of "expand_mark err kids" p "md_allItems m"] by (simp add: listed_def)
  have sel: "\<forall>sel. md_Selected m = Some sel \<longrightarrow> core sel \<in> C" using assms(2) by (simp add: listed_def)
  show ?thesis
  proof (cases "err \<noteq> None \<or> kids = []")
    case True
    then have r: "refresh L (m\<lparr>md_allItems := ?all\<rparr>) = Ok m'" using assms(1) by (simp add: applyExpandResult_def Let_def)
    have "?D = D" using True by (cases st; cases err) auto
    moreover have "md_dynamicStores m = D" using assms(2) by (simp add: listed_def)
    ultimately show ?thesis by (intro refresh_listed [OF r]) (use all sel in simp_all)
  next
    case False
    define m2 where "m2 = (case st of None \<Rightarrow> m | Some s \<Rightarrow> m\<lparr>md_dynamicStores := mset (st_GetID s) s (md_dynamicStores m)\<rparr>)"
    let ?m3 = "m2\<lparr>md_allItems := insert_kids p kids ?all\<rparr>"
    have "applyExpandResult L p kids st err m = mapR (\<lambda>m3. case path_idx p ?all of
        Some i \<Rightarrow> scrollIntoView (clampCursor (m3\<lparr>md_cursor := int i + int (length kids) - 1\<rparr>)) | None \<Rightarrow> clampCursor m3)
        (refresh L ?m3)"
      using False by (cases st) (simp_all add: applyExpandResult_def Let_def m2_def)
    from this [symmetric] obtain m3 where m3: "refresh L ?m3 = Ok m3" "m' = (case path_idx p ?all of
        Some i \<Rightarrow> scrollIntoView (clampCursor (m3\<lparr>md_cursor := int i + int (length kids) - 1\<rparr>)) | None \<Rightarrow> clampCursor m3)"
      using assms(1) by auto
    have "md_dynamicStores m2 = ?D" using False assms(2) by (cases st) (auto simp: m2_def listed_def)
    then have "listed C ?D m3" by (intro refresh_listed [OF m3(1)])
      (use all sel assms(3) in \<open>simp_all add: insert_kids_set image_Un m2_def split: option.splits\<close>)
    then show ?thesis using m3(2) by (simp split: option.splits)
  qed
qed

lemma refilter_listed: "refilter L m = Ok m' \<Longrightarrow> listed C D m \<Longrightarrow> listed C D m'"
  using filterItems_cores by (fastforce simp: refilter_def refresh_def listed_def)

lemma delegate_listed:
  assumes "delegate L msg m = Some (Ok (m', c))" "listed C D m" shows "listed C D m'"
proof -
  let ?m1 = "m\<lparr>md_input := tl_Update L (md_input m) msg\<rparr>"
  have l: "listed C D ?m1" "listed C D (?m1\<lparr>md_query := q\<rparr>)" for q using assms(2) by (simp_all add: listed_def)
  show ?thesis
  proof (cases "tl_Value L (md_input ?m1) = md_query m")
    case True
    then show ?thesis using assms(1) l by (auto simp: delegate_def)
  next
    case False
    then obtain c' where "with_preview (refilter L (?m1\<lparr>md_query := tl_Value L (md_input ?m1)\<rparr>)) = Some (Ok (m', c'))"
      using assms(1) by (auto simp: delegate_def Let_def)
    then show ?thesis by (rule with_preview_listed) (use l refilter_listed in blast)
  qed
qed

lemma at_row_cases:
  assumes "at_row m none f = Some (Ok r)"
  obtains "none = Some (Ok r)" | sel where "sel \<in> set (md_filtered m)" "f sel = Some (Ok r)"
proof (cases "md_filtered m = []")
  case False
  then have "0 \<le> md_cursor m" "nat (md_cursor m) < length (md_filtered m)" "f (md_filtered m ! nat (md_cursor m)) = Some (Ok r)"
    using assms by (auto simp: at_row_def at_cursor_def split: if_splits)
  then show thesis using that(2) nth_mem by blast
qed (use assms that in \<open>simp add: at_row_def\<close>)

lemma key_left_listed: "key_left L m = Some (Ok (m', c)) \<Longrightarrow> listed C D m \<Longrightarrow> listed C D m'"
  unfolding key_left_def
proof (erule at_row_cases)
  fix sel assume l: "listed C D m" and "(if it_expanded sel then Option.bind (collapseItem L (it_path sel) m) with_preview
     else if it_parentPath sel \<noteq> [] then
       Option.bind (collapseItem L (it_parentPath sel) m) (\<lambda>r. with_preview (mapR (move_to_path (it_parentPath sel)) r))
     else Some (Ok (m, NoCmd))) = Some (Ok (m', c))"
  then consider r where "collapseItem L (it_path sel) m = Some r" "with_preview r = Some (Ok (m', c))"
    | r where "collapseItem L (it_parentPath sel) m = Some r" "with_preview (mapR (move_to_path (it_parentPath sel)) r) = Some (Ok (m', c))"
    | "m' = m" by (auto simp: bind_eq_Some_conv split: if_splits)
  then show "listed C D m'"
  proof cases
    case 1
    then show ?thesis using collapseItem_listed l by (blast intro: with_preview_listed)
  next
    case 2
    show ?thesis by (rule with_preview_listed [OF 2(2)]) (use 2(1) collapseItem_listed l in auto)
  qed (use l in simp)
qed simp

lemma key_press_listed:
  assumes "key_press L k m = Some (Ok (m', c))" "listed C D m" shows "listed C D m'"
proof -
  have en: "listed C D m'" if "key_enter m = Some (Ok (m', c))"
    using that assms(2) unfolding key_enter_def by (elim at_row_cases) (auto simp: listed_def)
  have ri: "listed C D m'" if "key_right L m = Some (Ok (m', c))"
    using that assms(2) unfolding key_right_def
  proof (elim at_row_cases)
    fix sel assume "(if \<not> it_expanded sel \<and> \<not> it_isLoading sel
     then Some (mapR (\<lambda>m1. (m1, ExpandK0smotron sel)) (markLoading L (it_path sel) m)) else Some (Ok (m, NoCmd))) = Some (Ok (m', c))"
    then consider "m' = m" | "markLoading L (it_path sel) m = Ok m'" by (auto split: if_splits)
    then show ?thesis
    proof cases
      case 2
      then show ?thesis unfolding markLoading_def
        by (rule refresh_listed) (use assms(2) in \<open>simp_all add: listed_def mark_cores\<close>)
    qed (use assms(2) in simp)
  qed (use assms(2) in simp)
  have cu: "listed C D m'" if "key_ctrl_u L m = Some (Ok (m', c))"
    using that unfolding key_ctrl_u_def
  proof (rule with_preview_listed)
    fix m1 assume "mapR (\<lambda>its. m\<lparr>md_input := tl_SetValue L [] (md_input m), md_query := [], md_filtered := its, md_cursor := 0\<rparr>)
        (filterItems L [] (md_allItems m)) = Ok m1"
    then obtain fs where fs: "filterItems L [] (md_allItems m) = Ok fs"
      "m1 = m\<lparr>md_input := tl_SetValue L [] (md_input m), md_query := [], md_filtered := fs, md_cursor := 0\<rparr>" by auto
    have "core ` set (md_allItems m) \<subseteq> C" using assms(2) by (simp add: listed_def)
    then show "listed C D m1" using subset_trans [OF filterItems_cores [OF fs(1)]] assms(2) by (simp add: fs(2) listed_def)
  qed
  have mv: "listed C D m'" if "with_preview (Ok (moveCursor d m)) = Some (Ok (m', c))" for d
    using that assms(2) by (elim with_preview_listed) auto
  have dw: "listed C D m'" if "with_preview (refilter L (deleteWord L m)) = Some (Ok (m', c))"
    using that by (rule with_preview_listed) (erule refilter_listed, use assms(2) in \<open>simp add: deleteWord_def Let_def listed_def\<close>)
  have ab: "listed C D m'" if "Some (Ok (m\<lparr>md_Aborted := True\<rparr>, Quit)) = Some (Ok (m', c))"
    using that assms(2) by (auto simp: listed_def)
  note rest = key_left_listed [OF _ assms(2)] delegate_listed [OF _ assms(2)]
  show ?thesis
    using assms(1) unfolding key_press_def by (simp only: split: if_split_asm) (erule ab en ri cu mv dw rest)+
qed

lemma Update_listed:
  assumes "Update L msg m = Some (Ok (m', c))" "listed C D m" "msg_cores msg \<subseteq> C" shows "listed C (new_dynamic msg D) m'"
proof (cases msg)
  case (ItemsMsg its)
  then have "with_preview (mapR clampCursor (refresh L (m\<lparr>md_allItems := md_allItems m @ its\<rparr>))) = Some (Ok (m', c))"
    using assms(1) by simp
  then show ?thesis
  proof (rule with_preview_listed)
    fix m1 assume "mapR clampCursor (refresh L (m\<lparr>md_allItems := md_allItems m @ its\<rparr>)) = Ok m1"
    then obtain m2 where "refresh L (m\<lparr>md_allItems := md_allItems m @ its\<rparr>) = Ok m2" "m1 = clampCursor m2" by auto
    moreover from this(1) have "listed C D m2"
      by (rule refresh_listed) (use assms(2,3) ItemsMsg in \<open>simp_all add: listed_def image_Un\<close>)
    ultimately show "listed C (new_dynamic msg D) m1" using ItemsMsg by simp
  qed
next
  case (ExpandResultMsg p kids st err)
  then have "with_preview (applyExpandResult L p kids st err m) = Some (Ok (m', c))" using assms(1) by simp
  then show ?thesis by (rule with_preview_listed)
    (use applyExpandResult_listed assms(2,3) ExpandResultMsg in auto)
next
  case (PasteMsg s)
  then show ?thesis using assms delegate_listed by simp
next
  case (KeyPressMsg k)
  then show ?thesis using assms key_press_listed by simp
qed (use assms in \<open>auto simp: listed_def split: if_splits\<close>)

lemma feed_cores: "msg \<in> set (feed [] cis) \<Longrightarrow> msg_cores msg \<subseteq> (core \<circ> itemFor) ` set cis"
proof -
  assume a: "msg \<in> set (feed [] cis)"
  obtain bs where bs: "feed [] cis = map ItemsMsg bs @ [DiscoveryDoneMsg]" "concat bs = map itemFor cis" using feed_spec by blast
  have sub: "core ` set b \<subseteq> (core \<circ> itemFor) ` set cis" if "b \<in> set bs" for b
  proof -
    have "set b \<subseteq> set (concat bs)" using that by auto
    also have "\<dots> = itemFor ` set cis" by (simp only: bs(2) set_map)
    finally show ?thesis by (auto simp: image_comp [symmetric])
  qed
  consider b where "b \<in> set bs" "msg = ItemsMsg b" | "msg = DiscoveryDoneMsg" using a bs(1) by auto
  then show ?thesis using sub by cases simp_all
qed

text \<open>
  A sub-cluster of an expansion: what the selection takes from it, and the id of the in-memory store of its
  parent; \<^verbatim>\<open>expansion\<close> says that a message is what the command gives for some item at some moment.
\<close>

definition sub_id :: "string \<Rightarrow> string" where
  "sub_id p = ''k0smotron.k0smotron-'' @ p"

definition expansion :: "'r k0s_env \<Rightarrow> (string, store) gomap \<Rightarrow> msg \<Rightarrow> bool" where
  "expansion E stores msg \<longleftrightarrow> (\<exists>dynamicStores parent w w'. expandK0smotronCmd E stores dynamicStores parent w = (Ok msg, w'))"

lemma DiscoverK0smotronClusters_ids:
  assumes "DiscoverK0smotronClusters E p data = Ok (ms, es)" "es \<noteq> []"
  shows "\<exists>s. ms = Some s \<and> base_GetID (mem_Base s) = sub_id p \<and> (\<forall>e \<in> set es. ke_StoreID e = sub_id p)"
proof -
  obtain rc c where c: "k0_RESTConfig E data = Ok rc" "k0_NewClient E rc = Ok c"
    using assms by (auto simp: DiscoverK0smotronClusters_def)
  show ?thesis
  proof (cases "k0_List c")
    case (Ok its)
    let ?s0 = "NewK0smotronInMemoryStore (''k0smotron-'' @ p)"
    obtain s es' where r: "discover_loop E c p its ?s0 = (s, es')" by fastforce
    then have "ms = Some s" "es' = es" using assms c Ok by (auto simp: DiscoverK0smotronClusters_def)
    moreover have "base_GetID (mem_Base ?s0) = sub_id p"
      by (simp add: NewK0smotronInMemoryStore_def base_GetID_def sub_id_def StoreKindK0smotron_def)
    ultimately show ?thesis using discover_loop_spec [OF r] by fastforce
  qed (use assms c in \<open>auto simp: DiscoverK0smotronClusters_def split: if_splits\<close>)
qed

lemma expansion_ids:
  assumes "expansion E stores msg"
  shows "\<exists>p kids st err. msg = ExpandResultMsg p kids st err \<and>
     (kids \<noteq> [] \<longrightarrow> err = None \<and> (\<exists>s. st = Some s \<and> st_GetID s = sub_id p \<and> (\<forall>k \<in> set kids. it_storeID k = sub_id p)))"
proof -
  obtain dyn parent w w' where e: "expandK0smotronCmd E stores dyn parent w = (Ok msg, w')"
    using assms by (auto simp: expansion_def)
  then have "(\<exists>err. msg = ExpandResultMsg (it_path parent) [] None err) \<or>
      (\<exists>data ms es. DiscoverK0smotronClusters E (it_path parent) data = Ok (ms, es) \<and> es \<noteq> [] \<and>
         msg = ExpandResultMsg (it_path parent) (map (entry_item parent) es) (map_option dynamicStoreAdapter ms) None)"
    by (fastforce simp: expandK0smotronCmd_def Let_def tryIO_apply bindIO_apply
      split: option.splits prod.splits res.splits if_splits)
  then show ?thesis
  proof (elim disjE exE conjE)
    fix data ms es
    assume d: "DiscoverK0smotronClusters E (it_path parent) data = Ok (ms, es)" "es \<noteq> []"
      and m: "msg = ExpandResultMsg (it_path parent) (map (entry_item parent) es) (map_option dynamicStoreAdapter ms) None"
    from DiscoverK0smotronClusters_ids [OF d] obtain s where "ms = Some s" "base_GetID (mem_Base s) = sub_id (it_path parent)"
      "\<forall>e \<in> set es. ke_StoreID e = sub_id (it_path parent)" by blast
    then show ?thesis using m by (simp add: entry_item_def dynamicStoreAdapter_def)
  qed simp
qed

text \<open>What can be in the list after some messages, and the in-memory stores it then knows.\<close>

definition sub_cores :: "msg set \<Rightarrow> (string, store) gomap \<Rightarrow> (string \<times> string \<times> string \<times> tags) set" where
  "sub_cores M D = {c. \<exists>p kids st. ExpandResultMsg p kids st None \<in> M \<and> (\<exists>k \<in> set kids. c = core k) \<and>
     fst (snd (snd c)) = sub_id p \<and> mget D (sub_id p) \<noteq> None}"

lemma sub_cores_mono: "(\<And>i. mget D i \<noteq> None \<Longrightarrow> mget D' i \<noteq> None) \<Longrightarrow> sub_cores M D \<subseteq> sub_cores M D'"
  unfolding sub_cores_def by blast

definition known_stores :: "msg set \<Rightarrow> (string, store) gomap \<Rightarrow> bool" where
  "known_stores M D \<longleftrightarrow> (\<forall>i s. mget D i = Some s \<longrightarrow>
     (\<exists>p kids. ExpandResultMsg p kids (Some s) None \<in> M \<and> kids \<noteq> [] \<and> i = sub_id p))"

lemma run_listed:
  assumes "run_msgs L msgs m = Some (Ok m')"
    and "listed (A \<union> sub_cores M D) D m" "known_stores M D"
    and "\<And>msg. msg \<in> set msgs \<Longrightarrow> msg \<in> M \<and> (msg_cores msg \<subseteq> A \<and> (\<forall>D. new_dynamic msg D = D) \<or> expansion E stores msg)"
  shows "\<exists>D'. listed (A \<union> sub_cores M D') D' m' \<and> known_stores M D'"
  using assms
proof (induction msgs arbitrary: m D)
  case (Cons msg msgs)
  then obtain m1 c where u: "Update L msg m = Some (Ok (m1, c))" "run_msgs L msgs m1 = Some (Ok m')"
    by (auto split: option.splits res.splits prod.splits)
  let ?D = "new_dynamic msg D"
  have M: "msg \<in> M" and "msg_cores msg \<subseteq> A \<and> (\<forall>D. new_dynamic msg D = D) \<or> expansion E stores msg"
    using Cons.prems(4) [of msg] by simp_all
  then have "msg_cores msg \<subseteq> A \<union> sub_cores M ?D \<and> sub_cores M D \<subseteq> sub_cores M ?D \<and> known_stores M ?D"
  proof (elim disjE conjE)
    assume "expansion E stores msg"
    from expansion_ids [OF this] obtain p kids st err where msg: "msg = ExpandResultMsg p kids st err"
      and k: "kids \<noteq> [] \<Longrightarrow> err = None \<and> (\<exists>s. st = Some s \<and> st_GetID s = sub_id p \<and> (\<forall>k \<in> set kids. it_storeID k = sub_id p))"
      by blast
    show ?thesis
    proof (cases "kids = []")
      case True
      then have "?D = D" by (cases st; cases err) (simp_all add: msg)
      then show ?thesis using Cons.prems(3) True by (simp add: msg)
    next
      case False
      then obtain s where s: "err = None" "st = Some s" "st_GetID s = sub_id p" "\<forall>k \<in> set kids. it_storeID k = sub_id p"
        using k by blast
      have D: "?D = mset (sub_id p) s D" using False s by (simp add: msg)
      have "core k \<in> sub_cores M ?D" if "k \<in> set kids" for k
        unfolding sub_cores_def D by (rule CollectI, rule exI [of _ p], rule exI [of _ kids], rule exI [of _ st])
          (use M s that msg in \<open>auto simp: core_def\<close>)
      then have "msg_cores msg \<subseteq> sub_cores M ?D" by (auto simp: msg)
      moreover have "sub_cores M D \<subseteq> sub_cores M ?D" unfolding D by (rule sub_cores_mono) simp
      moreover have "known_stores M ?D" using Cons.prems(3) M s False unfolding D msg known_stores_def by auto
      ultimately show ?thesis by blast
    qed
  qed (use Cons.prems(3) in auto)
  then have "listed (A \<union> sub_cores M ?D) ?D m1" "known_stores M ?D"
    using Update_listed [OF u(1) listed_mono [OF Cons.prems(2)]] by blast+
  from Cons.IH [OF u(2) this] Cons.prems(4) show ?case by simp
qed auto

lemma feed_dynamic: "msg \<in> set (feed [] cis) \<Longrightarrow> new_dynamic msg D = D"
proof -
  assume a: "msg \<in> set (feed [] cis)"
  obtain bs where "feed [] cis = map ItemsMsg bs @ [DiscoveryDoneMsg]" using feed_spec by blast
  then show ?thesis using a by auto
qed

lemma itemless_dynamic: "msg_cores msg = {} \<Longrightarrow> new_dynamic msg D = D"
  by (cases "(msg, D)" rule: new_dynamic.cases) auto

lemma selection_from_messages:
  assumes "run_msgs L msgs (NewModel L stores showPreview) = Some (Ok m)"
    and "\<forall>msg \<in> set msgs. msg \<in> set (feed [] cis) \<or> msg_cores msg = {} \<or> expansion E stores msg"
    and "selectionFor m = Ok r"
  obtains D where "known_stores (set msgs) D" "tr_dynamicStore r = mget D (tr_storeID r)"
    "(tr_path r, tr_context r, tr_storeID r, tr_tags r) \<in> (core \<circ> itemFor) ` set cis \<union> sub_cores (set msgs) D"
proof -
  let ?A = "(core \<circ> itemFor) ` set cis"
  have "listed (?A \<union> sub_cores (set msgs) []) [] (NewModel L stores showPreview)" "known_stores (set msgs) []"
    by (simp_all add: NewModel_def listed_def known_stores_def)
  moreover have "msg \<in> set msgs \<and> (msg_cores msg \<subseteq> ?A \<and> (\<forall>D. new_dynamic msg D = D) \<or> expansion E stores msg)" if "msg \<in> set msgs" for msg
    using assms(2) that feed_cores [of msg cis] feed_dynamic [of msg cis] itemless_dynamic [of msg] by blast
  ultimately obtain D where D: "listed (?A \<union> sub_cores (set msgs) D) D m" "known_stores (set msgs) D"
    using run_listed [OF assms(1)] by blast
  obtain sel where "core sel \<in> ?A \<union> sub_cores (set msgs) D" "r = \<lparr>tr_path = it_path sel, tr_context = it_contextName sel,
      tr_storeID = it_storeID sel, tr_tags = it_tags sel, tr_dynamicStore = mget D (it_storeID sel)\<rparr>"
    using assms(3) D(1) by (auto simp: selectionFor_def listed_def split: if_splits option.splits)
  then show thesis using that [OF D(2)] by (simp add: core_def)
qed

lemma switch_items_origin:
  assumes "switch_items dcs am = Ok (its, am')" "ci \<in> set its"
  shows "\<exists>dc \<in> set dcs. \<exists>s. dc_Store dc = Some s \<and> it_Path ci = dc_Path dc \<and> it_StoreID ci = st_GetID s \<and> it_Tags ci = dc_Tags dc \<and>
    it_ContextName ci = (if dc_Alias dc \<noteq> [] then dc_Alias dc else dc_Name dc) \<and> it_Alias ci = dc_Alias dc"
  using assms
proof (induction dcs arbitrary: am its)
  case (Cons dc dcs)
  then show ?case by (fastforce simp: store_of_def Let_def split: option.splits if_splits)
qed simp

lemma kind_to_store_mem:
  assumes "s \<in> set stores" "distinct (map st_GetID stores)" shows "mget (kind_to_store stores) (st_GetID s) = Some s"
proof -
  have f: "fold (\<lambda>s. mset (st_GetID s) s) ss m = fold (\<lambda>(k, v). mset k v) (map (\<lambda>s. (st_GetID s, s)) ss) m" for ss m
    by (induction ss arbitrary: m) simp_all
  have "distinct (map fst (map (\<lambda>s. (st_GetID s, s)) stores))" using assms(2) by (simp add: o_def)
  then show ?thesis unfolding kind_to_store_def f
    by (rule gomap.get_puts_distinct [rotated]) (use assms(1) in auto)
qed

text \<open>
  C36. Whatever the user types and whenever the answers to expansions arrive, what the list returns is one of the
  discovered contexts, with its path, its tags and its alias or name, and it is fetched from the store it was
  discovered in; or it is a sub-cluster that some expansion found, with the path, context and tags of that sub-cluster, and
  it is fetched from an in-memory store that an expansion of the same parent made. (The ids of the
  configured stores are distinct, and none begins like those of the in-memory stores, whose kind no
  configuration file can name.)
\<close>

theorem selection_identity:
  assumes "switch_items dcs am = Ok (cis, am')"
    and "\<forall>dc \<in> set dcs. \<forall>s. dc_Store dc = Some s \<longrightarrow> s \<in> set stores" and "distinct (map st_GetID stores)"
    and "\<forall>s \<in> set stores. \<not> HasPrefix (st_GetID s) ''k0smotron.''"
    and "run_msgs L msgs (NewModel L (kind_to_store stores) showPreview) = Some (Ok m)"
    and "\<forall>msg \<in> set msgs. msg \<in> set (feed [] cis) \<or> msg_cores msg = {} \<or>
       (\<exists>dynamicStores parent w w'. expandK0smotronCmd E (kind_to_store stores) dynamicStores parent w = (Ok msg, w'))"
    and "selectionFor m = Ok r"
  shows "(\<exists>dc \<in> set dcs. \<exists>s. dc_Store dc = Some s \<and> resolveStore (kind_to_store stores) (tr_storeID r) (tr_dynamicStore r) = Ok s \<and>
      tr_path r = dc_Path dc \<and> tr_tags r = dc_Tags dc \<and> tr_context r = (if dc_Alias dc \<noteq> [] then dc_Alias dc else dc_Name dc)) \<or>
    (\<exists>p kids st. ExpandResultMsg p kids st None \<in> set msgs \<and>
      (\<exists>k \<in> set kids. tr_path r = it_path k \<and> tr_tags r = it_tags k \<and> tr_context r = it_contextName k \<and> tr_storeID r = it_storeID k) \<and>
      (\<exists>s kids'. resolveStore (kind_to_store stores) (tr_storeID r) (tr_dynamicStore r) = Ok s \<and>
         ExpandResultMsg p kids' (Some s) None \<in> set msgs))"
proof -
  obtain D where D: "known_stores (set msgs) D" "tr_dynamicStore r = mget D (tr_storeID r)"
    and c: "(tr_path r, tr_context r, tr_storeID r, tr_tags r) \<in> (core \<circ> itemFor) ` set cis \<union> sub_cores (set msgs) D"
    using selection_from_messages [OF assms(5) assms(6) [folded expansion_def] assms(7)] by blast
  from c show ?thesis
  proof
    assume "(tr_path r, tr_context r, tr_storeID r, tr_tags r) \<in> (core \<circ> itemFor) ` set cis"
    then obtain ci where ci: "ci \<in> set cis" "tr_path r = it_Path ci" "tr_context r = it_ContextName ci" "tr_storeID r = it_StoreID ci" "tr_tags r = it_Tags ci"
      by (auto simp: core_def)
    obtain dc s where dc: "dc \<in> set dcs" "dc_Store dc = Some s" "it_Path ci = dc_Path dc" "it_StoreID ci = st_GetID s" "it_Tags ci = dc_Tags dc"
      "it_ContextName ci = (if dc_Alias dc \<noteq> [] then dc_Alias dc else dc_Name dc)"
      using switch_items_origin [OF assms(1) ci(1)] by blast
    then have s: "s \<in> set stores" using assms(2) by blast
    have "mget (kind_to_store stores) (st_GetID s) = Some s" using kind_to_store_mem s assms(3) by blast
    moreover have "mget D (st_GetID s) = None"
      using D(1) assms(4) s by (cases "mget D (st_GetID s)") (auto simp: known_stores_def sub_id_def HasPrefix_iff)
    ultimately show ?thesis using ci dc D(2) by (auto simp: resolveStore_def)
  next
    assume "(tr_path r, tr_context r, tr_storeID r, tr_tags r) \<in> sub_cores (set msgs) D"
    then obtain p kids st k where k: "ExpandResultMsg p kids st None \<in> set msgs" "k \<in> set kids"
      "core k = (tr_path r, tr_context r, tr_storeID r, tr_tags r)" "tr_storeID r = sub_id p" "mget D (sub_id p) \<noteq> None"
      by (auto simp: sub_cores_def)
    then obtain s where s: "mget D (sub_id p) = Some s" by blast
    then obtain p' kids' where p': "ExpandResultMsg p' kids' (Some s) None \<in> set msgs" "sub_id p = sub_id p'"
      using D(1) unfolding known_stores_def by blast
    have "p' = p" using p'(2) by (simp add: sub_id_def)
    moreover have "resolveStore (kind_to_store stores) (tr_storeID r) (tr_dynamicStore r) = Ok s"
      using D(2) k(4) s by (simp add: resolveStore_def)
    moreover have "tr_path r = it_path k \<and> tr_tags r = it_tags k \<and> tr_context r = it_contextName k \<and> tr_storeID r = it_storeID k"
      using k(3) by (simp add: core_def)
    ultimately show ?thesis using k(1,2) p'(1) by blast
  qed
qed

text \<open>
  A context with an alias is listed under the alias alone: the list is given the alias as the name, so
  the suffix with the name of the context is never shown and the name cannot be searched.
\<close>

theorem alias_hides_context_name:
  assumes "switch_items dcs am = Ok (cis, am')" "ci \<in> set cis" "it_Alias ci \<noteq> []" "it_StoreKind ci \<noteq> StoreKindGardener"
  shows "item_search_name (itemFor ci) = it_Alias ci"
  using switch_items_origin [OF assms(1,2)] assms(3,4)
  by (auto simp: itemFor_def FormatDisplayName_def item_search_name_def)

section \<open>The preview shows no credentials\<close>

text \<open>
  The preview of an item is the same for two kubeconfigs that differ only in credentials.
\<close>

theorem preview_hides_credentials:
  assumes "mget storesA (it_storeID it) = Some sa" "mget storesB (it_storeID it) = Some sb"
    and "st_GetSearchPreview sa = st_GetSearchPreview sb"
    and "st_GetKubeconfigForPath sa (it_path it) (it_tags it) w = (Ok x, w')"
    and "st_GetKubeconfigForPath sb (it_path it) (it_tags it) w = (Ok y, w')"
    and "um x = Ok a" "um y = Ok b" "list_all2 same_public_user (kcf_Users a) (kcf_Users b)"
    and "kcf_Users_update (\<lambda>_. []) a = kcf_Users_update (\<lambda>_. []) b"
  shows "fetchPreview show_err um marshal storesA it w = fetchPreview show_err um marshal storesB it w"
proof -
  have "ParseSanitizedKubeconfig um x = ParseSanitizedKubeconfig um y"
    using redact_same [OF assms(8,9)] assms(6,7) by (simp add: ParseSanitizedKubeconfig_def)
  then show ?thesis using assms(1-5) by (simp add: fetchPreview_def tryIO_def)
qed

section \<open>Witnesses\<close>

definition k0s_sample :: "unit k0s_env" where
  "k0s_sample = \<lparr>k0_RESTConfig = (\<lambda>_. Ok ()), k0_NewClient = (\<lambda>_. Ok \<lparr>k0_List = Ok [(''k'', ''n''), (''late'', ''n'')],
     k0_Get = (\<lambda>ns secret. if secret = ''k-kubeconfig'' then Ok [(''value'', ''kc'')] else Err (LibErr ''not found''))\<rparr>),
     k0_IsNoMatch = (\<lambda>_. False), k0_CurrentContext = (\<lambda>_. Ok ''k0s'')\<rparr>"

definition tui_store :: store where
  "tui_store = \<lparr>st_GetID = ''eks.default'', st_GetKind = ''eks'', st_GetContextPrefix = (\<lambda>_. []),
     st_VerifyKubeconfigPaths = returnIO (), st_StartSearch = returnIO [],
     st_GetKubeconfigForPath = (\<lambda>p _. returnIO ''s1''), st_GetStoreConfig = zero_store,
     st_GetSearchPreview = None, st_GetShootLabelKeys = None, st_Flush = None\<rparr>"

definition tui_found :: DiscoveredContext where
  "tui_found = \<lparr>dc_Path = ''p'', dc_Name = ''prod-eu'', dc_Alias = ''eu'', dc_Tags = [], dc_Store = Some tui_store, dc_Error = None\<rparr>"

definition tui_item :: ContextItem where
  "tui_item = \<lparr>it_ContextName = ''eu'', it_Alias = ''eu'', it_StoreKind = ''eks'', it_Path = ''p'', it_Tags = [],
     it_StoreID = ''eks.default'', it_LabelDisplayKeys = []\<rparr>"

lemma tui_items: "switch_items [tui_found] [] = Ok ([tui_item], [(''eu'', ''prod-eu'')])"
  by (simp add: tui_found_def tui_item_def store_of_def tui_store_def labelDisplayKeys_def)

lemma expanded_clusters_resolve_witness:
  "\<exists>k s. expandK0smotronCmd k0s_sample [(''s'', tui_store\<lparr>st_GetID := ''s''\<rparr>)] [] (top_item ''a'') cli_world =
       (Ok (ExpandResultMsg ''a'' [k] (Some s) None), cli_world) \<and> it_path k = ''a/n/k'' \<and>
     (\<exists>bytes. bytes \<noteq> [] \<and> st_GetKubeconfigForPath s (it_path k) (it_tags k) cli_world = (Ok bytes, cli_world))"
proof -
  let ?es = "[\<lparr>ke_Path = ''a/n/k'', ke_DisplayName = ''n/k'', ke_Namespace = ''n'', ke_Name = ''k'', ke_ContextName = ''k0s'',
      ke_StoreID = ''k0smotron.k0smotron-a''\<rparr>]"
  let ?kids = "map (entry_item (top_item ''a'')) ?es"
  let ?s = "(NewK0smotronInMemoryStore ''k0smotron-a'')\<lparr>mem_pathToKubeconfig := [(''a/n/k'', ''kc'')]\<rparr>"
  have d: "DiscoverK0smotronClusters k0s_sample ''a'' ''s1'' = Ok (Some ?s, ?es)" by code_simp
  let ?st = "dynamicStoreAdapter ?s"
  have r: "expandK0smotronCmd k0s_sample [(''s'', tui_store\<lparr>st_GetID := ''s''\<rparr>)] [] (top_item ''a'') cli_world =
      (Ok (ExpandResultMsg ''a'' ?kids (Some ?st) None), cli_world)"
    using d by (simp add: expandK0smotronCmd_def top_item_def tui_store_def tryIO_def bindIO_def liftR_def returnIO_def)
  from expanded_clusters_resolve [OF this] have
    "\<exists>bytes. bytes \<noteq> [] \<and> st_GetKubeconfigForPath ?st (it_path (hd ?kids)) (it_tags (hd ?kids)) cli_world = (Ok bytes, cli_world)"
    by auto
  then show ?thesis using r by (intro exI [of _ "hd ?kids"] exI [of _ ?st]) (simp add: entry_item_def)
qed

text \<open>The context \<^verbatim>\<open>eu\<close> is expanded, and its sub-cluster, on which the cursor then is, is chosen.\<close>

definition sub_kid :: item where
  "sub_kid = entry_item (itemFor tui_item) \<lparr>ke_Path = ''p/n/k'', ke_DisplayName = ''n/k'', ke_Namespace = ''n'', ke_Name = ''k'',
      ke_ContextName = ''k0s'', ke_StoreID = ''k0smotron.k0smotron-p''\<rparr>"

definition sub_store :: store where
  "sub_store = dynamicStoreAdapter ((NewK0smotronInMemoryStore ''k0smotron-p'')\<lparr>mem_pathToKubeconfig := [(''p/n/k'', ''kc'')]\<rparr>)"

definition sub_msg :: msg where
  "sub_msg = ExpandResultMsg ''p'' [sub_kid] (Some sub_store) None"

lemma sub_msg_expansion:
  "expandK0smotronCmd k0s_sample (kind_to_store [tui_store]) [] (itemFor tui_item) cli_world = (Ok sub_msg, cli_world)"
proof -
  have d: "DiscoverK0smotronClusters k0s_sample ''p'' ''s1'' =
     Ok (Some ((NewK0smotronInMemoryStore ''k0smotron-p'')\<lparr>mem_pathToKubeconfig := [(''p/n/k'', ''kc'')]\<rparr>),
     [\<lparr>ke_Path = ''p/n/k'', ke_DisplayName = ''n/k'', ke_Namespace = ''n'', ke_Name = ''k'', ke_ContextName = ''k0s'',
      ke_StoreID = ''k0smotron.k0smotron-p''\<rparr>])" by code_simp
  have i: "it_Path tui_item = ''p''" "it_StoreID tui_item = ''eks.default''" "it_Tags tui_item = []" by (simp_all add: tui_item_def)
  have s: "st_GetID tui_store = ''eks.default''" "st_GetKubeconfigForPath tui_store = (\<lambda>p _. returnIO ''s1'')" by (simp_all add: tui_store_def)
  show ?thesis
    by (simp add: expandK0smotronCmd_def i kind_to_store_def s d tryIO_apply bindIO_apply sub_msg_def sub_kid_def sub_store_def)
qed

lemma selection_identity_witness:
  "\<exists>m r s. run_msgs tui_sample (feed [] [tui_item] @ [sub_msg, KeyPressMsg ''enter''])
       (NewModel tui_sample (kind_to_store [tui_store]) False) = Some (Ok m) \<and>
     selectionFor m = Ok r \<and> tr_path r = ''p/n/k'' \<and> tr_context r = ''k0s'' \<and>
     resolveStore (kind_to_store [tui_store]) (tr_storeID r) (tr_dynamicStore r) = Ok s \<and> s = sub_store"
proof -
  let ?msgs = "feed [] [tui_item] @ [sub_msg, KeyPressMsg ''enter'']"
  let ?run = "run_msgs tui_sample ?msgs (NewModel tui_sample (kind_to_store [tui_store]) False)"
  have "(case ?run of Some (Ok m) \<Rightarrow> is_ok (selectionFor m) \<and> map_option it_path (md_Selected m) = Some ''p/n/k'' | _ \<Rightarrow> False)" by code_simp
  then obtain m r where m: "?run = Some (Ok m)" "selectionFor m = Ok r" "map_option it_path (md_Selected m) = Some ''p/n/k''"
    by (auto simp: is_ok_iff split: option.splits res.splits)
  have p: "tr_path r = ''p/n/k''" using m(2,3) by (auto simp: selectionFor_def split: if_splits option.splits)
  have feed: "feed [] [tui_item] = [ItemsMsg [itemFor tui_item], DiscoveryDoneMsg]" by (simp add: Let_def)
  have x: "msg \<in> set (feed [] [tui_item]) \<or> msg_cores msg = {} \<or>
      (\<exists>dyn parent w w'. expandK0smotronCmd k0s_sample (kind_to_store [tui_store]) dyn parent w = (Ok msg, w'))"
    if "msg \<in> set ?msgs" for msg
    using that sub_msg_expansion by auto
  have only: "ExpandResultMsg q kids st None \<in> set ?msgs \<longleftrightarrow> q = ''p'' \<and> kids = [sub_kid] \<and> st = Some sub_store" for q kids st
    by (auto simp: feed sub_msg_def)
  have st: "\<forall>dc \<in> set [tui_found]. \<forall>s. dc_Store dc = Some s \<longrightarrow> s \<in> set [tui_store]" "distinct (map st_GetID [tui_store])"
    "\<forall>s \<in> set [tui_store]. \<not> HasPrefix (st_GetID s) ''k0smotron.''"
    by (simp_all add: tui_found_def tui_store_def HasPrefix_def)
  have dc: "dc_Path tui_found = ''p''" by (simp add: tui_found_def)
  have kid: "it_contextName sub_kid = ''k0s''" by (simp add: sub_kid_def entry_item_def)
  have "\<forall>msg \<in> set ?msgs. msg \<in> set (feed [] [tui_item]) \<or> msg_cores msg = {} \<or>
      (\<exists>dyn parent w w'. expandK0smotronCmd k0s_sample (kind_to_store [tui_store]) dyn parent w = (Ok msg, w'))"
    using x by blast
  from selection_identity [OF tui_items st m(1) this m(2)] have
    "tr_context r = ''k0s'' \<and> resolveStore (kind_to_store [tui_store]) (tr_storeID r) (tr_dynamicStore r) = Ok sub_store"
    unfolding only using p dc kid by auto
  then show ?thesis using m p by blast
qed

lemma alias_hides_context_name_witness: "item_search_name (itemFor tui_item) = ''eu''"
  using alias_hides_context_name [OF tui_items, of tui_item] by (simp add: tui_item_def StoreKindGardener_def)

lemma preview_hides_credentials_witness:
  "fetchPreview (\<lambda>_. []) (\<lambda>d. Ok (kubeconfig_with d)) (\<lambda>_. Ok ''y'') [(''s'', tui_store)] (top_item ''p'') cli_world =
   fetchPreview (\<lambda>_. []) (\<lambda>d. Ok (kubeconfig_with d)) (\<lambda>_. Ok ''y'')
     [(''s'', tui_store\<lparr>st_GetKubeconfigForPath := \<lambda>p _. returnIO ''s2''\<rparr>)] (top_item ''p'') cli_world"
  by (rule preview_hides_credentials [where a = "kubeconfig_with ''s1''" and b = "kubeconfig_with ''s2''" and x = "''s1''" and y = "''s2''"
      and w' = cli_world and sa = tui_store and sb = "tui_store\<lparr>st_GetKubeconfigForPath := \<lambda>p _. returnIO ''s2''\<rparr>"])
    (simp_all add: tui_store_def top_item_def returnIO_def kubeconfig_with_def same_public_user_def same_public_auth_def
      same_public_exec_def authProviderSafeKeys_def)

end
