(* ===== verification/TuiList.thy ===== *)
theory TuiList
  imports TuiRun
begin

text \<open>
  The plain list (\<^verbatim>\<open>pkg/tui/list.go\<close>) from which a history entry or a namespace is chosen, with what its rows look
  like, and its use by the history command.
\<close>

section \<open>The model of the list\<close>

record listEntry =
  le_displayName :: string
  le_origIndex :: nat
  le_matchedIndexes :: "nat list"

record 'i listModel =
  lm_input :: 'i
  lm_query :: string
  lm_items :: "string list"
  lm_filtered :: "listEntry list"
  lm_cursor :: int
  lm_viewOffset :: int
  lm_width :: int
  lm_height :: int
  lm_Aborted :: bool
  lm_Selected :: string
  lm_SelectedIndex :: int

definition all_entries :: "string list \<Rightarrow> listEntry list" where
  "all_entries its = map (\<lambda>(i, s). \<lparr>le_displayName = s, le_origIndex = i, le_matchedIndexes = []\<rparr>) (List.enumerate 0 its)"

definition newListModel :: "('i, 'z) tui_libs_scheme \<Rightarrow> string list \<Rightarrow> 'i listModel" where
  "newListModel L its = \<lparr>lm_input = tl_New L, lm_query = [], lm_items = its, lm_filtered = all_entries its, lm_cursor = 0,
     lm_viewOffset = 0, lm_width = 0, lm_height = 0, lm_Aborted = False, lm_Selected = [], lm_SelectedIndex = -1\<rparr>"

fun string_matches :: "(string \<Rightarrow> string) \<Rightarrow> string \<Rightarrow> string list \<Rightarrow> (nat \<times> nat list) list \<Rightarrow> listEntry list res" where
  "string_matches lo query its [] = Ok []"
| "string_matches lo query its ((i, ix) # ms) =
     (if i < length its
      then bindR (improveMatchPositions lo query (its ! i) ix) (\<lambda>ix'.
        mapR ((#) \<lparr>le_displayName = its ! i, le_origIndex = i, le_matchedIndexes = ix'\<rparr>) (string_matches lo query its ms))
      else Panic ''index out of range'')"

definition filterStringItems :: "('i, 'z) tui_libs_scheme \<Rightarrow> string \<Rightarrow> string list \<Rightarrow> listEntry list res" where
  "filterStringItems L query its =
     (if query = [] then Ok (all_entries its) else string_matches (tl_ToLower L) query its (tl_Find L query its))"

definition list_height :: "'i listModel \<Rightarrow> int" where
  "list_height m = max (lm_height m - 2) 1"

definition list_moveCursor :: "int \<Rightarrow> 'i listModel \<Rightarrow> 'i listModel" where
  "list_moveCursor delta m =
     (if length (lm_filtered m) = 0 then m\<lparr>lm_cursor := 0\<rparr>
      else (let n = int (length (lm_filtered m)); c0 = lm_cursor m + delta;
                c1 = (if c0 < 0 then 0 else c0); c2 = (if c1 \<ge> n then n - 1 else c1); lh = list_height m;
                v1 = (if c2 < lm_viewOffset m then c2 else lm_viewOffset m);
                v2 = (if c2 \<ge> v1 + lh then c2 - lh + 1 else v1)
            in m\<lparr>lm_cursor := c2, lm_viewOffset := v2\<rparr>))"

definition list_deleteWord :: "('i, 'z) tui_libs_scheme \<Rightarrow> 'i listModel \<Rightarrow> 'i listModel res" where
  "list_deleteWord L m = (let nv = without_last_word (tl_Value L (lm_input m))
     in mapR (\<lambda>fs. m\<lparr>lm_input := tl_CursorEnd L (tl_SetValue L nv (lm_input m)), lm_query := nv, lm_filtered := fs,
                      lm_cursor := 0, lm_viewOffset := 0\<rparr>) (filterStringItems L nv (lm_items m)))"

definition list_delegate :: "('i, 'z) tui_libs_scheme \<Rightarrow> msg \<Rightarrow> 'i listModel \<Rightarrow> ('i listModel \<times> cmd) res" where
  "list_delegate L msg m = (let m1 = m\<lparr>lm_input := tl_Update L (lm_input m) msg\<rparr>; v = tl_Value L (lm_input m1)
     in if v \<noteq> lm_query m1
        then mapR (\<lambda>fs. (m1\<lparr>lm_query := v, lm_filtered := fs, lm_cursor := 0, lm_viewOffset := 0\<rparr>, InputCmd))
               (filterStringItems L v (lm_items m1))
        else Ok (m1, InputCmd))"

definition list_enter :: "'i listModel \<Rightarrow> ('i listModel \<times> cmd) res" where
  "list_enter m = (if length (lm_filtered m) > 0
     then mapR (\<lambda>e. (m\<lparr>lm_Selected := le_displayName e, lm_SelectedIndex := int (le_origIndex e)\<rparr>, Quit)) (at_cursor (lm_filtered m) (lm_cursor m))
     else Ok (m, Quit))"

fun list_Update :: "('i, 'z) tui_libs_scheme \<Rightarrow> msg \<Rightarrow> 'i listModel \<Rightarrow> ('i listModel \<times> cmd) res" where
  "list_Update L (WindowSizeMsg w h) m = Ok (m\<lparr>lm_width := w, lm_height := h\<rparr>, NoCmd)"
| "list_Update L (KeyPressMsg k) m =
     (if k \<in> {''esc'', ''ctrl+c'', ''ctrl+d''} then Ok (m\<lparr>lm_Aborted := True\<rparr>, Quit)
      else if k = ''enter'' then list_enter m
      else if k \<in> {''up'', ''ctrl+k'', ''ctrl+p''} then Ok (list_moveCursor (-1) m, NoCmd)
      else if k \<in> {''down'', ''ctrl+j'', ''ctrl+n''} then Ok (list_moveCursor 1 m, NoCmd)
      else if k = ''ctrl+u'' then mapR (\<lambda>fs. (m\<lparr>lm_input := tl_SetValue L [] (lm_input m), lm_query := [], lm_filtered := fs,
            lm_cursor := 0\<rparr>, NoCmd)) (filterStringItems L [] (lm_items m))
      else if k \<in> {''ctrl+w'', ''alt+backspace''} then mapR (\<lambda>m1. (m1, NoCmd)) (list_deleteWord L m)
      else list_delegate L (KeyPressMsg k) m)"
| "list_Update L msg m = list_delegate L msg m"

text \<open>
  The program: messages are handled until a command quits; \<^verbatim>\<open>None\<close> when the messages end before. The result is the index
  of the selected entry in the list of all.
\<close>

fun list_program :: "('i, 'z) tui_libs_scheme \<Rightarrow> msg list \<Rightarrow> 'i listModel \<Rightarrow> 'i listModel res option" where
  "list_program L [] m = None"
| "list_program L (msg # msgs) m = (case list_Update L msg m of
     Ok (m1, c) \<Rightarrow> if c = Quit then Some (Ok m1) else list_program L msgs m1 | Err e \<Rightarrow> Some (Err e) | Panic p \<Rightarrow> Some (Panic p))"

definition RunList ::
    "('i, 'z) tui_libs_scheme \<Rightarrow> msg list \<Rightarrow> string list \<Rightarrow> (nat \<Rightarrow> string) option \<Rightarrow> int res option" where
  "RunList L msgs its labelFunc =
     (let labels = map (\<lambda>i. case labelFunc of Some f \<Rightarrow> f i | None \<Rightarrow> its ! i) [0..<length its]
      in map_option (\<lambda>r. bindR r (\<lambda>m. if lm_Aborted m \<or> lm_SelectedIndex m < 0 then Err ErrAbort else Ok (lm_SelectedIndex m)))
           (list_program L msgs (newListModel L labels)))"

section \<open>The rows on the screen\<close>

text \<open>
  \<^verbatim>\<open>View\<close> and \<^verbatim>\<open>renderLeft\<close> without styles: the index shown in each line from the top, \<^verbatim>\<open>None\<close> for padding, and
  the line that is marked.
\<close>

definition view_lines :: "int \<Rightarrow> int \<Rightarrow> nat \<Rightarrow> int option list" where
  "view_lines viewOffset lh n =
     (let start = viewOffset; end = min (start + lh) (int n); shown = rev [start..end - 1]
      in replicate (nat (lh - int (length shown))) None @ map Some shown)"

definition marked_line :: "int \<Rightarrow> int \<Rightarrow> int \<Rightarrow> nat \<Rightarrow> nat option" where
  "marked_line cursor viewOffset lh n = find_idx (Some cursor) (view_lines viewOffset lh n)"

text \<open>The rows of the history: entry \<^verbatim>\<open>i\<close> of \<^verbatim>\<open>n\<close> entries, the newest first.\<close>

function pad_for :: "nat \<Rightarrow> string" where
  "pad_for n = (if n > 0 then [CHR 0xE2, CHR 0x80, CHR 0x89] @ pad_for (n div 10) else [])"
  by pat_completeness auto
termination by (relation "measure id") auto

declare pad_for.simps [simp del]

definition history_label :: "string list \<Rightarrow> nat \<Rightarrow> string res" where
  "history_label history i = (if i < length history then Ok (
     case ParseHistoryEntry (history ! i) of
       Ok (ctx, None) \<Rightarrow> itoa (length history - i - 1) @ '': '' @ ctx
     | Ok (ctx, Some ns) \<Rightarrow>
         if i + 1 = length history then ''0: '' @ ctx @ '' (ns: '' @ ns @ '')''
         else (case ParseHistoryEntry (history ! (i + 1)) of
             Ok (previousContext, _) \<Rightarrow>
               if ctx = previousContext then pad_for (length history - i - 1) @ [CHR 0xE2, CHR 0x9C, CHR 0xAA] @ '' '' @ ns
               else itoa (length history - i - 1) @ '': '' @ ctx @ '' ('' @ ns @ '')''
           | _ \<Rightarrow> [])
     | _ \<Rightarrow> [])
   else Panic ''index out of range'')"

section \<open>Both lists are windows\<close>

lemma scroll_shown:
  fixes c v lh :: int
  assumes "0 < lh" "v1 = (if c < v then c else v)" "v2 = (if c \<ge> v1 + lh then c - lh + 1 else v1)"
  shows "v2 \<le> c \<and> c < v2 + lh \<and> (v \<le> c \<and> c < v + lh \<longrightarrow> v2 = v)"
  using assms by auto

lemma list_moveCursor_eq:
  assumes "0 < length (lm_filtered m)"
  obtains v where "list_moveCursor d m =
      m\<lparr>lm_cursor := max 0 (min (int (length (lm_filtered m)) - 1) (lm_cursor m + d)), lm_viewOffset := v\<rparr>"
    "v \<le> lm_cursor (list_moveCursor d m)" "lm_cursor (list_moveCursor d m) < v + list_height m"
    "lm_viewOffset m \<le> lm_cursor (list_moveCursor d m) \<Longrightarrow> lm_cursor (list_moveCursor d m) < lm_viewOffset m + list_height m \<Longrightarrow>
      v = lm_viewOffset m"
proof -
  let ?n = "int (length (lm_filtered m))"
  define c1 where "c1 = (if lm_cursor m + d < 0 then 0 else lm_cursor m + d)"
  define c where "c = (if c1 \<ge> ?n then ?n - 1 else c1)"
  define v1 where "v1 = (if c < lm_viewOffset m then c else lm_viewOffset m)"
  define v2 where "v2 = (if c \<ge> v1 + list_height m then c - list_height m + 1 else v1)"
  have c: "c = max 0 (min (?n - 1) (lm_cursor m + d))" using assms by (auto simp: c_def c1_def)
  have lh: "0 < list_height m" by (simp add: list_height_def)
  have ne: "length (lm_filtered m) \<noteq> 0" using assms by simp
  have m: "list_moveCursor d m = m\<lparr>lm_cursor := c, lm_viewOffset := v2\<rparr>"
    using ne unfolding list_moveCursor_def Let_def v2_def v1_def c_def c1_def by (simp only: if_False)
  note s = scroll_shown [OF lh v1_def v2_def]
  show thesis by (rule that [of v2]) (use s c in \<open>simp_all add: m\<close>)
qed

interpretation plain_list: list_window lm_cursor lm_viewOffset list_height "length \<circ> lm_filtered" list_moveCursor
proof
  fix m :: "'a listModel" and d
  assume "0 < (length \<circ> lm_filtered) m"
  then have ne: "0 < length (lm_filtered m)" by simp
  show "lm_cursor (list_moveCursor d m) = max 0 (min (int ((length \<circ> lm_filtered) m) - 1) (lm_cursor m + d))"
    by (rule list_moveCursor_eq [OF ne, of d]) simp
  show "lm_viewOffset (list_moveCursor d m) \<le> lm_cursor (list_moveCursor d m) \<and>
      lm_cursor (list_moveCursor d m) < lm_viewOffset (list_moveCursor d m) + list_height m"
    by (rule list_moveCursor_eq [OF ne, of d]) simp
  show "lm_viewOffset (list_moveCursor d m) = lm_viewOffset m"
    if "lm_viewOffset m \<le> lm_cursor (list_moveCursor d m)" "lm_cursor (list_moveCursor d m) < lm_viewOffset m + list_height m"
    by (rule list_moveCursor_eq [OF ne, of d]) (use that in simp)
next
  fix m :: "'a listModel" and d
  show "(length \<circ> lm_filtered) (list_moveCursor d m) = (length \<circ> lm_filtered) m"
    by (simp add: list_moveCursor_def Let_def)
  show "list_height (list_moveCursor d m) = list_height m"
    by (simp add: list_moveCursor_def list_height_def Let_def)
qed

interpretation context_list: list_window md_cursor md_viewOffset listHeight "length \<circ> md_filtered" moveCursor
proof
  fix m :: "'a model" and d
  assume "0 < (length \<circ> md_filtered) m"
  then have ne: "md_filtered m \<noteq> []" by simp
  let ?n = "int (length (md_filtered m))"
  let ?m1 = "m\<lparr>md_cursor := md_cursor m + d\<rparr>"
  define c1 where "c1 = (if md_cursor m + d < 0 then 0 else md_cursor m + d)"
  define c where "c = (if c1 \<ge> ?n then ?n - 1 else c1)"
  define v where "v = (if md_viewOffset m > max (?n - listHeight m) 0 then max (?n - listHeight m) 0 else md_viewOffset m)"
  define v1 where "v1 = (if c < v then c else v)"
  define v2 where "v2 = (if c \<ge> v1 + listHeight m then c - listHeight m + 1 else v1)"
  have lh: "0 < listHeight m" by (simp add: listHeight_def)
  have "clampCursor ?m1 = m\<lparr>md_cursor := c, md_viewOffset := v\<rparr>"
    using ne unfolding c_def c1_def v_def by (simp add: clampCursor_def Let_def listHeight_def)
  moreover have "scrollIntoView (m\<lparr>md_cursor := c, md_viewOffset := v\<rparr>) = m\<lparr>md_cursor := c, md_viewOffset := v2\<rparr>"
    unfolding v2_def v1_def by (simp add: scrollIntoView_def Let_def listHeight_def)
  ultimately have m: "moveCursor d m = m\<lparr>md_cursor := c, md_viewOffset := v2\<rparr>" using ne by (simp add: moveCursor_def)
  have c: "c = max 0 (min (?n - 1) (md_cursor m + d))" using ne by (auto simp: c_def c1_def Suc_le_eq)
  note s = scroll_shown [OF lh v1_def v2_def]
  show "md_cursor (moveCursor d m) = max 0 (min (int ((length \<circ> md_filtered) m) - 1) (md_cursor m + d))"
    using c by (simp add: m)
  show "md_viewOffset (moveCursor d m) \<le> md_cursor (moveCursor d m) \<and>
      md_cursor (moveCursor d m) < md_viewOffset (moveCursor d m) + listHeight m" using s by (simp add: m)
  show "md_viewOffset (moveCursor d m) = md_viewOffset m"
    if "md_viewOffset m \<le> max (int ((length \<circ> md_filtered) m) - listHeight m) 0"
      "md_viewOffset m \<le> md_cursor (moveCursor d m)" "md_cursor (moveCursor d m) < md_viewOffset m + listHeight m"
  proof -
    have "v = md_viewOffset m" using that(1) unfolding v_def by (auto simp: max_def split: if_splits)
    then show ?thesis using s that(2,3) by (simp add: m)
  qed
next
  fix m :: "'a model" and d
  show "(length \<circ> md_filtered) (moveCursor d m) = (length \<circ> md_filtered) m" "listHeight (moveCursor d m) = listHeight m"
    by (rule clampCursor_spec [of "m\<lparr>md_cursor := md_cursor m + d\<rparr>"],
        rule scrollIntoView_spec [of "clampCursor (m\<lparr>md_cursor := md_cursor m + d\<rparr>)"], simp add: moveCursor_def listHeight_def)+
qed

section \<open>The index that is chosen\<close>

lemma string_matches_spec:
  "string_matches lo q its ms = Ok fs \<Longrightarrow> e \<in> set fs \<Longrightarrow> le_origIndex e < length its \<and> le_displayName e = its ! le_origIndex e"
  by (induction lo q its ms arbitrary: fs rule: string_matches.induct) (auto split: if_splits)

lemma filterStringItems_spec:
  "filterStringItems L q its = Ok fs \<Longrightarrow> e \<in> set fs \<Longrightarrow> le_origIndex e < length its \<and> le_displayName e = its ! le_origIndex e"
  using string_matches_spec [of "tl_ToLower L" q its "tl_Find L q its" fs e]
  by (auto simp: filterStringItems_def all_entries_def in_set_enumerate_eq split: if_splits)

lemma string_matches_Ok:
  assumes "\<forall>(i, ix) \<in> set ms. i < length its" "\<forall>s \<in> set its. length (lo s) \<le> length s"
  shows "\<exists>fs. string_matches lo q its ms = Ok fs"
  using assms(1)
proof (induction ms)
  case (Cons m ms)
  obtain i ix where m: "m = (i, ix)" by (cases m)
  obtain fs where "string_matches lo q its ms = Ok fs" using Cons by auto
  moreover obtain ix' where "improveMatchPositions lo q (its ! i) ix = Ok ix'"
    using improve_Ok [of lo "its ! i" q ix] assms(2) Cons.prems m by auto
  ultimately show ?case using Cons.prems m by simp
qed simp

definition labels_ok :: "('i, 'z) tui_libs_scheme \<Rightarrow> string list \<Rightarrow> bool" where
  "labels_ok L its \<longleftrightarrow> (\<forall>s \<in> set its. length (tl_ToLower L s) \<le> length s)"

lemma filterStringItems_Ok: "find_ok L \<Longrightarrow> labels_ok L its \<Longrightarrow> \<exists>fs. filterStringItems L q its = Ok fs"
  using string_matches_Ok [of "tl_Find L q its" its "tl_ToLower L" q]
  by (fastforce simp: filterStringItems_def find_ok_def labels_ok_def)

definition list_inv :: "('i, 'z) tui_libs_scheme \<Rightarrow> string list \<Rightarrow> 'i listModel \<Rightarrow> bool" where
  "list_inv L its m \<longleftrightarrow> lm_items m = its \<and> filterStringItems L (lm_query m) its = Ok (lm_filtered m) \<and>
     cursor_ok (lm_filtered m) (lm_cursor m) \<and>
     (0 \<le> lm_SelectedIndex m \<longrightarrow> nat (lm_SelectedIndex m) < length its \<and> lm_Selected m = its ! nat (lm_SelectedIndex m))"

lemma list_moveCursor_inv:
  assumes "list_inv L its m" shows "list_inv L its (list_moveCursor d m)"
proof (cases "lm_filtered m = []")
  case False
  then have ne: "0 < length (lm_filtered m)" by simp
  show ?thesis by (rule list_moveCursor_eq [OF ne, of d]) (use assms False in \<open>auto simp: list_inv_def cursor_ok_def\<close>)
qed (use assms in \<open>simp add: list_moveCursor_def list_inv_def cursor_ok_def\<close>)

lemma cursor_ok_first [simp]: "cursor_ok xs 0"
  by (simp add: cursor_ok_def)

lemma list_Update_inv:
  assumes L: "find_ok L" "labels_ok L its" and inv: "list_inv L its m"
  shows "\<exists>m' c. list_Update L msg m = Ok (m', c) \<and> list_inv L its m'"
proof -
  have del: "\<exists>m' c. list_delegate L msg m = Ok (m', c) \<and> list_inv L its m'" for msg
    using filterStringItems_Ok [OF L, of "tl_Value L (tl_Update L (lm_input m) msg)"] inv
    by (auto simp: list_delegate_def Let_def list_inv_def)
  have word: "\<exists>m'. list_deleteWord L m = Ok m' \<and> list_inv L its m'"
    using filterStringItems_Ok [OF L, of "without_last_word (tl_Value L (lm_input m))"] inv
    by (auto simp: list_deleteWord_def Let_def list_inv_def)
  have clear: "\<exists>fs. filterStringItems L [] (lm_items m) = Ok fs \<and>
      list_inv L its (m\<lparr>lm_input := tl_SetValue L [] (lm_input m), lm_query := [], lm_filtered := fs, lm_cursor := 0\<rparr>)"
    using filterStringItems_Ok [OF L, of "[]"] inv by (auto simp: list_inv_def)
  have enter: "\<exists>m' c. list_enter m = Ok (m', c) \<and> list_inv L its m'"
  proof (cases "lm_filtered m = []")
    case False
    then obtain e where e: "e \<in> set (lm_filtered m)" "at_cursor (lm_filtered m) (lm_cursor m) = Ok e"
      using at_cursor_ok inv unfolding list_inv_def by blast
    then show ?thesis using inv filterStringItems_spec [of L "lm_query m" its "lm_filtered m" e]
      by (auto simp: list_enter_def list_inv_def)
  qed (use inv in \<open>simp add: list_enter_def\<close>)
  show ?thesis
  proof (cases msg)
    case (KeyPressMsg k)
    have "list_inv L its (m\<lparr>lm_Aborted := True\<rparr>)" using inv by (simp add: list_inv_def)
    then show ?thesis using KeyPressMsg del [of msg] word clear enter list_moveCursor_inv [OF inv] by auto
  qed (use del [of msg] inv in \<open>auto simp: list_inv_def\<close>)
qed

lemma list_program_inv:
  assumes "find_ok L" "labels_ok L its" "list_inv L its m" "list_program L msgs m = Some r"
  shows "\<exists>m'. r = Ok m' \<and> list_inv L its m'"
  using assms(3,4)
proof (induction msgs arbitrary: m)
  case (Cons msg msgs)
  obtain m1 c where "list_Update L msg m = Ok (m1, c)" "list_inv L its m1"
    using list_Update_inv [OF assms(1,2) Cons.prems(1)] by blast
  then show ?case using Cons.IH Cons.prems(2) by (auto split: if_splits)
qed simp

text \<open>
  A list that ends either was left without a choice or returns the index of an entry of the list it was
  given, never one outside; no key makes it panic.
\<close>

theorem RunList_index:
  assumes "find_ok L" and "\<forall>i < length its. length (tl_ToLower L (label i)) \<le> length (label i)"
    and "RunList L msgs its (Some label) = Some r"
  shows "r = Err ErrAbort \<or> (\<exists>i < length its. r = Ok (int i))"
proof -
  let ?labels = "map label [0..<length its]"
  obtain p where p: "list_program L msgs (newListModel L ?labels) = Some p"
    "r = bindR p (\<lambda>m. if lm_Aborted m \<or> lm_SelectedIndex m < 0 then Err ErrAbort else Ok (lm_SelectedIndex m))"
    using assms(3) by (auto simp: RunList_def)
  have "list_inv L ?labels (newListModel L ?labels)"
    by (simp add: list_inv_def newListModel_def filterStringItems_def)
  moreover have "labels_ok L ?labels" using assms(2) by (simp add: labels_ok_def)
  ultimately obtain m where m: "p = Ok m" "list_inv L ?labels m" using list_program_inv assms(1) p(1) by blast
  then show ?thesis using p(2) by (auto simp: list_inv_def intro: exI [of _ "nat (lm_SelectedIndex m)"])
qed

section \<open>The arrow keys\<close>

lemma find_idx_append: "a \<notin> set xs \<Longrightarrow> find_idx a (xs @ ys) = map_option ((+) (length xs)) (find_idx a ys)"
  by (induction xs; cases "find_idx a ys") auto

lemma find_idx_distinct: "distinct xs \<Longrightarrow> i < length xs \<Longrightarrow> find_idx (xs ! i) xs = Some i"
  by (induction xs arbitrary: i) (auto simp: nth_Cons split: nat.splits)

text \<open>The marked line is counted from the top; the first row of the list is the lowest line.\<close>

lemma marked_line_eq:
  assumes "0 \<le> v" "v \<le> c" "c < v + lh" "c < int n" shows "marked_line c v lh n = Some (nat (lh - 1 - (c - v)))"
proof -
  define e where "e = min (v + lh) (int n)"
  let ?shown = "rev [v..e - 1]"
  have e: "c < e" "e - v \<le> lh" using assms by (auto simp: e_def)
  have len: "length ?shown = nat (e - v)" by simp
  have c: "map Some ?shown ! nat (e - 1 - c) = Some c" "nat (e - 1 - c) < length (map Some ?shown)"
    using e assms by (simp_all add: rev_nth)
  have "find_idx (Some c) (map Some ?shown) = Some (nat (e - 1 - c))"
    using find_idx_distinct [of "map Some ?shown" "nat (e - 1 - c)"] c by (simp add: distinct_map)
  then have "marked_line c v lh n = Some (nat (lh - (e - v)) + nat (e - 1 - c))"
    using e assms by (simp add: marked_line_def view_lines_def Let_def e_def [symmetric] find_idx_append)
  then show ?thesis using e by (simp add: nat_add_distrib [symmetric] algebra_simps)
qed

text \<open>
  The same key goes opposite ways: with room on both sides, up moves the marked line one line up in
  the context list and one line down in the plain list, whose rows are drawn from the bottom too.
\<close>

theorem arrow_keys_opposed:
  assumes "0 \<le> md_viewOffset cm" "md_viewOffset cm < md_cursor cm" "md_cursor cm + 1 < md_viewOffset cm + listHeight cm"
    and "md_viewOffset cm + listHeight cm \<le> int (length (md_filtered cm))"
    and "lm_cursor pm = md_cursor cm" "lm_viewOffset pm = md_viewOffset cm" "lm_height pm = md_height cm"
    and "length (lm_filtered pm) = length (md_filtered cm)"
    and "Update L (KeyPressMsg ''up'') cm = Some (Ok (cm', c))" "list_Update L' (KeyPressMsg ''up'') pm = Ok (pm', c')"
    and "marked_line (md_cursor cm) (md_viewOffset cm) (listHeight cm) (length (md_filtered cm)) = Some line"
  shows "marked_line (md_cursor cm') (md_viewOffset cm') (listHeight cm') (length (md_filtered cm')) = Some (line - 1) \<and>
    marked_line (lm_cursor pm') (lm_viewOffset pm') (list_height pm') (length (lm_filtered pm')) = Some (line + 1)"
proof -
  let ?n = "length (md_filtered cm)" and ?v = "md_viewOffset cm" and ?c = "md_cursor cm" and ?lh = "listHeight cm"
  have n: "0 < ?n" "?c + 1 < int ?n" using assms(1-4) by auto
  have line: "line = nat (?lh - 1 - (?c - ?v))" using marked_line_eq [of ?v ?c ?lh ?n] assms(1-4,11) n by simp
  have lh: "list_height pm = ?lh" using assms(7) by (simp add: list_height_def listHeight_def window_height_def)
  let ?cm = "moveCursor 1 cm" and ?pm = "list_moveCursor (- 1) pm"
  have "md_cursor cm' = md_cursor ?cm" "md_viewOffset cm' = md_viewOffset ?cm" "listHeight cm' = listHeight ?cm" "md_filtered cm' = md_filtered ?cm"
    using assms(9) by (auto simp: key_press_def with_preview_def fetchPreviewCmd_def listHeight_def split: if_splits)
  moreover have "md_cursor ?cm = ?c + 1" using context_list.move_cursor [of cm 1] n assms(1,2) by simp
  moreover from this have "md_viewOffset ?cm = ?v"
    using context_list.move_keeps [of cm 1] n assms(1-4) by simp
  moreover have "length (md_filtered ?cm) = ?n" "listHeight ?cm = ?lh"
    using context_list.move_rows [of 1 cm] context_list.move_height [of 1 cm] by simp_all
  ultimately have up: "marked_line (md_cursor cm') (md_viewOffset cm') (listHeight cm') (length (md_filtered cm')) =
      Some (nat (?lh - 1 - (?c + 1 - ?v)))" using marked_line_eq [of ?v "?c + 1" ?lh ?n] assms(1-4) n by simp
  have "pm' = ?pm" using assms(10) by simp
  moreover have "lm_cursor ?pm = ?c - 1" using plain_list.move_cursor [of pm "- 1"] n assms(1,2,5,8) by simp
  moreover from this have "lm_viewOffset ?pm = ?v"
    using plain_list.move_keeps [of pm "- 1"] n assms(1-6,8) lh by simp
  moreover have "length (lm_filtered ?pm) = ?n" "list_height ?pm = ?lh"
    using plain_list.move_rows [of "- 1" pm] plain_list.move_height [of "- 1" pm] assms(8) lh by simp_all
  ultimately have down: "marked_line (lm_cursor pm') (lm_viewOffset pm') (list_height pm') (length (lm_filtered pm')) =
      Some (nat (?lh - 1 - (?c - 1 - ?v)))" using marked_line_eq [of ?v "?c - 1" ?lh ?n] assms(1-4) n by simp
  define x where "x = ?lh - 1 - (?c - ?v)"
  have "?lh - 1 - (?c + 1 - ?v) = x - 1" "?lh - 1 - (?c - 1 - ?v) = x + 1" "1 \<le> x" using assms(1-4) by (simp_all add: x_def)
  then show ?thesis unfolding up down line x_def [symmetric] by (simp add: nat_add_distrib nat_diff_distrib)
qed

section \<open>Witnesses\<close>

lemma RunList_index_witness:
  "RunList tui_sample [KeyPressMsg ''down'', KeyPressMsg ''enter''] [''a'', ''b''] (Some (\<lambda>i. [''x'', ''y''] ! i)) = Some (Ok 1) \<and>
   (\<exists>i < length [''a'', ''b'']. (1::int) = int i)"
proof -
  have r: "RunList tui_sample [KeyPressMsg ''down'', KeyPressMsg ''enter''] [''a'', ''b''] (Some (\<lambda>i. [''x'', ''y''] ! i)) = Some (Ok 1)"
    by code_simp
  have "length (tl_ToLower tui_sample ''x'') \<le> 1" "length (tl_ToLower tui_sample ''y'') \<le> 1" by code_simp+
  then have "\<forall>i < length [''a'', ''b'']. length (tl_ToLower tui_sample ([''x'', ''y''] ! i)) \<le> length ([''x'', ''y''] ! i)"
    by (auto simp: less_Suc_eq)
  from RunList_index [OF sample_find_ok this r] show ?thesis using r by auto
qed

definition opposed_context_list :: "string model" where
  "opposed_context_list = (NewModel tui_sample [] False)\<lparr>md_filtered := replicate 3 (top_item ''a''), md_cursor := 1, md_height := 5\<rparr>"

definition opposed_plain_list :: "string listModel" where
  "opposed_plain_list = (newListModel tui_sample [''a'', ''b'', ''c''])\<lparr>lm_cursor := 1, lm_height := 5\<rparr>"

lemma arrow_keys_opposed_witness:
  "\<exists>cm' pm'. Update tui_sample (KeyPressMsg ''up'') opposed_context_list = Some (Ok (cm', NoCmd)) \<and>
     list_Update tui_sample (KeyPressMsg ''up'') opposed_plain_list = Ok (pm', NoCmd) \<and>
     marked_line (md_cursor cm') (md_viewOffset cm') (listHeight cm') (length (md_filtered cm')) = Some 0 \<and>
     marked_line (lm_cursor pm') (lm_viewOffset pm') (list_height pm') (length (lm_filtered pm')) = Some 2"
proof -
  let ?cm = "moveCursor 1 opposed_context_list" and ?pm = "list_moveCursor (- 1) opposed_plain_list"
  have u: "Update tui_sample (KeyPressMsg ''up'') opposed_context_list = Some (Ok (?cm, NoCmd))"
    by (simp add: key_press_def with_preview_def fetchPreviewCmd_def opposed_context_list_def NewModel_def moveCursor_def
        clampCursor_def scrollIntoView_def listHeight_def window_height_def)
  have l: "list_Update tui_sample (KeyPressMsg ''up'') opposed_plain_list = Ok (?pm, NoCmd)" by simp
  have line: "marked_line (md_cursor opposed_context_list) (md_viewOffset opposed_context_list) (listHeight opposed_context_list)
      (length (md_filtered opposed_context_list)) = Some 1" by code_simp
  from arrow_keys_opposed [OF _ _ _ _ _ _ _ _ u l line] show ?thesis
    using u l by (simp add: opposed_context_list_def opposed_plain_list_def NewModel_def newListModel_def all_entries_def
        listHeight_def window_height_def)
qed

end
