(* ===== verification/GoGlob.thy ===== *)
theory GoGlob
  imports GoStrings
begin

text \<open>
  Go's \<^verbatim>\<open>path.Match\<close>, on Unix the same as \<^verbatim>\<open>filepath.Match\<close>: a pattern is split at its stars into chunks; each
  chunk is put at the leftmost place where it fits, and no star runs over a slash. Strings are the bytes of their
  UTF-8 encoding, a question mark and a class stand for one code point.
\<close>

section \<open>Code points\<close>

definition byte :: "char \<Rightarrow> nat" where "byte c = of_char c"

definition cont :: "nat \<Rightarrow> bool" where "cont b \<longleftrightarrow> 128 \<le> b \<and> b \<le> 191"

text \<open>\<^verbatim>\<open>utf8.DecodeRuneInString\<close> of a non-empty string: the code point and its length.\<close>

fun decode_bytes :: "nat list \<Rightarrow> nat \<times> nat" where
  "decode_bytes (a # b # c # d # _) =
     (if a < 128 then (a, 1)
      else if 194 \<le> a \<and> a \<le> 223 \<and> cont b then ((a - 192) * 64 + (b - 128), 2)
      else if 224 \<le> a \<and> a \<le> 239 \<and> cont b \<and> cont c \<and> (a = 224 \<longrightarrow> 160 \<le> b) \<and> (a = 237 \<longrightarrow> b \<le> 159)
      then (((a - 224) * 64 + (b - 128)) * 64 + (c - 128), 3)
      else if 240 \<le> a \<and> a \<le> 244 \<and> cont b \<and> cont c \<and> cont d \<and> (a = 240 \<longrightarrow> 144 \<le> b) \<and> (a = 244 \<longrightarrow> b \<le> 143)
      then ((((a - 240) * 64 + (b - 128)) * 64 + (c - 128)) * 64 + (d - 128), 4)
      else (65533, 1))"
| "decode_bytes _ = (65533, 1)"

text \<open>A shorter string is padded: a zero byte continues nothing.\<close>

definition DecodeRune :: "string \<Rightarrow> nat \<times> nat" where
  "DecodeRune s = decode_bytes (map byte s @ [0, 0, 0])"

lemma DecodeRune_ascii: "byte c < 128 \<Longrightarrow> DecodeRune (c # s) = (byte c, 1)"
  by (cases "map byte s @ [0, 0, 0]" rule: list.exhaust; cases "tl (map byte s @ [0, 0, 0])"; cases "tl (tl (map byte s @ [0, 0, 0]))")
    (auto simp: DecodeRune_def append_eq_Cons_conv)

section \<open>Patterns\<close>

datatype glob = GStar | GAny | GLit char | GClass bool "(nat \<times> nat) list"

definition drop_rune :: "string \<Rightarrow> nat \<times> string" where
  "drop_rune s = (fst (DecodeRune s), drop (snd (DecodeRune s)) s)"

text \<open>\<^verbatim>\<open>getEsc\<close>: one end of a range; the class may not end after it.\<close>

definition getEsc :: "string \<Rightarrow> (nat \<times> string) option" where
  "getEsc chunk = (case chunk of [] \<Rightarrow> None | c # rest \<Rightarrow>
     if c = CHR ''-'' \<or> c = CHR '']'' then None
     else let s = (if c = CHR 0x5C then rest else chunk)
          in if s = [] then None
             else if DecodeRune s = (65533, 1) then None
             else let (r, s') = drop_rune s in if s' = [] then None else Some (r, s'))"

lemma decode_bytes_pos: "0 < snd (decode_bytes bs)"
  by (induction bs rule: decode_bytes.induct) auto

lemma drop_rune_shorter: "s \<noteq> [] \<Longrightarrow> length (snd (drop_rune s)) < length s"
  using decode_bytes_pos [of "map byte s @ [0, 0, 0]"] by (simp add: drop_rune_def DecodeRune_def)

lemma getEsc_shorter: "getEsc s = Some (r, s') \<Longrightarrow> length s' < length s"
proof -
  assume e: "getEsc s = Some (r, s')"
  then obtain c rest where s: "s = c # rest" by (cases s) (auto simp: getEsc_def)
  let ?t = "if c = CHR 0x5C then rest else s"
  have "?t \<noteq> []" "s' = snd (drop_rune ?t)" using e s by (auto simp: getEsc_def Let_def split: if_splits prod.splits)
  then have "length s' < length ?t" using drop_rune_shorter by metis
  then show ?thesis using s by (auto split: if_splits)
qed

text \<open>The ranges of a class, at least one, up to the closing bracket.\<close>

function parse_ranges :: "string \<Rightarrow> (nat \<times> nat) list \<Rightarrow> ((nat \<times> nat) list \<times> string) option" where
  "parse_ranges s acc =
     (if s \<noteq> [] \<and> hd s = CHR '']'' \<and> acc \<noteq> [] then Some (rev acc, tl s)
      else case getEsc s of None \<Rightarrow> None
        | Some (lo, s1) \<Rightarrow>
            if s1 \<noteq> [] \<and> hd s1 = CHR ''-'' then (case getEsc (tl s1) of None \<Rightarrow> None
                | Some (hi, s2) \<Rightarrow> parse_ranges s2 ((lo, hi) # acc))
            else parse_ranges s1 ((lo, lo) # acc))"
  by pat_completeness auto
termination
proof (relation "measure (\<lambda>(s, acc). length s)")
  fix s acc lo s1 hi s2 p q
  assume "getEsc s = Some p" "(lo, s1) = p" "getEsc (tl s1) = Some q" "(hi, s2) = q"
  then have "length s1 < length s" "length s2 < length (tl s1)" by (auto dest: getEsc_shorter)
  then show "((s2, (lo, hi) # acc), s, acc) \<in> measure (\<lambda>(s, acc). length s)" by simp
qed (auto dest: getEsc_shorter)

declare parse_ranges.simps [simp del]

lemma parse_ranges_shorter: "parse_ranges s acc = Some (rs, s') \<Longrightarrow> length s' < length s"
proof (induction s acc rule: parse_ranges.induct)
  case (1 s acc)
  show ?case
  proof (cases "s \<noteq> [] \<and> hd s = CHR '']'' \<and> acc \<noteq> []")
    case True
    then show ?thesis using 1(3) by (subst (asm) parse_ranges.simps) auto
  next
    case False
    then obtain lo s1 where e: "getEsc s = Some (lo, s1)" using 1(3) by (subst (asm) parse_ranges.simps) (auto split: option.splits)
    show ?thesis
    proof (cases "s1 \<noteq> [] \<and> hd s1 = CHR ''-''")
      case True
      then obtain hi s2 where e2: "getEsc (tl s1) = Some (hi, s2)" and p: "parse_ranges s2 ((lo, hi) # acc) = Some (rs, s')"
        using 1(3) False e by (subst (asm) parse_ranges.simps) (auto split: option.splits)
      have "length s' < length s2" using 1(1) [OF False e _ True e2 _ p] by simp
      then show ?thesis using getEsc_shorter [OF e] getEsc_shorter [OF e2] by simp
    next
      case ne: False
      then have p: "parse_ranges s1 ((lo, lo) # acc) = Some (rs, s')"
        using 1(3) False e by (subst (asm) parse_ranges.simps) auto
      have "length s' < length s1" using 1(2) [OF False e _ ne p] by simp
      then show ?thesis using getEsc_shorter [OF e] by simp
    qed
  qed
qed

text \<open>The pattern as a list of parts; nothing for a malformed one (\<^verbatim>\<open>ErrBadPattern\<close>).\<close>

function parse_glob :: "string \<Rightarrow> glob list option" where
  "parse_glob [] = Some []"
| "parse_glob (c # p) =
     (if c = CHR ''*'' then map_option ((#) GStar) (parse_glob p)
      else if c = CHR ''?'' then map_option ((#) GAny) (parse_glob p)
      else if c = CHR ''['' then
        (let neg = (p \<noteq> [] \<and> hd p = CHR ''^'')
         in case parse_ranges (if neg then tl p else p) [] of None \<Rightarrow> None
            | Some (rs, p') \<Rightarrow> map_option ((#) (GClass neg rs)) (parse_glob p'))
      else if c = CHR 0x5C then (case p of [] \<Rightarrow> None | d # p' \<Rightarrow> map_option ((#) (GLit d)) (parse_glob p'))
      else map_option ((#) (GLit c)) (parse_glob p))"
  by pat_completeness auto
termination
proof (relation "measure length")
  fix c :: char and p :: string and neg q rs p'
  assume "parse_ranges (if neg then tl p else p) [] = Some q" "(rs, p') = q"
  then have "length p' < length (if neg then tl p else p)" using parse_ranges_shorter by blast
  then show "(p', c # p) \<in> measure length" by (auto split: if_splits)
qed auto

section \<open>Matching\<close>

fun match_chunk :: "glob list \<Rightarrow> string \<Rightarrow> string option" where
  "match_chunk [] s = Some s"
| "match_chunk (g # gs) [] = None"
| "match_chunk (GLit c # gs) (d # s) = (if c = d then match_chunk gs s else None)"
| "match_chunk (GAny # gs) (d # s) = (if d = CHR ''/'' then None else match_chunk gs (snd (drop_rune (d # s))))"
| "match_chunk (GClass neg rs # gs) (d # s) = (let (r, s') = drop_rune (d # s)
     in if list_ex (\<lambda>(lo, hi). lo \<le> r \<and> r \<le> hi) rs \<noteq> neg then match_chunk gs s' else None)"
| "match_chunk (GStar # gs) s = None"

text \<open>The leftmost place, after one skipped byte at least, where a chunk fits; at the end of the pattern it has to
  fit up to the end of the name.\<close>

definition fits :: "bool \<Rightarrow> glob list \<Rightarrow> string \<Rightarrow> string option" where
  "fits final chunk s = (case match_chunk chunk s of Some t \<Rightarrow> if t = [] \<or> \<not> final then Some t else None | None \<Rightarrow> None)"

fun skip_match :: "bool \<Rightarrow> glob list \<Rightarrow> string \<Rightarrow> string option" where
  "skip_match final chunk [] = None"
| "skip_match final chunk (c # s) = (if c = CHR ''/'' then None
     else case fits final chunk s of Some t \<Rightarrow> Some t | None \<Rightarrow> skip_match final chunk s)"

lemma dropWhile_twice: "length (dropWhile P (dropWhile Q xs)) \<le> length xs"
  by (rule le_trans [OF length_dropWhile_le length_dropWhile_le])

function glob_match :: "glob list \<Rightarrow> string \<Rightarrow> bool" where
  "glob_match [] name = (name = [])"
| "glob_match (g # gs) name =
     (let star = (g = GStar);
          gs1 = dropWhile (\<lambda>x. x = GStar) (g # gs);
          chunk = takeWhile (\<lambda>x. x \<noteq> GStar) gs1;
          rest = dropWhile (\<lambda>x. x \<noteq> GStar) gs1
      in if star \<and> chunk = [] then CHR ''/'' \<notin> set name
         else case fits (rest = []) chunk name of
            Some t \<Rightarrow> glob_match rest t
          | None \<Rightarrow> (if star then (case skip_match (rest = []) chunk name of Some t \<Rightarrow> glob_match rest t | None \<Rightarrow> False) else False))"
  by pat_completeness auto
termination
  by (relation "measure (\<lambda>(gs, name). length gs)") (auto simp: less_Suc_eq_le dropWhile_twice length_dropWhile_le)

text \<open>\<^verbatim>\<open>path.Match\<close>: an error for a malformed pattern.\<close>

definition path_Match :: "string \<Rightarrow> string \<Rightarrow> bool res" where
  "path_Match pat name = (case parse_glob pat of
     None \<Rightarrow> Err (LibErr ''syntax error in pattern'') | Some gs \<Rightarrow> Ok (glob_match gs name))"

section \<open>Patterns without special characters, and the star\<close>

definition literal :: "string \<Rightarrow> bool" where
  "literal p \<longleftrightarrow> list_all (\<lambda>c. c \<notin> {CHR ''*'', CHR ''?'', CHR ''['', CHR 0x5C}) p"

lemma parse_literal: "literal p \<Longrightarrow> parse_glob p = Some (map GLit p)"
  by (induction p) (auto simp: literal_def)

lemma match_literal: "match_chunk (map GLit p) s = (if HasPrefix s p then Some (drop (length p) s) else None)"
proof (induction p arbitrary: s)
  case (Cons c p)
  then show ?case by (cases s) (auto simp: HasPrefix_def)
qed (simp add: HasPrefix_def)

lemma literal_chunk: "takeWhile (\<lambda>x. x \<noteq> GStar) (map GLit p) = map GLit p" "dropWhile (\<lambda>x. x \<noteq> GStar) (map GLit p) = []"
  by (induction p) auto

lemma glob_match_literal: "glob_match (map GLit p) s \<longleftrightarrow> s = p"
proof (cases p)
  case (Cons c cs)
  have "glob_match (map GLit p) s \<longleftrightarrow> fits True (map GLit p) s = Some []"
    by (auto simp: Cons Let_def fits_def literal_chunk split: option.splits if_splits)
  also have "\<dots> \<longleftrightarrow> s = p"
    unfolding fits_def match_literal by (auto simp: HasPrefix_iff)
  finally show ?thesis .
qed simp

theorem path_Match_literal: "literal p \<Longrightarrow> path_Match p s = Ok (s = p)"
  by (simp add: path_Match_def parse_literal glob_match_literal)

theorem path_Match_star: "path_Match ''*'' s = Ok (CHR ''/'' \<notin> set s)"
  by (simp add: path_Match_def)

end
