(* ===== verification/Utf8.thy ===== *)
theory Utf8
  imports GoGlob
begin

text \<open>
  Go's conversions between a string and its code points, \<^verbatim>\<open>[]rune(s)\<close> and \<^verbatim>\<open>string(r)\<close>: a byte that is no UTF-8 is read as
  the replacement character. Writing code points and reading them again gives them back, so cutting a
  text at a code point never breaks one.
\<close>

section \<open>Writing a code point\<close>

definition valid_rune :: "nat \<Rightarrow> bool" where
  "valid_rune r \<longleftrightarrow> r < 55296 \<or> 57344 \<le> r \<and> r \<le> 1114111"

definition rune_bytes :: "nat \<Rightarrow> nat list" where
  "rune_bytes r =
     (if r < 128 then [r]
      else if r < 2048 then [192 + r div 64, 128 + r mod 64]
      else if r < 65536 then [224 + r div 4096, 128 + r div 64 mod 64, 128 + r mod 64]
      else [240 + r div 262144, 128 + r div 4096 mod 64, 128 + r div 64 mod 64, 128 + r mod 64])"

text \<open>A code point that is none is written as the replacement character.\<close>

definition encode_rune :: "nat \<Rightarrow> string" where
  "encode_rune r = map char_of (rune_bytes (if valid_rune r then r else 65533))"

text \<open>\<^verbatim>\<open>string(rs)\<close>.\<close>

definition of_runes :: "nat list \<Rightarrow> string" where
  "of_runes rs = concat (map encode_rune rs)"

lemma of_runes_simps [simp]: "of_runes [] = []" "of_runes (r # rs) = encode_rune r @ of_runes rs"
  "of_runes (rs @ ss) = of_runes rs @ of_runes ss"
  by (simp_all add: of_runes_def)

section \<open>Reading the code points\<close>

function runes :: "string \<Rightarrow> nat list" where
  "runes s = (if s = [] then [] else let (r, s') = drop_rune s in r # runes s')"
  by pat_completeness auto
termination
proof (relation "measure length")
  fix s :: string and p r s'
  assume "s \<noteq> []" "p = drop_rune s" "(r, s') = p"
  then show "(s', s) \<in> measure length" using drop_rune_shorter [of s] by (metis in_measure snd_conv)
qed simp

declare runes.simps [simp del]

lemma runes_Nil [simp]: "runes [] = []"
  by (subst runes.simps) simp

lemma runes_Cons: "s \<noteq> [] \<Longrightarrow> runes s = fst (DecodeRune s) # runes (drop (snd (DecodeRune s)) s)"
  by (subst runes.simps) (simp add: drop_rune_def)

lemma runes_eq_Nil [simp]: "runes s = [] \<longleftrightarrow> s = []"
  by (cases "s = []") (simp_all add: runes_Cons)

section \<open>Reading what was written\<close>

lemma byte_char_of: "n < 256 \<Longrightarrow> byte (char_of n) = n"
  by (simp add: byte_def)

lemma rune_bytes_small: "r \<le> 1114111 \<Longrightarrow> b \<in> set (rune_bytes r) \<Longrightarrow> b < 256"
proof -
  assume r: "r \<le> 1114111" and b: "b \<in> set (rune_bytes r)"
  have m: "r mod 64 < 64" "r div 64 mod 64 < 64" "r div 4096 mod 64 < 64" by simp_all
  show "b < 256" using r b m
    by (auto simp: rune_bytes_def split: if_splits; presburger)
qed

lemma base64_two: "r = (r div 4096 * 64 + r div 64 mod 64) * 64 + r mod 64" for r :: nat
  using div_mult2_eq [of r 64 64] div_mult_mod_eq [of "r div 64" 64] div_mult_mod_eq [of r 64] by simp

lemma base64_three: "r = ((r div 262144 * 64 + r div 4096 mod 64) * 64 + r div 64 mod 64) * 64 + r mod 64" for r :: nat
  using div_mult2_eq [of r 4096 64] div_mult_mod_eq [of "r div 4096" 64] base64_two [of r] by simp

lemma three_digits:
  fixes x y z :: nat
  assumes "y < 64" "z < 64" "2048 \<le> (x * 64 + y) * 64 + z" "valid_rune ((x * 64 + y) * 64 + z)"
  shows "(x = 0 \<longrightarrow> 32 \<le> y) \<and> (x = 13 \<longrightarrow> y \<le> 31)"
proof (intro conjI impI)
  show "32 \<le> y" if "x = 0" using assms(2,3) that by simp
  show "y \<le> 31" if "x = 13" using assms(1,2,4) that by (auto simp: valid_rune_def)
qed

lemma four_digits:
  fixes x y z w :: nat
  assumes "y < 64" "z < 64" "w < 64" "65536 \<le> ((x * 64 + y) * 64 + z) * 64 + w" "((x * 64 + y) * 64 + z) * 64 + w \<le> 1114111"
  shows "(x = 0 \<longrightarrow> 16 \<le> y) \<and> (x = 4 \<longrightarrow> y \<le> 15)"
proof (intro conjI impI)
  show "16 \<le> y" if "x = 0" using assms(2-4) that by simp
  show "y \<le> 15" if "x = 4" using assms(2,3,5) that by simp
qed

lemma decode_rune_bytes:
  assumes "valid_rune r"
  shows "decode_bytes (rune_bytes r @ bs @ [0, 0, 0]) = (r, length (rune_bytes r))"
proof -
  obtain x y z w where p: "bs @ [0, 0, 0] = x # y # z # w" by (cases bs; cases "tl bs"; cases "tl (tl bs)") auto
  have "r \<le> 1114111" using assms by (auto simp: valid_rune_def)
  then consider "r < 128" | "128 \<le> r" "r < 2048" | "2048 \<le> r" "r < 65536" | "65536 \<le> r" "r \<le> 1114111"
    by (meson not_le)
  then show ?thesis
  proof cases
    case 1
    then show ?thesis unfolding p by (simp add: rune_bytes_def)
  next
    case 2
    then have "2 \<le> r div 64" "r div 64 < 32" by auto
    then show ?thesis using 2 unfolding p by (simp add: rune_bytes_def cont_def)
  next
    case 3
    let ?a = "r div 4096" and ?b = "r div 64 mod 64" and ?c = "r mod 64"
    have a: "?a < 16" using 3 by auto
    have e: "r = (?a * 64 + ?b) * 64 + ?c" by (rule base64_two)
    have m: "?b < 64" "?c < 64" by simp_all
    have "?a = 0 \<longrightarrow> 32 \<le> ?b" "?a = 13 \<longrightarrow> ?b \<le> 31"
      using three_digits [OF m, of ?a, folded e] 3 assms by blast+
    then show ?thesis using 3 a e unfolding p by (auto simp: rune_bytes_def cont_def)
  next
    case 4
    let ?a = "r div 262144" and ?b = "r div 4096 mod 64" and ?c = "r div 64 mod 64" and ?d = "r mod 64"
    have a: "?a < 5" using 4 by auto
    have e: "r = ((?a * 64 + ?b) * 64 + ?c) * 64 + ?d" by (rule base64_three)
    have m: "?b < 64" "?c < 64" "?d < 64" by simp_all
    have "?a = 0 \<longrightarrow> 16 \<le> ?b" "?a = 4 \<longrightarrow> ?b \<le> 15" using four_digits [OF m, of ?a, folded e] 4 by blast+
    then show ?thesis using 4 a e unfolding p by (auto simp: rune_bytes_def cont_def)
  qed
qed

lemma encode_rune_bytes: "valid_rune r \<Longrightarrow> map byte (encode_rune r) = rune_bytes r"
proof -
  assume v: "valid_rune r"
  then have "r \<le> 1114111" by (auto simp: valid_rune_def)
  then have "map (byte \<circ> char_of) (rune_bytes r) = map id (rune_bytes r)"
    by (intro map_cong) (auto dest: rune_bytes_small simp: byte_char_of)
  then show ?thesis using v by (simp add: encode_rune_def)
qed

lemma DecodeRune_encode:
  assumes "valid_rune r"
  shows "DecodeRune (encode_rune r @ s) = (r, length (encode_rune r))"
proof -
  have "length (encode_rune r) = length (rune_bytes r)" using encode_rune_bytes [OF assms] by (metis length_map)
  then show ?thesis using decode_rune_bytes [OF assms, of "map byte s"]
    by (simp add: DecodeRune_def encode_rune_bytes [OF assms])
qed

lemma encode_rune_neq_Nil [simp]: "encode_rune r \<noteq> []"
  by (simp add: encode_rune_def rune_bytes_def)

lemma runes_encode: "valid_rune r \<Longrightarrow> runes (encode_rune r @ s) = r # runes s"
  by (simp add: runes_Cons DecodeRune_encode)

lemma runes_of_runes: "list_all valid_rune rs \<Longrightarrow> runes (of_runes rs @ s) = rs @ runes s"
  by (induction rs) (simp_all add: runes_encode)

lemmas runes_of_runes_only = runes_of_runes [where s = "[]", simplified]

section \<open>What is read is valid\<close>

lemma two_bytes_valid: "a \<le> 223 \<Longrightarrow> cont b \<Longrightarrow> valid_rune ((a - 192) * 64 + (b - 128))"
  unfolding valid_rune_def cont_def by presburger

lemma three_bytes_valid:
  assumes "224 \<le> a" "a \<le> 239" "cont b" "cont c" "a = 237 \<longrightarrow> b \<le> 159"
  shows "valid_rune (((a - 224) * 64 + (b - 128)) * 64 + (c - 128))"
proof -
  define x y z where "x = a - 224" and "y = b - 128" and "z = c - 128"
  have s: "x \<le> 15" "y \<le> 63" "z \<le> 63" "x = 13 \<Longrightarrow> y \<le> 31" using assms by (auto simp: cont_def x_def y_def z_def)
  have "(x * 64 + y) * 64 + z < 55296 \<or> 57344 \<le> (x * 64 + y) * 64 + z \<and> (x * 64 + y) * 64 + z \<le> 1114111"
  proof (cases "x \<le> 12")
    case False
    then have "x = 13 \<or> 14 \<le> x" by auto
    then show ?thesis
    proof
      assume "x = 13"
      then show ?thesis using s(3,4) by simp
    next
      assume "14 \<le> x"
      then have "57344 \<le> (x * 64 + y) * 64 + z" by presburger
      moreover have "(x * 64 + y) * 64 + z \<le> 1114111" using s(1-3) by simp
      ultimately show ?thesis by blast
    qed
  qed (use s in simp)
  then have "valid_rune ((x * 64 + y) * 64 + z)" by (simp only: valid_rune_def)
  then show ?thesis by (simp add: x_def y_def z_def)
qed

lemma four_bytes_valid:
  assumes "240 \<le> a" "a \<le> 244" "cont b" "cont c" "cont d" "a = 240 \<longrightarrow> 144 \<le> b" "a = 244 \<longrightarrow> b \<le> 143"
  shows "valid_rune ((((a - 240) * 64 + (b - 128)) * 64 + (c - 128)) * 64 + (d - 128))"
proof -
  define x y z w where "x = a - 240" and "y = b - 128" and "z = c - 128" and "w = d - 128"
  have s: "x \<le> 4" "y \<le> 63" "z \<le> 63" "w \<le> 63" "x = 0 \<Longrightarrow> 16 \<le> y" "x = 4 \<Longrightarrow> y \<le> 15"
    using assms by (auto simp: cont_def x_def y_def z_def w_def)
  have "57344 \<le> ((x * 64 + y) * 64 + z) * 64 + w"
  proof (cases "x = 0")
    case True
    then show ?thesis using s(5) by simp
  next
    case False
    then show ?thesis by (cases x) (simp_all add: add_mult_distrib)
  qed
  moreover have "((x * 64 + y) * 64 + z) * 64 + w \<le> 1114111"
  proof (cases "x = 4")
    case True
    then show ?thesis using s(3,4,6) by simp
  next
    case False
    then have "x \<le> 3" using s(1) by simp
    then show ?thesis using s(2-4) by simp
  qed
  ultimately have "valid_rune (((x * 64 + y) * 64 + z) * 64 + w)" unfolding valid_rune_def by blast
  then show ?thesis by (simp add: x_def y_def z_def w_def)
qed

lemma decode_bytes_valid: "valid_rune (fst (decode_bytes bs))"
proof (induction bs rule: decode_bytes.induct)
  case (1 a b c d v)
  have one: "a < 128 \<Longrightarrow> valid_rune a" "valid_rune 65533" by (simp_all add: valid_rune_def)
  have branch: "valid_rune (fst (if P then x else y))" if "P \<Longrightarrow> valid_rune (fst x)" "\<not> P \<Longrightarrow> valid_rune (fst y)"
    for P and x y :: "nat \<times> nat" using that by simp
  show ?case unfolding decode_bytes.simps
    by (intro branch; simp only: fst_conv; use one in \<open>blast intro: two_bytes_valid three_bytes_valid four_bytes_valid\<close>)
qed (simp_all add: valid_rune_def)

lemma runes_valid: "list_all valid_rune (runes s)"
proof (induction s rule: runes.induct)
  case (1 s)
  show ?case
  proof (cases "s = []")
    case False
    then have "list_all valid_rune (runes (drop (snd (DecodeRune s)) s))" using 1 [of "drop_rune s"] by (simp add: drop_rune_def)
    moreover have "valid_rune (fst (DecodeRune s))" using decode_bytes_valid by (simp add: DecodeRune_def)
    ultimately show ?thesis using False by (simp add: runes_Cons)
  qed simp
qed

lemma runes_slice: "runes (of_runes (drop i (take j (runes s)))) = drop i (take j (runes s))"
  using runes_valid [of s] by (intro runes_of_runes_only) (auto simp: list_all_iff dest: in_set_dropD in_set_takeD)

lemma runes_ascii: "list_all (\<lambda>c. byte c < 128) s \<Longrightarrow> runes (s @ t) = map byte s @ runes t"
  by (induction s) (simp_all add: runes_Cons DecodeRune_ascii)

lemma runes_prefix: "runes (of_runes (take j (runes s)) @ t) = take j (runes s) @ runes t"
  using runes_valid [of s] by (intro runes_of_runes) (auto simp: list_all_iff dest: in_set_takeD)

end
