(* ===== verification/TuiView.thy ===== *)
theory TuiView
  imports TuiList Utf8
begin

text \<open>
  What the two lists draw (\<^verbatim>\<open>View\<close>, \<^verbatim>\<open>renderLeft\<close>, \<^verbatim>\<open>renderRight\<close> and \<^verbatim>\<open>truncate\<close> of \<^verbatim>\<open>pkg/tui/model.go\<close>,
  \<^verbatim>\<open>highlightMatches\<close> of \<^verbatim>\<open>fuzzy.go\<close>, \<^verbatim>\<open>View\<close> of \<^verbatim>\<open>list.go\<close>). A row is a list of pieces, a style with a text; how a style
  paints its text and how two blocks are put side by side is the library's. Widths are counted in code points, as
  the code counts them.
\<close>

section \<open>Styles and pieces\<close>

text \<open>The styles of \<^verbatim>\<open>model.go\<close>; \<^verbatim>\<open>StylePlain\<close> is \<^verbatim>\<open>lipgloss.NewStyle()\<close>.\<close>

datatype style = StyleCursor | StyleSelected | StyleDim | StyleDimSuffix | StyleCount | StyleBorder | StylePreview
  | StyleLoading | StyleMatch | StylePlain

datatype piece = Raw string | Styled style string

text \<open>The libraries of the list with \<^verbatim>\<open>textinput.View\<close>, \<^verbatim>\<open>Style.Render\<close> and \<^verbatim>\<open>lipgloss.JoinHorizontal\<close> at the top.\<close>

record 'i view_libs = "'i tui_libs" +
  vl_View :: "'i \<Rightarrow> string"
  vl_Render :: "style \<Rightarrow> string \<Rightarrow> string"
  vl_JoinHorizontal :: "string \<Rightarrow> string \<Rightarrow> string"

primrec paint_piece :: "(style \<Rightarrow> string \<Rightarrow> string) \<Rightarrow> piece \<Rightarrow> string" where
  "paint_piece R (Raw s) = s"
| "paint_piece R (Styled st s) = R st s"

definition paint :: "(style \<Rightarrow> string \<Rightarrow> string) \<Rightarrow> piece list \<Rightarrow> string" where
  "paint R ps = concat (map (paint_piece R) ps)"

primrec piece_text :: "piece \<Rightarrow> string" where
  "piece_text (Raw s) = s"
| "piece_text (Styled st s) = s"

text \<open>The code points a row takes.\<close>

definition row_width :: "piece list \<Rightarrow> nat" where
  "row_width ps = sum_list (map (\<lambda>p. length (runes (piece_text p))) ps)"

section \<open>Cutting and marking a text\<close>

definition truncate_text :: "string \<Rightarrow> int \<Rightarrow> string" where
  "truncate_text s mx =
     (if mx \<le> 0 then []
      else let r = runes s
           in if int (length r) \<le> mx then s
              else if mx \<le> 2 then of_runes (take (nat mx) r)
              else of_runes (take (nat (mx - 2)) r) @ ''..'')"

text \<open>
  \<^verbatim>\<open>highlightMatches\<close>: the loop keeps whether it is in a match, where the segment starts and what is written; an
  empty segment is not written.
\<close>

definition flush_seg :: "nat list \<Rightarrow> style \<Rightarrow> style \<Rightarrow> nat \<Rightarrow> nat \<Rightarrow> bool \<Rightarrow> piece list \<Rightarrow> piece list" where
  "flush_seg rs baseStyle hlStyle segStart end wasMatch sb =
     (if segStart \<ge> end then sb
      else sb @ [Styled (if wasMatch then hlStyle else baseStyle) (of_runes (drop segStart (take end rs)))])"

definition mark_step :: "nat list \<Rightarrow> nat list \<Rightarrow> style \<Rightarrow> style \<Rightarrow> nat \<Rightarrow> bool \<times> nat \<times> piece list \<Rightarrow> bool \<times> nat \<times> piece list" where
  "mark_step rs indexes baseStyle hlStyle i = (\<lambda>(inMatch, segStart, sb).
     let isMatch = (i \<in> set indexes)
     in if i = 0 then (isMatch, segStart, sb)
        else if isMatch \<noteq> inMatch then (isMatch, i, flush_seg rs baseStyle hlStyle segStart i inMatch sb)
        else (inMatch, segStart, sb))"

definition highlightMatches :: "string \<Rightarrow> nat list \<Rightarrow> style \<Rightarrow> style \<Rightarrow> piece list" where
  "highlightMatches s indexes baseStyle hlStyle =
     (if indexes = [] then [Styled baseStyle s]
      else let rs = runes s;
               (inMatch, segStart, sb) = fold (mark_step rs indexes baseStyle hlStyle) [0..<length rs] (False, 0, [])
           in flush_seg rs baseStyle hlStyle segStart (length rs) inMatch sb)"

section \<open>The rows of the context list\<close>

definition treePrefix :: "item \<Rightarrow> string" where
  "treePrefix it = concat (replicate (it_depth it) ''  '') @
     (if it_isLoading it then [CHR 0xE2, CHR 0x9F, CHR 0xB3, CHR 0x20]
      else if it_expanded it then [CHR 0xE2, CHR 0x96, CHR 0xBC, CHR 0x20]
      else if it_expandedEmpty it then [CHR 0xE2, CHR 0x8A, CHR 0x9D, CHR 0x20]
      else if it_depth it > 0 then ''  '' else [])"

definition primaryW :: "int \<Rightarrow> item \<Rightarrow> int" where
  "primaryW width it =
     (let w = width - 3 - int (length (runes (treePrefix it)))
      in if it_dimSuffix it \<noteq> [] then
           let v = w - (int (length (runes (it_dimSuffix it))) + 1) in if v < 1 then 1 else v
         else w)"

text \<open>The matched positions of the name, and those of the suffix, which begins behind a space.\<close>

definition primaryIdx :: "item \<Rightarrow> nat list" where
  "primaryIdx it = filter (\<lambda>i. i \<le> length (runes (it_displayName it))) (it_matchedIndexes it)"

definition suffixIdx :: "item \<Rightarrow> nat list" where
  "suffixIdx it = map (\<lambda>i. i - length (runes (it_displayName it)) - 1)
     (filter (\<lambda>i. \<not> i \<le> length (runes (it_displayName it))) (it_matchedIndexes it))"

definition item_row :: "int \<Rightarrow> bool \<Rightarrow> item \<Rightarrow> piece list" where
  "item_row width at_cur it =
     (let name = truncate_text (it_displayName it) (primaryW width it)
      in if at_cur then
           [Styled StyleCursor ''> '', Styled StyleDim (treePrefix it)] @
           highlightMatches name (primaryIdx it) StyleSelected StyleSelected @
           (if it_dimSuffix it \<noteq> [] then Raw '' '' # highlightMatches (it_dimSuffix it) (suffixIdx it) StyleDimSuffix StyleSelected else [])
         else
           [Styled StyleDim ''  '', Styled StyleDim (treePrefix it)] @
           highlightMatches name (primaryIdx it) StylePlain StyleMatch @
           (if it_dimSuffix it \<noteq> [] then Raw '' '' # highlightMatches (it_dimSuffix it) (suffixIdx it) StyleDimSuffix StyleMatch else []))"

text \<open>The rows of a window, from the top; indexing out of range is a panic. Padding comes on top.\<close>

definition window_rows :: "(bool \<Rightarrow> 'a \<Rightarrow> piece list) \<Rightarrow> 'a list \<Rightarrow> int \<Rightarrow> int \<Rightarrow> int \<Rightarrow> piece list list res" where
  "window_rows row xs cursor viewOffset lh =
     (let start = viewOffset; end = min (start + lh) (int (length xs))
      in mapR (\<lambda>rows. replicate (nat (lh - int (length rows))) [] @ rows)
           (foldR (\<lambda>i rows. mapR (\<lambda>it. rows @ [row (i = cursor) it]) (at_cursor xs i)) (rev [start..end - 1]) []))"

text \<open>\<^verbatim>\<open>strings.Repeat\<close> panics on a negative count.\<close>

definition Repeat :: "string \<Rightarrow> int \<Rightarrow> string res" where
  "Repeat s n = (if n < 0 then Panic ''strings: negative Repeat count'' else Ok (concat (replicate (nat n) s)))"

definition count_text :: "nat \<Rightarrow> nat \<Rightarrow> string" where
  "count_text shown n = itoa shown @ ''/'' @ itoa n"

definition frame :: "(style \<Rightarrow> string \<Rightarrow> string) \<Rightarrow> int \<Rightarrow> string \<Rightarrow> piece list list \<Rightarrow> string res" where
  "frame R width inputLine rows = mapR (\<lambda>line.
     Join (map (paint R) rows) [CHR 0x0A] @ [CHR 0x0A] @ R StyleBorder line @ [CHR 0x0A] @ inputLine)
     (Repeat [CHR 0xE2, CHR 0x94, CHR 0x80] width)"

definition input_view :: "('i, 'z) view_libs_scheme \<Rightarrow> 'i \<Rightarrow> string \<Rightarrow> string" where
  "input_view L inp query = vl_View L inp @ (if query = [] then vl_Render L StyleDim ''type to filter...'' else [])"

definition renderLeft :: "('i, 'z) view_libs_scheme \<Rightarrow> int \<Rightarrow> 'i model \<Rightarrow> string res" where
  "renderLeft L width m =
     bindR (window_rows (item_row width) (md_filtered m) (md_cursor m) (md_viewOffset m) (listHeight m)) (\<lambda>rows.
       let countStr = vl_Render L StyleCount (count_text (length (md_filtered m)) (length (md_allItems m)));
           loadStr = (if md_loading m then vl_Render L StyleLoading [CHR 0x20, CHR 0xE2, CHR 0x80, CHR 0xA6] else []);
           inputLine = input_view L (md_input m) (md_query m) @ ''  '' @ countStr @ loadStr
       in frame (vl_Render L) width inputLine rows)"

section \<open>The preview and the whole view\<close>

definition preview_lines :: "int \<Rightarrow> int \<Rightarrow> string \<Rightarrow> string list" where
  "preview_lines width height content =
     (let lns = Split content [CHR 0x0A]; maxLines = max (height - 1) 1
      in map (\<lambda>l. truncate_text l (width - 2)) (if int (length lns) > maxLines then take (nat maxLines) lns else lns))"

definition preview_row :: "string \<Rightarrow> piece list" where
  "preview_row l = [Styled StyleBorder [CHR 0xE2, CHR 0x94, CHR 0x82], Raw '' '', Styled StylePreview l]"

definition renderRight :: "('i, 'z) view_libs_scheme \<Rightarrow> int \<Rightarrow> 'i model \<Rightarrow> string" where
  "renderRight L width m =
     (if md_previewContent m = [] then
        if length (md_filtered m) = 0 then []
        else vl_Render L StyleDim (''loading preview'' @ [CHR 0xE2, CHR 0x80, CHR 0xA6])
      else Join (map (\<lambda>l. paint (vl_Render L) (preview_row l)) (preview_lines width (md_height m) (md_previewContent m))) [CHR 0x0A])"

definition View :: "('i, 'z) view_libs_scheme \<Rightarrow> 'i model \<Rightarrow> string res" where
  "View L m =
     (if md_width m = 0 then Ok []
      else let listW = (if md_showPreview m \<and> md_width m > 60 then md_width m * 2 div 5 else md_width m)
           in mapR (\<lambda>left.
                if \<not> md_showPreview m \<or> md_width m \<le> 60 then left
                else vl_JoinHorizontal L left (renderRight L (md_width m - listW) m)) (renderLeft L listW m))"

section \<open>The plain list\<close>

definition entry_row :: "int \<Rightarrow> bool \<Rightarrow> listEntry \<Rightarrow> piece list" where
  "entry_row width at_cur e =
     (let name = truncate_text (le_displayName e) (width - 3)
      in if at_cur then Styled StyleCursor ''> '' # highlightMatches name (le_matchedIndexes e) StyleSelected StyleSelected
         else Styled StyleDim ''  '' # highlightMatches name (le_matchedIndexes e) StylePlain StyleMatch)"

definition list_View :: "('i, 'z) view_libs_scheme \<Rightarrow> 'i listModel \<Rightarrow> string res" where
  "list_View L m =
     (if lm_width m = 0 then Ok []
      else bindR (window_rows (entry_row (lm_width m)) (lm_filtered m) (lm_cursor m) (lm_viewOffset m) (list_height m)) (\<lambda>rows.
        let countStr = vl_Render L StyleCount (count_text (length (lm_filtered m)) (length (lm_items m)));
            inputLine = input_view L (lm_input m) (lm_query m) @ ''  '' @ countStr
        in frame (vl_Render L) (lm_width m) inputLine rows))"

section \<open>What is marked\<close>

text \<open>Every code point with the style it is painted in; a raw text is plain.\<close>

definition painted :: "piece list \<Rightarrow> (style \<times> nat) list" where
  "painted ps = concat (map (\<lambda>p. case p of Raw s \<Rightarrow> map (Pair StylePlain) (runes s) | Styled st s \<Rightarrow> map (Pair st) (runes s)) ps)"

lemma painted_simps [simp]:
  "painted [] = []" "painted (ps @ qs) = painted ps @ painted qs" "painted [Styled st s] = map (Pair st) (runes s)"
  by (simp_all add: painted_def)

definition mark_at :: "nat list \<Rightarrow> nat list \<Rightarrow> style \<Rightarrow> style \<Rightarrow> nat \<Rightarrow> style \<times> nat" where
  "mark_at rs ix b h i = (if i \<in> set ix then h else b, rs ! i)"

text \<open>The loop before position \<^verbatim>\<open>i\<close>: the segment that is open lies in one kind, the ones before it are written.\<close>

definition marking :: "nat list \<Rightarrow> nat list \<Rightarrow> style \<Rightarrow> style \<Rightarrow> nat \<Rightarrow> bool \<times> nat \<times> piece list \<Rightarrow> bool" where
  "marking rs ix b h i = (\<lambda>(inMatch, segStart, sb). segStart \<le> i \<and> (\<forall>j. segStart \<le> j \<and> j < i \<longrightarrow> (j \<in> set ix) = inMatch) \<and>
     painted sb = map (mark_at rs ix b h) [0..<segStart] \<and> (0 < i \<longrightarrow> segStart < i))"

lemma slice_nth: "e \<le> length xs \<Longrightarrow> drop s (take e xs) = map ((!) xs) [s..<e]"
  by (rule nth_equalityI) (auto simp: nth_append)

lemma painted_flush:
  assumes "marking (runes s) ix b h e (inMatch, segStart, sb)" "e \<le> length (runes s)"
  shows "painted (flush_seg (runes s) b h segStart e inMatch sb) = map (mark_at (runes s) ix b h) [0..<e]"
proof (cases "segStart \<ge> e")
  case False
  have "[0..<e] = [0..<segStart] @ [segStart..<e]" using assms(1) by (metis (no_types, lifting) marking_def case_prod_conv upt_add_eq_append le_add_diff_inverse zero_le)
  moreover have "map (mark_at (runes s) ix b h) [segStart..<e] = map (Pair (if inMatch then h else b)) (map ((!) (runes s)) [segStart..<e])"
    using assms(1) by (auto simp: marking_def mark_at_def)
  moreover have "runes (of_runes (drop segStart (take e (runes s)))) = map ((!) (runes s)) [segStart..<e]"
    using runes_slice [of segStart e s] by (simp add: slice_nth [OF assms(2)])
  ultimately show ?thesis using assms False by (simp add: flush_seg_def marking_def del: map_map map_eq_conv)
qed (use assms in \<open>simp add: flush_seg_def marking_def\<close>)

lemma mark_step_marking:
  assumes "marking (runes s) ix b h i st" "i < length (runes s)"
  shows "marking (runes s) ix b h (Suc i) (mark_step (runes s) ix b h i st)"
proof -
  obtain inMatch segStart sb where st: "st = (inMatch, segStart, sb)" by (cases st)
  show ?thesis
  proof (cases "i = 0")
    case True
    then show ?thesis using assms unfolding st by (auto simp: marking_def mark_step_def Let_def)
  next
    case False
    show ?thesis
    proof (cases "(i \<in> set ix) = inMatch")
      case True
      then show ?thesis using assms False unfolding st by (auto simp: marking_def mark_step_def Let_def less_Suc_eq)
    next
      case ne: False
      have "painted (flush_seg (runes s) b h segStart i inMatch sb) = map (mark_at (runes s) ix b h) [0..<i]"
        by (rule painted_flush) (use assms st in simp_all)
      then show ?thesis using ne False unfolding st by (auto simp: marking_def mark_step_def Let_def less_Suc_eq)
    qed
  qed
qed

lemma fold_marking: "n \<le> length (runes s) \<Longrightarrow> marking (runes s) ix b h n (fold (mark_step (runes s) ix b h) [0..<n] (False, 0, []))"
  by (induction n) (simp_all add: mark_step_marking, simp add: marking_def)

text \<open>
  A text is painted whole and in order, and exactly its code points at the matched positions are painted in the style
  of a match: the loop over segments is the marking of each code point by itself.
\<close>

theorem highlightMatches_marks:
  "painted (highlightMatches s ix b h) = map (\<lambda>i. (if i \<in> set ix then h else b, runes s ! i)) [0..<length (runes s)]"
proof (cases "ix = []")
  case True
  then show ?thesis by (simp add: highlightMatches_def) (rule nth_equalityI; simp)
next
  case False
  obtain inMatch segStart sb where f: "fold (mark_step (runes s) ix b h) [0..<length (runes s)] (False, 0, []) = (inMatch, segStart, sb)"
    by (metis prod_cases3)
  then have "marking (runes s) ix b h (length (runes s)) (inMatch, segStart, sb)" using fold_marking [OF order_refl, of s] by metis
  then show ?thesis using False f painted_flush [of s ix b h "length (runes s)"]
    by (simp add: highlightMatches_def Let_def mark_at_def [abs_def])
qed

section \<open>How wide the rows are\<close>

lemma row_width_painted: "row_width ps = length (painted ps)"
  by (induction ps) (auto simp: row_width_def painted_def split: piece.split)

lemma row_width_simps [simp]:
  "row_width [] = 0" "row_width (p # ps) = length (runes (piece_text p)) + row_width ps" "row_width (ps @ qs) = row_width ps + row_width qs"
  by (simp_all add: row_width_def)

lemma painted_highlight: "painted (highlightMatches s ix b h) = map (mark_at (runes s) ix b h) [0..<length (runes s)]"
  using highlightMatches_marks [of s ix b h] by (simp add: mark_at_def [abs_def])

lemma row_width_highlight [simp]: "row_width (highlightMatches s ix b h) = length (runes s)"
  by (simp add: row_width_painted painted_highlight)

lemma runes_dots [simp]: "runes ''..'' = [46, 46]"
  using runes_ascii [of "''..''" "[]"] by (simp add: byte_def)

lemma runes_ascii_words [simp]: "runes ''> '' = [62, 32]" "runes ''  '' = [32, 32]" "runes '' '' = [32]"
  using runes_ascii [of "''> ''" "[]"] runes_ascii [of "''  ''" "[]"] runes_ascii [of "'' ''" "[]"] by (simp_all add: byte_def)

lemma runes_truncate:
  "runes (truncate_text s n) =
     (if int (length (runes s)) \<le> n then runes s
      else if n \<le> 2 then take (nat n) (runes s) else take (nat (n - 2)) (runes s) @ [46, 46])"
proof (cases "n \<le> 0")
  case True
  have "s = []" if "int (length (runes s)) \<le> n"
  proof -
    from that True have "length (runes s) = 0" by linarith
    then show ?thesis by simp
  qed
  then show ?thesis using True by (auto simp: truncate_text_def)
next
  case False
  have "runes (of_runes (take k (runes s))) = take k (runes s)" for k using runes_prefix [of k s "[]"] by simp
  then show ?thesis using False by (simp add: truncate_text_def Let_def runes_prefix)
qed

lemma length_truncate [simp]: "length (runes (truncate_text s n)) = min (length (runes s)) (nat n)"
  by (auto simp: runes_truncate)

text \<open>
  A text is cut to at most the given number of code points, never inside one: it stays as it is when it fits; else
  its beginning is kept, with two dots at the end when there is room for them.
\<close>

theorem truncate_text_runes:
  "runes (truncate_text s n) =
     (if int (length (runes s)) \<le> n then runes s
      else if n \<le> 2 then take (nat n) (runes s) else take (nat (n - 2)) (runes s) @ [46, 46]) \<and>
   length (runes (truncate_text s n)) = min (length (runes s)) (nat n)"
  by (rule conjI [OF runes_truncate length_truncate])

definition suffix_width :: "item \<Rightarrow> nat" where
  "suffix_width it = (if it_dimSuffix it = [] then 0 else length (runes (it_dimSuffix it)) + 1)"

lemma item_row_width:
  "row_width (item_row w c it) = 2 + length (runes (treePrefix it)) +
     min (length (runes (it_displayName it))) (nat (primaryW w it)) + suffix_width it"
  by (simp add: item_row_def Let_def suffix_width_def)

text \<open>
  A row of the context list keeps to its width, with one column left, exactly when the frame, the tree prefix and the
  suffix do (with one code point of the name where there is a suffix): only the name is ever cut, so a long suffix runs
  over.
\<close>

theorem item_row_fits:
  "int (row_width (item_row w c it)) \<le> w - 1 \<longleftrightarrow>
     int (2 + length (runes (treePrefix it)) + suffix_width it) +
       (if it_dimSuffix it = [] \<or> it_displayName it = [] then 0 else 1) \<le> w - 1"
proof -
  define f where "f = 2 + length (runes (treePrefix it)) + suffix_width it"
  define n where "n = length (runes (it_displayName it))"
  have n: "n = 0 \<longleftrightarrow> it_displayName it = []" by (simp add: n_def)
  have "primaryW w it = (if it_dimSuffix it = [] then w - 1 - int f else max 1 (w - 1 - int f))"
    by (simp add: primaryW_def Let_def f_def suffix_width_def)
  moreover have "row_width (item_row w c it) = f + min n (nat (primaryW w it))"
    by (simp add: item_row_width f_def n_def)
  ultimately show ?thesis unfolding f_def [symmetric] n [symmetric] by auto
qed

lemma entry_row_width: "row_width (entry_row w c e) = 2 + min (length (runes (le_displayName e))) (nat (w - 3))"
  by (simp add: entry_row_def Let_def)

section \<open>Which rows are shown\<close>

lemma foldR_rows:
  "(\<And>i. i \<in> set is \<Longrightarrow> 0 \<le> i \<and> i < int (length xs)) \<Longrightarrow>
     foldR (\<lambda>i rows. mapR (\<lambda>it. rows @ [row (i = c) it]) (at_cursor xs i)) is acc = Ok (acc @ map (\<lambda>i. row (i = c) (xs ! nat i)) is)"
  by (induction "is" arbitrary: acc) (simp_all add: at_cursor_def)

lemma window_rows_lines:
  assumes "0 \<le> v"
  shows "window_rows row xs c v lh =
    Ok (map (\<lambda>l. case l of None \<Rightarrow> [] | Some i \<Rightarrow> row (i = c) (xs ! nat i)) (view_lines v lh (length xs)))"
proof -
  have "i \<in> set (rev [v..min (v + lh) (int (length xs)) - 1]) \<Longrightarrow> 0 \<le> i \<and> i < int (length xs)" for i using assms by auto
  then show ?thesis
    by (simp only: window_rows_def Let_def foldR_rows mapR.simps view_lines_def) (simp add: comp_def map_replicate_const)
qed

lemma view_lines_nth:
  assumes "0 \<le> v" "0 < lh"
  shows "length (view_lines v lh n) = nat lh"
    and "k < nat lh \<Longrightarrow> view_lines v lh n ! k = (if v + lh - 1 - int k < int n then Some (v + lh - 1 - int k) else None)"
proof -
  define e where "e = min (v + lh) (int n)"
  let ?shown = "rev [v..e - 1]"
  have len: "length ?shown = nat (e - v)" by simp
  have e: "e - v \<le> lh" by (simp add: e_def)
  have vl: "view_lines v lh n = replicate (nat (lh - int (length ?shown))) None @ map Some ?shown"
    by (simp only: view_lines_def Let_def e_def [symmetric])
  then have "length (view_lines v lh n) = nat (lh - int (length ?shown)) + length ?shown"
    by (simp only: length_append length_replicate length_map)
  moreover have "int (length ?shown) \<le> lh" unfolding len using e assms(2) by simp
  ultimately show "length (view_lines v lh n) = nat lh" by linarith
  assume k: "k < nat lh"
  let ?p = "nat (lh - int (length ?shown))"
  show "view_lines v lh n ! k = (if v + lh - 1 - int k < int n then Some (v + lh - 1 - int k) else None)"
  proof (cases "k < ?p")
    case True
    then have "\<not> v + lh - 1 - int k < int n" using k assms by (auto simp: e_def min_def split: if_splits)
    then show ?thesis using True unfolding vl by (simp only: nth_append length_replicate nth_replicate if_True if_False)
  next
    case False
    then have ve: "v \<le> e" using k by (cases "v \<le> e") simp_all
    then have s: "k - ?p < length ?shown" using False k e assms by auto
    have p: "?p = nat (lh - (e - v))" using ve by simp
    have "?shown ! (k - ?p) = e - 1 - int (k - ?p)" using s ve by (simp add: rev_nth)
    also have "\<dots> = v + lh - 1 - int k" using False e unfolding p by linarith
    finally have "?shown ! (k - ?p) = v + lh - 1 - int k" .
    moreover have "v + lh - 1 - int k < int n" using False ve e len k by (auto simp: e_def min_def split: if_splits)
    ultimately show ?thesis using False s unfolding vl
      by (simp only: nth_append length_replicate nth_map if_False if_True)
  qed
qed

lemma window_rows_nth:
  assumes "0 \<le> v" "0 < lh"
  shows "\<exists>rows. window_rows row xs c v lh = Ok rows \<and> length rows = nat lh \<and> (\<forall>k < nat lh. rows ! k =
    (let i = v + lh - 1 - int k in if i < int (length xs) then row (i = c) (xs ! nat i) else []))"
  using view_lines_nth [OF assms, where n = "length xs"] by (simp add: window_rows_lines [OF assms(1)] Let_def)

lemma listHeight_pos [simp]: "0 < listHeight m" by (simp add: listHeight_def)

lemma frame_Ok: "0 \<le> w \<Longrightarrow> \<exists>s. frame R w line rows = Ok s"
  by (simp add: frame_def Repeat_def)

text \<open>
  Line \<^verbatim>\<open>k\<close> from the top shows the item that is as many rows above the offset as the line is above the last one,
  and stays empty where the items end.
\<close>

lemma item_rows_nth:
  assumes "model_inv L m"
  shows "\<exists>rows. window_rows (item_row w) (md_filtered m) (md_cursor m) (md_viewOffset m) (listHeight m) = Ok rows \<and>
     length rows = nat (listHeight m) \<and> (\<forall>k < nat (listHeight m). rows ! k =
       (let i = md_viewOffset m + listHeight m - 1 - int k
        in if i < int (length (md_filtered m)) then item_row w (i = md_cursor m) (md_filtered m ! nat i) else []))"
  by (rule window_rows_nth) (use assms in \<open>simp_all add: model_inv_def\<close>)

lemma View_Ok:
  assumes "model_inv L m" "0 \<le> md_width m"
  shows "\<exists>s. View L m = Ok s"
proof -
  have v: "0 \<le> md_viewOffset m" using assms(1) by (simp add: model_inv_def)
  have "\<exists>s. renderLeft L w m = Ok s" if "0 \<le> w" for w
    using frame_Ok [OF that, of "vl_Render L"] by (simp add: renderLeft_def Let_def window_rows_lines [OF v])
  then show ?thesis using assms(2) by (auto simp: View_def Let_def)
qed

text \<open>
  C23. After a move of the cursor by any distance the list is drawn without a panic, on exactly as many lines as there is
  room for: the line as many rows above the last one as the cursor is above the offset is drawn as the cursor's and shows
  the item that is that far away, or the first or the last one; every other line is empty or an unmarked item.
\<close>

theorem moved_cursor_drawn:
  assumes "model_inv L m" "md_filtered m \<noteq> []" "0 \<le> md_width m" "m' = moveCursor d m"
    and "c = max 0 (min (int (length (md_filtered m)) - 1) (md_cursor m + d))"
  shows "(\<exists>s. View L m' = Ok s) \<and> md_cursor m' = c \<and>
    (\<exists>rows k. window_rows (item_row w) (md_filtered m') (md_cursor m') (md_viewOffset m') (listHeight m') = Ok rows \<and>
       length rows = nat (listHeight m) \<and> k = nat (md_viewOffset m' + listHeight m - 1 - c) \<and> k < length rows \<and> rows ! k = item_row w True (md_filtered m ! nat c) \<and>
       (\<forall>j < length rows. j \<noteq> k \<longrightarrow> rows ! j = [] \<or> (\<exists>it \<in> set (md_filtered m). rows ! j = item_row w False it)))"
proof -
  have n: "0 < (length \<circ> md_filtered) m" using assms(2) by simp
  have inv: "model_inv L m'" using moveCursor_inv [OF assms(1)] assms(4) by simp
  have f: "md_filtered m' = md_filtered m" "md_width m' = md_width m"
    by (rule clampCursor_spec [of "m\<lparr>md_cursor := md_cursor m + d\<rparr>"],
        rule scrollIntoView_spec [of "clampCursor (m\<lparr>md_cursor := md_cursor m + d\<rparr>)"], simp add: moveCursor_def assms(4))+
  have h: "listHeight m' = listHeight m" using context_list.move_height assms(4) by simp
  have c: "md_cursor m' = c" using context_list.move_cursor [OF n] assms(4,5) by simp
  have "md_viewOffset m' \<le> c" "c < md_viewOffset m' + listHeight m"
    using context_list.move_shown [OF n, of d] unfolding assms(4) [symmetric] c by simp_all
  moreover have "0 \<le> c" "c < int (length (md_filtered m))" using n assms(5) by auto
  moreover have "0 \<le> md_viewOffset m'" using inv by (simp add: model_inv_def)
  ultimately have s: "md_viewOffset m' \<le> c" "c < md_viewOffset m' + listHeight m" "0 \<le> c" "c < int (length (md_filtered m))"
    "0 \<le> md_viewOffset m'" by simp_all
  obtain rows where r: "window_rows (item_row w) (md_filtered m') (md_cursor m') (md_viewOffset m') (listHeight m') = Ok rows"
    "length rows = nat (listHeight m)" "\<And>k. k < nat (listHeight m) \<Longrightarrow> rows ! k = (let i = md_viewOffset m' + listHeight m - 1 - int k
        in if i < int (length (md_filtered m)) then item_row w (i = c) (md_filtered m ! nat i) else [])"
    using item_rows_nth [OF inv, of w] unfolding f h c by blast
  define k where "k = nat (md_viewOffset m' + listHeight m - 1 - c)"
  have k: "k < length rows" "md_viewOffset m' + listHeight m - 1 - int k = c" using s r(2) by (auto simp: k_def)
  have "rows ! k = item_row w True (md_filtered m ! nat c)" using k r(2) r(3) [of k] s(4) by simp
  moreover have "rows ! j = [] \<or> (\<exists>it \<in> set (md_filtered m). rows ! j = item_row w False it)" if "j < length rows" "j \<noteq> k" for j
  proof -
    let ?i = "md_viewOffset m' + listHeight m - 1 - int j"
    have "?i \<noteq> c" "0 \<le> ?i" using that k s(5) r(2) by auto
    then show ?thesis using r(3) [of j] r(2) that(1) by (auto simp: Let_def)
  qed
  ultimately show ?thesis using View_Ok [OF inv] assms(3) f(2) c r(1,2) k(1) k_def by auto
qed

section \<open>The preview\<close>

text \<open>
  The preview keeps to its half: at most a line less than the screen is high (but at least one), each with its border
  within the width where there is room for the border at all.
\<close>

theorem preview_fits:
  "length (preview_lines w h content) \<le> nat (max (h - 1) 1) \<and>
   (\<forall>l \<in> set (preview_lines w h content). int (row_width (preview_row l)) \<le> max 2 w)"
proof (intro conjI ballI)
  show "length (preview_lines w h content) \<le> nat (max (h - 1) 1)" by (auto simp: preview_lines_def Let_def)
  fix l
  assume "l \<in> set (preview_lines w h content)"
  then obtain l' where "l = truncate_text l' (w - 2)" by (auto simp: preview_lines_def Let_def split: if_splits)
  moreover have "runes [CHR 0xE2, CHR 0x94, CHR 0x82] = [9474]" by code_simp
  ultimately show "int (row_width (preview_row l)) \<le> max 2 w" by (simp add: preview_row_def)
qed

section \<open>Where the drawing goes wrong\<close>

text \<open>
  The positions of a match are those in the whole name. When the name is cut, a match behind the cut marks the dots that
  stand for it.
\<close>

lemma dots_marked_as_match:
  "item_row 8 False ((top_item ''abcdefgh'')\<lparr>it_matchedIndexes := [0, 3]\<rparr>) =
     [Styled StyleDim ''  '', Styled StyleDim [], Styled StyleMatch ''a'', Styled StylePlain ''bc'', Styled StyleMatch ''.'',
      Styled StylePlain ''.'']"
proof -
  have r: "runes ''abcdefgh'' = [97, 98, 99, 100, 101, 102, 103, 104]" "runes ''abc..'' = [97, 98, 99, 46, 46]"
    using runes_ascii [of "''abcdefgh''" "[]"] runes_ascii [of "''abc..''" "[]"] by (simp_all add: byte_def)
  have "of_runes [97, 98, 99] = ''abc''" "of_runes [97] = ''a''" "of_runes [98, 99] = ''bc''" "of_runes [46] = ''.''"
    by (simp_all add: encode_rune_def valid_rune_def rune_bytes_def) (simp_all add: char_of_def bit_Suc_0_iff)
  then show ?thesis
    by (simp add: item_row_def treePrefix_def primaryW_def primaryIdx_def top_item_def truncate_text_def r highlightMatches_def
        mark_step_def flush_seg_def upt_rec Let_def)
qed

text \<open>A suffix as wide as the list pushes the row over its width, for every name.\<close>

lemma wide_suffix_runs_over:
  "w \<le> int (length (runes (it_dimSuffix it))) \<Longrightarrow> it_dimSuffix it \<noteq> [] \<Longrightarrow> w < int (row_width (item_row w c it))"
  by (simp add: item_row_width suffix_width_def)

section \<open>Witness\<close>

definition view_sample :: "string view_libs" where
  "view_sample = \<lparr>tl_Update = tl_Update tui_sample, tl_Value = tl_Value tui_sample, tl_SetValue = tl_SetValue tui_sample,
     tl_CursorEnd = tl_CursorEnd tui_sample, tl_New = [], tl_Find = sample_find, tl_ToLower = tl_ToLower tui_sample,
     vl_View = (\<lambda>s. s), vl_Render = (\<lambda>st s. s), vl_JoinHorizontal = (@)\<rparr>"

lemma view_sample_inv: "model_inv view_sample small_model"
  using small_inv by (simp add: model_inv_def items_ok_def name_ok_def filterItems_def view_sample_def small_model_def NewModel_def)

lemma moved_cursor_drawn_witness:
  "(\<exists>s. View view_sample (moveCursor (-5) small_model) = Ok s) \<and> md_cursor (moveCursor (-5) small_model) = 0"
  using moved_cursor_drawn [OF view_sample_inv, where d = "-5" and c = 0 and w = 40 and m' = "moveCursor (-5) small_model"]
  by (simp add: small_model_def NewModel_def)

end
