(* ===== verification/GardenerClient.thy ===== *)
theory GardenerClient
  imports GardenerIds
begin

text \<open>
  The Gardener client of the program (\<^verbatim>\<open>pkg/store/gardener/copied_gardenctlv2\<close>: \<^verbatim>\<open>client.go\<close>, \<^verbatim>\<open>shoot_client.go\<close>): the
  kubeconfig of a shoot is made of its advertised addresses and its CA, that of a seed of the shoot behind it
  or of a secret. The Kubernetes API, URL and version parsing are libraries, given as records of functions.
\<close>

section \<open>The objects read\<close>

record AdvertisedAddress =
  aa_Name :: string
  aa_URL :: string

record Shoot =
  sh_Name :: string
  sh_Namespace :: string
  sh_SeedName :: "string option"             \<comment> \<open>\<^verbatim>\<open>Spec.SeedName\<close>\<close>
  sh_Version :: string                        \<comment> \<open>\<^verbatim>\<open>Spec.Kubernetes.Version\<close>\<close>
  sh_Labels :: "(string, string) gomap"
  sh_Conditions :: "string list"              \<comment> \<open>the types of \<^verbatim>\<open>Status.Conditions\<close>\<close>
  sh_StatusSeedName :: "string option"
  sh_TechnicalID :: string
  sh_AdvertisedAddresses :: "AdvertisedAddress list"

record ManagedSeed =
  ms_Name :: string
  ms_Shoot :: "string option"                 \<comment> \<open>the name in \<^verbatim>\<open>Spec.Shoot\<close>, a pointer\<close>

record ConfigMap =
  cm_Name :: string
  cm_Namespace :: string
  cm_Data :: "(string, string) gomap"

text \<open>The API of the garden cluster; a namespace \<^verbatim>\<open>[]\<close> lists over all of them.\<close>

record garden_api =
  ga_GetShoot :: "string \<Rightarrow> string \<Rightarrow> Shoot res"
  ga_GetConfigMap :: "string \<Rightarrow> string \<Rightarrow> ConfigMap res"
  ga_GetSecret :: "string \<Rightarrow> string \<Rightarrow> (string, string) gomap res"
  ga_GetManagedSeed :: "string \<Rightarrow> string \<Rightarrow> ManagedSeed res"
  ga_ListShoots :: "string \<Rightarrow> Shoot list res"
  ga_ListCACMs :: "string \<Rightarrow> ConfigMap list res"
  ga_ListManagedSeeds :: "ManagedSeed list res"
  ga_ListProjects :: "string option list res"   \<comment> \<open>the \<^verbatim>\<open>Spec.Namespace\<close> of each\<close>
  ga_ListNamespaces :: "string list res"
  ga_IsForbidden :: "gerror \<Rightarrow> bool"
  ga_IsNotFound :: "gerror \<Rightarrow> bool"

text \<open>\<^verbatim>\<open>apierrors.IsForbidden\<close> and its kind look through wrapped errors.\<close>

fun through :: "(gerror \<Rightarrow> bool) \<Rightarrow> gerror \<Rightarrow> bool" where
  "through P (Wrapf s args e) = (P (Wrapf s args e) \<or> through P e)"
| "through P e = P e"

section \<open>The kubeconfig of a shoot\<close>

record cluster =
  k_name :: string
  k_apiServerHost :: string
  k_caCert :: string

record execPluginConfig =
  x_Namespace :: string
  x_Name :: string
  x_GardenClusterIdentity :: string

record shootKubeconfigRequest =
  rq_clusters :: "cluster list"
  rq_namespace :: string
  rq_shootName :: string
  rq_gardenClusterIdentity :: string

record api_cluster =
  ac_CertificateAuthorityData :: string
  ac_Server :: string
  ac_Extension :: "execPluginConfig option"

record api_context =
  ax_Cluster :: string
  ax_AuthInfo :: string
  ax_Namespace :: string

text \<open>\<^verbatim>\<open>clientcmdapi.Config\<close>; of an auth info only the arguments of its exec plugin vary.\<close>

record api_config =
  ap_CurrentContext :: string
  ap_AuthInfos :: "(string, string list) gomap"
  ap_Clusters :: "(string, api_cluster) gomap"
  ap_Contexts :: "(string, api_context) gomap"

fun validate_clusters :: "nat \<Rightarrow> cluster list \<Rightarrow> unit res" where
  "validate_clusters n [] = Ok ()"
| "validate_clusters n (c # cs) =
     (if k_name c = [] then Err (Errorf ''no name defined for cluster[%d]'' [itoa n])
      else if k_apiServerHost c = [] then Err (Errorf ''no api server host defined for cluster[%d]'' [itoa n])
      else validate_clusters (Suc n) cs)"

definition validate :: "shootKubeconfigRequest \<Rightarrow> unit res" where
  "validate k =
     (if rq_clusters k = [] then Err (Errorf ''missing clusters'' [])
      else bindR (validate_clusters 0 (rq_clusters k)) (\<lambda>_.
        if rq_namespace k = [] then Err (Errorf ''no namespace defined for kubeconfig request'' [])
        else if rq_shootName k = [] then Err (Errorf ''no shoot name defined for kubeconfig request'' [])
        else if rq_gardenClusterIdentity k = [] then Err (Errorf ''no garden cluster identity defined for kubeconfig request'' [])
        else Ok ()))"

definition auth_name :: "shootKubeconfigRequest \<Rightarrow> string" where
  "auth_name k = rq_namespace k @ ''--'' @ rq_shootName k"

definition exec_args :: "bool \<Rightarrow> shootKubeconfigRequest \<Rightarrow> string list" where
  "exec_args legacy k = [''gardenlogin'', ''get-client-certificate''] @
     (if legacy then [''--name='' @ rq_shootName k, ''--namespace='' @ rq_namespace k,
        ''--garden-cluster-identity='' @ rq_gardenClusterIdentity k] else [])"

definition add_cluster :: "bool \<Rightarrow> shootKubeconfigRequest \<Rightarrow> cluster \<Rightarrow> api_config \<Rightarrow> api_config" where
  "add_cluster legacy k c config =
     (let name = auth_name k @ ''-'' @ k_name c;
          ext = (if legacy then None else Some \<lparr>x_Namespace = rq_namespace k, x_Name = rq_shootName k,
                   x_GardenClusterIdentity = rq_gardenClusterIdentity k\<rparr>)
      in config\<lparr>ap_Clusters := mset name \<lparr>ac_CertificateAuthorityData = k_caCert c, ac_Server = ''https://'' @ k_apiServerHost c,
                  ac_Extension = ext\<rparr> (ap_Clusters config),
                ap_Contexts := mset name \<lparr>ax_Cluster = name, ax_AuthInfo = auth_name k, ax_Namespace = ''default''\<rparr> (ap_Contexts config)\<rparr>)"

definition generate :: "bool \<Rightarrow> shootKubeconfigRequest \<Rightarrow> api_config" where
  "generate legacy k = fold (add_cluster legacy k) (rq_clusters k)
     \<lparr>ap_CurrentContext = (case rq_clusters k of [] \<Rightarrow> [] | c # _ \<Rightarrow> auth_name k @ ''-'' @ k_name c),
      ap_AuthInfos = [(auth_name k, exec_args legacy k)], ap_Clusters = [], ap_Contexts = []\<rparr>"

definition excluded :: "string \<Rightarrow> string \<Rightarrow> bool" where
  "excluded caCert name \<longleftrightarrow> name \<in> {''internal'', ''service-account-issuer''} \<or>
     (length caCert = 0 \<and> name = ''wildcard-tls-seed-bound'') \<or> HasPrefix name ''ingress/''"

text \<open>
  The loop over the addresses; \<^verbatim>\<open>host\<close> is \<^verbatim>\<open>url.Parse\<close> followed by \<^verbatim>\<open>Host\<close>. The second loop
  is the fallback for when the first leaves nothing.
\<close>

fun address_loop :: "(string \<Rightarrow> string res) \<Rightarrow> string \<Rightarrow> AdvertisedAddress list \<Rightarrow> cluster list res" where
  "address_loop host caCert [] = Ok []"
| "address_loop host caCert (a # as) =
     (if excluded caCert (aa_Name a) then address_loop host caCert as
      else bindR (wrapR ''could not parse shoot server url: %w'' [] (host (aa_URL a))) (\<lambda>h.
        mapR ((#) \<lparr>k_name = aa_Name a, k_apiServerHost = h,
                   k_caCert = (if aa_Name a = ''wildcard-tls-seed-bound'' then [] else caCert)\<rparr>) (address_loop host caCert as)))"

fun fallback_loop :: "(string \<Rightarrow> string res) \<Rightarrow> string \<Rightarrow> AdvertisedAddress list \<Rightarrow> cluster list res" where
  "fallback_loop host caCert [] = Ok []"
| "fallback_loop host caCert (a # as) =
     (if aa_Name a = ''external'' \<or> aa_Name a = ''unmanaged''
      then bindR (wrapR ''could not parse shoot server url: %w'' [] (host (aa_URL a))) (\<lambda>h.
        mapR ((#) \<lparr>k_name = aa_Name a, k_apiServerHost = h, k_caCert = caCert\<rparr>) (fallback_loop host caCert as))
      else fallback_loop host caCert as)"

text \<open>
  \<^verbatim>\<open>GetShootClientConfig\<close>; \<^verbatim>\<open>gname\<close> is the name of the garden, \<^verbatim>\<open>None\<close> for a zero memoized object, \<^verbatim>\<open>is_legacy\<close> the
  check of the Kubernetes version against the constraint \<^verbatim>\<open>< v1.20.0\<close>.
\<close>

definition get_ca :: "garden_api \<Rightarrow> string \<Rightarrow> string \<Rightarrow> ConfigMap option \<Rightarrow> string" where
  "get_ca A namespace name memoizedCACM = (case memoizedCACM of
     Some cm \<Rightarrow> mgets (cm_Data cm) ''ca.crt''
   | None \<Rightarrow> (case ga_GetConfigMap A namespace (name @ ''.ca-cluster'') of
       Ok cm \<Rightarrow> mgets (cm_Data cm) ''ca.crt'' | _ \<Rightarrow> []))"

text \<open>A memoized object is a value with a name: \<^verbatim>\<open>None\<close> is the zero value, whose name is empty.\<close>

definition GetShootClientConfig ::
    "garden_api \<Rightarrow> (string \<Rightarrow> string res) \<Rightarrow> (string \<Rightarrow> bool res) \<Rightarrow> string \<Rightarrow> string \<Rightarrow> string \<Rightarrow> Shoot option \<Rightarrow>
     ConfigMap option \<Rightarrow> api_config res" where
  "GetShootClientConfig A host is_legacy gname namespace name memoized memoizedCACM =
     (if length gname = 0 then Err (Errorf ''garden name must not be empty'' [])
      else bindR (case memoized of Some s \<Rightarrow> Ok s | None \<Rightarrow> ga_GetShoot A namespace name) (\<lambda>shoot.
        if length (sh_AdvertisedAddresses shoot) = 0
        then Err (Errorf ''no advertised addresses listed in the Shoot status for the Shoot Kube API server'' [])
        else (let caCert = get_ca A namespace name memoizedCACM
          in bindR (address_loop host caCert (sh_AdvertisedAddresses shoot)) (\<lambda>cs0.
             bindR (if length cs0 = 0 then fallback_loop host caCert (sh_AdvertisedAddresses shoot) else Ok cs0) (\<lambda>cs.
             let request = \<lparr>rq_clusters = cs, rq_namespace = sh_Namespace shoot, rq_shootName = sh_Name shoot,
                            rq_gardenClusterIdentity = gname\<rparr>
             in bindR (wrapR ''validation failed for kubeconfig request: %w'' [] (validate request)) (\<lambda>_.
                bindR (wrapR ''could not parse kubernetes version %s of shoot cluster: %w'' [sh_Version shoot] (is_legacy (sh_Version shoot)))
                  (\<lambda>legacy. Ok (generate legacy request))))))))"

section \<open>The kubeconfig of a seed\<close>

definition gc_GetSecret :: "garden_api \<Rightarrow> string \<Rightarrow> string \<Rightarrow> (string, string) gomap res" where
  "gc_GetSecret A namespace name = wrapR ''failed to get secret %v: %w'' [namespace @ ''/'' @ name] (ga_GetSecret A namespace name)"

definition gc_GetShoot :: "garden_api \<Rightarrow> string \<Rightarrow> string \<Rightarrow> Shoot res" where
  "gc_GetShoot A namespace name = wrapR ''failed to get shoot %v: %w'' [namespace @ ''/'' @ name] (ga_GetShoot A namespace name)"

definition gc_ListShoots :: "garden_api \<Rightarrow> string \<Rightarrow> Shoot list res" where
  "gc_ListShoots A namespace = wrapR ''failed to list shoots with list options %q: %w'' [namespace] (ga_ListShoots A namespace)"

definition gc_ListProjects :: "garden_api \<Rightarrow> string option list res" where
  "gc_ListProjects A = wrapR ''failed to list projects: %w'' [] (ga_ListProjects A)"

text \<open>\<^verbatim>\<open>Ok None\<close> when the seed is not a managed seed; a managed seed without a shoot is a nil dereference.\<close>

definition GetShootOfManagedSeed :: "garden_api \<Rightarrow> string \<Rightarrow> string option res" where
  "GetShootOfManagedSeed A name = (case ga_GetManagedSeed A ''garden'' name of
     Err e \<Rightarrow> if through (ga_IsNotFound A) e then Ok None
             else Err (Wrapf ''failed to get managed seed %v: %w'' [''garden/'' @ name] e)
   | Panic p \<Rightarrow> Panic p
   | Ok ms \<Rightarrow> (case ms_Shoot ms of None \<Rightarrow> Panic nil_deref | Some s \<Rightarrow> Ok (Some s)))"

definition seed_secret :: "garden_api \<Rightarrow> string \<Rightarrow> (string, string) gomap res" where
  "seed_secret A name = (case gc_GetSecret A ''garden'' (name @ ''.login'') of
     Err e \<Rightarrow> if \<not> through (ga_IsNotFound A) e then Err e
             else (case gc_GetSecret A ''garden'' (name @ ''.oidc'') of
                 Err oidcErr \<Rightarrow> Err (Wrapf ''failed to get kubeconfig for seed %v: %w'' [''/'' @ name] e) | r \<Rightarrow> r)
   | r \<Rightarrow> r)"

definition GetSeedClientConfig ::
    "garden_api \<Rightarrow> (string \<Rightarrow> string res) \<Rightarrow> (string \<Rightarrow> bool res) \<Rightarrow> (string \<Rightarrow> api_config res) \<Rightarrow> string \<Rightarrow> string \<Rightarrow> api_config res" where
  "GetSeedClientConfig A host is_legacy from_bytes gname name =
     bindR (GetShootOfManagedSeed A name) (\<lambda>shoot. case shoot of
       Some s \<Rightarrow> GetShootClientConfig A host is_legacy gname ''garden'' s None None
     | None \<Rightarrow> bindR (seed_secret A name) (\<lambda>secret. case mget secret ''kubeconfig'' of
         None \<Rightarrow> Err (Errorf ''invalid kubeconfig secret for seed %v'' [''/'' @ name])
       | Some v \<Rightarrow> wrapR ''failed to deserialize kubeconfig for seed %v: %w'' [''/'' @ name] (from_bytes v)))"

section \<open>The clusters of the kubeconfig\<close>

definition cluster_pair :: "bool \<Rightarrow> shootKubeconfigRequest \<Rightarrow> cluster \<Rightarrow> string \<times> api_cluster" where
  "cluster_pair legacy k c = (auth_name k @ ''-'' @ k_name c, \<lparr>ac_CertificateAuthorityData = k_caCert c,
     ac_Server = ''https://'' @ k_apiServerHost c, ac_Extension = (if legacy then None else Some \<lparr>x_Namespace = rq_namespace k,
       x_Name = rq_shootName k, x_GardenClusterIdentity = rq_gardenClusterIdentity k\<rparr>)\<rparr>)"

definition context_pair :: "shootKubeconfigRequest \<Rightarrow> cluster \<Rightarrow> string \<times> api_context" where
  "context_pair k c = (let n = auth_name k @ ''-'' @ k_name c
     in (n, \<lparr>ax_Cluster = n, ax_AuthInfo = auth_name k, ax_Namespace = ''default''\<rparr>))"

abbreviation puts :: "('k \<times> 'v) list \<Rightarrow> ('k, 'v) gomap \<Rightarrow> ('k, 'v) gomap" where
  "puts \<equiv> fold (\<lambda>(k, v). mset k v)"

lemma fold_add_cluster:
  "fold (add_cluster legacy k) cs c = c\<lparr>ap_Clusters := puts (map (cluster_pair legacy k) cs) (ap_Clusters c),
     ap_Contexts := puts (map (context_pair k) cs) (ap_Contexts c)\<rparr>"
  by (induction cs arbitrary: c) (simp_all add: add_cluster_def cluster_pair_def context_pair_def Let_def)

lemma generate_eq:
  "generate legacy k = \<lparr>ap_CurrentContext = (case rq_clusters k of [] \<Rightarrow> [] | c # _ \<Rightarrow> auth_name k @ ''-'' @ k_name c),
     ap_AuthInfos = [(auth_name k, exec_args legacy k)], ap_Clusters = puts (map (cluster_pair legacy k) (rq_clusters k)) [],
     ap_Contexts = puts (map (context_pair k) (rq_clusters k)) []\<rparr>"
  by (simp add: generate_def fold_add_cluster)

lemma mget_puts_mem: "mget (puts ps []) n = Some v \<Longrightarrow> (n, v) \<in> set ps"
  by (auto simp: mget_fold_mset dest: map_of_SomeD)

lemma mget_puts_dom: "mget (puts ps []) n \<noteq> None \<longleftrightarrow> n \<in> fst ` set ps"
  by (auto simp: mget_fold_mset map_of_eq_None_iff)

lemma address_loop_mem:
  "address_loop host ca as = Ok cs \<Longrightarrow> c \<in> set cs \<Longrightarrow> \<exists>a \<in> set as. k_name c = aa_Name a \<and> \<not> excluded ca (aa_Name a) \<and>
     host (aa_URL a) = Ok (k_apiServerHost c) \<and> k_caCert c = (if aa_Name a = ''wildcard-tls-seed-bound'' then [] else ca)"
proof (induction as arbitrary: cs)
  case (Cons a as)
  show ?case
  proof (cases "excluded ca (aa_Name a)")
    case True
    then have "address_loop host ca as = Ok cs" using Cons.prems(1) by simp
    from Cons.IH [OF this Cons.prems(2)] show ?thesis by auto
  next
    case False
    then obtain h cs' where h: "host (aa_URL a) = Ok h" "address_loop host ca as = Ok cs'"
      "cs = \<lparr>k_name = aa_Name a, k_apiServerHost = h, k_caCert = (if aa_Name a = ''wildcard-tls-seed-bound'' then [] else ca)\<rparr> # cs'"
      using Cons.prems(1) by auto
    show ?thesis
    proof (cases "c \<in> set cs'")
      case True
      from Cons.IH [OF h(2) this] show ?thesis by auto
    next
      case c: False
      then show ?thesis using h Cons.prems(2) False by (intro bexI [of _ a]) auto
    qed
  qed
qed simp

lemma fallback_empty:
  assumes "address_loop host ca as = Ok []" shows "fallback_loop host ca as = Ok []"
proof -
  have "\<forall>a \<in> set as. excluded ca (aa_Name a)"
    using assms
  proof (induction as)
    case (Cons a as)
    then show ?case by (cases "excluded ca (aa_Name a)") auto
  qed simp
  then show ?thesis by (induction as) (auto simp: excluded_def HasPrefix_def)
qed

lemma validate_hosts: "validate_clusters n cs = Ok () \<Longrightarrow> c \<in> set cs \<Longrightarrow> k_name c \<noteq> [] \<and> k_apiServerHost c \<noteq> []"
  by (induction n cs rule: validate_clusters.induct) (auto split: if_splits)

text \<open>What a successful call did.\<close>

lemma GetShootClientConfig_cases:
  assumes "GetShootClientConfig A host is_legacy gname namespace name memoized cacm = Ok config"
  obtains shoot cs legacy where "(case memoized of Some s \<Rightarrow> Ok s | None \<Rightarrow> ga_GetShoot A namespace name) = Ok shoot"
    "address_loop host (get_ca A namespace name cacm) (sh_AdvertisedAddresses shoot) = Ok cs" "cs \<noteq> []"
    "\<forall>c \<in> set cs. k_apiServerHost c \<noteq> []" "is_legacy (sh_Version shoot) = Ok legacy"
    "config = generate legacy \<lparr>rq_clusters = cs, rq_namespace = sh_Namespace shoot, rq_shootName = sh_Name shoot, rq_gardenClusterIdentity = gname\<rparr>"
    "gname \<noteq> []" "sh_Namespace shoot \<noteq> []" "sh_Name shoot \<noteq> []"
proof -
  obtain shoot where shoot: "(case memoized of Some s \<Rightarrow> Ok s | None \<Rightarrow> ga_GetShoot A namespace name) = Ok shoot"
    using assms unfolding GetShootClientConfig_def by (auto split: if_splits)
  let ?ca = "get_ca A namespace name cacm"
  let ?as = "sh_AdvertisedAddresses shoot"
  obtain cs0 cs legacy where cs0: "address_loop host ?ca ?as = Ok cs0"
    and cs: "(if length cs0 = 0 then fallback_loop host ?ca ?as else Ok cs0) = Ok cs"
    and v: "validate \<lparr>rq_clusters = cs, rq_namespace = sh_Namespace shoot, rq_shootName = sh_Name shoot, rq_gardenClusterIdentity = gname\<rparr> = Ok ()"
    and l: "is_legacy (sh_Version shoot) = Ok legacy"
    and config: "config = generate legacy \<lparr>rq_clusters = cs, rq_namespace = sh_Namespace shoot, rq_shootName = sh_Name shoot, rq_gardenClusterIdentity = gname\<rparr>"
    using assms shoot unfolding GetShootClientConfig_def Let_def by (auto split: if_splits)
  have "cs = cs0" using cs cs0 fallback_empty [of host ?ca ?as] by (auto split: if_splits)
  moreover have "cs \<noteq> []" "sh_Namespace shoot \<noteq> []" "sh_Name shoot \<noteq> []" "gname \<noteq> []" "validate_clusters 0 cs = Ok ()"
    using v by (auto simp: validate_def split: if_splits)
  ultimately show thesis using that shoot cs0 l config validate_hosts by blast
qed

lemma address_loop_names:
  "address_loop host ca as = Ok cs \<Longrightarrow> map k_name cs = map aa_Name (filter (\<lambda>a. \<not> excluded ca (aa_Name a)) as)"
proof (induction as arbitrary: cs)
  case (Cons a as)
  then show ?case by (cases "excluded ca (aa_Name a)") auto
qed simp

lemma map_eq_hd: "map f xs = map g ys \<Longrightarrow> xs \<noteq> [] \<Longrightarrow> f (hd xs) = g (hd ys)"
  by (cases xs; cases ys) auto

text \<open>
  C37. A kubeconfig generated for a shoot has exactly one cluster for the name of each usable
  advertised address and no other: not an internal one, an issuer or a dashboard, and the publicly
  trusted one only if the CA is known. It points at the host of such an address and carries the CA
  of the shoot, except that the publicly trusted one carries none. There is one context per
  cluster, of the same name, all of the user of the shoot, and the current context is that of the
  first usable address.
\<close>

theorem GetShootClientConfig_spec:
  assumes "GetShootClientConfig A host is_legacy gname namespace name memoized cacm = Ok config"
  shows "\<exists>shoot. (case memoized of Some s \<Rightarrow> Ok s | None \<Rightarrow> ga_GetShoot A namespace name) = Ok shoot \<and>
    (let ca = get_ca A namespace name cacm; user = sh_Namespace shoot @ ''--'' @ sh_Name shoot;
         usable = filter (\<lambda>a. aa_Name a \<notin> {''internal'', ''service-account-issuer''} \<and>
           \<not> HasPrefix (aa_Name a) ''ingress/'' \<and> \<not> (aa_Name a = ''wildcard-tls-seed-bound'' \<and> ca = []))
           (sh_AdvertisedAddresses shoot)
     in usable \<noteq> [] \<and>
     (\<forall>n. mget (ap_Clusters config) n \<noteq> None \<longleftrightarrow> n \<in> (\<lambda>a. user @ ''-'' @ aa_Name a) ` set usable) \<and>
     (\<forall>n c. mget (ap_Clusters config) n = Some c \<longrightarrow> (\<exists>a \<in> set usable. n = user @ ''-'' @ aa_Name a \<and>
        (\<exists>h. host (aa_URL a) = Ok h \<and> h \<noteq> [] \<and> ac_Server c = ''https://'' @ h) \<and>
        ac_CertificateAuthorityData c = (if aa_Name a = ''wildcard-tls-seed-bound'' then [] else ca))) \<and>
     (\<forall>n. mget (ap_Contexts config) n = (if mget (ap_Clusters config) n = None then None
        else Some \<lparr>ax_Cluster = n, ax_AuthInfo = user, ax_Namespace = ''default''\<rparr>)) \<and>
     ap_CurrentContext config = user @ ''-'' @ aa_Name (hd usable) \<and> map fst (ap_AuthInfos config) = [user])"
proof (rule GetShootClientConfig_cases [OF assms])
  fix shoot :: Shoot and cs legacy
  let ?rq = "\<lparr>rq_clusters = cs, rq_namespace = sh_Namespace shoot, rq_shootName = sh_Name shoot, rq_gardenClusterIdentity = gname\<rparr>"
  let ?ca = "get_ca A namespace name cacm" and ?user = "sh_Namespace shoot @ ''--'' @ sh_Name shoot"
  assume shoot: "(case memoized of Some s \<Rightarrow> Ok s | None \<Rightarrow> ga_GetShoot A namespace name) = Ok shoot"
    and cs: "address_loop host ?ca (sh_AdvertisedAddresses shoot) = Ok cs" "cs \<noteq> []" "\<forall>c \<in> set cs. k_apiServerHost c \<noteq> []"
    and config: "config = generate legacy ?rq"
  have user: "auth_name ?rq = ?user" by (simp add: auth_name_def)
  let ?usable = "filter (\<lambda>a. aa_Name a \<notin> {''internal'', ''service-account-issuer''} \<and>
           \<not> HasPrefix (aa_Name a) ''ingress/'' \<and> \<not> (aa_Name a = ''wildcard-tls-seed-bound'' \<and> ?ca = []))
           (sh_AdvertisedAddresses shoot)"
  have usable: "?usable = filter (\<lambda>a. \<not> excluded ?ca (aa_Name a)) (sh_AdvertisedAddresses shoot)"
    by (rule filter_cong) (auto simp: excluded_def)
  have names: "map k_name cs = map aa_Name ?usable" unfolding usable by (rule address_loop_names [OF cs(1)])
  have cl: "\<exists>a \<in> set ?usable. n = ?user @ ''-'' @ aa_Name a \<and>
        (\<exists>h. host (aa_URL a) = Ok h \<and> h \<noteq> [] \<and> ac_Server c = ''https://'' @ h) \<and>
        ac_CertificateAuthorityData c = (if aa_Name a = ''wildcard-tls-seed-bound'' then [] else ?ca)" if "mget (ap_Clusters config) n = Some c" for n c
  proof -
    have "(n, c) \<in> set (map (cluster_pair legacy ?rq) cs)" by (rule mget_puts_mem) (use that in \<open>simp add: config generate_eq\<close>)
    then obtain x where x: "x \<in> set cs" "(n, c) = cluster_pair legacy ?rq x" by auto
    show ?thesis unfolding usable using address_loop_mem [OF cs(1) x(1)] x cs(3) by (auto simp: cluster_pair_def user)
  qed
  have dom: "mget (ap_Clusters config) n \<noteq> None \<longleftrightarrow> n \<in> (\<lambda>x. ?user @ ''-'' @ k_name x) ` set cs"
    "mget (ap_Contexts config) n \<noteq> None \<longleftrightarrow> n \<in> (\<lambda>x. ?user @ ''-'' @ k_name x) ` set cs" for n
    unfolding config generate_eq
    by (simp_all only: mget_puts_dom api_config.select_convs) (simp_all add: cluster_pair_def context_pair_def image_image Let_def user)
  have cx: "v = \<lparr>ax_Cluster = n, ax_AuthInfo = ?user, ax_Namespace = ''default''\<rparr>" if "mget (ap_Contexts config) n = Some v" for n v
  proof -
    have "(n, v) \<in> set (map (context_pair ?rq) cs)" by (rule mget_puts_mem) (use that in \<open>simp add: config generate_eq\<close>)
    then show ?thesis by (auto simp: context_pair_def Let_def user)
  qed
  have "mget (ap_Contexts config) n = (if mget (ap_Clusters config) n = None then None
        else Some \<lparr>ax_Cluster = n, ax_AuthInfo = ?user, ax_Namespace = ''default''\<rparr>)" for n
    using dom [of n] cx [of n] by (cases "mget (ap_Contexts config) n") auto
  moreover have "?usable \<noteq> []" using names cs(2) by (metis map_is_Nil_conv)
  moreover have "mget (ap_Clusters config) n \<noteq> None \<longleftrightarrow> n \<in> (\<lambda>a. ?user @ ''-'' @ aa_Name a) ` set ?usable" for n
  proof -
    have "k_name ` set cs = aa_Name ` set ?usable" using names by (metis list.set_map)
    then have "(\<lambda>s. ?user @ ''-'' @ s) ` k_name ` set cs = (\<lambda>s. ?user @ ''-'' @ s) ` aa_Name ` set ?usable" by simp
    then show ?thesis unfolding dom(1) by (simp only: image_image)
  qed
  moreover have "ap_CurrentContext config = ?user @ ''-'' @ aa_Name (hd ?usable)"
  proof -
    have "k_name (hd cs) = aa_Name (hd ?usable)" by (rule map_eq_hd [OF names cs(2)])
    moreover have "ap_CurrentContext config = ?user @ ''-'' @ k_name (hd cs)"
      using cs(2) by (cases cs) (simp_all add: config generate_eq auth_name_def)
    ultimately show ?thesis by (simp only:)
  qed
  moreover have "map fst (ap_AuthInfos config) = [?user]" by (simp add: config generate_eq user)
  ultimately show ?thesis using shoot cl by (intro exI [of _ shoot]) (simp only: Let_def, blast)
qed

text \<open>
  The fallback to the external address never adds one: the names it looks for are never filtered out,
  so when nothing is left after filtering there is none of them, and the call ends with an error.
\<close>

theorem fallback_never_helps:
  assumes "gname \<noteq> []" "(case memoized of Some s \<Rightarrow> Ok s | None \<Rightarrow> ga_GetShoot A namespace name) = Ok shoot"
    and "sh_AdvertisedAddresses shoot \<noteq> []"
    and "address_loop host (get_ca A namespace name cacm) (sh_AdvertisedAddresses shoot) = Ok []"
  shows "fallback_loop host (get_ca A namespace name cacm) (sh_AdvertisedAddresses shoot) = Ok [] \<and>
    GetShootClientConfig A host is_legacy gname namespace name memoized cacm =
      Err (Wrapf ''validation failed for kubeconfig request: %w'' [] (Errorf ''missing clusters'' []))"
  using assms fallback_empty [OF assms(4)] by (simp add: GetShootClientConfig_def Let_def validate_def)

section \<open>Witnesses\<close>

definition sample_shoot :: Shoot where
  "sample_shoot = \<lparr>sh_Name = ''crate'', sh_Namespace = ''garden-p'', sh_SeedName = Some ''s'', sh_Version = ''1.30'', sh_Labels = [],
     sh_Conditions = [], sh_StatusSeedName = Some ''s'', sh_TechnicalID = ''shoot--p--crate'',
     sh_AdvertisedAddresses = [\<lparr>aa_Name = ''internal'', aa_URL = ''i''\<rparr>, \<lparr>aa_Name = ''external'', aa_URL = ''e''\<rparr>]\<rparr>"

definition sample_api :: garden_api where
  "sample_api = \<lparr>ga_GetShoot = (\<lambda>_ _. Ok sample_shoot), ga_GetConfigMap = (\<lambda>_ _. Ok \<lparr>cm_Name = ''c'', cm_Namespace = ''n'', cm_Data = [(''ca.crt'', ''CA'')]\<rparr>),
     ga_GetSecret = (\<lambda>_ _. Err (LibErr ''none'')), ga_GetManagedSeed = (\<lambda>_ _. Err (LibErr ''none'')),
     ga_ListShoots = (\<lambda>_. Ok [sample_shoot]), ga_ListCACMs = (\<lambda>_. Ok []), ga_ListManagedSeeds = Ok [], ga_ListProjects = Ok [],
     ga_ListNamespaces = Ok [], ga_IsForbidden = (\<lambda>_. False), ga_IsNotFound = (\<lambda>_. True)\<rparr>"

lemma GetShootClientConfig_spec_witness:
  "\<exists>config. GetShootClientConfig sample_api Ok (\<lambda>_. Ok False) ''g'' ''garden-p'' ''crate'' None None = Ok config \<and>
     map fst (ap_AuthInfos config) = [''garden-p--crate''] \<and> mget (ap_Clusters config) (ap_CurrentContext config) \<noteq> None"
proof -
  let ?r = "GetShootClientConfig sample_api Ok (\<lambda>_. Ok False) ''g'' ''garden-p'' ''crate'' None None"
  have "is_ok ?r" by code_simp
  then obtain config where c: "?r = Ok config" by (auto simp: is_ok_iff)
  have "get_ca sample_api ''garden-p'' ''crate'' None = ''CA''" "ga_GetShoot sample_api n m = Ok sample_shoot" for n m
    by (simp_all add: get_ca_def sample_api_def mgets_def)
  note r = this GetShootClientConfig_spec [OF c]
  have "ap_CurrentContext config = ''garden-p--crate-external''" "map fst (ap_AuthInfos config) = [''garden-p--crate'']"
    using r by (simp_all add: Let_def sample_shoot_def HasPrefix_def)
  moreover have "mget (ap_Clusters config) ''garden-p--crate-external'' \<noteq> None"
    using r by (simp add: Let_def sample_shoot_def HasPrefix_def) (rule image_eqI [of _ _ "\<lparr>aa_Name = ''external'', aa_URL = ''e''\<rparr>"]; simp)
  ultimately show ?thesis using c by auto
qed

lemma fallback_never_helps_witness:
  "GetShootClientConfig sample_api Ok (\<lambda>_. Ok False) ''g'' ''garden-p'' ''crate''
     (Some (sample_shoot\<lparr>sh_AdvertisedAddresses := [\<lparr>aa_Name = ''internal'', aa_URL = ''i''\<rparr>]\<rparr>)) None =
   Err (Wrapf ''validation failed for kubeconfig request: %w'' [] (Errorf ''missing clusters'' []))"
  using fallback_never_helps [where gname = "''g''" and memoized = "Some (sample_shoot\<lparr>sh_AdvertisedAddresses := [\<lparr>aa_Name = ''internal'', aa_URL = ''i''\<rparr>]\<rparr>)",
      OF _ option.case(2)] by (simp add: excluded_def)

end
