(* ===== verification/GardenerStore.thy ===== *)
theory GardenerStore
  imports GardenerClient
begin

text \<open>
  The Gardener store (\<^verbatim>\<open>pkg/store/kubeconfig_store_gardener.go\<close>): its lazy initialisation with the two files it keeps
  in \<^verbatim>\<open>~/.garden\<close>, the search for shoots and managed seeds, the kubeconfig for a path, and the preview, drawn with
  \<^verbatim>\<open>pkg/util/gotree\<close>. The API of the garden cluster, YAML, JSON and \<^verbatim>\<open>clientcmd\<close> are libraries. The properties are in
  \<^verbatim>\<open>GardenerLaws\<close>, the switch to a control plane in \<^verbatim>\<open>GardenerControl\<close>.
\<close>

section \<open>Trees of text\<close>

datatype tree = Tree (tree_text: string) (tree_items: "tree list")

definition emptySpace :: string where "emptySpace = ''    ''"
definition middleItem :: string where
  "middleItem = [CHR 0xE2, CHR 0x94, CHR 0x9C, CHR 0xE2, CHR 0x94, CHR 0x80, CHR 0xE2, CHR 0x94, CHR 0x80] @ '' ''"
definition continueItem :: string where "continueItem = [CHR 0xE2, CHR 0x94, CHR 0x82] @ ''   ''"
definition lastItem :: string where
  "lastItem = [CHR 0xE2, CHR 0x94, CHR 0x94, CHR 0xE2, CHR 0x94, CHR 0x80, CHR 0xE2, CHR 0x94, CHR 0x80] @ '' ''"

text \<open>The indicator is chosen by the last entry of \<^verbatim>\<open>spaces\<close>, that is by the parent.\<close>

definition printText :: "string \<Rightarrow> bool list \<Rightarrow> string" where
  "printText s sps = concat (map (\<lambda>sp. if sp then emptySpace else continueItem) sps) @
     (if sps = [] \<or> last sps then lastItem else middleItem) @ s @ [CHR 10]"

fun printItems :: "tree list \<Rightarrow> bool list \<Rightarrow> string" where
  "printItems [] sps = []"
| "printItems (Tree s its # ts) sps =
     printText s sps @ (if length its > 0 then printItems its (sps @ [ts = []]) else []) @ printItems ts sps"

definition Print :: "tree \<Rightarrow> string" where
  "Print t = tree_text t @ [CHR 10] @ printItems (tree_items t) []"

section \<open>The state of the store\<close>

record gardener_store =
  gs_KubeconfigStore :: KubeconfigStore
  gs_Config :: "StoreConfigGardener option"
  gs_LandscapeName :: string
  gs_LandscapeIdentity :: string
  gs_StateDirectory :: string
  gs_Client :: "garden_api option"
  gs_CachePathToShoot :: "(string, Shoot) clusterCache"
  gs_CachePathToManagedSeed :: "(string, ManagedSeed) clusterCache"
  gs_CacheCaNameToCACM :: "(string, ConfigMap) clusterCache"
  gs_ready :: bool

text \<open>An entry of the gardenlogin and of the gardenctl configuration.\<close>

record garden_entry =
  ge_Identity :: string
  ge_Kubeconfig :: string

record 'r gardener_libs =
  gl_config :: "any_config \<Rightarrow> StoreConfigGardener res"
  gl_RESTConfig :: "string \<Rightarrow> 'r res"
  gl_NewClient :: "'r \<Rightarrow> garden_api res"
  gl_um_login :: "string \<Rightarrow> garden_entry list option res"
  gl_um_json :: "string \<Rightarrow> garden_entry list res"
  gl_um_yaml :: "string \<Rightarrow> garden_entry list res"
  gl_marshal :: "garden_entry list \<Rightarrow> string res"
  gl_host :: "string \<Rightarrow> string res"
  gl_legacy :: "string \<Rightarrow> bool res"
  gl_from_bytes :: "string \<Rightarrow> api_config res"
  gl_validate :: "api_config \<Rightarrow> unit res"
  gl_write :: "api_config \<Rightarrow> string res"
  gl_um :: "string \<Rightarrow> ynode res"
  gl_enc :: "ynode \<Rightarrow> string res"
  gl_um_alias :: "string \<Rightarrow> (string, string) gomap option res"
  gl_um_kube :: "string \<Rightarrow> KubeConfig res"

definition GetStoreConfig :: "'r gardener_libs \<Rightarrow> KubeconfigStore \<Rightarrow> StoreConfigGardener res" where
  "GetStoreConfig L s = (case ks_Config s of
     None \<Rightarrow> Err (Errorf ''providing a configuration for the Gardener store is required'' [])
   | Some c \<Rightarrow> wrapR ''failed to unmarshal config for the Gardener kubeconfig store: %w'' [] (gl_config L c))"

definition NewGardenerStore :: "'r gardener_libs \<Rightarrow> KubeconfigStore \<Rightarrow> string \<Rightarrow> gardener_store res" where
  "NewGardenerStore L s stateDir = mapR (\<lambda>config.
     \<lparr>gs_KubeconfigStore = s, gs_Config = Some config,
      gs_LandscapeName = (case LandscapeName config of None \<Rightarrow> [] | Some n \<Rightarrow> n), gs_LandscapeIdentity = [],
      gs_StateDirectory = stateDir, gs_Client = None, gs_CachePathToShoot = newClusterCache,
      gs_CachePathToManagedSeed = newClusterCache, gs_CacheCaNameToCACM = newClusterCache, gs_ready = False\<rparr>) (GetStoreConfig L s)"

definition gardener_GetShootLabelKeys :: "gardener_store \<Rightarrow> string list" where
  "gardener_GetShootLabelKeys s = (case gs_Config s of None \<Rightarrow> [] | Some c \<Rightarrow> ShootLabelKeys c)"

definition gardener_GetContextPrefix :: "gardener_store \<Rightarrow> string \<Rightarrow> string" where
  "gardener_GetContextPrefix s path =
     (if ks_ShowPrefix (gs_KubeconfigStore s) = Some False then [] else ReplaceAll path ''--'' ''-'')"

definition gardener_GetID :: "gardener_store \<Rightarrow> string" where
  "gardener_GetID s = ''gardener.'' @ (case ks_ID (gs_KubeconfigStore s) of Some i \<Rightarrow> i
     | None \<Rightarrow> (case gs_Config s of Some c \<Rightarrow> (case LandscapeName c of Some n \<Rightarrow> n | None \<Rightarrow> ''default'') | None \<Rightarrow> ''default''))"

section \<open>Initialisation\<close>

definition GetGardenClient :: "'r gardener_libs \<Rightarrow> StoreConfigGardener \<Rightarrow> garden_api io" where
  "GetGardenClient L config = (\<lambda>w. (bindR (wrapR ''unable to create rest config: %w'' []
        (gl_RESTConfig L (util_ExpandEnv w (GardenerAPIKubeconfigPath config))))
      (\<lambda>rc. wrapR ''unable to create garden client: %w'' [] (gl_NewClient L rc)), w))"

definition write_entries :: "'r gardener_libs \<Rightarrow> string \<Rightarrow> garden_entry list \<Rightarrow> unit io" where
  "write_entries L path es = bindIO (os_Create path) (\<lambda>_. bindIO (liftR (gl_marshal L es)) (file_Write path))"

text \<open>\<^verbatim>\<open>None\<close> is the nil configuration that YAML leaves for an empty document.\<close>

definition getGardenloginConfig :: "'r gardener_libs \<Rightarrow> string \<Rightarrow> garden_entry list option io" where
  "getGardenloginConfig L path = bindIO (os_ReadFile path) (\<lambda>bytes. if length bytes = 0 then returnIO (Some [])
     else wrapIO ''could not unmarshal Gardenlogin config file with path %s: %w'' [path] (liftR (gl_um_login L bytes)))"

definition maintain_gardenlogin :: "'r gardener_libs \<Rightarrow> string \<Rightarrow> string \<Rightarrow> string \<Rightarrow> unit io" where
  "maintain_gardenlogin L path identity kubeconfig =
     (let entry = \<lparr>ge_Identity = identity, ge_Kubeconfig = kubeconfig\<rparr>
      in tryIO (os_Stat path)
        (\<lambda>_. bindIO (getGardenloginConfig L path) (\<lambda>c. case c of
            None \<Rightarrow> liftR (Panic nil_deref)
          | Some gardens \<Rightarrow>
              if list_ex (\<lambda>e. ge_Identity e = identity) gardens then returnIO ()
              else wrapIO ''failed to write Gardenlogin config: %w'' [] (write_entries L path (gardens @ [entry]))))
        (\<lambda>e. if \<not> IsNotExist e then failIO e
             else wrapIO ''failed to write Gardenlogin config: %w'' [] (write_entries L path [entry])))"

definition getGardenctlV2Config :: "'r gardener_libs \<Rightarrow> string \<Rightarrow> garden_entry list io" where
  "getGardenctlV2Config L path = bindIO (os_ReadFile path) (\<lambda>data. if length data = 0 then returnIO []
     else (case gl_um_json L data of
         Err e \<Rightarrow> (case gl_um_yaml L data of Err y \<Rightarrow> failIO (Wrapf ''could not parse gardenctl-v2 config file %q: %w'' [path] e)
                  | r \<Rightarrow> liftR r)
       | r \<Rightarrow> liftR r))"

definition ensureGardenctlV2Config :: "'r gardener_libs \<Rightarrow> string \<Rightarrow> string \<Rightarrow> string \<Rightarrow> unit io" where
  "ensureGardenctlV2Config L path identity kubeconfig =
     (let entry = \<lparr>ge_Identity = identity, ge_Kubeconfig = kubeconfig\<rparr>
      in tryIO (os_Stat path)
        (\<lambda>_. bindIO (getGardenctlV2Config L path) (\<lambda>gardens.
           if list_ex (\<lambda>e. ge_Identity e = identity) gardens then returnIO () else write_entries L path (gardens @ [entry])))
        (\<lambda>e. if \<not> IsNotExist e then failIO e else write_entries L path [entry]))"

text \<open>
  \<^verbatim>\<open>initialize\<close>. A failure leaves the store as it was: the fields set before are read only once it is ready.
\<close>

definition initialize :: "'r gardener_libs \<Rightarrow> gardener_store \<Rightarrow> gardener_store io" where
  "initialize L s = (case gs_Config s of
     None \<Rightarrow> liftR (Panic nil_deref)
   | Some config \<Rightarrow> bindIO (GetGardenClient L config) (\<lambda>A.
       bindIO (wrapIO ''unable to get gardener landscape identity from config map %s/%s: %w'' [''kube-system'', ''cluster-identity'']
         (liftR (ga_GetConfigMap A ''kube-system'' ''cluster-identity''))) (\<lambda>cm.
       case mget (cm_Data cm) ''cluster-identity'' of
         None \<Rightarrow> failIO (Errorf ''unable to get gardener landscape identity: data key %q not found'' [''cluster-identity''])
       | Some identity \<Rightarrow> (\<lambda>w.
           bindIO (maintain_gardenlogin L (os_ExpandEnv w ''$HOME/.garden/gardenlogin.yaml'') identity (GardenerAPIKubeconfigPath config)) (\<lambda>_.
           bindIO (wrapIO ''failed to write gardenctl-v2 config: %w'' []
             (ensureGardenctlV2Config L (os_ExpandEnv w ''$HOME/.garden/gardenctl-v2.yaml'') identity (GardenerAPIKubeconfigPath config))) (\<lambda>_.
           returnIO (s\<lparr>gs_Client := Some A, gs_LandscapeIdentity := identity, gs_ready := True\<rparr>))) w))))"

text \<open>\<^verbatim>\<open>InitializeGardenerStore\<close>: \<^verbatim>\<open>ensure\<close> of \<^verbatim>\<open>lazy_init.go\<close>, for one caller.\<close>

definition InitializeGardenerStore :: "'r gardener_libs \<Rightarrow> gardener_store \<Rightarrow> gardener_store io" where
  "InitializeGardenerStore L s = (if gs_ready s then returnIO s else initialize L s)"

section \<open>The kubeconfig for a path\<close>

text \<open>The kubeconfig of an API configuration, without the first context whose name ends in \<^verbatim>\<open>-internal\<close>.\<close>

definition without_internal :: "'r gardener_libs \<Rightarrow> api_config \<Rightarrow> kubeconfig io" where
  "without_internal L raw =
     bindIO (liftR (gl_write L raw)) (\<lambda>bytes.
     bindIO (NewKubeconfig (gl_um L) bytes) (\<lambda>config.
     bindIO (liftR (GetContextNames config)) (\<lambda>contextNames.
       case find (\<lambda>n. HasSuffix n ''-internal'') contextNames of
         None \<Rightarrow> returnIO config
       | Some n \<Rightarrow> wrapIO ''unable to remove internal kubeconfig context: %w'' [] (liftR (RemoveContext n config)))))"

text \<open>The meta data is added.\<close>

definition finish_kubeconfig :: "'r gardener_libs \<Rightarrow> gardener_store \<Rightarrow> api_config \<Rightarrow> GardenerResource \<Rightarrow> string \<Rightarrow> string \<Rightarrow> string io" where
  "finish_kubeconfig L s raw resource project name =
     bindIO (without_internal L raw) (\<lambda>config.
     bindIO (liftR (SetGardenerStoreMetaInformation (gs_LandscapeIdentity s) (resource_name resource) project name config)) (\<lambda>config1.
     liftR (GetBytes (gl_enc L) config1)))"

text \<open>
  The path of the shoot behind a seed is only used to look the shoot up in the cache: the name asked for
  stays that of the seed.
\<close>

definition shoot_key :: "gardener_store \<Rightarrow> string \<Rightarrow> GardenerResource \<Rightarrow> string \<Rightarrow> string res" where
  "shoot_key s landscape resource path = (case resource of
     ResourceShoot \<Rightarrow> Ok path
   | ResourceSeed \<Rightarrow> (case cc_Get (gs_CachePathToManagedSeed s) path of
       None \<Rightarrow> Ok path
     | Some ms \<Rightarrow> (case ms_Shoot ms of None \<Rightarrow> Panic nil_deref | Some n \<Rightarrow> Ok (GetShootIdentifier landscape ''garden'' n))))"

definition client_of :: "gardener_store \<Rightarrow> garden_api res" where
  "client_of s = (case gs_Client s of None \<Rightarrow> Panic nil_deref | Some A \<Rightarrow> Ok A)"

definition identified_kubeconfig :: "'r gardener_libs \<Rightarrow> gardener_store \<Rightarrow> string \<Rightarrow> string io" where
  "identified_kubeconfig L s path =
     bindIO (liftR (ParseIdentifier path)) (\<lambda>(landscape, resource, name, namespace, project).
       if landscape \<noteq> gs_LandscapeName s \<and> landscape \<noteq> gs_LandscapeIdentity s
       then failIO (Errorf ''unknown Gardener landscape %q'' [landscape])
       else (let ns = (case resource of ResourceSeed \<Rightarrow> ''garden'' | ResourceShoot \<Rightarrow> namespace)
         in bindIO (liftR (shoot_key s landscape resource path)) (\<lambda>key.
            bindIO (liftR (client_of s)) (\<lambda>A.
            bindIO (wrapIO ''failed to generate Shoot kubeconfig: %w'' [] (liftR
              (GetShootClientConfig A (gl_host L) (gl_legacy L) (gs_LandscapeIdentity s) ns name
                (cc_Get (gs_CachePathToShoot s) key)
                (cc_Get (gs_CacheCaNameToCACM s) (ns @ '':'' @ name @ ''.ca-cluster''))))) (\<lambda>raw.
            finish_kubeconfig L s raw resource project name)))))"

definition ready_kubeconfig :: "'r gardener_libs \<Rightarrow> gardener_store \<Rightarrow> string \<Rightarrow> string io" where
  "ready_kubeconfig L s path =
     (if GetGardenKubeconfigPath (gs_LandscapeIdentity s) = path
      then (case gs_Config s of
          Some config \<Rightarrow> if length (GardenerAPIKubeconfigPath config) = 0
            then failIO (Errorf ''cannot get garden kubeconfig. Field gardenerAPIKubeconfigPath is not configured'' [])
            else (\<lambda>w. os_ReadFile (util_ExpandEnv w (GardenerAPIKubeconfigPath config)) w)
        | None \<Rightarrow> failIO (Errorf ''cannot get garden kubeconfig. Field gardenerAPIKubeconfigPath is not configured'' []))
      else identified_kubeconfig L s path)"

definition gardener_GetKubeconfigForPath :: "'r gardener_libs \<Rightarrow> gardener_store \<Rightarrow> string \<Rightarrow> (string \<times> gardener_store) io" where
  "gardener_GetKubeconfigForPath L s path =
     bindIO (wrapIO ''failed to initialize Gardener store: %w'' [] (InitializeGardenerStore L s)) (\<lambda>s1.
     bindIO (ready_kubeconfig L s1 path) (\<lambda>bytes. returnIO (bytes, s1)))"

section \<open>The search\<close>

definition ok_or_empty :: "'a list res \<Rightarrow> 'a list" where
  "ok_or_empty r = (case r of Ok xs \<Rightarrow> xs | _ \<Rightarrow> [])"

definition discoverProjectNamespaces :: "garden_api \<Rightarrow> string list" where
  "discoverProjectNamespaces A = (case gc_ListProjects A of
     Ok projects \<Rightarrow> List.map_filter (\<lambda>ns. case ns of Some n \<Rightarrow> if n \<noteq> [] then Some n else None | None \<Rightarrow> None) projects
   | _ \<Rightarrow> filter (\<lambda>n. HasPrefix n ''garden-'') (ok_or_empty (ga_ListNamespaces A)))"

type_synonym shoots_and_cas = "Shoot list \<times> ConfigMap list"

definition list_failed :: "string \<Rightarrow> gerror \<Rightarrow> gerror" where
  "list_failed ns e = Wrapf ''failed to call list Shoots from the Gardener API for namespace %q: %w'' [ns] e"

fun search_namespaces :: "garden_api \<Rightarrow> string list \<Rightarrow> shoots_and_cas \<Rightarrow> shoots_and_cas res" where
  "search_namespaces A [] acc = Ok acc"
| "search_namespaces A (ns # nss) (shoots, cms) = (case gc_ListShoots A ns of
     Err e \<Rightarrow> if through (ga_IsForbidden A) e then search_namespaces A nss (shoots, cms) else Err (list_failed ns e)
   | Panic p \<Rightarrow> Panic p
   | Ok found \<Rightarrow> search_namespaces A nss (shoots @ found, cms @ ok_or_empty (ga_ListCACMs A ns)))"

text \<open>The loop over the configured paths; \<^verbatim>\<open>/\<close> ends it.\<close>

fun search_paths :: "garden_api \<Rightarrow> string list \<Rightarrow> shoots_and_cas \<Rightarrow> shoots_and_cas res" where
  "search_paths A [] acc = Ok acc"
| "search_paths A (path # paths) (shoots, cms) =
     (if path = ''/'' then
        (case gc_ListShoots A [] of
           Ok found \<Rightarrow> Ok (shoots @ found, cms @ ok_or_empty (ga_ListCACMs A []))
         | Panic p \<Rightarrow> Panic p
         | Err e \<Rightarrow> if \<not> through (ga_IsForbidden A) e then Err (list_failed path e)
                   else search_namespaces A (discoverProjectNamespaces A) (shoots, cms))
      else bindR (search_namespaces A [path] (shoots, cms)) (search_paths A paths))"

definition IsManagedSeed :: "Shoot \<Rightarrow> bool" where
  "IsManagedSeed s \<longleftrightarrow> sh_Namespace s = ''garden'' \<and> ''GardenletReady'' \<in> set (sh_Conditions s)"

definition shoot_project :: "string \<Rightarrow> string option" where
  "shoot_project ns = (if ns = ''garden'' then Some ''garden''
     else (case SplitN2 ns ''garden-'' of [_, p] \<Rightarrow> Some p | _ \<Rightarrow> None))"

fun cache_seeds :: "string \<Rightarrow> ManagedSeed list \<Rightarrow> (string, ManagedSeed) clusterCache \<Rightarrow>
    (string list \<times> (string, ManagedSeed) clusterCache) res" where
  "cache_seeds landscape [] c = Ok ([], c)"
| "cache_seeds landscape (ms # mss) c = (case ms_Shoot ms of
     None \<Rightarrow> Panic nil_deref
   | Some n \<Rightarrow> mapR (\<lambda>(names, c'). ((''garden:'' @ n) # names, c'))
       (cache_seeds landscape mss (cc_Set (GetSeedIdentifier landscape (ms_Name ms)) ms c)))"

definition shoot_path :: "string \<Rightarrow> string \<Rightarrow> Shoot \<Rightarrow> string" where
  "shoot_path landscape project s = (if IsManagedSeed s then GetSeedIdentifier landscape (sh_Name s)
     else GetShootIdentifier landscape project (sh_Name s))"

definition shoot_tags :: "string list \<Rightarrow> Shoot \<Rightarrow> tags" where
  "shoot_tags keys s = fold (\<lambda>key ts. case mget (sh_Labels s) key of Some v \<Rightarrow> if v \<noteq> [] then mset key v ts else ts | None \<Rightarrow> ts) keys []"

fun send_shoots :: "string \<Rightarrow> string list \<Rightarrow> string list \<Rightarrow> Shoot list \<Rightarrow> (string, Shoot) clusterCache \<Rightarrow>
    SearchResult list \<times> (string, Shoot) clusterCache" where
  "send_shoots landscape keys seeds [] c = ([], c)"
| "send_shoots landscape keys seeds (s # ss) c =
     (if sh_SeedName s = None then send_shoots landscape keys seeds ss c
      else (case shoot_project (sh_Namespace s) of
          None \<Rightarrow> send_shoots landscape keys seeds ss c
        | Some project \<Rightarrow>
            (let path = shoot_path landscape project s;
                 (rs, c') = send_shoots landscape keys seeds ss (cc_Set path s c)
             in (if sh_Namespace s @ '':'' @ sh_Name s \<in> set seeds then rs
                 else \<lparr>sr_KubeconfigPath = path, sr_Tags = shoot_tags keys s, sr_Error = None\<rparr> # rs, c'))))"

definition path_result :: "string \<Rightarrow> SearchResult" where
  "path_result path = \<lparr>sr_KubeconfigPath = path, sr_Tags = [], sr_Error = None\<rparr>"

text \<open>The alias of the garden cluster; a failure is only logged.\<close>

definition createGardenKubeconfigAlias :: "'r gardener_libs \<Rightarrow> gardener_store \<Rightarrow> string \<Rightarrow> unit io" where
  "createGardenKubeconfigAlias L s path =
     bindIO (gardener_GetKubeconfigForPath L s path) (\<lambda>(bytes, _).
     bindIO (wrapIO ''failed to get kubeconfig context names for path %q: %w'' [path]
       (liftR (GetContextsNamesFromKubeconfig (gl_um_kube L) bytes (gardener_GetContextPrefix s path)))) (\<lambda>contexts. case contexts of
       [] \<Rightarrow> failIO (Errorf ''no context names found'' [])
     | gardenContextName # _ \<Rightarrow>
         bindIO (GetDefaultAlias (gl_um_alias L) (gs_StateDirectory s)) (\<lambda>a.
         bindIO (WriteAlias path gardenContextName a) (\<lambda>(r, _). bindIO (liftR r) (\<lambda>_. returnIO ())))))"

text \<open>What is sent for the shoots and the managed seeds, and the caches it fills.\<close>

definition search_results :: "gardener_store \<Rightarrow> string \<Rightarrow> Shoot list \<Rightarrow> ManagedSeed list \<Rightarrow> (SearchResult list \<times> gardener_store) res" where
  "search_results s landscape shoots mss =
     mapR (\<lambda>(seeds, seedCache).
       let (rs, shootCache) = send_shoots landscape (gardener_GetShootLabelKeys s) seeds shoots (cc_Reset (gs_CachePathToShoot s))
       in (rs @ map path_result (cc_Keys seedCache),
           s\<lparr>gs_CachePathToManagedSeed := seedCache, gs_CachePathToShoot := shootCache\<rparr>))
     (cache_seeds landscape mss (cc_Reset (gs_CachePathToManagedSeed s)))"

definition sendKubeconfigPaths ::
    "'r gardener_libs \<Rightarrow> gardener_store \<Rightarrow> Shoot list \<Rightarrow> ManagedSeed list \<Rightarrow> (SearchResult list \<times> gardener_store) io" where
  "sendKubeconfigPaths L s shoots mss =
     (let gardenPath = GetGardenKubeconfigPath (gs_LandscapeIdentity s)
      in bindIO (if length (gs_LandscapeName s) > 0
             then bindIO (liftR (case gs_Config s of
                 Some c \<Rightarrow> (case LandscapeName c of Some n \<Rightarrow> Ok n | None \<Rightarrow> Panic nil_deref) | None \<Rightarrow> Panic nil_deref))
               (\<lambda>n. bindIO (ignoreIO (createGardenKubeconfigAlias L s gardenPath)) (\<lambda>_. returnIO n))
             else returnIO (gs_LandscapeIdentity s)) (\<lambda>landscape.
         bindIO (liftR (search_results s landscape shoots mss)) (\<lambda>(rs, s1).
         returnIO (path_result gardenPath # rs, s1))))"

definition search_paths_of :: "gardener_store \<Rightarrow> string list" where
  "search_paths_of s = (if length (ks_Paths (gs_KubeconfigStore s)) = 0 then [''/''] else ks_Paths (gs_KubeconfigStore s))"

definition sent_error :: "gerror \<Rightarrow> SearchResult" where
  "sent_error e = \<lparr>sr_KubeconfigPath = [], sr_Tags = [], sr_Error = Some e\<rparr>"

definition gardener_StartSearch :: "'r gardener_libs \<Rightarrow> gardener_store \<Rightarrow> (SearchResult list \<times> gardener_store) io" where
  "gardener_StartSearch L s = tryIO (InitializeGardenerStore L s)
     (\<lambda>s0. bindIO (liftR (client_of s0)) (\<lambda>A.
       let s1 = s0\<lparr>gs_KubeconfigStore := (gs_KubeconfigStore s0)\<lparr>ks_Paths := search_paths_of s0\<rparr>\<rparr>
       in tryIO (liftR (search_paths A (search_paths_of s0) ([], [])))
         (\<lambda>(shoots, cms).
           sendKubeconfigPaths L (s1\<lparr>gs_CacheCaNameToCACM := fold (\<lambda>cm. cc_Set (cm_Namespace cm @ '':'' @ cm_Name cm) cm) cms
             (cc_Reset (gs_CacheCaNameToCACM s1))\<rparr>) shoots (ok_or_empty (ga_ListManagedSeeds A)))
         (\<lambda>e. returnIO ([sent_error e], s1))))
     (\<lambda>e. returnIO ([sent_error (Wrapf ''failed to initialize store. This is most likely a problem with your provided kubeconfig: %w'' [] e)], s))"

section \<open>The preview\<close>

text \<open>A store that is not ready answers with an error, and its initialisation is started in the background.\<close>

definition gardener_GetSearchPreview :: "gardener_store \<Rightarrow> string \<Rightarrow> string res" where
  "gardener_GetSearchPreview s path =
     (if \<not> gs_ready s then Err (Errorf ''gardener store is not initalized yet'' [])
      else (let landscapeName = ''Gardener landscape: '' @
                  (if length (gs_LandscapeName s) > 0 then gs_LandscapeName s else gs_LandscapeIdentity s)
        in if GetGardenKubeconfigPath (gs_LandscapeIdentity s) = path then Ok (Print (Tree (landscapeName @ '' (*)'') []))
        else bindR (ParseIdentifier path) (\<lambda>(_, resource, name, namespace, projectName). case resource of
            ResourceSeed \<Rightarrow> Ok (Print (Tree landscapeName [Tree (''Seed: '' @ name @ '' (*)'') []]))
          | ResourceShoot \<Rightarrow> bindR (client_of s) (\<lambda>A. case ga_GetShoot A namespace name of
              Err e \<Rightarrow> if through (ga_IsNotFound A) e
                then Err (Errorf ''kubeconfig secret for %s (%s/%s) not found'' [resource_name resource, namespace, name])
                else Err (Wrapf ''failed to get kubeconfig secret for Shoot (%s/%s): %w'' [namespace, name] e)
            | Panic p \<Rightarrow> Panic p
            | Ok shoot \<Rightarrow> Ok (Print (Tree landscapeName [Tree (''Project: '' @ projectName) [],
                Tree (case sh_StatusSeedName shoot of None \<Rightarrow> ''Seed: not scheduled yet'' | Some n \<Rightarrow> ''Seed: '' @ n)
                  [Tree (''Shoot: '' @ sh_Name shoot @ '' (*)'') []]]))))))"

end
