(* ===== verification/GardenerLaws.thy ===== *)
theory GardenerLaws
  imports GardenerStore
begin

text \<open>
  What the Gardener store promises: which namespaces a search covers and which paths it sends, that the
  shoots and CAs it keeps from a search never change the kubeconfig of a shoot, what becomes of the seeds, and
  that the files in \<^verbatim>\<open>~/.garden\<close> keep what they hold.
\<close>

section \<open>The namespaces searched\<close>

text \<open>The namespaces whose shoots are asked for, \<^verbatim>\<open>[]\<close> for all of them at once.\<close>

definition searched :: "garden_api \<Rightarrow> string list \<Rightarrow> string list" where
  "searched A paths = takeWhile (\<lambda>p. p \<noteq> ''/'') paths @
     (if ''/'' \<in> set paths then (if is_ok (ga_ListShoots A []) then [[]] else discoverProjectNamespaces A) else [])"

definition forbidden :: "garden_api \<Rightarrow> string \<Rightarrow> bool" where
  "forbidden A ns \<longleftrightarrow> (\<exists>e. gc_ListShoots A ns = Err e \<and> through (ga_IsForbidden A) e)"

definition shoots_in :: "garden_api \<Rightarrow> string \<Rightarrow> Shoot list" where
  "shoots_in A ns = ok_or_empty (ga_ListShoots A ns)"

definition cacms_in :: "garden_api \<Rightarrow> string \<Rightarrow> ConfigMap list" where
  "cacms_in A ns = (if is_ok (ga_ListShoots A ns) then ok_or_empty (ga_ListCACMs A ns) else [])"

lemma gc_ListShoots_Ok: "gc_ListShoots A ns = Ok xs \<longleftrightarrow> ga_ListShoots A ns = Ok xs"
  by (simp add: gc_ListShoots_def)

lemma listed_simps:
  "ga_ListShoots A ns = Ok xs \<Longrightarrow> shoots_in A ns = xs" "gc_ListShoots A ns = Err e \<Longrightarrow> shoots_in A ns = []"
  "ga_ListShoots A ns = Ok xs \<Longrightarrow> cacms_in A ns = ok_or_empty (ga_ListCACMs A ns)"
  "gc_ListShoots A ns = Err e \<Longrightarrow> cacms_in A ns = []"
  by (cases "ga_ListShoots A ns"; simp add: shoots_in_def cacms_in_def gc_ListShoots_def ok_or_empty_def)+

lemma search_namespaces_Ok:
  assumes "search_namespaces A nss (shoots, cms) = Ok (shoots', cms')"
  shows "shoots' = shoots @ concat (map (shoots_in A) nss) \<and> cms' = cms @ concat (map (cacms_in A) nss) \<and>
    (\<forall>ns \<in> set nss. is_ok (ga_ListShoots A ns) \<or> forbidden A ns)"
  using assms
proof (induction nss arbitrary: shoots cms)
  case (Cons ns nss)
  show ?case
  proof (cases "gc_ListShoots A ns")
    case (Ok xs)
    then have "search_namespaces A nss (shoots @ xs, cms @ ok_or_empty (ga_ListCACMs A ns)) = Ok (shoots', cms')"
      using Cons.prems by simp
    from Cons.IH [OF this] show ?thesis using Ok by (auto simp: gc_ListShoots_Ok listed_simps)
  next
    case (Err e)
    then have "through (ga_IsForbidden A) e" "search_namespaces A nss (shoots, cms) = Ok (shoots', cms')"
      using Cons.prems by (auto split: if_splits)
    with Cons.IH [OF this(2)] show ?thesis using Err by (auto simp: listed_simps forbidden_def)
  next
    case (Panic p)
    then show ?thesis using Cons.prems by simp
  qed
qed simp

lemma search_paths_Ok:
  assumes "search_paths A paths (shoots, cms) = Ok (shoots', cms')"
  shows "shoots' = shoots @ concat (map (shoots_in A) (searched A paths)) \<and>
    cms' = cms @ concat (map (cacms_in A) (searched A paths)) \<and>
    (\<forall>ns \<in> set (searched A paths). is_ok (ga_ListShoots A ns) \<or> forbidden A ns)"
  using assms
proof (induction paths arbitrary: shoots cms)
  case Nil
  then show ?case by (simp add: searched_def)
next
  case (Cons path paths)
  show ?case
  proof (cases "path = ''/''")
    case True
    show ?thesis
    proof (cases "gc_ListShoots A []")
      case (Ok xs)
      then have "ga_ListShoots A [] = Ok xs" by (simp add: gc_ListShoots_Ok)
      then show ?thesis using Cons.prems True Ok by (auto simp: searched_def listed_simps)
    next
      case (Err e)
      then have "search_namespaces A (discoverProjectNamespaces A) (shoots, cms) = Ok (shoots', cms')"
        using Cons.prems True by (auto split: if_splits)
      moreover have "\<not> is_ok (ga_ListShoots A [])" using Err by (cases "ga_ListShoots A []") (auto simp: gc_ListShoots_def)
      ultimately show ?thesis using True search_namespaces_Ok by (simp add: searched_def)
    next
      case (Panic p)
      then show ?thesis using Cons.prems True by simp
    qed
  next
    case False
    then obtain sh cm where s: "search_namespaces A [path] (shoots, cms) = Ok (sh, cm)"
      "search_paths A paths (sh, cm) = Ok (shoots', cms')" using Cons.prems by auto
    have "searched A (path # paths) = path # searched A paths" using False by (auto simp: searched_def)
    then show ?thesis using search_namespaces_Ok [OF s(1)] Cons.IH [OF s(2)] by simp
  qed
qed

text \<open>
  A search that succeeds has the shoots of every namespace configured before \<^verbatim>\<open>/\<close>, and then, when \<^verbatim>\<open>/\<close> is
  configured, of all namespaces, or of the project namespaces when listing all is forbidden. A namespace is
  left out only because listing it is forbidden; what is configured after \<^verbatim>\<open>/\<close> is not searched.
\<close>

theorem search_paths_spec:
  assumes "search_paths A paths ([], []) = Ok (shoots, cms)"
  shows "shoots = concat (map (shoots_in A) (searched A paths)) \<and> cms = concat (map (cacms_in A) (searched A paths)) \<and>
    (\<forall>ns \<in> set (searched A paths). is_ok (ga_ListShoots A ns) \<or> forbidden A ns)"
  using search_paths_Ok [OF assms] by simp

section \<open>The paths sent\<close>

text \<open>A shoot of a project: its namespace is \<^verbatim>\<open>garden\<close> or \<^verbatim>\<open>garden-\<close> and a project; no name has \<^verbatim>\<open>--\<close>.\<close>

definition shoot_ok :: "Shoot \<Rightarrow> bool" where
  "shoot_ok sh \<longleftrightarrow> \<not> Contains (sh_Name sh) ''--'' \<and> (sh_Namespace sh = ''garden'' \<or>
     HasPrefix (sh_Namespace sh) ''garden-'' \<and> drop 7 (sh_Namespace sh) \<noteq> ''garden'' \<and> part_ok (drop 7 (sh_Namespace sh)))"

lemma shoot_project_ok:
  assumes "shoot_ok sh"
  obtains p where "shoot_project (sh_Namespace sh) = Some p" "part_ok p" "project_namespace p = sh_Namespace sh"
proof (cases "sh_Namespace sh = ''garden''")
  case True
  then show ?thesis by (intro that [of "''garden''"])
    (simp_all add: shoot_project_def project_namespace_def part_ok_def Contains_def HasPrefix_def)
next
  case False
  then obtain p where p: "sh_Namespace sh = ''garden-'' @ p" "p \<noteq> ''garden''" "part_ok p"
    using assms by (auto simp: shoot_ok_def HasPrefix_iff)
  have "GoStrings.Index (''garden-'' @ p) ''garden-'' = Some 0"
    by (simp add: HasPrefix_def)
  then have "Cut (''garden-'' @ p) ''garden-'' = Some ([], p)" by (simp add: Cut_def)
  then have "SplitN2 (''garden-'' @ p) ''garden-'' = [[], p]" by (simp add: SplitN2_def)
  then have "shoot_project (sh_Namespace sh) = Some p" using p(1) by (simp add: shoot_project_def)
  moreover have "project_namespace p = sh_Namespace sh" using p(1,2) by (simp add: project_namespace_def)
  ultimately show ?thesis using p(3) that by blast
qed

lemma shoot_path_parses:
  assumes "shoot_ok sh" "part_ok landscape" "shoot_project (sh_Namespace sh) = Some p"
  shows "ParseIdentifier (shoot_path landscape p sh) =
    Ok (landscape, if IsManagedSeed sh then ResourceSeed else ResourceShoot, sh_Name sh, sh_Namespace sh, p)"
proof -
  have p: "part_ok p" "project_namespace p = sh_Namespace sh" using shoot_project_ok [OF assms(1)] assms(3) by auto
  have n: "\<not> Contains (sh_Name sh) ''--''" using assms(1) by (simp add: shoot_ok_def)
  have "IsManagedSeed sh \<Longrightarrow> sh_Namespace sh = ''garden'' \<and> p = ''garden''"
    using assms(3) by (auto simp: IsManagedSeed_def shoot_project_def)
  then show ?thesis using ParseIdentifier_roundtrip [OF assms(2) p(1) n] p(2) by (auto simp: shoot_path_def)
qed

lemma cc_simps [simp]:
  "cc_Get (cc_Set k v c) k' = (if k' = k then Some v else cc_Get c k')" "cc_Get (cc_Reset c) k' = None"
  "cc_Get newClusterCache k' = None"
  by (simp_all add: cc_Get_def cc_Set_def cc_Reset_def newClusterCache_def)

definition shoot_result :: "string \<Rightarrow> string list \<Rightarrow> string \<Rightarrow> Shoot \<Rightarrow> SearchResult" where
  "shoot_result landscape keys p sh =
     \<lparr>sr_KubeconfigPath = shoot_path landscape p sh, sr_Tags = shoot_tags keys sh, sr_Error = None\<rparr>"

lemma send_shoots_skip:
  "sh_SeedName s = None \<or> shoot_project (sh_Namespace s) = None \<Longrightarrow>
    send_shoots landscape keys seeds (s # ss) c = send_shoots landscape keys seeds ss c"
  by (auto split: option.splits)

lemma send_shoots_found:
  "sh_SeedName s \<noteq> None \<Longrightarrow> shoot_project (sh_Namespace s) = Some p \<Longrightarrow>
    send_shoots landscape keys seeds (s # ss) c =
      (let rest = send_shoots landscape keys seeds ss (cc_Set (shoot_path landscape p s) s c)
       in (if sh_Namespace s @ '':'' @ sh_Name s \<in> set seeds then fst rest else shoot_result landscape keys p s # fst rest, snd rest))"
  by (auto simp: Let_def shoot_result_def split: prod.splits)

lemma send_shoots_induct [case_names Nil skip found]:
  assumes "\<And>c. P [] c"
    and "\<And>s ss c. sh_SeedName s = None \<or> shoot_project (sh_Namespace s) = None \<Longrightarrow> (\<And>c. P ss c) \<Longrightarrow> P (s # ss) c"
    and "\<And>s ss c p. sh_SeedName s \<noteq> None \<Longrightarrow> shoot_project (sh_Namespace s) = Some p \<Longrightarrow> (\<And>c. P ss c) \<Longrightarrow> P (s # ss) c"
  shows "P ss (c :: (string, Shoot) clusterCache)"
proof (induction ss arbitrary: c)
  case (Cons s ss)
  show ?case
  proof (cases "sh_SeedName s = None \<or> shoot_project (sh_Namespace s) = None")
    case False
    then obtain p where "sh_SeedName s \<noteq> None" "shoot_project (sh_Namespace s) = Some p" by auto
    from assms(3) [OF this Cons.IH] show ?thesis .
  qed (use assms(2) Cons.IH in blast)
qed (rule assms(1))

lemma send_shoots_cache:
  "cc_Get (snd (send_shoots landscape keys seeds ss c)) k = Some v \<Longrightarrow>
    cc_Get c k = Some v \<or> v \<in> set ss \<and> (\<exists>p. shoot_project (sh_Namespace v) = Some p \<and> k = shoot_path landscape p v)"
proof (induction ss c rule: send_shoots_induct)
  case (found s ss c p)
  then have "cc_Get (snd (send_shoots landscape keys seeds ss (cc_Set (shoot_path landscape p s) s c))) k = Some v"
    by (simp add: send_shoots_found Let_def del: send_shoots.simps)
  from found(3) [OF this] show ?case using found(2) by (auto split: if_splits)
qed (auto simp: send_shoots_skip simp del: send_shoots.simps(2))

lemma send_shoots_sent:
  "r \<in> set (fst (send_shoots landscape keys seeds ss c)) \<Longrightarrow>
    \<exists>sh \<in> set ss. \<exists>p. shoot_project (sh_Namespace sh) = Some p \<and> r = shoot_result landscape keys p sh"
proof (induction ss c rule: send_shoots_induct)
  case (found s ss c p)
  let ?rest = "fst (send_shoots landscape keys seeds ss (cc_Set (shoot_path landscape p s) s c))"
  have "r = shoot_result landscape keys p s \<or> r \<in> set ?rest"
    using found(1,2,4) by (auto simp: send_shoots_found Let_def simp del: send_shoots.simps split: if_splits)
  then show ?case using found(2,3) by fastforce
qed (auto simp: send_shoots_skip simp del: send_shoots.simps(2))

lemma send_shoots_complete:
  "sh \<in> set ss \<Longrightarrow> sh_SeedName sh \<noteq> None \<Longrightarrow> shoot_project (sh_Namespace sh) = Some p \<Longrightarrow>
    sh_Namespace sh @ '':'' @ sh_Name sh \<notin> set seeds \<Longrightarrow>
    shoot_result landscape keys p sh \<in> set (fst (send_shoots landscape keys seeds ss c))"
proof (induction ss c rule: send_shoots_induct)
  case (found s ss c q)
  then show ?case by (cases "sh = s") (auto simp: send_shoots_found Let_def simp del: send_shoots.simps)
qed (auto simp: send_shoots_skip simp del: send_shoots.simps(2))

lemma cache_seeds_Ok:
  "cache_seeds landscape mss c = Ok (names, c') \<Longrightarrow>
    set names = {''garden:'' @ n | ms n. ms \<in> set mss \<and> ms_Shoot ms = Some n} \<and>
    set (cc_Keys c') = set (cc_Keys c) \<union> (\<lambda>ms. GetSeedIdentifier landscape (ms_Name ms)) ` set mss"
proof (induction mss arbitrary: c names)
  case (Cons ms mss)
  then obtain n names' where n: "ms_Shoot ms = Some n" "names = (''garden:'' @ n) # names'"
    "cache_seeds landscape mss (cc_Set (GetSeedIdentifier landscape (ms_Name ms)) ms c) = Ok (names', c')"
    by (auto split: option.splits)
  have "set (cc_Keys (cc_Set k ms c)) = insert k (set (cc_Keys c))" for k
    by (simp add: cc_Keys_def cc_Set_def dom_update [unfolded dom_map_of_conv_image_fst])
  then show ?case using Cons.IH [OF n(3)] n(1,2) by auto
qed simp

text \<open>What the caches of a search and the results after the garden path hold.\<close>

lemma search_results_sent:
  assumes "search_results s landscape shoots mss = Ok (rs, s')" and ok: "\<forall>sh \<in> set shoots. shoot_ok sh" and "part_ok landscape"
  shows "(\<forall>r \<in> set rs. sr_Error r = None \<and>
      ((\<exists>ms \<in> set mss. sr_KubeconfigPath r = GetSeedIdentifier landscape (ms_Name ms) \<and> sr_Tags r = []) \<or>
       (\<exists>sh \<in> set shoots. sr_Tags r = shoot_tags (gardener_GetShootLabelKeys s) sh \<and> (\<exists>kind project.
          ParseIdentifier (sr_KubeconfigPath r) = Ok (landscape, kind, sh_Name sh, sh_Namespace sh, project))))) \<and>
    (\<forall>sh \<in> set shoots. sh_SeedName sh \<noteq> None \<longrightarrow>
      (\<exists>r \<in> set rs. \<exists>kind project. ParseIdentifier (sr_KubeconfigPath r) = Ok (landscape, kind, sh_Name sh, sh_Namespace sh, project)) \<or>
      (\<exists>ms \<in> set mss. sh_Namespace sh = ''garden'' \<and> ms_Shoot ms = Some (sh_Name sh))) \<and>
    (\<forall>ms \<in> set mss. \<exists>r \<in> set rs. sr_KubeconfigPath r = GetSeedIdentifier landscape (ms_Name ms))"
proof -
  let ?keys = "gardener_GetShootLabelKeys s"
  obtain seeds sc where c: "cache_seeds landscape mss (cc_Reset (gs_CachePathToManagedSeed s)) = Ok (seeds, sc)"
    "rs = fst (send_shoots landscape ?keys seeds shoots (cc_Reset (gs_CachePathToShoot s))) @ map path_result (cc_Keys sc)"
    using assms(1) by (auto simp: search_results_def Let_def case_prod_unfold)
  have "cc_Keys (cc_Reset (gs_CachePathToManagedSeed s)) = []" by (simp add: cc_Keys_def cc_Reset_def)
  then have k: "set (cc_Keys sc) = (\<lambda>ms. GetSeedIdentifier landscape (ms_Name ms)) ` set mss"
    and seeds: "set seeds = {''garden:'' @ n | ms n. ms \<in> set mss \<and> ms_Shoot ms = Some n}"
    using cache_seeds_Ok [OF c(1)] by simp_all
  have m: "set rs = set (fst (send_shoots landscape ?keys seeds shoots (cc_Reset (gs_CachePathToShoot s)))) \<union>
      (\<lambda>ms. path_result (GetSeedIdentifier landscape (ms_Name ms))) ` set mss"
    using c(2) k by (simp add: image_image)
  have sent: "sr_Error r = None \<and> (\<exists>sh \<in> set shoots. sr_Tags r = shoot_tags ?keys sh \<and> (\<exists>kind project.
      ParseIdentifier (sr_KubeconfigPath r) = Ok (landscape, kind, sh_Name sh, sh_Namespace sh, project)))"
    if "r \<in> set (fst (send_shoots landscape ?keys seeds shoots (cc_Reset (gs_CachePathToShoot s))))" for r
    using send_shoots_sent [OF that] shoot_path_parses [OF _ assms(3)] ok by (auto simp: shoot_result_def)
  have "(\<exists>r \<in> set rs. \<exists>kind project.
      ParseIdentifier (sr_KubeconfigPath r) = Ok (landscape, kind, sh_Name sh, sh_Namespace sh, project)) \<or>
      (\<exists>ms \<in> set mss. sh_Namespace sh = ''garden'' \<and> ms_Shoot ms = Some (sh_Name sh))"
    if sh: "sh \<in> set shoots" "sh_SeedName sh \<noteq> None" for sh
  proof (cases "sh_Namespace sh @ '':'' @ sh_Name sh \<in> set seeds")
    case True
    then obtain ms n where ms: "ms \<in> set mss" "ms_Shoot ms = Some n" "sh_Namespace sh @ '':'' @ sh_Name sh = ''garden:'' @ n"
      using seeds by auto
    have "sh_Namespace sh = ''garden'' \<or> (\<exists>q. sh_Namespace sh = ''garden-'' @ q)"
      using ok sh(1) by (auto simp: shoot_ok_def HasPrefix_iff)
    then have "sh_Namespace sh = ''garden''" "sh_Name sh = n" using ms(3) by auto
    then show ?thesis using ms by blast
  next
    case False
    obtain p where p: "shoot_project (sh_Namespace sh) = Some p" using shoot_project_ok ok sh(1) by blast
    then have "shoot_result landscape ?keys p sh \<in> set rs" using send_shoots_complete [OF sh p False] m by blast
    then show ?thesis using shoot_path_parses [OF _ assms(3) p] ok sh(1) by (auto simp: shoot_result_def intro!: bexI)
  qed
  moreover have "\<forall>ms \<in> set mss. path_result (GetSeedIdentifier landscape (ms_Name ms)) \<in> set rs" using m by blast
  ultimately show ?thesis using m sent by (auto simp: path_result_def intro: bexI [rotated])
qed

text \<open>The landscape in the paths: the configured name, or else the identity.\<close>

definition sent_landscape :: "gardener_store \<Rightarrow> string" where
  "sent_landscape s = (if gs_LandscapeName s = [] then gs_LandscapeIdentity s
     else case gs_Config s of None \<Rightarrow> [] | Some c \<Rightarrow> (case LandscapeName c of None \<Rightarrow> [] | Some n \<Rightarrow> n))"

lemma sendKubeconfigPaths_results:
  assumes "sendKubeconfigPaths L s shoots mss w = (Ok (rs, s'), w')"
  shows "\<exists>rest. rs = path_result (GetGardenKubeconfigPath (gs_LandscapeIdentity s)) # rest \<and>
     search_results s (sent_landscape s) shoots mss = Ok (rest, s')"
  using assms
  by (auto simp: sendKubeconfigPaths_def sent_landscape_def Let_def bindIO_Ok_iff split: if_splits option.splits)


section \<open>The shoots and CAs kept from a search\<close>

text \<open>What is listed can also be read by its name, with the same content; names have no colon.\<close>

definition api_consistent :: "garden_api \<Rightarrow> bool" where
  "api_consistent A \<longleftrightarrow>
     (\<forall>ns shoots. ga_ListShoots A ns = Ok shoots \<longrightarrow>
        (\<forall>sh \<in> set shoots. shoot_ok sh \<and> ga_GetShoot A (sh_Namespace sh) (sh_Name sh) = Ok sh)) \<and>
     (\<forall>ns cms. ga_ListCACMs A ns = Ok cms \<longrightarrow>
        (\<forall>cm \<in> set cms. CHR '':'' \<notin> set (cm_Namespace cm) \<union> set (cm_Name cm) \<and>
           ga_GetConfigMap A (cm_Namespace cm) (cm_Name cm) = Ok cm))"

lemma shoots_in_consistent:
  "api_consistent A \<Longrightarrow> sh \<in> set (shoots_in A ns) \<Longrightarrow> shoot_ok sh \<and> ga_GetShoot A (sh_Namespace sh) (sh_Name sh) = Ok sh"
  by (cases "ga_ListShoots A ns") (auto simp: api_consistent_def shoots_in_def ok_or_empty_def)

lemma cacms_in_consistent:
  "api_consistent A \<Longrightarrow> cm \<in> set (cacms_in A ns) \<Longrightarrow> CHR '':'' \<notin> set (cm_Namespace cm) \<union> set (cm_Name cm) \<and>
    ga_GetConfigMap A (cm_Namespace cm) (cm_Name cm) = Ok cm"
  by (cases "ga_ListCACMs A ns") (auto simp: api_consistent_def cacms_in_def ok_or_empty_def split: if_splits)

text \<open>Each entry of the caches is what the API gives for the name it is kept under.\<close>

definition caches_ok :: "garden_api \<Rightarrow> gardener_store \<Rightarrow> bool" where
  "caches_ok A s \<longleftrightarrow>
     (\<forall>k sh. cc_Get (gs_CachePathToShoot s) k = Some sh \<longrightarrow>
        (\<exists>l kind p. ParseIdentifier k = Ok (l, kind, sh_Name sh, sh_Namespace sh, p)) \<and>
        ga_GetShoot A (sh_Namespace sh) (sh_Name sh) = Ok sh) \<and>
     (\<forall>ns n cm. cc_Get (gs_CacheCaNameToCACM s) (ns @ '':'' @ n) = Some cm \<longrightarrow> ga_GetConfigMap A ns n = Ok cm)"

lemma caches_ok_shoot:
  assumes "caches_ok A s" "cc_Get (gs_CachePathToShoot s) k = Some sh" "ParseIdentifier k = Ok (l, kind, n, ns, p)"
  shows "ga_GetShoot A ns n = Ok sh"
proof -
  obtain l' kind' p' where "ParseIdentifier k = Ok (l', kind', sh_Name sh, sh_Namespace sh, p')"
    "ga_GetShoot A (sh_Namespace sh) (sh_Name sh) = Ok sh" using assms(1,2) unfolding caches_ok_def by blast
  then show ?thesis using assms(3) by simp
qed

definition forget_caches :: "gardener_store \<Rightarrow> gardener_store" where
  "forget_caches s = s\<lparr>gs_CachePathToShoot := newClusterCache, gs_CachePathToManagedSeed := newClusterCache,
     gs_CacheCaNameToCACM := newClusterCache\<rparr>"

lemma forget_simps [simp]:
  "gs_CachePathToShoot (forget_caches s) = newClusterCache" "gs_CachePathToManagedSeed (forget_caches s) = newClusterCache"
  "gs_CacheCaNameToCACM (forget_caches s) = newClusterCache" "gs_Client (forget_caches s) = gs_Client s"
  "gs_LandscapeName (forget_caches s) = gs_LandscapeName s" "gs_LandscapeIdentity (forget_caches s) = gs_LandscapeIdentity s"
  by (simp_all add: forget_caches_def)

lemma caches_ok_forget [simp]: "caches_ok A (forget_caches s)"
  by (simp add: caches_ok_def)

lemma finish_forget [simp]: "finish_kubeconfig L (forget_caches s) = finish_kubeconfig L s"
  by (intro ext) (simp add: finish_kubeconfig_def)

lemma GetShootClientConfig_memo:
  assumes "\<And>sh. memo = Some sh \<Longrightarrow> ga_GetShoot A ns n = Ok sh"
    and "\<And>cm. ca = Some cm \<Longrightarrow> ga_GetConfigMap A ns (n @ ''.ca-cluster'') = Ok cm"
  shows "GetShootClientConfig A host is_legacy gname ns n memo ca = GetShootClientConfig A host is_legacy gname ns n None None"
proof -
  have m: "(case memo of Some s \<Rightarrow> Ok s | None \<Rightarrow> ga_GetShoot A ns n) = ga_GetShoot A ns n"
    using assms(1) by (cases memo) simp_all
  have c: "get_ca A ns n ca = get_ca A ns n None" using assms(2) by (cases ca) (simp_all add: get_ca_def)
  show ?thesis unfolding GetShootClientConfig_def m c by (simp only: option.case)
qed

lemma identified_kubeconfig_caches:
  assumes "caches_ok A s" and "gs_Client s = Some A" and "ParseIdentifier path = Ok (l, ResourceShoot, n, ns, p)"
  shows "identified_kubeconfig L s path = identified_kubeconfig L (forget_caches s) path"
proof -
  let ?ca = "cc_Get (gs_CacheCaNameToCACM s) (ns @ '':'' @ n @ ''.ca-cluster'')"
  have "ga_GetShoot A ns n = Ok sh" if "cc_Get (gs_CachePathToShoot s) path = Some sh" for sh
    by (rule caches_ok_shoot [OF assms(1) that assms(3)])
  moreover have "ga_GetConfigMap A ns (n @ ''.ca-cluster'') = Ok cm" if "?ca = Some cm" for cm
    using that assms(1) by (auto simp: caches_ok_def)
  ultimately have "GetShootClientConfig A host is_legacy gname ns n (cc_Get (gs_CachePathToShoot s) path) ?ca =
      GetShootClientConfig A host is_legacy gname ns n None None" for host is_legacy gname
    by (rule GetShootClientConfig_memo)
  then show ?thesis using assms(2,3)
    by (intro ext) (simp add: identified_kubeconfig_def shoot_key_def client_of_def Let_def bindIO_apply)
qed

lemma search_results_caches:
  assumes "search_results s landscape shoots mss = Ok (rs, s')" and "part_ok landscape"
    and sh: "\<forall>sh \<in> set shoots. shoot_ok sh \<and> ga_GetShoot A (sh_Namespace sh) (sh_Name sh) = Ok sh"
    and ca: "\<forall>ns n cm. cc_Get (gs_CacheCaNameToCACM s) (ns @ '':'' @ n) = Some cm \<longrightarrow> ga_GetConfigMap A ns n = Ok cm"
  shows "caches_ok A s' \<and> gs_Client s' = gs_Client s"
proof -
  obtain seeds sc where s': "s' = s\<lparr>gs_CachePathToManagedSeed := sc, gs_CachePathToShoot :=
      snd (send_shoots landscape (gardener_GetShootLabelKeys s) seeds shoots (cc_Reset (gs_CachePathToShoot s)))\<rparr>"
    using assms(1) by (auto simp: search_results_def Let_def case_prod_unfold)
  have "\<exists>l kind p. ParseIdentifier k = Ok (l, kind, sh_Name v, sh_Namespace v, p) \<and> ga_GetShoot A (sh_Namespace v) (sh_Name v) = Ok v"
    if "cc_Get (gs_CachePathToShoot s') k = Some v" for k v
  proof -
    have "cc_Get (snd (send_shoots landscape (gardener_GetShootLabelKeys s) seeds shoots (cc_Reset (gs_CachePathToShoot s)))) k = Some v"
      using that by (simp add: s')
    from send_shoots_cache [OF this] obtain p where
      "v \<in> set shoots" "shoot_project (sh_Namespace v) = Some p" "k = shoot_path landscape p v" by auto
    then show ?thesis using sh shoot_path_parses [OF _ assms(2)] by blast
  qed
  then show ?thesis using ca by (auto simp: caches_ok_def s')
qed

lemma fold_cacms:
  assumes "cc_Get (fold (\<lambda>cm. cc_Set (cm_Namespace cm @ '':'' @ cm_Name cm) cm) cms c) k = Some v"
  shows "cc_Get c k = Some v \<or> v \<in> set cms \<and> k = cm_Namespace v @ '':'' @ cm_Name v"
  using assms by (induction cms arbitrary: c) (fastforce split: if_splits)+

lemma colon_split:
  assumes "ns @ '':'' @ n = ns' @ '':'' @ n'" and "CHR '':'' \<notin> set ns' \<union> set n'" shows "ns = ns' \<and> n = n'"
proof -
  have "CHR '':'' \<notin> set ns"
  proof
    assume "CHR '':'' \<in> set ns"
    then have "count_list ns (CHR '':'') \<noteq> 0" by (simp add: count_list_0_iff)
    then have "2 \<le> count_list (ns @ '':'' @ n) (CHR '':'')" by simp
    moreover have "count_list (ns' @ '':'' @ n') (CHR '':'') = 1" using assms(2) by simp
    ultimately show False unfolding assms(1) by simp
  qed
  then have "Cut (ns @ '':'' @ n) '':'' = Some (ns, n)" using Cut_single [of "CHR '':''" ns n] by simp
  moreover have "Cut (ns' @ '':'' @ n') '':'' = Some (ns', n')" using assms(2) Cut_single [of "CHR '':''" ns' n'] by simp
  ultimately show ?thesis unfolding assms(1) by simp
qed

lemma cacms_cached:
  assumes "api_consistent A" and "cms = concat (map (cacms_in A) nss)"
    and "cc_Get (fold (\<lambda>cm. cc_Set (cm_Namespace cm @ '':'' @ cm_Name cm) cm) cms (cc_Reset c)) (ns @ '':'' @ n) = Some cm"
  shows "ga_GetConfigMap A ns n = Ok cm"
proof -
  have m: "cm \<in> set cms" "ns @ '':'' @ n = cm_Namespace cm @ '':'' @ cm_Name cm" using fold_cacms [OF assms(3)] by auto
  then have "CHR '':'' \<notin> set (cm_Namespace cm) \<union> set (cm_Name cm)" "ga_GetConfigMap A (cm_Namespace cm) (cm_Name cm) = Ok cm"
    using assms(2) cacms_in_consistent [OF assms(1)] by auto
  then show ?thesis using colon_split [OF m(2)] by simp
qed

lemma InitializeGardenerStore_keeps:
  assumes "InitializeGardenerStore L s w = (Ok s0, w')"
  shows "gs_CachePathToShoot s0 = gs_CachePathToShoot s \<and> gs_CacheCaNameToCACM s0 = gs_CacheCaNameToCACM s \<and>
    gs_Config s0 = gs_Config s \<and> gs_LandscapeName s0 = gs_LandscapeName s \<and> gs_KubeconfigStore s0 = gs_KubeconfigStore s"
  using assms
  by (auto simp: InitializeGardenerStore_def initialize_def bindIO_Ok_iff split: if_splits option.splits)

lemma search_results_env: "search_results s landscape shoots mss = Ok (rs, s') \<Longrightarrow> gs_LandscapeIdentity s' = gs_LandscapeIdentity s"
  by (auto simp: search_results_def Let_def case_prod_unfold)

lemma sendKubeconfigPaths_Ok:
  assumes "sendKubeconfigPaths L s shoots mss w = (Ok (rs, s'), w')"
  shows "\<exists>landscape rs'. search_results s landscape shoots mss = Ok (rs', s') \<and>
    rs = path_result (GetGardenKubeconfigPath (gs_LandscapeIdentity s)) # rs' \<and>
    (landscape = gs_LandscapeIdentity s \<or> (\<exists>c. gs_Config s = Some c \<and> LandscapeName c = Some landscape))"
  using assms by (auto simp: sendKubeconfigPaths_def Let_def bindIO_Ok_iff split: if_splits option.splits)

text \<open>
  C39. Whatever a search finds, fails with or leaves out, the shoots and CAs that the store keeps from it are those
  that the API gives for the names they are kept under. So the kubeconfig of a shoot is the one that a store that
  keeps nothing would make.
\<close>

theorem search_caches_transparent:
  assumes "gardener_StartSearch L s w = (Ok (rs, s'), w')" and "gs_Client s' = Some A" and "api_consistent A" and "caches_ok A s"
    and "part_ok (gs_LandscapeIdentity s')" and "\<forall>c n. gs_Config s = Some c \<and> LandscapeName c = Some n \<longrightarrow> part_ok n"
  shows "caches_ok A s' \<and> (\<forall>path l n ns p. ParseIdentifier path = Ok (l, ResourceShoot, n, ns, p) \<longrightarrow>
    identified_kubeconfig L s' path = identified_kubeconfig L (forget_caches s') path)"
proof -
  have "caches_ok A s'"
  proof (cases "InitializeGardenerStore L s w")
    case (Pair r w1)
    show ?thesis
    proof (cases r)
      case (Ok s0)
      then have i: "InitializeGardenerStore L s w = (Ok s0, w1)" using Pair by simp
      note k = InitializeGardenerStore_keeps [OF i]
      then have ok0: "caches_ok A s0" using assms(4) by (simp add: caches_ok_def)
      let ?s1 = "s0\<lparr>gs_KubeconfigStore := (gs_KubeconfigStore s0)\<lparr>ks_Paths := search_paths_of s0\<rparr>\<rparr>"
      obtain B where B: "client_of s0 = Ok B" using assms(1) i
        by (cases "client_of s0") (simp_all add: gardener_StartSearch_def)
      show ?thesis
      proof (cases "search_paths B (search_paths_of s0) ([], [])")
        case (Err e)
        then have "s' = ?s1" using assms(1) i B by (simp add: gardener_StartSearch_def Let_def)
        then show ?thesis using ok0 by (simp add: caches_ok_def)
      next
        case (Panic p)
        then show ?thesis using assms(1) i B by (simp add: gardener_StartSearch_def Let_def)
      next
        case (Ok f)
        obtain shoots cms where f: "f = (shoots, cms)" by (cases f)
        let ?s2 = "?s1\<lparr>gs_CacheCaNameToCACM := fold (\<lambda>cm. cc_Set (cm_Namespace cm @ '':'' @ cm_Name cm) cm) cms
             (cc_Reset (gs_CacheCaNameToCACM ?s1))\<rparr>"
        have "sendKubeconfigPaths L ?s2 shoots (ok_or_empty (ga_ListManagedSeeds B)) w1 = (Ok (rs, s'), w')"
          using assms(1) i B Ok f by (simp add: gardener_StartSearch_def Let_def)
        from sendKubeconfigPaths_Ok [OF this] obtain landscape rs' where
          sr: "search_results ?s2 landscape shoots (ok_or_empty (ga_ListManagedSeeds B)) = Ok (rs', s')"
          and l: "landscape = gs_LandscapeIdentity s0 \<or> (\<exists>c. gs_Config s0 = Some c \<and> LandscapeName c = Some landscape)" by auto
        have "gs_Client s' = gs_Client s0" using sr by (auto simp: search_results_def Let_def case_prod_unfold)
        then have AB: "B = A" using B assms(2) by (simp add: client_of_def split: option.splits)
        have pl: "part_ok landscape" using l assms(5,6) k search_results_env [OF sr] by auto
        note fs = search_paths_Ok [OF Ok [unfolded f AB]]
        have "\<forall>sh \<in> set shoots. shoot_ok sh \<and> ga_GetShoot A (sh_Namespace sh) (sh_Name sh) = Ok sh"
          using fs shoots_in_consistent [OF assms(3)] by auto
        moreover have "\<forall>ns n cm. cc_Get (gs_CacheCaNameToCACM ?s2) (ns @ '':'' @ n) = Some cm \<longrightarrow> ga_GetConfigMap A ns n = Ok cm"
          using cacms_cached [OF assms(3), of cms] fs by simp
        ultimately show ?thesis using search_results_caches [OF sr pl] by blast
      qed
    next
      case (Err e)
      then show ?thesis using assms(1,4) Pair by (simp add: gardener_StartSearch_def)
    next
      case (Panic p)
      then show ?thesis using assms(1) Pair by (simp add: gardener_StartSearch_def)
    qed
  qed
  then show ?thesis using identified_kubeconfig_caches [OF _ assms(2)] by blast
qed

section \<open>Managed seeds\<close>

lemma cache_seeds_get:
  "cache_seeds landscape mss c = Ok (names, c') \<Longrightarrow> cc_Get c' k = Some v \<Longrightarrow>
    cc_Get c k = Some v \<or> v \<in> set mss \<and> k = GetSeedIdentifier landscape (ms_Name v)"
proof (induction mss arbitrary: c names)
  case (Cons ms mss)
  then obtain n names' where
    "cache_seeds landscape mss (cc_Set (GetSeedIdentifier landscape (ms_Name ms)) ms c) = Ok (names', c')"
    by (auto split: option.splits)
  from Cons.IH [OF this Cons.prems(2)] show ?case by (auto split: if_splits)
qed simp

lemma cc_Get_keys: "k \<in> set (cc_Keys c) \<longleftrightarrow> cc_Get c k \<noteq> None"
  by (simp add: cc_Keys_def cc_Get_def map_of_eq_None_iff)

lemma managed_seed_cached:
  assumes "search_results s landscape shoots mss = Ok (rs, s')" "ms \<in> set mss"
    and "\<forall>ms' \<in> set mss. ms_Name ms' = ms_Name ms \<longrightarrow> ms' = ms"
  shows "cc_Get (gs_CachePathToManagedSeed s') (GetSeedIdentifier landscape (ms_Name ms)) = Some ms"
proof -
  let ?k = "GetSeedIdentifier landscape (ms_Name ms)"
  obtain seeds sc where c: "cache_seeds landscape mss (cc_Reset (gs_CachePathToManagedSeed s)) = Ok (seeds, sc)"
    "gs_CachePathToManagedSeed s' = sc"
    using assms(1) by (auto simp: search_results_def Let_def case_prod_unfold)
  have "?k \<in> set (cc_Keys sc)" using cache_seeds_Ok [OF c(1)] assms(2) by auto
  then obtain v where v: "cc_Get sc ?k = Some v" by (auto simp: cc_Get_keys)
  then have "v \<in> set mss" "ms_Name v = ms_Name ms"
    using cache_seeds_get [OF c(1) v] by (auto simp: GetSeedIdentifier_def)
  then show ?thesis using v c(2) assms(3) by auto
qed

lemma seed_shoot_not_cached:
  assumes "search_results s landscape shoots mss = Ok (rs, s')" "part_ok landscape" "\<forall>sh \<in> set shoots. shoot_ok sh"
    and "\<not> Contains n ''--''" and "\<forall>sh \<in> set shoots. sh_Namespace sh = ''garden'' \<and> sh_Name sh = n \<longrightarrow> IsManagedSeed sh"
  shows "cc_Get (gs_CachePathToShoot s') (GetShootIdentifier landscape ''garden'' n) = None"
proof (rule ccontr)
  let ?k = "GetShootIdentifier landscape ''garden'' n"
  assume "cc_Get (gs_CachePathToShoot s') ?k \<noteq> None"
  then obtain v seeds where "cc_Get (snd (send_shoots landscape (gardener_GetShootLabelKeys s) seeds shoots
      (cc_Reset (gs_CachePathToShoot s)))) ?k = Some v"
    using assms(1) by (auto simp: search_results_def Let_def case_prod_unfold)
  from send_shoots_cache [OF this] obtain p where v: "v \<in> set shoots" "shoot_project (sh_Namespace v) = Some p" "?k = shoot_path landscape p v"
    by auto
  have "part_ok ''garden''" by (simp add: part_ok_def Contains_def HasPrefix_def)
  then have "ParseIdentifier ?k = Ok (landscape, ResourceShoot, n, ''garden'', ''garden'')"
    using ParseIdentifier_roundtrip [OF assms(2) _ assms(4), of "''garden''"] by (simp add: project_namespace_def)
  then show False using shoot_path_parses [OF _ assms(2) v(2)] v(1,3) assms(3,5) by (auto split: if_splits)
qed

text \<open>
  A managed seed that is not named like its shoot cannot be used: its path is sent, but the kubeconfig is made
  of the shoot that has the name of the seed, and when there is none the lookup fails, although
  \<^verbatim>\<open>Spec.Shoot.Name\<close> is at hand. The shoot kept from the search does not help: a shoot with a ready gardenlet is
  kept under the path of a seed and looked up under that of a shoot.
\<close>

theorem managed_seed_asks_for_seed_name:
  assumes "search_results s landscape shoots mss = Ok (rs, s')" and "part_ok landscape" and "\<forall>sh \<in> set shoots. shoot_ok sh"
    and "ms \<in> set mss" and "ms_Shoot ms = Some n" and "\<forall>ms' \<in> set mss. ms_Name ms' = ms_Name ms \<longrightarrow> ms' = ms"
    and "\<forall>sh \<in> set shoots. sh_Namespace sh = ''garden'' \<and> sh_Name sh = n \<longrightarrow> IsManagedSeed sh"
    and "\<not> Contains n ''--''" and "\<not> Contains (ms_Name ms) ''--''"
    and "gs_Client s' = Some A" and "landscape = gs_LandscapeIdentity s'" and "landscape \<noteq> []"
    and "ga_GetShoot A ''garden'' (ms_Name ms) = Err e"
  shows "path_result (GetSeedIdentifier landscape (ms_Name ms)) \<in> set rs \<and>
    identified_kubeconfig L s' (GetSeedIdentifier landscape (ms_Name ms)) w =
      (Err (Wrapf ''failed to generate Shoot kubeconfig: %w'' [] e), w)"
proof (rule conjI)
  let ?p = "GetSeedIdentifier landscape (ms_Name ms)"
  obtain seeds sc where c: "cache_seeds landscape mss (cc_Reset (gs_CachePathToManagedSeed s)) = Ok (seeds, sc)"
    "set (map path_result (cc_Keys sc)) \<subseteq> set rs"
    using assms(1) by (auto simp: search_results_def Let_def case_prod_unfold)
  have "?p \<in> set (cc_Keys sc)" using cache_seeds_Ok [OF c(1)] assms(4) by auto
  then show "path_result ?p \<in> set rs" using c(2) by auto
  have id: "ParseIdentifier ?p = Ok (landscape, ResourceSeed, ms_Name ms, ''garden'', ''garden'')"
    using ParseIdentifier_roundtrip [OF assms(2) _ assms(9), of "''p''"] by (simp add: part_ok_def Contains_def HasPrefix_def)
  have "shoot_key s' landscape ResourceSeed ?p = Ok (GetShootIdentifier landscape ''garden'' n)"
    using managed_seed_cached [OF assms(1,4,6)] assms(5) by (simp add: shoot_key_def)
  then show "identified_kubeconfig L s' ?p w = (Err (Wrapf ''failed to generate Shoot kubeconfig: %w'' [] e), w)"
    using id seed_shoot_not_cached [OF assms(1-3,8,7)] assms(10-13)
    by (simp add: identified_kubeconfig_def client_of_def GetShootClientConfig_def Let_def)
qed

section \<open>The files of gardenlogin and gardenctl\<close>

text \<open>
  A file with entries to which \<^verbatim>\<open>ensure\<close> adds one unless its identity is there: what the code says of it, and what
  follows for both files.
\<close>

locale entry_file =
  fixes ensure :: "string \<Rightarrow> string \<Rightarrow> string \<Rightarrow> unit io"
    and decode :: "string \<Rightarrow> garden_entry list option"
    and encode :: "garden_entry list \<Rightarrow> string res"
  assumes ensure_Ok: "ensure path i kc w = (Ok (), w') \<Longrightarrow> faults w OpStat path = None \<Longrightarrow>
      \<exists>old. (case file_bytes w path of None \<Rightarrow> old = [] | Some bs \<Rightarrow> decode bs = Some old) \<and>
        (if i \<in> ge_Identity ` set old then w' = w
         else \<exists>bs. encode (old @ [\<lparr>ge_Identity = i, ge_Kubeconfig = kc\<rparr>]) = Ok bs \<and> w' = put_file 438 path bs w)"
    and ensure_present: "file_bytes w path = Some bs \<Longrightarrow> decode bs = Some es \<Longrightarrow> i \<in> ge_Identity ` set es \<Longrightarrow>
      faults w OpStat path = None \<Longrightarrow> faults w OpRead path = None \<Longrightarrow> ensure path i kc w = (Ok (), w)"
begin

lemma kept:
  assumes "ensure path i kc w = (Ok (), w')" and f: "faults w OpStat path = None" "faults w OpRead path = None"
    and "\<forall>es bs. encode es = Ok bs \<longrightarrow> decode bs = Some es"
  shows "\<exists>old es bs. (case file_bytes w path of None \<Rightarrow> old = [] | Some b \<Rightarrow> decode b = Some old) \<and>
     file_bytes w' path = Some bs \<and> decode bs = Some es \<and> prefix old es \<and> i \<in> ge_Identity ` set es \<and>
     (\<forall>q. q \<noteq> path \<longrightarrow> file_bytes w' q = file_bytes w q) \<and> (\<forall>kc'. ensure path i kc' w' = (Ok (), w'))"
proof -
  obtain old where old: "case file_bytes w path of None \<Rightarrow> old = [] | Some bs \<Rightarrow> decode bs = Some old"
    "if i \<in> ge_Identity ` set old then w' = w
     else \<exists>bs. encode (old @ [\<lparr>ge_Identity = i, ge_Kubeconfig = kc\<rparr>]) = Ok bs \<and> w' = put_file 438 path bs w"
    using ensure_Ok [OF assms(1) f(1)] by blast
  show ?thesis
  proof (cases "i \<in> ge_Identity ` set old")
    case True
    then have w': "w' = w" and "old \<noteq> []" using old(2) by auto
    then obtain bs where "file_bytes w path = Some bs" "decode bs = Some old" using old(1) by (auto split: option.splits)
    moreover from this have "ensure path i kc' w = (Ok (), w)" for kc' by (rule ensure_present [OF _ _ True f])
    ultimately show ?thesis using True w' by auto
  next
    case False
    let ?es = "old @ [\<lparr>ge_Identity = i, ge_Kubeconfig = kc\<rparr>]"
    obtain bs where bs: "encode ?es = Ok bs" "w' = put_file 438 path bs w" using old(2) False by auto
    have d: "decode bs = Some ?es" "file_bytes w' path = Some bs" using bs assms(4) by auto
    have "ensure path i kc' w' = (Ok (), w')" for kc' using d f bs(2) by (intro ensure_present [OF d(2,1)]) simp_all
    then show ?thesis using old(1) d bs(2) by (intro exI [of _ old] exI [of _ ?es] exI [of _ bs]) simp
  qed
qed

end

definition decode_login :: "'r gardener_libs \<Rightarrow> string \<Rightarrow> garden_entry list option" where
  "decode_login L bs = (if bs = [] then Some [] else case gl_um_login L bs of Ok r \<Rightarrow> r | _ \<Rightarrow> None)"

definition decode_garden :: "'r gardener_libs \<Rightarrow> string \<Rightarrow> garden_entry list option" where
  "decode_garden L bs = (if bs = [] then Some [] else case gl_um_json L bs of Ok es \<Rightarrow> Some es | Panic p \<Rightarrow> None
     | Err e \<Rightarrow> (case gl_um_yaml L bs of Ok es \<Rightarrow> Some es | _ \<Rightarrow> None))"

lemma write_entries_Ok: "write_entries L path es w = (Ok (), w') \<longleftrightarrow>
    (\<exists>bs. gl_marshal L es = Ok bs \<and> w' = put_file 438 path bs w \<and> writable w path)"
  by (auto simp: write_entries_def os_Create_def bindIO_Ok_iff os_open_write_True file_Write_after_open writable_def
    split: if_splits option.splits)

lemma getGardenloginConfig_Ok: "getGardenloginConfig L path w = (Ok (Some es), w') \<longleftrightarrow>
    w' = w \<and> faults w OpRead path = None \<and> (\<exists>bs. file_bytes w path = Some bs \<and> decode_login L bs = Some es)"
proof (cases "fst (os_ReadFile path w)")
  case (Ok bs)
  then have r: "os_ReadFile path w = (Ok bs, w)" by (metis os_ReadFile_snd prod.collapse)
  then have "faults w OpRead path = None" "file_bytes w path = Some bs" by (simp_all add: os_ReadFile_Ok)
  then show ?thesis using r by (auto simp: getGardenloginConfig_def decode_login_def wrapIO_apply split: res.splits)
next
  case (Err e)
  then have "\<not> (\<exists>bs. faults w OpRead path = None \<and> file_bytes w path = Some bs)"
    using os_ReadFile_Ok [of path w _ w] by (metis fst_conv res.distinct(1))
  moreover have "os_ReadFile path w = (Err e, w)" using Err by (metis os_ReadFile_snd prod.collapse)
  ultimately show ?thesis by (auto simp: getGardenloginConfig_def decode_login_def)
next
  case (Panic p)
  then show ?thesis by (simp add: os_ReadFile_def with_fault_def split: option.splits fentry.splits)
qed

lemma getGardenctlV2Config_Ok: "getGardenctlV2Config L path w = (Ok es, w') \<longleftrightarrow>
    w' = w \<and> faults w OpRead path = None \<and> (\<exists>bs. file_bytes w path = Some bs \<and> decode_garden L bs = Some es)"
proof (cases "fst (os_ReadFile path w)")
  case (Ok bs)
  then have r: "os_ReadFile path w = (Ok bs, w)" by (metis os_ReadFile_snd prod.collapse)
  then have "faults w OpRead path = None" "file_bytes w path = Some bs" by (simp_all add: os_ReadFile_Ok)
  then show ?thesis using r by (auto simp: getGardenctlV2Config_def decode_garden_def wrapIO_apply split: res.splits)
next
  case (Err e)
  then have "\<not> (\<exists>bs. faults w OpRead path = None \<and> file_bytes w path = Some bs)"
    using os_ReadFile_Ok [of path w _ w] by (metis fst_conv res.distinct(1))
  moreover have "os_ReadFile path w = (Err e, w)" using Err by (metis os_ReadFile_snd prod.collapse)
  ultimately show ?thesis by (auto simp: getGardenctlV2Config_def decode_garden_def)
next
  case (Panic p)
  then show ?thesis by (simp add: os_ReadFile_def with_fault_def split: option.splits fentry.splits)
qed

lemma os_Stat_cases:
  assumes "faults w OpStat path = None"
  obtains f where "os_Stat path w = (Ok f, w)"
    | "os_Stat path w = (Err (PathErr ENOENT path), w)" "file_bytes w path = None"
  using assms that by (cases "map_of (disk w) path") (auto simp: os_Stat_def with_fault_def file_bytes_def)

interpretation gardenlogin: entry_file "maintain_gardenlogin L" "decode_login L" "gl_marshal L" for L
proof (unfold_locales, goal_cases)
  case (1 path i kc w w')
  from 1(2) show ?case
  proof (cases rule: os_Stat_cases)
    case 1
    then obtain es where "getGardenloginConfig L path w = (Ok (Some es), w)"
      "(if list_ex (\<lambda>e. ge_Identity e = i) es then returnIO () else wrapIO ''failed to write Gardenlogin config: %w'' []
         (write_entries L path (es @ [\<lparr>ge_Identity = i, ge_Kubeconfig = kc\<rparr>]))) w = (Ok (), w')"
      using \<open>maintain_gardenlogin L path i kc w = (Ok (), w')\<close>
      by (auto simp: maintain_gardenlogin_def Let_def bindIO_Ok_iff getGardenloginConfig_Ok split: option.splits)
    then show ?thesis
      by (auto simp: getGardenloginConfig_Ok write_entries_Ok list_ex_iff intro!: exI [of _ es] split: if_splits)
  next
    case 2
    then show ?thesis using \<open>maintain_gardenlogin L path i kc w = (Ok (), w')\<close>
      by (auto simp: maintain_gardenlogin_def Let_def write_entries_Ok)
  qed
next
  case (2 w path bs es i kc)
  then have "getGardenloginConfig L path w = (Ok (Some es), w)" by (simp add: getGardenloginConfig_Ok)
  moreover obtain f where "os_Stat path w = (Ok f, w)" using os_Stat_file [of w path] 2 by (auto simp: is_file_def)
  moreover have "list_ex (\<lambda>e. ge_Identity e = i) es" using 2(3) by (auto simp: list_ex_iff)
  ultimately show ?case by (simp add: maintain_gardenlogin_def Let_def)
qed

interpretation gardenctl: entry_file "ensureGardenctlV2Config L" "decode_garden L" "gl_marshal L" for L
proof (unfold_locales, goal_cases)
  case (1 path i kc w w')
  from 1(2) show ?case
  proof (cases rule: os_Stat_cases)
    case 1
    then obtain es where "getGardenctlV2Config L path w = (Ok es, w)"
      "(if list_ex (\<lambda>e. ge_Identity e = i) es then returnIO ()
        else write_entries L path (es @ [\<lparr>ge_Identity = i, ge_Kubeconfig = kc\<rparr>])) w = (Ok (), w')"
      using \<open>ensureGardenctlV2Config L path i kc w = (Ok (), w')\<close>
      by (auto simp: ensureGardenctlV2Config_def Let_def bindIO_Ok_iff getGardenctlV2Config_Ok)
    then show ?thesis
      by (auto simp: getGardenctlV2Config_Ok write_entries_Ok list_ex_iff intro!: exI [of _ es] split: if_splits)
  next
    case 2
    then show ?thesis using \<open>ensureGardenctlV2Config L path i kc w = (Ok (), w')\<close>
      by (auto simp: ensureGardenctlV2Config_def Let_def write_entries_Ok)
  qed
next
  case (2 w path bs es i kc)
  then have "getGardenctlV2Config L path w = (Ok es, w)" by (simp add: getGardenctlV2Config_Ok)
  moreover obtain f where "os_Stat path w = (Ok f, w)" using os_Stat_file [of w path] 2 by (auto simp: is_file_def)
  moreover have "list_ex (\<lambda>e. ge_Identity e = i) es" using 2(3) by (auto simp: list_ex_iff)
  ultimately show ?case by (simp add: ensureGardenctlV2Config_def Let_def)
qed

text \<open>
  After its entry is ensured, each of the two files holds the entries it held and one of this identity, no other
  file has changed, and ensuring the entry again changes nothing.
\<close>

theorem garden_files_kept:
  assumes "maintain_gardenlogin L path i kc w = (Ok (), w')" and "ensureGardenctlV2Config L path2 i kc w = (Ok (), w'')"
    and "faults w OpStat = (\<lambda>_. None)" and "faults w OpRead = (\<lambda>_. None)"
    and "\<forall>es bs. gl_marshal L es = Ok bs \<longrightarrow> decode_login L bs = Some es \<and> decode_garden L bs = Some es"
  shows "(\<exists>old es bs. (case file_bytes w path of None \<Rightarrow> old = [] | Some b \<Rightarrow> decode_login L b = Some old) \<and>
       file_bytes w' path = Some bs \<and> decode_login L bs = Some es \<and> prefix old es \<and> i \<in> ge_Identity ` set es \<and>
       (\<forall>q. q \<noteq> path \<longrightarrow> file_bytes w' q = file_bytes w q) \<and> (\<forall>kc'. maintain_gardenlogin L path i kc' w' = (Ok (), w'))) \<and>
    (\<exists>old es bs. (case file_bytes w path2 of None \<Rightarrow> old = [] | Some b \<Rightarrow> decode_garden L b = Some old) \<and>
       file_bytes w'' path2 = Some bs \<and> decode_garden L bs = Some es \<and> prefix old es \<and> i \<in> ge_Identity ` set es \<and>
       (\<forall>q. q \<noteq> path2 \<longrightarrow> file_bytes w'' q = file_bytes w q) \<and> (\<forall>kc'. ensureGardenctlV2Config L path2 i kc' w'' = (Ok (), w'')))"
proof -
  have f: "faults w OpStat q = None" "faults w OpRead q = None" for q using assms(3,4) by simp_all
  show ?thesis using gardenlogin.kept [OF assms(1) f] gardenctl.kept [OF assms(2) f] assms(5) by blast
qed

section \<open>Witnesses\<close>

text \<open>The managed seed \<^verbatim>\<open>bed\<close> runs on the shoot \<^verbatim>\<open>soil\<close>; no shoot is called \<^verbatim>\<open>bed\<close>.\<close>

definition soil_shoot :: Shoot where
  "soil_shoot = sample_shoot\<lparr>sh_Name := ''soil'', sh_Namespace := ''garden'', sh_Conditions := [''GardenletReady'']\<rparr>"

definition bed_seed :: ManagedSeed where
  "bed_seed = \<lparr>ms_Name = ''bed'', ms_Shoot = Some ''soil''\<rparr>"

definition bed_api :: garden_api where
  "bed_api = sample_api\<lparr>ga_GetShoot := (\<lambda>ns n. if ns = ''garden-p'' \<and> n = ''crate'' then Ok sample_shoot
       else if ns = ''garden'' \<and> n = ''soil'' then Ok soil_shoot else Err (LibErr ''none'')),
     ga_ListShoots := (\<lambda>_. Ok [sample_shoot, soil_shoot]), ga_ListManagedSeeds := Ok [bed_seed]\<rparr>"

definition bed_store :: gardener_store where
  "bed_store = \<lparr>gs_KubeconfigStore = \<lparr>ks_ID = None, ks_Kind = StoreKindGardener, ks_KubeconfigName = None, ks_Paths = [],
     ks_RefreshIndexAfter = None, ks_Required = None, ks_ShowPrefix = None, ks_Config = None, ks_Cache = None\<rparr>,
     gs_Config = None, gs_LandscapeName = [], gs_LandscapeIdentity = ''land'', gs_StateDirectory = [], gs_Client = Some bed_api,
     gs_CachePathToShoot = newClusterCache, gs_CachePathToManagedSeed = newClusterCache, gs_CacheCaNameToCACM = newClusterCache,
     gs_ready = True\<rparr>"

text \<open>Libraries that know one list of entries.\<close>

definition bed_entry :: garden_entry where
  "bed_entry = \<lparr>ge_Identity = ''land'', ge_Kubeconfig = ''k''\<rparr>"

definition bed_libs :: "unit gardener_libs" where
  "bed_libs = \<lparr>gl_config = (\<lambda>_. Err (LibErr ''none'')), gl_RESTConfig = (\<lambda>_. Ok ()), gl_NewClient = (\<lambda>_. Ok bed_api),
     gl_um_login = (\<lambda>bs. Ok (if bs = ''1'' then Some [bed_entry] else None)),
     gl_um_json = (\<lambda>bs. if bs = ''1'' then Ok [bed_entry] else Err (LibErr ''none'')), gl_um_yaml = (\<lambda>_. Err (LibErr ''none'')),
     gl_marshal = (\<lambda>es. if es = [bed_entry] then Ok ''1'' else Err (LibErr ''none'')), gl_host = Ok, gl_legacy = (\<lambda>_. Ok False),
     gl_from_bytes = (\<lambda>_. Err (LibErr ''none'')), gl_validate = (\<lambda>_. Ok ()), gl_write = (\<lambda>_. Ok []), gl_um = (\<lambda>_. Err (LibErr ''none'')),
     gl_enc = (\<lambda>_. Ok []), gl_um_alias = (\<lambda>_. Ok None), gl_um_kube = (\<lambda>_. Err (LibErr ''none''))\<rparr>"

definition garden_world :: world where
  "garden_world = sample_world\<lparr>disk := [(''/g'', DirE 493)], faults := (\<lambda>_ _. None)\<rparr>"

lemma bed_shoots_ok: "shoot_ok sample_shoot" "shoot_ok soil_shoot" "part_ok ''land''"
  by code_simp+

lemma search_paths_spec_witness:
  "search_paths bed_api [''/''] ([], []) = Ok ([sample_shoot, soil_shoot], []) \<and>
   [sample_shoot, soil_shoot] = concat (map (shoots_in bed_api) (searched bed_api [''/'']))"
proof -
  have "search_paths bed_api [''/''] ([], []) = Ok ([sample_shoot, soil_shoot], [])"
    by (simp add: bed_api_def sample_api_def gc_ListShoots_def ok_or_empty_def)
  with search_paths_spec [OF this] show ?thesis by blast
qed

lemma bed_results:
  "\<exists>rs s'. search_results bed_store ''land'' [sample_shoot, soil_shoot] [bed_seed] = Ok (rs, s') \<and>
     gs_Client s' = Some bed_api \<and> gs_LandscapeIdentity s' = ''land''"
  by (simp add: search_results_def bed_seed_def bed_store_def Let_def case_prod_unfold)


lemma managed_seed_asks_for_seed_name_witness:
  "\<exists>rs s'. search_results bed_store ''land'' [sample_shoot, soil_shoot] [bed_seed] = Ok (rs, s') \<and>
     path_result ''land--seed--bed'' \<in> set rs \<and> ga_GetShoot bed_api ''garden'' ''soil'' = Ok soil_shoot \<and>
     identified_kubeconfig bed_libs s' ''land--seed--bed'' garden_world =
       (Err (Wrapf ''failed to generate Shoot kubeconfig: %w'' [] (LibErr ''none'')), garden_world)"
proof -
  obtain rs s' where r: "search_results bed_store ''land'' [sample_shoot, soil_shoot] [bed_seed] = Ok (rs, s')"
    and s': "gs_Client s' = Some bed_api" "gs_LandscapeIdentity s' = ''land''" using bed_results by blast
  have n: "\<not> Contains ''soil'' ''--''" "\<not> Contains (ms_Name bed_seed) ''--''" by (code_simp)+
  have m: "IsManagedSeed soil_shoot" "sh_Name sample_shoot \<noteq> ''soil''" by (code_simp)+
  have p: "GetSeedIdentifier ''land'' ''bed'' = ''land--seed--bed''" by (simp add: GetSeedIdentifier_def)
  have a: "ga_GetShoot bed_api ''garden'' (ms_Name bed_seed) = Err (LibErr ''none'')" "ga_GetShoot bed_api ''garden'' ''soil'' = Ok soil_shoot"
    by (simp_all add: bed_api_def bed_seed_def)
  show ?thesis
    using managed_seed_asks_for_seed_name [OF r bed_shoots_ok(3) _ _ _ _ _ n s'(1) _ _ a(1), where L = bed_libs and w = garden_world]
      bed_shoots_ok m s'(2) r a(2) by (auto simp: p bed_seed_def)
qed

lemma bed_consistent: "api_consistent bed_api"
  using bed_shoots_ok by (simp add: api_consistent_def bed_api_def sample_api_def sample_shoot_def soil_shoot_def)

lemma search_caches_transparent_witness:
  "\<exists>rs s'. gardener_StartSearch bed_libs bed_store garden_world = (Ok (rs, s'), garden_world) \<and>
     identified_kubeconfig bed_libs s' ''land--shoot--p--crate'' = identified_kubeconfig bed_libs (forget_caches s') ''land--shoot--p--crate''"
proof -
  have sp: "search_paths bed_api [''/''] ([], []) = Ok ([sample_shoot, soil_shoot], [])"
    by (simp add: bed_api_def sample_api_def gc_ListShoots_def ok_or_empty_def)
  have ini: "InitializeGardenerStore bed_libs bed_store garden_world = (Ok bed_store, garden_world)" "client_of bed_store = Ok bed_api"
    "search_paths_of bed_store = [''/'']" "ga_ListManagedSeeds bed_api = Ok [bed_seed]"
    by (simp_all add: InitializeGardenerStore_def bed_store_def client_of_def search_paths_of_def bed_api_def)
  obtain rs s' where r: "gardener_StartSearch bed_libs bed_store garden_world = (Ok (rs, s'), garden_world)"
    and s': "gs_Client s' = Some bed_api" "gs_LandscapeIdentity s' = ''land''"
    using sp ini by (simp add: gardener_StartSearch_def Let_def sendKubeconfigPaths_def search_results_def bed_seed_def
      case_prod_unfold ok_or_empty_def) (simp add: bed_store_def)
  have ok: "caches_ok bed_api bed_store" "gs_Config bed_store = None" by (simp_all add: caches_ok_def bed_store_def)
  have "ParseIdentifier ''land--shoot--p--crate'' = Ok (''land'', ResourceShoot, ''crate'', ''garden-p'', ''p'')" by code_simp
  then show ?thesis
    using search_caches_transparent [OF r s'(1) bed_consistent ok(1)] bed_shoots_ok(3) s'(2) ok(2) r by auto
qed

lemma garden_files_kept_witness:
  "\<exists>w'. maintain_gardenlogin bed_libs ''/g/l'' ''land'' ''k'' garden_world = (Ok (), w') \<and>
     maintain_gardenlogin bed_libs ''/g/l'' ''land'' ''other'' w' = (Ok (), w')"
proof -
  have f: "faults garden_world OpStat = (\<lambda>_. None)" "faults garden_world OpRead = (\<lambda>_. None)" by (simp_all add: garden_world_def)
  have wr: "writable garden_world ''/g/l''" "writable garden_world ''/g/c''" by code_simp+
  have st: "os_Stat ''/g/l'' garden_world = (Err (PathErr ENOENT ''/g/l''), garden_world)"
    "os_Stat ''/g/c'' garden_world = (Err (PathErr ENOENT ''/g/c''), garden_world)"
    by (simp_all add: os_Stat_def with_fault_def garden_world_def)
  have m: "gl_marshal bed_libs [\<lparr>ge_Identity = ''land'', ge_Kubeconfig = ''k''\<rparr>] = Ok ''1''"
    by (simp add: bed_libs_def bed_entry_def)
  have we: "write_entries bed_libs ''/g/l'' [\<lparr>ge_Identity = ''land'', ge_Kubeconfig = ''k''\<rparr>] garden_world = (Ok (), put_file 438 ''/g/l'' ''1'' garden_world)"
    "write_entries bed_libs ''/g/c'' [\<lparr>ge_Identity = ''land'', ge_Kubeconfig = ''k''\<rparr>] garden_world = (Ok (), put_file 438 ''/g/c'' ''1'' garden_world)"
    using wr m by (auto simp: write_entries_Ok)
  obtain w1 where 1: "maintain_gardenlogin bed_libs ''/g/l'' ''land'' ''k'' garden_world = (Ok (), w1)"
    using st(1) we(1) by (simp add: maintain_gardenlogin_def Let_def)
  obtain w2 where 2: "ensureGardenctlV2Config bed_libs ''/g/c'' ''land'' ''k'' garden_world = (Ok (), w2)"
    using st(2) we(2) by (simp add: ensureGardenctlV2Config_def Let_def)
  have "\<forall>es bs. gl_marshal bed_libs es = Ok bs \<longrightarrow> decode_login bed_libs bs = Some es \<and> decode_garden bed_libs bs = Some es"
    by (simp add: bed_libs_def decode_login_def decode_garden_def)
  from garden_files_kept [OF 1 2 f this] 1 show ?thesis by blast
qed

end
