(* ===== verification/GardenerControl.thy ===== *)
theory GardenerControl
  imports GardenerLaws
begin

text \<open>
  The switch from a shoot to its control plane (\<^verbatim>\<open>pkg/subcommands/gardener/controlplane.go\<close> and
  \<^verbatim>\<open>GetControlplaneKubeconfigForShoot\<close> of the Gardener store).
\<close>

section \<open>The kubeconfig of the seed\<close>

definition ClientConfigWithNamespace :: "(api_config \<Rightarrow> unit res) \<Rightarrow> api_config \<Rightarrow> string \<Rightarrow> api_config res" where
  "ClientConfigWithNamespace Validate config namespace =
     mapR (\<lambda>_. config\<lparr>ap_Contexts := map (\<lambda>(n, c). (n, c\<lparr>ax_Namespace := namespace\<rparr>)) (ap_Contexts config)\<rparr>)
       (wrapR ''validation of client configuration failed: %w'' [] (Validate config))"

definition controlplane_config :: "'r gardener_libs \<Rightarrow> garden_api \<Rightarrow> string \<Rightarrow> string \<Rightarrow> string \<Rightarrow> (string \<times> api_config) res" where
  "controlplane_config L A identity shootName project =
     bindR (gc_GetShoot A (project_namespace project) shootName) (\<lambda>shoot. case sh_SeedName shoot of
       None \<Rightarrow> Err (Errorf ''shoot %q has not yet been assigned to a seed'' [shootName])
     | Some seedName \<Rightarrow>
         if seedName = [] then Err (Errorf ''shoot %q has not yet been assigned to a seed'' [shootName])
         else if sh_TechnicalID shoot = [] then Err (Errorf ''no technicalID has been assigned to the shoot %q yet'' [shootName])
         else bindR (GetSeedClientConfig A (gl_host L) (gl_legacy L) (gl_from_bytes L) identity seedName) (\<lambda>config.
              mapR (Pair seedName) (ClientConfigWithNamespace (gl_validate L) config (sh_TechnicalID shoot))))"

definition GetControlplaneKubeconfigForShoot :: "'r gardener_libs \<Rightarrow> gardener_store \<Rightarrow> string \<Rightarrow> string \<Rightarrow> (string \<times> string) io" where
  "GetControlplaneKubeconfigForShoot L s shootName project =
     bindIO (wrapIO ''failed to initialize Gardener store: %w'' [] (InitializeGardenerStore L s)) (\<lambda>s1.
     bindIO (liftR (client_of s1)) (\<lambda>A.
     bindIO (liftR (controlplane_config L A (gs_LandscapeIdentity s1) shootName project)) (\<lambda>(seedName, raw).
     bindIO (finish_kubeconfig L s1 raw ResourceSeed ''garden'' seedName) (\<lambda>bytes.
     returnIO (bytes, seedName)))))"

section \<open>SwitchToControlplane\<close>

text \<open>
  A store of the list. \<^verbatim>\<open>cp_gardener\<close> is the outcome of the type assertion \<^verbatim>\<open>.(*store.GardenerStore)\<close>: it fails for
  a Gardener store that is wrapped in a cache.
\<close>

record listed_store =
  cp_Kind :: StoreKind
  cp_ID :: string
  cp_gardener :: "gardener_store option"

definition getKubeconfig :: "(string \<Rightarrow> ynode res) \<Rightarrow> string \<Rightarrow> kubeconfig io" where
  "getKubeconfig um flag = (\<lambda>w.
     let env = getenv w ''KUBECONFIG'';
         from_env = (length flag = 0 \<or> flag = os_ExpandEnv w ''$HOME/.kube/config'') \<and> length env > 0;
         path = (if from_env then os_ExpandEnv w env else flag)
     in if from_env \<and> length (Split env '':'') > 1
        then (Err (Errorf ''providing multiple kubeconfig files via environment variable KUBECONFIG is not supported'' []), w)
        else tryIO (os_Stat path) (\<lambda>_. NewKubeconfigForPath um path)
          (\<lambda>_. failIO (Errorf ''unable to list namespaces. The kubeconfig file %q does not exist'' [path])) w)"

fun find_landscape :: "'r gardener_libs \<Rightarrow> string \<Rightarrow> listed_store list \<Rightarrow> gardener_store io" where
  "find_landscape L identity [] =
     failIO (Errorf ''unable to find Seed for Shoot. Landscape identity %q not found'' [identity])"
| "find_landscape L identity (st # sts) =
     (if cp_Kind st \<noteq> StoreKindGardener then find_landscape L identity sts
      else (case cp_gardener st of
          None \<Rightarrow> failIO (Errorf ''internal error'' [])
        | Some g \<Rightarrow> tryIO (InitializeGardenerStore L g)
            (\<lambda>s. if identity = gs_LandscapeIdentity s then returnIO s else find_landscape L identity sts)
            (\<lambda>e. if ks_Required (gs_KubeconfigStore g) = Some False then find_landscape L identity sts
                 else failIO (Wrapf ''failed to initialize Gardener store with ID %q: %w'' [cp_ID st] e))))"

text \<open>The identity, the name and the project of the shoot that a kubeconfig is for.\<close>

definition shoot_of :: "kubeconfig \<Rightarrow> (string \<times> string \<times> string) res" where
  "shoot_of k = bindR (IsGardenerKubeconfig k) (\<lambda>g. if \<not> g
     then Err (Errorf ''the currently used kubeconfig is not a Gardener kubeconfig'' [])
     else bindR (GetGardenerClusterType k) (\<lambda>clusterType.
       if length clusterType = 0 then Err (Errorf ''the cluster type (SHoot/Seed) must be set as metadata in the kubeconfig'' [])
       else if clusterType \<noteq> resource_name ResourceShoot then Err (Errorf ''cannot switch to the controlplane for %s clusters'' [clusterType])
     else bindR (GetGardenerClusterName k) (\<lambda>clusterName.
       if length clusterName = 0 then Err (Errorf ''the cluster name must be set as metadata in the kubeconfig'' [])
     else bindR (GetGardenerProject k) (\<lambda>project.
       if length project = 0 then Err (Errorf ''the Gardener project name must be set as metadata in the kubeconfig'' [])
     else bindR (GetGardenerLandscapeIdentity k) (\<lambda>identity.
       if length identity = 0 then Err (Errorf ''the Gardener landscape identity must be set as metadata in the kubeconfig'' [])
     else Ok (identity, clusterName, project))))))"

definition SwitchToControlplane :: "'r gardener_libs \<Rightarrow> listed_store list \<Rightarrow> string \<Rightarrow> string io" where
  "SwitchToControlplane L stores flag =
     bindIO (getKubeconfig (gl_um L) flag) (\<lambda>kubeconfig.
     bindIO (liftR (shoot_of kubeconfig)) (\<lambda>(identity, clusterName, project).
     bindIO (find_landscape L identity stores) (\<lambda>s.
     bindIO (wrapIO ''gardener store returned an error obtaining the kubeconfig for the Shoot's Seed cluster: %w'' []
       (GetControlplaneKubeconfigForShoot L s clusterName project)) (\<lambda>(bytes, seedName).
     bindIO (wrapIO ''failed to parse obtained Seed kubeconfig: %w'' [] (NewKubeconfig (gl_um L) bytes)) (\<lambda>k.
     bindIO (wrapIO ''failed to write temporary kubeconfig file: %w'' [] (WriteKubeconfigFile (gl_enc L) k)) (\<lambda>tempKubeconfigPath.
     bindIO (wrapIO ''failed to get namespace of current context: %w'' []
       (liftR (bindR (GetCurrentContext k) (\<lambda>c. NamespaceOfContext c k)))) (\<lambda>ns.
     bindIO (liftR (GetCurrentContext k)) (\<lambda>current.
       let context = gardener_GetContextPrefix s (GetSeedIdentifier (gs_LandscapeName s) seedName) @ ''/'' @ current
       in bindIO (ignoreIO (AppendToHistory context ns)) (\<lambda>_.
          bindIO (fmt_Print tempKubeconfigPath) (\<lambda>_. returnIO tempKubeconfigPath))))))))))"

section \<open>Removing a context keeps a kubeconfig well formed\<close>

lemma keep_contexts_subset: "keep_contexts name cs = Ok ks \<Longrightarrow> set ks \<subseteq> set cs"
proof (induction cs arbitrary: ks)
  case (Cons c cs)
  obtain v where v: "valueOf c ''name'' = Ok v" using Cons.prems by auto
  obtain n where n: "v = Some n" using Cons.prems v by (cases v) auto
  show ?case using Cons v n by (cases "Value n = name") auto
qed simp

lemma keep_referenced_subset: "keep_referenced r cs = Ok ks \<Longrightarrow> set ks \<subseteq> set cs"
proof (induction cs arbitrary: ks)
  case (Cons c cs)
  obtain v ks0 where v: "valueOf c ''name'' = Ok v" "keep_referenced r cs = Ok ks0" using Cons.prems by auto
  have "set ks0 \<subseteq> set cs" by (rule Cons.IH [OF v(2)])
  then show ?case using Cons.prems v by (auto split: option.splits if_splits)
qed simp

lemma wf_smaller_section:
  assumes "wf_kc k" "field (kc_rootNode k) s = Some n" "Kind n = SequenceNode" "set ks \<subseteq> set (Content n)"
  shows "wf_kc (k\<lparr>kc_rootNode := update_at s (set_Content ks) (kc_rootNode k)\<rparr>)"
proof -
  have "Content n = entries s k" using assms(2,3) by (simp add: entries_def)
  then have "list_all wf_node ks" using all_wf_entries [OF assms(1), of s] assms(4) by (auto simp: list_all_iff)
  then have "wf_kc (set_entries s ks k)" using assms(1-3) by (intro wf_set_entries) (auto simp: has_section_iff)
  then show ?thesis by (simp add: set_entries_def)
qed

lemma wf_remove_orphaned:
  assumes "remove_orphaned s f k = Ok k'" and "wf_kc k" shows "wf_kc k'"
proof -
  have v: "valueOf (kc_rootNode k) s = Ok (field (kc_rootNode k) s)"
    using assms(2) by (simp add: wf_kc_def wf_root_def valueOf_wf)
  show ?thesis
  proof (cases "\<exists>n. field (kc_rootNode k) s = Some n \<and> Kind n = SequenceNode")
    case True
    then obtain n where n: "field (kc_rootNode k) s = Some n" "Kind n = SequenceNode" by blast
    then obtain r ks where "keep_referenced r (Content n) = Ok ks"
      "k' = k\<lparr>kc_rootNode := update_at s (set_Content ks) (kc_rootNode k)\<rparr>"
      using assms(1) v by (auto simp: remove_orphaned_def)
    then show ?thesis using wf_smaller_section [OF assms(2) n] keep_referenced_subset by blast
  next
    case False
    then show ?thesis using assms v by (auto simp: remove_orphaned_def split: option.splits)
  qed
qed

lemma RemoveContext_wf:
  assumes "RemoveContext name k = Ok k'" and "wf_kc k" shows "wf_kc k'"
proof -
  obtain n ks k1 where n: "field (kc_rootNode k) ''contexts'' = Some n" "Kind n = SequenceNode"
    and k: "keep_contexts name (Content n) = Ok ks" "removeOrphanedClusters (set_contexts ks k) = Ok k1" "removeOrphanedUsers k1 = Ok k'"
    using assms by (auto simp: RemoveContext_def wf_kc_def wf_root_def valueOf_wf split: option.splits if_splits)
  have "wf_kc (set_contexts ks k)"
    using wf_smaller_section [OF assms(2) n keep_contexts_subset [OF k(1)]] by (simp add: set_contexts_def)
  then show ?thesis using wf_remove_orphaned k(2,3) unfolding removeOrphanedClusters_def removeOrphanedUsers_def by blast
qed

section \<open>What the switch writes\<close>

lemma without_internal_wf:
  assumes "without_internal L raw w = (Ok k, w')" and "parses_wf (gl_um L)"
  shows "wf_kc k \<and> w' = w"
proof -
  obtain bytes c w1 names where k: "NewKubeconfig (gl_um L) bytes w = (Ok c, w1)"
    "(case find (\<lambda>n. HasSuffix n ''-internal'') names of None \<Rightarrow> returnIO c
      | Some n \<Rightarrow> wrapIO ''unable to remove internal kubeconfig context: %w'' [] (liftR (RemoveContext n c))) w1 = (Ok k, w')"
    using assms(1) unfolding without_internal_def bindIO_Ok_iff by auto
  have "wf_kc c" "w1 = w" using k(1) New_wf assms(2) by (auto simp: NewKubeconfig_def)
  then show ?thesis using k(2) RemoveContext_wf by (cases "find (\<lambda>n. HasSuffix n ''-internal'') names") auto
qed

lemma finish_kubeconfig_Ok:
  assumes "finish_kubeconfig L s raw resource project name w = (Ok bytes, w')" and "parses_wf (gl_um L)"
  shows "w' = w \<and> (\<exists>k. wf_kc k \<and> gl_enc L (kc_rootNode k) = Ok bytes \<and> IsGardenerKubeconfig k = Ok True \<and>
    GetGardenerLandscapeIdentity k = Ok (gs_LandscapeIdentity s) \<and> GetGardenerClusterType k = Ok (resource_name resource) \<and>
    GetGardenerProject k = Ok project \<and> GetGardenerClusterName k = Ok name)"
proof -
  obtain k0 w1 k1 where k: "without_internal L raw w = (Ok k0, w1)" "w' = w1"
    "SetGardenerStoreMetaInformation (gs_LandscapeIdentity s) (resource_name resource) project name k0 = Ok k1"
    "gl_enc L (kc_rootNode k1) = Ok bytes"
    using assms(1) by (auto simp: finish_kubeconfig_def bindIO_Ok_iff GetBytes_def)
  have wf: "wf_kc k0" "w1 = w" using without_internal_wf [OF k(1) assms(2)] by auto
  then show ?thesis
    using gardener_meta_roundtrip [OF wf(1), of "gs_LandscapeIdentity s" "resource_name resource" project name] k(2-4) by auto
qed

lemma find_landscape_Ok:
  "find_landscape L identity sts w = (Ok s, w') \<Longrightarrow> gs_LandscapeIdentity s = identity \<and>
    (\<exists>st \<in> set sts. \<exists>g w1. cp_Kind st = StoreKindGardener \<and> cp_gardener st = Some g \<and> InitializeGardenerStore L g w1 = (Ok s, w'))"
proof (induction sts arbitrary: w)
  case (Cons st sts)
  show ?case
  proof (cases "cp_Kind st = StoreKindGardener")
    case True
    then obtain g where g: "cp_gardener st = Some g" using Cons.prems by (cases "cp_gardener st") auto
    obtain r w1 where i: "InitializeGardenerStore L g w = (r, w1)" by fastforce
    show ?thesis using Cons True g i by (cases r) (auto split: if_splits)
  next
    case False
    then show ?thesis using Cons by auto
  qed
qed simp

lemma InitializeGardenerStore_ready:
  "InitializeGardenerStore L g w = (Ok s, w') \<Longrightarrow> InitializeGardenerStore L s v = (Ok s, v)"
  by (auto simp: InitializeGardenerStore_def initialize_def bindIO_Ok_iff split: if_splits option.splits)

text \<open>What the YAML library is relied on for: it parses what it encodes, into well-formed trees.\<close>

definition yaml_ok :: "'r gardener_libs \<Rightarrow> bool" where
  "yaml_ok L \<longleftrightarrow> parses_wf (gl_um L) \<and> (\<forall>n bs. gl_enc L n = Ok bs \<longrightarrow> (\<exists>t v. gl_um L bs = Ok (YNode DocumentNode t v [n])))"

lemma New_encoded:
  assumes "yaml_ok L" and "gl_enc L (kc_rootNode k) = Ok bs" and "wf_kc k"
  shows "New (gl_um L) bs p tmp = Ok \<lparr>kc_path = p, kc_useTmpFile = tmp, kc_rootNode = kc_rootNode k\<rparr>"
proof -
  obtain t v where "gl_um L bs = Ok (YNode DocumentNode t v [kc_rootNode k])" using assms(1,2) unfolding yaml_ok_def by blast
  then show ?thesis using assms(3) by (simp add: New_def wf_kc_def wf_root_def)
qed

lemma same_tree:
  assumes "kc_rootNode k = kc_rootNode k'"
  shows "IsGardenerKubeconfig k = IsGardenerKubeconfig k'" "GetGardenerClusterType k = GetGardenerClusterType k'"
    "GetGardenerClusterName k = GetGardenerClusterName k'" "GetGardenerLandscapeIdentity k = GetGardenerLandscapeIdentity k'"
  using assms by (simp_all add: IsGardenerKubeconfig_def GetGardenerClusterType_def GetGardenerClusterName_def
    GetGardenerLandscapeIdentity_def top_value_def)

lemma controlplane_config_Ok:
  assumes "controlplane_config L A identity name project = Ok (seed, raw)"
  shows "\<exists>shoot config. ga_GetShoot A (project_namespace project) name = Ok shoot \<and> sh_SeedName shoot = Some seed \<and>
    GetSeedClientConfig A (gl_host L) (gl_legacy L) (gl_from_bytes L) identity seed = Ok config \<and>
    raw = config\<lparr>ap_Contexts := map (\<lambda>(n, c). (n, c\<lparr>ax_Namespace := sh_TechnicalID shoot\<rparr>)) (ap_Contexts config)\<rparr>"
  using assms
  by (auto simp: controlplane_config_def gc_GetShoot_def ClientConfigWithNamespace_def split: option.splits if_splits)

lemma written_stays:
  assumes "WriteKubeconfigFile enc k w = (Ok tmp, w1)" "kc_useTmpFile k" "kc_path k = TemporaryKubeconfigDir w"
  shows "\<exists>bs. enc (kc_rootNode k) = Ok bs \<and> (\<forall>r c n. file_bytes (snd (ignoreIO (AppendToHistory c n) w1)) tmp = Some bs)"
proof -
  from WriteKubeconfigFile_Ok [OF assms(1)] obtain bs v r where
    f: "enc (kc_rootNode k) = Ok bs" "w1 = put_file 384 tmp bs v" "getenv v = getenv w" "tmp = kc_path k @ ''/config.'' @ r @ ''.tmp''"
    using assms(2) by auto
  have "tmp \<noteq> historyFilePath w1" using f(2-4) assms(3) by (simp add: TemporaryKubeconfigDir_def historyFilePath_def)
  then have "file_bytes (snd (AppendToHistory c n w1)) tmp = Some bs" for c n
    using AppendToHistory_frame [of c n w1 _ _ tmp] f(2) by (metis file_bytes_put prod.collapse)
  then show ?thesis using f(1) by simp
qed

text \<open>
  C40. When the switch succeeds, the kubeconfig in use was of a shoot; a Gardener store of the list has its landscape,
  and the API of that landscape has the shoot and the seed it runs on. The file whose path is returned holds the
  kubeconfig of that seed, with every context in the namespace of the shoot's control plane, and it says so:
  a second switch from it is refused.
\<close>

theorem SwitchToControlplane_reaches_seed:
  assumes "SwitchToControlplane L stores flag w = (Ok tmp, w')" and "yaml_ok L"
  shows "\<exists>k w0 identity name project s A shoot seed config k'.
    getKubeconfig (gl_um L) flag w = (Ok k, w0) \<and> shoot_of k = Ok (identity, name, project) \<and>
    (\<exists>st \<in> set stores. \<exists>g w1 w2. cp_Kind st = StoreKindGardener \<and> cp_gardener st = Some g \<and> InitializeGardenerStore L g w1 = (Ok s, w2)) \<and>
    gs_LandscapeIdentity s = identity \<and> gs_Client s = Some A \<and>
    ga_GetShoot A (project_namespace project) name = Ok shoot \<and> sh_SeedName shoot = Some seed \<and>
    GetSeedClientConfig A (gl_host L) (gl_legacy L) (gl_from_bytes L) identity seed = Ok config \<and>
    (\<exists>v bytes. finish_kubeconfig L s
       (config\<lparr>ap_Contexts := map (\<lambda>(n, c). (n, c\<lparr>ax_Namespace := sh_TechnicalID shoot\<rparr>)) (ap_Contexts config)\<rparr>)
       ResourceSeed ''garden'' seed v = (Ok bytes, v) \<and> file_bytes w' tmp = Some bytes \<and> New (gl_um L) bytes tmp False = Ok k') \<and>
    GetGardenerClusterName k' = Ok seed \<and> GetGardenerLandscapeIdentity k' = Ok identity \<and>
    shoot_of k' = Err (Errorf ''cannot switch to the controlplane for %s clusters'' [''Seed''])"
proof -
  have pw: "parses_wf (gl_um L)" using assms(2) by (simp add: yaml_ok_def)
  obtain k w0 identity name project s w1 bytes seed w2 kb w3 ns c0 v0 where
    k: "getKubeconfig (gl_um L) flag w = (Ok k, w0)" "shoot_of k = Ok (identity, name, project)"
    and f: "find_landscape L identity stores w0 = (Ok s, w1)"
    and g: "GetControlplaneKubeconfigForShoot L s name project w1 = (Ok (bytes, seed), w2)"
    and n: "New (gl_um L) bytes (TemporaryKubeconfigDir w2) True = Ok kb"
    and wr: "WriteKubeconfigFile (gl_enc L) kb w2 = (Ok tmp, w3)"
    and hist: "ignoreIO (AppendToHistory c0 ns) w3 = (Ok (), v0)" "w' = v0\<lparr>out := tmp # out v0\<rparr>"
    using assms(1) unfolding SwitchToControlplane_def
    by (auto simp: bindIO_Ok_iff Let_def NewKubeconfig_def fmt_Print_def)
  from find_landscape_Ok [OF f] obtain st h v1 where st: "gs_LandscapeIdentity s = identity" "st \<in> set stores"
    "cp_Kind st = StoreKindGardener" "cp_gardener st = Some h" "InitializeGardenerStore L h v1 = (Ok s, w1)" by blast
  have ready: "InitializeGardenerStore L s w1 = (Ok s, w1)" by (rule InitializeGardenerStore_ready [OF st(5)])
  obtain A raw where A: "gs_Client s = Some A" "controlplane_config L A identity name project = Ok (seed, raw)"
    "finish_kubeconfig L s raw ResourceSeed ''garden'' seed w1 = (Ok bytes, w2)"
    using g ready st(1)
    by (cases "gs_Client s") (auto simp: GetControlplaneKubeconfigForShoot_def bindIO_Ok_iff client_of_def)
  from controlplane_config_Ok [OF A(2)] obtain shoot config where c: "ga_GetShoot A (project_namespace project) name = Ok shoot"
    "sh_SeedName shoot = Some seed" "GetSeedClientConfig A (gl_host L) (gl_legacy L) (gl_from_bytes L) identity seed = Ok config"
    "raw = config\<lparr>ap_Contexts := map (\<lambda>(n, c). (n, c\<lparr>ax_Namespace := sh_TechnicalID shoot\<rparr>)) (ap_Contexts config)\<rparr>" by blast
  from finish_kubeconfig_Ok [OF A(3) pw] obtain km where km: "w2 = w1" "wf_kc km" "gl_enc L (kc_rootNode km) = Ok bytes"
    "IsGardenerKubeconfig km = Ok True" "GetGardenerLandscapeIdentity km = Ok identity" "GetGardenerClusterType km = Ok ''Seed''"
    "GetGardenerClusterName km = Ok seed" using st(1) by (auto simp: resource_name_def)
  have kb: "kb = \<lparr>kc_path = TemporaryKubeconfigDir w2, kc_useTmpFile = True, kc_rootNode = kc_rootNode km\<rparr>"
    using New_encoded [OF assms(2) km(3,2)] n by simp
  obtain bs where bs: "gl_enc L (kc_rootNode kb) = Ok bs" "\<And>c n. file_bytes (snd (ignoreIO (AppendToHistory c n) w3)) tmp = Some bs"
    using written_stays [OF wr] kb by auto
  have "file_bytes w' tmp = Some bytes"
    using hist bs(1) bs(2) [of c0 ns] km(3) kb by (simp add: file_bytes_def)
  moreover define k' where "k' = \<lparr>kc_path = tmp, kc_useTmpFile = False, kc_rootNode = kc_rootNode km\<rparr>"
  moreover have "New (gl_um L) bytes tmp False = Ok k'" using New_encoded [OF assms(2) km(3,2)] by (simp add: k'_def)
  moreover note s = same_tree [of k' km]
  have "GetGardenerClusterName k' = Ok seed" "GetGardenerLandscapeIdentity k' = Ok identity"
    "shoot_of k' = Err (Errorf ''cannot switch to the controlplane for %s clusters'' [''Seed''])"
    using s km by (simp_all add: k'_def shoot_of_def resource_name_def)
  ultimately show ?thesis using k st A(1,3) c km(1) by blast
qed

text \<open>
  A Gardener store that is not a \<^verbatim>\<open>GardenerStore\<close> itself ends the search for the landscape, whatever stores
  follow. The command line wraps every store in a cache, so there the switch fails for every kubeconfig.
\<close>

theorem wrapped_store_blocks_controlplane:
  assumes "getKubeconfig (gl_um L) flag w = (Ok k, w1)" and "shoot_of k = Ok (identity, name, project)"
    and "list_all (\<lambda>s. cp_Kind s \<noteq> StoreKindGardener) before" and "cp_Kind st = StoreKindGardener" and "cp_gardener st = None"
  shows "SwitchToControlplane L (before @ st # after) flag w = (Err (Errorf ''internal error'' []), w1)"
proof -
  have "find_landscape L identity (before @ st # after) v = (Err (Errorf ''internal error'' []), v)" for v
    using assms(3-5) by (induction before) auto
  then show ?thesis using assms(1,2) by (simp add: SwitchToControlplane_def)
qed

section \<open>Witnesses\<close>

definition gc_meta :: "string \<Rightarrow> string \<Rightarrow> string \<Rightarrow> ynode" where
  "gc_meta kind project name = (case SetGardenerStoreMetaInformation ''land'' kind project name sample_kc of
     Ok k \<Rightarrow> kc_rootNode k | _ \<Rightarrow> kc_rootNode sample_kc)"

definition gc_trees :: "ynode list" where
  "gc_trees = [gc_meta ''Shoot'' ''p'' ''crate'', kc_rootNode sample_kc, gc_meta ''Seed'' ''garden'' ''s'']"

definition gc_um :: "string \<Rightarrow> ynode res" where
  "gc_um bs = (if bs = ''0'' then Ok (YNode DocumentNode [] [] [gc_trees ! 0]) else if bs = ''1'' then Ok (YNode DocumentNode [] [] [gc_trees ! 1])
     else if bs = ''2'' then Ok (YNode DocumentNode [] [] [gc_trees ! 2]) else Err (LibErr ''yaml''))"

definition gc_enc :: "ynode \<Rightarrow> string res" where
  "gc_enc n = (if n = gc_trees ! 0 then Ok ''0'' else if n = gc_trees ! 1 then Ok ''1'' else
     if n = gc_trees ! 2 then Ok ''2'' else Err (LibErr ''yaml''))"

definition gc_libs :: "unit gardener_libs" where
  "gc_libs = bed_libs\<lparr>gl_um := gc_um, gl_enc := gc_enc, gl_write := (\<lambda>_. Ok ''1'')\<rparr>"

definition gc_store :: listed_store where
  "gc_store = \<lparr>cp_Kind = StoreKindGardener, cp_ID = ''gardener.default'',
     cp_gardener = Some (bed_store\<lparr>gs_Client := Some (bed_api\<lparr>ga_GetManagedSeed := (\<lambda>_ n. Ok \<lparr>ms_Name = n, ms_Shoot = Some ''soil''\<rparr>)\<rparr>)\<rparr>)\<rparr>"

lemma gc_yaml_ok: "yaml_ok gc_libs"
proof -
  have "wf_node (gc_trees ! 0)" "wf_node (gc_trees ! 1)" "wf_node (gc_trees ! 2)" by code_simp+
  then have "parses_wf gc_um" by (auto simp: parses_wf_def gc_um_def split: if_splits)
  then show ?thesis by (auto simp: yaml_ok_def gc_libs_def gc_enc_def gc_um_def split: if_splits)
qed

lemma SwitchToControlplane_reaches_seed_witness:
  "\<exists>tmp w' k. SwitchToControlplane gc_libs [gc_store] [] cli_world = (Ok tmp, w') \<and> GetGardenerLandscapeIdentity k = Ok ''land'' \<and>
     shoot_of k = Err (Errorf ''cannot switch to the controlplane for %s clusters'' [''Seed''])"
proof -
  let ?run = "SwitchToControlplane gc_libs [gc_store] [] cli_world"
  have "is_ok (fst ?run)" by code_simp
  then obtain tmp w' where run: "?run = (Ok tmp, w')" by (cases ?run) (auto simp: is_ok_iff)
  obtain identity k' where "GetGardenerLandscapeIdentity k' = Ok identity"
    "shoot_of k' = Err (Errorf ''cannot switch to the controlplane for %s clusters'' [''Seed''])"
    "\<exists>st g s w1 w2. st \<in> set [gc_store] \<and> cp_gardener st = Some g \<and> InitializeGardenerStore gc_libs g w1 = (Ok s, w2) \<and> gs_LandscapeIdentity s = identity"
    using SwitchToControlplane_reaches_seed [OF run gc_yaml_ok] by fast
  moreover from this have "identity = ''land''"
    by (auto simp: gc_store_def bed_store_def InitializeGardenerStore_def)
  ultimately show ?thesis using run by auto
qed

lemma wrapped_store_blocks_controlplane_witness:
  "fst (SwitchToControlplane gc_libs [gc_store\<lparr>cp_gardener := None\<rparr>, gc_store] [] cli_world) = Err (Errorf ''internal error'' []) \<and>
   is_ok (fst (SwitchToControlplane gc_libs [gc_store] [] cli_world))"
proof -
  have "is_ok (fst (getKubeconfig gc_um [] cli_world))" "is_ok (bindR (fst (getKubeconfig gc_um [] cli_world)) shoot_of)" by code_simp+
  then obtain k w1 i n p where "getKubeconfig (gl_um gc_libs) [] cli_world = (Ok k, w1)" "shoot_of k = Ok (i, n, p)"
    by (cases "getKubeconfig gc_um [] cli_world") (auto simp: is_ok_iff gc_libs_def)
  from wrapped_store_blocks_controlplane [OF this, of "[]" "gc_store\<lparr>cp_gardener := None\<rparr>" "[gc_store]"]
  have "fst (SwitchToControlplane gc_libs [gc_store\<lparr>cp_gardener := None\<rparr>, gc_store] [] cli_world) = Err (Errorf ''internal error'' [])"
    by (simp add: gc_store_def)
  moreover have "is_ok (fst (SwitchToControlplane gc_libs [gc_store] [] cli_world))" by code_simp
  ultimately show ?thesis by blast
qed

end
