(* ===== verification/GardenerFind.thy ===== *)
theory GardenerFind
  imports GardenerClient
begin

text \<open>
  The rest of the Gardener client (\<^verbatim>\<open>copied_gardenctlv2/client.go\<close>): objects by name, projects by namespace, and the one shoot
  that a list of options selects. A shoot filter is a map that the client changes while it resolves the project in it, so
  filters live in a store and options refer to them.
\<close>

section \<open>Options\<close>

record Project =
  pj_Name :: string
  pj_Namespace :: "string option"                \<comment> \<open>\<^verbatim>\<open>Spec.Namespace\<close>\<close>

record ListOptions =
  lo_Namespace :: string
  lo_FieldSelector :: "(string, string) gomap"   \<comment> \<open>empty for none\<close>
  lo_Limit :: int

datatype ListOption = Limit int | MatchingFields "(string, string) gomap" | ShootFilter nat

type_synonym filters = "nat \<Rightarrow> (string, string) gomap"

datatype object_kind = K_Seed | K_Namespace | K_SecretBinding | K_ConfigMap | K_CloudProfile

text \<open>
  The client of the cluster: \<^verbatim>\<open>Get\<close> for objects by kind, namespace and name, and \<^verbatim>\<open>List\<close>, which gives the items with the number
  of those left out where the server tells it. The name of the field with a project's namespace is Gardener's.
\<close>

record 'o finder_api =
  fa_Get :: "object_kind \<Rightarrow> string \<Rightarrow> string \<Rightarrow> 'o res"
  fa_GetProject :: "string \<Rightarrow> Project res"
  fa_ListProjects :: "ListOptions \<Rightarrow> Project list res"
  fa_ListSeeds :: "ListOptions \<Rightarrow> 'o list res"
  fa_ListShoots :: "ListOptions \<Rightarrow> (Shoot list \<times> int option) res"
  fa_ProjectNamespace :: string

definition no_options :: ListOptions where
  "no_options = \<lparr>lo_Namespace = [], lo_FieldSelector = [], lo_Limit = 0\<rparr>"

definition ApplyToList :: "(string, string) gomap \<Rightarrow> ListOptions \<Rightarrow> ListOptions" where
  "ApplyToList w opts =
     (let (opts1, m) = fold (\<lambda>(key, value) (opts, m).
            if key = ''metadata.namespace'' then (opts\<lparr>lo_Namespace := value\<rparr>, m) else (opts, mset key value m)) w (opts, [])
      in if length m > 0 then opts1\<lparr>lo_FieldSelector := m\<rparr> else opts1)"

primrec apply_option :: "filters \<Rightarrow> ListOption \<Rightarrow> ListOptions \<Rightarrow> ListOptions" where
  "apply_option h (Limit n) opts = opts\<lparr>lo_Limit := n\<rparr>"
| "apply_option h (MatchingFields m) opts = opts\<lparr>lo_FieldSelector := m\<rparr>"
| "apply_option h (ShootFilter a) opts = ApplyToList (h a) opts"

definition options_of :: "filters \<Rightarrow> ListOption list \<Rightarrow> ListOptions" where
  "options_of h os = fold (apply_option h) os no_options"

section \<open>Objects by name\<close>

definition fg_GetProject :: "'o finder_api \<Rightarrow> string \<Rightarrow> Project res" where
  "fg_GetProject A name = wrapR ''failed to get project %v: %w'' [name] (fa_GetProject A name)"

definition fg_ListProjects :: "'o finder_api \<Rightarrow> ListOption list \<Rightarrow> Project list res" where
  "fg_ListProjects A opts = wrapR ''failed to list projects: %w'' [] (fa_ListProjects A (options_of (\<lambda>_. []) opts))"

definition GetProjectByNamespace :: "'o finder_api \<Rightarrow> string \<Rightarrow> Project res" where
  "GetProjectByNamespace A namespace =
     bindR (wrapR ''failed to fetch project by namespace: %w'' []
       (fg_ListProjects A [MatchingFields [(fa_ProjectNamespace A, namespace)], Limit 1])) (\<lambda>projects.
     case projects of [] \<Rightarrow> Err (Errorf ''failed to fetch project by namespace'' []) | pj # _ \<Rightarrow> Ok pj)"

definition GetSeed :: "'o finder_api \<Rightarrow> string \<Rightarrow> 'o res" where
  "GetSeed A name = wrapR ''failed to get seed %v: %w'' [name] (fa_Get A K_Seed [] name)"

definition ListSeeds :: "'o finder_api \<Rightarrow> ListOption list \<Rightarrow> 'o list res" where
  "ListSeeds A opts = wrapR ''failed to list seeds: %w'' [] (fa_ListSeeds A (options_of (\<lambda>_. []) opts))"

definition GetNamespace :: "'o finder_api \<Rightarrow> string \<Rightarrow> 'o res" where
  "GetNamespace A name = wrapR ''failed to get namespace %v: %w'' [name] (fa_Get A K_Namespace [] name)"

definition GetSecretBinding :: "'o finder_api \<Rightarrow> string \<Rightarrow> string \<Rightarrow> 'o res" where
  "GetSecretBinding A namespace name = wrapR ''failed to get secretbinding %v: %w'' [namespace, name] (fa_Get A K_SecretBinding namespace name)"

definition fg_GetConfigMap :: "'o finder_api \<Rightarrow> string \<Rightarrow> string \<Rightarrow> 'o res" where
  "fg_GetConfigMap A namespace name = wrapR ''failed to get configmap %v: %w'' [namespace, name] (fa_Get A K_ConfigMap namespace name)"

definition GetCloudProfile :: "'o finder_api \<Rightarrow> string \<Rightarrow> 'o res" where
  "GetCloudProfile A name = wrapR ''failed to get cloudprofile %v: %w'' [name] (fa_Get A K_CloudProfile [] name)"

text \<open>
  The provider configuration of a cloud profile: an object that may be of another type, or raw data for the decoder.
\<close>

record 'c ProviderConfig =
  pc_Object :: "'c option option"
  pc_Raw :: "string option"

definition GetOpenstackProviderConfig :: "(string \<Rightarrow> 'c res) \<Rightarrow> string \<Rightarrow> 'c ProviderConfig option \<Rightarrow> 'c res" where
  "GetOpenstackProviderConfig Decode cpName providerConfig =
     (let apiVersion = ''core.gardener.cloud/v1alpha1.CloudProfile''
      in case providerConfig of None \<Rightarrow> Err (Errorf ''providerConfig of %s %s is empty'' [apiVersion, cpName])
         | Some pc \<Rightarrow> (case pc_Object pc of
               Some (Some config) \<Rightarrow> Ok config
             | Some None \<Rightarrow> Err (Errorf ''cannot cast providerConfig of %s %s'' [apiVersion, cpName])
             | None \<Rightarrow> (case pc_Raw pc of
                 Some raw \<Rightarrow> (case Decode raw of Err e \<Rightarrow> Err (Errorf ''cannot decode providerConfig of %s %s'' [apiVersion, cpName]) | r \<Rightarrow> r)
               | None \<Rightarrow> Err (Errorf ''providerConfig of %s %s contains neither raw data nor a decoded object'' [apiVersion, cpName]))))"

section \<open>The one shoot\<close>

text \<open>\<^verbatim>\<open>resolve\<close> takes the project out of the map before it is fetched.\<close>

definition resolve :: "'o finder_api \<Rightarrow> nat \<Rightarrow> filters \<Rightarrow> unit res \<times> filters" where
  "resolve A a h = (case mget (h a) ''project'' of None \<Rightarrow> (Ok (), h)
     | Some name \<Rightarrow> let h1 = h(a := mdel ''project'' (h a))
         in case fg_GetProject A name of Err e \<Rightarrow> (Err e, h1) | Panic p \<Rightarrow> (Panic p, h1)
            | Ok project \<Rightarrow> (case pj_Namespace project of
                  None \<Rightarrow> (Err (Errorf ''project %q has not yet been assigned to a namespace'' [name]), h1)
                | Some ns \<Rightarrow> if ns = [] then (Err (Errorf ''project %q has not yet been assigned to a namespace'' [name]), h1)
                             else (Ok (), h1(a := mset ''metadata.namespace'' ns (h1 a)))))"

fun resolveListOptions :: "'o finder_api \<Rightarrow> ListOption list \<Rightarrow> filters \<Rightarrow> unit res \<times> filters" where
  "resolveListOptions A [] h = (Ok (), h)"
| "resolveListOptions A (ShootFilter a # os) h = (case resolve A a h of (Ok u, h') \<Rightarrow> resolveListOptions A os h' | r \<Rightarrow> r)"
| "resolveListOptions A (opt # os) h = resolveListOptions A os h"

definition fg_ListShoots :: "'o finder_api \<Rightarrow> ListOption list \<Rightarrow> filters \<Rightarrow> (Shoot list \<times> int option) res \<times> filters" where
  "fg_ListShoots A opts h = (case resolveListOptions A opts h of
     (Ok u, h') \<Rightarrow> (wrapR ''failed to list shoots with list options %q: %w'' [] (fa_ListShoots A (options_of h' opts)), h')
   | (Err e, h') \<Rightarrow> (Err e, h') | (Panic p, h') \<Rightarrow> (Panic p, h'))"

definition FindShoot :: "'o finder_api \<Rightarrow> ListOption list \<Rightarrow> filters \<Rightarrow> Shoot res \<times> filters" where
  "FindShoot A opts h =
     (let opts = opts @ [Limit 2]; (r, h') = fg_ListShoots A opts h
      in (bindR (wrapR ''failed to list shoot clusters: %w'' [] r) (\<lambda>(items, remaining).
            if length items = 0 then Err (Errorf ''no shoot found matching the given list options %q'' [])
            else let remainingItemCount = (case remaining of Some n \<Rightarrow> n | None \<Rightarrow> 0)
                 in if length items > 1 \<or> remainingItemCount > 0
                    then Err (Errorf ''multiple shoots found matching the given list options %q, please target a project or seed to make your choice unambiguous'' [])
                    else Ok (hd items)), h'))"

section \<open>What a filter selects\<close>

definition selects :: "(Shoot \<Rightarrow> string \<Rightarrow> string) \<Rightarrow> ListOptions \<Rightarrow> Shoot \<Rightarrow> bool" where
  "selects fval opts s \<longleftrightarrow> (lo_Namespace opts = [] \<or> sh_Namespace s = lo_Namespace opts) \<and>
     (\<forall>(k, v) \<in> set (lo_FieldSelector opts). fval s k = v)"

text \<open>The other fields a filter names.\<close>

definition other_fields :: "(Shoot \<Rightarrow> string \<Rightarrow> string) \<Rightarrow> (string, string) gomap \<Rightarrow> Shoot \<Rightarrow> bool" where
  "other_fields fval w s \<longleftrightarrow> (\<forall>(k, v) \<in> set w. k \<notin> {''project'', ''metadata.namespace''} \<longrightarrow> fval s k = v)"

lemma apply_loop:
  "wf_map w \<Longrightarrow> fold (\<lambda>(key, value) (opts, m).
       if key = ns then (opts\<lparr>lo_Namespace := value\<rparr>, m) else (opts, mset key value m)) w (opts, m) =
     (case mget w ns of Some v \<Rightarrow> opts\<lparr>lo_Namespace := v\<rparr> | None \<Rightarrow> opts, fold (\<lambda>(k, v). mset k v) (filter (\<lambda>e. fst e \<noteq> ns) w) m)"
proof (induction w arbitrary: opts m)
  case (Cons e w)
  obtain k v where e: "e = (k, v)" by (cases e)
  have w: "wf_map w" "mget w k = None" using Cons.prems e by (auto simp: wf_map_def map_of_eq_None_iff)
  show ?case
  proof (cases "k = ns")
    case True
    then show ?thesis using Cons.IH [OF w(1), of "opts\<lparr>lo_Namespace := v\<rparr>" m] w(2) e by simp
  next
    case False
    then show ?thesis using Cons.IH [OF w(1), of opts "mset k v m"] e by simp
  qed
qed simp

lemma wf_map_ball: "wf_map w \<Longrightarrow> (\<forall>(k, v) \<in> set w. P k v) \<longleftrightarrow> (\<forall>k v. mget w k = Some v \<longrightarrow> P k v)"
  by (simp add: wf_map_mem [symmetric]) blast

lemma map_of_reversed: "distinct (map fst xs) \<Longrightarrow> map_of (rev xs) = map_of xs"
  by (rule map_of_eqI) (auto simp: map_of_eq_Some_iff rev_map [symmetric] intro!: map_of_is_SomeI)

lemma ApplyToList_spec:
  assumes "wf_map w" "lo_FieldSelector opts = []"
  shows "lo_Namespace (ApplyToList w opts) = (case mget w ''metadata.namespace'' of Some v \<Rightarrow> v | None \<Rightarrow> lo_Namespace opts)"
    and "set (lo_FieldSelector (ApplyToList w opts)) = {(k, v) \<in> set w. k \<noteq> ''metadata.namespace''}"
    and "lo_Limit (ApplyToList w opts) = lo_Limit opts"
proof -
  let ?f = "filter (\<lambda>e. fst e \<noteq> ''metadata.namespace'') w"
  define m where "m = fold (\<lambda>(k, v). mset k v) ?f []"
  have wf: "wf_map ?f" using assms(1) by (simp add: wf_map_def distinct_map_filter)
  have wm: "wf_map m" unfolding m_def by (rule wf_map_fold_mset) simp
  have g: "mget m = mget ?f" using mget_fold_mset [of ?f "[]"] wf by (simp add: m_def wf_map_def map_of_reversed)
  have "(a, b) \<in> set m \<longleftrightarrow> (a, b) \<in> set ?f" for a b by (simp only: wf_map_mem [OF wf] wf_map_mem [OF wm] g)
  then have m: "set m = set ?f" by (intro subset_antisym subrelI) (simp_all only:)
  have e: "ApplyToList w opts =
      (let o1 = (case mget w ''metadata.namespace'' of Some v \<Rightarrow> opts\<lparr>lo_Namespace := v\<rparr> | None \<Rightarrow> opts)
       in if length m > 0 then o1\<lparr>lo_FieldSelector := m\<rparr> else o1)"
    unfolding ApplyToList_def apply_loop [OF assms(1)] m_def by (simp add: Let_def)
  show "lo_Namespace (ApplyToList w opts) = (case mget w ''metadata.namespace'' of Some v \<Rightarrow> v | None \<Rightarrow> lo_Namespace opts)"
    "lo_Limit (ApplyToList w opts) = lo_Limit opts" unfolding e by (auto simp: Let_def split: option.splits)
  show "set (lo_FieldSelector (ApplyToList w opts)) = {(k, v) \<in> set w. k \<noteq> ''metadata.namespace''}"
  proof -
    have "lo_FieldSelector (ApplyToList w opts) = m"
      by (cases "mget w ''metadata.namespace''"; cases m) (simp_all add: assms(2) e Let_def del: length_greater_0_conv)
    then have "set (lo_FieldSelector (ApplyToList w opts)) = set ?f" by (simp only: m)
    also have "\<dots> = {(k, v) \<in> set w. k \<noteq> ''metadata.namespace''}" by auto
    finally show ?thesis .
  qed
qed

lemma selects_filter:
  assumes "wf_map w" and that: "h a = w"
  shows "selects fval (options_of h [ShootFilter a, Limit n]) s \<longleftrightarrow>
    (case mget w ''metadata.namespace'' of Some ns \<Rightarrow> ns = [] \<or> sh_Namespace s = ns | None \<Rightarrow> True) \<and>
    (\<forall>(k, v) \<in> set w. k \<noteq> ''metadata.namespace'' \<longrightarrow> fval s k = v)"
  using ApplyToList_spec [OF assms(1), of no_options] that by (auto simp: selects_def options_of_def no_options_def split: option.splits)

section \<open>Finding a shoot\<close>

text \<open>
  The server lists what is selected, perhaps up to a limit that is at least the one asked for, and when it says how many are
  left out it says so truly.
\<close>

definition lists_shoots :: "'o finder_api \<Rightarrow> (Shoot \<Rightarrow> string \<Rightarrow> string) \<Rightarrow> Shoot list \<Rightarrow> bool" where
  "lists_shoots A fval shoots \<longleftrightarrow> (\<forall>opts. let ms = filter (selects fval opts) shoots
     in \<exists>k r. fa_ListShoots A opts = Ok (take k ms, r) \<and> (lo_Limit opts \<le> int k \<and> 0 < lo_Limit opts \<or> length ms \<le> k) \<and>
          (\<forall>n. r = Some n \<longrightarrow> n = int (length ms - k)))"

text \<open>Exactly one shoot, or an error.\<close>

definition the_only :: "'a list \<Rightarrow> 'a res \<Rightarrow> bool" where
  "the_only xs r \<longleftrightarrow> (case xs of [x] \<Rightarrow> r = Ok x | _ \<Rightarrow> (\<exists>e. r = Err e))"

lemma FindShoot_listed:
  assumes "lists_shoots A fval shoots" "resolveListOptions A (opts @ [Limit 2]) h = (Ok (), h')"
  shows "snd (FindShoot A opts h) = h' \<and> the_only (filter (selects fval (options_of h' (opts @ [Limit 2]))) shoots) (fst (FindShoot A opts h))"
proof -
  let ?o = "options_of h' (opts @ [Limit 2])" and ?ms = "filter (selects fval (options_of h' (opts @ [Limit 2]))) shoots"
  have "lo_Limit ?o = 2" by (simp add: options_of_def)
  then obtain k r where l: "fa_ListShoots A ?o = Ok (take k ?ms, r)" "2 \<le> k \<or> length ?ms \<le> k" "\<And>n. r = Some n \<Longrightarrow> n = int (length ?ms - k)"
    using assms(1) [unfolded lists_shoots_def Let_def, THEN spec, of ?o] by auto
  have f: "FindShoot A opts h = (if take k ?ms = [] then Err (Errorf ''no shoot found matching the given list options %q'' [])
      else if length (take k ?ms) > 1 \<or> (case r of Some n \<Rightarrow> n | None \<Rightarrow> 0) > 0
      then Err (Errorf ''multiple shoots found matching the given list options %q, please target a project or seed to make your choice unambiguous'' [])
      else Ok (hd (take k ?ms)), h')"
    by (simp add: FindShoot_def Let_def fg_ListShoots_def assms(2) l(1))
  consider "?ms = []" | s where "?ms = [s]" | s s' ms where "?ms = s # s' # ms" by (metis neq_Nil_conv)
  then show ?thesis
  proof cases
    case (2 s)
    then have "0 < k" using l(2) by auto
    then show ?thesis using l(3) 2 unfolding f by (auto simp: the_only_def split: option.splits)
  next
    case (3 s s' ms)
    then have "2 \<le> k" using l(2) by auto
    then obtain j where "k = Suc (Suc j)" by (metis Suc_le_D numeral_2_eq_2 Suc_le_mono)
    then show ?thesis using 3 unfolding f by (simp add: the_only_def)
  qed (simp add: f the_only_def)
qed

text \<open>
  A filter that names a project finds exactly the one shoot of the project's namespace that agrees with its other fields, and
  gives an error when there is none or more than one; after the call the filter names the namespace.
\<close>

theorem FindShoot_of_project:
  assumes "lists_shoots A fval shoots" and w: "h a = w" "wf_map w" "mget w ''project'' = Some p" and pj: "fa_GetProject A p = Ok pj"
    and ns: "pj_Namespace pj = Some ns" "ns \<noteq> []"
  shows "the_only (filter (\<lambda>s. sh_Namespace s = ns \<and> other_fields fval w s) shoots) (fst (FindShoot A [ShootFilter a] h)) \<and>
    snd (FindShoot A [ShootFilter a] h) = h(a := mset ''metadata.namespace'' ns (mdel ''project'' w))"
proof -
  define w' where "w' = mset ''metadata.namespace'' ns (mdel ''project'' w)"
  have r: "resolveListOptions A ([ShootFilter a] @ [Limit 2]) h = (Ok (), h(a := w'))"
    using w pj ns by (simp add: resolve_def fg_GetProject_def w'_def)
  have wf: "wf_map w'" using w(2) by (simp add: w'_def)
  have m: "mget w' = (mget w)(''project'' := None, ''metadata.namespace'' := Some ns)" by (simp add: w'_def fun_eq_iff)
  have "(\<forall>(k, v) \<in> set w'. k \<noteq> ''metadata.namespace'' \<longrightarrow> fval s k = v) \<longleftrightarrow> other_fields fval w s" for s
    unfolding other_fields_def wf_map_ball [OF wf] wf_map_ball [OF w(2)] by (auto simp: m)
  then have "selects fval (options_of (h(a := w')) ([ShootFilter a] @ [Limit 2])) s \<longleftrightarrow> sh_Namespace s = ns \<and> other_fields fval w s" for s
    using selects_filter [OF wf, of "h(a := w')" a fval 2 s] ns(2) by (simp add: m)
  then have "filter (selects fval (options_of (h(a := w')) ([ShootFilter a] @ [Limit 2]))) shoots =
      filter (\<lambda>s. sh_Namespace s = ns \<and> other_fields fval w s) shoots" by (intro filter_cong) auto
  then show ?thesis using FindShoot_listed [OF assms(1) r] by (simp add: w'_def)
qed

text \<open>
  A project that cannot be read is gone from the filter all the same. The next call with it selects from every
  namespace, and may find the shoot of another project.
\<close>

theorem FindShoot_forgets_project:
  assumes w: "h a = w" "wf_map w" "mget w ''project'' = Some p" "mget w ''metadata.namespace'' = None" and e: "fa_GetProject A p = Err e"
    and "lists_shoots B fval shoots" "h' = snd (FindShoot A [ShootFilter a] h)"
  shows "(\<exists>e. fst (FindShoot A [ShootFilter a] h) = Err e) \<and>
    the_only (filter (other_fields fval w) shoots) (fst (FindShoot B [ShootFilter a] h'))"
proof -
  define w' where "w' = mdel ''project'' w"
  have f: "FindShoot A [ShootFilter a] h = (Err (Wrapf ''failed to list shoot clusters: %w'' [] (Wrapf ''failed to get project %v: %w'' [p] e)), h(a := w'))"
    using w e by (simp add: FindShoot_def Let_def fg_ListShoots_def resolve_def fg_GetProject_def w'_def)
  then have h': "h' = h(a := w')" using assms(7) by simp
  have wf: "wf_map w'" using w(2) by (simp add: w'_def)
  have m: "mget w' = (mget w)(''project'' := None)" by (simp add: w'_def fun_eq_iff)
  have r: "resolveListOptions B ([ShootFilter a] @ [Limit 2]) h' = (Ok (), h')" by (simp add: resolve_def h' m)
  have "(\<forall>(k, v) \<in> set w'. k \<noteq> ''metadata.namespace'' \<longrightarrow> fval s k = v) \<longleftrightarrow> other_fields fval w s" for s
    unfolding other_fields_def wf_map_ball [OF wf] wf_map_ball [OF w(2)] using w(4) by (auto simp: m)
  then have "selects fval (options_of h' ([ShootFilter a] @ [Limit 2])) s \<longleftrightarrow> other_fields fval w s" for s
    using selects_filter [OF wf, of h' a fval 2 s] w(4) by (simp add: m h')
  then have "filter (selects fval (options_of h' ([ShootFilter a] @ [Limit 2]))) shoots = filter (other_fields fval w) shoots"
    by (intro filter_cong) auto
  then show ?thesis using FindShoot_listed [OF assms(6) r] f by simp
qed

section \<open>Projects\<close>

text \<open>The project of a namespace is the first the server gives for it, and one item is asked for.\<close>

lemma GetProjectByNamespace_first:
  assumes "fa_ListProjects A \<lparr>lo_Namespace = [], lo_FieldSelector = [(fa_ProjectNamespace A, ns)], lo_Limit = 1\<rparr> = Ok projects"
  shows "GetProjectByNamespace A ns = (case projects of [] \<Rightarrow> Err (Errorf ''failed to fetch project by namespace'' []) | pj # _ \<Rightarrow> Ok pj)"
  using assms by (simp add: GetProjectByNamespace_def fg_ListProjects_def options_of_def no_options_def)

section \<open>Witnesses\<close>

definition found_shoot :: "string \<Rightarrow> string \<Rightarrow> Shoot" where
  "found_shoot ns n = \<lparr>sh_Name = n, sh_Namespace = ns, sh_SeedName = None, sh_Version = [], sh_Labels = [], sh_Conditions = [],
     sh_StatusSeedName = None, sh_TechnicalID = [], sh_AdvertisedAddresses = []\<rparr>"

definition shoot_field :: "Shoot \<Rightarrow> string \<Rightarrow> string" where
  "shoot_field s k = (if k = ''metadata.name'' then sh_Name s else [])"

definition both_shoots :: "Shoot list" where
  "both_shoots = [found_shoot ''garden-a'' ''s'', found_shoot ''garden-b'' ''t'']"

definition find_api :: "Project res \<Rightarrow> unit finder_api" where
  "find_api pj = \<lparr>fa_Get = (\<lambda>_ _ _. Ok ()), fa_GetProject = (\<lambda>_. pj), fa_ListProjects = (\<lambda>_. Ok []), fa_ListSeeds = (\<lambda>_. Ok []),
     fa_ListShoots = (\<lambda>opts. Ok (filter (selects shoot_field opts) both_shoots, None)),
     fa_ProjectNamespace = ''spec.namespace''\<rparr>"

lemma find_api_lists: "lists_shoots (find_api pj) shoot_field both_shoots"
  unfolding lists_shoots_def Let_def
  by (intro allI exI [of _ "2 :: nat"] exI [of _ None]) (simp add: find_api_def both_shoots_def)

definition project_a :: Project where
  "project_a = \<lparr>pj_Name = ''a'', pj_Namespace = Some ''garden-a''\<rparr>"

definition filter_for :: "string \<Rightarrow> filters" where
  "filter_for n = (\<lambda>_. [(''project'', ''a''), (''metadata.name'', n)])"

lemma FindShoot_of_project_witness:
  "fst (FindShoot (find_api (Ok project_a)) [ShootFilter 0] (filter_for ''s'')) = Ok (found_shoot ''garden-a'' ''s'')"
  using FindShoot_of_project [OF find_api_lists [of "Ok project_a"], where h = "filter_for ''s''" and a = 0 and p = "''a''"
      and pj = project_a and ns = "''garden-a''" and w = "filter_for ''s'' 0"]
  by (simp add: wf_map_def filter_for_def project_a_def find_api_def both_shoots_def the_only_def found_shoot_def other_fields_def shoot_field_def)

lemma FindShoot_forgets_project_witness:
  "fst (FindShoot (find_api (Ok project_a)) [ShootFilter 0]
     (snd (FindShoot (find_api (Err (LibErr ''timeout''))) [ShootFilter 0] (filter_for ''t'')))) = Ok (found_shoot ''garden-b'' ''t'')"
  using FindShoot_forgets_project [where B = "find_api (Ok project_a)", OF _ _ _ _ _ find_api_lists refl, where h = "filter_for ''t''"
      and a = 0 and A = "find_api (Err (LibErr ''timeout''))" and e = "LibErr ''timeout''" and p = "''a''" and w = "filter_for ''t'' 0"]
  by (simp add: wf_map_def filter_for_def project_a_def find_api_def both_shoots_def the_only_def found_shoot_def other_fields_def shoot_field_def)

end
