(* ===== verification/StoreContracts.thy ===== *)
theory StoreContracts
  imports Stores
begin

text \<open>
  What the stores of \<^verbatim>\<open>pkg/store\<close> promise to the search: the results they send, the prefixes they show
  and, as locales, that what a search sends can be fetched again. The stores interpret the locales on their own
  encoding of paths and tags.
\<close>

section \<open>Results and prefixes\<close>

definition found :: "string \<Rightarrow> tags \<Rightarrow> SearchResult" where
  "found path tags = \<lparr>sr_KubeconfigPath = path, sr_Tags = tags, sr_Error = None\<rparr>"

definition search_error :: "gerror \<Rightarrow> SearchResult" where
  "search_error e = \<lparr>sr_KubeconfigPath = [], sr_Tags = [], sr_Error = Some e\<rparr>"

lemma found_simps [simp]: "sr_KubeconfigPath (found p t) = p" "sr_Tags (found p t) = t" "sr_Error (found p t) = None"
  by (simp_all add: found_def)

lemma search_error_simps [simp]: "sr_Error (search_error e) = Some e" "sr_KubeconfigPath (search_error e) = []"
  by (simp_all add: search_error_def)

lemma found_neq_error [simp]: "found p t \<noteq> search_error e" "search_error e \<noteq> found p t"
  by (simp_all add: found_def search_error_def)

lemma found_inject [simp]: "found p t = found p' t' \<longleftrightarrow> p = p' \<and> t = t'"
  by (simp add: found_def)

lemma mgets_Nil [simp]: "mgets [] k = []"
  by (simp add: mgets_def)

text \<open>The prefix of a store that shows one: nothing when \<^verbatim>\<open>ShowPrefix\<close> is set to false.\<close>

definition shows_prefix :: "BaseStore \<Rightarrow> bool" where
  "shows_prefix b \<longleftrightarrow> ks_ShowPrefix (base_GetStoreConfig b) \<noteq> Some False"

definition kind_prefix :: "BaseStore \<Rightarrow> StoreKind \<Rightarrow> string" where
  "kind_prefix b kind = (if shows_prefix b then kind else [])"

definition id_prefix :: "BaseStore \<Rightarrow> StoreKind \<Rightarrow> string" where
  "id_prefix b kind = (if \<not> shows_prefix b then [] else case ks_ID (base_GetStoreConfig b) of Some i \<Rightarrow> i | None \<Rightarrow> kind)"

section \<open>Parts of paths\<close>

lemma Split_Join: "list_all (\<lambda>l. c \<notin> set l) ls \<Longrightarrow> ls \<noteq> [] \<Longrightarrow> Split (Join ls [c]) [c] = ls"
  by (induction ls rule: induct_list012) (auto simp: Split_single_no Split_single_Cons)

text \<open>Empty elements, from double slashes, are dropped; the plain ones stay.\<close>

lemma clean_plain_elems:
  "list_all (\<lambda>e. e = [] \<or> plain_elem e) es \<Longrightarrow> fold (clean_step rooted) es st = rev (filter (\<lambda>e. e \<noteq> []) es) @ st"
proof (induction es arbitrary: st)
  case (Cons e es)
  show ?case
  proof (cases "e = []")
    case True
    then have "clean_step rooted e st = st" by (simp add: clean_step_def)
    then show ?thesis using Cons True by simp
  next
    case False
    then have "clean_step rooted e st = e # st" using Cons.prems by (simp add: clean_step_plain)
    then show ?thesis using Cons False by simp
  qed
qed simp

lemma Clean_plain_elems:
  assumes "list_all (\<lambda>e. e = [] \<or> plain_elem e) (e # es)" and "e \<noteq> []"
  shows "Clean (Join (e # es) slash) = Join (filter (\<lambda>x. x \<noteq> []) (e # es)) slash"
proof -
  have n: "list_all (\<lambda>l. CHR ''/'' \<notin> set l) (e # es)"
    using assms(1) by (rule list.pred_mono_strong) (auto simp: plain_elem_def)
  have "\<not> HasPrefix (Join (e # es) slash) slash"
  proof -
    obtain c r where e: "e = c # r" using assms(2) by (cases e) auto
    then obtain t where "Join (e # es) slash = c # t" by (cases es) auto
    then show ?thesis using n e by (auto simp: HasPrefix_def)
  qed
  then show ?thesis
    using Split_Join [OF n] clean_plain_elems [OF assms(1)] assms(2) by (simp add: Clean_def)
qed

section \<open>What is sent can be fetched\<close>

text \<open>
  \<^verbatim>\<open>path_of\<close> and \<^verbatim>\<open>tags_of\<close> encode an item of the backing system as a search result; \<^verbatim>\<open>target\<close> is what
  \<^verbatim>\<open>GetKubeconfigForPath\<close> asks the backing system for, \<^verbatim>\<open>key\<close> what it should ask for.
\<close>

locale fetchable =
  fixes path_of :: "'c \<Rightarrow> string" and tags_of :: "'c \<Rightarrow> tags"
    and target :: "string \<Rightarrow> tags \<Rightarrow> 'k res" and key :: "'c \<Rightarrow> 'k" and valid :: "'c \<Rightarrow> bool"
  assumes target_sent: "valid c \<Longrightarrow> target (path_of c) (tags_of c) = Ok (key c)"
begin

lemma targets_of_search:
  "list_all valid cs \<Longrightarrow>
     map (\<lambda>r. target (sr_KubeconfigPath r) (sr_Tags r)) (map (\<lambda>c. found (path_of c) (tags_of c)) cs) = map (\<lambda>c. Ok (key c)) cs"
  by (induction cs) (auto simp: target_sent)

lemma sent_distinct:
  "list_all valid cs \<Longrightarrow> distinct (map key cs) \<Longrightarrow> distinct (map (\<lambda>c. found (path_of c) (tags_of c)) cs)"
proof (induction cs)
  case (Cons c cs)
  have "found (path_of c) (tags_of c) \<noteq> found (path_of d) (tags_of d)" if "d \<in> set cs" for d
  proof -
    have "key c \<noteq> key d" using Cons.prems(2) that by auto
    then show ?thesis using Cons.prems(1) that target_sent [of c] target_sent [of d] by (auto simp: list_all_iff)
  qed
  then have "found (path_of c) (tags_of c) \<notin> (\<lambda>c. found (path_of c) (tags_of c)) ` set cs" by blast
  then show ?case using Cons by simp
qed simp

end

text \<open>
  A store whose paths say it all: the tags may be missing, as for a context that comes from a search index
  without tags, and two items never share a path, so a cache that is keyed by the path is safe.
\<close>

locale fetchable_by_path = fetchable +
  assumes target_path: "valid c \<Longrightarrow> target (path_of c) [] = Ok (key c)"
begin

lemma path_determines: "valid c \<Longrightarrow> valid d \<Longrightarrow> path_of c = path_of d \<Longrightarrow> key c = key d"
  using target_path [of c] target_path [of d] by simp

lemma tags_irrelevant: "valid c \<Longrightarrow> ts \<in> {tags_of c, []} \<Longrightarrow> target (path_of c) ts = Ok (key c)"
  using target_sent target_path by auto

lemma paths_distinct: "list_all valid cs \<Longrightarrow> distinct (map key cs) \<Longrightarrow> distinct (map path_of cs)"
proof (induction cs)
  case (Cons c cs)
  have "path_of c \<noteq> path_of d" if "d \<in> set cs" for d
  proof -
    have "key c \<noteq> key d" using Cons.prems(2) that by auto
    then show ?thesis using Cons.prems(1) that path_determines [of c d] by (auto simp: list_all_iff)
  qed
  then have "path_of c \<notin> path_of ` set cs" by blast
  then show ?case using Cons by simp
qed simp

end

end
