(* ===== verification/KubernetesStore.thy ===== *)
theory KubernetesStore
  imports StoreContracts
begin

text \<open>
  The store of kubeconfigs kept in Kubernetes secrets (\<^verbatim>\<open>pkg/store/kubeconfig_store_kubernetes.go\<close>): its search, the
  kubeconfig for a path, and the reference to a cluster of another store that is resolved once all stores exist.
  The Kubernetes API is a record of functions.
\<close>

section \<open>The API and the store\<close>

record k8s_secret =
  sec_Namespace :: string
  sec_Name :: string
  sec_Data :: "(string, string) gomap"
  sec_Labels :: "(string, string) gomap"

text \<open>\<^verbatim>\<open>Get\<close> by namespace and name, and \<^verbatim>\<open>List\<close> by namespace and label selector.\<close>

record k8s_client =
  kl_Get :: "string \<Rightarrow> string \<Rightarrow> k8s_secret res"
  kl_List :: "string \<Rightarrow> string \<Rightarrow> k8s_secret list res"

record 'r k8s_libs =
  kb_parse :: "KubeconfigStore \<Rightarrow> StoreConfigKubernetes res"   \<comment> \<open>\<^verbatim>\<open>ParseStoreConfig\<close>\<close>
  kb_ambient :: "world \<Rightarrow> 'r res"                              \<comment> \<open>the kubeconfig in use\<close>
  kb_RESTConfig :: "string \<Rightarrow> 'r res"
  kb_NewForConfig :: "'r \<Rightarrow> k8s_client res"
  kb_home :: "string res"                                     \<comment> \<open>the home directory of \<^verbatim>\<open>user.Current\<close>\<close>

record kubernetes_store =
  ku_Base :: BaseStore
  ku_Config :: StoreConfigKubernetes
  ku_peerKubeconfig :: string
  ku_clientOverride :: "k8s_client option"

definition storeRefPrefix :: string where "storeRefPrefix = ''store://''"
definition defaultSecretKey :: string where "defaultSecretKey = ''kubeconfig''"
definition defaultNamespace :: string where "defaultNamespace = ''default''"

definition with_defaults :: "StoreConfigKubernetes \<Rightarrow> StoreConfigKubernetes" where
  "with_defaults cfg =
     (let c = (if k8s_Namespace cfg = [] then cfg\<lparr>k8s_Namespace := defaultNamespace\<rparr> else cfg)
      in if k8s_Path c = [] then c\<lparr>k8s_Path := defaultSecretKey\<rparr> else c)"

definition NewKubernetesStore :: "'r k8s_libs \<Rightarrow> KubeconfigStore \<Rightarrow> kubernetes_store res" where
  "NewKubernetesStore L s = bindR (kb_parse L s) (\<lambda>cfg0. let cfg = with_defaults cfg0
     in if k8s_SecretName cfg = [] \<and> k8s_SecretLabelSelector cfg = []
        then Err (Errorf ''kubernetes store: either secretName or secretLabelSelector must be set'' [])
        else if k8s_SecretName cfg \<noteq> [] \<and> k8s_SecretLabelSelector cfg \<noteq> []
        then Err (Errorf ''kubernetes store: secretName and secretLabelSelector are mutually exclusive'' [])
        else Ok \<lparr>ku_Base = \<lparr>base_Kind = StoreKindKubernetes, base_KubeconfigStore = s\<rparr>, ku_Config = cfg,
                 ku_peerKubeconfig = [], ku_clientOverride = None\<rparr>)"

definition kubernetes_GetContextPrefix :: "kubernetes_store \<Rightarrow> string" where
  "kubernetes_GetContextPrefix s = kind_prefix (ku_Base s) StoreKindKubernetes"

section \<open>Paths and references\<close>

definition secretPath :: "string \<Rightarrow> string \<Rightarrow> string" where
  "secretPath namespace name = namespace @ ''/'' @ name"

definition parseSecretPath :: "string \<Rightarrow> (string \<times> string) res" where
  "parseSecretPath path = (case SplitN2 path ''/'' of
     [a, b] \<Rightarrow> if a = [] \<or> b = [] then Err (Errorf ''kubernetes store: invalid secret path %q'' [path]) else Ok (a, b)
   | _ \<Rightarrow> Err (Errorf ''kubernetes store: invalid secret path %q'' [path]))"

definition parseStoreRef :: "string \<Rightarrow> (string \<times> string) res" where
  "parseStoreRef ref =
     (if \<not> HasPrefix ref storeRefPrefix then Err (Errorf ''store reference must start with %q, got %q'' [storeRefPrefix, ref])
      else (let rest = TrimPrefix ref storeRefPrefix
        in case GoStrings.Index rest ''/'' of
            None \<Rightarrow> Err (Errorf ''store reference %q must have format store://<store-id>/<context-path>'' [ref])
          | Some idx \<Rightarrow>
              if idx = 0 then Err (Errorf ''store reference %q must have format store://<store-id>/<context-path>'' [ref])
              else if drop (idx + 1) rest = []
              then Err (Errorf ''store reference %q must have a non-empty context path after the store ID'' [ref])
              else Ok (take idx rest, drop (idx + 1) rest)))"

section \<open>Search and kubeconfigs\<close>

definition buildClient :: "'r k8s_libs \<Rightarrow> kubernetes_store \<Rightarrow> k8s_client io" where
  "buildClient L s = (case ku_clientOverride s of
     Some c \<Rightarrow> returnIO c
   | None \<Rightarrow> if length (ku_peerKubeconfig s) > 0
       then liftR (bindR (wrapR ''kubernetes store: parse peer kubeconfig: %w'' [] (kb_RESTConfig L (ku_peerKubeconfig s))) (kb_NewForConfig L))
       else (\<lambda>w. liftR (bindR (wrapR ''unable to build rest config: %w'' [] (kb_ambient L w)) (kb_NewForConfig L)) w))"

definition secret_names :: "k8s_secret list res \<Rightarrow> string list" where
  "secret_names r = (case r of Ok secrets \<Rightarrow> sort (map sec_Name secrets) | _ \<Rightarrow> [])"

definition listSecretNames :: "k8s_client \<Rightarrow> string \<Rightarrow> string list" where
  "listSecretNames c namespace = secret_names (kl_List c namespace [])"

text \<open>A failing second \<^verbatim>\<open>List\<close> gives an empty list.\<close>

definition listSecrets :: "kubernetes_store \<Rightarrow> k8s_client \<Rightarrow> k8s_secret list res" where
  "listSecrets s c = (let cfg = ku_Config s; ns = k8s_Namespace cfg; selector = k8s_SecretLabelSelector cfg
     in if k8s_SecretName cfg \<noteq> [] then mapR (\<lambda>x. [x]) (kl_Get c ns (k8s_SecretName cfg))
        else bindR (kl_List c ns selector) (\<lambda>items.
          if length items = 0 then
            (let names = secret_names (kl_List c ns [])
             in if length names > 0
                then Err (Errorf ''no secrets matched label selector %q in namespace %q (available secrets: %s)'' [selector, ns, Join names '', ''])
                else Err (Errorf ''no secrets matched label selector %q in namespace %q (namespace is empty)'' [selector, ns]))
          else Ok items))"

definition secret_aliases :: "KubernetesAliasConfig \<Rightarrow> k8s_secret \<Rightarrow> string list" where
  "secret_aliases a secret = alias_List a @ filter (\<lambda>v. v \<noteq> []) (map (mgets (sec_Labels secret)) (FromLabels a))"

definition secret_result :: "kubernetes_store \<Rightarrow> k8s_secret \<Rightarrow> SearchResult" where
  "secret_result s secret =
     (let ts = [(''namespace'', sec_Namespace secret), (''secretName'', sec_Name secret)];
          allAliases = secret_aliases (k8s_Alias (ku_Config s)) secret
      in \<lparr>sr_KubeconfigPath = secretPath (sec_Namespace secret) (sec_Name secret),
          sr_Tags = (if length allAliases > 0 then mset ''aliases'' (Join allAliases '','') ts else ts), sr_Error = None\<rparr>)"

definition kubernetes_StartSearch :: "'r k8s_libs \<Rightarrow> kubernetes_store \<Rightarrow> SearchResult list io" where
  "kubernetes_StartSearch L s =
     tryIO (bindIO (buildClient L s) (\<lambda>c. liftR (listSecrets s c)))
       (\<lambda>secrets. returnIO (map (secret_result s) (filter (\<lambda>x. mget (sec_Data x) (k8s_Path (ku_Config s)) \<noteq> None) secrets)))
       (\<lambda>e. returnIO [\<lparr>sr_KubeconfigPath = [], sr_Tags = [], sr_Error = Some (Wrapf ''kubernetes store: list secrets: %w'' [] e)\<rparr>])"

definition looksLikeKubeconfig :: "string \<Rightarrow> bool" where
  "looksLikeKubeconfig bytes = Contains bytes ''apiVersion:''"

definition nl :: string where "nl = [CHR 0x0A]"

definition tokenToKubeconfig :: "string \<Rightarrow> string \<Rightarrow> string" where
  "tokenToKubeconfig token n =
     ''apiVersion: v1'' @ nl @ ''kind: Config'' @ nl @ ''clusters:'' @ nl @ ''- cluster:'' @ nl @
     ''    server: '' @ [CHR 0x22, CHR 0x22] @ nl @ ''  name: '' @ n @ nl @
     ''users:'' @ nl @ ''- name: '' @ n @ nl @ ''  user:'' @ nl @ ''    token: '' @ token @ nl @
     ''contexts:'' @ nl @ ''- context:'' @ nl @ ''    cluster: '' @ n @ nl @ ''    user: '' @ n @ nl @ ''  name: '' @ n @ nl @
     ''current-context: '' @ n @ nl"

definition secret_of :: "string \<Rightarrow> tags \<Rightarrow> (string \<times> string) res" where
  "secret_of path ts = (if mgets ts ''namespace'' = [] \<or> mgets ts ''secretName'' = [] then parseSecretPath path
     else Ok (mgets ts ''namespace'', mgets ts ''secretName''))"

definition secret_kubeconfig :: "kubernetes_store \<Rightarrow> k8s_client \<Rightarrow> string \<Rightarrow> string \<Rightarrow> string res" where
  "secret_kubeconfig s c ns name = (case kl_Get c ns name of
     Err e \<Rightarrow> (let available = listSecretNames c ns
       in if length available > 0
          then Err (Wrapf ''kubernetes store: secret %s/%s not found (available secrets in %s: %s): %w'' [ns, name, ns, Join available '', ''] e)
          else Err (Wrapf ''kubernetes store: get secret %s/%s: %w'' [ns, name] e))
   | Panic p \<Rightarrow> Panic p
   | Ok secret \<Rightarrow> (case mget (sec_Data secret) (k8s_Path (ku_Config s)) of
       None \<Rightarrow> Err (Errorf ''kubernetes store: secret %s/%s has no key %q (available keys: %s)''
         [ns, name, k8s_Path (ku_Config s), Join (sort (mkeys (sec_Data secret))) '', ''])
     | Some raw \<Rightarrow> Ok (if looksLikeKubeconfig raw then raw else tokenToKubeconfig raw name)))"

definition kubernetes_GetKubeconfigForPath :: "'r k8s_libs \<Rightarrow> kubernetes_store \<Rightarrow> string \<Rightarrow> tags \<Rightarrow> string io" where
  "kubernetes_GetKubeconfigForPath L s path ts =
     bindIO (liftR (secret_of path ts)) (\<lambda>(ns, name).
     bindIO (wrapIO ''kubernetes store: build client: %w'' [] (buildClient L s)) (\<lambda>c.
     liftR (secret_kubeconfig s c ns name)))"

text \<open>The store as the others see it.\<close>

definition kubernetes_as_store :: "'r k8s_libs \<Rightarrow> kubernetes_store \<Rightarrow> store" where
  "kubernetes_as_store L s = \<lparr>st_GetID = base_GetID (ku_Base s), st_GetKind = base_GetKind (ku_Base s),
     st_GetContextPrefix = (\<lambda>_. kubernetes_GetContextPrefix s), st_VerifyKubeconfigPaths = base_VerifyKubeconfigPaths (ku_Base s),
     st_StartSearch = kubernetes_StartSearch L s, st_GetKubeconfigForPath = kubernetes_GetKubeconfigForPath L s,
     st_GetStoreConfig = base_GetStoreConfig (ku_Base s), st_GetSearchPreview = None, st_GetShootLabelKeys = None, st_Flush = None\<rparr>"

section \<open>The cluster of another store\<close>

definition expandHomedir :: "string res \<Rightarrow> string \<Rightarrow> string" where
  "expandHomedir home path =
     (if path = ''~'' then (case home of Ok h \<Rightarrow> h | _ \<Rightarrow> path)
      else if HasPrefix path ''~/'' then (case home of Ok h \<Rightarrow> JoinPath [h, drop 2 path] | _ \<Rightarrow> path)
      else path)"

text \<open>The first result whose path or base name is the wanted one; the paths seen without one.\<close>

fun matching_result :: "string \<Rightarrow> SearchResult list \<Rightarrow> SearchResult option" where
  "matching_result want [] = None"
| "matching_result want (r # rs) =
     (if sr_Error r = None \<and> (sr_KubeconfigPath r = want \<or> BasePath (sr_KubeconfigPath r) = BasePath want) then Some r
      else matching_result want rs)"

definition available_paths :: "SearchResult list \<Rightarrow> string list" where
  "available_paths rs = map sr_KubeconfigPath (filter (\<lambda>r. sr_Error r = None) rs)"

definition resolveContextPath :: "string res \<Rightarrow> store \<Rightarrow> string \<Rightarrow> (string \<times> string) io" where
  "resolveContextPath home peer contextPath = (let expandedPath = expandHomedir home contextPath
     in tryIO (st_GetKubeconfigForPath peer expandedPath []) (\<lambda>data. returnIO (data, expandedPath))
       (\<lambda>directErr. bindIO (ignoreIO (st_VerifyKubeconfigPaths peer)) (\<lambda>_.
          bindIO (st_StartSearch peer) (\<lambda>results. case matching_result expandedPath results of
              Some r \<Rightarrow> bindIO (st_GetKubeconfigForPath peer (sr_KubeconfigPath r) (sr_Tags r)) (\<lambda>data. returnIO (data, sr_KubeconfigPath r))
            | None \<Rightarrow> if length (available_paths results) > 0
                then failIO (Errorf ''no entry matching %q found in peer store (available: %s)'' [contextPath, Join (available_paths results) '', ''])
                else failIO directErr))))"

definition availableStoreIDs :: "(string, 'a) gomap \<Rightarrow> string" where
  "availableStoreIDs stores = Join (mkeys stores) '', ''"

definition ResolvePeerStores :: "string res \<Rightarrow> (string, store) gomap \<Rightarrow> kubernetes_store \<Rightarrow> kubernetes_store io" where
  "ResolvePeerStores home allStores s =
     (if k8s_StoreID (ku_Config s) = [] then returnIO s
      else bindIO (wrapIO ''kubernetes store %q: invalid storeID: %w'' [base_GetID (ku_Base s)] (liftR (parseStoreRef (k8s_StoreID (ku_Config s)))))
        (\<lambda>(peerID, contextPath). case mget allStores peerID of
            None \<Rightarrow> failIO (Errorf ''kubernetes store %q: referenced store %q not found (available: %s)''
              [base_GetID (ku_Base s), peerID, availableStoreIDs allStores])
          | Some peer \<Rightarrow> bindIO (wrapIO ''kubernetes store %q: fetch kubeconfig from peer store %q path %q: %w''
                [base_GetID (ku_Base s), peerID, contextPath] (resolveContextPath home peer contextPath))
              (\<lambda>(kubeconfig, resolvedPath). returnIO (s\<lparr>ku_peerKubeconfig := kubeconfig\<rparr>))))"

text \<open>
  The list of stores. A Kubernetes store is found also behind a cache; \<^verbatim>\<open>view\<close> is what the others see of it, its
  methods through that cache. The stores are shared: one that refers to another sees it as it is by then.
\<close>

datatype peer = PlainStore store | KubeStore kubernetes_store

definition peer_store :: "(kubernetes_store \<Rightarrow> store) \<Rightarrow> peer \<Rightarrow> store" where
  "peer_store view p = (case p of PlainStore s \<Rightarrow> s | KubeStore s \<Rightarrow> view s)"

definition by_id :: "(kubernetes_store \<Rightarrow> store) \<Rightarrow> peer list \<Rightarrow> (string, store) gomap" where
  "by_id view ps = fold (\<lambda>p. mset (st_GetID (peer_store view p)) (peer_store view p)) ps []"

definition resolve_at :: "string res \<Rightarrow> (kubernetes_store \<Rightarrow> store) \<Rightarrow> nat \<Rightarrow> peer list \<Rightarrow> peer list io" where
  "resolve_at home view i ps = (case ps ! i of
     PlainStore s \<Rightarrow> returnIO ps
   | KubeStore s \<Rightarrow> bindIO (ResolvePeerStores home (by_id view ps) s) (\<lambda>s'. returnIO (ps[i := KubeStore s'])))"

definition ResolvePeerStoresForAll :: "string res \<Rightarrow> (kubernetes_store \<Rightarrow> store) \<Rightarrow> peer list \<Rightarrow> peer list io" where
  "ResolvePeerStoresForAll home view ps = foldIO (resolve_at home view) [0..<length ps] ps"

section \<open>References and paths are read back\<close>

text \<open>
  A reference is accepted exactly if it is \<^verbatim>\<open>store://\<close>, an id without a slash, a slash and a path, neither of
  them empty, and it gives these two parts.
\<close>

theorem parseStoreRef_iff:
  "parseStoreRef ref = Ok (storeID, path) \<longleftrightarrow>
     ref = storeRefPrefix @ storeID @ ''/'' @ path \<and> storeID \<noteq> [] \<and> CHR ''/'' \<notin> set storeID \<and> path \<noteq> []"
proof (rule iffI)
  assume l: "parseStoreRef ref = Ok (storeID, path)"
  then obtain rest where ref: "ref = storeRefPrefix @ rest"
    by (auto simp: parseStoreRef_def HasPrefix_iff split: if_splits)
  then obtain i where i: "GoStrings.Index rest ''/'' = Some i" "i \<noteq> 0" "storeID = take i rest" "path = drop (i + 1) rest" "path \<noteq> []"
    using l by (auto simp: parseStoreRef_def split: option.splits if_splits)
  from Index_Some [OF i(1)] have r: "rest = take i rest @ ''/'' @ drop (i + 1) rest" "i + 1 \<le> length rest" by simp_all
  have "CHR ''/'' \<notin> set (take i rest)"
  proof
    assume "CHR ''/'' \<in> set (take i rest)"
    then obtain a b where ab: "take i rest = a @ CHR ''/'' # b" "CHR ''/'' \<notin> set a" by (meson split_list_first)
    then have "GoStrings.Index rest ''/'' = Some (length a)"
      using Index_single [of "CHR ''/''" a "b @ ''/'' @ drop (i + 1) rest"] r(1) by simp
    moreover have "length a < i" using arg_cong [OF ab(1), of length] r(2) by simp
    ultimately show False using i(1) by simp
  qed
  then show "ref = storeRefPrefix @ storeID @ ''/'' @ path \<and> storeID \<noteq> [] \<and> CHR ''/'' \<notin> set storeID \<and> path \<noteq> []"
    using ref r i by auto
next
  assume r: "ref = storeRefPrefix @ storeID @ ''/'' @ path \<and> storeID \<noteq> [] \<and> CHR ''/'' \<notin> set storeID \<and> path \<noteq> []"
  then have "GoStrings.Index (storeID @ CHR ''/'' # path) ''/'' = Some (length storeID)" using Index_single by simp
  then show "parseStoreRef ref = Ok (storeID, path)" using r by (simp add: parseStoreRef_def)
qed

lemma parseSecretPath_secretPath:
  "CHR ''/'' \<notin> set ns \<Longrightarrow> ns \<noteq> [] \<Longrightarrow> name \<noteq> [] \<Longrightarrow> parseSecretPath (secretPath ns name) = Ok (ns, name)"
  by (simp add: parseSecretPath_def secretPath_def SplitN2_def Cut_single)

text \<open>Path and tags both name the secret, so the tags may be missing.\<close>

definition secret_tags :: "kubernetes_store \<Rightarrow> k8s_secret \<Rightarrow> tags" where
  "secret_tags s secret = sr_Tags (secret_result s secret)"

definition named_secret :: "k8s_secret \<Rightarrow> bool" where
  "named_secret x \<longleftrightarrow> sec_Namespace x \<noteq> [] \<and> CHR ''/'' \<notin> set (sec_Namespace x) \<and> sec_Name x \<noteq> []"

section \<open>What is sent can be fetched\<close>

text \<open>A listed secret has a name and a namespace without a slash, and can be read under them.\<close>

definition client_ok :: "k8s_client \<Rightarrow> bool" where
  "client_ok c \<longleftrightarrow>
     (\<forall>ns n secret. kl_Get c ns n = Ok secret \<longrightarrow> sec_Namespace secret = ns \<and> sec_Name secret = n \<and> ns \<noteq> [] \<and> n \<noteq> [] \<and> CHR ''/'' \<notin> set ns) \<and>
     (\<forall>ns sel secrets. kl_List c ns sel = Ok secrets \<longrightarrow>
        (\<forall>secret \<in> set secrets. kl_Get c (sec_Namespace secret) (sec_Name secret) = Ok secret))"

lemma listSecrets_Get:
  assumes "client_ok c" "listSecrets s c = Ok secrets" "secret \<in> set secrets"
  shows "kl_Get c (sec_Namespace secret) (sec_Name secret) = Ok secret"
proof (cases "k8s_SecretName (ku_Config s) = []")
  case True
  then have "kl_List c (k8s_Namespace (ku_Config s)) (k8s_SecretLabelSelector (ku_Config s)) = Ok secrets"
    using assms(2) by (auto simp: listSecrets_def Let_def split: if_splits)
  then show ?thesis using assms(1,3) unfolding client_ok_def by blast
next
  case False
  then have "kl_Get c (k8s_Namespace (ku_Config s)) (k8s_SecretName (ku_Config s)) = Ok secret"
    using assms(2,3) by (auto simp: listSecrets_def Let_def)
  then show ?thesis using assms(1) unfolding client_ok_def by metis
qed

lemma secret_result_tags:
  "mgets (sr_Tags (secret_result s secret)) ''namespace'' = sec_Namespace secret"
  "mgets (sr_Tags (secret_result s secret)) ''secretName'' = sec_Name secret"
  by (simp_all add: secret_result_def Let_def mgets_def)

interpretation k8s: fetchable_by_path "\<lambda>x. secretPath (sec_Namespace x) (sec_Name x)" "secret_tags s" secret_of
    "\<lambda>x. (sec_Namespace x, sec_Name x)" named_secret for s
  by unfold_locales
    (auto simp: secret_of_def secret_tags_def secret_result_tags named_secret_def parseSecretPath_secretPath)

text \<open>
  C10. Whatever a search sends without an error, the store gives for its path the kubeconfig of the secret found, with
  its tags and without them: the bytes under the configured key when they look like a kubeconfig, and otherwise a
  kubeconfig with them as the token.
\<close>

theorem sent_secret_fetched:
  assumes "kubernetes_StartSearch L s w = (Ok rs, w')" and "buildClient L s w = (Ok c, w)" and "client_ok c"
    and "r \<in> set rs" and "sr_Error r = None"
  shows "\<exists>secret raw. kl_Get c (sec_Namespace secret) (sec_Name secret) = Ok secret \<and>
     mget (sec_Data secret) (k8s_Path (ku_Config s)) = Some raw \<and> sr_KubeconfigPath r = secretPath (sec_Namespace secret) (sec_Name secret) \<and>
     (\<forall>ts \<in> {sr_Tags r, []}. kubernetes_GetKubeconfigForPath L s (sr_KubeconfigPath r) ts w =
        (Ok (if looksLikeKubeconfig raw then raw else tokenToKubeconfig raw (sec_Name secret)), w))"
proof -
  obtain secrets where l: "listSecrets s c = Ok secrets"
    "rs = map (secret_result s) (filter (\<lambda>x. mget (sec_Data x) (k8s_Path (ku_Config s)) \<noteq> None) secrets)"
  proof (cases "listSecrets s c")
    case (Ok secrets)
    then show ?thesis using assms(1,2) that by (auto simp: kubernetes_StartSearch_def tryIO_apply bindIO_apply)
  next
    case (Err e)
    then have False using assms(1,2,4,5) by (auto simp: kubernetes_StartSearch_def tryIO_apply bindIO_apply)
    then show ?thesis ..
  next
    case (Panic p)
    then have False using assms(1,2) by (auto simp: kubernetes_StartSearch_def tryIO_apply bindIO_apply)
    then show ?thesis ..
  qed
  then obtain secret raw where x: "secret \<in> set secrets" "r = secret_result s secret" "mget (sec_Data secret) (k8s_Path (ku_Config s)) = Some raw"
    using assms(4) by auto
  have g: "kl_Get c (sec_Namespace secret) (sec_Name secret) = Ok secret" by (rule listSecrets_Get [OF assms(3) l(1) x(1)])
  then have n: "sec_Namespace secret \<noteq> []" "sec_Name secret \<noteq> []" "CHR ''/'' \<notin> set (sec_Namespace secret)"
    using assms(3) unfolding client_ok_def by blast+
  have p: "sr_KubeconfigPath r = secretPath (sec_Namespace secret) (sec_Name secret)" by (simp add: x(2) secret_result_def Let_def)
  have "secret_of (sr_KubeconfigPath r) ts = Ok (sec_Namespace secret, sec_Name secret)" if "ts \<in> {sr_Tags r, []}" for ts
    using k8s.tags_irrelevant [of secret ts s] that n p by (simp add: named_secret_def secret_tags_def x(2))
  then have "\<forall>ts \<in> {sr_Tags r, []}. kubernetes_GetKubeconfigForPath L s (sr_KubeconfigPath r) ts w =
      (Ok (if looksLikeKubeconfig raw then raw else tokenToKubeconfig raw (sec_Name secret)), w)"
    using assms(2) g x(3) by (simp add: kubernetes_GetKubeconfigForPath_def secret_kubeconfig_def)
  then show ?thesis using g x(3) p by blast
qed

section \<open>Which cluster a reference reaches\<close>

lemma resolve_at_keeps:
  assumes "resolve_at home view i ps w = (Ok ps', w')" and "i < length ps"
  shows "length ps' = length ps \<and> (\<forall>j. j \<noteq> i \<longrightarrow> ps' ! j = ps ! j)"
  using assms by (auto simp: resolve_at_def bindIO_Ok_iff split: peer.splits)

lemma foldIO_append: "foldIO f (xs @ ys) s = bindIO (foldIO f xs s) (foldIO f ys)"
  by (induction xs arbitrary: s) (auto simp: fun_eq_iff bindIO_apply split: prod.splits res.splits)

lemma resolve_fold_keeps:
  assumes "foldIO (resolve_at home view) is ps w = (Ok ps', w')" and "\<forall>i \<in> set is. i < length ps"
  shows "length ps' = length ps \<and> (\<forall>j. j \<notin> set is \<longrightarrow> ps' ! j = ps ! j)"
  using assms
proof (induction "is" arbitrary: ps w)
  case (Cons i "is")
  then obtain ps1 w1 where r: "resolve_at home view i ps w = (Ok ps1, w1)" "foldIO (resolve_at home view) is ps1 w1 = (Ok ps', w')"
    by (auto simp: bindIO_Ok_iff)
  from resolve_at_keeps [OF r(1)] Cons.IH [OF r(2)] Cons.prems(2) show ?case by auto
qed simp

lemma resolve_step:
  assumes "ResolvePeerStoresForAll home view ps w = (Ok ps', w')" and "i < length ps"
  shows "\<exists>psi psj w1 w2. resolve_at home view i psi w1 = (Ok psj, w2) \<and> psj ! i = ps' ! i \<and> length psi = length ps \<and>
    (\<forall>j < i. psi ! j = ps' ! j) \<and> (\<forall>j. i \<le> j \<longrightarrow> psi ! j = ps ! j) \<and> (i = 0 \<longrightarrow> psi = ps \<and> w1 = w)"
proof -
  have "[0..<length ps] = [0..<i] @ i # [Suc i..<length ps]"
    using upt_add_eq_append [of 0 i "length ps - i"] assms(2) by (simp add: upt_conv_Cons)
  then obtain psi psj w1 w2 where r: "foldIO (resolve_at home view) [0..<i] ps w = (Ok psi, w1)"
    "resolve_at home view i psi w1 = (Ok psj, w2)" "foldIO (resolve_at home view) [Suc i..<length ps] psj w2 = (Ok ps', w')"
    using assms(1) by (auto simp: ResolvePeerStoresForAll_def foldIO_append bindIO_Ok_iff)
  have a: "length psi = length ps \<and> (\<forall>j. i \<le> j \<longrightarrow> psi ! j = ps ! j)"
    using resolve_fold_keeps [OF r(1)] assms(2) by auto
  have b: "length psj = length psi \<and> (\<forall>j. j \<noteq> i \<longrightarrow> psj ! j = psi ! j)" using resolve_at_keeps [OF r(2)] a assms(2) by simp
  have c: "\<forall>j \<le> i. ps' ! j = psj ! j" using resolve_fold_keeps [OF r(3)] a b by auto
  show ?thesis
  proof (intro exI conjI)
    show "resolve_at home view i psi w1 = (Ok psj, w2)" by (rule r(2))
    show "psj ! i = ps' ! i" "length psi = length ps" "\<forall>j. i \<le> j \<longrightarrow> psi ! j = ps ! j" using a c by simp_all
    show "\<forall>j < i. psi ! j = ps' ! j" using b c by auto
    show "i = 0 \<longrightarrow> psi = ps \<and> w1 = w" using r(1) by auto
  qed
qed


text \<open>
  A reference to a Kubernetes store further down the list is answered from the wrong cluster: the store asked has
  no cluster yet, so it reads the secret of that name from the cluster of the kubeconfig in use, whatever cluster it
  is configured for, and no error is reported.
\<close>

theorem forward_reference_reads_ambient_cluster:
  assumes "ResolvePeerStoresForAll home (kubernetes_as_store L) (KubeStore s # ps) w = (Ok ps', w')"
    and "k8s_StoreID (ku_Config s) = storeRefPrefix @ storeID @ ''/'' @ path" and "parseStoreRef (k8s_StoreID (ku_Config s)) = Ok (storeID, path)"
    and "mget (by_id (kubernetes_as_store L) (KubeStore s # ps)) storeID = Some (kubernetes_as_store L t)"
    and "ku_peerKubeconfig t = []" and "ku_clientOverride t = None" and "k8s_StoreID (ku_Config t) \<noteq> []"
    and "parseSecretPath path = Ok (ns, name)" and "\<not> HasPrefix path ''~''"
    and "kb_ambient L w = Ok ambient" and "kb_NewForConfig L ambient = Ok c" and "secret_kubeconfig t c ns name = Ok data"
  shows "ps' ! 0 = KubeStore (s\<lparr>ku_peerKubeconfig := data\<rparr>)"
proof -
  let ?view = "kubernetes_as_store L"
  from resolve_step [OF assms(1), of 0] obtain psj w2 where r: "resolve_at home ?view 0 (KubeStore s # ps) w = (Ok psj, w2)" "psj ! 0 = ps' ! 0"
    by auto
  have "secret_of path [] = Ok (ns, name)" using assms(8) by (simp add: secret_of_def mgets_def)
  then have g: "kubernetes_GetKubeconfigForPath L t path [] w = (Ok data, w)"
    using assms(5,6,10-12) by (simp add: kubernetes_GetKubeconfigForPath_def buildClient_def bindIO_apply wrapIO_apply)
  have "expandHomedir home path = path"
    using assms(9) HasPrefix_append [of "''~''" "''/''"] by (auto simp: expandHomedir_def HasPrefix_iff)
  then have "resolveContextPath home (?view t) path w = (Ok (data, path), w)"
    using g by (simp add: resolveContextPath_def Let_def kubernetes_as_store_def)
  then have "ResolvePeerStores home (by_id ?view (KubeStore s # ps)) s w = (Ok (s\<lparr>ku_peerKubeconfig := data\<rparr>), w)"
    using assms(2,3,4) by (simp add: ResolvePeerStores_def storeRefPrefix_def)
  then show ?thesis using r by (auto simp: resolve_at_def)
qed

section \<open>Witnesses\<close>

text \<open>Two clusters with a secret of the same name; the store \<^verbatim>\<open>t\<close> is configured for the second.\<close>

definition k8s_cluster :: "string \<Rightarrow> k8s_client" where
  "k8s_cluster bytes = (let secret = \<lparr>sec_Namespace = ''n'', sec_Name = ''k'', sec_Data = [(''kubeconfig'', bytes)], sec_Labels = []\<rparr>
     in \<lparr>kl_Get = (\<lambda>ns n. if ns = ''n'' \<and> n = ''k'' then Ok secret else Err (LibErr ''none'')), kl_List = (\<lambda>ns sel. Ok [secret])\<rparr>)"

definition k8s_two :: "nat k8s_libs" where
  "k8s_two = \<lparr>kb_parse = (\<lambda>_. Err (LibErr ''none'')), kb_ambient = (\<lambda>_. Ok 0), kb_RESTConfig = (\<lambda>bs. Ok (if bs = ''far'' then 1 else 2)),
     kb_NewForConfig = (\<lambda>n. Ok (k8s_cluster (if n = 0 then ''apiVersion: near'' else ''apiVersion: far''))), kb_home = Ok ''/home/u''\<rparr>"

definition k8s_named :: "string \<Rightarrow> string \<Rightarrow> kubernetes_store" where
  "k8s_named i ref = \<lparr>ku_Base = \<lparr>base_Kind = StoreKindKubernetes, base_KubeconfigStore = zero_store\<lparr>ks_ID := Some i\<rparr>\<rparr>,
     ku_Config = \<lparr>k8s_StoreID = ref, k8s_Namespace = ''n'', k8s_SecretName = ''k'', k8s_SecretLabelSelector = [], k8s_Path = ''kubeconfig'',
       k8s_Alias = \<lparr>FromLabels = [], alias_List = []\<rparr>\<rparr>, ku_peerKubeconfig = [], ku_clientOverride = None\<rparr>"

definition k8s_far :: store where
  "k8s_far = (kubernetes_as_store k8s_two (k8s_named ''x'' []))\<lparr>st_GetID := ''far'', st_GetKubeconfigForPath := (\<lambda>_ _. returnIO ''far'')\<rparr>"

definition k8s_s :: kubernetes_store where "k8s_s = k8s_named ''s'' ''store://kubernetes.t/n/k''"
definition k8s_t :: kubernetes_store where "k8s_t = k8s_named ''t'' ''store://far/cluster''"

definition k8s_world :: world where
  "k8s_world = \<lparr>disk = [], faults = (\<lambda>_ _. None), getenv = (\<lambda>_. []), clock = 0, umask = 18, rnd = (\<lambda>n. itoa n), rnd_pos = 0, out = []\<rparr>"

definition resolved_at :: "nat \<Rightarrow> peer list \<Rightarrow> string" where
  "resolved_at i ps = (case fst (ResolvePeerStoresForAll (kb_home k8s_two) (kubernetes_as_store k8s_two) ps k8s_world) of
     Ok ps' \<Rightarrow> (case ps' ! i of KubeStore s \<Rightarrow> ku_peerKubeconfig s | PlainStore _ \<Rightarrow> []) | _ \<Rightarrow> [])"

lemma forward_reference_reads_ambient_cluster_witness:
  "resolved_at 0 [KubeStore k8s_s, KubeStore k8s_t, PlainStore k8s_far] = ''apiVersion: near'' \<and>
   resolved_at 2 [PlainStore k8s_far, KubeStore k8s_t, KubeStore k8s_s] = ''apiVersion: far''"
proof -
  let ?v = "kubernetes_as_store k8s_two" and ?ps = "[KubeStore k8s_t, PlainStore k8s_far]"
  let ?run = "ResolvePeerStoresForAll (kb_home k8s_two) ?v (KubeStore k8s_s # ?ps) k8s_world"
  have "is_ok (fst ?run)" by code_simp
  then obtain ps' w' where run: "?run = (Ok ps', w')" by (cases ?run) (auto simp: is_ok_iff)
  have ref: "k8s_StoreID (ku_Config k8s_s) = storeRefPrefix @ ''kubernetes.t'' @ ''/'' @ ''n/k''"
    by (simp add: k8s_s_def k8s_named_def storeRefPrefix_def)
  have pr: "parseStoreRef (k8s_StoreID (ku_Config k8s_s)) = Ok (''kubernetes.t'', ''n/k'')" "parseSecretPath ''n/k'' = Ok (''n'', ''k'')"
    "\<not> HasPrefix ''n/k'' ''~''" "secret_kubeconfig k8s_t (k8s_cluster ''apiVersion: near'') ''n'' ''k'' = Ok ''apiVersion: near''"
    by code_simp+
  have m: "mget (by_id ?v (KubeStore k8s_s # ?ps)) ''kubernetes.t'' = Some (?v k8s_t)"
    by (simp add: by_id_def peer_store_def kubernetes_as_store_def base_GetID_def k8s_far_def k8s_s_def k8s_t_def k8s_named_def go_defs)
  have a: "kb_ambient k8s_two k8s_world = Ok 0" "kb_NewForConfig k8s_two 0 = Ok (k8s_cluster ''apiVersion: near'')" by (simp_all add: k8s_two_def)
  have "ps' ! 0 = KubeStore (k8s_s\<lparr>ku_peerKubeconfig := ''apiVersion: near''\<rparr>)"
    by (rule forward_reference_reads_ambient_cluster [OF run ref pr(1) m _ _ _ pr(2,3) a pr(4)]) (simp_all add: k8s_t_def k8s_named_def)
  then have "resolved_at 0 (KubeStore k8s_s # ?ps) = ''apiVersion: near''" using run by (simp add: resolved_at_def)
  moreover have "resolved_at 2 [PlainStore k8s_far, KubeStore k8s_t, KubeStore k8s_s] = ''apiVersion: far''" by code_simp
  ultimately show ?thesis by simp
qed


lemma sent_secret_fetched_witness:
  "\<exists>r (secret :: k8s_secret) raw. fst (kubernetes_StartSearch k8s_two k8s_t k8s_world) = Ok [r] \<and> sr_KubeconfigPath r = secretPath (sec_Namespace secret) (sec_Name secret) \<and>
     fst (kubernetes_GetKubeconfigForPath k8s_two k8s_t (sr_KubeconfigPath r) [] k8s_world) =
       Ok (if looksLikeKubeconfig raw then raw else tokenToKubeconfig raw (sec_Name secret))"
proof -
  have b: "buildClient k8s_two k8s_t k8s_world = (Ok (k8s_cluster ''apiVersion: near''), k8s_world)"
    by (simp add: buildClient_def k8s_t_def k8s_named_def k8s_two_def)
  have ok: "client_ok (k8s_cluster ''apiVersion: near'')" by (auto simp: client_ok_def k8s_cluster_def Let_def split: if_splits)
  obtain r where r: "kubernetes_StartSearch k8s_two k8s_t k8s_world = (Ok [r], k8s_world)" "sr_Error r = None"
    using b by (auto simp: kubernetes_StartSearch_def tryIO_apply bindIO_apply listSecrets_def k8s_cluster_def k8s_t_def k8s_named_def
      secret_result_def Let_def)
  have m: "r \<in> set [r]" by simp
  from sent_secret_fetched [OF r(1) b ok m r(2)] obtain secret :: k8s_secret and raw where f:
    "sr_KubeconfigPath r = secretPath (sec_Namespace secret) (sec_Name secret)"
    "\<forall>ts \<in> {sr_Tags r, []}. kubernetes_GetKubeconfigForPath k8s_two k8s_t (sr_KubeconfigPath r) ts k8s_world =
        (Ok (if looksLikeKubeconfig raw then raw else tokenToKubeconfig raw (sec_Name secret)), k8s_world)" by blast
  from f(2) have "kubernetes_GetKubeconfigForPath k8s_two k8s_t (sr_KubeconfigPath r) [] k8s_world =
        (Ok (if looksLikeKubeconfig raw then raw else tokenToKubeconfig raw (sec_Name secret)), k8s_world)" by blast
  with r(1) f(1) show ?thesis by (intro exI [of _ r] exI [of _ secret] exI [of _ raw]) simp
qed

end
