(* ===== verification/ClusterStores.thy ===== *)
theory ClusterStores
  imports StoreContracts Caches
begin

text \<open>
  Two stores of clusters: the kind store (\<^verbatim>\<open>pkg/store/kubeconfig_store_kind.go\<close>), which runs the kind command, and
  the Cluster API store (\<^verbatim>\<open>kubeconfig_store_capi.go\<close>), which lists cluster objects of a management cluster. The
  command, the clients of the Kubernetes libraries and the decoding of the configuration are parameters.
\<close>

section \<open>The kind store\<close>

record kind_store =
  kd_Base :: BaseStore
  kd_Config :: StoreConfigKind

text \<open>\<^verbatim>\<open>exec.Command(bin, args...).Run()\<close>: standard output, standard error and the error.\<close>

type_synonym command = "string \<Rightarrow> string list \<Rightarrow> (string \<times> string \<times> gerror option) io"

definition NewKindStore :: "(KubeconfigStore \<Rightarrow> StoreConfigKind res) \<Rightarrow> KubeconfigStore \<Rightarrow> kind_store res" where
  "NewKindStore parse store = bindR (parse store) (\<lambda>config.
     Ok \<lparr>kd_Base = \<lparr>base_Kind = StoreKindKind, base_KubeconfigStore = store\<rparr>,
         kd_Config = (if KindBinary config = [] then config\<lparr>KindBinary := ''kind''\<rparr> else config)\<rparr>)"

definition kind_GetContextPrefix :: "kind_store \<Rightarrow> string" where
  "kind_GetContextPrefix s = kind_prefix (kd_Base s) StoreKindKind"

definition runKind :: "command \<Rightarrow> kind_store \<Rightarrow> string list \<Rightarrow> (string \<times> gerror option) io" where
  "runKind run s args = bindIO (run (KindBinary (kd_Config s)) args) (\<lambda>(stdout, stderr, err). returnIO (case err of
       Some e \<Rightarrow> (let combined = TrimSpace (stdout @ stderr) in (combined, Some (Wrapf ''%w: %s'' [combined] e)))
     | None \<Rightarrow> (TrimSpace stdout, None)))"

definition splitLines :: "string \<Rightarrow> string list" where
  "splitLines s = filter (\<lambda>t. t \<noteq> []) (map TrimSpace (Split s [CHR 0x0A]))"

definition kind_StartSearch :: "command \<Rightarrow> kind_store \<Rightarrow> SearchResult list io" where
  "kind_StartSearch run s = bindIO (runKind run s [''get'', ''clusters'']) (\<lambda>(out, err). returnIO (case err of
       Some e \<Rightarrow> if Contains out ''No kind clusters found'' then []
                 else [search_error (Wrapf ''kind get clusters: %w'' [] e)]
     | None \<Rightarrow> map (\<lambda>name. found name [(''name'', name)]) (splitLines out)))"

definition kind_target :: "string \<Rightarrow> tags \<Rightarrow> string" where
  "kind_target path tags = (case mget tags ''name'' of Some n \<Rightarrow> if n \<noteq> [] then n else path | None \<Rightarrow> path)"

definition kind_GetKubeconfigForPath :: "command \<Rightarrow> kind_store \<Rightarrow> string \<Rightarrow> tags \<Rightarrow> string io" where
  "kind_GetKubeconfigForPath run s path tags = (let name = kind_target path tags
     in bindIO (runKind run s [''get'', ''kubeconfig'', ''--name'', name]) (\<lambda>(out, err). case err of
          Some e \<Rightarrow> failIO (Wrapf ''kind get kubeconfig --name %s: %w'' [name] e)
        | None \<Rightarrow> returnIO out))"

interpretation kind: fetchable_by_path "\<lambda>n. n" "\<lambda>n. [(''name'', n)]" "\<lambda>path tags. Ok (kind_target path tags)" "\<lambda>n. n" "\<lambda>_. True"
  by unfold_locales (auto simp: kind_target_def)

section \<open>The Cluster API store\<close>

record StoreConfigCapi =
  capi_KubeconfigPath :: string

record capi_cluster =
  cpc_Namespace :: string
  cpc_Name :: string

text \<open>
  The management cluster: \<^verbatim>\<open>List\<close>, whether an error says that the kind \<^verbatim>\<open>Cluster\<close> is not known there, and the
  kubeconfig of a cluster (\<^verbatim>\<open>utilkubeconfig.FromSecret\<close>).
\<close>

record capi_client =
  cp_List :: "capi_cluster list res"
  cp_IsNoMatchError :: "gerror \<Rightarrow> bool"
  cp_FromSecret :: "string \<Rightarrow> string \<Rightarrow> string res"

record capi_store =
  cp_Base :: BaseStore
  cp_Config :: StoreConfigCapi
  cp_Client :: "capi_client option"

record 'r capi_libs =
  cb_parse :: "KubeconfigStore \<Rightarrow> StoreConfigCapi res"
  cb_ClientConfig :: "string option \<Rightarrow> 'r res"      \<comment> \<open>an explicit path or the default loading rules\<close>
  cb_New :: "'r \<Rightarrow> capi_client res"

definition NewCapiStore :: "'r capi_libs \<Rightarrow> KubeconfigStore \<Rightarrow> capi_store res" where
  "NewCapiStore L store = bindR (cb_parse L store) (\<lambda>config.
     Ok \<lparr>cp_Base = \<lparr>base_Kind = StoreKindCapi, base_KubeconfigStore = store\<rparr>, cp_Config = config, cp_Client = None\<rparr>)"

definition capi_GetContextPrefix :: "capi_store \<Rightarrow> string" where
  "capi_GetContextPrefix s = kind_prefix (cp_Base s) StoreKindCapi"

definition getCapiClient :: "'r capi_libs \<Rightarrow> capi_store \<Rightarrow> capi_client res" where
  "getCapiClient L s = (let explicit = capi_KubeconfigPath (cp_Config s)
     in bindR (wrapR ''unable to create rest config: %w'' [] (cb_ClientConfig L (if explicit \<noteq> [] then Some explicit else None)))
        (\<lambda>rest. wrapR ''unable to create client: %w'' [] (cb_New L rest)))"

definition InitializeCapiStore :: "'r capi_libs \<Rightarrow> capi_store \<Rightarrow> capi_store res" where
  "InitializeCapiStore L s = mapR (\<lambda>c. s\<lparr>cp_Client := Some c\<rparr>) (getCapiClient L s)"

definition capi_path :: "capi_cluster \<Rightarrow> string" where
  "capi_path c = cpc_Namespace c @ ''-'' @ cpc_Name c"

definition capi_tags :: "capi_cluster \<Rightarrow> tags" where
  "capi_tags c = [(''namespace'', cpc_Namespace c), (''name'', cpc_Name c)]"

text \<open>The results that are sent, and the store with its client.\<close>

definition capi_StartSearch :: "'r capi_libs \<Rightarrow> capi_store \<Rightarrow> (SearchResult list \<times> capi_store) res" where
  "capi_StartSearch L s = (case InitializeCapiStore L s of
     Panic p \<Rightarrow> Panic p
   | Err e \<Rightarrow> Ok ([search_error e], s)
   | Ok s1 \<Rightarrow> (case cp_Client s1 of None \<Rightarrow> Panic ''invalid memory address or nil pointer dereference'' | Some c \<Rightarrow>
       (case cp_List c of
          Panic p \<Rightarrow> Panic p
        | Err e \<Rightarrow> Ok (if capi_KubeconfigPath (cp_Config s1) \<noteq> [] \<or> \<not> cp_IsNoMatchError c e
             then [search_error (Wrapf ''unable to list clusters: %w'' [] e)] else [found [] []], s1)
        | Ok clusters \<Rightarrow> Ok (map (\<lambda>x. found (capi_path x) (capi_tags x)) clusters, s1))))"

definition capi_target :: "string \<Rightarrow> tags \<Rightarrow> (string \<times> string) res" where
  "capi_target path tags = Ok (mgets tags ''namespace'', mgets tags ''name'')"

definition capi_GetKubeconfigForPath :: "capi_store \<Rightarrow> string \<Rightarrow> tags \<Rightarrow> string res" where
  "capi_GetKubeconfigForPath s path tags = bindR (capi_target path tags) (\<lambda>(ns, name). case cp_Client s of
     None \<Rightarrow> Panic ''invalid memory address or nil pointer dereference''
   | Some c \<Rightarrow> cp_FromSecret c ns name)"

text \<open>The tags name the cluster; the path does not, since namespace and name may contain a dash.\<close>

interpretation capi: fetchable capi_path capi_tags capi_target "\<lambda>c. (cpc_Namespace c, cpc_Name c)" "\<lambda>_. True"
  by unfold_locales (simp add: capi_target_def capi_tags_def mgets_def)

definition capi_as_store :: "'r capi_libs \<Rightarrow> capi_store \<Rightarrow> store" where
  "capi_as_store L s = \<lparr>st_GetID = base_GetID (cp_Base s), st_GetKind = base_GetKind (cp_Base s),
     st_GetContextPrefix = (\<lambda>_. capi_GetContextPrefix s), st_VerifyKubeconfigPaths = base_VerifyKubeconfigPaths (cp_Base s),
     st_StartSearch = liftR (mapR fst (capi_StartSearch L s)),
     st_GetKubeconfigForPath = (\<lambda>path tags. liftR (capi_GetKubeconfigForPath s path tags)),
     st_GetStoreConfig = base_GetStoreConfig (cp_Base s), st_GetSearchPreview = None, st_GetShootLabelKeys = None, st_Flush = None\<rparr>"

section \<open>Lines of output\<close>

text \<open>A string that starts and ends with characters no white space starts or ends with.\<close>

definition solid :: "string \<Rightarrow> bool" where
  "solid s \<longleftrightarrow> s \<noteq> [] \<and> hd s \<notin> hd ` set spaces \<and> last s \<notin> last ` set spaces"

lemma spaces_nonempty: "t \<in> set spaces \<Longrightarrow> t \<noteq> []"
  by (auto simp: spaces_def)

lemma solid_no_prefix: "hd s \<notin> hd ` set spaces \<Longrightarrow> t \<in> set spaces \<Longrightarrow> \<not> HasPrefix s t"
proof
  assume "hd s \<notin> hd ` set spaces" "t \<in> set spaces" "HasPrefix s t"
  moreover from this have "hd s = hd t" by (auto simp: HasPrefix_iff dest: spaces_nonempty)
  ultimately show False by auto
qed

lemma solid_trimmed: "solid s \<Longrightarrow> trimmed s"
  unfolding trimmed_def list_all_iff
proof (intro ballI conjI)
  fix t assume s: "solid s" and t: "t \<in> set spaces"
  then show "\<not> HasPrefix s t" by (simp add: solid_no_prefix solid_def)
  show "\<not> HasSuffix s t"
  proof
    assume "HasSuffix s t"
    then obtain r where "rev s = rev t @ r" by (auto simp: HasSuffix_def HasPrefix_iff)
    then have "s = rev r @ t" by (metis rev_append rev_rev_ident)
    then have "last s = last t" using spaces_nonempty [OF t] by simp
    then show False using s t by (auto simp: solid_def)
  qed
qed

lemma TrimSpace_solid: "solid s \<Longrightarrow> TrimSpace s = s"
  by (simp add: TrimSpace_trimmed solid_trimmed)

lemma TrimSpace_solid_newline: "solid s \<Longrightarrow> TrimSpace (s @ [CHR 0x0A]) = s"
proof (rule TrimSpace_suffix_newline)
  assume s: "solid s"
  then show "trimmed s" "s \<noteq> []" by (simp_all add: solid_trimmed) (simp add: solid_def)
  have "hd (s @ [CHR 0x0A]) \<notin> hd ` set spaces" using s by (simp add: solid_def)
  then show "list_all (\<lambda>t. \<not> HasPrefix (s @ [CHR 0x0A]) t) spaces" by (simp add: list_all_iff solid_no_prefix)
qed

text \<open>The lines of an output that prints one solid line per entry.\<close>

lemma solid_join: "list_all solid ls \<Longrightarrow> ls \<noteq> [] \<Longrightarrow> solid (Join ls [CHR 0x0A])"
proof (induction ls rule: induct_list012)
  case (3 a b ls)
  then have "solid (Join (b # ls) [CHR 0x0A])" "solid a" by simp_all
  then show ?case by (auto simp: solid_def Join_Cons)
qed (auto simp: solid_def)

lemma unlines_join: "ls \<noteq> [] \<Longrightarrow> unlines ls = Join ls [CHR 0x0A] @ [CHR 0x0A]"
  by (induction ls rule: induct_list012) auto

definition solid_line :: "string \<Rightarrow> bool" where
  "solid_line l \<longleftrightarrow> solid l \<and> CHR 0x0A \<notin> set l"

lemma splitLines_unlines: "list_all solid_line ls \<Longrightarrow> splitLines (TrimSpace (unlines ls)) = ls"
proof (cases "ls = []")
  case True
  then show ?thesis by (simp add: splitLines_def) (simp add: TrimSpace_trimmed trimmed_def spaces_def HasPrefix_def HasSuffix_def Split_single_no)
next
  case False
  assume l: "list_all solid_line ls"
  then have s: "list_all solid ls" and n: "list_all (\<lambda>l. CHR 0x0A \<notin> set l) ls" by (auto simp: list_all_iff solid_line_def)
  have "TrimSpace (unlines ls) = Join ls [CHR 0x0A]"
    using False s by (simp add: unlines_join TrimSpace_solid_newline solid_join)
  moreover have "map TrimSpace ls = ls" using s by (auto simp: list_all_iff TrimSpace_solid intro: map_idI)
  moreover have "filter (\<lambda>t. t \<noteq> []) ls = ls" using s by (auto simp: list_all_iff solid_def filter_id_conv)
  ultimately show ?thesis using False n by (simp add: splitLines_def Split_Join)
qed

section \<open>What is sent can be fetched\<close>

text \<open>
  When the kind command prints one cluster per line, the search sends these clusters in this order, and the
  kubeconfig of each of them, with its tags or without, is what the command prints for this cluster.
\<close>

theorem kind_search_fetched:
  assumes "run (KindBinary (kd_Config s)) [''get'', ''clusters''] w = (Ok (unlines names, stderr, None), w)"
    and "list_all solid_line names"
    and "\<forall>n \<in> set names. run (KindBinary (kd_Config s)) [''get'', ''kubeconfig'', ''--name'', n] w = (Ok (kubeconfig n, stderr, None), w)"
  shows "kind_StartSearch run s w = (Ok (map (\<lambda>n. found n [(''name'', n)]) names), w) \<and>
    (\<forall>n \<in> set names. \<forall>ts \<in> {[(''name'', n)], []}. kind_GetKubeconfigForPath run s n ts w = (Ok (TrimSpace (kubeconfig n)), w))"
proof
  show "kind_StartSearch run s w = (Ok (map (\<lambda>n. found n [(''name'', n)]) names), w)"
    using assms(1,2) by (simp add: kind_StartSearch_def runKind_def splitLines_unlines)
  have "kind_target n ts = n" if "ts \<in> {[(''name'', n)], []}" for n ts
    using kind.tags_irrelevant [where c = n and ts = ts] that by simp
  then show "\<forall>n \<in> set names. \<forall>ts \<in> {[(''name'', n)], []}. kind_GetKubeconfigForPath run s n ts w = (Ok (TrimSpace (kubeconfig n)), w)"
    using assms(3) by (simp add: kind_GetKubeconfigForPath_def runKind_def Let_def)
qed

text \<open>
  The Cluster API search sends the listed clusters in their order, and after it the kubeconfig fetched for each
  result is that of its cluster.
\<close>

theorem capi_search_fetched:
  assumes "getCapiClient L s = Ok c" and "cp_List c = Ok clusters"
  shows "\<exists>rs s'. capi_StartSearch L s = Ok (rs, s') \<and> map sr_KubeconfigPath rs = map capi_path clusters \<and>
     map (\<lambda>r. capi_GetKubeconfigForPath s' (sr_KubeconfigPath r) (sr_Tags r)) rs =
       map (\<lambda>x. cp_FromSecret c (cpc_Namespace x) (cpc_Name x)) clusters"
  using assms capi.target_sent by (simp add: capi_StartSearch_def InitializeCapiStore_def capi_GetKubeconfigForPath_def comp_def)

text \<open>Before a search has run there is no client, so a context read from a search index cannot be fetched.\<close>

theorem capi_without_search_panics:
  assumes "NewCapiStore L store = Ok s"
  shows "capi_GetKubeconfigForPath s path tags = Panic ''invalid memory address or nil pointer dereference''"
  using assms by (auto simp: NewCapiStore_def capi_GetKubeconfigForPath_def capi_target_def)

lemma memory_shared_path:
  assumes "st_GetKubeconfigForPath s p t1 w = (Ok k, w)"
  shows "mem.lookups w (memory_New s) [(p, t1), (p, t2)] = [Ok k, Ok k]"
  using assms by (simp add: mem.lookups.simps mem_lookup_def memory_GetKubeconfigForPath_def memory_New_def attemptIO_def)

text \<open>
  Two clusters whose namespace and name join to the same path: through the memory cache that every store
  gets, the second one is given the kubeconfig of the first.
\<close>

theorem capi_shared_path:
  assumes "cp_Client s = Some c" and "capi_path a = capi_path b"
    and "cp_FromSecret c (cpc_Namespace a) (cpc_Name a) = Ok ka" and "cp_FromSecret c (cpc_Namespace b) (cpc_Name b) = Ok kb"
  shows "capi_GetKubeconfigForPath s (capi_path b) (capi_tags b) = Ok kb \<and>
    mem.lookups w (memory_New (capi_as_store L s)) [(capi_path a, capi_tags a), (capi_path b, capi_tags b)] = [Ok ka, Ok ka]"
proof
  show "capi_GetKubeconfigForPath s (capi_path b) (capi_tags b) = Ok kb"
    using assms capi.target_sent [of b] by (simp add: capi_GetKubeconfigForPath_def)
  have "st_GetKubeconfigForPath (capi_as_store L s) (capi_path a) (capi_tags a) w = (Ok ka, w)"
    using assms capi.target_sent [of a] by (simp add: capi_as_store_def capi_GetKubeconfigForPath_def)
  from memory_shared_path [OF this, of "capi_tags b"]
  show "mem.lookups w (memory_New (capi_as_store L s)) [(capi_path a, capi_tags a), (capi_path b, capi_tags b)] = [Ok ka, Ok ka]"
    by (simp add: assms(2))
qed

end
