(* ===== verification/Plugins.thy ===== *)
theory Plugins
  imports StoreContracts
begin

text \<open>
  The plugin store (\<^verbatim>\<open>pkg/store/kubeconfig_store_plugins.go\<close>) and the two ends of its RPC connection
  (\<^verbatim>\<open>pkg/store/plugins\<close>). Channels are the results sent so far and whether the channel is closed, since both ends
  close channels. What the generated code and go-plugin carry over is a message as it was sent; starting the
  process and connecting to it are parameters.
\<close>

section \<open>Channels\<close>

record chan =
  chan_sent :: "SearchResult list"
  chan_closed :: bool

definition new_chan :: chan where "new_chan = \<lparr>chan_sent = [], chan_closed = False\<rparr>"

definition send :: "SearchResult \<Rightarrow> chan \<Rightarrow> chan res" where
  "send r ch = (if chan_closed ch then Panic ''send on closed channel'' else Ok (ch\<lparr>chan_sent := chan_sent ch @ [r]\<rparr>))"

definition close_chan :: "chan \<Rightarrow> chan res" where
  "close_chan ch = (if chan_closed ch then Panic ''close of closed channel'' else Ok (ch\<lparr>chan_closed := True\<rparr>))"

section \<open>The interface of a plugin and its remote side\<close>

text \<open>\<^verbatim>\<open>StartSearch\<close> gives the channel after it and whether the call came back.\<close>

record plugin_client =
  pl_GetID :: "string res"
  pl_GetContextPrefix :: "string \<Rightarrow> string res"
  pl_VerifyKubeconfigPaths :: "unit res"
  pl_StartSearch :: "chan \<Rightarrow> (chan \<times> bool) res"
  pl_GetKubeconfigForPath :: "string \<Rightarrow> tags \<Rightarrow> string res"

text \<open>
  The service behind the connection. The answer to a search is a stream: its messages and whether it ends; the
  request for a kubeconfig has a path and tags.
\<close>

record service =
  sv_GetID :: "string res"
  sv_GetContextPrefix :: "string \<Rightarrow> string res"
  sv_VerifyKubeconfigPaths :: "unit res"
  sv_StartSearch :: "((string \<times> tags) list \<times> bool) res"
  sv_GetKubeconfigForPath :: "string \<times> tags \<Rightarrow> string res"

definition grpc_search :: "service \<Rightarrow> chan \<Rightarrow> (chan \<times> bool) res" where
  "grpc_search sv ch = (case sv_StartSearch sv of
     Panic p \<Rightarrow> Panic p
   | Err e \<Rightarrow> mapR (\<lambda>c. (c, True)) (send (search_error e) ch)
   | Ok (msgs, ended) \<Rightarrow> bindR (foldR (\<lambda>(p, ts). send (found p ts)) msgs ch) (\<lambda>c.
       if ended then mapR (\<lambda>c. (c, True)) (close_chan c) else Ok (c, False)))"

definition GRPCClient :: "service \<Rightarrow> plugin_client" where
  "GRPCClient sv = \<lparr>pl_GetID = sv_GetID sv, pl_GetContextPrefix = sv_GetContextPrefix sv,
     pl_VerifyKubeconfigPaths = sv_VerifyKubeconfigPaths sv, pl_StartSearch = grpc_search sv,
     pl_GetKubeconfigForPath = (\<lambda>path tags. sv_GetKubeconfigForPath sv (path, []))\<rparr>"

text \<open>The server reads its own channel until the implementation closes it; only path and tags are sent on.\<close>

definition serve_search :: "plugin_client \<Rightarrow> ((string \<times> tags) list \<times> bool) res" where
  "serve_search impl = mapR (\<lambda>(ch, returned). (map (\<lambda>v. (sr_KubeconfigPath v, sr_Tags v)) (chan_sent ch), chan_closed ch))
     (pl_StartSearch impl new_chan)"

definition GRPCServer :: "plugin_client \<Rightarrow> service" where
  "GRPCServer impl = \<lparr>sv_GetID = pl_GetID impl, sv_GetContextPrefix = pl_GetContextPrefix impl,
     sv_VerifyKubeconfigPaths = pl_VerifyKubeconfigPaths impl, sv_StartSearch = serve_search impl,
     sv_GetKubeconfigForPath = (\<lambda>(path, tags). pl_GetKubeconfigForPath impl path tags)\<rparr>"

section \<open>The plugin store\<close>

record StoreConfigPlugin =
  CmdPath :: string
  plugin_Args :: "string list"

record plugin_store =
  pg_Base :: BaseStore
  pg_Config :: StoreConfigPlugin
  pg_Client :: "plugin_client option"

text \<open>\<^verbatim>\<open>rpc\<close> starts the command and connects; \<^verbatim>\<open>Dispense\<close> gives nothing when the value is not a plugin store.\<close>

record 'r plugin_libs =
  pb_parse :: "KubeconfigStore \<Rightarrow> StoreConfigPlugin res"
  pb_rpc :: "string \<Rightarrow> string list \<Rightarrow> 'r res"
  pb_Dispense :: "'r \<Rightarrow> plugin_client option res"

definition NewPluginStore :: "'r plugin_libs \<Rightarrow> KubeconfigStore \<Rightarrow> plugin_store res" where
  "NewPluginStore L store = bindR (pb_parse L store) (\<lambda>config.
     Ok \<lparr>pg_Base = \<lparr>base_Kind = StoreKindPlugin, base_KubeconfigStore = store\<rparr>, pg_Config = config, pg_Client = None\<rparr>)"

definition InitializePluginStore :: "'r plugin_libs \<Rightarrow> plugin_store \<Rightarrow> plugin_store res" where
  "InitializePluginStore L s = bindR (pb_rpc L (CmdPath (pg_Config s)) (plugin_Args (pg_Config s))) (\<lambda>rpc.
     bindR (wrapR ''failed to dispense plugin: %w'' [] (pb_Dispense L rpc)) (\<lambda>c. case c of
       None \<Rightarrow> Err (Errorf ''plugin does not implement Store interface'' [])
     | Some c \<Rightarrow> Ok (s\<lparr>pg_Client := Some c\<rparr>)))"

definition with_client :: "plugin_store \<Rightarrow> (plugin_client \<Rightarrow> 'a res) \<Rightarrow> 'a res" where
  "with_client s f = (case pg_Client s of None \<Rightarrow> Panic ''invalid memory address or nil pointer dereference'' | Some c \<Rightarrow> f c)"

definition plugin_GetID :: "plugin_store \<Rightarrow> string res" where
  "plugin_GetID s = with_client s (\<lambda>c. case pl_GetID c of
     Ok i \<Rightarrow> Ok i | Panic p \<Rightarrow> Panic p | Err e \<Rightarrow> Ok (base_GetID (pg_Base s)))"

definition plugin_GetContextPrefix :: "plugin_store \<Rightarrow> string \<Rightarrow> string res" where
  "plugin_GetContextPrefix s path = with_client s (\<lambda>c. case pl_GetContextPrefix c path of
     Ok p \<Rightarrow> Ok p | Panic p \<Rightarrow> Panic p | Err e \<Rightarrow> Ok (base_GetKind (pg_Base s) @ ''/'' @ path))"

definition plugin_VerifyKubeconfigPaths :: "'r plugin_libs \<Rightarrow> plugin_store \<Rightarrow> plugin_store res" where
  "plugin_VerifyKubeconfigPaths L s = bindR (InitializePluginStore L s) (\<lambda>s1.
     bindR (with_client s1 pl_VerifyKubeconfigPaths) (\<lambda>_. Ok s1))"

definition plugin_StartSearch :: "'r plugin_libs \<Rightarrow> plugin_store \<Rightarrow> chan \<Rightarrow> (chan \<times> bool) res" where
  "plugin_StartSearch L s ch = (case InitializePluginStore L s of
     Panic p \<Rightarrow> Panic p
   | Err e \<Rightarrow> mapR (\<lambda>c. (c, True)) (send (search_error e) ch)
   | Ok s1 \<Rightarrow> with_client s1 (\<lambda>c. pl_StartSearch c ch))"

definition plugin_GetKubeconfigForPath :: "'r plugin_libs \<Rightarrow> plugin_store \<Rightarrow> string \<Rightarrow> tags \<Rightarrow> string res" where
  "plugin_GetKubeconfigForPath L s path tags = bindR (InitializePluginStore L s) (\<lambda>s1.
     with_client s1 (\<lambda>c. pl_GetKubeconfigForPath c path tags))"

text \<open>The goroutine of \<^verbatim>\<open>doSearch\<close>: the channel is closed when \<^verbatim>\<open>StartSearch\<close> has returned.\<close>

definition search_goroutine :: "(chan \<Rightarrow> (chan \<times> bool) res) \<Rightarrow> chan res" where
  "search_goroutine start = bindR (start new_chan) (\<lambda>(ch, returned). if returned then close_chan ch else Ok ch)"

section \<open>What goes through the connection\<close>

lemma send_all:
  "\<not> chan_closed ch \<Longrightarrow> foldR (\<lambda>(p, ts). send (found p ts)) msgs ch =
     Ok (ch\<lparr>chan_sent := chan_sent ch @ map (\<lambda>(p, ts). found p ts) msgs\<rparr>)"
  by (induction msgs arbitrary: ch) (auto simp: send_def)

text \<open>
  Connected to the implementation through client and server, the store sees the implementation's ids, prefixes
  and checks; a kubeconfig is asked for without its tags, and the results of a search arrive in their order
  but without their errors.
\<close>

theorem grpc_passes_on:
  "pl_GetID (GRPCClient (GRPCServer impl)) = pl_GetID impl \<and>
   pl_GetContextPrefix (GRPCClient (GRPCServer impl)) = pl_GetContextPrefix impl \<and>
   pl_VerifyKubeconfigPaths (GRPCClient (GRPCServer impl)) = pl_VerifyKubeconfigPaths impl \<and>
   pl_GetKubeconfigForPath (GRPCClient (GRPCServer impl)) path tags = pl_GetKubeconfigForPath impl path [] \<and>
   (\<forall>ch r. pl_StartSearch impl new_chan = Ok (ch, r) \<longrightarrow>
      serve_search impl = Ok (map (\<lambda>v. (sr_KubeconfigPath v, sr_Tags v)) (chan_sent ch), chan_closed ch))"
  by (simp add: GRPCClient_def GRPCServer_def serve_search_def)

text \<open>
  No search of a plugin ends well. When the implementation closes its channel, as the server requires, the
  client closes the channel of the search and the goroutine of \<^verbatim>\<open>doSearch\<close> panics when it closes it again; when it
  does not, the search never ends.
\<close>

theorem plugin_search_never_ends_well:
  assumes "InitializePluginStore L s = Ok s1" and "pg_Client s1 = Some (GRPCClient (GRPCServer impl))"
    and "pl_StartSearch impl new_chan = Ok (ich, returned)"
  shows "search_goroutine (plugin_StartSearch L s) =
    (if chan_closed ich then Panic ''close of closed channel''
     else Ok \<lparr>chan_sent = map (\<lambda>v. found (sr_KubeconfigPath v) (sr_Tags v)) (chan_sent ich), chan_closed = False\<rparr>)"
  using assms
  by (simp add: search_goroutine_def plugin_StartSearch_def with_client_def GRPCClient_def GRPCServer_def grpc_search_def
      serve_search_def send_all new_chan_def close_chan_def comp_def)

text \<open>A store that has just been built has no connection: asking for its id or its prefix panics.\<close>

theorem plugin_id_before_search_panics:
  assumes "NewPluginStore L store = Ok s"
  shows "is_panic (plugin_GetID s) \<and> is_panic (plugin_GetContextPrefix s path)"
  using assms by (auto simp: NewPluginStore_def plugin_GetID_def plugin_GetContextPrefix_def with_client_def)

section \<open>Witnesses\<close>

definition plugin_impl :: plugin_client where
  "plugin_impl = \<lparr>pl_GetID = Ok ''p.1'', pl_GetContextPrefix = (\<lambda>p. Ok p), pl_VerifyKubeconfigPaths = Ok (),
     pl_StartSearch = (\<lambda>ch. bindR (send (found ''c'' [(''id'', ''1'')]) ch) (\<lambda>c. mapR (\<lambda>c. (c, True)) (close_chan c))),
     pl_GetKubeconfigForPath = (\<lambda>path tags. Ok path)\<rparr>"

definition plugin_lib :: "nat plugin_libs" where
  "plugin_lib = \<lparr>pb_parse = (\<lambda>_. Ok \<lparr>CmdPath = ''/p'', plugin_Args = []\<rparr>), pb_rpc = (\<lambda>c a. Ok 0),
     pb_Dispense = (\<lambda>_. Ok (Some (GRPCClient (GRPCServer plugin_impl))))\<rparr>"

definition plugin_sample :: plugin_store where
  "plugin_sample = \<lparr>pg_Base = \<lparr>base_Kind = StoreKindPlugin, base_KubeconfigStore = zero_store\<rparr>,
     pg_Config = \<lparr>CmdPath = ''/p'', plugin_Args = []\<rparr>, pg_Client = None\<rparr>"

lemma plugin_search_never_ends_well_witness:
  "search_goroutine (plugin_StartSearch plugin_lib plugin_sample) = Panic ''close of closed channel''"
proof -
  have "InitializePluginStore plugin_lib plugin_sample = Ok (plugin_sample\<lparr>pg_Client := Some (GRPCClient (GRPCServer plugin_impl))\<rparr>)"
    by (simp add: InitializePluginStore_def plugin_lib_def)
  moreover have "pl_StartSearch plugin_impl new_chan = Ok (\<lparr>chan_sent = [found ''c'' [(''id'', ''1'')]], chan_closed = True\<rparr>, True)"
    by (simp add: plugin_impl_def send_def new_chan_def close_chan_def)
  ultimately show ?thesis using plugin_search_never_ends_well by force
qed

end
