(* ===== verification/Encoding.thy ===== *)
theory Encoding
  imports GoOS
begin

text \<open>
  The parts of Go's \<^verbatim>\<open>strconv\<close> and \<^verbatim>\<open>encoding/base64\<close> that the cloud stores use: decimal numbers of type
  \<^verbatim>\<open>int\<close> (64 bits) and the standard base64 alphabet with padding.
\<close>

section \<open>Decimal numbers\<close>

definition Itoa :: "int \<Rightarrow> string" where
  "Itoa i = (if i < 0 then CHR ''-'' # itoa (nat (- i)) else itoa (nat i))"

definition is_digit :: "char \<Rightarrow> bool" where
  "is_digit c \<longleftrightarrow> 48 \<le> (of_char c :: nat) \<and> (of_char c :: nat) \<le> 57"

definition digits_val :: "string \<Rightarrow> nat" where
  "digits_val s = fold (\<lambda>c n. 10 * n + (of_char c - 48)) s 0"

definition sign_of :: "string \<Rightarrow> bool \<times> string" where
  "sign_of s = (case s of [] \<Rightarrow> (False, []) | c # r \<Rightarrow>
     if c = CHR ''-'' then (True, r) else if c = CHR ''+'' then (False, r) else (False, s))"

definition Atoi :: "string \<Rightarrow> int res" where
  "Atoi s = (case sign_of s of (neg, ds) \<Rightarrow>
     if ds = [] \<or> \<not> list_all is_digit ds then Err (LibErr ''invalid syntax'')
     else if (if neg then digits_val ds > 2 ^ 63 else digits_val ds \<ge> 2 ^ 63) then Err (LibErr ''value out of range'')
     else Ok (if neg then - int (digits_val ds) else int (digits_val ds)))"

lemma of_char_digit: "d < 10 \<Longrightarrow> of_char (char_of (48 + d) :: char) = (48 + d :: nat)"
  by (simp add: of_char_mod_256)

lemma digits_val_snoc: "digits_val (s @ [c]) = 10 * digits_val s + (of_char c - 48)"
  by (simp add: digits_val_def)

lemma itoa_digits: "list_all is_digit (itoa n) \<and> itoa n \<noteq> [] \<and> digits_val (itoa n) = n"
proof (induction n rule: itoa.induct)
  case (1 n)
  have d: "is_digit (char_of (48 + k))" if "k < 10" for k :: nat
    using that by (simp add: is_digit_def of_char_digit)
  show ?case
  proof (cases "n < 10")
    case True
    then show ?thesis using d [of n] by (simp add: itoa.simps [of n] of_char_digit digits_val_def)
  next
    case False
    then show ?thesis
      using 1 d [of "n mod 10"] by (simp add: itoa.simps [of n] digits_val_snoc of_char_digit)
  qed
qed

lemma Atoi_Itoa: "- (2 ^ 63) \<le> i \<Longrightarrow> i < 2 ^ 63 \<Longrightarrow> Atoi (Itoa i) = Ok i"
proof -
  assume i: "- (2 ^ 63) \<le> i" "i < 2 ^ 63"
  let ?s = "itoa (nat \<bar>i\<bar>)"
  have s: "list_all is_digit ?s" "?s \<noteq> []" "digits_val ?s = nat \<bar>i\<bar>" using itoa_digits by blast+
  show ?thesis
  proof (cases "i < 0")
    case True
    then show ?thesis using i s by (simp add: Atoi_def Itoa_def sign_of_def)
  next
    case False
    obtain c r where c: "?s = c # r" using s(2) by (cases ?s) auto
    then have "is_digit c" using s(1) by simp
    then have "c \<noteq> CHR ''-'' \<and> c \<noteq> CHR ''+''" by (auto simp: is_digit_def)
    then have "sign_of ?s = (False, ?s)" by (simp add: sign_of_def c)
    then show ?thesis using False i s by (simp add: Atoi_def Itoa_def)
  qed
qed

section \<open>Base64\<close>

definition b64_val :: "char \<Rightarrow> nat option" where
  "b64_val c = (let n = of_char c :: nat in
     if 65 \<le> n \<and> n \<le> 90 then Some (n - 65) else if 97 \<le> n \<and> n \<le> 122 then Some (n - 71)
     else if 48 \<le> n \<and> n \<le> 57 then Some (n + 4) else if n = 43 then Some 62 else if n = 47 then Some 63 else None)"

definition b64_bytes :: "nat \<Rightarrow> nat \<Rightarrow> nat \<Rightarrow> nat \<Rightarrow> string" where
  "b64_bytes a b c d = (let v = ((a * 64 + b) * 64 + c) * 64 + d
     in [char_of (v div 65536), char_of (v div 256 mod 256), char_of (v mod 256)])"

text \<open>Groups of four; the last one may end in padding.\<close>

fun b64_quads :: "string \<Rightarrow> string option" where
  "b64_quads [] = Some []"
| "b64_quads (a # b # c # d # rest) =
     (case (b64_val a, b64_val b, b64_val c, b64_val d) of
        (Some va, Some vb, Some vc, Some vd) \<Rightarrow> map_option (\<lambda>r. b64_bytes va vb vc vd @ r) (b64_quads rest)
      | (Some va, Some vb, Some vc, None) \<Rightarrow> if d = CHR ''='' \<and> rest = [] then Some (take 2 (b64_bytes va vb vc 0)) else None
      | (Some va, Some vb, None, None) \<Rightarrow> if c = CHR ''='' \<and> d = CHR ''='' \<and> rest = [] then Some (take 1 (b64_bytes va vb 0 0)) else None
      | _ \<Rightarrow> None)"
| "b64_quads _ = None"

text \<open>\<^verbatim>\<open>base64.StdEncoding.DecodeString\<close> skips line breaks.\<close>

definition b64_Decode :: "string \<Rightarrow> string res" where
  "b64_Decode s = (case b64_quads (filter (\<lambda>c. c \<noteq> CHR 0x0A \<and> c \<noteq> CHR 0x0D) s) of
     Some r \<Rightarrow> Ok r | None \<Rightarrow> Err (LibErr ''illegal base64 data''))"

lemma b64_sample: "b64_Decode ''YXBpVmVyc2lvbg=='' = Ok ''apiVersion''"
  by (simp add: b64_Decode_def b64_val_def b64_bytes_def Let_def char_of_def bit_0)

end
