(* ===== verification/CloudStores.thy ===== *)
theory CloudStores
  imports ClusterStores Encoding
begin

text \<open>
  The stores of the providers that identify a cluster by an id: Akamai, Exoscale, OVH, Scaleway and Rancher
  (\<^verbatim>\<open>pkg/store/kubeconfig_store_<provider>.go\<close>). The API of a provider is a record of the calls the store makes, the
  environment a map; a search gives the results in the order they are sent.
\<close>

section \<open>Akamai\<close>

record StoreConfigAkamai =
  LinodeToken :: string

record lke_cluster =
  lke_ID :: int
  lke_Label :: string
  lke_Region :: string

record akamai_client =
  ak_ListLKEClusters :: "lke_cluster list res"
  ak_GetKubeconfig :: "int \<Rightarrow> string res"

record akamai_store =
  ak_Base :: BaseStore
  ak_Config :: StoreConfigAkamai

definition NewAkamaiStore :: "(KubeconfigStore \<Rightarrow> StoreConfigAkamai res) \<Rightarrow> KubeconfigStore \<Rightarrow> akamai_store res" where
  "NewAkamaiStore parse store = mapR (\<lambda>config.
     \<lparr>ak_Base = \<lparr>base_Kind = StoreKindAkamai, base_KubeconfigStore = store\<rparr>, ak_Config = config\<rparr>) (parse store)"

text \<open>\<^verbatim>\<open>env\<close> is \<^verbatim>\<open>os.LookupEnv\<close>, \<^verbatim>\<open>mk\<close> makes a client from a token.\<close>

definition InitializeAkamaiStore :: "(string \<Rightarrow> string option) \<Rightarrow> (string \<Rightarrow> akamai_client res) \<Rightarrow> akamai_store \<Rightarrow> akamai_client res" where
  "InitializeAkamaiStore env mk s =
     bindR (if LinodeToken (ak_Config s) = [] then (case env ''LINODE_TOKEN'' of
               None \<Rightarrow> Err (Errorf ''linode token not set'' []) | Some t \<Rightarrow> Ok t)
            else Ok (LinodeToken (ak_Config s)))
       (\<lambda>token. wrapR ''failed to create linode client: %w'' [] (mk token))"

definition akamai_GetContextPrefix :: "akamai_store \<Rightarrow> string \<Rightarrow> string" where
  "akamai_GetContextPrefix s path = (if \<not> shows_prefix (ak_Base s) then [] else base_GetKind (ak_Base s) @ ''/'' @ path)"

definition akamai_tags :: "lke_cluster \<Rightarrow> tags" where
  "akamai_tags c = [(''clusterID'', Itoa (lke_ID c)), (''region'', lke_Region c)]"

definition akamai_StartSearch :: "(string \<Rightarrow> string option) \<Rightarrow> (string \<Rightarrow> akamai_client res) \<Rightarrow> akamai_store \<Rightarrow> SearchResult list res" where
  "akamai_StartSearch env mk s = (case bindR (InitializeAkamaiStore env mk s) ak_ListLKEClusters of
     Panic p \<Rightarrow> Panic p
   | Err e \<Rightarrow> Ok [search_error e]
   | Ok instances \<Rightarrow> Ok (map (\<lambda>c. found (lke_Label c) (akamai_tags c)) instances))"

definition akamai_target :: "string \<Rightarrow> tags \<Rightarrow> int res" where
  "akamai_target path tags = wrapR ''failed to get clusterID: %w'' [] (Atoi (mgets tags ''clusterID''))"

definition akamai_GetKubeconfigForPath ::
    "(string \<Rightarrow> string option) \<Rightarrow> (string \<Rightarrow> akamai_client res) \<Rightarrow> akamai_store \<Rightarrow> string \<Rightarrow> tags \<Rightarrow> string res" where
  "akamai_GetKubeconfigForPath env mk s path tags = bindR (InitializeAkamaiStore env mk s) (\<lambda>client.
     bindR (akamai_target path tags) (\<lambda>clusterID. bindR (ak_GetKubeconfig client clusterID) b64_Decode))"

interpretation akamai: fetchable lke_Label akamai_tags akamai_target lke_ID "\<lambda>c. - (2 ^ 63) \<le> lke_ID c \<and> lke_ID c < 2 ^ 63"
  by unfold_locales (simp add: akamai_target_def akamai_tags_def mgets_def Atoi_Itoa)

section \<open>Rancher\<close>

record StoreConfigRancher =
  RancherAPIAddress :: string
  RancherToken :: string

record 'c rancher_client =
  rc_ListAll :: "string list res"             \<comment> \<open>the ids of the clusters\<close>
  rc_ByID :: "string \<Rightarrow> 'c res"
  rc_GenerateKubeconfig :: "'c \<Rightarrow> string res"

record 'c rancher_store =
  rc_Base :: BaseStore
  rc_Opts :: "string \<times> string"
  rc_Client :: "'c rancher_client option"

definition NewRancherStore :: "(KubeconfigStore \<Rightarrow> StoreConfigRancher res) \<Rightarrow> KubeconfigStore \<Rightarrow> 'c rancher_store res" where
  "NewRancherStore parse store = bindR (parse store) (\<lambda>config.
     if length (RancherAPIAddress config) = 0
     then Err (Errorf ''when using the Rancher kubeconfig store, the address of Rancher has to be provided via SwitchConfig file'' [])
     else if length (RancherToken config) = 0
     then Err (Errorf ''when using the Rancher kubeconfig store, a Rancher API token must be provided via SwitchConfig file'' [])
     else Ok \<lparr>rc_Base = \<lparr>base_Kind = StoreKindRancher, base_KubeconfigStore = store\<rparr>,
              rc_Opts = (RancherAPIAddress config, RancherToken config), rc_Client = None\<rparr>)"

definition rancher_GetContextPrefix :: "'c rancher_store \<Rightarrow> string \<Rightarrow> string" where
  "rancher_GetContextPrefix s path = (if \<not> shows_prefix (rc_Base s) then [] else path)"

text \<open>The client is made once; \<^verbatim>\<open>initClient\<close> gives it with the store that keeps it.\<close>

definition initClient :: "(string \<times> string \<Rightarrow> 'c rancher_client res) \<Rightarrow> 'c rancher_store \<Rightarrow> ('c rancher_client \<times> 'c rancher_store) res" where
  "initClient mk s = (case rc_Client s of Some c \<Rightarrow> Ok (c, s)
     | None \<Rightarrow> bindR (wrapR ''failed to create Rancher client: %w'' [] (mk (rc_Opts s))) (\<lambda>c. Ok (c, s\<lparr>rc_Client := Some c\<rparr>)))"

definition rancher_path :: "string \<Rightarrow> string \<Rightarrow> string" where
  "rancher_path storeID i = (if i = ''local'' then storeID else i)"

definition rancher_target :: "string \<Rightarrow> string \<Rightarrow> string" where
  "rancher_target storeID path = (if path = storeID then ''local'' else path)"

definition rancher_StartSearch ::
    "(string \<times> string \<Rightarrow> 'c rancher_client res) \<Rightarrow> 'c rancher_store \<Rightarrow> (SearchResult list \<times> 'c rancher_store) res" where
  "rancher_StartSearch mk s = (case wrapR ''failed to initialize Rancher client: %w'' [] (initClient mk s) of
     Panic p \<Rightarrow> Panic p
   | Err e \<Rightarrow> Ok ([search_error e], s)
   | Ok (c, s1) \<Rightarrow> (case rc_ListAll c of
       Panic p \<Rightarrow> Panic p
     | Err e \<Rightarrow> Ok ([search_error e], s1)
     | Ok ids \<Rightarrow> Ok (map (\<lambda>i. found (rancher_path (base_GetID (rc_Base s)) i) []) ids, s1)))"

definition rancher_GetKubeconfigForPath ::
    "(string \<times> string \<Rightarrow> 'c rancher_client res) \<Rightarrow> 'c rancher_store \<Rightarrow> string \<Rightarrow> tags \<Rightarrow> string res" where
  "rancher_GetKubeconfigForPath mk s path tags =
     bindR (wrapR ''failed to initialize Rancher client: %w'' [] (initClient mk s)) (\<lambda>(c, s1).
     bindR (wrapR ''failed to get cluster '%s': %w'' [path] (rc_ByID c (rancher_target (base_GetID (rc_Base s)) path))) (\<lambda>cluster.
     wrapR ''failed to get kubeconfig for cluster '%s': %w'' [path] (rc_GenerateKubeconfig c cluster)))"

interpretation rancher: fetchable_by_path "rancher_path storeID" "\<lambda>_. []" "\<lambda>p _. Ok (rancher_target storeID p)" "\<lambda>i. i" "\<lambda>i. i \<noteq> storeID"
  for storeID
  by unfold_locales (auto simp: rancher_target_def rancher_path_def)

section \<open>Exoscale\<close>

record StoreConfigExoscale =
  ExoscaleAPIKey :: string
  ExoscaleSecretKey :: string

record ExoscaleKube =
  ek_ID :: string
  ek_Name :: string
  ek_ZoneName :: string
  ek_ZoneEndpoint :: string

text \<open>The API: zones as name and endpoint, the clusters behind an endpoint as id and name.\<close>

record exo_client =
  ex_ListZones :: "(string \<times> string) list res"
  ex_ListSKSClusters :: "string \<Rightarrow> (string \<times> string) list res"
  ex_GenerateKubeconfig :: "string \<Rightarrow> string \<Rightarrow> string res"

record exoscale_store =
  ex_Base :: BaseStore
  ex_Client :: exo_client
  ex_Discovered :: "(string, ExoscaleKube) clusterCache"

definition NewExoscaleStore ::
    "(KubeconfigStore \<Rightarrow> StoreConfigExoscale res) \<Rightarrow> (string \<Rightarrow> string \<Rightarrow> exo_client res) \<Rightarrow> KubeconfigStore \<Rightarrow> exoscale_store res" where
  "NewExoscaleStore parse mk store = bindR (parse store) (\<lambda>config.
     if length (ExoscaleAPIKey config) = 0
     then Err (Errorf ''when using the Exoscale kubeconfig store, the API key for Exoscale has to be provided via a SwitchConfig file'' [])
     else if length (ExoscaleSecretKey config) = 0
     then Err (Errorf ''when using the Exoscale kubeconfig store, the secret key for Exoscale has to be provided via a SwitchConfig file'' [])
     else bindR (wrapR ''failed to initialize Exoscale client due to error: %w'' [] (mk (ExoscaleAPIKey config) (ExoscaleSecretKey config)))
       (\<lambda>client. Ok \<lparr>ex_Base = \<lparr>base_Kind = StoreKindExoscale, base_KubeconfigStore = store\<rparr>, ex_Client = client,
          ex_Discovered = newClusterCache\<rparr>))"

definition exoscale_GetContextPrefix :: "exoscale_store \<Rightarrow> string" where
  "exoscale_GetContextPrefix s = id_prefix (ex_Base s) StoreKindExoscale"

definition exo_path :: "ExoscaleKube \<Rightarrow> string" where
  "exo_path k = ek_ZoneName k @ ''/'' @ ek_Name k"

text \<open>One cluster is remembered and sent; a zone that cannot be listed is left out.\<close>

definition exo_send :: "ExoscaleKube \<Rightarrow> SearchResult list \<times> (string, ExoscaleKube) clusterCache \<Rightarrow>
    SearchResult list \<times> (string, ExoscaleKube) clusterCache" where
  "exo_send k = (\<lambda>(rs, cache). (rs @ [found (exo_path k) []], cc_Set (ek_ID k) k cache))"

definition exo_zone :: "exo_client \<Rightarrow> string \<times> string \<Rightarrow> ExoscaleKube list" where
  "exo_zone c = (\<lambda>(name, endpoint). case ex_ListSKSClusters c endpoint of
     Ok clusters \<Rightarrow> map (\<lambda>(i, n). \<lparr>ek_ID = i, ek_Name = n, ek_ZoneName = name, ek_ZoneEndpoint = endpoint\<rparr>) clusters
   | _ \<Rightarrow> [])"

definition exoscale_StartSearch :: "exoscale_store \<Rightarrow> SearchResult list \<times> exoscale_store" where
  "exoscale_StartSearch s = (case ex_ListZones (ex_Client s) of
     Ok zones \<Rightarrow> (case fold exo_send (concat (map (exo_zone (ex_Client s)) zones)) ([], ex_Discovered s) of
       (rs, cache) \<Rightarrow> (rs, s\<lparr>ex_Discovered := cache\<rparr>))
   | Err e \<Rightarrow> ([search_error (Wrapf ''failed to list zones: %w'' [] e)], s)
   | Panic p \<Rightarrow> ([], s))"

definition exo_match :: "ExoscaleKube list \<Rightarrow> string \<Rightarrow> ExoscaleKube res" where
  "exo_match discovered path = (case SplitN2 path ''/'' of
     [zoneName, clusterName] \<Rightarrow>
       (case List.find (\<lambda>c. ek_ZoneName c = zoneName \<and> ek_Name c = clusterName) discovered of
          Some k \<Rightarrow> Ok k | None \<Rightarrow> Err (Errorf ''no cluster found for %q'' [path]))
   | _ \<Rightarrow> Err (Errorf ''invalid cluster path %q (expected 'zoneName/clusterName')'' [path]))"

text \<open>
  The kubeconfig as \<^verbatim>\<open>clientcmd.Load\<close> gives it: the clusters and contexts by name, of a context the cluster it
  refers to. The first cluster of the map is taken for the only one.
\<close>

record 'a exo_context =
  xc_Cluster :: string
  xc_Rest :: 'a

record ('c, 'a) exo_config =
  xo_Clusters :: "(string, 'c) gomap"
  xo_Contexts :: "(string, 'a exo_context) gomap"
  xo_CurrentContext :: string

definition exo_rename :: "string \<Rightarrow> ('c, 'a) exo_config \<Rightarrow> ('c, 'a) exo_config" where
  "exo_rename clusterName cfg =
     (let old = (case xo_Clusters cfg of [] \<Rightarrow> [] | (k, _) # _ \<Rightarrow> k);
          cfg1 = (case mget (xo_Clusters cfg) old of None \<Rightarrow> cfg
            | Some c \<Rightarrow> cfg\<lparr>xo_Clusters := mdel old (mset clusterName c (xo_Clusters cfg))\<rparr>);
          cfg2 = (case mget (xo_Contexts cfg1) old of None \<Rightarrow> cfg1
            | Some ctx \<Rightarrow> cfg1\<lparr>xo_Contexts := mdel old (mset clusterName (ctx\<lparr>xc_Cluster := clusterName\<rparr>) (xo_Contexts cfg1))\<rparr>)
      in if xo_CurrentContext cfg2 = old then cfg2\<lparr>xo_CurrentContext := clusterName\<rparr> else cfg2)"

definition exoscale_GetKubeconfigForPath ::
    "(string \<Rightarrow> ('c, 'a) exo_config res) \<Rightarrow> (('c, 'a) exo_config \<Rightarrow> string res) \<Rightarrow> exoscale_store \<Rightarrow> string \<Rightarrow> tags \<Rightarrow> string res" where
  "exoscale_GetKubeconfigForPath ld wr s path tags =
     bindR (exo_match (cc_Values (ex_Discovered s)) path) (\<lambda>match.
     bindR (wrapR ''failed to generate kubeconfig for cluster %q: %w'' [path]
        (ex_GenerateKubeconfig (ex_Client s) (ek_ZoneEndpoint match) (ek_ID match))) (\<lambda>encoded.
     bindR (wrapR ''failed to decode base64 kubeconfig for cluster %q: %w'' [path] (b64_Decode encoded)) (\<lambda>raw.
     bindR (wrapR ''parse kubeconfig: %w'' [] (ld raw)) (\<lambda>cfg.
     wrapR ''marshal updated kubeconfig: %w'' [] (wr (exo_rename (ek_Name match) cfg))))))"

text \<open>Among the discovered clusters a path names one, when the zone has no slash and no two share zone and name.\<close>

definition exo_unique :: "ExoscaleKube list \<Rightarrow> ExoscaleKube \<Rightarrow> bool" where
  "exo_unique ks k \<longleftrightarrow> k \<in> set ks \<and> CHR ''/'' \<notin> set (ek_ZoneName k) \<and>
     (\<forall>d \<in> set ks. ek_ZoneName d = ek_ZoneName k \<and> ek_Name d = ek_Name k \<longrightarrow> d = k)"

lemma exo_match_path: "exo_unique ks k \<Longrightarrow> exo_match ks (exo_path k) = Ok k"
proof -
  assume k: "exo_unique ks k"
  then obtain d where d: "List.find (\<lambda>c. ek_ZoneName c = ek_ZoneName k \<and> ek_Name c = ek_Name k) ks = Some d"
    by (cases "List.find (\<lambda>c. ek_ZoneName c = ek_ZoneName k \<and> ek_Name c = ek_Name k) ks") (auto simp: find_None_iff exo_unique_def)
  then have "d = k" using k find_Some_in [OF d] by (auto simp: exo_unique_def)
  then show ?thesis using k d by (simp add: exo_match_def exo_path_def SplitN2_def Cut_single exo_unique_def)
qed

interpretation exo: fetchable_by_path exo_path "\<lambda>_. []" "\<lambda>p _. exo_match ks p" "\<lambda>k. k" "exo_unique ks" for ks
  by unfold_locales (simp_all add: exo_match_path)

section \<open>OVH\<close>

record StoreConfigOVH =
  OVHApplicationKey :: string
  OVHApplicationSecret :: string
  OVHConsumerKey :: string
  OVHEndpoint :: string

record OVHKube =
  ok_ID :: string
  ok_Name :: string
  ok_Project :: string

text \<open>The API by the URL asked for: lists of names, one cluster as id and name, the kubeconfig of a cluster.\<close>

record ovh_client =
  ov_GetList :: "string \<Rightarrow> string list res"
  ov_GetKube :: "string \<Rightarrow> (string \<times> string) res"
  ov_PostKubeconfig :: "string \<Rightarrow> string res"

record ovh_store =
  ov_Base :: BaseStore
  ov_Client :: ovh_client
  ov_Cache :: "(string, OVHKube) clusterCache"

definition NewOVHStore ::
    "(KubeconfigStore \<Rightarrow> StoreConfigOVH res) \<Rightarrow> (string \<Rightarrow> string \<Rightarrow> string \<Rightarrow> string \<Rightarrow> ovh_client res) \<Rightarrow> KubeconfigStore \<Rightarrow> ovh_store res" where
  "NewOVHStore parse mk store = bindR (parse store) (\<lambda>config.
     if length (OVHApplicationKey config) = 0
     then Err (Errorf ''when using the OVH kubeconfig store, the application key for OVH has to be provided via a SwitchConfig file'' [])
     else if length (OVHApplicationSecret config) = 0
     then Err (Errorf ''when using the OVH kubeconfig store, the application secret for OVH has to be provided via a SwitchConfig file'' [])
     else if length (OVHConsumerKey config) = 0
     then Err (Errorf ''when using the OVH kubeconfig store, the consumer key for OVH has to be provided via a SwitchConfig file'' [])
     else bindR (wrapR ''failed to initialize OVH client: %w'' []
         (mk (if length (OVHEndpoint config) = 0 then ''ovh-eu'' else OVHEndpoint config)
            (OVHApplicationKey config) (OVHApplicationSecret config) (OVHConsumerKey config)))
       (\<lambda>client. Ok \<lparr>ov_Base = \<lparr>base_Kind = StoreKindOVH, base_KubeconfigStore = store\<rparr>, ov_Client = client,
          ov_Cache = newClusterCache\<rparr>))"

definition ovh_GetContextPrefix :: "ovh_store \<Rightarrow> string" where
  "ovh_GetContextPrefix s = id_prefix (ov_Base s) StoreKindOVH"

definition ovh_kube_url :: "string \<Rightarrow> string" where
  "ovh_kube_url project = ''/cloud/project/'' @ project @ ''/kube''"

definition ovh_tags :: "OVHKube \<Rightarrow> tags" where
  "ovh_tags k = [(''clusterID'', ok_ID k), (''projectID'', ok_Project k)]"

text \<open>The two loops: the first error is sent and ends the search. The flag says whether the search goes on.\<close>

type_synonym ovh_state = "SearchResult list \<times> (string, OVHKube) clusterCache"

definition ovh_fail :: "gerror \<Rightarrow> ovh_state \<Rightarrow> ovh_state \<times> bool" where
  "ovh_fail e = (\<lambda>(rs, cache). ((rs @ [search_error e], cache), False))"

definition ovh_send :: "OVHKube \<Rightarrow> ovh_state \<Rightarrow> ovh_state" where
  "ovh_send k = (\<lambda>(rs, cache). (rs @ [found (ok_Name k) (ovh_tags k)], cc_Set (ok_ID k) k cache))"

fun ovh_clusters :: "ovh_client \<Rightarrow> string \<Rightarrow> string list \<Rightarrow> ovh_state \<Rightarrow> (ovh_state \<times> bool) res" where
  "ovh_clusters c project [] st = Ok (st, True)"
| "ovh_clusters c project (i # is) st = (case ov_GetKube c (ovh_kube_url project @ ''/'' @ i) of
     Panic p \<Rightarrow> Panic p
   | Err e \<Rightarrow> Ok (ovh_fail e st)
   | Ok (kid, name) \<Rightarrow> ovh_clusters c project is (ovh_send \<lparr>ok_ID = kid, ok_Name = name, ok_Project = project\<rparr> st))"

fun ovh_projects :: "ovh_client \<Rightarrow> string list \<Rightarrow> ovh_state \<Rightarrow> (ovh_state \<times> bool) res" where
  "ovh_projects c [] st = Ok (st, True)"
| "ovh_projects c (project # ps) st = (case ov_GetList c (ovh_kube_url project) of
     Panic p \<Rightarrow> Panic p
   | Err e \<Rightarrow> Ok (ovh_fail e st)
   | Ok ids \<Rightarrow> bindR (ovh_clusters c project ids st) (\<lambda>(st1, goes_on). if goes_on then ovh_projects c ps st1 else Ok (st1, False)))"

definition ovh_StartSearch :: "ovh_store \<Rightarrow> (SearchResult list \<times> ovh_store) res" where
  "ovh_StartSearch s = (case ov_GetList (ov_Client s) ''/cloud/project'' of
     Panic p \<Rightarrow> Panic p
   | Err e \<Rightarrow> Ok ([search_error e], s)
   | Ok projects \<Rightarrow> mapR (\<lambda>((rs, cache), _). (rs, s\<lparr>ov_Cache := cache\<rparr>)) (ovh_projects (ov_Client s) projects ([], ov_Cache s)))"

definition ovh_target :: "OVHKube list \<Rightarrow> string \<Rightarrow> tags \<Rightarrow> (string \<times> string) res" where
  "ovh_target ks path tags =
     (let (clusterID, project) =
        (if mgets tags ''clusterID'' = [] \<or> mgets tags ''projectID'' = []
         then (case List.find (\<lambda>c. ok_Name c = path) ks of
             Some c \<Rightarrow> (ok_ID c, ok_Project c) | None \<Rightarrow> (mgets tags ''clusterID'', mgets tags ''projectID''))
         else (mgets tags ''clusterID'', mgets tags ''projectID''))
      in if clusterID = [] \<or> project = [] then Err (Errorf ''could not resolve an OVH cluster ID for %q'' [path])
         else Ok (project, clusterID))"

definition ovh_GetKubeconfigForPath :: "ovh_store \<Rightarrow> string \<Rightarrow> tags \<Rightarrow> string res" where
  "ovh_GetKubeconfigForPath s path tags = bindR (ovh_target (cc_Values (ov_Cache s)) path tags) (\<lambda>(project, clusterID).
     wrapR ''failed to get kubeconfig for cluster '%s': %w'' [path]
       (ov_PostKubeconfig (ov_Client s) (ovh_kube_url project @ ''/'' @ clusterID @ ''/kubeconfig'')))"

interpretation ovh: fetchable ok_Name ovh_tags "ovh_target ks" "\<lambda>k. (ok_Project k, ok_ID k)" "\<lambda>k. ok_ID k \<noteq> [] \<and> ok_Project k \<noteq> []"
  for ks
  by unfold_locales (simp add: ovh_target_def ovh_tags_def mgets_def)

section \<open>Scaleway\<close>

record StoreConfigScaleway =
  ScalewayOrganizationID :: string
  ScalewayAccessKey :: string
  ScalewaySecretKey :: string
  ScalewayRegion :: string

record ScalewayKube =
  sk_ID :: string
  sk_Name :: string
  sk_Project :: string

text \<open>
  The API: the project API and the Kubernetes API, which may be missing; projects as id and name, the clusters of
  a project as their count and their ids and names.
\<close>

record scw_client =
  sw_ListProjects :: "(string \<times> string) list res option"
  sw_ListClusters :: "(string \<Rightarrow> (nat \<times> (string \<times> string) list) res) option"
  sw_GetClusterKubeConfig :: "string \<Rightarrow> string res"

record scaleway_store =
  sw_Base :: BaseStore
  sw_Client :: scw_client
  sw_Discovered :: "(string, ScalewayKube) clusterCache"

definition NewScalewayStore ::
    "(KubeconfigStore \<Rightarrow> StoreConfigScaleway res) \<Rightarrow> (string \<Rightarrow> string \<Rightarrow> string \<Rightarrow> string \<Rightarrow> scw_client res) \<Rightarrow> KubeconfigStore \<Rightarrow> scaleway_store res" where
  "NewScalewayStore parse mk store = bindR (parse store) (\<lambda>config.
     if length (ScalewayAccessKey config) = 0
     then Err (Errorf ''when using the Scaleway kubeconfig store, the access key for Scaleway has to be provided via a SwitchConfig file'' [])
     else if length (ScalewayOrganizationID config) = 0
     then Err (Errorf ''when using the Scaleway kubeconfig store, the organization ID for Scaleway has to be provided via a SwitchConfig file'' [])
     else if length (ScalewaySecretKey config) = 0
     then Err (Errorf ''when using the Scaleway kubeconfig store, the secret key for Scaleway has to be provided via a SwitchConfig file'' [])
     else bindR (wrapR ''failed to initialize Scaleway client: %w'' []
         (mk (ScalewayOrganizationID config) (ScalewayAccessKey config) (ScalewaySecretKey config)
            (if length (ScalewayRegion config) = 0 then ''fr-par'' else ScalewayRegion config)))
       (\<lambda>client. Ok \<lparr>sw_Base = \<lparr>base_Kind = StoreKindScaleway, base_KubeconfigStore = store\<rparr>, sw_Client = client,
          sw_Discovered = newClusterCache\<rparr>))"

definition scaleway_GetContextPrefix :: "scaleway_store \<Rightarrow> string" where
  "scaleway_GetContextPrefix s = id_prefix (sw_Base s) StoreKindScaleway"

definition scaleway_tags :: "ScalewayKube \<Rightarrow> tags" where
  "scaleway_tags k = [(''clusterID'', sk_ID k), (''projectID'', sk_Project k)]"

type_synonym scaleway_state = "SearchResult list \<times> (string, ScalewayKube) clusterCache"

definition scaleway_send :: "ScalewayKube \<Rightarrow> scaleway_state \<Rightarrow> scaleway_state" where
  "scaleway_send k = (\<lambda>(rs, cache). (rs @ [found (sk_Name k) (scaleway_tags k)], cc_Set (sk_ID k) k cache))"

text \<open>A project that cannot be listed is reported and the search goes on.\<close>

definition scaleway_project :: "(string \<Rightarrow> (nat \<times> (string \<times> string) list) res) \<Rightarrow> string \<times> string \<Rightarrow> scaleway_state \<Rightarrow> scaleway_state res" where
  "scaleway_project listClusters = (\<lambda>(pid, pname) (rs, cache). case listClusters pid of
     Panic p \<Rightarrow> Panic p
   | Err e \<Rightarrow> Ok (rs @ [search_error (Wrapf ''failed to retrieve Kubernetes cluster for project %v: %w'' [pname] e)], cache)
   | Ok (cnt, clusters) \<Rightarrow> Ok (if cnt = 0 then (rs, cache)
       else fold (\<lambda>(i, n). scaleway_send \<lparr>sk_ID = i, sk_Name = n, sk_Project = pid\<rparr>) clusters (rs, cache)))"

definition scaleway_StartSearch :: "scaleway_store \<Rightarrow> (SearchResult list \<times> scaleway_store) res" where
  "scaleway_StartSearch s = (case sw_ListProjects (sw_Client s) of
     None \<Rightarrow> Ok ([search_error (Errorf ''failed to create scaleway project API'' [])], s)
   | Some (Panic p) \<Rightarrow> Panic p
   | Some (Err e) \<Rightarrow> Ok ([search_error (Wrapf ''could not list projects in Scaleway: %w'' [] e)], s)
   | Some (Ok projects) \<Rightarrow> (case sw_ListClusters (sw_Client s) of
       None \<Rightarrow> Ok ([search_error (Errorf ''failed to create Kubernetes API instance for scaleway'' [])], s)
     | Some listClusters \<Rightarrow> mapR (\<lambda>(rs, cache). (rs, s\<lparr>sw_Discovered := cache\<rparr>))
         (foldR (scaleway_project listClusters) projects ([], sw_Discovered s))))"

definition scaleway_target :: "ScalewayKube list \<Rightarrow> string \<Rightarrow> tags \<Rightarrow> string res" where
  "scaleway_target ks path tags =
     (let clusterID = (if mgets tags ''clusterID'' = []
         then (case List.find (\<lambda>c. sk_Name c = path) ks of Some c \<Rightarrow> sk_ID c | None \<Rightarrow> [])
         else mgets tags ''clusterID'')
      in if clusterID = [] then Err (Errorf ''could not resolve a Scaleway cluster ID for %q'' [path]) else Ok clusterID)"

definition scaleway_GetKubeconfigForPath :: "scaleway_store \<Rightarrow> string \<Rightarrow> tags \<Rightarrow> string res" where
  "scaleway_GetKubeconfigForPath s path tags = bindR (scaleway_target (cc_Values (sw_Discovered s)) path tags) (\<lambda>clusterID.
     wrapR ''failed to get kubeconfig for cluster '%s': %w'' [path] (sw_GetClusterKubeConfig (sw_Client s) clusterID))"

interpretation scaleway: fetchable sk_Name scaleway_tags "scaleway_target ks" sk_ID "\<lambda>k. sk_ID k \<noteq> []" for ks
  by unfold_locales (simp add: scaleway_target_def scaleway_tags_def mgets_def)

definition scaleway_as_store :: "scaleway_store \<Rightarrow> store" where
  "scaleway_as_store s = \<lparr>st_GetID = base_GetID (sw_Base s), st_GetKind = base_GetKind (sw_Base s),
     st_GetContextPrefix = (\<lambda>_. scaleway_GetContextPrefix s), st_VerifyKubeconfigPaths = base_VerifyKubeconfigPaths (sw_Base s),
     st_StartSearch = liftR (mapR fst (scaleway_StartSearch s)),
     st_GetKubeconfigForPath = (\<lambda>path tags. liftR (scaleway_GetKubeconfigForPath s path tags)),
     st_GetStoreConfig = base_GetStoreConfig (sw_Base s), st_GetSearchPreview = None, st_GetShootLabelKeys = None, st_Flush = None\<rparr>"

section \<open>The renamed kubeconfig of Exoscale\<close>

text \<open>
  Of a kubeconfig with one cluster, named by its id, with a context of the same name, the cluster and the
  context get the name of the cluster, the context refers to it, and the other contexts stay.
\<close>

theorem exo_rename_spec:
  assumes "xo_Clusters cfg = [(old, c)]" and "mget (xo_Contexts cfg) old = Some ctx" and "name \<noteq> old"
  shows "xo_Clusters (exo_rename name cfg) = [(name, c)] \<and>
    mget (xo_Contexts (exo_rename name cfg)) = (mget (xo_Contexts cfg))(name \<mapsto> ctx\<lparr>xc_Cluster := name\<rparr>, old := None) \<and>
    xo_CurrentContext (exo_rename name cfg) = (if xo_CurrentContext cfg = old then name else xo_CurrentContext cfg)"
proof -
  have "mdel old (mset name c [(old, c)]) = [(name, c)]" using assms(3) by (simp add: AList.delete_eq)
  then show ?thesis using assms by (simp add: exo_rename_def Let_def fun_eq_iff)
qed

text \<open>When the cluster is called like its id, both entries are deleted.\<close>

theorem exo_rename_same_name:
  assumes "xo_Clusters cfg = [(old, c)]" and "mget (xo_Contexts cfg) old = Some ctx"
  shows "xo_Clusters (exo_rename old cfg) = [] \<and> mget (xo_Contexts (exo_rename old cfg)) old = None"
proof -
  have "mdel old (mset old c [(old, c)]) = []" by (simp add: AList.delete_eq)
  then show ?thesis using assms by (simp add: exo_rename_def Let_def)
qed

section \<open>What the searches send\<close>

lemma scaleway_sends: "fold (\<lambda>(i, n). scaleway_send \<lparr>sk_ID = i, sk_Name = n, sk_Project = pid\<rparr>) cs (rs, cache) =
   (rs @ map (\<lambda>(i, n). found n [(''clusterID'', i), (''projectID'', pid)]) cs,
    fold (\<lambda>(i, n). cc_Set i \<lparr>sk_ID = i, sk_Name = n, sk_Project = pid\<rparr>) cs cache)"
  by (induction cs arbitrary: rs cache) (auto simp: scaleway_send_def scaleway_tags_def)

text \<open>What one project contributes to the search.\<close>

definition scaleway_part :: "(string \<Rightarrow> (nat \<times> (string \<times> string) list) res) \<Rightarrow> string \<times> string \<Rightarrow> SearchResult list" where
  "scaleway_part listClusters = (\<lambda>(pid, pname). case listClusters pid of
     Ok (cnt, clusters) \<Rightarrow> if cnt = 0 then [] else map (\<lambda>(i, n). found n [(''clusterID'', i), (''projectID'', pid)]) clusters
   | Err e \<Rightarrow> [search_error (Wrapf ''failed to retrieve Kubernetes cluster for project %v: %w'' [pname] e)]
   | Panic p \<Rightarrow> [])"

lemma scaleway_project_part:
  assumes "\<not> is_panic (listClusters (fst p))"
  shows "\<exists>cache'. scaleway_project listClusters p (rs, cache) = Ok (rs @ scaleway_part listClusters p, cache')"
  using assms by (cases p; cases "listClusters (fst p)") (auto simp: scaleway_project_def scaleway_part_def scaleway_sends split: prod.splits)

lemma scaleway_projects:
  assumes "\<forall>p \<in> set projects. \<not> is_panic (listClusters (fst p))"
  shows "\<exists>cache'. foldR (scaleway_project listClusters) projects (rs, cache) = Ok (rs @ concat (map (scaleway_part listClusters) projects), cache')"
  using assms
proof (induction projects arbitrary: rs cache)
  case (Cons p ps)
  obtain c1 where c1: "scaleway_project listClusters p (rs, cache) = Ok (rs @ scaleway_part listClusters p, c1)"
    using scaleway_project_part [of listClusters p rs cache] Cons.prems by auto
  have "\<exists>cache'. foldR (scaleway_project listClusters) ps (rs @ scaleway_part listClusters p, c1) =
      Ok ((rs @ scaleway_part listClusters p) @ concat (map (scaleway_part listClusters) ps), cache')"
    by (rule Cons.IH) (use Cons.prems in simp)
  then show ?case using c1 by simp
qed simp

text \<open>
  The Scaleway search sends for each project, in order, either all its clusters or one error: a project that cannot
  be read hides nothing of the others. With the tags that were sent, each kubeconfig is asked for by the id of its
  cluster, whatever the cache holds.
\<close>

theorem scaleway_search_spec:
  assumes "sw_ListProjects (sw_Client s) = Some (Ok projects)" and "sw_ListClusters (sw_Client s) = Some listClusters"
    and "\<forall>p \<in> set projects. \<not> is_panic (listClusters (fst p))"
  shows "\<exists>s'. scaleway_StartSearch s = Ok (concat (map (scaleway_part listClusters) projects), s') \<and>
    (\<forall>p \<in> set projects. \<forall>cnt cs i n ks. listClusters (fst p) = Ok (cnt, cs) \<longrightarrow> cnt \<noteq> 0 \<longrightarrow> (i, n) \<in> set cs \<longrightarrow> i \<noteq> [] \<longrightarrow>
       found n [(''clusterID'', i), (''projectID'', fst p)] \<in> set (concat (map (scaleway_part listClusters) projects)) \<and>
       scaleway_target ks n [(''clusterID'', i), (''projectID'', fst p)] = Ok i)"
proof -
  obtain cache where c: "foldR (scaleway_project listClusters) projects ([], sw_Discovered s) =
      Ok (concat (map (scaleway_part listClusters) projects), cache)"
    using scaleway_projects [OF assms(3), of "[]" "sw_Discovered s"] by auto
  have t: "scaleway_target ks n [(''clusterID'', i), (''projectID'', pid)] = Ok i" if "i \<noteq> []" for ks n i pid
    using scaleway.target_sent [of "\<lparr>sk_ID = i, sk_Name = n, sk_Project = pid\<rparr>" ks] that by (simp add: scaleway_tags_def)
  have "found n [(''clusterID'', i), (''projectID'', fst p)] \<in> set (concat (map (scaleway_part listClusters) projects))"
    if "p \<in> set projects" "listClusters (fst p) = Ok (cnt, cs)" "cnt \<noteq> 0" "(i, n) \<in> set cs" for p cnt cs i n
  proof -
    have "found n [(''clusterID'', i), (''projectID'', fst p)] \<in> set (scaleway_part listClusters p)"
      using that(2-4) by (cases p) (force simp: scaleway_part_def)
    then show ?thesis using that(1) by auto
  qed
  then show ?thesis using assms(1,2) c t by (auto simp: scaleway_StartSearch_def)
qed

text \<open>Akamai and Rancher: one result per listed cluster, and each is fetched by the id of its cluster.\<close>

theorem akamai_search_fetched:
  assumes "InitializeAkamaiStore env mk s = Ok c" and "ak_ListLKEClusters c = Ok instances"
    and "\<forall>x \<in> set instances. - (2 ^ 63) \<le> lke_ID x \<and> lke_ID x < 2 ^ 63"
  shows "\<exists>rs. akamai_StartSearch env mk s = Ok rs \<and> map sr_KubeconfigPath rs = map lke_Label instances \<and>
    map (\<lambda>r. akamai_GetKubeconfigForPath env mk s (sr_KubeconfigPath r) (sr_Tags r)) rs =
      map (\<lambda>x. bindR (ak_GetKubeconfig c (lke_ID x)) b64_Decode) instances"
  using assms akamai.target_sent by (simp add: akamai_StartSearch_def akamai_GetKubeconfigForPath_def comp_def)

theorem rancher_search_fetched:
  assumes "initClient mk s = Ok (c, s1)" and "rc_ListAll c = Ok ids" and "base_GetID (rc_Base s) \<notin> set ids"
  shows "\<exists>rs. rancher_StartSearch mk s = Ok (rs, s1) \<and>
    map (\<lambda>r. rancher_target (base_GetID (rc_Base s)) (sr_KubeconfigPath r)) rs = ids \<and>
    (distinct ids \<longrightarrow> distinct (map sr_KubeconfigPath rs))"
proof -
  let ?rs = "map (\<lambda>i. found (rancher_path (base_GetID (rc_Base s)) i) []) ids"
  have v: "list_all (\<lambda>i. i \<noteq> base_GetID (rc_Base s)) ids" using assms(3) by (auto simp: list_all_iff)
  have "rancher_StartSearch mk s = Ok (?rs, s1)" using assms(1,2) by (simp add: rancher_StartSearch_def)
  moreover have "map (\<lambda>r. rancher_target (base_GetID (rc_Base s)) (sr_KubeconfigPath r)) ?rs = ids"
    using assms(3) by (auto simp: rancher_target_def rancher_path_def intro!: map_idI)
  moreover have "distinct ids \<longrightarrow> distinct (map sr_KubeconfigPath ?rs)"
    using rancher.paths_distinct [OF v] by (simp add: comp_def)
  ultimately show ?thesis by blast
qed

text \<open>OVH: when every request succeeds, all clusters of all projects are sent, and the tags alone resolve them.\<close>

definition ovh_project_kubes :: "ovh_client \<Rightarrow> string \<Rightarrow> OVHKube list" where
  "ovh_project_kubes c project = (case ov_GetList c (ovh_kube_url project) of
     Ok ids \<Rightarrow> List.map_filter (\<lambda>i. case ov_GetKube c (ovh_kube_url project @ ''/'' @ i) of
         Ok (kid, n) \<Rightarrow> Some \<lparr>ok_ID = kid, ok_Name = n, ok_Project = project\<rparr> | _ \<Rightarrow> None) ids
   | _ \<Rightarrow> [])"

lemma ovh_clusters_ok:
  assumes "\<forall>i \<in> set is. is_ok (ov_GetKube c (ovh_kube_url project @ ''/'' @ i))"
  shows "ovh_clusters c project is st = Ok (fold ovh_send (List.map_filter (\<lambda>i. case ov_GetKube c (ovh_kube_url project @ ''/'' @ i) of
     Ok (kid, n) \<Rightarrow> Some \<lparr>ok_ID = kid, ok_Name = n, ok_Project = project\<rparr> | _ \<Rightarrow> None) is) st, True)"
  using assms
proof (induction "is" arbitrary: st)
  case (Cons i "is")
  obtain kid n where "ov_GetKube c (ovh_kube_url project @ ''/'' @ i) = Ok (kid, n)" using Cons.prems by (auto simp: is_ok_iff)
  then show ?case using Cons by (simp add: List.map_filter_simps)
qed (simp add: List.map_filter_simps)

definition ovh_readable :: "ovh_client \<Rightarrow> string \<Rightarrow> bool" where
  "ovh_readable c project = (case ov_GetList c (ovh_kube_url project) of
     Ok ids \<Rightarrow> list_all (\<lambda>i. is_ok (ov_GetKube c (ovh_kube_url project @ ''/'' @ i))) ids | _ \<Rightarrow> False)"

lemma ovh_projects_ok:
  assumes "list_all (ovh_readable c) ps"
  shows "ovh_projects c ps st = Ok (fold ovh_send (concat (map (ovh_project_kubes c) ps)) st, True)"
  using assms
proof (induction ps arbitrary: st)
  case (Cons p ps)
  then obtain ids where "ov_GetList c (ovh_kube_url p) = Ok ids" "\<forall>i \<in> set ids. is_ok (ov_GetKube c (ovh_kube_url p @ ''/'' @ i))"
    by (auto simp: ovh_readable_def list_all_iff split: res.splits)
  then show ?case using Cons by (simp add: ovh_clusters_ok ovh_project_kubes_def)
qed simp

lemma ovh_sends: "fst (fold ovh_send ks (rs, cache)) = rs @ map (\<lambda>k. found (ok_Name k) (ovh_tags k)) ks"
  by (induction ks arbitrary: rs cache) (auto simp: ovh_send_def)

theorem ovh_search_spec:
  assumes "ov_GetList (ov_Client s) ''/cloud/project'' = Ok projects" and "list_all (ovh_readable (ov_Client s)) projects"
  shows "\<exists>s'. ovh_StartSearch s =
      Ok (map (\<lambda>k. found (ok_Name k) (ovh_tags k)) (concat (map (ovh_project_kubes (ov_Client s)) projects)), s') \<and>
    (\<forall>k \<in> set (concat (map (ovh_project_kubes (ov_Client s)) projects)). \<forall>ks. ok_ID k \<noteq> [] \<longrightarrow> ok_Project k \<noteq> [] \<longrightarrow>
       ovh_target ks (ok_Name k) (ovh_tags k) = Ok (ok_Project k, ok_ID k))"
  using assms ovh.target_sent ovh_sends [of "concat (map (ovh_project_kubes (ov_Client s)) projects)" "[]" "ov_Cache s"]
  by (cases "fold ovh_send (concat (map (ovh_project_kubes (ov_Client s)) projects)) ([], ov_Cache s)")
    (simp add: ovh_StartSearch_def ovh_projects_ok)

text \<open>A request that fails ends the OVH search: nothing of the projects after it is sent.\<close>

theorem ovh_search_stops:
  assumes "ov_GetList (ov_Client s) ''/cloud/project'' = Ok (ps @ p # qs)" and "list_all (ovh_readable (ov_Client s)) ps"
    and "ov_GetList (ov_Client s) (ovh_kube_url p) = Err e"
  shows "\<exists>s'. ovh_StartSearch s = Ok (map (\<lambda>k. found (ok_Name k) (ovh_tags k)) (concat (map (ovh_project_kubes (ov_Client s)) ps)) @
     [search_error e], s')"
proof -
  have a: "ovh_projects c (xs @ ys) st = bindR (ovh_projects c xs st) (\<lambda>(st1, goes_on). if goes_on then ovh_projects c ys st1 else Ok (st1, False))"
    for c xs ys st
  proof (induction xs arbitrary: st)
    case (Cons x xs)
    then show ?case by (auto simp: bindR_assoc ovh_fail_def split: res.splits prod.splits intro!: arg_cong2 [where f = bindR] ext)
  qed simp
  show ?thesis
    using assms a [of "ov_Client s" ps "p # qs" "([], ov_Cache s)"] ovh_projects_ok [OF assms(2), of "([], ov_Cache s)"]
      ovh_sends [of "concat (map (ovh_project_kubes (ov_Client s)) ps)" "[]" "ov_Cache s"]
    by (cases "fold ovh_send (concat (map (ovh_project_kubes (ov_Client s)) ps)) ([], ov_Cache s)")
      (simp add: ovh_StartSearch_def ovh_fail_def)
qed

text \<open>Exoscale: after a search each path is resolved to the cluster it was sent for.\<close>

lemma exo_sends: "fold exo_send ks (rs, cache) = (rs @ map (\<lambda>k. found (exo_path k) []) ks, fold (\<lambda>k. cc_Set (ek_ID k) k) ks cache)"
  by (induction ks arbitrary: rs cache) (auto simp: exo_send_def)

lemma cc_Values_fold:
  assumes "distinct (map f ks)"
  shows "set (cc_Values (fold (\<lambda>k. cc_Set (f k) k) ks newClusterCache)) = set ks"
proof -
  have e: "fold (\<lambda>k. cc_Set (f k) k) ks newClusterCache = fold (\<lambda>(k, v). cc_Set k v) (map (\<lambda>k. (f k, k)) ks) newClusterCache"
    by (simp add: fold_map comp_def)
  have "distinct (map fst (rev (map (\<lambda>k. (f k, k)) ks)))" using assms by (simp add: rev_map [symmetric] comp_def)
  then have "map_of (rev (map (\<lambda>k. (f k, k)) ks)) a = Some v \<longleftrightarrow> (a, v) \<in> set (map (\<lambda>k. (f k, k)) ks)" for a v
    by (simp only: map_of_eq_Some_iff) simp
  then show ?thesis
    using clusterCache_spec [of "map (\<lambda>k. (f k, k)) ks"] unfolding Let_def e by auto
qed

theorem exoscale_search_fetched:
  assumes "ex_ListZones (ex_Client s) = Ok zones" and "ks = concat (map (exo_zone (ex_Client s)) zones)"
    and "ex_Discovered s = newClusterCache" and "distinct (map ek_ID ks)" and "list_all (exo_unique ks) ks"
  shows "\<exists>s'. exoscale_StartSearch s = (map (\<lambda>k. found (exo_path k) []) ks, s') \<and>
    (\<forall>k \<in> set ks. exo_match (cc_Values (ex_Discovered s')) (exo_path k) = Ok k)"
proof -
  let ?cache = "fold (\<lambda>k. cc_Set (ek_ID k) k) ks newClusterCache"
  have "exo_unique (cc_Values ?cache) k" if "k \<in> set ks" for k
    using assms(5) that cc_Values_fold [OF assms(4)] by (auto simp: list_all_iff exo_unique_def)
  then have "\<forall>k \<in> set ks. exo_match (cc_Values ?cache) (exo_path k) = Ok k" using exo.target_path by blast
  then show ?thesis using assms(1-3) by (simp add: exoscale_StartSearch_def exo_sends)
qed

text \<open>
  Two Scaleway clusters of one name in different projects: the store itself tells them apart by their tags, but
  through the memory cache in front of every store the second one gets the kubeconfig of the first.
\<close>

theorem scaleway_shared_name:
  assumes "sk_Name a = sk_Name b" and "sk_ID a \<noteq> []" and "sk_ID b \<noteq> []"
    and "sw_GetClusterKubeConfig (sw_Client s) (sk_ID a) = Ok ka" and "sw_GetClusterKubeConfig (sw_Client s) (sk_ID b) = Ok kb"
  shows "scaleway_GetKubeconfigForPath s (sk_Name b) (scaleway_tags b) = Ok kb \<and>
    mem.lookups w (memory_New (scaleway_as_store s)) [(sk_Name a, scaleway_tags a), (sk_Name b, scaleway_tags b)] = [Ok ka, Ok ka]"
proof
  show "scaleway_GetKubeconfigForPath s (sk_Name b) (scaleway_tags b) = Ok kb"
    using assms scaleway.target_sent [of b] by (simp add: scaleway_GetKubeconfigForPath_def)
  have "st_GetKubeconfigForPath (scaleway_as_store s) (sk_Name a) (scaleway_tags a) w = (Ok ka, w)"
    using assms scaleway.target_sent [of a] by (simp add: scaleway_as_store_def scaleway_GetKubeconfigForPath_def)
  from memory_shared_path [OF this, of "scaleway_tags b"]
  show "mem.lookups w (memory_New (scaleway_as_store s)) [(sk_Name a, scaleway_tags a), (sk_Name b, scaleway_tags b)] = [Ok ka, Ok ka]"
    by (simp add: assms(1))
qed

text \<open>An Exoscale path is resolved among the clusters of the search of the same process only.\<close>

theorem exoscale_needs_search:
  assumes "ex_Discovered s = newClusterCache"
  shows "\<exists>e. exoscale_GetKubeconfigForPath ld wr s path tags = Err e"
  using assms by (auto simp: exoscale_GetKubeconfigForPath_def exo_match_def newClusterCache_def cc_Values_def split: list.splits)

end
