(* ===== verification/CloudPaths.thy ===== *)
theory CloudPaths
  imports StoreContracts GardenerIds
begin

text \<open>
  The stores that write what identifies a cluster into its path, separated by two dashes: EKS and Azure
  (\<^verbatim>\<open>pkg/store/kubeconfig_store_eks.go\<close>, \<^verbatim>\<open>kubeconfig_store_azure.go\<close>), and what they share with GKE and Digital
  Ocean: splitting such a path, and the kubeconfig of one cluster whose user is an exec plugin. The clients of the
  providers are records of the calls that are made; a list request is the sequence of its pages.
\<close>

section \<open>Paths with two dashes\<close>

definition triple_path :: "string \<Rightarrow> string \<Rightarrow> string \<Rightarrow> string \<Rightarrow> string" where
  "triple_path pre a b c = pre @ a @ ''--'' @ b @ ''--'' @ c"

definition parse_triple :: "string \<Rightarrow> (string \<times> string \<times> string) res" where
  "parse_triple path = (case Split path ''--'' of [a, b, c] \<Rightarrow> Ok (a, b, c)
     | _ \<Rightarrow> Err (Errorf ''unable to parse kubeconfig path: %q'' [path]))"

text \<open>The prefix shown for such a path.\<close>

definition dash_prefix :: "BaseStore \<Rightarrow> string \<Rightarrow> string" where
  "dash_prefix b path = (if \<not> shows_prefix b then [] else ReplaceAll path ''--'' ''-'')"

lemma parse_triple_path:
  "part_ok (pre @ a) \<Longrightarrow> part_ok b \<Longrightarrow> \<not> Contains c ''--'' \<Longrightarrow> parse_triple (triple_path pre a b c) = Ok (pre @ a, b, c)"
  using Split_part [of "pre @ a" "b @ ''--'' @ c"] Split_part [of b c] Split_last [of c]
  by (simp add: parse_triple_def triple_path_def)


section \<open>The kubeconfig of one cluster\<close>

definition single_kubeconfig :: "string \<Rightarrow> string \<Rightarrow> string \<Rightarrow> ExecProvider \<Rightarrow> KubeConfig" where
  "single_kubeconfig n ca server ep =
     \<lparr>kcf_Kind = ''Config'', kcf_APIVersion = ''v1'', kcf_CurrentContext = n,
      kcf_Contexts = [\<lparr>kcx_Name = n, kcx_Context = \<lparr>cx_Cluster = n, cx_User = n\<rparr>\<rparr>],
      kcf_Clusters = [\<lparr>kcl_Name = n, kcl_Cluster = \<lparr>cl_CertificateAuthorityData = ca, cl_Server = server, cl_Insecure = False\<rparr>\<rparr>],
      kcf_Users = [\<lparr>ku_Name = n, ku_User = \<lparr>u_AuthProvider = None, u_ExecProvider = Some ep\<rparr>\<rparr>]\<rparr>"

text \<open>A client that is made on first use.\<close>

definition ensure_client :: "'c option \<Rightarrow> 'c res \<Rightarrow> 'c res" where
  "ensure_client c new = (case c of Some x \<Rightarrow> Ok x | None \<Rightarrow> new)"

definition nil_panic :: "'a res" where
  "nil_panic = Panic ''invalid memory address or nil pointer dereference''"

section \<open>EKS\<close>

record StoreConfigEKS =
  eks_Region :: "string option"
  eks_Profile :: string

record eks_cluster =
  ec_Name :: "string option"
  ec_Arn :: "string option"
  ec_CA :: "string option"               \<comment> \<open>\<^verbatim>\<open>CertificateAuthority.Data\<close>, if both are there\<close>
  ec_Endpoint :: "string option"
  ec_Version :: "string option"
  ec_PlatformVersion :: "string option"
  ec_Status :: string

record eks_client =
  ec_Pages :: "string list res list"
  ec_Describe :: "string \<Rightarrow> eks_cluster res"

record eks_store =
  es_Base :: BaseStore
  es_Config :: StoreConfigEKS
  es_Client :: "eks_client option"
  es_Discovered :: "(string, eks_cluster) clusterCache"

text \<open>\<^verbatim>\<open>env\<close> is \<^verbatim>\<open>os.LookupEnv\<close>. Without a configuration block, profile and region come from the environment.\<close>

definition eks_config :: "(string \<Rightarrow> string option) \<Rightarrow> KubeconfigStore \<Rightarrow> StoreConfigEKS \<Rightarrow> StoreConfigEKS res" where
  "eks_config env store config =
     (if ks_Config store \<noteq> None
      then (if eks_Region config = None
            then (case env ''AWS_DEFAULT_REGION'' of
                None \<Rightarrow> Err (Errorf ''failed to set aws region from config or environment'' [])
              | Some r \<Rightarrow> Ok (config\<lparr>eks_Region := Some r\<rparr>))
            else Ok config)
      else (case env ''AWS_PROFILE'' of
          None \<Rightarrow> Err (Errorf ''failed to set aws profile from config or environment'' [])
        | Some profile \<Rightarrow> (case (env ''AWS_REGION'', env ''AWS_DEFAULT_REGION'') of
            (_, Some r) \<Rightarrow> Ok (config\<lparr>eks_Profile := profile, eks_Region := Some r\<rparr>)
          | (Some r, None) \<Rightarrow> Ok (config\<lparr>eks_Profile := profile, eks_Region := Some r\<rparr>)
          | (None, None) \<Rightarrow> Err (Errorf ''failed to set aws region from config or environment'' []))))"

definition NewEKSStore ::
    "(KubeconfigStore \<Rightarrow> StoreConfigEKS res) \<Rightarrow> (string \<Rightarrow> string option) \<Rightarrow> KubeconfigStore \<Rightarrow> eks_store res" where
  "NewEKSStore parse env store = bindR (bindR (parse store) (eks_config env store)) (\<lambda>config.
     if length (eks_Profile config) = 0 then Err (Errorf ''profile is required'' [])
     else if eks_Region config = None \<or> eks_Region config = Some [] then Err (Errorf ''region is required'' [])
     else Ok \<lparr>es_Base = \<lparr>base_Kind = StoreKindEKS, base_KubeconfigStore = store\<rparr>, es_Config = config, es_Client = None,
              es_Discovered = newClusterCache\<rparr>)"

definition eks_region :: "eks_store \<Rightarrow> string" where
  "eks_region s = (case eks_Region (es_Config s) of Some r \<Rightarrow> r | None \<Rightarrow> [])"

text \<open>\<^verbatim>\<open>mk\<close> loads the AWS configuration for a region and a profile and makes the client.\<close>

definition eks_ensure :: "(string \<Rightarrow> string \<Rightarrow> eks_client res) \<Rightarrow> eks_store \<Rightarrow> (eks_client \<times> eks_store) res" where
  "eks_ensure mk s = mapR (\<lambda>c. (c, s\<lparr>es_Client := Some c\<rparr>))
     (ensure_client (es_Client s) (case eks_Region (es_Config s) of None \<Rightarrow> nil_panic | Some r \<Rightarrow> mk r (eks_Profile (es_Config s))))"

definition eks_path :: "eks_store \<Rightarrow> string \<Rightarrow> string" where
  "eks_path s clusterName = triple_path ''eks_'' (eks_Profile (es_Config s)) (eks_region s) clusterName"

fun eks_pages :: "eks_store \<Rightarrow> string list res list \<Rightarrow> SearchResult list res" where
  "eks_pages s [] = Ok []"
| "eks_pages s (Panic p # pages) = Panic p"
| "eks_pages s (Err e # pages) = Ok [search_error e]"
| "eks_pages s (Ok clusters # pages) = mapR ((@) (map (\<lambda>n. found (eks_path s n) []) clusters)) (eks_pages s pages)"

definition eks_StartSearch :: "(string \<Rightarrow> string \<Rightarrow> eks_client res) \<Rightarrow> eks_store \<Rightarrow> (SearchResult list \<times> eks_store) res" where
  "eks_StartSearch mk s = (case eks_ensure mk s of
     Panic p \<Rightarrow> Panic p
   | Err e \<Rightarrow> Ok ([search_error (Wrapf ''failed to initialize store. This is most likely a problem with your provided aws credentials: %w'' [] e)], s)
   | Ok (c, s1) \<Rightarrow> mapR (\<lambda>rs. (rs, s1)) (eks_pages s1 (ec_Pages c)))"

definition parseEksIdentifier :: "string \<Rightarrow> (string \<times> string \<times> string) res" where
  "parseEksIdentifier path = mapR (\<lambda>(a, b, c). (TrimPrefix a ''eks_'', b, c)) (parse_triple path)"

text \<open>The cluster of a path, from the cache or the API, and the cache with it.\<close>

definition eks_lookup :: "eks_client \<Rightarrow> string \<Rightarrow> string \<Rightarrow> eks_store \<Rightarrow> (eks_cluster \<times> eks_store) res" where
  "eks_lookup c path clusterName s = (case cc_Get (es_Discovered s) path of
     Some cluster \<Rightarrow> Ok (cluster, s)
   | None \<Rightarrow> mapR (\<lambda>cluster. (cluster, s\<lparr>es_Discovered := cc_Set path cluster (es_Discovered s)\<rparr>)) (ec_Describe c clusterName))"

definition eks_kubeconfig :: "eks_store \<Rightarrow> eks_cluster \<Rightarrow> KubeConfig res" where
  "eks_kubeconfig s cluster = (case ec_Name cluster of None \<Rightarrow> nil_panic | Some n \<Rightarrow> (case ec_CA cluster of
       None \<Rightarrow> (case ec_Arn cluster of None \<Rightarrow> nil_panic
         | Some arn \<Rightarrow> Err (Errorf ''cluster CA certificate not found for cluster=%s'' [arn]))
     | Some ca \<Rightarrow> (case ec_Endpoint cluster of None \<Rightarrow> nil_panic
         | Some endpoint \<Rightarrow> Ok (single_kubeconfig (''eks_'' @ n) ca endpoint
             \<lparr>ep_APIVersion = ''client.authentication.k8s.io/v1beta1'',
              ep_Args = [''--region'', eks_region s, ''eks'', ''get-token'', ''--cluster-name'', n], ep_Command = ''aws'',
              ep_Env = [\<lparr>env_Name = ''AWS_PROFILE'', env_Value = eks_Profile (es_Config s)\<rparr>],
              ep_InstallHint = [], ep_ProvideClusterInfo = False\<rparr>))))"

definition eks_GetKubeconfigForPath ::
    "(string \<Rightarrow> string \<Rightarrow> eks_client res) \<Rightarrow> (KubeConfig \<Rightarrow> string res) \<Rightarrow> eks_store \<Rightarrow> string \<Rightarrow> tags \<Rightarrow> (string \<times> eks_store) res" where
  "eks_GetKubeconfigForPath mk marshal s path tags =
     bindR (wrapR ''failed to initialize EKS store: %w'' [] (eks_ensure mk s)) (\<lambda>(c, s1).
     bindR (parseEksIdentifier path) (\<lambda>(profile, region, clusterName).
     bindR (eks_lookup c path clusterName s1) (\<lambda>(cluster, s2).
     bindR (eks_kubeconfig s2 cluster) (\<lambda>kubeconfig.
     mapR (\<lambda>bytes. (bytes, s2)) (marshal kubeconfig)))))"

text \<open>A tree of one level, as \<^verbatim>\<open>gotree\<close> prints it, and the lines that are only there when a field is.\<close>

type_synonym tree_printer = "string \<Rightarrow> string list \<Rightarrow> string"

definition opt_line :: "string \<Rightarrow> string option \<Rightarrow> string list" where
  "opt_line label v = (case v of None \<Rightarrow> [] | Some x \<Rightarrow> [label @ x])"

definition eks_GetSearchPreview :: "tree_printer \<Rightarrow> eks_store \<Rightarrow> string \<Rightarrow> tags \<Rightarrow> (string \<times> eks_store) res" where
  "eks_GetSearchPreview print_tree s path tags = (case es_Client s of
     None \<Rightarrow> Err (Errorf ''eks store is not initalized yet'' [])
   | Some c \<Rightarrow> bindR (parseEksIdentifier path) (\<lambda>(profile, region, clusterName).
       bindR (wrapR ''failed to get Eks cluster with name %q : %w'' [clusterName] (eks_lookup c path clusterName s)) (\<lambda>(cluster, s1).
       Ok (print_tree clusterName (opt_line ''Kubernetes Version: '' (ec_Version cluster) @
            opt_line ''Platform Version: '' (ec_PlatformVersion cluster) @
            [''Status: '' @ ec_Status cluster, ''AWS Profile: '' @ profile, ''Region: '' @ region]), s1))))"

section \<open>Azure\<close>

record StoreConfigAzure =
  SubscriptionID :: "string option"
  azure_Endpoint :: "string option"
  ResourceGroups :: "string list"

record aks_properties =
  aks_AAD :: bool                             \<comment> \<open>\<^verbatim>\<open>AADProfile\<close> is set\<close>
  aks_KubernetesVersion :: "string option"
  aks_ProvisioningState :: "string option"
  aks_PowerState :: "string option option"    \<comment> \<open>\<^verbatim>\<open>PowerState\<close> and its code\<close>

record aks_cluster =
  aks_Name :: "string option"
  aks_ID :: "string option"
  aks_Properties :: "aks_properties option"
  aks_Location :: "string option"

text \<open>The credentials of a cluster are kubeconfigs that may be missing.\<close>

record aks_client =
  aks_GroupPages :: "string \<Rightarrow> aks_cluster list res list"
  aks_AllPages :: "aks_cluster list res list"
  aks_Get :: "string \<Rightarrow> string \<Rightarrow> aks_cluster res"
  aks_UserCredentials :: "string \<Rightarrow> string \<Rightarrow> string option list res"
  aks_AdminCredentials :: "string \<Rightarrow> string \<Rightarrow> string option list res"

record azure_store =
  az_Base :: BaseStore
  az_Config :: StoreConfigAzure
  az_Client :: "aks_client option"
  az_Discovered :: "(string, aks_cluster) clusterCache"

record 'r azure_libs =
  al_parse :: "KubeconfigStore \<Rightarrow> StoreConfigAzure res"
  al_Credential :: "'r res"
  al_NewClient :: "string \<Rightarrow> 'r \<Rightarrow> string option \<Rightarrow> aks_client res"
  al_IsResponseError :: "gerror \<Rightarrow> bool"

definition NewAzureStore :: "'r azure_libs \<Rightarrow> KubeconfigStore \<Rightarrow> azure_store res" where
  "NewAzureStore L store = mapR (\<lambda>config. \<lparr>az_Base = \<lparr>base_Kind = StoreKindAzure, base_KubeconfigStore = store\<rparr>,
     az_Config = config, az_Client = None, az_Discovered = newClusterCache\<rparr>) (al_parse L store)"

definition azure_initialize :: "'r azure_libs \<Rightarrow> azure_store \<Rightarrow> aks_client res" where
  "azure_initialize L s = bindR (wrapR ''obtaining Azure credentials failed: %w'' [] (al_Credential L)) (\<lambda>cred.
     case SubscriptionID (az_Config s) of None \<Rightarrow> nil_panic
     | Some sub \<Rightarrow> wrapR ''creating AKS client failed: %w'' [] (al_NewClient L sub cred (azure_Endpoint (az_Config s))))"

definition azure_ensure :: "'r azure_libs \<Rightarrow> azure_store \<Rightarrow> (aks_client \<times> azure_store) res" where
  "azure_ensure L s = mapR (\<lambda>c. (c, s\<lparr>az_Client := Some c\<rparr>)) (ensure_client (az_Client s) (azure_initialize L s))"

definition getAzureKubeconfigPath :: "string \<Rightarrow> string \<Rightarrow> string" where
  "getAzureKubeconfigPath resourceGroup clusterName = ''az_'' @ resourceGroup @ ''--'' @ clusterName"

definition parseAzureIdentifier :: "string \<Rightarrow> (string \<times> string) res" where
  "parseAzureIdentifier path = (case Split path ''--'' of [a, b] \<Rightarrow> Ok (TrimPrefix a ''az_'', b)
     | _ \<Rightarrow> Err (Errorf ''unable to parse kubeconfig path: %q'' [path]))"

definition handleAzureError :: "'r azure_libs \<Rightarrow> gerror \<Rightarrow> SearchResult" where
  "handleAzureError L e = search_error (if al_IsResponseError L e
     then Wrapf ''AKS returned an error listing AKS clusters: %w'' [] e else Wrapf ''failed to list AKS clusters: %w'' [] e)"

text \<open>The path of a listed cluster: its resource group is the fifth part of its id.\<close>

definition aks_path :: "aks_cluster \<Rightarrow> string option" where
  "aks_path cluster = (case (aks_Name cluster, aks_ID cluster) of
     (Some n, Some i) \<Rightarrow> (let split = Split i ''/'' in
        if length split \<le> 4 then None else Some (getAzureKubeconfigPath (split ! 4) n))
   | _ \<Rightarrow> None)"

type_synonym azure_state = "SearchResult list \<times> (string, aks_cluster) clusterCache"

definition azure_send :: "aks_cluster \<Rightarrow> azure_state \<Rightarrow> azure_state" where
  "azure_send cluster = (\<lambda>(rs, cache). case aks_path cluster of None \<Rightarrow> (rs, cache)
     | Some path \<Rightarrow> (rs @ [found path []], cc_Set path cluster cache))"

text \<open>The pages of one list request; the flag says whether the search goes on.\<close>

fun azure_pages :: "'r azure_libs \<Rightarrow> aks_cluster list res list \<Rightarrow> azure_state \<Rightarrow> (azure_state \<times> bool) res" where
  "azure_pages L [] st = Ok (st, True)"
| "azure_pages L (Panic p # pages) st = Panic p"
| "azure_pages L (Err e # pages) st = Ok ((fst st @ [handleAzureError L e], snd st), False)"
| "azure_pages L (Ok clusters # pages) st = azure_pages L pages (fold azure_send clusters st)"

fun azure_groups :: "'r azure_libs \<Rightarrow> aks_client \<Rightarrow> string list \<Rightarrow> azure_state \<Rightarrow> (azure_state \<times> bool) res" where
  "azure_groups L c [] st = Ok (st, True)"
| "azure_groups L c (g # gs) st = bindR (azure_pages L (aks_GroupPages c g) st) (\<lambda>(st1, goes_on).
     if goes_on then azure_groups L c gs st1 else Ok (st1, False))"

definition azure_StartSearch :: "'r azure_libs \<Rightarrow> azure_store \<Rightarrow> (SearchResult list \<times> azure_store) res" where
  "azure_StartSearch L s = (case azure_ensure L s of
     Panic p \<Rightarrow> Panic p
   | Err e \<Rightarrow> Ok ([search_error (Wrapf ''failed to initialize store: %w'' [] e)], s)
   | Ok (c, s1) \<Rightarrow> mapR (\<lambda>((rs, cache), _). (rs, s1\<lparr>az_Discovered := cache\<rparr>))
       (if length (ResourceGroups (az_Config s1)) > 0
        then azure_groups L c (ResourceGroups (az_Config s1)) ([], az_Discovered s1)
        else azure_pages L (aks_AllPages c) ([], az_Discovered s1)))"

definition azure_GetKubeconfigForPath :: "'r azure_libs \<Rightarrow> azure_store \<Rightarrow> string \<Rightarrow> tags \<Rightarrow> string res" where
  "azure_GetKubeconfigForPath L s path tags =
     bindR (wrapR ''failed to initialize Azure store: %w'' [] (azure_ensure L s)) (\<lambda>(c, s1).
     bindR (parseAzureIdentifier path) (\<lambda>(grp, clusterName).
     bindR (wrapR ''failed to obtain kubeconfig for AKS cluster %q in resource group %q: %w'' [clusterName, grp]
        (aks_Get c grp clusterName)) (\<lambda>resp.
     bindR (case aks_Properties resp of None \<Rightarrow> nil_panic | Some props \<Rightarrow>
        wrapR ''failed to obtain kubeconfig for AKS cluster %q in resource group %q: %w'' [clusterName, grp]
          (if aks_AAD props then aks_UserCredentials c grp clusterName else aks_AdminCredentials c grp clusterName)) (\<lambda>kubeconfigs.
     case List.find (\<lambda>k. k \<noteq> None \<and> k \<noteq> Some []) kubeconfigs of
       Some (Some v) \<Rightarrow> Ok v
     | _ \<Rightarrow> Err (Errorf ''no admin kubeconfig found for AKS cluster %q in resource group %q'' [clusterName, grp])))))"

definition azure_GetSearchPreview :: "tree_printer \<Rightarrow> azure_store \<Rightarrow> string \<Rightarrow> tags \<Rightarrow> (string \<times> azure_store) res" where
  "azure_GetSearchPreview print_tree s path tags = (case az_Client s of
     None \<Rightarrow> Err (Errorf ''azure store is not initalized yet'' [])
   | Some c \<Rightarrow> bindR (parseAzureIdentifier path) (\<lambda>(grp, clusterName).
       bindR (case cc_Get (az_Discovered s) path of Some cluster \<Rightarrow> Ok (cluster, s)
         | None \<Rightarrow> mapR (\<lambda>cluster. (cluster, s\<lparr>az_Discovered := cc_Set path cluster (az_Discovered s)\<rparr>))
             (wrapR ''failed to get Azure cluster with name %q : %w'' [clusterName] (aks_Get c grp clusterName))) (\<lambda>(cluster, s1).
       case aks_Properties cluster of None \<Rightarrow> nil_panic | Some props \<Rightarrow>
       bindR (case (aks_ProvisioningState props, aks_PowerState props) of
           (Some st, Some (Some code)) \<Rightarrow> Ok [''Status: '' @ st @ ''('' @ code @ '')'']
         | (Some st, Some None) \<Rightarrow> nil_panic
         | _ \<Rightarrow> Ok []) (\<lambda>status.
       case SubscriptionID (az_Config s1) of None \<Rightarrow> nil_panic | Some sub \<Rightarrow>
       Ok (print_tree clusterName (opt_line ''Kubernetes Version: '' (aks_KubernetesVersion props) @ status @
            [''Resource group: '' @ grp] @ opt_line ''Location: '' (aks_Location cluster) @ [''Subscription ID: '' @ sub]), s1)))))"

section \<open>What is sent can be fetched\<close>

lemma Contains_dashes_prefix: "CHR ''-'' \<notin> set pre \<Longrightarrow> Contains (pre @ s) ''--'' \<longleftrightarrow> Contains s ''--''"
  by (induction pre) (auto simp: Contains_def HasPrefix_def)

lemma part_ok_prefix: "CHR ''-'' \<notin> set pre \<Longrightarrow> part_ok (pre @ a) \<longleftrightarrow> part_ok a"
  using Contains_dashes_prefix [of pre "a @ ''-''"] by (simp add: part_ok_def)

lemma parse_triple_prefixed:
  assumes "CHR ''-'' \<notin> set pre" and "part_ok a" and "part_ok b" and "\<not> Contains c ''--''"
  shows "parse_triple (triple_path pre a b c) = Ok (pre @ a, b, c)"
  using assms by (intro parse_triple_path) (simp_all add: part_ok_prefix)

definition eks_name_ok :: "eks_store \<Rightarrow> string \<Rightarrow> bool" where
  "eks_name_ok s n \<longleftrightarrow> part_ok (eks_Profile (es_Config s)) \<and> part_ok (eks_region s) \<and> \<not> Contains n ''--''"

definition eks_target :: "string \<Rightarrow> tags \<Rightarrow> string res" where
  "eks_target path tags = mapR (\<lambda>(profile, region, n). n) (parseEksIdentifier path)"

lemma eks_parse: "eks_name_ok s n \<Longrightarrow> parseEksIdentifier (eks_path s n) = Ok (eks_Profile (es_Config s), eks_region s, n)"
  by (simp add: eks_name_ok_def eks_path_def parseEksIdentifier_def parse_triple_prefixed TrimPrefix_def HasPrefix_def)

interpretation eks: fetchable_by_path "eks_path s" "\<lambda>_. []" eks_target "\<lambda>n. n" "eks_name_ok s" for s
  by unfold_locales (simp_all add: eks_target_def eks_parse)

definition azure_name_ok :: "string \<times> string \<Rightarrow> bool" where
  "azure_name_ok gn \<longleftrightarrow> part_ok (fst gn) \<and> \<not> Contains (snd gn) ''--''"

lemma azure_parse: "azure_name_ok gn \<Longrightarrow> parseAzureIdentifier (getAzureKubeconfigPath (fst gn) (snd gn)) = Ok gn"
proof -
  assume n: "azure_name_ok gn"
  then have "Split (getAzureKubeconfigPath (fst gn) (snd gn)) ''--'' = [''az_'' @ fst gn, snd gn]"
    using Split_part [OF iffD2 [OF part_ok_prefix], of "''az_''" "fst gn" "snd gn"] Split_last [of "snd gn"]
    by (simp add: azure_name_ok_def getAzureKubeconfigPath_def)
  then show ?thesis unfolding parseAzureIdentifier_def by (simp add: TrimPrefix_def HasPrefix_def)
qed

interpretation azure: fetchable_by_path "\<lambda>gn. getAzureKubeconfigPath (fst gn) (snd gn)" "\<lambda>_. []"
    "\<lambda>p _. parseAzureIdentifier p" "\<lambda>gn. gn" azure_name_ok
  by unfold_locales (simp_all add: azure_parse)

lemma eks_pages_all: "eks_pages s (map Ok pages) = Ok (map (\<lambda>n. found (eks_path s n) []) (concat pages))"
  by (induction pages) simp_all

lemma eks_path_config: "es_Config s1 = es_Config s \<Longrightarrow> eks_path s1 n = eks_path s n \<and> eks_name_ok s1 n = eks_name_ok s n"
  by (simp add: eks_path_def eks_region_def eks_name_ok_def)

text \<open>
  C21. The first EKS search of a store sends the clusters of all pages in order, when the profile, the region and the
  names have no two dashes in a row and the first two do not end in a dash (\<^verbatim>\<open>eks_name_ok\<close>; \<^verbatim>\<open>eks_dashed_name_lost\<close>
  is the other case). The kubeconfig of each of them that the API describes with its name, an endpoint and a certificate is made of this description: one
  cluster, context and user, all named after the cluster, with its endpoint and certificate, and the profile and region
  of the store for the token.
\<close>

theorem eks_search_fetched:
  assumes "eks_ensure mk s = Ok (c, s1)" and "ec_Pages c = map Ok pages" and "\<forall>n \<in> set (concat pages). eks_name_ok s n"
    and "es_Discovered s = newClusterCache"
  shows "eks_StartSearch mk s = Ok (map (\<lambda>n. found (eks_path s n) []) (concat pages), s1) \<and>
    (\<forall>n \<in> set (concat pages). \<forall>cluster ca endpoint. ec_Describe c n = Ok cluster \<longrightarrow> ec_Name cluster = Some n \<longrightarrow>
       ec_CA cluster = Some ca \<longrightarrow> ec_Endpoint cluster = Some endpoint \<longrightarrow>
       (\<exists>ep s2. ep_Command ep = ''aws'' \<and>
          ep_Args ep = [''--region'', eks_region s, ''eks'', ''get-token'', ''--cluster-name'', n] \<and>
          ep_Env ep = [\<lparr>env_Name = ''AWS_PROFILE'', env_Value = eks_Profile (es_Config s)\<rparr>] \<and>
          eks_GetKubeconfigForPath mk marshal s1 (eks_path s n) [] =
            mapR (\<lambda>bytes. (bytes, s2)) (marshal (single_kubeconfig (''eks_'' @ n) ca endpoint ep))))"
proof -
  have s1: "s1 = s\<lparr>es_Client := Some c\<rparr>" using assms(1) by (auto simp: eks_ensure_def)
  then have c: "es_Config s1 = es_Config s" "es_Client s1 = Some c" "es_Discovered s1 = newClusterCache" "s1\<lparr>es_Client := Some c\<rparr> = s1"
    using assms(4) by simp_all
  have e: "eks_ensure mk s1 = Ok (c, s1)" using c by (simp add: eks_ensure_def ensure_client_def)
  have "eks_StartSearch mk s = Ok (map (\<lambda>n. found (eks_path s n) []) (concat pages), s1)"
    using assms(1,2) eks_path_config [OF c(1)] by (simp add: eks_StartSearch_def eks_pages_all)
  moreover have "\<exists>ep s2. ep_Command ep = ''aws'' \<and>
          ep_Args ep = [''--region'', eks_region s, ''eks'', ''get-token'', ''--cluster-name'', n] \<and>
          ep_Env ep = [\<lparr>env_Name = ''AWS_PROFILE'', env_Value = eks_Profile (es_Config s)\<rparr>] \<and>
          eks_GetKubeconfigForPath mk marshal s1 (eks_path s n) [] =
            mapR (\<lambda>bytes. (bytes, s2)) (marshal (single_kubeconfig (''eks_'' @ n) ca endpoint ep))"
    if n: "n \<in> set (concat pages)" and d: "ec_Describe c n = Ok cluster" "ec_Name cluster = Some n" "ec_CA cluster = Some ca"
      "ec_Endpoint cluster = Some endpoint" for n cluster ca endpoint
  proof -
    let ?s2 = "s1\<lparr>es_Discovered := cc_Set (eks_path s n) cluster newClusterCache\<rparr>"
    have l: "eks_lookup c (eks_path s n) n s1 = Ok (cluster, ?s2)"
      using d(1) c(3) by (simp add: eks_lookup_def cc_Get_def newClusterCache_def)
    have r: "eks_region ?s2 = eks_region s" "es_Config ?s2 = es_Config s" using c(1) by (simp_all add: eks_region_def)
    have p: "parseEksIdentifier (eks_path s n) = Ok (eks_Profile (es_Config s), eks_region s, n)"
      by (rule eks_parse) (use assms(3) n in blast)
    show ?thesis
      using e l p d r by (simp add: eks_GetKubeconfigForPath_def eks_kubeconfig_def) (intro exI conjI; simp)
  qed
  ultimately show ?thesis by blast
qed

text \<open>A cluster whose name contains two dashes is sent but cannot be fetched.\<close>

theorem eks_dashed_name_lost:
  assumes "eks_ensure mk s = Ok (c, s1)" and "part_ok (eks_Profile (es_Config s))" and "part_ok (eks_region s)"
    and "part_ok a" and "\<not> Contains b ''--''"
  shows "\<exists>e. eks_GetKubeconfigForPath mk marshal s (eks_path s (a @ ''--'' @ b)) tags = Err e"
proof -
  have "Split (eks_path s (a @ ''--'' @ b)) ''--'' = [''eks_'' @ eks_Profile (es_Config s), eks_region s, a, b]"
    using Split_part [OF iffD2 [OF part_ok_prefix], of "''eks_''" "eks_Profile (es_Config s)" "eks_region s @ ''--'' @ a @ ''--'' @ b"]
      Split_part [of "eks_region s" "a @ ''--'' @ b"] Split_part [of a b] Split_last [of b] assms
    by (simp add: eks_path_def triple_path_def)
  then show ?thesis
    using assms(1) by (simp add: eks_GetKubeconfigForPath_def parseEksIdentifier_def parse_triple_def)
qed

lemma Split_parts:
  "list_all (\<lambda>p. c \<notin> set p) ps \<Longrightarrow> Split (concat (map (\<lambda>p. p @ [c]) ps) @ rest) [c] = ps @ Split rest [c]"
  by (induction ps) (simp_all add: Split_single_Cons)

text \<open>The resource group is read off the id that Azure gives to a managed cluster.\<close>

definition aks_id :: "string \<Rightarrow> string \<Rightarrow> string \<Rightarrow> string" where
  "aks_id sub grp rest = ''/subscriptions/'' @ sub @ ''/resourcegroups/'' @ grp @ ''/'' @ rest"

theorem azure_resource_group:
  assumes "CHR ''/'' \<notin> set sub" and "CHR ''/'' \<notin> set grp" and "aks_Name cluster = Some n" and "aks_ID cluster = Some (aks_id sub grp rest)"
  shows "aks_path cluster = Some (getAzureKubeconfigPath grp n)"
proof -
  let ?ps = "[[], ''subscriptions'', sub, ''resourcegroups'', grp]"
  have "aks_id sub grp rest = concat (map (\<lambda>p. p @ ''/'') ?ps) @ rest" by (simp add: aks_id_def)
  then have "Split (aks_id sub grp rest) ''/'' = ?ps @ Split rest ''/''"
    using Split_parts [of "CHR ''/''" ?ps rest] assms(1,2) by simp
  then show ?thesis using assms(3,4) by (simp add: aks_path_def nth_Cons')
qed

text \<open>The Azure search sends the listed clusters that have a name and a resource group, in their order.\<close>

lemma azure_sends: "fst (fold azure_send cs (rs, cache)) = rs @ map (\<lambda>p. found p []) (List.map_filter aks_path cs)"
proof (induction cs arbitrary: rs cache)
  case (Cons c cs)
  then show ?case by (cases "aks_path c") (simp_all add: azure_send_def List.map_filter_simps)
qed (simp add: List.map_filter_simps)

lemma azure_pages_all:
  "\<exists>cache'. azure_pages L (map Ok pages) (rs, cache) = Ok ((rs @ map (\<lambda>p. found p []) (List.map_filter aks_path (concat pages)), cache'), True)"
proof (induction pages arbitrary: rs cache)
  case (Cons p ps)
  obtain rs1 c1 where "fold azure_send p (rs, cache) = (rs1, c1)" by fastforce
  then show ?case
    using Cons [of rs1 c1] azure_sends [of p rs cache] by (auto simp: map_filter_def)
qed (simp add: List.map_filter_simps)

theorem azure_search_spec:
  assumes "azure_ensure L s = Ok (c, s1)" and "ResourceGroups (az_Config s1) = []" and "aks_AllPages c = map Ok pages"
  shows "\<exists>s2. azure_StartSearch L s = Ok (map (\<lambda>p. found p []) (List.map_filter aks_path (concat pages)), s2)"
  using assms azure_pages_all [of L pages "[]" "az_Discovered s1"] by (auto simp: azure_StartSearch_def)

text \<open>The subscription is optional in the configuration; without it the search panics.\<close>

theorem azure_without_subscription_panics:
  assumes "NewAzureStore L store = Ok s" and "SubscriptionID (az_Config s) = None" and "al_Credential L = Ok cred"
  shows "is_panic (azure_StartSearch L s)"
  using assms by (auto simp: NewAzureStore_def azure_StartSearch_def azure_ensure_def ensure_client_def azure_initialize_def nil_panic_def)

definition sample_eks :: eks_store where
  "sample_eks = \<lparr>es_Base = \<lparr>base_Kind = StoreKindEKS, base_KubeconfigStore = zero_store\<rparr>,
     es_Config = \<lparr>eks_Region = Some ''eu-west-1'', eks_Profile = ''dev''\<rparr>, es_Client = None, es_Discovered = newClusterCache\<rparr>"

definition sample_eks_client :: eks_client where
  "sample_eks_client = \<lparr>ec_Pages = [Ok [''one''], Ok [''two'']],
     ec_Describe = (\<lambda>n. Ok \<lparr>ec_Name = Some n, ec_Arn = None, ec_CA = Some ''ca'', ec_Endpoint = Some ''https://e'',
        ec_Version = None, ec_PlatformVersion = None, ec_Status = ''ACTIVE''\<rparr>)\<rparr>"

lemma eks_search_fetched_witness:
  "\<exists>s1. eks_StartSearch (\<lambda>_ _. Ok sample_eks_client) sample_eks =
      Ok ([found ''eks_dev--eu-west-1--one'' [], found ''eks_dev--eu-west-1--two'' []], s1) \<and>
    (\<exists>s2. eks_GetKubeconfigForPath (\<lambda>_ _. Ok sample_eks_client) (\<lambda>k. Ok (kcf_CurrentContext k)) s1 ''eks_dev--eu-west-1--two'' [] =
        Ok (''eks_two'', s2))"
proof -
  let ?s1 = "sample_eks\<lparr>es_Client := Some sample_eks_client\<rparr>" and ?mk = "\<lambda>_ _. Ok sample_eks_client"
  have e: "eks_ensure ?mk sample_eks = Ok (sample_eks_client, ?s1)"
    by (simp add: eks_ensure_def ensure_client_def sample_eks_def)
  have p: "ec_Pages sample_eks_client = map Ok [[''one''], [''two'']]" by (simp add: sample_eks_client_def)
  have n: "\<forall>n \<in> set (concat [[''one''], [''two'']]). eks_name_ok sample_eks n"
    unfolding eks_name_ok_def part_ok_def eks_region_def sample_eks_def by code_simp
  have paths: "eks_path sample_eks ''one'' = ''eks_dev--eu-west-1--one''" "eks_path sample_eks ''two'' = ''eks_dev--eu-west-1--two''"
    by (simp_all add: eks_path_def triple_path_def eks_region_def sample_eks_def)
  note s = eks_search_fetched [OF e p n, of "\<lambda>k. Ok (kcf_CurrentContext k)"]
  have "eks_StartSearch ?mk sample_eks = Ok ([found (eks_path sample_eks ''one'') [], found (eks_path sample_eks ''two'') []], ?s1)"
    using s by (simp add: sample_eks_def)
  moreover have "\<exists>ep s2. ep_Command ep = ''aws'' \<and> eks_GetKubeconfigForPath ?mk (\<lambda>k. Ok (kcf_CurrentContext k)) ?s1 (eks_path sample_eks ''two'') [] =
        mapR (\<lambda>bytes. (bytes, s2)) (Ok (kcf_CurrentContext (single_kubeconfig (''eks_'' @ ''two'') ''ca'' ''https://e'' ep)))"
    using s by (auto simp: sample_eks_def sample_eks_client_def)
  then obtain s2 where
    "eks_GetKubeconfigForPath ?mk (\<lambda>k. Ok (kcf_CurrentContext k)) ?s1 ''eks_dev--eu-west-1--two'' [] = Ok (''eks_two'', s2)"
    by (auto simp: paths single_kubeconfig_def)
  ultimately show ?thesis unfolding paths by blast
qed

end
