(* ===== verification/GoogleStore.thy ===== *)
theory GoogleStore
  imports CloudPaths SwitchConfig
begin

text \<open>
  The GKE store (\<^verbatim>\<open>pkg/store/kubeconfig_store_gke.go\<close>): finding the projects of the account, with a login through the
  gcloud command when Google refuses, the search over the projects and the kubeconfig of a cluster. The Google
  client libraries and the command are parameters.
\<close>

section \<open>The API\<close>

text \<open>
  Of a cluster: the certificate of \<^verbatim>\<open>MasterAuth\<close>, if that is there, and the optional endpoints, each with the
  parent object taken into account.
\<close>

record gke_cluster =
  gk_Name :: string
  gk_Location :: string
  gk_Endpoint :: string
  gk_CA :: "string option"
  gk_DNS :: "string option"
  gk_IPs :: "(string \<times> string) option"      \<comment> \<open>the private and the public endpoint\<close>

record gke_client =
  gk_List :: "string \<Rightarrow> gke_cluster list res"
  gk_Get :: "string \<Rightarrow> gke_cluster res"

text \<open>
  The service may be made twice, the second time after a login; the projects come in pages, with the error that
  ended the listing.
\<close>

record gke_libs =
  gb_LookPath :: "string \<Rightarrow> string res"
  gb_parse :: "KubeconfigStore \<Rightarrow> StoreConfigGKE res"
  gb_NewService :: "nat \<Rightarrow> gke_client res"
  gb_gcloud :: "string list \<Rightarrow> string res"
  gb_accounts :: "string \<Rightarrow> (string \<times> string) list res"   \<comment> \<open>the decoded account list: account and status\<close>
  gb_ResourceManager :: "unit res"
  gb_Projects :: "(string \<times> string) list list \<times> gerror option"   \<comment> \<open>name and id\<close>

record gke_store =
  gs_Base :: BaseStore
  gs_Config :: StoreConfigGKE
  gs_binary :: string
  gs_Client :: "gke_client option"
  gs_ready :: bool
  gs_Projects :: "(string, string) gomap"
  gs_Discovered :: "(string, gke_cluster) clusterCache"

definition getGcloudBinaryPath :: "gke_libs \<Rightarrow> string res" where
  "getGcloudBinaryPath L = wrapR ''unable to find gcloud on the system. Is it installed?: %w'' [] (gb_LookPath L ''gcloud'')"

definition NewGKEStore :: "gke_libs \<Rightarrow> KubeconfigStore \<Rightarrow> gke_store res" where
  "NewGKEStore L store = bindR (gb_parse L store) (\<lambda>config.
     bindR (wrapR ''gcloud must be installaed when useing the GKE store: %w'' [] (getGcloudBinaryPath L)) (\<lambda>binary.
     Ok \<lparr>gs_Base = \<lparr>base_Kind = StoreKindGKE, base_KubeconfigStore = store\<rparr>, gs_Config = config, gs_binary = binary,
         gs_Client = None, gs_ready = False, gs_Projects = [], gs_Discovered = newClusterCache\<rparr>))"

section \<open>Initialisation\<close>

definition login_args :: "string list" where
  "login_args = [''auth'', ''application-default'', ''login'']"

definition gke_service :: "gke_libs \<Rightarrow> gke_store \<Rightarrow> gke_client res" where
  "gke_service L s = (case gb_NewService L 0 of
     Ok c \<Rightarrow> Ok c
   | Panic p \<Rightarrow> Panic p
   | Err e \<Rightarrow> if length (gs_binary s) = 0
       then Err (Wrapf ''failed to create Google Kubernetes Engine client. Please check that the `gcloud` CLI is installed and `gcloud auth application-default login` has run: %w'' [] e)
       else bindR (wrapR ''failed to acquire missing credentials via gcloud: %w: Failed to create client: %w'' [] (gb_gcloud L login_args))
         (\<lambda>_. wrapR ''failed to create Google Kubernetes Engine client: %w'' [] (gb_NewService L 1)))"

fun account_active :: "string \<Rightarrow> bool \<Rightarrow> (string \<times> string) list \<Rightarrow> bool res" where
  "account_active acct accountFound [] = (if \<not> accountFound
     then Err (Errorf ''GCP account %q not found. This can be verified by executing `gcloud auth list`'' [acct]) else Ok False)"
| "account_active acct accountFound ((account, status) # rest) =
     (if account \<noteq> acct then account_active acct accountFound rest
      else if status = ''ACTIVE'' then Ok True else account_active acct True rest)"

definition isAccountActive :: "gke_libs \<Rightarrow> string \<Rightarrow> bool res" where
  "isAccountActive L acct =
     bindR (wrapR ''failed to shell out to gcloud: %w'' [] (gb_gcloud L [''auth'', ''list'', ''--format'', '' json''])) (\<lambda>out.
     bindR (gb_accounts L out) (\<lambda>accounts.
     if accounts = [] then Err (Errorf ''no accounts configured for GCP. This can be verified by executing `gcloud auth list`'' [])
     else account_active acct False accounts))"

definition check_account :: "gke_libs \<Rightarrow> gke_store \<Rightarrow> unit res" where
  "check_account L s = (case GCPAccount (gs_Config s) of None \<Rightarrow> Ok ()
     | Some a \<Rightarrow> bindR (wrapR ''failed to check if Google Cloud account %q is active: %w'' [a] (isAccountActive L a)) (\<lambda>active.
         if active then Ok ()
         else Err (Errorf ''google cloud account %q is not active. Please use `gcloud config set account %s` to activate the account'' [a, a])))"

text \<open>The projects of the pages that arrived, by name; only the allowed ones when there is such a list.\<close>

definition remember_project :: "string list \<Rightarrow> string \<times> string \<Rightarrow> (string, string) gomap \<Rightarrow> (string, string) gomap" where
  "remember_project allowed = (\<lambda>(name, i) m. if length allowed > 0 \<and> i \<notin> set allowed then m else mset name i m)"

text \<open>\<^verbatim>\<open>initialize\<close>: the outcome and the store, which keeps what was found also when it fails.\<close>

definition gke_initialize :: "gke_libs \<Rightarrow> gke_store \<Rightarrow> unit res \<times> gke_store" where
  "gke_initialize L s = (case bindR (gke_service L s) (\<lambda>c. bindR (check_account L s) (\<lambda>_. Ok c)) of
     Err e \<Rightarrow> (Err e, s)
   | Panic p \<Rightarrow> (Panic p, s)
   | Ok c \<Rightarrow> (let s1 = s\<lparr>gs_Client := Some c\<rparr> in
      case wrapR ''failed to create cloud resource manager client: %w'' [] (gb_ResourceManager L) of
        Err e \<Rightarrow> (Err e, s1)
      | Panic p \<Rightarrow> (Panic p, s1)
      | Ok _ \<Rightarrow> (let (pages, failed) = gb_Projects L;
             s2 = s1\<lparr>gs_Projects := fold (remember_project (ProjectIDs (gs_Config s))) (concat pages) (gs_Projects s1)\<rparr>;
             listed = (case failed of None \<Rightarrow> Ok ()
               | Some e \<Rightarrow> if length (gs_binary s) = 0
                   then Err (Wrapf ''failed to list Google cloud projects. This indicates either connectivity issues or invalid credentials. Make sure you are connected to the internet and that the `gcloud` CLI is installed for authentication. (Try running: `gcloud auth application-default login`): %w'' [] e)
                   else mapR (\<lambda>_. ()) (wrapR ''failed to list Google Cloud projects probably due to permission issues. Also failed to acquire application-default credentials via gcloud OIDC authentication flow: %w: %w'' []
                     (gb_gcloud L login_args)))
           in (bindR listed (\<lambda>_. if length (gs_Projects s2) = 0
                 then Err (Errorf ''no projects found in Google Cloud. Unable to discover GKE clusters'' []) else Ok ()), s2))))"

definition gke_ensure :: "gke_libs \<Rightarrow> gke_store \<Rightarrow> unit res \<times> gke_store" where
  "gke_ensure L s = (if gs_ready s then (Ok (), s) else case gke_initialize L s of
     (Ok _, s1) \<Rightarrow> (Ok (), s1\<lparr>gs_ready := True\<rparr>) | (r, s1) \<Rightarrow> (r, s1))"

section \<open>Search and kubeconfig\<close>

definition gke_path :: "string \<Rightarrow> gke_cluster \<Rightarrow> string" where
  "gke_path projectName f = triple_path ''gke_'' projectName (gk_Location f) (gk_Name f)"

definition gke_project :: "gke_client \<Rightarrow> string \<times> string \<Rightarrow> SearchResult list \<times> gke_store \<Rightarrow> (SearchResult list \<times> gke_store) res" where
  "gke_project c = (\<lambda>(projectName, projectId) (rs, s). case gk_List c projectId of
     Panic p \<Rightarrow> Panic p
   | Err e \<Rightarrow> Ok (rs @ [search_error (Wrapf ''failed to list GKE clusters for project with ID %q: %w'' [projectId] e)], s)
   | Ok clusters \<Rightarrow> Ok (rs @ map (\<lambda>f. found (gke_path projectName f) []) clusters,
       s\<lparr>gs_Discovered := fold (\<lambda>f. cc_Set (gke_path projectName f) f) clusters (gs_Discovered s)\<rparr>))"

definition gke_StartSearch :: "gke_libs \<Rightarrow> gke_store \<Rightarrow> (SearchResult list \<times> gke_store) res" where
  "gke_StartSearch L s = (case gke_ensure L s of
     (Panic p, _) \<Rightarrow> Panic p
   | (Err e, s1) \<Rightarrow> Ok ([search_error (Wrapf ''failed to initialize store: %w'' [] e)], s1)
   | (Ok _, s1) \<Rightarrow> (case gs_Client s1 of None \<Rightarrow> nil_panic
       | Some c \<Rightarrow> foldR (gke_project c) (gs_Projects s1) ([], s1)))"

definition gke_cluster_of :: "gke_client \<Rightarrow> gke_store \<Rightarrow> string \<Rightarrow> string \<Rightarrow> string \<Rightarrow> string \<Rightarrow> gke_cluster res" where
  "gke_cluster_of c s path projectID location clusterName = (case cc_Get (gs_Discovered s) path of
     Some cluster \<Rightarrow> Ok cluster
   | None \<Rightarrow> wrapR ''failed to get GKE cluster with name %q for project with ID %q: %w'' [clusterName, projectID]
       (gk_Get c (''projects/'' @ projectID @ ''/locations/'' @ location @ ''/clusters/'' @ clusterName)))"

text \<open>The arguments of the login plugin; the type of an authentication block without a type is dereferenced.\<close>

definition gke_args :: "StoreConfigGKE \<Rightarrow> string list res" where
  "gke_args config = (case gke_Authentication config of None \<Rightarrow> Ok [] | Some a \<Rightarrow> (case AuthenticationType a of
       None \<Rightarrow> nil_panic
     | Some t \<Rightarrow> Ok (if t = GcloudAuthentication then []
         else if t = ServiceAccountAuthentication then [''--use_application_default_credentials''] else [])))"

text \<open>The endpoint and the certificate for it.\<close>

definition gke_endpoint :: "StoreConfigGKE \<Rightarrow> gke_cluster \<Rightarrow> string \<Rightarrow> string \<Rightarrow> (string \<times> string) res" where
  "gke_endpoint config cluster clusterName ca = (case PreferredEndpoint config of
     None \<Rightarrow> Ok (gk_Endpoint cluster, ca)
   | Some p \<Rightarrow>
       if p = GkeDnsEndpoint then (case gk_DNS cluster of
           None \<Rightarrow> Err (Errorf ''DNS endpoint not available for GKE cluster %q'' [clusterName]) | Some e \<Rightarrow> Ok (e, []))
       else if p = GkePrivateEndpoint then (case gk_IPs cluster of
           None \<Rightarrow> Err (Errorf ''private endpoint not available for GKE cluster %q'' [clusterName]) | Some (priv, _) \<Rightarrow> Ok (priv, ca))
       else if p = GkePublicEndpoint then (case gk_IPs cluster of
           None \<Rightarrow> Err (Errorf ''public endpoint not available for GKE cluster %q'' [clusterName]) | Some (_, pub) \<Rightarrow> Ok (pub, ca))
       else Ok (gk_Endpoint cluster, ca))"

definition gke_install_hint :: string where
  "gke_install_hint = ''Install gke-gcloud-auth-plugin for use with kubectl by following'' @ [CHR 0x0A] @
     ''https://cloud.google.com/blog/products/containers-kubernetes/kubectl-auth-changes-in-gke''"

definition gke_kubeconfig :: "StoreConfigGKE \<Rightarrow> gke_cluster \<Rightarrow> string \<Rightarrow> string \<Rightarrow> KubeConfig res" where
  "gke_kubeconfig config cluster clusterName projectID = (case gk_CA cluster of
     None \<Rightarrow> Err (Errorf ''no authentication information found for GKE cluster with name %q in project with ID %q'' [clusterName, projectID])
   | Some ca \<Rightarrow>
       if length ca = 0
       then Err (Errorf ''cluster CA certificate not found for cluster=%s in project with ID %q'' [''gke_'' @ gk_Name cluster, projectID])
       else bindR (gke_args config) (\<lambda>args. bindR (gke_endpoint config cluster clusterName ca) (\<lambda>(endpoint, certificate).
         Ok (single_kubeconfig (''gke_'' @ gk_Name cluster) certificate (''https://'' @ endpoint)
           \<lparr>ep_APIVersion = ''client.authentication.k8s.io/v1beta1'', ep_Args = args, ep_Command = ''gke-gcloud-auth-plugin'',
            ep_Env = [], ep_InstallHint = gke_install_hint, ep_ProvideClusterInfo = True\<rparr>))))"

definition gke_GetKubeconfigForPath :: "gke_libs \<Rightarrow> (KubeConfig \<Rightarrow> string res) \<Rightarrow> gke_store \<Rightarrow> string \<Rightarrow> tags \<Rightarrow> string res" where
  "gke_GetKubeconfigForPath L marshal s path tags = (case gke_ensure L s of
     (Panic p, _) \<Rightarrow> Panic p
   | (Err e, _) \<Rightarrow> Err (Wrapf ''failed to initialize GKE store: %w'' [] e)
   | (Ok _, s1) \<Rightarrow> bindR (parse_triple path) (\<lambda>(projectName, location, clusterName).
       let projectID = mgets (gs_Projects s1) (TrimPrefix projectName ''gke_'')
       in case gs_Client s1 of None \<Rightarrow> nil_panic | Some c \<Rightarrow>
          bindR (gke_cluster_of c s1 path projectID location clusterName) (\<lambda>cluster.
          bindR (gke_kubeconfig (gs_Config s1) cluster clusterName projectID) marshal)))"

definition gke_GetContextPrefix :: "gke_store \<Rightarrow> string \<Rightarrow> string" where
  "gke_GetContextPrefix s path = dash_prefix (gs_Base s) path"

section \<open>Searching projects\<close>

text \<open>What one project contributes.\<close>

definition gke_part :: "gke_client \<Rightarrow> string \<times> string \<Rightarrow> SearchResult list" where
  "gke_part c = (\<lambda>(name, i). case gk_List c i of
     Ok clusters \<Rightarrow> map (\<lambda>f. found (gke_path name f) []) clusters
   | Err e \<Rightarrow> [search_error (Wrapf ''failed to list GKE clusters for project with ID %q: %w'' [i] e)]
   | Panic p \<Rightarrow> [])"

definition gke_found :: "gke_client \<Rightarrow> string \<times> string \<Rightarrow> (string \<times> gke_cluster) list" where
  "gke_found c = (\<lambda>(name, i). case gk_List c i of Ok clusters \<Rightarrow> map (\<lambda>f. (gke_path name f, f)) clusters | _ \<Rightarrow> [])"

lemma gke_projects:
  assumes "\<forall>p \<in> set ps. \<not> is_panic (gk_List c (snd p))"
  shows "foldR (gke_project c) ps (rs, s) = Ok (rs @ concat (map (gke_part c) ps),
     s\<lparr>gs_Discovered := fold (\<lambda>(k, v). cc_Set k v) (concat (map (gke_found c) ps)) (gs_Discovered s)\<rparr>)"
  using assms
proof (induction ps arbitrary: rs s)
  case (Cons p ps)
  obtain name i where p: "p = (name, i)" by (cases p)
  have f: "fold (\<lambda>f. cc_Set (gke_path name f) f) cs cache = fold (\<lambda>(k, v). cc_Set k v) (map (\<lambda>f. (gke_path name f, f)) cs) cache" for cs cache
    by (simp add: fold_map comp_def)
  show ?case
    using Cons.prems Cons.IH by (cases "gk_List c i") (simp_all add: p gke_project_def gke_part_def gke_found_def f)
qed simp

text \<open>
  The GKE search sends for each remembered project its clusters or one error. When no two clusters share a path, the
  kubeconfig of each path that was sent is made of the cluster it was sent for.
\<close>

theorem gke_search_fetched:
  assumes "gke_ensure L s = (Ok (), s1)" and "gs_ready s1" and "gs_Client s1 = Some c" and "gs_Discovered s1 = newClusterCache"
    and "\<forall>p \<in> set (gs_Projects s1). \<not> is_panic (gk_List c (snd p))"
    and "distinct (map fst (concat (map (gke_found c) (gs_Projects s1))))"
  shows "\<exists>s2. gke_StartSearch L s = Ok (concat (map (gke_part c) (gs_Projects s1)), s2) \<and>
    (\<forall>p \<in> set (gs_Projects s1). \<forall>clusters f. gk_List c (snd p) = Ok clusters \<longrightarrow> f \<in> set clusters \<longrightarrow>
       part_ok (fst p) \<longrightarrow> part_ok (gk_Location f) \<longrightarrow> \<not> Contains (gk_Name f) ''--'' \<longrightarrow>
       (\<exists>projectID. gke_GetKubeconfigForPath L marshal s2 (gke_path (fst p) f) tags =
          bindR (gke_kubeconfig (gs_Config s1) f (gk_Name f) projectID) marshal))"
proof -
  let ?fs = "concat (map (gke_found c) (gs_Projects s1))"
  let ?cache = "fold (\<lambda>(k, v). cc_Set k v) ?fs newClusterCache"
  let ?s2 = "s1\<lparr>gs_Discovered := ?cache\<rparr>"
  have "gke_StartSearch L s = Ok (concat (map (gke_part c) (gs_Projects s1)), ?s2)"
    using assms(1,3,4) gke_projects [OF assms(5), of "[]" s1] by (simp add: gke_StartSearch_def)
  moreover have "\<exists>projectID. gke_GetKubeconfigForPath L marshal ?s2 (gke_path (fst p) f) tags =
      bindR (gke_kubeconfig (gs_Config s1) f (gk_Name f) projectID) marshal"
    if p: "p \<in> set (gs_Projects s1)" and l: "gk_List c (snd p) = Ok clusters" and f: "f \<in> set clusters"
      and ok: "part_ok (fst p)" "part_ok (gk_Location f)" "\<not> Contains (gk_Name f) ''--''" for p clusters f
  proof -
    have "(gke_path (fst p) f, f) \<in> set (gke_found c p)" using l f by (cases p) (auto simp: gke_found_def)
    then have "(gke_path (fst p) f, f) \<in> set ?fs" using p by auto
    then have g: "cc_Get ?cache (gke_path (fst p) f) = Some f"
      using cc.get_puts_distinct [OF wf_newClusterCache assms(6)] by blast
    have pt: "parse_triple (gke_path (fst p) f) = Ok (''gke_'' @ fst p, gk_Location f, gk_Name f)"
      unfolding gke_path_def using ok by (intro parse_triple_prefixed) simp_all
    have "gke_ensure L ?s2 = (Ok (), ?s2)" using assms(2) by (simp add: gke_ensure_def)
    then show ?thesis using g pt assms(3) by (auto simp: gke_GetKubeconfigForPath_def gke_cluster_of_def Let_def)
  qed
  ultimately show ?thesis by blast
qed

text \<open>Two projects of one name: the projects are kept by name, so the clusters of the earlier one are never listed.\<close>

lemma remember_other:
  "mget (fold (remember_project allowed) xs m) k = Some i \<Longrightarrow> i \<notin> snd ` set xs \<Longrightarrow> mget m k = Some i"
proof (induction xs arbitrary: m)
  case (Cons x xs)
  obtain a b where x: "x = (a, b)" by (cases x)
  then have "mget (remember_project allowed x m) k = Some i" using Cons by simp
  then show ?case using Cons.prems(2) x by (auto simp: remember_project_def split: if_splits)
qed simp

theorem gke_same_name_project_lost:
  assumes "i \<noteq> j" and "allowed = [] \<or> j \<in> set allowed" and "i \<notin> snd ` set (ps @ qs @ rs)" and "mget m k \<noteq> Some i"
  shows "mget (fold (remember_project allowed) (ps @ [(name, i)] @ qs @ [(name, j)] @ rs) m) k \<noteq> Some i"
proof
  let ?f = "fold (remember_project allowed)"
  let ?m1 = "?f qs (remember_project allowed (name, i) (?f ps m))"
  assume "mget (?f (ps @ [(name, i)] @ qs @ [(name, j)] @ rs) m) k = Some i"
  then have "mget (?f rs (remember_project allowed (name, j) ?m1)) k = Some i" by simp
  then have "mget (remember_project allowed (name, j) ?m1) k = Some i" by (rule remember_other) (use assms(3) in auto)
  then have n: "k \<noteq> name" "mget ?m1 k = Some i" using assms(1,2) by (auto simp: remember_project_def split: if_splits)
  have "mget (remember_project allowed (name, i) (?f ps m)) k = Some i" by (rule remember_other [OF n(2)]) (use assms(3) in auto)
  then have "mget (?f ps m) k = Some i" using n(1) by (auto simp: remember_project_def split: if_splits)
  then have "mget m k = Some i" by (rule remember_other) (use assms(3) in auto)
  then show False using assms(4) by simp
qed

text \<open>After a login that succeeds the projects are not listed again: the initialisation fails all the same.\<close>

theorem gke_login_without_retry:
  assumes "gke_service L s = Ok c" and "check_account L s = Ok ()" and "gb_ResourceManager L = Ok ()"
    and "gb_Projects L = ([], Some e)" and "gs_Projects s = []" and "gs_binary s \<noteq> []" and "gb_gcloud L login_args = Ok printed"
  shows "fst (gke_initialize L s) = Err (Errorf ''no projects found in Google Cloud. Unable to discover GKE clusters'' [])"
  using assms by (simp add: gke_initialize_def Let_def)

text \<open>
  An authentication block without a type, which the validation accepts and which is documented to mean gcloud, makes
  the request for a kubeconfig panic.
\<close>

theorem gke_authentication_without_type_panics:
  assumes "gke_Authentication config = Some a" and "AuthenticationType a = None" and "gk_CA cluster = Some ca" and "ca \<noteq> []"
  shows "is_panic (gke_kubeconfig config cluster n i)"
    and "ks_Paths store = [] \<Longrightarrow> ks_Config store = Some raw \<Longrightarrow> get_config raw = Ok config \<Longrightarrow>
      ValidateGKEStoreConfiguration get_config path store = []"
  using assms by (simp_all add: gke_kubeconfig_def gke_args_def nil_panic_def ValidateGKEStoreConfiguration_def)

text \<open>The endpoint is the preferred one, and only that of the DNS name goes without the certificate of the cluster.\<close>

theorem gke_kubeconfig_endpoint:
  assumes "gke_kubeconfig config cluster n i = Ok k"
  shows "\<exists>ca endpoint ep. gk_CA cluster = Some ca \<and> ca \<noteq> [] \<and>
    k = single_kubeconfig (''gke_'' @ gk_Name cluster) (if PreferredEndpoint config = Some GkeDnsEndpoint then [] else ca) (''https://'' @ endpoint) ep \<and>
    (PreferredEndpoint config = None \<longrightarrow> endpoint = gk_Endpoint cluster) \<and>
    (PreferredEndpoint config = Some GkeDnsEndpoint \<longrightarrow> gk_DNS cluster = Some endpoint) \<and>
    (PreferredEndpoint config = Some GkePrivateEndpoint \<longrightarrow> (\<exists>pub. gk_IPs cluster = Some (endpoint, pub))) \<and>
    (PreferredEndpoint config = Some GkePublicEndpoint \<longrightarrow> (\<exists>priv. gk_IPs cluster = Some (priv, endpoint)))"
proof -
  obtain ca where ca: "gk_CA cluster = Some ca" "ca \<noteq> []"
    using assms by (auto simp: gke_kubeconfig_def split: option.splits if_splits)
  obtain args endpoint certificate where a: "gke_endpoint config cluster n ca = Ok (endpoint, certificate)"
    "\<exists>ep. k = single_kubeconfig (''gke_'' @ gk_Name cluster) certificate (''https://'' @ endpoint) ep"
    using assms ca by (auto simp: gke_kubeconfig_def)
  have d: "GkePrivateEndpoint \<noteq> GkeDnsEndpoint" "GkePublicEndpoint \<noteq> GkeDnsEndpoint" "GkePublicEndpoint \<noteq> GkePrivateEndpoint"
    by (simp_all add: GkePrivateEndpoint_def GkeDnsEndpoint_def GkePublicEndpoint_def)
  have "certificate = (if PreferredEndpoint config = Some GkeDnsEndpoint then [] else ca) \<and>
    (PreferredEndpoint config = None \<longrightarrow> endpoint = gk_Endpoint cluster) \<and>
    (PreferredEndpoint config = Some GkeDnsEndpoint \<longrightarrow> gk_DNS cluster = Some endpoint) \<and>
    (PreferredEndpoint config = Some GkePrivateEndpoint \<longrightarrow> (\<exists>pub. gk_IPs cluster = Some (endpoint, pub))) \<and>
    (PreferredEndpoint config = Some GkePublicEndpoint \<longrightarrow> (\<exists>priv. gk_IPs cluster = Some (priv, endpoint)))"
    using a(1) d by (auto simp: gke_endpoint_def split: option.splits if_splits prod.splits)
  moreover obtain ep where "k = single_kubeconfig (''gke_'' @ gk_Name cluster) certificate (''https://'' @ endpoint) ep" using a(2) by blast
  ultimately show ?thesis using ca by (intro exI [of _ ca] exI [of _ endpoint] exI [of _ ep]) simp
qed

end
