(* ===== verification/DigitalOcean.thy ===== *)
theory DigitalOcean
  imports CloudPaths GoOS
begin

text \<open>
  The Digital Ocean store (\<^verbatim>\<open>pkg/store/kubeconfig_store_digital_ocean.go\<close>) and the configuration of the doctl command
  that it reads (\<^verbatim>\<open>pkg/store/doks\<close>). The clusters of an account are listed page by page, in a loop that runs as
  long as the API names further pages; the API clients and the YAML library are parameters.
\<close>

section \<open>The configuration of doctl\<close>

record DoctlConfig =
  DefaultContextName :: string
  DefaultAuthContextAccessToken :: string
  AuthContexts :: "(string, string) gomap"
  ExpirySeconds :: string
  HttpRetryMax :: int
  HttpRetryWaitMax :: int
  HttpRetryWaitMin :: int
  ApiUrl :: string

definition zero_doctl :: DoctlConfig where
  "zero_doctl = \<lparr>DefaultContextName = [], DefaultAuthContextAccessToken = [], AuthContexts = [], ExpirySeconds = [],
     HttpRetryMax = 0, HttpRetryWaitMax = 0, HttpRetryWaitMin = 0, ApiUrl = []\<rparr>"

text \<open>\<^verbatim>\<open>os.UserConfigDir\<close> on Linux.\<close>

definition os_UserConfigDir :: "string io" where
  "os_UserConfigDir = bindIO (os_Getenv ''XDG_CONFIG_HOME'') (\<lambda>dir.
     if dir = [] then bindIO (os_Getenv ''HOME'') (\<lambda>home.
       if home = [] then failIO (LibErr ''neither $XDG_CONFIG_HOME nor $HOME are defined'') else returnIO (home @ ''/.config''))
     else if \<not> HasPrefix dir slash then failIO (LibErr ''path in $XDG_CONFIG_HOME is relative'')
     else returnIO dir)"

definition defaultConfigHome :: "string io" where
  "defaultConfigHome = bindIO os_UserConfigDir (\<lambda>cfgDir. returnIO (JoinPath [cfgDir, ''doctl'']))"

definition getDefaultDoctlConfigFilepath :: "string io" where
  "getDefaultDoctlConfigFilepath = bindIO defaultConfigHome (\<lambda>home. returnIO (JoinPath [home, ''config.yaml'']))"

text \<open>A document that is only \<^verbatim>\<open>null\<close> leaves a nil pointer.\<close>

definition loadDoctlConfigFromFile :: "(string \<Rightarrow> DoctlConfig option res) \<Rightarrow> string \<Rightarrow> DoctlConfig option io" where
  "loadDoctlConfigFromFile um path = bindIO (os_ReadFile path) (\<lambda>bytes.
     if length bytes = 0 then returnIO (Some zero_doctl)
     else liftR (wrapR ''could not unmarshal doctl config at '%s': %w'' [path] (um bytes)))"

definition GetDoctlConfiguration :: "(string \<Rightarrow> DoctlConfig option res) \<Rightarrow> DoctlConfig option io" where
  "GetDoctlConfiguration um = bindIO getDefaultDoctlConfigFilepath (loadDoctlConfigFromFile um)"

section \<open>The store\<close>

record doks_cluster =
  dk_ID :: string
  dk_Name :: string
  dk_Region :: string
  dk_Version :: string
  dk_Pools :: "string list"

text \<open>The links of a page: whether it is the last one and its number.\<close>

record page_links =
  ln_IsLastPage :: bool
  ln_CurrentPage :: "int res"

record do_client =
  dc_List :: "int \<Rightarrow> (doks_cluster list \<times> page_links option) res"
  dc_GetKubeConfig :: "string \<Rightarrow> string res"

record do_store =
  do_Base :: BaseStore
  do_Config :: DoctlConfig
  do_Clients :: "(string, do_client) gomap option"    \<comment> \<open>\<^verbatim>\<open>ContextToClient\<close> once it is initialised\<close>

text \<open>The number of retries and the waits, if they are set; the token; the URL, if there is one.\<close>

type_synonym do_connect = "string \<Rightarrow> (int \<times> int option \<times> int option) option \<Rightarrow> string option \<Rightarrow> do_client res"

definition NewDigitalOceanStore :: "(string \<Rightarrow> DoctlConfig option res) \<Rightarrow> KubeconfigStore \<Rightarrow> do_store option io" where
  "NewDigitalOceanStore um store = tryIO (GetDoctlConfiguration um)
     (\<lambda>config. case config of None \<Rightarrow> liftR nil_panic | Some c \<Rightarrow>
        returnIO (Some \<lparr>do_Base = \<lparr>base_Kind = StoreKindDigitalOcean, base_KubeconfigStore = store\<rparr>, do_Config = c, do_Clients = None\<rparr>))
     (\<lambda>e. if IsNotExist e then returnIO None else failIO (Wrapf ''failed to load doctl config file: %w'' [] e))"

definition getDoClient :: "do_connect \<Rightarrow> DoctlConfig \<Rightarrow> string \<Rightarrow> do_client res" where
  "getDoClient connect c token = connect token
     (if HttpRetryMax c > 0 then Some (HttpRetryMax c,
         if HttpRetryWaitMax c > 0 then Some (HttpRetryWaitMax c) else None,
         if HttpRetryWaitMin c > 0 then Some (HttpRetryWaitMin c) else None) else None)
     (if ApiUrl c \<noteq> [] then Some (ApiUrl c) else None)"

definition add_client :: "do_connect \<Rightarrow> DoctlConfig \<Rightarrow> string \<times> string \<Rightarrow> (string, do_client) gomap \<Rightarrow> (string, do_client) gomap res" where
  "add_client connect c = (\<lambda>(name, token) m.
     mapR (\<lambda>cl. mset name cl m)
       (wrapR ''failed to intialize digital ocean client (context: %s): %w'' [DefaultContextName c] (getDoClient connect c token)))"

definition do_initialize :: "do_connect \<Rightarrow> DoctlConfig \<Rightarrow> (string, do_client) gomap res" where
  "do_initialize connect c =
     bindR (wrapR ''failed to intialize the client for the default digital ocean account/context (context: %s): %w'' [DefaultContextName c]
        (getDoClient connect c (DefaultAuthContextAccessToken c))) (\<lambda>cl.
     foldR (add_client connect c) (AuthContexts c) [(DefaultContextName c, cl)])"

definition do_ensure :: "do_connect \<Rightarrow> do_store \<Rightarrow> ((string, do_client) gomap \<times> do_store) res" where
  "do_ensure connect s = mapR (\<lambda>m. (m, s\<lparr>do_Clients := Some m\<rparr>)) (ensure_client (do_Clients s) (do_initialize connect (do_Config s)))"

text \<open>The loop over the pages; \<^verbatim>\<open>None\<close> when it never ends.\<close>

partial_function (option) list_pages ::
    "(int \<Rightarrow> ('c list \<times> page_links option) res) \<Rightarrow> int \<Rightarrow> 'c list \<Rightarrow> 'c list res option" where
  "list_pages api page acc = (case api page of
     Err e \<Rightarrow> Some (Err e)
   | Panic p \<Rightarrow> Some (Panic p)
   | Ok (cs, links) \<Rightarrow> (case links of
       None \<Rightarrow> Some (Ok (acc @ cs))
     | Some l \<Rightarrow> if ln_IsLastPage l then Some (Ok (acc @ cs))
         else (case ln_CurrentPage l of
             Err e \<Rightarrow> Some (Err e)
           | Panic p \<Rightarrow> Some (Panic p)
           | Ok currentPage \<Rightarrow> list_pages api (currentPage + 1) (acc @ cs))))"

declare list_pages.simps [code]

definition listAllKubernetesClusters :: "do_client \<Rightarrow> doks_cluster list res option" where
  "listAllKubernetesClusters client = list_pages (dc_List client) 0 []"

definition do_path :: "string \<Rightarrow> doks_cluster \<Rightarrow> string" where
  "do_path ctx c = triple_path ''do_'' ctx (dk_Region c) (dk_Name c)"

definition node_pools :: "string list \<Rightarrow> string" where
  "node_pools pools = fold (\<lambda>p s. s @ '' '' @ p) pools ''['' @ '']''"

definition do_tags :: "string \<Rightarrow> doks_cluster \<Rightarrow> tags" where
  "do_tags ctx c = [(''id'', dk_ID c), (''ctx'', ctx), (''name'', dk_Name c), (''region'', dk_Region c),
     (''version'', dk_Version c), (''pools'', node_pools (dk_Pools c))]"

definition do_results :: "string \<Rightarrow> doks_cluster list res \<Rightarrow> SearchResult list res" where
  "do_results ctx r = (case r of
     Panic p \<Rightarrow> Panic p
   | Err e \<Rightarrow> Ok [search_error (Wrapf ''error listing DOKS clusters for context %s: %w'' [ctx] e)]
   | Ok clusters \<Rightarrow> Ok (map (\<lambda>c. found (do_path ctx c) (do_tags ctx c)) clusters))"

text \<open>
  The accounts are searched in parallel; here the results of one account follow those of another. The search
  ends when every account has been listed.
\<close>

fun do_contexts :: "(string \<times> do_client) list \<Rightarrow> SearchResult list res option" where
  "do_contexts [] = Some (Ok [])"
| "do_contexts ((ctx, client) # rest) = (case (listAllKubernetesClusters client, do_contexts rest) of
     (Some r, Some rs) \<Rightarrow> Some (bindR (do_results ctx r) (\<lambda>xs. mapR ((@) xs) rs))
   | _ \<Rightarrow> None)"

definition do_StartSearch :: "do_connect \<Rightarrow> do_store \<Rightarrow> SearchResult list res option" where
  "do_StartSearch connect s = (case do_ensure connect s of
     Panic p \<Rightarrow> Some (Panic p)
   | Err e \<Rightarrow> Some (Ok [search_error (Wrapf ''failed to initialize store: %w'' [] e)])
   | Ok (m, s1) \<Rightarrow> do_contexts m)"

definition parseDigitalOceanIdentifier :: "string \<Rightarrow> (string \<times> string \<times> string) res" where
  "parseDigitalOceanIdentifier path = mapR (\<lambda>(a, b, c). (TrimPrefix a ''do_'', b, c)) (parse_triple path)"

definition do_GetContextPrefix :: "do_store \<Rightarrow> string \<Rightarrow> string" where
  "do_GetContextPrefix s path = (if \<not> shows_prefix (do_Base s) then []
     else case parseDigitalOceanIdentifier path of Ok (ctx, _) \<Rightarrow> ''do_'' @ ctx | _ \<Rightarrow> ''do_'')"

definition do_target :: "string \<Rightarrow> tags \<Rightarrow> (string \<times> string) res" where
  "do_target path tags = (case mget tags ''id'' of
     None \<Rightarrow> Err (Errorf ''failed to GetKubeconfigForPath: %s. Required cluster ID not found in the metadata tags: %v'' [path])
   | Some clusterID \<Rightarrow> (case mget tags ''ctx'' of
       None \<Rightarrow> Err (Errorf ''failed to GetKubeconfigForPath: %s. Required doctl context name not found in the metadata tags: %v'' [path])
     | Some ctx \<Rightarrow> Ok (ctx, clusterID)))"

definition do_GetKubeconfigForPath :: "do_connect \<Rightarrow> do_store \<Rightarrow> string \<Rightarrow> tags \<Rightarrow> string res" where
  "do_GetKubeconfigForPath connect s path tags =
     bindR (wrapR ''failed to initialize Digital Ocean store: %w'' [] (do_ensure connect s)) (\<lambda>(m, s1).
     bindR (do_target path tags) (\<lambda>(ctx, clusterID). case mget m ctx of
       None \<Rightarrow> Err (Errorf ''failed to GetKubeconfigForPath: %s. No Digital Ocean client for context %q'' [path, ctx])
     | Some client \<Rightarrow>
         wrapR ''failed to obtain kubeconfig for DOKS cluster (context: %s, region: %s, DOKS cluster name: %s, cluster_id: %s): %w''
           [ctx, mgets tags ''region'', mgets tags ''name'', clusterID] (dc_GetKubeConfig client clusterID)))"

definition do_GetSearchPreview :: "tree_printer \<Rightarrow> tags \<Rightarrow> string" where
  "do_GetSearchPreview print_tree tags = print_tree (''DOKS: '' @ mgets tags ''name'')
     (opt_line ''ID: '' (mget tags ''id'') @ opt_line ''doctl context: '' (mget tags ''ctx'') @
      opt_line ''Kubernetes Version: '' (mget tags ''version'') @ opt_line ''Region: '' (mget tags ''region'') @
      opt_line ''Node Pools: '' (mget tags ''pools''))"

interpretation doks: fetchable "\<lambda>(ctx, c). do_path ctx c" "\<lambda>(ctx, c). do_tags ctx c" do_target "\<lambda>(ctx, c). (ctx, dk_ID c)" "\<lambda>_. True"
  by unfold_locales (auto simp: do_target_def do_tags_def)

section \<open>The listing ends and is complete\<close>

text \<open>
  An API that serves the pages \<^verbatim>\<open>ps\<close>: page 0 means the first one, a page has its number in its links and the last
  one says that it is the last, or has no links.
\<close>

definition serves :: "(int \<Rightarrow> ('c list \<times> page_links option) res) \<Rightarrow> 'c list list \<Rightarrow> bool" where
  "serves api ps \<longleftrightarrow> ps \<noteq> [] \<and> api 0 = api 1 \<and>
     (\<forall>k < length ps. \<exists>links. api (int k + 1) = Ok (ps ! k, links) \<and>
        (case links of None \<Rightarrow> Suc k = length ps
         | Some l \<Rightarrow> ln_IsLastPage l = (Suc k = length ps) \<and> ln_CurrentPage l = Ok (int k + 1)))"

lemma list_pages_from:
  assumes "serves api ps" and "k < length ps"
  shows "list_pages api (int k + 1) acc = Some (Ok (acc @ concat (drop k ps)))"
  using assms(2)
proof (induction "length ps - k" arbitrary: k acc)
  case 0
  then show ?case by simp
next
  case (Suc m)
  obtain links where l: "api (int k + 1) = Ok (ps ! k, links)"
    "case links of None \<Rightarrow> Suc k = length ps | Some l \<Rightarrow> ln_IsLastPage l = (Suc k = length ps) \<and> ln_CurrentPage l = Ok (int k + 1)"
    using assms(1) Suc.prems unfolding serves_def by blast
  have d: "drop k ps = ps ! k # drop (Suc k) ps" using Suc.prems by (simp add: Cons_nth_drop_Suc)
  show ?case
  proof (cases "Suc k = length ps")
    case True
    then have "concat (drop k ps) = ps ! k" using d by simp
    then show ?thesis using l True by (subst list_pages.simps) (auto split: option.splits)
  next
    case False
    then have k: "Suc k < length ps" using Suc.prems by simp
    obtain lk where lk: "links = Some lk" "\<not> ln_IsLastPage lk" "ln_CurrentPage lk = Ok (int k + 1)"
      using l(2) False by (auto split: option.splits)
    have "list_pages api (int (Suc k) + 1) (acc @ ps ! k) = Some (Ok ((acc @ ps ! k) @ concat (drop (Suc k) ps)))"
      by (rule Suc.hyps(1)) (use Suc.hyps(2) k in auto)
    then show ?thesis using l(1) lk d by (subst list_pages.simps) (simp add: algebra_simps)
  qed
qed

lemma all_pages:
  assumes "serves (dc_List client) ps"
  shows "listAllKubernetesClusters client = Some (Ok (concat ps))"
proof -
  have "list_pages (dc_List client) 0 [] = list_pages (dc_List client) (int 0 + 1) []"
    using assms by (subst (1 2) list_pages.simps) (simp add: serves_def)
  also have "\<dots> = Some (Ok (concat ps))"
    using list_pages_from [OF assms, of 0 "[]"] assms by (simp add: serves_def)
  finally show ?thesis by (simp add: listAllKubernetesClusters_def)
qed

text \<open>
  C7. The loop over the pages of an account ends, and gives the clusters of all pages in their order.
\<close>

theorem listAllKubernetesClusters_ends:
  assumes "serves (dc_List client) ps"
  shows "listAllKubernetesClusters client = Some (Ok (concat ps))"
  using assms by (rule all_pages)

text \<open>
  Every account has a client: after a successful initialisation these are the clients of exactly the default context
  and the configured ones, and a search sends the clusters of each of them, which are fetched again through
  the client of their account by their id.
\<close>

lemma add_clients_dom:
  assumes "foldR (add_client connect c) xs m = Ok m'"
  shows "fst ` set m' = fst ` set m \<union> fst ` set xs"
  using assms
proof (induction xs arbitrary: m)
  case (Cons x xs)
  obtain name token where x: "x = (name, token)" by (cases x)
  obtain cl where "foldR (add_client connect c) xs (mset name cl m) = Ok m'" using Cons.prems by (auto simp: x add_client_def)
  from Cons.IH [OF this] show ?case by (auto simp: x dom_update)
qed simp

theorem do_initialize_accounts:
  assumes "do_initialize connect c = Ok m"
  shows "fst ` set m = insert (DefaultContextName c) (fst ` set (AuthContexts c))"
proof -
  obtain cl where "foldR (add_client connect c) (AuthContexts c) [(DefaultContextName c, cl)] = Ok m"
    using assms by (auto simp: do_initialize_def)
  from add_clients_dom [OF this] show ?thesis by simp
qed

lemma do_contexts_all:
  assumes "\<forall>(ctx, client) \<in> set m. serves (dc_List client) (pages ctx)"
  shows "do_contexts m = Some (Ok (concat (map (\<lambda>(ctx, client). map (\<lambda>c. found (do_path ctx c) (do_tags ctx c)) (concat (pages ctx))) m)))"
  using assms by (induction m) (auto simp: all_pages do_results_def)

theorem do_search_fetched:
  assumes "do_ensure connect s = Ok (m, s1)" and "\<forall>(ctx, client) \<in> set m. serves (dc_List client) (pages ctx)" and "wf_map m"
  shows "do_StartSearch connect s =
      Some (Ok (concat (map (\<lambda>(ctx, client). map (\<lambda>c. found (do_path ctx c) (do_tags ctx c)) (concat (pages ctx))) m))) \<and>
    (\<forall>(ctx, client) \<in> set m. \<forall>c k. dc_GetKubeConfig client (dk_ID c) = Ok k \<longrightarrow>
       do_GetKubeconfigForPath connect s (do_path ctx c) (do_tags ctx c) = Ok k)"
proof (intro conjI)
  show "do_StartSearch connect s =
      Some (Ok (concat (map (\<lambda>(ctx, client). map (\<lambda>c. found (do_path ctx c) (do_tags ctx c)) (concat (pages ctx))) m)))"
    using assms(1) do_contexts_all [OF assms(2)] by (simp add: do_StartSearch_def)
  show "\<forall>(ctx, client) \<in> set m. \<forall>c k. dc_GetKubeConfig client (dk_ID c) = Ok k \<longrightarrow>
       do_GetKubeconfigForPath connect s (do_path ctx c) (do_tags ctx c) = Ok k"
  proof clarify
    fix ctx client k and c :: doks_cluster assume "(ctx, client) \<in> set m" and k: "dc_GetKubeConfig client (dk_ID c) = Ok k"
    then have "mget m ctx = Some client" using assms(3) by (simp add: wf_map_mem)
    moreover have "do_target (do_path ctx c) (do_tags ctx c) = Ok (ctx, dk_ID c)" using doks.target_sent [of "(ctx, c)"] by simp
    ultimately show "do_GetKubeconfigForPath connect s (do_path ctx c) (do_tags ctx c) = Ok k"
      using assms(1) k by (simp add: do_GetKubeconfigForPath_def)
  qed
qed

text \<open>The prefix of a path is the account that the path was sent for.\<close>

theorem do_prefix_of_path:
  assumes "shows_prefix (do_Base s)" and "part_ok ctx" and "part_ok (dk_Region c)" and "\<not> Contains (dk_Name c) ''--''"
  shows "do_GetContextPrefix s (do_path ctx c) = ''do_'' @ ctx"
  using assms
  by (simp add: do_GetContextPrefix_def parseDigitalOceanIdentifier_def do_path_def parse_triple_prefixed TrimPrefix_def HasPrefix_def)

section \<open>Witnesses\<close>

definition doks_sample :: "string \<Rightarrow> doks_cluster" where
  "doks_sample i = \<lparr>dk_ID = i, dk_Name = ''c'' @ i, dk_Region = ''fra1'', dk_Version = ''1.31'', dk_Pools = [''a'', ''b'']\<rparr>"

definition doks_two_pages :: do_client where
  "doks_two_pages = \<lparr>dc_List = (\<lambda>p. if p \<le> 1 then Ok ([doks_sample ''1''], Some \<lparr>ln_IsLastPage = False, ln_CurrentPage = Ok 1\<rparr>)
       else Ok ([doks_sample ''2''], Some \<lparr>ln_IsLastPage = True, ln_CurrentPage = Ok 2\<rparr>)),
     dc_GetKubeConfig = Ok\<rparr>"

lemma listAllKubernetesClusters_ends_witness:
  "listAllKubernetesClusters doks_two_pages = Some (Ok [doks_sample ''1'', doks_sample ''2''])"
proof -
  have "serves (dc_List doks_two_pages) [[doks_sample ''1''], [doks_sample ''2'']]"
    by (auto simp: serves_def doks_two_pages_def less_Suc_eq nth_Cons')
  from listAllKubernetesClusters_ends [OF this] show ?thesis by simp
qed

end
