(* ===== verification/PathElems.thy ===== *)
theory PathElems
  imports StoreContracts
begin

text \<open>
  Paths as lists of plain elements: the string of such a path, and what \<^verbatim>\<open>path.Join\<close>, \<^verbatim>\<open>filepath.Base\<close> and
  \<^verbatim>\<open>strings.HasPrefix\<close> give on it. The vault store and the file system store share these.
\<close>

section \<open>Paths as lists of elements\<close>

lemma Join_append: "xs \<noteq> [] \<Longrightarrow> ys \<noteq> [] \<Longrightarrow> Join (xs @ ys) sep = Join xs sep @ sep @ Join ys sep"
  by (induction xs rule: induct_list012) (auto simp: Join_Cons)

lemma Join_concat:
  "list_all (\<lambda>es. es \<noteq> []) ess \<Longrightarrow> Join (map (\<lambda>es. Join es sep) ess) sep = Join (concat ess) sep"
proof (induction ess)
  case (Cons es ess)
  then show ?case by (cases ess) (simp_all add: Join_Cons Join_append)
qed simp

lemma JoinPath_elems:
  assumes "list_all (\<lambda>es. es \<noteq> []) (es # ess)" and "hd es \<noteq> []"
    and "list_all (\<lambda>e. e = [] \<or> plain_elem e) (concat (es # ess))"
  shows "JoinPath (map (\<lambda>es. Join es slash) (es # ess)) = Join (filter (\<lambda>e. e \<noteq> []) (concat (es # ess))) slash"
proof -
  obtain e r where es: "es = e # r" "e \<noteq> []" using assms(1,2) by (cases es) auto
  have "Join es slash \<noteq> []" using es by (cases r) auto
  then have "JoinPath (map (\<lambda>es. Join es slash) (es # ess)) = Clean (Join (map (\<lambda>es. Join es slash) (es # ess)) slash)"
    by (simp add: JoinPath_def)
  also have "\<dots> = Clean (Join (e # r @ concat ess) slash)"
    using Join_concat [OF assms(1), of slash] es(1) by simp
  also have "\<dots> = Join (filter (\<lambda>e. e \<noteq> []) (e # r @ concat ess)) slash"
    using assms(3) es by (intro Clean_plain_elems) auto
  finally show ?thesis using es(1) by simp
qed

text \<open>A path of plain elements; the mount is its first element.\<close>

definition plain_path :: "string list \<Rightarrow> bool" where
  "plain_path es \<longleftrightarrow> es \<noteq> [] \<and> list_all plain_elem es"

definition path_str :: "string list \<Rightarrow> string" where
  "path_str es = Join es slash"

lemma plain_elem_ne: "plain_elem e \<Longrightarrow> e \<noteq> []"
  by (simp add: plain_elem_def)

lemma filter_plain [simp]: "list_all plain_elem es \<Longrightarrow> filter (\<lambda>e. e \<noteq> []) es = es"
  by (induction es) (auto simp: plain_elem_ne)

lemma plain_or_empty: "list_all plain_elem es \<Longrightarrow> list_all (\<lambda>e. e = [] \<or> plain_elem e) es"
  by (simp add: list_all_iff)

lemma path_str_Cons: "r \<noteq> [] \<Longrightarrow> path_str (m # r) = m @ CHR ''/'' # path_str r"
  by (simp add: path_str_def Join_Cons)

lemma path_str_single [simp]: "path_str [m] = m"
  by (simp add: path_str_def)

lemma join_child:
  assumes "plain_path es" "plain_elem n"
  shows "JoinPath [path_str es, n] = path_str (es @ [n])" and "JoinPath [path_str es, n @ ''/''] = path_str (es @ [n])"
proof -
  have es: "es \<noteq> []" "list_all plain_elem es" "hd es \<noteq> []" "n \<noteq> []"
    using assms by (cases es; simp add: plain_path_def plain_elem_ne)+
  show "JoinPath [path_str es, n] = path_str (es @ [n])"
    using JoinPath_elems [of es "[[n]]"] es assms(2) by (simp add: path_str_def plain_or_empty)
  show "JoinPath [path_str es, n @ ''/''] = path_str (es @ [n])"
    using JoinPath_elems [of es "[[n, []]]"] es assms(2) by (simp add: path_str_def plain_or_empty)
qed

lemma HasPrefix_upto_slash: "CHR ''/'' \<notin> set w \<Longrightarrow> HasPrefix (e @ CHR ''/'' # q) w \<longleftrightarrow> HasPrefix e w"
  by (auto simp: HasPrefix_prefix prefix_append prefix_Cons)

lemma takeWhile_tail_slash: "CHR ''/'' \<notin> set e \<Longrightarrow> takeWhile (\<lambda>x. x \<noteq> CHR ''/'') (e @ CHR ''/'' # t) = e"
  by (induction e) auto

end
