(* ===== verification/Vault.thy ===== *)
theory Vault
  imports PathElems Encoding GoGlob
begin

text \<open>
  The vault store (\<^verbatim>\<open>pkg/store/kubeconfig_store_vault.go\<close>): its configuration, the traversal of the tree of secrets,
  the paths of the second version of the key-value engine, and reading a kubeconfig. The vault API is a record of
  its list and read requests. The directories of one level are searched in parallel; the model lists a directory's
  subtree where the directory is, which fixes one order of the results.
\<close>

section \<open>Values and requests\<close>

datatype vvalue = VStr string | VList "vvalue list" | VMap "(string, vvalue) gomap" | VNil | VOther string

record vault_client =
  vl_List :: "string \<Rightarrow> (string, vvalue) gomap option res"     \<comment> \<open>nothing: no response or no data\<close>
  vl_Read :: "string \<Rightarrow> (string, vvalue) gomap option res"

record vault_store =
  vs_Base :: BaseStore
  vs_Client :: vault_client
  vs_KeyKubeconfig :: string
  vs_KubeconfigName :: string
  vs_EngineVersion :: string
  vs_Paths :: "string list"

definition nonempty_or :: "string \<Rightarrow> string \<Rightarrow> string" where
  "nonempty_or a b = (if length a > 0 then a else b)"

text \<open>
  \<^verbatim>\<open>mk\<close> makes a client for an address and a token; \<^verbatim>\<open>os.UserHomeDir\<close> is \<^verbatim>\<open>HOME\<close>. Environment variables go
  before the token file, and before the flag and the configuration.
\<close>

definition NewVaultStore ::
    "(KubeconfigStore \<Rightarrow> StoreConfigVault res) \<Rightarrow> (string \<Rightarrow> string \<Rightarrow> vault_client res) \<Rightarrow>
     string \<Rightarrow> string \<Rightarrow> string \<Rightarrow> KubeconfigStore \<Rightarrow> vault_store io" where
  "NewVaultStore parse mk addressFromFlag tokenFileName kubeconfigName store =
     bindIO (liftR (parse store)) (\<lambda>config.
     bindIO (os_Getenv ''VAULT_ADDR'') (\<lambda>vaultAddress.
     let vaultAPI = nonempty_or vaultAddress (nonempty_or addressFromFlag (VaultAPIAddress config))
     in if length vaultAPI = 0
        then failIO (Errorf ''when using the vault kubeconfig store, the API address of the vault has to be provided either by command line argument, via environment variable or via SwitchConfig file'' [])
        else
          bindIO (os_Getenv ''HOME'') (\<lambda>home.
          bindIO (if home = [] then failIO (LibErr ''$HOME is not defined'')
                  else tryIO (os_ReadFile (home @ ''/'' @ tokenFileName)) returnIO (\<lambda>_. returnIO [])) (\<lambda>tokenFromFile.
          bindIO (os_Getenv ''VAULT_TOKEN'') (\<lambda>tokenEnv.
          let token = nonempty_or tokenEnv tokenFromFile
          in if length token = 0
             then failIO (Errorf ''when using the vault kubeconfig store, a vault API token must be provided'' [])
             else bindIO (liftR (mk vaultAPI token)) (\<lambda>client.
               returnIO \<lparr>vs_Base = \<lparr>base_Kind = StoreKindVault, base_KubeconfigStore = store\<rparr>, vs_Client = client,
                 vs_KeyKubeconfig = nonempty_or (VaultKeyKubeconfig config) ''config'', vs_KubeconfigName = kubeconfigName,
                 vs_EngineVersion = nonempty_or (VaultEngineVersion config) ''v1'', vs_Paths = []\<rparr>))))))"

definition vault_GetContextPrefix :: "vault_store \<Rightarrow> string \<Rightarrow> string" where
  "vault_GetContextPrefix s path = (if \<not> shows_prefix (vs_Base s) then [] else BasePath path)"

section \<open>The paths of the second engine version\<close>

definition TrimSuffix :: "string \<Rightarrow> string \<Rightarrow> string" where
  "TrimSuffix s suf = (if HasSuffix s suf then take (length s - length suf) s else s)"

definition shimKVv2Path :: "string \<Rightarrow> string \<Rightarrow> string" where
  "shimKVv2Path rawPath mountPath =
     (if rawPath = mountPath \<or> rawPath = TrimSuffix mountPath ''/'' then JoinPath [mountPath, ''data'']
      else let p = TrimPrefix rawPath mountPath
        in if HasPrefix p ''data/'' \<or> HasPrefix p ''metadata/'' then rawPath else JoinPath [mountPath, ''data'', p])"

definition shimKvV2ListPath :: "string \<Rightarrow> string \<Rightarrow> string" where
  "shimKvV2ListPath rawPath mountPath0 =
     (let mountPath = TrimSuffix mountPath0 ''/''
      in if HasPrefix rawPath (JoinPath [mountPath, ''metadata'']) then rawPath
         else if rawPath = mountPath then JoinPath [mountPath, ''metadata'']
         else JoinPath [mountPath, ''metadata'', TrimPrefix rawPath mountPath])"

definition shimKVv2Metadata :: "string \<Rightarrow> string" where
  "shimKVv2Metadata path = ReplaceAll path ''metadata/'' []"

text \<open>The mount is the first element of the path.\<close>

definition mount_of :: "string \<Rightarrow> string" where
  "mount_of path = (case Cut path ''/'' of None \<Rightarrow> path | Some (m, _) \<Rightarrow> m)"

definition list_path :: "vault_store \<Rightarrow> string \<Rightarrow> string" where
  "list_path s path = (if vs_EngineVersion s = ''v2'' then shimKvV2ListPath path (mount_of path) else path)"

definition read_path :: "vault_store \<Rightarrow> string \<Rightarrow> string" where
  "read_path s path = (if vs_EngineVersion s = ''v2'' then shimKVv2Path path (mount_of path) else path)"

section \<open>Verification and search\<close>

fun verify_paths :: "vault_store \<Rightarrow> string list \<Rightarrow> string set \<Rightarrow> string list \<Rightarrow> string list res" where
  "verify_paths s [] seen acc = Ok acc"
| "verify_paths s (path # ps) seen acc =
     (if path \<in> seen then verify_paths s ps seen acc
      else bindR (vl_Read (vs_Client s) (list_path s path)) (\<lambda>_.
        verify_paths s ps (insert path seen) (acc @ [list_path s path])))"

definition vault_VerifyKubeconfigPaths :: "vault_store \<Rightarrow> vault_store res" where
  "vault_VerifyKubeconfigPaths s = mapR (\<lambda>ps. s\<lparr>vs_Paths := ps\<rparr>)
     (verify_paths s (ks_Paths (base_KubeconfigStore (vs_Base s))) {} (vs_Paths s))"

text \<open>The keys of a directory, if the response is as expected.\<close>

fun key_names :: "vvalue list \<Rightarrow> string list option" where
  "key_names [] = Some []"
| "key_names (VStr k # vs) = map_option ((#) k) (key_names vs)"
| "key_names (_ # vs) = None"

datatype listing = Leaf | Unlisted | Dir "string list"

definition list_dir :: "vault_client \<Rightarrow> string \<Rightarrow> listing" where
  "list_dir c secretPath = (case vl_List c secretPath of
     Ok None \<Rightarrow> Leaf
   | Ok (Some d) \<Rightarrow> (case mget d ''keys'' of
       Some (VList vs) \<Rightarrow> (case key_names vs of Some ks \<Rightarrow> Dir (sort ks) | None \<Rightarrow> Unlisted)
     | _ \<Rightarrow> Unlisted)
   | _ \<Rightarrow> Unlisted)"

text \<open>
  \<^verbatim>\<open>recursivePathTraversal\<close>: the paths that are visited, directories included; a path that cannot be listed is
  left out. The fuel bounds the depth; \<^verbatim>\<open>None\<close> when it is not enough.
\<close>

fun concat_opt :: "'a list option list \<Rightarrow> 'a list option" where
  "concat_opt [] = Some []"
| "concat_opt (None # xs) = None"
| "concat_opt (Some x # xs) = map_option ((@) x) (concat_opt xs)"

fun traverse :: "nat \<Rightarrow> vault_client \<Rightarrow> string \<Rightarrow> string list option" where
  "traverse 0 c secretPath = None"
| "traverse (Suc n) c secretPath = (case list_dir c secretPath of
     Leaf \<Rightarrow> Some [shimKVv2Metadata secretPath]
   | Unlisted \<Rightarrow> Some []
   | Dir keys \<Rightarrow> concat_opt (map (\<lambda>key. let child = JoinPath [secretPath, key]
       in if HasSuffix key ''/'' then map_option ((#) child) (traverse n c child) else Some [child]) keys))"

definition vault_StartSearch :: "nat \<Rightarrow> vault_store \<Rightarrow> SearchResult list option" where
  "vault_StartSearch fuel s = map_option (map (\<lambda>p. found (shimKVv2Metadata p) []))
     (concat_opt (map (\<lambda>path. traverse fuel (vs_Client s) (list_path s path)) (vs_Paths s)))"

section \<open>Reading a kubeconfig\<close>

definition getBytesFromSecretValue :: "vvalue \<Rightarrow> string res" where
  "getBytesFromSecretValue v = (case v of
     VStr d \<Rightarrow> (case b64_Decode d of Ok decoded \<Rightarrow> Ok decoded | _ \<Rightarrow> Ok d)
   | _ \<Rightarrow> Err (Errorf ''failed to marshal value into string'' []))"

definition vault_value :: "vault_store \<Rightarrow> string \<Rightarrow> (string, vvalue) gomap \<Rightarrow> string res" where
  "vault_value s secretsPath d =
     (if vs_EngineVersion s = ''v1'' then
        (case d of
           [(secretKey, v)] \<Rightarrow> bindR (path_Match (vs_KubeconfigName s) secretKey) (\<lambda>matched.
             if \<not> matched then Err (Errorf ''cannot read kubeconfig from %q. Key %q does not match desired kubeconfig name'' [secretsPath, vs_KubeconfigName s])
             else bindR (wrapR ''cannot read kubeconfig from %q: %w'' [secretsPath] (getBytesFromSecretValue v)) (\<lambda>bytes.
               if length bytes = 0 then Err (Errorf ''kubeconfig is empty from %q'' [secretsPath]) else Ok bytes))
         | _ \<Rightarrow> Err (Errorf ''cannot read kubeconfig from %q. Only support one entry in the secret if we using v1'' [secretsPath]))
      else (case mget d ''data'' of
          None \<Rightarrow> Err (Errorf ''cannot read kubeconfig from %q: secret is empty'' [secretsPath])
        | Some VNil \<Rightarrow> Err (Errorf ''cannot read kubeconfig from %q: secret is empty'' [secretsPath])
        | Some (VMap m) \<Rightarrow> (case mget m (vs_KeyKubeconfig s) of
            None \<Rightarrow> Err (Errorf ''should not happen'' [])
          | Some v \<Rightarrow> wrapR ''cannot read kubeconfig from %q: %w'' [secretsPath] (getBytesFromSecretValue v))
        | Some _ \<Rightarrow> Err (Errorf ''cannot read kubeconfig from %q: unexpected data type %T'' [secretsPath])))"

definition vault_GetKubeconfigForPath :: "vault_store \<Rightarrow> string \<Rightarrow> tags \<Rightarrow> string res" where
  "vault_GetKubeconfigForPath s path tags = (let secretsPath = read_path s path
     in bindR (wrapR ''could not read secret with path '%s': %w'' [secretsPath] (vl_Read (vs_Client s) secretsPath)) (\<lambda>secret.
        case secret of None \<Rightarrow> Err (Errorf ''no kubeconfig found for path %s'' [secretsPath])
        | Some d \<Rightarrow> vault_value s secretsPath d))"

section \<open>The words metadata and data\<close>

lemma plain_words [simp]: "plain_elem ''metadata''" "plain_elem ''data''"
  by (simp_all add: plain_elem_def)

lemma mount_of_path: "plain_elem m \<Longrightarrow> mount_of (path_str (m # r)) = m"
  by (cases "r = []") (auto simp: mount_of_def path_str_Cons Cut_single Cut_None_single plain_elem_def)

lemma trim_mount: "plain_elem m \<Longrightarrow> TrimSuffix m ''/'' = m"
  by (auto simp: TrimSuffix_def HasSuffix_iff plain_elem_def)

lemma join_below:
  assumes "plain_elem m" "plain_elem w" "plain_path r"
  shows "JoinPath [m, w, CHR ''/'' # path_str r] = path_str (m # w # r)"
proof -
  have "CHR ''/'' # path_str r = Join ([] # r) slash"
    using assms(3) by (simp add: path_str_def plain_path_def Join_Cons)
  then show ?thesis
    using JoinPath_elems [of "[m]" "[[w], [] # r]"] assms
    by (simp add: path_str_def plain_path_def plain_elem_ne plain_or_empty)
qed

lemma join_mount: "plain_elem m \<Longrightarrow> plain_elem w \<Longrightarrow> JoinPath [m, w] = path_str [m, w]"
  using JoinPath_elems [of "[m]" "[[w]]"] by (simp add: path_str_def plain_elem_ne)

lemma list_path_spec:
  assumes "vs_EngineVersion s = ''v2''" "plain_elem m" "plain_path r" "\<not> HasPrefix (hd r) ''metadata''"
  shows "list_path s (path_str (m # r)) = path_str (m # ''metadata'' # r)"
proof -
  have r: "r \<noteq> []" using assms(3) by (simp add: plain_path_def)
  have "\<not> HasPrefix (path_str (m # r)) (path_str [m, ''metadata''])"
  proof
    assume "HasPrefix (path_str (m # r)) (path_str [m, ''metadata''])"
    then obtain t where t: "path_str r = ''metadata'' @ t"
      using r by (auto simp: path_str_Cons HasPrefix_iff)
    obtain e q where eq: "r = e # q" using r by (cases r) auto
    have "HasPrefix (path_str r) ''metadata''" using t by (auto simp: HasPrefix_iff)
    then have "HasPrefix e ''metadata''"
      using eq HasPrefix_upto_slash [of "''metadata''" e "path_str q"] by (cases "q = []") (simp_all add: path_str_Cons)
    then show False using assms(4) eq by simp
  qed
  moreover have "path_str (m # r) \<noteq> m" "TrimPrefix (path_str (m # r)) m = CHR ''/'' # path_str r"
    using r by (simp_all add: path_str_Cons TrimPrefix_def HasPrefix_iff)
  ultimately show ?thesis
    using assms r join_below [of m "''metadata''" r]
    by (simp add: list_path_def mount_of_path shimKvV2ListPath_def trim_mount join_mount Let_def)
qed


lemma list_path_unchanged:
  assumes "vs_EngineVersion s = ''v2''" "plain_elem m"
  shows "list_path s (path_str (m # ''metadata'' # r)) = path_str (m # ''metadata'' # r)"
proof -
  have "\<exists>t. path_str (m # ''metadata'' # r) = path_str [m, ''metadata''] @ t"
    by (cases "r = []") (simp_all add: path_str_Cons)
  then have "HasPrefix (path_str (m # ''metadata'' # r)) (path_str [m, ''metadata''])"
    by (auto simp: HasPrefix_iff)
  then show ?thesis
    using assms by (simp add: list_path_def mount_of_path shimKvV2ListPath_def trim_mount join_mount Let_def)
qed

text \<open>\<^verbatim>\<open>data\<close> is inserted after the mount, also when it is there.\<close>

lemma read_path_spec:
  assumes "vs_EngineVersion s = ''v2''" "plain_elem m" "plain_path r"
  shows "read_path s (path_str (m # r)) = path_str (m # ''data'' # r)"
proof -
  have "r \<noteq> []" using assms(3) by (simp add: plain_path_def)
  then have "path_str (m # r) \<noteq> m" "TrimPrefix (path_str (m # r)) m = CHR ''/'' # path_str r"
    by (simp_all add: path_str_Cons TrimPrefix_def HasPrefix_iff)
  then show ?thesis
    using assms join_below [of m "''data''" r]
    by (simp add: read_path_def mount_of_path shimKVv2Path_def trim_mount HasPrefix_def Let_def)
qed

text \<open>Removing a word that ends in a slash: at the end of every element but the last.\<close>

fun strip_words :: "string \<Rightarrow> string list \<Rightarrow> string" where
  "strip_words w [] = []"
| "strip_words w [e] = e"
| "strip_words w (e # f # es) = (if HasSuffix e w then take (length e - length w) e else e @ slash) @ strip_words w (f # es)"

lemma Index_word:
  assumes "CHR ''/'' \<notin> set e" "CHR ''/'' \<notin> set w" "w \<noteq> []"
  shows "Index (e @ CHR ''/'' # t) (w @ slash) =
    (if HasSuffix e w then Some (length e - length w) else map_option (\<lambda>i. Suc (length e + i)) (Index t (w @ slash)))"
  using assms(1)
proof (induction e)
  case Nil
  have "\<not> HasPrefix (CHR ''/'' # t) (w @ slash)" using assms by (cases w) (auto simp: HasPrefix_def)
  then show ?case using assms(3) by (cases "Index t (w @ slash)") (simp_all add: HasSuffix_iff)
next
  case (Cons c e)
  have first: "HasPrefix (c # e @ CHR ''/'' # t) (w @ slash) \<longleftrightarrow> w = c # e"
  proof
    assume "HasPrefix (c # e @ CHR ''/'' # t) (w @ slash)"
    then obtain u where "(c # e) @ CHR ''/'' # t = w @ CHR ''/'' # u" by (auto simp: HasPrefix_iff)
    then have "takeWhile (\<lambda>x. x \<noteq> CHR ''/'') ((c # e) @ CHR ''/'' # t) = takeWhile (\<lambda>x. x \<noteq> CHR ''/'') (w @ CHR ''/'' # u)"
      by (rule arg_cong)
    then show "w = c # e" using assms(2) Cons.prems by (simp del: takeWhile.simps append_Cons add: takeWhile_tail_slash)
  qed (auto simp: HasPrefix_iff)
  show ?case
  proof (cases "w = c # e")
    case True
    then show ?thesis using first by (simp add: HasSuffix_iff)
  next
    case False
    then have "HasSuffix (c # e) w \<longleftrightarrow> HasSuffix e w"
      by (auto simp: HasSuffix_iff Cons_eq_append_conv)
    moreover have "HasSuffix e w \<Longrightarrow> length w \<le> length e" by (auto simp: HasSuffix_iff)
    ultimately show ?thesis using first False Cons by (auto simp: Suc_diff_le option.map_comp comp_def)
  qed
qed

lemma ReplaceAll_first:
  "old \<noteq> [] \<Longrightarrow> ReplaceAll s old [] = (case Cut s old of None \<Rightarrow> s | Some (a, b) \<Rightarrow> a @ ReplaceAll b old [])"
  unfolding ReplaceAll_def by (subst Split.simps) (auto simp: Join_Cons split: option.splits)

lemma ReplaceAll_word:
  assumes "CHR ''/'' \<notin> set e" "CHR ''/'' \<notin> set w" "w \<noteq> []"
  shows "ReplaceAll (e @ CHR ''/'' # t) (w @ slash) [] =
    (if HasSuffix e w then take (length e - length w) e else e @ slash) @ ReplaceAll t (w @ slash) []"
proof (cases "HasSuffix e w")
  case True
  then obtain u where "e = u @ w" by (auto simp: HasSuffix_iff)
  then show ?thesis using Index_word [OF assms, of t] True by (simp add: ReplaceAll_first Cut_def)
next
  case False
  then show ?thesis using Index_word [OF assms, of t]
    by (cases "Index t (w @ slash)") (simp_all add: ReplaceAll_first [of _ "e @ CHR ''/'' # t"] ReplaceAll_first [of _ t] Cut_def)
qed

lemma ReplaceAll_words:
  assumes "CHR ''/'' \<notin> set w" "w \<noteq> []"
  shows "list_all (\<lambda>e. CHR ''/'' \<notin> set e) es \<Longrightarrow> ReplaceAll (path_str es) (w @ slash) [] = strip_words w es"
proof (induction es rule: induct_list012)
  case 1
  then show ?case by (simp add: path_str_def ReplaceAll_first Cut_def)
next
  case (2 e)
  have "Index e (w @ slash) = None" unfolding Index_None using 2 by auto
  then show ?case by (simp add: ReplaceAll_first Cut_def)
next
  case (3 e f es)
  then show ?case using ReplaceAll_word [of e w "path_str (f # es)"] assms by (simp add: path_str_Cons)
qed

text \<open>An element that does not end in the word the store removes.\<close>

definition kept_elem :: "string \<Rightarrow> bool" where
  "kept_elem e \<longleftrightarrow> plain_elem e \<and> \<not> HasSuffix e ''metadata''"

lemma kept_plain: "list_all kept_elem es \<Longrightarrow> list_all plain_elem es"
  by (simp add: list_all_iff kept_elem_def)

lemma shim_words: "list_all plain_elem es \<Longrightarrow> shimKVv2Metadata (path_str es) = strip_words ''metadata'' es"
  using ReplaceAll_words [of "''metadata''" es] by (simp add: shimKVv2Metadata_def list_all_iff plain_elem_def)

lemma strip_words_kept: "list_all kept_elem es \<Longrightarrow> strip_words ''metadata'' es = path_str es"
  by (induction es rule: induct_list012) (auto simp: kept_elem_def path_str_def)

lemma shim_kept: "list_all kept_elem es \<Longrightarrow> shimKVv2Metadata (path_str es) = path_str es"
  by (simp add: shim_words strip_words_kept kept_plain)

lemma shim_metadata:
  assumes "list_all kept_elem (m # r)" "r \<noteq> []"
  shows "shimKVv2Metadata (path_str (m # ''metadata'' # r)) = path_str (m # r)"
proof -
  have "strip_words ''metadata'' (m # ''metadata'' # r) = m @ slash @ strip_words ''metadata'' r"
    using assms by (cases r) (simp_all add: kept_elem_def HasSuffix_iff)
  moreover have "strip_words ''metadata'' r = path_str r" using assms by (simp add: strip_words_kept)
  moreover have "list_all plain_elem (m # ''metadata'' # r)" using kept_plain [OF assms(1)] by simp
  ultimately show ?thesis
    using shim_words [of "m # ''metadata'' # r"] path_str_Cons [OF assms(2), of m] by (metis append_Cons append_Nil)
qed

section \<open>The search of a tree of secrets\<close>

text \<open>A tree as vault keeps it, the entries below its root in the order of a search, and a client that lists it.\<close>

datatype vtree = Secret | Folder "(string \<times> vtree) list"

fun is_folder :: "vtree \<Rightarrow> bool" where
  "is_folder (Folder ts) = True"
| "is_folder Secret = False"

fun tree_entries :: "vtree \<Rightarrow> string list list" where
  "tree_entries Secret = [[]]"
| "tree_entries (Folder ts) = concat (map (\<lambda>(n, t). (if is_folder t then [[n]] else []) @ map ((#) n) (tree_entries t)) ts)"

fun depth :: "vtree \<Rightarrow> nat" where
  "depth Secret = 1"
| "depth (Folder ts) = Suc (foldr max (map (\<lambda>(n, t). depth t) ts) 0)"

definition key_of :: "string \<times> vtree \<Rightarrow> string" where
  "key_of e = (if is_folder (snd e) then fst e @ slash else fst e)"

fun vault_serves :: "vault_client \<Rightarrow> string list \<Rightarrow> vtree \<Rightarrow> bool" where
  "vault_serves c es Secret = (list_dir c (path_str es) = Leaf)"
| "vault_serves c es (Folder ts) = (list_dir c (path_str es) = Dir (map key_of ts) \<and>
     list_all (\<lambda>(n, t). kept_elem n \<and> vault_serves c (es @ [n]) t) ts)"

lemma concat_opt_Some: "(\<And>x. x \<in> set xs \<Longrightarrow> f x = Some (g x)) \<Longrightarrow> concat_opt (map f xs) = Some (concat (map g xs))"
  by (induction xs) auto

lemma depth_child: "(n, t) \<in> set ts \<Longrightarrow> depth t \<le> foldr max (map (\<lambda>(n, t). depth t) ts) 0"
  by (induction ts) (auto simp: max.coboundedI2)

lemma no_slash_suffix: "plain_elem m \<Longrightarrow> \<not> HasSuffix m slash"
  by (auto simp: HasSuffix_iff plain_elem_def)

lemma traverse_tree:
  "vault_serves c es t \<Longrightarrow> plain_path es \<Longrightarrow> depth t \<le> n \<Longrightarrow> is_folder t \<Longrightarrow>
     traverse n c (path_str es) = Some (map (\<lambda>q. path_str (es @ q)) (tree_entries t))"
proof (induction c es t arbitrary: n rule: vault_serves.induct)
  case (2 c es ts)
  obtain k where k: "n = Suc k" using 2(4) by (cases n) auto
  let ?child = "\<lambda>key. let child = JoinPath [path_str es, key] in
     if HasSuffix key ''/'' then map_option ((#) child) (traverse k c child) else Some [child]"
  have "?child (key_of (m, t)) = Some (map (\<lambda>q. path_str (es @ q)) ((if is_folder t then [[m]] else []) @ map ((#) m) (tree_entries t)))"
    if m: "(m, t) \<in> set ts" for m t
  proof -
    have pm: "plain_elem m" and sv: "vault_serves c (es @ [m]) t"
      using 2(2) m by (auto simp: list_all_iff kept_elem_def)
    have pp: "plain_path (es @ [m])" using 2(3) pm by (simp add: plain_path_def)
    show ?thesis
    proof (cases t)
      case Secret
      then show ?thesis
        using join_child(1) [OF 2(3) pm] no_slash_suffix [OF pm] by (simp add: key_of_def)
    next
      case (Folder us)
      have "depth t \<le> k" using depth_child [OF m] 2(4) k by simp
      then have "traverse k c (path_str (es @ [m])) = Some (map (\<lambda>q. path_str ((es @ [m]) @ q)) (tree_entries t))"
        using 2(1) [OF m refl sv pp] Folder by simp
      then show ?thesis
        using join_child(2) [OF 2(3) pm] Folder by (simp add: key_of_def HasSuffix_iff comp_def del: tree_entries.simps)
    qed
  qed
  then have "concat_opt (map (\<lambda>e. ?child (key_of e)) ts) =
      Some (concat (map (\<lambda>(m, t). map (\<lambda>q. path_str (es @ q)) ((if is_folder t then [[m]] else []) @ map ((#) m) (tree_entries t))) ts))"
    by (intro concat_opt_Some) auto
  also have "\<dots> = Some (map (\<lambda>q. path_str (es @ q)) (tree_entries (Folder ts)))"
    by (simp add: map_concat comp_def case_prod_unfold)
  finally show ?case using 2(2) k by (simp add: comp_def)
qed simp

lemma entries_kept: "vault_serves c es t \<Longrightarrow> q \<in> set (tree_entries t) \<Longrightarrow> list_all kept_elem q"
proof (induction c es t arbitrary: q rule: vault_serves.induct)
  case (2 c es ts)
  then obtain n t where m: "(n, t) \<in> set ts" and q: "q \<in> set ((if is_folder t then [[n]] else []) @ map ((#) n) (tree_entries t))"
    by auto
  have k: "kept_elem n" "vault_serves c (es @ [n]) t" using 2(2) m by (auto simp: list_all_iff)
  from q consider "q = [n]" | q' where "q = n # q'" "q' \<in> set (tree_entries t)" by (auto split: if_splits)
  then show ?case using 2(1) [OF m refl k(2)] k(1) by cases auto
qed simp

text \<open>A store for one path below the mount, verified, searched and read.\<close>

definition vault_for :: "vault_client \<Rightarrow> string list \<Rightarrow> vault_store \<Rightarrow> bool" where
  "vault_for c es s \<longleftrightarrow> vs_Client s = c \<and> vs_EngineVersion s = ''v2'' \<and> vs_Paths s = [] \<and>
     ks_Paths (base_KubeconfigStore (vs_Base s)) = [path_str es] \<and> is_ok (vl_Read c (list_path s (path_str es)))"

lemma verify_one:
  assumes "vault_for c es s"
  shows "vault_VerifyKubeconfigPaths s = Ok (s\<lparr>vs_Paths := [list_path s (path_str es)]\<rparr>)"
  using assms by (auto simp: vault_for_def vault_VerifyKubeconfigPaths_def is_ok_iff)

text \<open>
  C13. A search of a vault store on the second engine version, configured with a path of at least one element below
  the mount: when the elements of that path and the names in the tree below it are plain and do not end in
  \<^verbatim>\<open>metadata\<close>, the first element below the mount does not begin with it, and the fuel covers the depth, the search after the verification sends every
  secret and every directory of the tree once, with the path the user knows (without \<^verbatim>\<open>metadata\<close>); and fetching a
  sent path reads the same entry below \<^verbatim>\<open>data\<close>.
\<close>

theorem vault_search_fetched:
  assumes store: "vault_for c (m # r) s" and names: "list_all kept_elem (m # r)" "r \<noteq> []"
    and meta: "\<not> HasPrefix (hd r) ''metadata''"
    and tree: "vault_serves c (m # ''metadata'' # r) t" "depth t \<le> fuel" "is_folder t"
  shows "(\<exists>s'. vault_VerifyKubeconfigPaths s = Ok s' \<and>
      vault_StartSearch fuel s' = Some (map (\<lambda>q. found (path_str (m # r @ q)) []) (tree_entries t)) \<and>
      list_all (\<lambda>q. read_path s' (path_str (m # r @ q)) = path_str (m # ''data'' # r @ q)) (tree_entries t))"
proof -
  let ?root = "path_str (m # ''metadata'' # r)" and ?s = "s\<lparr>vs_Paths := [path_str (m # ''metadata'' # r)]\<rparr>"
  have v2: "vs_EngineVersion s = ''v2''" and c: "vs_Client s = c" using store by (simp_all add: vault_for_def)
  have pm: "plain_elem m" and pr: "plain_path r"
    using names kept_plain [OF names(1)] by (simp_all add: plain_path_def)
  have "list_path s (path_str (m # r)) = ?root" using list_path_spec [OF v2 pm pr meta] .
  then have v: "vault_VerifyKubeconfigPaths s = Ok ?s" using verify_one [OF store] by simp
  have l: "list_path ?s ?root = ?root" using list_path_unchanged [of ?s m r] v2 pm by simp
  have pp: "plain_path (m # ''metadata'' # r)" using pm pr by (simp add: plain_path_def)
  have keep: "list_all kept_elem (m # r @ q)" if "q \<in> set (tree_entries t)" for q
    using entries_kept [OF tree(1) that] names(1) by simp
  have "vault_StartSearch fuel ?s =
      Some (map (\<lambda>q. found (shimKVv2Metadata (path_str (m # ''metadata'' # r @ q))) []) (tree_entries t))"
    using traverse_tree [OF tree(1) pp tree(2,3)] l c by (simp add: vault_StartSearch_def comp_def)
  also have "\<dots> = Some (map (\<lambda>q. found (path_str (m # r @ q)) []) (tree_entries t))"
    using shim_metadata [OF keep] names(2) by (simp cong: map_cong)
  finally have search: "vault_StartSearch fuel ?s = Some (map (\<lambda>q. found (path_str (m # r @ q)) []) (tree_entries t))" .
  have "read_path ?s (path_str (m # r @ q)) = path_str (m # ''data'' # r @ q)" if "q \<in> set (tree_entries t)" for q
  proof -
    have "plain_path (r @ q)" using kept_plain [OF keep [OF that]] names(2) by (simp add: plain_path_def)
    then show ?thesis using read_path_spec [of ?s m "r @ q"] v2 pm by simp
  qed
  then show ?thesis using v search by (auto simp: list_all_iff)
qed

text \<open>
  What the comments of the shims rule out happens: a path that has \<^verbatim>\<open>data\<close> after the mount gets it a second time,
  a first element that only begins like \<^verbatim>\<open>metadata\<close> is listed outside \<^verbatim>\<open>metadata\<close>, and an element that ends in
  \<^verbatim>\<open>metadata\<close> loses the word and the slash, on the first engine version too.
\<close>

theorem vault_shims_astray:
  "vs_EngineVersion s = ''v2'' \<Longrightarrow>
     read_path s ''secret/data/team'' = ''secret/data/data/team'' \<and>
     list_path s ''secret/metadatas/team'' = ''secret/metadatas/team'' \<and>
     shimKVv2Metadata ''secret/app-metadata/team'' = ''secret/app-team''"
proof -
  assume v2: "vs_EngineVersion s = ''v2''"
  have "read_path s (path_str [''secret'', ''data'', ''team'']) = path_str [''secret'', ''data'', ''data'', ''team'']"
    using read_path_spec [OF v2, of "''secret''" "[''data'', ''team'']"] by (simp add: plain_path_def plain_elem_def)
  moreover have "list_path s (path_str [''secret'', ''metadatas'', ''team'']) = path_str [''secret'', ''metadatas'', ''team'']"
    using v2 by (simp add: list_path_def path_str_def mount_of_def shimKvV2ListPath_def Cut_def JoinPath_def Clean_def
        HasPrefix_def TrimSuffix_def HasSuffix_def Let_def Split.simps clean_step_def)
  moreover have "shimKVv2Metadata (path_str [''secret'', ''app-metadata'', ''team'']) = ''secret/app-team''"
    by (subst shim_words) (simp_all add: plain_elem_def HasSuffix_iff)
  ultimately show ?thesis by (simp add: path_str_def)
qed

text \<open>Verifying a store again adds its paths again, so the next search sends everything twice.\<close>

theorem vault_verified_twice:
  assumes "vault_for c es s" and "list_path s (path_str es) = p"
  shows "bindR (vault_VerifyKubeconfigPaths s) vault_VerifyKubeconfigPaths = Ok (s\<lparr>vs_Paths := [p, p]\<rparr>)"
proof -
  have "list_path (s\<lparr>vs_Paths := ps\<rparr>) q = list_path s q" for ps q by (simp add: list_path_def)
  then show ?thesis
    using verify_one [OF assms(1)] assms by (auto simp: vault_VerifyKubeconfigPaths_def vault_for_def is_ok_iff)
qed

section \<open>Concrete inputs\<close>

definition sample_client :: vault_client where
  "sample_client = \<lparr>
     vl_List = (\<lambda>p. if p = ''secret/metadata/kube'' then Ok (Some [(''keys'', VList [VStr ''b'', VStr ''a/''])])
                    else if p = ''secret/metadata/kube/a'' then Ok (Some [(''keys'', VList [VStr ''c''])]) else Ok None),
     vl_Read = (\<lambda>p. Ok None)\<rparr>"

definition sample_store :: vault_store where
  "sample_store = \<lparr>vs_Base = \<lparr>base_Kind = StoreKindVault, base_KubeconfigStore = zero_store\<lparr>ks_Paths := [''secret/kube'']\<rparr>\<rparr>,
     vs_Client = sample_client, vs_KeyKubeconfig = ''config'', vs_KubeconfigName = ''config'', vs_EngineVersion = ''v2'', vs_Paths = []\<rparr>"

definition sample_tree :: vtree where
  "sample_tree = Folder [(''a'', Folder [(''c'', Secret)]), (''b'', Secret)]"

lemma vault_search_fetched_witness:
  "\<exists>s'. vault_VerifyKubeconfigPaths sample_store = Ok s' \<and>
     vault_StartSearch 3 s' = Some [found ''secret/kube/a'' [], found ''secret/kube/a/c'' [], found ''secret/kube/b'' []] \<and>
     read_path s' ''secret/kube/a'' = ''secret/data/kube/a'' \<and>
     read_path s' ''secret/kube/a/c'' = ''secret/data/kube/a/c'' \<and>
     read_path s' ''secret/kube/b'' = ''secret/data/kube/b''"
proof -
  have "vault_for sample_client (''secret'' # [''kube'']) sample_store"
    by (simp add: vault_for_def sample_store_def sample_client_def path_str_def is_ok_iff)
  moreover have "list_all kept_elem (''secret'' # [''kube''])" "\<not> HasPrefix (hd [''kube'']) ''metadata''"
    by (simp_all add: kept_elem_def plain_elem_def HasSuffix_def HasPrefix_def)
  moreover have "vault_serves sample_client (''secret'' # ''metadata'' # [''kube'']) sample_tree" by code_simp
  moreover have "depth sample_tree \<le> 3" "is_folder sample_tree" by code_simp+
  ultimately have "\<exists>s'. vault_VerifyKubeconfigPaths sample_store = Ok s' \<and>
      vault_StartSearch 3 s' = Some (map (\<lambda>q. found (path_str (''secret'' # [''kube''] @ q)) []) (tree_entries sample_tree)) \<and>
      list_all (\<lambda>q. read_path s' (path_str (''secret'' # [''kube''] @ q)) = path_str (''secret'' # ''data'' # [''kube''] @ q)) (tree_entries sample_tree)"
    by (intro vault_search_fetched) simp_all
  then show ?thesis by (simp add: sample_tree_def path_str_def)
qed

end
