(* ===== verification/FileStore.thy ===== *)
theory FileStore
  imports PathElems GoGlob
begin

text \<open>
  The file system store (\<^verbatim>\<open>pkg/store/kubeconfig_store_file.go\<close>): checking the configured paths, walking the
  directories, and reading a file. The search depends on symbolic links, so the file system here has them: a
  finite map from locations to files, directories and links, with the resolution of paths written out.
\<close>

section \<open>A file system with symbolic links\<close>

datatype lentry = LFile string | LDir | LLink string

text \<open>A location is below the root or, as the result of a relative path, below the working directory.\<close>

type_synonym loc = "bool \<times> string list"

record linkfs =
  lf_entries :: "(string list \<times> lentry) list"
  lf_cwd :: "string list"
  lf_deny :: "string list \<Rightarrow> oserr option"    \<comment> \<open>why reading this file or directory fails, if it does\<close>

definition abs_loc :: "linkfs \<Rightarrow> loc \<Rightarrow> string list" where
  "abs_loc fs l = (if fst l then fold (\<lambda>e st. if e = ''..'' then butlast st else st @ [e]) (snd l) (lf_cwd fs) else snd l)"

definition entry_at :: "linkfs \<Rightarrow> loc \<Rightarrow> lentry option" where
  "entry_at fs l = (if abs_loc fs l = [] then Some LDir else map_of (lf_entries fs) (abs_loc fs l))"

definition step_up :: "loc \<Rightarrow> loc" where
  "step_up l = (fst l, if snd l = [] \<or> last (snd l) = ''..'' then (if fst l then snd l @ [''..''] else []) else butlast (snd l))"

text \<open>At most \<^verbatim>\<open>n\<close> links are followed: 40 by the kernel, 255 by \<^verbatim>\<open>filepath.EvalSymlinks\<close>.\<close>

definition start_loc :: "string \<Rightarrow> loc \<Rightarrow> loc" where
  "start_loc p l = (if HasPrefix p slash then (False, []) else l)"

function (sequential) resolve :: "linkfs \<Rightarrow> nat \<Rightarrow> loc \<Rightarrow> string list \<Rightarrow> loc + oserr" where
  "resolve fs n l [] = Inl l"
| "resolve fs n l (c # cs) =
     (if c = [] \<or> c = ''.'' then resolve fs n l cs
      else if c = ''..'' then resolve fs n (step_up l) cs
      else let l' = (fst l, snd l @ [c]) in
        case entry_at fs l' of
          None \<Rightarrow> Inr ENOENT
        | Some LDir \<Rightarrow> resolve fs n l' cs
        | Some (LFile b) \<Rightarrow> if cs = [] then Inl l' else Inr ENOTDIR
        | Some (LLink t) \<Rightarrow> (case n of 0 \<Rightarrow> Inr (EOTHER ''ELOOP'')
            | Suc k \<Rightarrow> resolve fs k (start_loc t l) (Split t slash @ cs)))"
  by pat_completeness auto
termination
  by (relation "measures [\<lambda>(fs, n, l, cs). n, \<lambda>(fs, n, l, cs). length cs]") auto

definition resolve_path :: "linkfs \<Rightarrow> nat \<Rightarrow> string \<Rightarrow> loc res" where
  "resolve_path fs n p = (if p = [] then Err (PathErr ENOENT p)
     else case resolve fs n (start_loc p (True, [])) (Split p slash) of
       Inl l \<Rightarrow> Ok l | Inr e \<Rightarrow> Err (PathErr e p))"

definition EvalSymlinks :: "linkfs \<Rightarrow> string \<Rightarrow> loc res" where
  "EvalSymlinks fs p = resolve_path fs 255 p"

datatype fmode = MFile | MDir | MLink

definition mode_of :: "lentry \<Rightarrow> fmode" where
  "mode_of e = (case e of LFile b \<Rightarrow> MFile | LDir \<Rightarrow> MDir | LLink t \<Rightarrow> MLink)"

text \<open>\<^verbatim>\<open>os.Stat\<close> follows the last element too, \<^verbatim>\<open>os.Lstat\<close> does not.\<close>

definition fs_Stat :: "linkfs \<Rightarrow> string \<Rightarrow> fmode res" where
  "fs_Stat fs p = bindR (resolve_path fs 40 p) (\<lambda>l. case entry_at fs l of
     None \<Rightarrow> Err (PathErr ENOENT p) | Some e \<Rightarrow> Ok (mode_of e))"

definition fs_Lstat :: "linkfs \<Rightarrow> string \<Rightarrow> fmode res" where
  "fs_Lstat fs p = (let es = Split p slash; c = last es
     in if c = [] \<or> c = ''.'' \<or> c = ''..'' then fs_Stat fs p
        else case resolve fs 40 (start_loc p (True, [])) (butlast es) of
            Inr e \<Rightarrow> Err (PathErr e p)
          | Inl l \<Rightarrow> (case entry_at fs (fst l, snd l @ [c]) of
              None \<Rightarrow> Err (PathErr ENOENT p) | Some e \<Rightarrow> Ok (mode_of e)))"

text \<open>The entries of a directory, sorted by name.\<close>

definition dir_names :: "linkfs \<Rightarrow> string list \<Rightarrow> (string \<times> fmode) list" where
  "dir_names fs d = sort_key fst (List.map_filter (\<lambda>(q, e).
     if q \<noteq> [] \<and> butlast q = d then Some (last q, mode_of e) else None) (lf_entries fs))"

definition fs_ReadDir :: "linkfs \<Rightarrow> string \<Rightarrow> (string \<times> fmode) list res" where
  "fs_ReadDir fs p = bindR (resolve_path fs 40 p) (\<lambda>l. case entry_at fs l of
     Some LDir \<Rightarrow> (case lf_deny fs (abs_loc fs l) of
        Some e \<Rightarrow> Err (PathErr e p) | None \<Rightarrow> Ok (dir_names fs (abs_loc fs l)))
   | _ \<Rightarrow> Err (PathErr ENOTDIR p))"

definition fs_ReadFile :: "linkfs \<Rightarrow> string \<Rightarrow> string res" where
  "fs_ReadFile fs p = bindR (resolve_path fs 40 p) (\<lambda>l. case entry_at fs l of
     Some (LFile b) \<Rightarrow> (case lf_deny fs (abs_loc fs l) of Some e \<Rightarrow> Err (PathErr e p) | None \<Rightarrow> Ok b)
   | Some LDir \<Rightarrow> Err (PathErr EISDIR p)
   | _ \<Rightarrow> Err (PathErr ENOENT p))"

section \<open>The store\<close>

record filesystem_store =
  fst_Base :: BaseStore
  fst_KubeconfigName :: string
  fst_Directories :: "string list"
  fst_Filepaths :: "string list"

definition NewFilesystemStore :: "string \<Rightarrow> KubeconfigStore \<Rightarrow> filesystem_store res" where
  "NewFilesystemStore kubeconfigName store = Ok \<lparr>
     fst_Base = \<lparr>base_Kind = StoreKindFilesystem, base_KubeconfigStore = store\<rparr>, fst_KubeconfigName = kubeconfigName,
     fst_Directories = [], fst_Filepaths = []\<rparr>"

definition file_GetContextPrefix :: "filesystem_store \<Rightarrow> string \<Rightarrow> string" where
  "file_GetContextPrefix s path = (if \<not> shows_prefix (fst_Base s) then [] else BasePath (DirPath path))"

definition fs_GetKubeconfigForPath :: "linkfs \<Rightarrow> filesystem_store \<Rightarrow> string \<Rightarrow> tags \<Rightarrow> string res" where
  "fs_GetKubeconfigForPath fs s path tags = fs_ReadFile fs path"

text \<open>
  \<^verbatim>\<open>VerifyKubeconfigPaths\<close>: \<^verbatim>\<open>home\<close> is the home directory of \<^verbatim>\<open>user.Current()\<close>, or nothing when that call fails,
  whose error is not looked at. The files and the directories found so far are passed along.
\<close>

definition expand_home :: "string \<Rightarrow> string \<Rightarrow> string" where
  "expand_home homeDir path =
     (if path = ''~'' then homeDir else if HasPrefix path ''~/'' then JoinPath [homeDir, drop 2 path] else path)"

fun check_paths :: "linkfs \<Rightarrow> string \<Rightarrow> string list \<Rightarrow> string set \<Rightarrow> string list \<times> string list \<Rightarrow> (string list \<times> string list) res" where
  "check_paths fs homeDir [] seen (files, dirs) = Ok (files, dirs)"
| "check_paths fs homeDir (path # ps) seen (files, dirs) =
     (if path \<in> seen then check_paths fs homeDir ps seen (files, dirs)
      else let kubeconfigPath = expand_home homeDir path; seen' = insert path seen
        in case fs_Stat fs kubeconfigPath of
            Ok info \<Rightarrow> check_paths fs homeDir ps seen'
              (if info = MDir then (files, dirs @ [kubeconfigPath]) else (files @ [kubeconfigPath], dirs))
          | Err e \<Rightarrow> if IsNotExist e then check_paths fs homeDir ps seen' (files, dirs)
              else Err (Wrapf ''failed to read from the configured kubeconfig directory %q: %w'' [path] e)
          | Panic p \<Rightarrow> Panic p)"

definition file_VerifyKubeconfigPaths :: "linkfs \<Rightarrow> string option \<Rightarrow> filesystem_store \<Rightarrow> filesystem_store res" where
  "file_VerifyKubeconfigPaths fs home s = (case home of
     None \<Rightarrow> Panic ''invalid memory address or nil pointer dereference''
   | Some homeDir \<Rightarrow> bindR (check_paths fs homeDir (ks_Paths (base_KubeconfigStore (fst_Base s))) {} ([], [])) (\<lambda>(files, dirs).
       if dirs = [] \<and> files = [] then Err (Errorf ''none of the %d specified kubeconfig path(s) exist'' [])
       else Ok (s\<lparr>fst_Directories := dirs, fst_Filepaths := files\<rparr>)))"

section \<open>Walking a directory\<close>

text \<open>
  The walk carries the directories visited and the results sent. \<^verbatim>\<open>fn\<close> is called on what is not a link to a
  directory. The fuel bounds the depth of the calls; \<^verbatim>\<open>None\<close> when it is not enough.
\<close>

type_synonym 's walk = "loc set \<times> 's \<Rightarrow> (unit res \<times> loc set \<times> 's) option"

definition walk_ok :: "'s walk" where
  "walk_ok st = Some (Ok (), st)"

definition walk_call :: "('s \<Rightarrow> unit res \<times> 's) \<Rightarrow> 's walk" where
  "walk_call f st = (case f (snd st) of (r, s) \<Rightarrow> Some (r, fst st, s))"

definition walk_then :: "'s walk \<Rightarrow> 's walk \<Rightarrow> 's walk" where
  "walk_then m k st = (case m st of None \<Rightarrow> None | Some (r, st') \<Rightarrow> if r = Ok () then k st' else Some (r, st'))"

fun walk_each :: "('a \<Rightarrow> 's walk) \<Rightarrow> 'a list \<Rightarrow> 's walk" where
  "walk_each f [] = walk_ok"
| "walk_each f (x # xs) = walk_then (f x) (walk_each f xs)"

definition WalkDir :: "(string \<Rightarrow> fmode \<Rightarrow> 's walk) \<Rightarrow> linkfs \<Rightarrow> string \<Rightarrow> 's walk" where
  "WalkDir visit_from fs root st = (case fs_Lstat fs root of Ok k \<Rightarrow> visit_from root k st | Err e \<Rightarrow> Some (Err e, st) | Panic p \<Rightarrow> Some (Panic p, st))"

fun walkFollowSymlinksInner :: "nat \<Rightarrow> linkfs \<Rightarrow> (string \<Rightarrow> 's \<Rightarrow> unit res \<times> 's) \<Rightarrow> string \<Rightarrow> 's walk"
  and walk_visit :: "nat \<Rightarrow> linkfs \<Rightarrow> (string \<Rightarrow> 's \<Rightarrow> unit res \<times> 's) \<Rightarrow> string \<Rightarrow> fmode \<Rightarrow> 's walk" where
  "walkFollowSymlinksInner 0 fs fn root st = None"
| "walkFollowSymlinksInner (Suc n) fs fn root (visited, s) =
     (case EvalSymlinks fs root of
        Ok real \<Rightarrow> if real \<in> visited then walk_ok (visited, s)
          else WalkDir (walk_visit n fs fn) fs root (insert real visited, s)
      | _ \<Rightarrow> WalkDir (walk_visit n fs fn) fs root (visited, s))"
| "walk_visit 0 fs fn path k st = None"
| "walk_visit (Suc n) fs fn path k st = walk_then
     (\<lambda>st. if k = MLink then (case fs_Stat fs path of
          Ok info \<Rightarrow> if info = MDir then walkFollowSymlinksInner n fs fn path st else walk_call (fn path) st
        | _ \<Rightarrow> walk_ok st)
      else walk_call (fn path) st)
     (\<lambda>st. if k = MDir then (case fs_ReadDir fs path of
          Ok names \<Rightarrow> walk_each (\<lambda>(name, k'). walk_visit n fs fn (JoinPath [path, name]) k') names st
        | Err e \<Rightarrow> Some (Err e, st) | Panic p \<Rightarrow> Some (Panic p, st))
      else walk_ok st) st"

definition walkFollowSymlinks :: "nat \<Rightarrow> linkfs \<Rightarrow> string \<Rightarrow> (string \<Rightarrow> 's \<Rightarrow> unit res \<times> 's) \<Rightarrow> 's \<Rightarrow> (unit res \<times> 's) option" where
  "walkFollowSymlinks n fs root fn s = map_option (\<lambda>(r, _, s'). (r, s')) (walkFollowSymlinksInner n fs fn root ({}, s))"

section \<open>The search\<close>

definition send_if_matched :: "string \<Rightarrow> string \<Rightarrow> SearchResult list \<Rightarrow> unit res \<times> SearchResult list" where
  "send_if_matched pat osPathname sent = (case path_Match pat (BasePath osPathname) of
     Ok matched \<Rightarrow> (Ok (), if matched then sent @ [found osPathname []] else sent)
   | Err e \<Rightarrow> (Err e, sent) | Panic p \<Rightarrow> (Panic p, sent))"

definition searchDirectory :: "nat \<Rightarrow> linkfs \<Rightarrow> filesystem_store \<Rightarrow> string \<Rightarrow> SearchResult list option" where
  "searchDirectory n fs s searchPath = map_option (\<lambda>(r, sent). case r of
       Err e \<Rightarrow> sent @ [search_error (Wrapf ''failed to find kubeconfig files in directory: %w'' [] e)] | _ \<Rightarrow> sent)
     (walkFollowSymlinks n fs searchPath (send_if_matched (fst_KubeconfigName s)) [])"

text \<open>The directories are searched in parallel; the model sends their results one directory after the other.\<close>

definition file_StartSearch :: "nat \<Rightarrow> linkfs \<Rightarrow> filesystem_store \<Rightarrow> SearchResult list option" where
  "file_StartSearch n fs s = map_option ((@) (map (\<lambda>p. found p []) (fst_Filepaths s)))
     (foldr (\<lambda>d rest. case searchDirectory n fs s d of None \<Rightarrow> None | Some rs \<Rightarrow> map_option ((@) rs) rest)
        (fst_Directories s) (Some []))"

section \<open>Resolving plain paths\<close>

text \<open>
  What a file system guarantees: no location has two entries, names are plain, and the parent of an entry is a
  directory. A path string of elements is absolute.
\<close>

definition wf_fs :: "linkfs \<Rightarrow> bool" where
  "wf_fs fs \<longleftrightarrow> distinct (map fst (lf_entries fs)) \<and>
     list_all (\<lambda>(q, e). q \<noteq> [] \<and> list_all plain_elem q \<and> entry_at fs (False, butlast q) = Some LDir) (lf_entries fs)"

definition abs_str :: "string list \<Rightarrow> string" where
  "abs_str es = CHR ''/'' # path_str es"

lemma entry_abs: "es \<noteq> [] \<Longrightarrow> entry_at fs (False, es) = map_of (lf_entries fs) es"
  by (simp add: entry_at_def abs_loc_def)

lemma wf_entry:
  assumes "wf_fs fs" "(q, e) \<in> set (lf_entries fs)"
  shows "entry_at fs (False, q) = Some e" "plain_path q" "entry_at fs (False, butlast q) = Some LDir"
proof -
  have q: "q \<noteq> []" "list_all plain_elem q" "entry_at fs (False, butlast q) = Some LDir" "distinct (map fst (lf_entries fs))"
    using assms by (auto simp: wf_fs_def list_all_iff)
  then show "entry_at fs (False, q) = Some e" "plain_path q" "entry_at fs (False, butlast q) = Some LDir"
    using assms(2) by (auto simp: entry_abs plain_path_def)
qed

lemma wf_parent: "wf_fs fs \<Longrightarrow> entry_at fs (False, es @ [n]) = Some e \<Longrightarrow> entry_at fs (False, es) = Some LDir"
  using wf_entry(3) [of fs "es @ [n]" e] by (auto simp: entry_abs dest: map_of_SomeD)

lemma wf_ancestor: "wf_fs fs \<Longrightarrow> entry_at fs (False, es @ r) = Some LDir \<Longrightarrow> entry_at fs (False, es) = Some LDir"
proof (induction r rule: rev_induct)
  case (snoc x xs)
  then show ?case using wf_parent [of fs "es @ xs" x] by simp
qed simp

lemma resolve_dirs:
  "wf_fs fs \<Longrightarrow> list_all plain_elem es \<Longrightarrow> entry_at fs (False, ds @ es) = Some LDir \<Longrightarrow>
     resolve fs n (False, ds) (es @ cs) = resolve fs n (False, ds @ es) cs"
proof (induction es arbitrary: ds)
  case (Cons c es)
  have "entry_at fs (False, ds @ [c]) = Some LDir"
    using wf_ancestor [OF Cons.prems(1), of "ds @ [c]" es] Cons.prems(3) by simp
  moreover have "resolve fs n (False, ds @ [c]) (es @ cs) = resolve fs n (False, (ds @ [c]) @ es) cs"
    using Cons by simp
  ultimately show ?case using Cons.prems(2) by (simp add: plain_elem_def)
qed simp

lemma abs_split: "plain_path es \<Longrightarrow> Split (abs_str es) slash = [] # es"
proof -
  assume es: "plain_path es"
  have "abs_str es = Join ([] # es) slash" using es by (simp add: abs_str_def path_str_def plain_path_def Join_Cons)
  moreover have "list_all (\<lambda>l. CHR ''/'' \<notin> set l) ([] # es)" using es by (simp add: plain_path_def list_all_iff plain_elem_def)
  ultimately show ?thesis using Split_Join [of "CHR ''/''" "[] # es"] by simp
qed

lemma abs_start: "start_loc (abs_str es) l = (False, [])" "abs_str es \<noteq> []"
  by (simp_all add: start_loc_def abs_str_def HasPrefix_def)

lemma plain_path_snoc: "plain_path es \<Longrightarrow> plain_elem n \<Longrightarrow> plain_path (es @ [n])"
  by (simp add: plain_path_def)

lemma resolve_abs:
  assumes "wf_fs fs" "plain_path es" "entry_at fs (False, es) = Some LDir"
  shows "resolve_path fs n (abs_str es) = Ok (False, es)"
  using resolve_dirs [OF assms(1), of es "[]" n "[]"] assms abs_split [OF assms(2)]
  by (simp add: resolve_path_def abs_start plain_path_def)

lemma Lstat_abs:
  assumes "wf_fs fs" "plain_path es" "entry_at fs (False, es) = Some e"
  shows "fs_Lstat fs (abs_str es) = Ok (mode_of e)"
proof -
  obtain ds c where es: "es = ds @ [c]" using assms(2) by (metis plain_path_def rev_exhaust)
  have d: "entry_at fs (False, ds) = Some LDir" using wf_parent [OF assms(1)] assms(3) es by simp
  have "resolve fs 40 (False, []) ([] # ds) = Inl (False, ds)"
    using resolve_dirs [OF assms(1), of ds "[]" 40 "[]"] d assms(2) es by (simp add: plain_path_def)
  moreover have "plain_elem c" using assms(2) es by (simp add: plain_path_def)
  ultimately show ?thesis
    using abs_split [OF assms(2)] assms(3) es by (simp add: fs_Lstat_def Let_def abs_start plain_elem_def butlast_append)
qed

lemma abs_child:
  assumes "plain_path es" "plain_elem n"
  shows "JoinPath [abs_str es, n] = abs_str (es @ [n])"
proof -
  have "Clean (abs_str (es @ [n])) = abs_str (es @ [n])"
  proof -
    have p: "plain_path (es @ [n])" using plain_path_snoc [OF assms] .
    have "fold (clean_step True) ([] # es @ [n]) [] = rev (es @ [n])"
      using clean_plain_elems [of "[] # es @ [n]" True "[]"] p by (simp add: plain_path_def plain_or_empty plain_elem_ne)
    then show ?thesis
      using abs_split [OF p] by (simp add: Clean_def abs_str_def HasPrefix_def path_str_def Let_def)
  qed
  moreover have "JoinPath [abs_str es, n] = Clean (abs_str es @ slash @ n)"
    by (simp add: JoinPath_def abs_str_def)
  moreover have "abs_str es @ slash @ n = abs_str (es @ [n])"
    using assms(1) Join_snoc [of es n slash] by (simp add: abs_str_def path_str_def plain_path_def)
  ultimately show ?thesis by simp
qed

lemma abs_base: "plain_path es \<Longrightarrow> BasePath (abs_str es) = last es"
proof -
  assume es: "plain_path es"
  obtain ds c where c: "es = ds @ [c]" "plain_elem c" using es by (metis plain_path_def rev_exhaust list_all_append list.pred_inject(2))
  obtain x xs where rc: "rev c = x # xs" using c(2) by (metis neq_Nil_conv plain_elem_ne rev_is_Nil_conv)
  then have "set c = set (x # xs)" by (metis set_rev)
  then have x: "x \<noteq> CHR ''/''" "CHR ''/'' \<notin> set xs" using c(2) by (auto simp: plain_elem_def)
  have s: "abs_str es = abs_str_dir @ CHR ''/'' # c" if "abs_str_dir = (if ds = [] then [] else abs_str ds)" for abs_str_dir
    using that c(1) Join_snoc [of ds c slash] by (simp add: abs_str_def path_str_def)
  let ?d = "if ds = [] then [] else abs_str ds"
  have r: "rev (abs_str es) = (x # xs) @ CHR ''/'' # rev ?d" using s [OF refl] rc by simp
  have "takeWhile (\<lambda>c. c \<noteq> CHR ''/'') (rev (abs_str es)) = x # xs"
    unfolding r using x takeWhile_tail_slash [of "x # xs"] by auto
  moreover have "dropWhile (\<lambda>c. c = CHR ''/'') (rev (abs_str es)) = rev (abs_str es)" unfolding r using x by simp
  ultimately have "BasePath (abs_str es) = rev (x # xs)"
    by (simp add: BasePath_def after_last_slash_def abs_start Let_def)
  then show ?thesis using c(1) rc by (metis last_snoc rev_rev_ident)
qed

lemma resolve_mono: "resolve fs n l cs = Inl r \<Longrightarrow> n \<le> m \<Longrightarrow> resolve fs m l cs = Inl r"
proof (induction fs n l cs arbitrary: m rule: resolve.induct)
  case (2 fs n l c cs)
  consider "c = [] \<or> c = ''.''" | "\<not> (c = [] \<or> c = ''.'')" "c = ''..''" | "\<not> (c = [] \<or> c = ''.'')" "c \<noteq> ''..''" by blast
  then show ?case
  proof cases
    case 1
    then show ?thesis using 2(1) [OF 1] 2(5,6) by simp
  next
    case c: 2
    then show ?thesis using 2(2) [OF c] 2(5,6) by simp
  next
    case c: 3
    let ?e = "entry_at fs (fst l, snd l @ [c])"
    show ?thesis
    proof (cases "?e = Some LDir \<or> (\<exists>t. ?e = Some (LLink t))")
      case False
      then show ?thesis using 2(5) c by (auto simp: Let_def split: option.splits lentry.splits if_splits)
    next
      case True
      then show ?thesis
      proof
        assume d: "?e = Some LDir"
        then show ?thesis using 2(3) [OF c refl d refl] 2(5,6) c by (simp add: Let_def)
      next
        assume "\<exists>t. ?e = Some (LLink t)"
        then obtain t where t: "?e = Some (LLink t)" ..
        obtain k where k: "n = Suc k" using 2(5) c t by (cases n) (auto simp: Let_def)
        obtain j where j: "m = Suc j" "k \<le> j" using 2(6) k by (cases m) auto
        show ?thesis using 2(4) [OF c refl t refl k _ j(2)] 2(5) t k j(1) c by (simp add: Let_def)
      qed
    qed
  qed
qed simp

lemma EvalSymlinks_of_Stat: "fs_Stat fs p = Ok k \<Longrightarrow> \<exists>l. EvalSymlinks fs p = Ok l"
  using resolve_mono [of fs 40 "start_loc p (True, [])" "Split p slash" _ 255]
  by (auto simp: fs_Stat_def EvalSymlinks_def resolve_path_def split: if_splits sum.splits)

section \<open>What a walk visits\<close>

text \<open>
  The reference: the entries at and below a location in the order of their names, where a link is an entry of
  its own and its target is not looked into. A link to a directory and a broken link are left out.
\<close>

definition walked :: "linkfs \<Rightarrow> string list \<Rightarrow> fmode \<Rightarrow> bool" where
  "walked fs es k \<longleftrightarrow> k \<noteq> MLink \<or> (case fs_Stat fs (abs_str es) of Ok i \<Rightarrow> i \<noteq> MDir | _ \<Rightarrow> False)"

fun tree_list :: "nat \<Rightarrow> linkfs \<Rightarrow> string list \<Rightarrow> fmode \<Rightarrow> string list list" where
  "tree_list 0 fs es k = []"
| "tree_list (Suc n) fs es k = (if walked fs es k then [es] else []) @
     (if k = MDir then concat (map (\<lambda>(name, k'). tree_list n fs (es @ [name]) k') (dir_names fs es)) else [])"

lemma set_map_filter: "y \<in> set (List.map_filter g xs) \<longleftrightarrow> (\<exists>x \<in> set xs. g x = Some y)"
  by (force simp: List.map_filter_def)

lemma dir_names_mem:
  assumes "wf_fs fs"
  shows "(name, k) \<in> set (dir_names fs es) \<longleftrightarrow> (\<exists>e. entry_at fs (False, es @ [name]) = Some e \<and> k = mode_of e)"
proof -
  have "(name, k) \<in> set (dir_names fs es) \<longleftrightarrow>
      (\<exists>x \<in> set (lf_entries fs). fst x \<noteq> [] \<and> butlast (fst x) = es \<and> last (fst x) = name \<and> mode_of (snd x) = k)"
    unfolding dir_names_def set_sort set_map_filter by (rule bex_cong) (auto split: prod.splits)
  also have "\<dots> \<longleftrightarrow> (\<exists>x \<in> set (lf_entries fs). fst x = es @ [name] \<and> k = mode_of (snd x))"
    by (rule bex_cong) (auto simp: snoc_eq_iff_butlast)
  also have "\<dots> \<longleftrightarrow> (\<exists>e. (es @ [name], e) \<in> set (lf_entries fs) \<and> k = mode_of e)"
    by force
  also have "\<dots> \<longleftrightarrow> (\<exists>e. entry_at fs (False, es @ [name]) = Some e \<and> k = mode_of e)"
    using wf_entry(1) [OF assms, of "es @ [name]"] by (auto simp: entry_abs dest: map_of_SomeD)
  finally show ?thesis .
qed

lemma child_plain: "wf_fs fs \<Longrightarrow> entry_at fs (False, es @ [name]) = Some e \<Longrightarrow> plain_elem name"
  using wf_entry(2) [of fs "es @ [name]" e] by (auto simp: entry_abs plain_path_def dest: map_of_SomeD)

lemma mode_of_dir [simp]: "mode_of e = MDir \<longleftrightarrow> e = LDir" "MDir = mode_of e \<longleftrightarrow> e = LDir"
  by (cases e; simp add: mode_of_def)+

lemma walk_then_Ok: "m st = Some (Ok (), st') \<Longrightarrow> walk_then m k st = k st'"
  by (simp add: walk_then_def)

lemma walk_link:
  assumes "fs_Stat fs p = Ok MDir" "fs_Lstat fs p = Ok MLink"
  shows "\<exists>vis'. walk_visit (Suc (Suc (Suc (Suc n)))) fs fn p MLink (vis, s) = Some (Ok (), vis', s)"
proof -
  obtain real where r: "EvalSymlinks fs p = Ok real" using EvalSymlinks_of_Stat [OF assms(1)] ..
  then show ?thesis using assms by (simp add: walk_then_def walk_ok_def WalkDir_def)
qed

lemma walk_each_spec:
  "(\<And>x vis s. x \<in> set xs \<Longrightarrow> \<exists>vis'. f x (vis, s) = Some (Ok (), vis', g x s)) \<Longrightarrow>
     \<exists>vis'. walk_each f xs (vis, s) = Some (Ok (), vis', fold g xs s)"
proof (induction xs arbitrary: vis s)
  case (Cons x xs)
  obtain v1 where "f x (vis, s) = Some (Ok (), v1, g x s)" using Cons.prems by (meson list.set_intros(1))
  moreover obtain v2 where "walk_each f xs (v1, g x s) = Some (Ok (), v2, fold g xs (g x s))"
    using Cons by (meson list.set_intros(2))
  ultimately show ?case by (simp add: walk_then_def)
qed (simp add: walk_ok_def)

lemma fold_concat_map: "fold h (concat (map g xs)) s = fold (\<lambda>x. fold h (g x)) xs s"
  by (induction xs arbitrary: s) auto

lemma deepD:
  "list_all (\<lambda>(q, e). length q \<le> d) (lf_entries fs) \<Longrightarrow> plain_path es \<Longrightarrow> entry_at fs (False, es) = Some e \<Longrightarrow> length es \<le> d"
  by (auto simp: entry_abs plain_path_def list_all_iff dest!: map_of_SomeD)

text \<open>The walk is the fold of the reference, whatever was visited before.\<close>

lemma walk_visit_spec:
  assumes wf: "wf_fs fs" and deny: "lf_deny fs = (\<lambda>_. None)"
    and deep: "list_all (\<lambda>(q, e). length q \<le> d) (lf_entries fs)"
    and total: "\<forall>q e s. plain_path q \<longrightarrow> entry_at fs (False, q) = Some e \<longrightarrow> fn (abs_str q) s = (Ok (), f (abs_str q) s)"
  shows "plain_path es \<Longrightarrow> entry_at fs (False, es) = Some e \<Longrightarrow> d + 4 \<le> n + length es \<Longrightarrow>
     \<exists>vis'. walk_visit n fs fn (abs_str es) (mode_of e) (vis, s) =
       Some (Ok (), vis', fold (\<lambda>q. f (abs_str q)) (tree_list n fs es (mode_of e)) s)"
proof (induction n arbitrary: es e vis s)
  case 0
  then show ?case using deepD [OF deep 0(1,2)] by simp
next
  case (Suc n)
  have short: "length es \<le> d" using deepD [OF deep Suc.prems(1,2)] .
  have total': "plain_path q \<Longrightarrow> entry_at fs (False, q) = Some e \<Longrightarrow> fn (abs_str q) s = (Ok (), f (abs_str q) s)" for q e s
    using total by blast
  show ?case
  proof (cases "e = LDir")
    case True
    have dir: "resolve_path fs 40 (abs_str es) = Ok (False, es)" using resolve_abs [OF wf] Suc.prems True by simp
    have read: "fs_ReadDir fs (abs_str es) = Ok (dir_names fs es)"
      using dir True Suc.prems deny by (simp add: fs_ReadDir_def abs_loc_def)
    have child: "\<exists>vis'. (case x of (name, k') \<Rightarrow> walk_visit n fs fn (JoinPath [abs_str es, name]) k') (vis, s) =
        Some (Ok (), vis', (\<lambda>(name, k'). fold (\<lambda>q. f (abs_str q)) (tree_list n fs (es @ [name]) k')) x s)"
      if "x \<in> set (dir_names fs es)" for x vis s
    proof -
      obtain name k where nk: "x = (name, k)" by (cases x)
      have "\<exists>e'. entry_at fs (False, es @ [name]) = Some e' \<and> k = mode_of e'"
        using that unfolding nk dir_names_mem [OF wf] .
      then obtain e' where e': "entry_at fs (False, es @ [name]) = Some e'" and x: "x = (name, mode_of e')"
        using nk by (elim exE conjE) simp
      have pn: "plain_elem name" using child_plain [OF wf e'] .
      have "d + 4 \<le> n + length (es @ [name])" using Suc.prems(3) by simp
      from Suc.IH [OF plain_path_snoc [OF Suc.prems(1) pn] e' this, of vis s]
      show ?thesis unfolding x prod.case abs_child [OF Suc.prems(1) pn] .
    qed
    have "\<exists>v. walk_each (\<lambda>(name, k'). walk_visit n fs fn (JoinPath [abs_str es, name]) k') (dir_names fs es) (vis, f (abs_str es) s) =
        Some (Ok (), v, fold (\<lambda>(name, k'). fold (\<lambda>q. f (abs_str q)) (tree_list n fs (es @ [name]) k')) (dir_names fs es) (f (abs_str es) s))"
      by (rule walk_each_spec) (rule child)
    then show ?thesis
      using True read total' [OF Suc.prems(1,2)]
      by (simp add: mode_of_def walk_then_def walk_call_def walked_def fold_concat_map case_prod_unfold)
  next
    case nodir: False
    show ?thesis
    proof (cases "\<exists>t. e = LLink t")
      case False
      then have "mode_of e = MFile" using nodir by (cases e) (auto simp: mode_of_def)
      then show ?thesis using total' [OF Suc.prems(1,2)]
        by (simp add: walk_then_def walk_call_def walk_ok_def walked_def)
    next
      case True
      then have k: "mode_of e = MLink" by (auto simp: mode_of_def)
      have l: "fs_Lstat fs (abs_str es) = Ok MLink" using Lstat_abs [OF wf Suc.prems(1,2)] k by simp
      have "3 \<le> n" using Suc.prems(3) short by simp
      then obtain j where n: "n = Suc (Suc (Suc j))" by (metis Suc_le_D Suc_le_mono numeral_3_eq_3)
      show ?thesis
      proof (cases "fs_Stat fs (abs_str es) = Ok MDir")
        case True
        then show ?thesis using walk_link [OF True l, of j fn vis s] k by (simp add: n walked_def del: walk_visit.simps)
      next
        case False
        then show ?thesis using total' [OF Suc.prems(1,2)] k
          by (cases "fs_Stat fs (abs_str es)") (auto simp: walk_then_def walk_call_def walk_ok_def walked_def)
      qed
    qed
  qed
qed

lemma leaf_below:
  assumes "wf_fs fs" "entry_at fs (False, es) = Some e" "e \<noteq> LDir" "prefix es q" "entry_at fs (False, q) = Some e'"
  shows "q = es"
proof -
  obtain r where r: "q = es @ r" using assms(4) by (auto simp: prefix_def)
  show ?thesis
  proof (cases r rule: rev_cases)
    case (snoc r' x)
    then have "entry_at fs (False, es @ r') = Some LDir" using wf_parent [OF assms(1), of "es @ r'" x e'] assms(5) r by simp
    then have "entry_at fs (False, es) = Some LDir" by (rule wf_ancestor [OF assms(1)])
    then show ?thesis using assms(2,3) by simp
  qed (use r in simp)
qed

text \<open>The reference lists what lies at or below a location, once.\<close>

lemma tree_list_set:
  assumes wf: "wf_fs fs" and deep: "list_all (\<lambda>(q, e). length q \<le> d) (lf_entries fs)"
  shows "plain_path es \<Longrightarrow> entry_at fs (False, es) = Some e \<Longrightarrow> d < n + length es \<Longrightarrow>
     q \<in> set (tree_list n fs es (mode_of e)) \<longleftrightarrow>
       prefix es q \<and> (\<exists>e'. entry_at fs (False, q) = Some e' \<and> walked fs q (mode_of e'))"
proof (induction n arbitrary: es e)
  case 0
  then show ?case using deepD [OF deep 0(1,2)] by simp
next
  case (Suc n)
  have child: "q \<in> set (tree_list n fs (es @ [name]) (mode_of e')) \<longleftrightarrow>
      prefix (es @ [name]) q \<and> (\<exists>e'. entry_at fs (False, q) = Some e' \<and> walked fs q (mode_of e'))"
    if "entry_at fs (False, es @ [name]) = Some e'" for name e'
    using Suc.IH [OF plain_path_snoc [OF Suc.prems(1) child_plain [OF wf that]] that] Suc.prems(3) by simp
  have below: "\<exists>name e'. entry_at fs (False, es @ [name]) = Some e' \<and> prefix (es @ [name]) q"
    if q: "prefix es q" "q \<noteq> es" "entry_at fs (False, q) = Some e''" for e''
  proof -
    obtain name r where r: "q = (es @ [name]) @ r" using q(1,2) by (metis append_Cons append_assoc append_self_conv2 neq_Nil_conv prefix_def append_Nil2)
    show ?thesis
    proof (cases "r = []")
      case True
      then show ?thesis using r q(3) by auto
    next
      case False
      then obtain r' x where "r = r' @ [x]" by (metis rev_exhaust)
      then have "entry_at fs (False, ((es @ [name]) @ r')) = Some LDir"
        using wf_parent [OF wf, of "(es @ [name]) @ r'" x e''] q(3) r by simp
      then have "entry_at fs (False, es @ [name]) = Some LDir" by (rule wf_ancestor [OF wf])
      then show ?thesis using r by auto
    qed
  qed
  show ?case
  proof (cases "e = LDir")
    case False
    then show ?thesis using leaf_below [OF wf Suc.prems(2)] Suc.prems(2) by (auto, metis option.inject)
  next
    case True
    have "q \<in> set (tree_list (Suc n) fs es (mode_of e)) \<longleftrightarrow> q = es \<or>
        (\<exists>name k. (name, k) \<in> set (dir_names fs es) \<and> q \<in> set (tree_list n fs (es @ [name]) k))"
      using True by (auto simp: mode_of_def walked_def)
    also have "\<dots> \<longleftrightarrow> q = es \<or> (\<exists>name e'. entry_at fs (False, es @ [name]) = Some e' \<and> q \<in> set (tree_list n fs (es @ [name]) (mode_of e')))"
      unfolding dir_names_mem [OF wf] by auto
    also have "\<dots> \<longleftrightarrow> q = es \<or> (\<exists>name e'. entry_at fs (False, es @ [name]) = Some e' \<and>
        prefix (es @ [name]) q \<and> (\<exists>e'. entry_at fs (False, q) = Some e' \<and> walked fs q (mode_of e')))"
      using child by (metis (no_types, lifting))
    also have "\<dots> \<longleftrightarrow> prefix es q \<and> (\<exists>e'. entry_at fs (False, q) = Some e' \<and> walked fs q (mode_of e'))"
    proof (cases "q = es")
      case q: True
      then show ?thesis using Suc.prems(2) True by (auto simp: walked_def mode_of_def)
    next
      case False
      then show ?thesis using below by (auto dest: append_prefixD)
    qed
    finally show ?thesis .
  qed
qed

lemma distinct_dir_names: "wf_fs fs \<Longrightarrow> distinct (map fst (dir_names fs es))"
proof -
  assume wf: "wf_fs fs"
  have d: "distinct (map fst (lf_entries fs))" using wf by (simp add: wf_fs_def)
  have "distinct (map fst (List.map_filter (\<lambda>(q, e). if q \<noteq> [] \<and> butlast q = es then Some (last q, mode_of e) else None) xs))"
    if "distinct (map fst xs)" for xs :: "(string list \<times> lentry) list"
    using that
  proof (induction xs)
    case (Cons x xs)
    obtain q e where x: "x = (q, e)" by (cases x)
    have "last q \<notin> fst ` set (List.map_filter (\<lambda>(q, e). if q \<noteq> [] \<and> butlast q = es then Some (last q, mode_of e) else None) xs)"
      if "q \<noteq> []" "butlast q = es"
    proof
      assume "last q \<in> fst ` set (List.map_filter (\<lambda>(q, e). if q \<noteq> [] \<and> butlast q = es then Some (last q, mode_of e) else None) xs)"
      then obtain y where "y \<in> set xs" "fst y \<noteq> []" "butlast (fst y) = es" "last (fst y) = last q"
        by (auto simp: set_map_filter split: if_splits)
      then have "fst y = q" using that by (metis append_butlast_last_id)
      then show False using Cons.prems \<open>y \<in> set xs\<close> x by auto
    qed
    then show ?case using Cons x by (simp add: map_filter_simps)
  qed (simp add: map_filter_simps)
  from this [OF d] show ?thesis unfolding dir_names_def by (metis (no_types, lifting) distinct_map distinct_sort set_sort)
qed

lemma tree_list_prefix: "q \<in> set (tree_list n fs es k) \<Longrightarrow> prefix es q"
proof (induction n arbitrary: es k)
  case (Suc n)
  then consider "q = es" | name k' where "q \<in> set (tree_list n fs (es @ [name]) k')" by (auto split: if_splits)
  then show ?case
  proof cases
    case 2
    then show ?thesis using Suc.IH [OF 2] by (metis append_prefixD)
  qed simp
qed simp

lemma distinct_concat_map:
  "(\<And>x. x \<in> set xs \<Longrightarrow> distinct (g x)) \<Longrightarrow> distinct (map h xs) \<Longrightarrow>
     (\<And>x y z. x \<in> set xs \<Longrightarrow> y \<in> set xs \<Longrightarrow> z \<in> set (g x) \<Longrightarrow> z \<in> set (g y) \<Longrightarrow> h x = h y) \<Longrightarrow> distinct (concat (map g xs))"
proof (induction xs)
  case (Cons x xs)
  have "distinct (concat (map g xs))"
  proof (rule Cons.IH)
    show "distinct (g y)" if "y \<in> set xs" for y using Cons.prems(1) that by simp
    show "distinct (map h xs)" using Cons.prems(2) by simp
    show "h y = h y'" if "y \<in> set xs" "y' \<in> set xs" "z \<in> set (g y)" "z \<in> set (g y')" for y y' z
      using Cons.prems(3) [of y y' z] that by simp
  qed
  moreover have "set (g x) \<inter> set (concat (map g xs)) = {}"
  proof (rule ccontr)
    assume "set (g x) \<inter> set (concat (map g xs)) \<noteq> {}"
    then obtain y z where "y \<in> set xs" "z \<in> set (g x)" "z \<in> set (g y)" by auto
    then show False using Cons.prems(2) Cons.prems(3) [of x y z] by force
  qed
  ultimately show ?case using Cons.prems(1) by simp
qed simp

lemma distinct_tree_list: "wf_fs fs \<Longrightarrow> distinct (tree_list n fs es k)"
proof (induction n arbitrary: es k)
  case (Suc n)
  have "distinct (concat (map (\<lambda>(name, k'). tree_list n fs (es @ [name]) k') (dir_names fs es)))"
  proof (rule distinct_concat_map [where h = fst])
    show "distinct (map fst (dir_names fs es))" using distinct_dir_names [OF Suc.prems] .
    show "fst x = fst y" if "z \<in> set (case x of (name, k') \<Rightarrow> tree_list n fs (es @ [name]) k')"
      "z \<in> set (case y of (name, k') \<Rightarrow> tree_list n fs (es @ [name]) k')" for x y z
    proof -
      have "prefix (es @ [fst x]) z" "prefix (es @ [fst y]) z"
        using that tree_list_prefix by (cases x; cases y; force)+
      then show ?thesis by (auto simp: prefix_def)
    qed
  qed (use Suc in auto)
  moreover have "es \<notin> set (concat (map (\<lambda>(name, k'). tree_list n fs (es @ [name]) k') (dir_names fs es)))"
    by (auto dest!: tree_list_prefix)
  ultimately show ?case by auto
qed simp

lemma fold_send: "fold (\<lambda>q s. if P q then s @ [h q] else s) qs s = s @ map h (filter P qs)"
  by (induction qs arbitrary: s) auto

lemma walk_from_root:
  assumes wf: "wf_fs fs" and deny: "lf_deny fs = (\<lambda>_. None)"
    and deep: "list_all (\<lambda>(q, e). length q \<le> d) (lf_entries fs)"
    and total: "\<forall>q e s. plain_path q \<longrightarrow> entry_at fs (False, q) = Some e \<longrightarrow> fn (abs_str q) s = (Ok (), f (abs_str q) s)"
    and es: "plain_path es" "entry_at fs (False, es) = Some e" and n: "d + 4 \<le> n"
  shows "walkFollowSymlinks n fs (abs_str es) fn s = Some (Ok (), fold (\<lambda>q. f (abs_str q)) (tree_list (n - 1) fs es (mode_of e)) s)"
proof -
  obtain m where m: "n = Suc m" using n by (cases n) auto
  have len: "d + 4 \<le> m + length es" using n m es by (cases es) (simp_all add: plain_path_def)
  have visit: "\<exists>v. walk_visit m fs fn (abs_str es) (mode_of e) (vis, s) =
      Some (Ok (), v, fold (\<lambda>q. f (abs_str q)) (tree_list m fs es (mode_of e)) s)" for vis
    using walk_visit_spec [OF wf deny deep total es len] .
  have l: "fs_Lstat fs (abs_str es) = Ok (mode_of e)" using Lstat_abs [OF wf es] .
  obtain vis where "walkFollowSymlinksInner n fs fn (abs_str es) ({}, s) = walk_visit m fs fn (abs_str es) (mode_of e) (vis, s)"
    using l m by (cases "EvalSymlinks fs (abs_str es)") (auto simp: WalkDir_def)
  then show ?thesis using visit [of vis] m by (auto simp: walkFollowSymlinks_def)
qed

lemma searched_tree:
  assumes wf: "wf_fs fs" and deny: "lf_deny fs = (\<lambda>_. None)"
    and deep: "list_all (\<lambda>(q, e). length q \<le> d) (lf_entries fs)"
    and pat: "list_all (\<lambda>(q, e). is_ok (path_Match (fst_KubeconfigName s) (last q))) (lf_entries fs)"
    and es: "plain_path es" "entry_at fs (False, es) = Some e" and n: "d + 4 \<le> n"
  shows "\<exists>qs. searchDirectory n fs s (abs_str es) = Some (map (\<lambda>q. found (abs_str q) []) qs) \<and> distinct qs \<and>
     (\<forall>q. q \<in> set qs \<longleftrightarrow> prefix es q \<and> (\<exists>e'. entry_at fs (False, q) = Some e' \<and> walked fs q (mode_of e')) \<and>
        path_Match (fst_KubeconfigName s) (last q) = Ok True)"
proof -
  let ?P = "\<lambda>q. path_Match (fst_KubeconfigName s) (BasePath (abs_str q)) = Ok True"
  let ?f = "\<lambda>p sent. if path_Match (fst_KubeconfigName s) (BasePath p) = Ok True then sent @ [found p []] else sent"
  let ?qs = "tree_list (n - 1) fs es (mode_of e)"
  have "send_if_matched (fst_KubeconfigName s) (abs_str q) sent = (Ok (), ?f (abs_str q) sent)"
    if q: "plain_path q" "entry_at fs (False, q) = Some e'" for q e' sent
  proof -
    have "(q, e') \<in> set (lf_entries fs)" using q by (auto simp: entry_abs plain_path_def dest: map_of_SomeD)
    then have "is_ok (path_Match (fst_KubeconfigName s) (last q))" using pat by (auto simp: list_all_iff)
    then show ?thesis using q by (auto simp: abs_base send_if_matched_def is_ok_iff)
  qed
  then have send: "\<forall>q e' sent. plain_path q \<longrightarrow> entry_at fs (False, q) = Some e' \<longrightarrow>
      send_if_matched (fst_KubeconfigName s) (abs_str q) sent = (Ok (), ?f (abs_str q) sent)" by blast
  have "searchDirectory n fs s (abs_str es) = Some (map (\<lambda>q. found (abs_str q) []) (filter ?P ?qs))"
    using walk_from_root [OF wf deny deep send es n] fold_send [of ?P "\<lambda>q. found (abs_str q) []" ?qs "[]"]
    by (simp add: searchDirectory_def)
  moreover have "distinct (filter ?P ?qs)" using distinct_tree_list [OF wf] by simp
  moreover have "q \<in> set (filter ?P ?qs) \<longleftrightarrow> prefix es q \<and> (\<exists>e'. entry_at fs (False, q) = Some e' \<and> walked fs q (mode_of e')) \<and>
        path_Match (fst_KubeconfigName s) (last q) = Ok True" for q
  proof -
    have "d < (n - 1) + length es" using n es by (cases es) (auto simp: plain_path_def)
    note set = tree_list_set [OF wf deep es this, of q]
    have "plain_path q" if "prefix es q" "entry_at fs (False, q) = Some e'" for e'
    proof -
      have "q \<noteq> []" using es(1) that(1) by (auto simp: plain_path_def)
      then show ?thesis using wf_entry(2) [OF wf, of q e'] that(2) by (simp add: entry_abs map_of_SomeD)
    qed
    then show ?thesis using set by (auto simp: abs_base)
  qed
  ultimately show ?thesis by blast
qed

text \<open>
  C5. A search of a directory ends, and sends each matching entry of the directory tree exactly once, and nothing
  else: the files, the directories whose own name matches, and the links to files (a broken link is skipped, as the
  code says). The bound on the fuel is four more than the depth of the file system. The file system is well-formed, no
  directory in it is unreadable, the pattern is well-formed for its names, and no link below the searched directory
  leads to a directory; for those see \<^verbatim>\<open>linked_directory_not_searched\<close>.
\<close>

theorem file_search_spec:
  assumes wf: "wf_fs fs" and deny: "lf_deny fs = (\<lambda>_. None)"
    and deep: "list_all (\<lambda>(q, e). length q \<le> d) (lf_entries fs)"
    and pat: "list_all (\<lambda>(q, e). is_ok (path_Match (fst_KubeconfigName s) (last q))) (lf_entries fs)"
    and links: "\<And>q t. prefix es q \<Longrightarrow> entry_at fs (False, q) = Some (LLink t) \<Longrightarrow> fs_Stat fs (abs_str q) \<noteq> Ok MDir"
    and es: "plain_path es" "entry_at fs (False, es) = Some e" and n: "d + 4 \<le> n"
  shows "\<exists>qs. searchDirectory n fs s (abs_str es) = Some (map (\<lambda>q. found (abs_str q) []) qs) \<and> distinct qs \<and>
     (\<forall>q. q \<in> set qs \<longleftrightarrow> prefix es q \<and>
        (\<exists>e'. entry_at fs (False, q) = Some e' \<and> (\<forall>t. e' = LLink t \<longrightarrow> is_ok (fs_Stat fs (abs_str q)))) \<and>
        path_Match (fst_KubeconfigName s) (last q) = Ok True)"
proof -
  obtain qs where qs: "searchDirectory n fs s (abs_str es) = Some (map (\<lambda>q. found (abs_str q) []) qs)" "distinct qs"
    and mem: "\<forall>q. q \<in> set qs \<longleftrightarrow> prefix es q \<and> (\<exists>e'. entry_at fs (False, q) = Some e' \<and> walked fs q (mode_of e')) \<and>
        path_Match (fst_KubeconfigName s) (last q) = Ok True"
    using searched_tree [OF wf deny deep pat es n] by blast
  have "walked fs q (mode_of e') \<longleftrightarrow> (\<forall>t. e' = LLink t \<longrightarrow> is_ok (fs_Stat fs (abs_str q)))"
    if "prefix es q" "entry_at fs (False, q) = Some e'" for q e'
    using links [OF that(1)] that(2) by (cases e') (auto simp: walked_def mode_of_def is_ok_iff split: res.splits)
  then have "q \<in> set qs \<longleftrightarrow> prefix es q \<and>
        (\<exists>e'. entry_at fs (False, q) = Some e' \<and> (\<forall>t. e' = LLink t \<longrightarrow> is_ok (fs_Stat fs (abs_str q)))) \<and>
        path_Match (fst_KubeconfigName s) (last q) = Ok True" for q using mem by blast
  then show ?thesis using qs by blast
qed

text \<open>
  A link to a directory is never followed, although the walk is written to follow it: a configured directory that
  is a link is searched without any result. (Its location is marked as visited, and the walk that starts there meets
  the link again.)
\<close>

theorem linked_directory_not_searched:
  assumes wf: "wf_fs fs" and deny: "lf_deny fs = (\<lambda>_. None)"
    and deep: "list_all (\<lambda>(q, e). length q \<le> d) (lf_entries fs)"
    and pat: "list_all (\<lambda>(q, e). is_ok (path_Match (fst_KubeconfigName s) (last q))) (lf_entries fs)"
    and link: "plain_path es" "entry_at fs (False, es) = Some (LLink t)" "fs_Stat fs (abs_str es) = Ok MDir" and n: "d + 4 \<le> n"
  shows "searchDirectory n fs s (abs_str es) = Some []"
proof -
  obtain qs where qs: "searchDirectory n fs s (abs_str es) = Some (map (\<lambda>q. found (abs_str q) []) qs)"
    and mem: "\<forall>q. q \<in> set qs \<longleftrightarrow> prefix es q \<and> (\<exists>e'. entry_at fs (False, q) = Some e' \<and> walked fs q (mode_of e')) \<and>
        path_Match (fst_KubeconfigName s) (last q) = Ok True"
    using searched_tree [OF wf deny deep pat link(1,2) n] by blast
  have "q = es" if "prefix es q" "entry_at fs (False, q) = Some e'" for q e'
    using leaf_below [OF wf link(2) _ that] by simp
  moreover have "\<not> walked fs es (mode_of (LLink t))" using link(3) by (simp add: walked_def mode_of_def)
  ultimately have "q \<notin> set qs" for q using mem link(2) by (metis option.inject)
  then have "qs = []" by (cases qs) auto
  then show ?thesis using qs by simp
qed

section \<open>Fetching and verifying\<close>

lemma resolve_file:
  assumes "wf_fs fs" "plain_path es" "entry_at fs (False, es) = Some (LFile b)"
  shows "resolve_path fs n (abs_str es) = Ok (False, es)"
proof -
  obtain ds c where es: "es = ds @ [c]" using assms(2) by (metis plain_path_def rev_exhaust)
  have d: "entry_at fs (False, ds) = Some LDir" using wf_parent [OF assms(1)] assms(3) es by simp
  have "resolve fs n (False, []) ([] # ds @ [c]) = resolve fs n (False, ds) [c]"
    using resolve_dirs [OF assms(1), of ds "[]" n "[c]"] d assms(2) es by (simp add: plain_path_def)
  then show ?thesis
    using abs_split [OF assms(2)] assms(2,3) es by (simp add: resolve_path_def abs_start plain_path_def plain_elem_def)
qed

text \<open>A file that is sent can be read; a directory whose name matches is sent too and cannot.\<close>

theorem file_sent_fetched:
  assumes "wf_fs fs" "lf_deny fs = (\<lambda>_. None)" "plain_path q"
  shows "(entry_at fs (False, q) = Some (LFile b) \<longrightarrow> fs_GetKubeconfigForPath fs s (abs_str q) tags = Ok b) \<and>
     (entry_at fs (False, q) = Some LDir \<longrightarrow> fs_GetKubeconfigForPath fs s (abs_str q) tags = Err (PathErr EISDIR (abs_str q)))"
  using resolve_file [OF assms(1,3)] resolve_abs [OF assms(1,3)] assms(2)
  by (simp add: fs_GetKubeconfigForPath_def fs_ReadFile_def)

definition checked_paths :: "string \<Rightarrow> filesystem_store \<Rightarrow> string list" where
  "checked_paths homeDir s = map (expand_home homeDir) (dedup (ks_Paths (base_KubeconfigStore (fst_Base s))) {})"

definition unusable :: "fmode res \<Rightarrow> bool" where
  "unusable r \<longleftrightarrow> (case r of Ok _ \<Rightarrow> False | Err e \<Rightarrow> \<not> IsNotExist e | Panic _ \<Rightarrow> True)"

lemma check_paths_spec:
  "list_all (\<lambda>p. \<not> unusable (fs_Stat fs p)) (map (expand_home h) (dedup ps seen)) \<Longrightarrow>
     check_paths fs h ps seen (files, dirs) =
       Ok (files @ filter (\<lambda>p. is_ok (fs_Stat fs p) \<and> fs_Stat fs p \<noteq> Ok MDir) (map (expand_home h) (dedup ps seen)),
           dirs @ filter (\<lambda>p. fs_Stat fs p = Ok MDir) (map (expand_home h) (dedup ps seen)))"
proof (induction ps arbitrary: seen files dirs)
  case (Cons p ps)
  show ?case
  proof (cases "p \<in> seen")
    case True
    then show ?thesis using Cons by simp
  next
    case False
    then have u: "\<not> unusable (fs_Stat fs (expand_home h p))"
      and rest: "list_all (\<lambda>p. \<not> unusable (fs_Stat fs p)) (map (expand_home h) (dedup ps (insert p seen)))"
      using Cons.prems by simp_all
    show ?thesis
      using False u Cons.IH [OF rest]
      by (cases "fs_Stat fs (expand_home h p)") (simp_all add: unusable_def is_ok_iff Let_def)
  qed
qed simp

text \<open>
  The verification keeps each configured path once, with the home directory put in, split into files and
  directories, and drops those that do not exist; it fails when none exists.
\<close>

theorem file_verify_spec:
  assumes "list_all (\<lambda>p. \<not> unusable (fs_Stat fs p)) (checked_paths homeDir s)"
  shows "file_VerifyKubeconfigPaths fs (Some homeDir) s =
    (if list_all (\<lambda>p. \<not> is_ok (fs_Stat fs p)) (checked_paths homeDir s)
     then Err (Errorf ''none of the %d specified kubeconfig path(s) exist'' [])
     else Ok (s\<lparr>fst_Directories := filter (\<lambda>p. fs_Stat fs p = Ok MDir) (checked_paths homeDir s),
                fst_Filepaths := filter (\<lambda>p. is_ok (fs_Stat fs p) \<and> fs_Stat fs p \<noteq> Ok MDir) (checked_paths homeDir s)\<rparr>))"
proof -
  have "filter (\<lambda>p. fs_Stat fs p = Ok MDir) ps = [] \<and> filter (\<lambda>p. is_ok (fs_Stat fs p) \<and> fs_Stat fs p \<noteq> Ok MDir) ps = [] \<longleftrightarrow>
      list_all (\<lambda>p. \<not> is_ok (fs_Stat fs p)) ps" for ps
    by (induction ps) (auto simp: is_ok_iff)
  then show ?thesis
    using check_paths_spec [of fs homeDir "ks_Paths (base_KubeconfigStore (fst_Base s))" "{}" "[]" "[]"] assms
    by (simp add: file_VerifyKubeconfigPaths_def checked_paths_def)
qed

text \<open>A user who cannot be looked up ends the program: the error of \<^verbatim>\<open>user.Current\<close> is dropped.\<close>

theorem file_verify_without_user:
  "file_VerifyKubeconfigPaths fs None s = Panic ''invalid memory address or nil pointer dereference''"
  by (simp add: file_VerifyKubeconfigPaths_def)

section \<open>Concrete inputs\<close>

definition sample_fs :: linkfs where
  "sample_fs = \<lparr>lf_entries = [([''kube''], LDir), ([''kube'', ''config''], LFile ''a''), ([''kube'', ''team''], LLink ''/other''),
      ([''other''], LDir), ([''other'', ''config''], LFile ''b'')], lf_cwd = [], lf_deny = (\<lambda>_. None)\<rparr>"

definition sample_file_store :: filesystem_store where
  "sample_file_store = \<lparr>fst_Base = \<lparr>base_Kind = StoreKindFilesystem, base_KubeconfigStore = zero_store\<lparr>ks_Paths := [''~/kube'', ''/none'', ''~/kube'']\<rparr>\<rparr>,
     fst_KubeconfigName = ''config'', fst_Directories = [], fst_Filepaths = []\<rparr>"

lemma sample_fs_ok:
  "wf_fs sample_fs" "lf_deny sample_fs = (\<lambda>_. None)" "list_all (\<lambda>(q, e). length q \<le> 2) (lf_entries sample_fs)"
  "list_all (\<lambda>(q, e). is_ok (path_Match (fst_KubeconfigName sample_file_store) (last q))) (lf_entries sample_fs)"
  "plain_path [''kube'', ''team'']" "plain_path [''kube'']"
  by (simp_all add: wf_fs_def sample_fs_def entry_at_def abs_loc_def plain_elem_def plain_path_def sample_file_store_def
      path_Match_literal literal_def is_ok_iff)

text \<open>The directory \<^verbatim>\<open>/other\<close> of the sample has no link below it.\<close>

lemma file_search_spec_witness:
  "\<exists>qs. searchDirectory 6 sample_fs sample_file_store (abs_str [''other'']) = Some (map (\<lambda>q. found (abs_str q) []) qs) \<and> distinct qs \<and>
     [''other'', ''config''] \<in> set qs \<and> [''other''] \<notin> set qs"
proof -
  have links: "fs_Stat sample_fs (abs_str q) \<noteq> Ok MDir"
    if "prefix [''other''] q" "entry_at sample_fs (False, q) = Some (LLink t)" for q t
    using that by (auto simp: entry_at_def abs_loc_def sample_fs_def split: if_splits)
  have m: "path_Match ''config'' ''config'' = Ok True" "path_Match ''config'' ''other'' = Ok False"
    by (simp_all add: path_Match_literal literal_def)
  have k: "fst_KubeconfigName sample_file_store = ''config''" by (simp add: sample_file_store_def)
  have "\<exists>qs. searchDirectory 6 sample_fs sample_file_store (abs_str [''other'']) = Some (map (\<lambda>q. found (abs_str q) []) qs) \<and> distinct qs \<and>
     (\<forall>q. q \<in> set qs \<longleftrightarrow> prefix [''other''] q \<and>
        (\<exists>e'. entry_at sample_fs (False, q) = Some e' \<and> (\<forall>t. e' = LLink t \<longrightarrow> is_ok (fs_Stat sample_fs (abs_str q)))) \<and>
        path_Match (fst_KubeconfigName sample_file_store) (last q) = Ok True)"
    by (rule file_search_spec [OF sample_fs_ok(1-4) links, where e = LDir])
      (simp_all add: plain_path_def plain_elem_def entry_at_def abs_loc_def sample_fs_def)
  then obtain qs where "searchDirectory 6 sample_fs sample_file_store (abs_str [''other'']) = Some (map (\<lambda>q. found (abs_str q) []) qs)"
     "distinct qs" and mem: "\<forall>q. q \<in> set qs \<longleftrightarrow> prefix [''other''] q \<and>
        (\<exists>e'. entry_at sample_fs (False, q) = Some e' \<and> (\<forall>t. e' = LLink t \<longrightarrow> is_ok (fs_Stat sample_fs (abs_str q)))) \<and>
        path_Match (fst_KubeconfigName sample_file_store) (last q) = Ok True" by blast
  moreover have "[''other'', ''config''] \<in> set qs" unfolding mem [rule_format] k using m(1)
    by (simp add: entry_at_def abs_loc_def sample_fs_def)
  moreover have "[''other''] \<notin> set qs" unfolding mem [rule_format] k using m(2) by simp
  ultimately show ?thesis by blast
qed

lemma linked_directory_not_searched_witness:
  "searchDirectory 6 sample_fs sample_file_store ''/kube/team'' = Some [] \<and>
     fs_Stat sample_fs ''/kube/team'' = Ok MDir \<and> fs_ReadFile sample_fs ''/kube/team/config'' = Ok ''b''"
proof -
  have s: "fs_Stat sample_fs ''/kube/team'' = Ok MDir" by code_simp
  have r: "fs_ReadFile sample_fs ''/kube/team/config'' = Ok ''b''" by code_simp
  have "searchDirectory 6 sample_fs sample_file_store (abs_str [''kube'', ''team'']) = Some []"
    by (rule linked_directory_not_searched [where t = "''/other''" and d = 2])
      (use sample_fs_ok s in \<open>simp_all add: entry_at_def abs_loc_def sample_fs_def abs_str_def path_str_def\<close>)
  then show ?thesis using s r by (simp add: abs_str_def path_str_def)
qed

lemma file_verify_spec_witness:
  "file_VerifyKubeconfigPaths sample_fs (Some ''/'') sample_file_store = Ok (sample_file_store\<lparr>fst_Directories := [''/kube''], fst_Filepaths := []\<rparr>)"
proof -
  have c: "checked_paths ''/'' sample_file_store = [''/kube'', ''/none'']" by code_simp
  have s: "fs_Stat sample_fs ''/kube'' = Ok MDir" "fs_Stat sample_fs ''/none'' = Err (PathErr ENOENT ''/none'')" by code_simp+
  have "list_all (\<lambda>p. \<not> unusable (fs_Stat sample_fs p)) (checked_paths ''/'' sample_file_store)"
    by (simp add: c s unusable_def)
  from file_verify_spec [OF this] show ?thesis by (simp add: c s is_ok_iff)
qed

end
