(* ===== verification/Startup.thy ===== *)
theory Startup
  imports KubernetesStore SwitchConfig Caches Util
begin

text \<open>
  The start of a command (\<^verbatim>\<open>cmd/kswitch/switcher.go\<close>): the configuration file, the store of the flag and of
  \<^verbatim>\<open>KUBECONFIG\<close>, the stores of the configuration behind their caches, the two stores that are added by
  default, and the references between stores. The package variables that cobra fills and the code changes are
  a record that is passed along.
\<close>

section \<open>Flags and libraries\<close>

record flags =
  fl_kubeconfigName :: string
  fl_kubeconfigPath :: string
  fl_storageBackend :: string
  fl_vaultAPIAddress :: string
  fl_configPath :: string
  fl_stateDirectory :: string

text \<open>
  What the stores and caches register, the decoders of the configuration file, and what is asked of the dynamic
  type of a store: \<^verbatim>\<open>in_AsPeer\<close> finds a Kubernetes store behind its cache, \<^verbatim>\<open>in_View\<close> gives its methods through
  the cache.
\<close>

record init_libs =
  in_New :: "string \<Rightarrow> Config option res"
  in_Old :: "string \<Rightarrow> ConfigOld option res"
  in_WriteOld :: "ConfigOld \<Rightarrow> string res"
  in_WriteNew :: "Config \<Rightarrow> string res"
  in_Gardener :: "any_config \<Rightarrow> StoreConfigGardener res"
  in_GKE :: "any_config \<Rightarrow> StoreConfigGKE res"
  in_Registry :: registry
  in_Caches :: "(string, CacheFactory) gomap"
  in_DigitalOcean :: "KubeconfigStore \<Rightarrow> store option io"
  in_LookKind :: bool                                 \<comment> \<open>\<^verbatim>\<open>exec.LookPath("kind")\<close> finds a binary\<close>
  in_Kind :: "KubeconfigStore \<Rightarrow> store option res"
  in_AsPeer :: "store \<Rightarrow> peer"
  in_View :: "kubernetes_store \<Rightarrow> store"
  in_Home :: "string res"

definition vaultTokenFileName :: string where "vaultTokenFileName = ''.vault-token''"
definition defaultKubeconfigName :: string where "defaultKubeconfigName = ''config''"
definition cmd_defaultKubeconfigPath :: string where "cmd_defaultKubeconfigPath = ''$HOME/.kube/config''"
definition linuxEnvKubeconfigSeperator :: string where "linuxEnvKubeconfigSeperator = '':''"

section \<open>The store of the flag and the environment\<close>

definition isDuplicatePath :: "KubeconfigStore list \<Rightarrow> string \<Rightarrow> bool" where
  "isDuplicatePath stores newPath = list_ex (\<lambda>s. newPath \<in> set (ks_Paths s)) stores"

text \<open>The variable is rewritten, so the result comes with the flags.\<close>

definition getKubeconfigPathFromFlag :: "flags \<Rightarrow> (string \<times> flags) io" where
  "getKubeconfigPathFromFlag fl =
     (if length (fl_kubeconfigPath fl) = 0 then returnIO ([], fl)
      else let p = ReplaceAll (fl_kubeconfigPath fl) ''~'' ''$HOME''; fl' = fl\<lparr>fl_kubeconfigPath := p\<rparr>
        in if p = cmd_defaultKubeconfigPath
           then (\<lambda>w. tryIO (os_Stat (os_ExpandEnv w cmd_defaultKubeconfigPath))
                  (\<lambda>_. returnIO (os_ExpandEnv w cmd_defaultKubeconfigPath, fl')) (\<lambda>_. returnIO ([], fl')) w)
           else (\<lambda>w. (Ok (os_ExpandEnv w p, fl'), w)))"

definition env_paths :: "world \<Rightarrow> Config \<Rightarrow> string list" where
  "env_paths w config = map (util_ExpandEnv w)
     (filter (\<lambda>path. \<not> isDuplicatePath (cfg_KubeconfigStores config) path \<and> \<not> HasSuffix path ''.tmp'' \<and> path \<noteq> [])
        (Split (getenv w ''KUBECONFIG'') linuxEnvKubeconfigSeperator))"

definition flag_store :: "flags \<Rightarrow> string list \<Rightarrow> KubeconfigStore" where
  "flag_store fl paths = zero_store\<lparr>ks_ID := Some ''env-and-flag'', ks_Kind := fl_storageBackend fl,
     ks_KubeconfigName := Some (fl_kubeconfigName fl), ks_Paths := paths, ks_ShowPrefix := Some False\<rparr>"

definition getStoreFromFlagAndEnv :: "flags \<Rightarrow> Config \<Rightarrow> (KubeconfigStore option \<times> flags) io" where
  "getStoreFromFlagAndEnv fl config = bindIO (getKubeconfigPathFromFlag fl) (\<lambda>(pathFromFlag, fl') w.
     let paths = (if length pathFromFlag > 0 then [pathFromFlag] else []) @ env_paths w config
     in (Ok (if length paths = 0 then None else Some (flag_store fl' paths), fl'), w))"

section \<open>The configured stores\<close>

definition own_name :: "KubeconfigStore \<Rightarrow> string \<Rightarrow> string" where
  "own_name s name = (case ks_KubeconfigName s of Some n \<Rightarrow> if n \<noteq> [] then n else name | None \<Rightarrow> name)"

definition with_cache :: "init_libs \<Rightarrow> KubeconfigStore \<Rightarrow> store \<Rightarrow> store io" where
  "with_cache L cfg s = (case ks_Cache cfg of
     None \<Rightarrow> cache_New (in_Caches L) ''memory'' s None
   | Some c \<Rightarrow> cache_New (in_Caches L) (cache_Kind c) s (Some c))"

definition dependencies :: "flags \<Rightarrow> string \<Rightarrow> Dependencies" where
  "dependencies fl name = \<lparr>dep_KubeconfigName = name, dep_StateDirectory = fl_stateDirectory fl,
     dep_VaultAPIAddressFromFlag = fl_vaultAPIAddress fl, dep_VaultTokenFileName = vaultTokenFileName\<rparr>"

text \<open>One round of the loop: the stores so far, whether a Digital Ocean store was configured, and the name.\<close>

definition add_store :: "init_libs \<Rightarrow> flags \<Rightarrow> KubeconfigStore \<Rightarrow> store list \<times> bool \<times> string \<Rightarrow> (store list \<times> bool \<times> string) io" where
  "add_store L fl cfg st = (case st of (stores, doAdded, name0) \<Rightarrow>
     let name = own_name cfg name0
     in tryIO (Create (in_Registry L) cfg (dependencies fl name))
        (\<lambda>s. let doAdded' = (doAdded \<or> ks_Kind cfg = StoreKindDigitalOcean)
           in case s of None \<Rightarrow> returnIO (stores, doAdded', name)
              | Some s \<Rightarrow> bindIO (with_cache L cfg s) (\<lambda>c. returnIO (stores @ [c], doAdded', name)))
        (\<lambda>e. if ks_Required cfg = Some False then returnIO (stores, doAdded, name) else failIO e))"

section \<open>The stores added by default\<close>

definition default_store :: "string \<Rightarrow> StoreKind \<Rightarrow> KubeconfigStore" where
  "default_store i k = zero_store\<lparr>ks_ID := Some i, ks_Kind := k, ks_Required := Some False, ks_ShowPrefix := Some True\<rparr>"

definition add_DigitalOcean :: "init_libs \<Rightarrow> bool \<Rightarrow> store list \<Rightarrow> store list io" where
  "add_DigitalOcean L doAdded stores =
     (if doAdded then returnIO stores
      else tryIO (in_DigitalOcean L (default_store ''doDefaultStore'' StoreKindDigitalOcean))
        (\<lambda>s. case s of None \<Rightarrow> returnIO stores
           | Some s \<Rightarrow> bindIO (cache_New (in_Caches L) ''memory'' s None) (\<lambda>c. returnIO (stores @ [c])))
        (\<lambda>_. returnIO stores))"

definition add_Kind :: "init_libs \<Rightarrow> Config \<Rightarrow> store list \<Rightarrow> store list io" where
  "add_Kind L config stores =
     (if list_ex (\<lambda>s. ks_Kind s = StoreKindKind) (cfg_KubeconfigStores config) \<or> \<not> in_LookKind L then returnIO stores
      else case in_Kind L (default_store ''kindDefaultStore'' StoreKindKind) of
          Ok (Some s) \<Rightarrow> bindIO (cache_New (in_Caches L) ''memory'' s None) (\<lambda>c. returnIO (stores @ [c]))
        | Panic p \<Rightarrow> liftR (Panic p)
        | _ \<Rightarrow> returnIO stores)"

section \<open>The start\<close>

definition load_config :: "init_libs \<Rightarrow> flags \<Rightarrow> Config io" where
  "load_config L fl = bindIO
     (wrapIO ''failed to read switch config file: %w'' [] (\<lambda>w.
        LoadConfigFromFile (in_New L) (in_Old L) (in_WriteOld L) (in_WriteNew L) (util_ExpandEnv w (fl_configPath fl)) w))
     (\<lambda>config. case config of
        None \<Rightarrow> returnIO zero_config
      | Some c \<Rightarrow> if length (ValidateConfig (in_Gardener L) (in_GKE L) c) > 0
          then failIO (Errorf ''the switch configuration file contains errors: %s'' []) else returnIO c)"

text \<open>The name of the configuration file counts unless the flag differs from its default.\<close>

definition use_config_name :: "Config \<Rightarrow> flags \<Rightarrow> flags" where
  "use_config_name config fl =
     (if fl_kubeconfigName fl = defaultKubeconfigName
      then (case cfg_KubeconfigName config of
          Some n \<Rightarrow> if n \<noteq> [] then fl\<lparr>fl_kubeconfigName := n\<rparr> else fl | None \<Rightarrow> fl)
      else fl)"

definition cmd_initialize :: "init_libs \<Rightarrow> flags \<Rightarrow> (store list \<times> Config \<times> flags) io" where
  "cmd_initialize L fl0 = bindIO (load_config L fl0) (\<lambda>config0.
     bindIO (getStoreFromFlagAndEnv (use_config_name config0 fl0) config0) (\<lambda>(storeFromFlags, fl2).
        let config = (case storeFromFlags of None \<Rightarrow> config0
              | Some s \<Rightarrow> config0\<lparr>cfg_KubeconfigStores := cfg_KubeconfigStores config0 @ [s]\<rparr>)
        in if length (cfg_KubeconfigStores config) = 0
           then failIO (Errorf ''you need to point kswitch to a kubeconfig file'' [])
           else bindIO (foldIO (add_store L fl2) (cfg_KubeconfigStores config) ([], False, fl_kubeconfigName fl2)) (\<lambda>(s1, doAdded, name).
             bindIO (add_DigitalOcean L doAdded s1) (\<lambda>s2.
             bindIO (add_Kind L config s2) (\<lambda>s3.
             bindIO (wrapIO ''failed to resolve peer stores: %w'' [] (ResolvePeerStoresForAll (in_Home L) (in_View L) (map (in_AsPeer L) s3))) (\<lambda>ps.
               returnIO (map (peer_store (in_View L)) ps, config, fl2\<lparr>fl_kubeconfigName := name\<rparr>)))))))"

section \<open>The root command\<close>

definition exempt :: "string list" where
  "exempt = [''init'', ''version'', ''merge-to-default-kubeconfig'', ''__complete'', ''__completeNoDesc'']"

text \<open>\<^verbatim>\<open>PersistentPreRunE\<close>: whether the command may run, or the process exits.\<close>

definition may_run :: "string \<Rightarrow> bool io" where
  "may_run cmd = bindIO (os_Getenv ''KSWITCH_SHELL_WRAPPER'') (\<lambda>v. returnIO (cmd \<in> set exempt \<or> v = ''1''))"

record root_flags =
  rf_delete :: bool
  rf_unset :: bool
  rf_current :: bool

definition root_args_ok :: "root_flags \<Rightarrow> string list \<Rightarrow> bool" where
  "root_args_ok f args = (if rf_delete f then length args = 1 else if rf_unset f \<or> rf_current f then args = [] else True)"

datatype root_command = RunDelete "string list" | RunUnset "string list" | RunCurrent "string list"
  | RunPrevious "string list" | RunLast "string list" | RunSet "string list" | RunSearch

definition root_action :: "root_flags \<Rightarrow> string list \<Rightarrow> root_command" where
  "root_action f args =
     (if rf_delete f then RunDelete args else if rf_unset f then RunUnset args else if rf_current f then RunCurrent args
      else case args of a # rest \<Rightarrow> if a = ''-'' then RunPrevious rest else if a = ''.'' then RunLast rest else RunSet args
        | [] \<Rightarrow> RunSearch)"

text \<open>The configuration file against the flags \<^verbatim>\<open>--show-preview\<close> and \<^verbatim>\<open>--write\<close>.\<close>

definition effective_preview :: "bool \<Rightarrow> Config \<Rightarrow> bool" where
  "effective_preview flag config = (flag \<and> cfg_ShowPreview config \<noteq> Some False)"

definition effective_write :: "bool \<Rightarrow> Config \<Rightarrow> bool" where
  "effective_write flag config = (flag \<or> cfg_WriteToKubeconfig config = Some True)"

section \<open>The stores that a configuration gives\<close>

text \<open>
  The kubeconfig name each store is built with: its own, or the one of the store before it. The reference below
  builds the stores with factories \<^verbatim>\<open>mk\<close> and caches \<^verbatim>\<open>wrap\<close> that do not depend on the world.
\<close>

fun store_names :: "string \<Rightarrow> KubeconfigStore list \<Rightarrow> string list" where
  "store_names name [] = []"
| "store_names name (s # ss) = own_name s name # store_names (own_name s name) ss"

fun built_stores ::
    "(KubeconfigStore \<Rightarrow> string \<Rightarrow> store option res) \<Rightarrow> (KubeconfigStore \<Rightarrow> store \<Rightarrow> store) \<Rightarrow>
     (KubeconfigStore \<times> string) list \<Rightarrow> store list res" where
  "built_stores mk wrap [] = Ok []"
| "built_stores mk wrap ((s, n) # r) = (case mk s n of
     Ok None \<Rightarrow> built_stores mk wrap r
   | Ok (Some st) \<Rightarrow> mapR ((#) (wrap s st)) (built_stores mk wrap r)
   | Err e \<Rightarrow> if ks_Required s = Some False then built_stores mk wrap r else Err e
   | Panic p \<Rightarrow> Panic p)"

definition pure_libs :: "init_libs \<Rightarrow> flags \<Rightarrow> (KubeconfigStore \<Rightarrow> string \<Rightarrow> store option res) \<Rightarrow> (KubeconfigStore \<Rightarrow> store \<Rightarrow> store) \<Rightarrow>
    KubeconfigStore list \<Rightarrow> bool" where
  "pure_libs L fl mk wrap ss \<longleftrightarrow> (\<forall>s \<in> set ss. \<forall>n w. Create (in_Registry L) s (dependencies fl n) w = (mk s n, w)) \<and>
     (\<forall>cfg \<in> set ss. \<forall>s w. with_cache L cfg s w = (Ok (wrap cfg s), w))"

lemma add_store_step:
  assumes "pure_libs L fl mk wrap ss" "s \<in> set ss"
  shows "add_store L fl s (acc, d, name) w = (case mk s (own_name s name) of
     Ok None \<Rightarrow> (Ok (acc, d \<or> ks_Kind s = StoreKindDigitalOcean, own_name s name), w)
   | Ok (Some st) \<Rightarrow> (Ok (acc @ [wrap s st], d \<or> ks_Kind s = StoreKindDigitalOcean, own_name s name), w)
   | Err e \<Rightarrow> if ks_Required s = Some False then (Ok (acc, d, own_name s name), w) else (Err e, w)
   | Panic p \<Rightarrow> (Panic p, w))"
  using assms by (simp add: add_store_def pure_libs_def Let_def tryIO_apply bindIO_apply split: res.splits option.splits)

text \<open>
  The loop of \<^verbatim>\<open>cmd_initialize\<close> in general: each factory gets the store's own kubeconfig name or, when it has none,
  that of the last store before it that has one.
\<close>

lemma add_stores_general:
  assumes "pure_libs L fl mk wrap ss"
  shows "foldIO (add_store L fl) ss (acc, d, name) w = (case built_stores mk wrap (zip ss (store_names name ss)) of
     Ok sts \<Rightarrow> (Ok (acc @ sts,
        d \<or> list_ex (\<lambda>(s, n). ks_Kind s = StoreKindDigitalOcean \<and> is_ok (mk s n)) (zip ss (store_names name ss)),
        last (name # store_names name ss)), w)
   | Err e \<Rightarrow> (Err e, w) | Panic p \<Rightarrow> (Panic p, w))"
  using assms
proof (induction ss arbitrary: acc d name)
  case (Cons s ss)
  have p: "pure_libs L fl mk wrap ss" using Cons.prems by (simp add: pure_libs_def)
  have l: "last (name # n # ns) = last (n # ns)" for name n :: string and ns by simp
  show ?case
    by (cases "mk s (own_name s name)")
      (auto simp: bindIO_apply add_store_step [OF Cons.prems] Cons.IH [OF p] is_ok_iff l disj_assoc split: option.splits res.splits if_splits simp del: last.simps)
qed simp

definition has_name :: "KubeconfigStore \<Rightarrow> bool" where
  "has_name s \<longleftrightarrow> (case ks_KubeconfigName s of None \<Rightarrow> False | Some n \<Rightarrow> n \<noteq> [])"

text \<open>What the documentation promises a store: its own name if it has one, the global one otherwise.\<close>

definition documented_name :: "string \<Rightarrow> KubeconfigStore \<Rightarrow> string" where
  "documented_name global s = (if has_name s then the (ks_KubeconfigName s) else global)"

lemma own_name_eq: "own_name s name = (if has_name s then the (ks_KubeconfigName s) else name)"
  by (auto simp: own_name_def has_name_def split: option.splits)

lemma store_names_all: "list_all has_name ss \<Longrightarrow> store_names name ss = map (documented_name g) ss"
  by (induction ss arbitrary: name) (simp_all add: own_name_eq documented_name_def)

lemma store_names_documented:
  "sorted_wrt (\<lambda>a b. has_name a \<longrightarrow> has_name b) ss \<Longrightarrow> store_names name ss = map (documented_name name) ss"
proof (induction ss arbitrary: name)
  case (Cons s ss)
  show ?case
  proof (cases "has_name s")
    case True
    then have "list_all has_name ss" using Cons.prems by (simp add: list_all_iff)
    then show ?thesis using True store_names_all [of ss "own_name s name" name]
      by (simp add: own_name_eq documented_name_def)
  next
    case False
    then show ?thesis using Cons by (simp add: own_name_eq documented_name_def)
  qed
qed simp

lemma zip_map_id: "zip xs (map f xs) = map (\<lambda>x. (x, f x)) xs"
  by (induction xs) simp_all


text \<open>A store without a name is built with the name of the store before it, not with the one of the flag.\<close>

lemma store_name_leaks:
  "ks_KubeconfigName a = Some n \<Longrightarrow> n \<noteq> [] \<Longrightarrow> ks_KubeconfigName b = None \<Longrightarrow> store_names name [a, b] = [n, n]"
  by (simp add: own_name_def)

section \<open>The store of the environment\<close>

lemma env_paths_Join:
  assumes "list_all (\<lambda>p. CHR '':'' \<notin> set p) ps" "ps \<noteq> []" "getenv w ''KUBECONFIG'' = Join ps '':''"
  shows "env_paths w config = map (util_ExpandEnv w)
      (filter (\<lambda>p. p \<noteq> [] \<and> \<not> HasSuffix p ''.tmp'' \<and> (\<forall>s \<in> set (cfg_KubeconfigStores config). p \<notin> set (ks_Paths s))) ps)"
  using Split_Join [OF assms(1,2)] assms(3)
  by (simp add: env_paths_def linuxEnvKubeconfigSeperator_def isDuplicatePath_def list_ex_iff conj_ac)

text \<open>
  The kubeconfig that the program itself made for a shell (its name ends in \<^verbatim>\<open>.tmp\<close>) never becomes a store, nor
  does a path the configuration lists; every other path of \<^verbatim>\<open>KUBECONFIG\<close> does, expanded, in order.
\<close>

theorem env_paths_spec:
  assumes "list_all (\<lambda>p. CHR '':'' \<notin> set p) ps" "ps \<noteq> []" "getenv w ''KUBECONFIG'' = Join ps '':''"
  shows "env_paths w config = map (util_ExpandEnv w)
      (filter (\<lambda>p. p \<noteq> [] \<and> \<not> HasSuffix p ''.tmp'' \<and> (\<forall>s \<in> set (cfg_KubeconfigStores config). p \<notin> set (ks_Paths s))) ps)"
  by (rule env_paths_Join [OF assms])

lemma session_no_store:
  assumes "getenv w ''KUBECONFIG'' = p @ ''.tmp''" "CHR '':'' \<notin> set p" "fl_kubeconfigPath fl = []"
  shows "getStoreFromFlagAndEnv fl config w = (Ok (None, fl), w)"
proof -
  have "env_paths w config = []"
    using env_paths_Join [of "[p @ ''.tmp'']" w config] assms(1,2) by (simp add: HasSuffix_iff)
  then show ?thesis using assms(3) by (simp add: getStoreFromFlagAndEnv_def getKubeconfigPathFromFlag_def)
qed

text \<open>The comparison with the configured paths is of unexpanded strings: one file can be searched twice.\<close>

lemma duplicate_after_expansion:
  assumes "getenv w ''KUBECONFIG'' = ''/h/c''" "ks_Paths s = [''$HOME/c'']" "getenv w ''HOME'' = ''/h''"
  shows "env_paths w (zero_config\<lparr>cfg_KubeconfigStores := [s]\<rparr>) = [''/h/c''] \<and> map (util_ExpandEnv w) (ks_Paths s) = [''/h/c'']"
proof -
  have "util_ExpandEnv w ''/h/c'' = ''/h/c''"
    by (simp add: util_ExpandEnv_def os_ExpandEnv_def ReplaceAll_def Split_single_no expand_with_no_dollar)
  moreover have "expand_with (getenv w) ''$HOME/c'' = ''/h/c''"
  proof -
    have "shell_name ''HOME/c'' = (''HOME'', 4)" by code_simp
    then show ?thesis using assms(3) by (simp add: expand_with_no_dollar)
  qed
  ultimately show ?thesis
    using env_paths_Join [of "[''/h/c'']" w "zero_config\<lparr>cfg_KubeconfigStores := [s]\<rparr>"] assms
    by (simp add: zero_config_def HasSuffix_def HasPrefix_def util_ExpandEnv_def os_ExpandEnv_def ReplaceAll_def Split_single_no)
qed

section \<open>The start as a whole\<close>

lemma flag_path_keeps: "getKubeconfigPathFromFlag fl w = (Ok (p, fl'), w') \<Longrightarrow> w' = w \<and> fl' = fl\<lparr>fl_kubeconfigPath := fl_kubeconfigPath fl'\<rparr>"
  by (auto simp: getKubeconfigPathFromFlag_def tryIO_apply Let_def split: if_splits prod.splits res.splits dest: os_Stat_same)

lemma load_config_valid:
  assumes "load_config L fl w = (Ok c, w')"
  shows "c = zero_config \<or> ValidateConfig (in_Gardener L) (in_GKE L) c = []"
  using assms by (auto simp: load_config_def bindIO_Ok_iff split: option.splits if_splits)

text \<open>
  What a start that succeeds hands on: the stores of the configuration file, all of a known kind, without a dot
  in the id and with the paths their kind needs, and at most one more, of the flag and the environment, with the id
  \<^verbatim>\<open>env-and-flag\<close> and at least one path; there is at least one store, and only the kubeconfig name and path among
  the flags have changed.
\<close>

theorem initialize_configuration:
  assumes "cmd_initialize L fl w = (Ok (stores, config, fl'), w')"
  shows "cfg_KubeconfigStores config \<noteq> [] \<and>
    (\<exists>ss rest. cfg_KubeconfigStores config = ss @ rest \<and> list_all store_ok ss \<and> length rest \<le> 1 \<and>
       list_all (\<lambda>s. ks_ID s = Some ''env-and-flag'' \<and> ks_Paths s \<noteq> [] \<and> ks_Kind s = fl_storageBackend fl) rest) \<and>
    fl' = fl\<lparr>fl_kubeconfigName := fl_kubeconfigName fl', fl_kubeconfigPath := fl_kubeconfigPath fl'\<rparr>"
proof -
  obtain c0 w1 where c0: "load_config L fl w = (Ok c0, w1)"
    using assms by (auto simp: cmd_initialize_def bindIO_Ok_iff)
  have ok: "list_all store_ok (cfg_KubeconfigStores c0)"
    using load_config_valid [OF c0] accepted_stores_ok by (auto simp: zero_config_def)
  define fl1 where "fl1 = use_config_name c0 fl"
  have fl1: "fl1 = fl\<lparr>fl_kubeconfigName := fl_kubeconfigName fl1\<rparr>" by (simp add: fl1_def use_config_name_def split: option.splits)
  obtain sff fl2 w2 where g: "getStoreFromFlagAndEnv fl1 c0 w1 = (Ok (sff, fl2), w2)"
    and c: "config = (case sff of None \<Rightarrow> c0 | Some s \<Rightarrow> c0\<lparr>cfg_KubeconfigStores := cfg_KubeconfigStores c0 @ [s]\<rparr>)"
    and ne: "cfg_KubeconfigStores config \<noteq> []" and fl': "\<exists>n. fl' = fl2\<lparr>fl_kubeconfigName := n\<rparr>"
    using assms c0 by (auto simp: cmd_initialize_def bindIO_Ok_iff Let_def fl1_def split: if_splits prod.splits)
  obtain p w3 where p: "getKubeconfigPathFromFlag fl1 w1 = (Ok (p, fl2), w3)"
    and s: "sff = (let paths = (if length p > 0 then [p] else []) @ env_paths w3 c0
        in if length paths = 0 then None else Some (flag_store fl2 paths))"
    using g by (auto simp: getStoreFromFlagAndEnv_def bindIO_Ok_iff Let_def)
  have fl2: "fl2 = fl1\<lparr>fl_kubeconfigPath := fl_kubeconfigPath fl2\<rparr>" using flag_path_keeps [OF p] by simp
  have be: "fl_storageBackend fl2 = fl_storageBackend fl"
    by (subst fl2, subst fl1) simp
  have rest: "list_all (\<lambda>s. ks_ID s = Some ''env-and-flag'' \<and> ks_Paths s \<noteq> [] \<and> ks_Kind s = fl_storageBackend fl) [s]" if "sff = Some s" for s
    using s that be by (auto simp: flag_store_def zero_store_def Let_def split: if_splits)
  have "fl' = fl\<lparr>fl_kubeconfigName := fl_kubeconfigName fl', fl_kubeconfigPath := fl_kubeconfigPath fl'\<rparr>"
    using fl' fl1 fl2 by (cases fl; cases fl1; cases fl2) auto
  moreover have "\<exists>ss rest. cfg_KubeconfigStores config = ss @ rest \<and> list_all store_ok ss \<and> length rest \<le> 1 \<and>
       list_all (\<lambda>s. ks_ID s = Some ''env-and-flag'' \<and> ks_Paths s \<noteq> [] \<and> ks_Kind s = fl_storageBackend fl) rest"
  proof (cases sff)
    case None
    then show ?thesis using c ok by (intro exI [of _ "cfg_KubeconfigStores c0"] exI [of _ "[]"]) simp
  next
    case (Some s)
    then show ?thesis using c ok rest [OF Some] by (intro exI [of _ "cfg_KubeconfigStores c0"] exI [of _ "[s]"]) simp
  qed
  ultimately show ?thesis using ne by blast
qed

section \<open>Two stores with one index file\<close>

text \<open>The full id of the validation is the one the stores have, which names the index file.\<close>

lemma full_id_base:
  "ks_Kind s \<noteq> ''gardener'' \<Longrightarrow> full_id gardener s = base_GetID \<lparr>base_Kind = ks_Kind s, base_KubeconfigStore = s\<rparr>"
  by (cases "ks_ID s") (simp_all add: full_id_def own_id_def base_GetID_def)

definition eks_ids :: "string option \<Rightarrow> int option \<Rightarrow> KubeconfigStore" where
  "eks_ids i refresh = zero_store\<lparr>ks_Kind := ''eks'', ks_ID := i, ks_RefreshIndexAfter := refresh\<rparr>"

text \<open>
  A store without an id and one with the id \<^verbatim>\<open>default\<close> pass the validation although both use an index, and so does
  a second store of the same kind and id that uses none, although a search writes the index of every store:
  in both cases the two stores write the same file.
\<close>

lemma accepted_stores_share_index:
  assumes "(i, j, refresh) \<in> {(None, Some ''default'', Some 3600), (None, None, None)}"
    and "a = eks_ids i (Some 3600)" and "b = eks_ids j refresh"
  shows "ValidateConfig gardener gke (zero_config\<lparr>cfg_Version := ''v1alpha1'', cfg_KubeconfigStores := [a, b]\<rparr>) = [] \<and>
     index_path dir (base_GetID \<lparr>base_Kind = ks_Kind a, base_KubeconfigStore = a\<rparr>) =
     index_path dir (base_GetID \<lparr>base_Kind = ks_Kind b, base_KubeconfigStore = b\<rparr>)"
  using assms by (auto simp: eks_ids_def zero_store_def zero_config_def ValidateConfig_def validate_store_def Let_def
    ValidStoreKinds_def ValidConfigVersions_def validateHooks_def go_defs Contains_single base_GetID_def)

section \<open>Concrete inputs\<close>

definition plain_store :: "KubeconfigStore \<Rightarrow> string \<Rightarrow> store" where
  "plain_store cfg name = \<lparr>st_GetID = ks_Kind cfg @ ''.'' @ name, st_GetKind = ks_Kind cfg, st_GetContextPrefix = (\<lambda>_. []),
     st_VerifyKubeconfigPaths = returnIO (), st_StartSearch = returnIO [],
     st_GetKubeconfigForPath = (\<lambda>p _. failIO (LibErr p)), st_GetStoreConfig = cfg, st_GetSearchPreview = None,
     st_GetShootLabelKeys = None, st_Flush = None\<rparr>"

definition startup_libs :: init_libs where
  "startup_libs = \<lparr>in_New = (\<lambda>_. Ok None), in_Old = (\<lambda>_. Ok None), in_WriteOld = (\<lambda>_. Ok []), in_WriteNew = (\<lambda>_. Ok []),
     in_Gardener = (\<lambda>_. Err (LibErr [])), in_GKE = (\<lambda>_. Err (LibErr [])),
     in_Registry = [(''filesystem'', \<lambda>cfg d. returnIO (Some (plain_store cfg (dep_KubeconfigName d))))],
     in_Caches = [(''memory'', \<lambda>s _. returnIO s)], in_DigitalOcean = (\<lambda>_. failIO (LibErr [])), in_LookKind = False,
     in_Kind = (\<lambda>_. Ok None), in_AsPeer = PlainStore, in_View = (\<lambda>_. plain_store zero_store []), in_Home = Ok ''/h''\<rparr>"

definition sample_flags :: flags where
  "sample_flags = \<lparr>fl_kubeconfigName = ''config'', fl_kubeconfigPath = [], fl_storageBackend = ''filesystem'', fl_vaultAPIAddress = [],
     fl_configPath = ''/none'', fl_stateDirectory = ''/s''\<rparr>"

definition sample_cfgs :: "KubeconfigStore list" where
  "sample_cfgs = [zero_store\<lparr>ks_Kind := ''filesystem''\<rparr>, zero_store\<lparr>ks_Kind := ''unknown'', ks_Required := Some False\<rparr>,
     zero_store\<lparr>ks_Kind := ''filesystem'', ks_KubeconfigName := Some ''*.yaml''\<rparr>]"


definition start_world :: world where
  "start_world = \<lparr>disk = [], faults = (\<lambda>_ _. None), getenv = (\<lambda>v. if v = ''KUBECONFIG'' then ''/h/c:/t/kubeconfig.tmp'' else []),
     clock = 0, umask = 18, rnd = (\<lambda>_. ''1''), rnd_pos = 0, out = []\<rparr>"

lemma start_env: "env_paths start_world zero_config = [''/h/c'']"
  using env_paths_Join [of "[''/h/c'', ''/t/kubeconfig.tmp'']" start_world zero_config]
  by (simp add: start_world_def zero_config_def HasSuffix_def HasPrefix_def util_ExpandEnv_def os_ExpandEnv_def ReplaceAll_def Split_single_no)

lemma env_paths_spec_witness: "env_paths start_world zero_config = [''/h/c'']"
  using env_paths_spec [of "[''/h/c'', ''/t/kubeconfig.tmp'']" start_world zero_config]
  by (simp add: start_world_def zero_config_def HasSuffix_def HasPrefix_def util_ExpandEnv_def os_ExpandEnv_def ReplaceAll_def Split_single_no)

lemma initialize_configuration_witness:
  "\<exists>config. cmd_initialize startup_libs sample_flags start_world =
       (Ok ([plain_store (flag_store sample_flags [''/h/c'']) ''config''], config, sample_flags), start_world) \<and>
     cfg_KubeconfigStores config \<noteq> []"
proof -
  have i: "cmd_initialize startup_libs sample_flags start_world =
      (Ok ([plain_store (flag_store sample_flags [''/h/c'']) ''config''],
        zero_config\<lparr>cfg_KubeconfigStores := [flag_store sample_flags [''/h/c'']]\<rparr>, sample_flags), start_world)"
  proof -
    have "util_ExpandEnv start_world ''/none'' = ''/none''"
      by (simp add: util_ExpandEnv_def os_ExpandEnv_def ReplaceAll_def Split_single_no)
    then have "load_config startup_libs sample_flags start_world = (Ok zero_config, start_world)"
      by (simp add: load_config_def sample_flags_def LoadConfigFromFile_def tryIO_apply wrapIO_apply bindIO_apply os_Stat_def
          with_fault_def start_world_def)
    moreover have "use_config_name zero_config sample_flags = sample_flags"
      by (simp add: use_config_name_def zero_config_def)
    moreover have "getStoreFromFlagAndEnv sample_flags zero_config start_world =
        (Ok (Some (flag_store sample_flags [''/h/c'']), sample_flags), start_world)"
      by (simp add: getStoreFromFlagAndEnv_def getKubeconfigPathFromFlag_def sample_flags_def start_env)
    moreover have "add_store startup_libs sample_flags (flag_store sample_flags [''/h/c'']) ([], False, ''config'') start_world =
        (Ok ([plain_store (flag_store sample_flags [''/h/c'']) ''config''], False, ''config''), start_world)"
      by (simp add: add_store_def flag_store_def sample_flags_def own_name_def Create_def startup_libs_def zero_store_def
          dependencies_def with_cache_def cache_New_def Let_def StoreKindDigitalOcean_def)
    moreover have "ResolvePeerStoresForAll (Ok ''/h'') v [PlainStore s] w = (Ok [PlainStore s], w)" for v s w
      by (simp add: ResolvePeerStoresForAll_def resolve_at_def)
    ultimately show ?thesis
      by (simp add: cmd_initialize_def zero_config_def sample_flags_def add_DigitalOcean_def add_Kind_def startup_libs_def peer_store_def
          flag_store_def zero_store_def StoreKindKind_def)
  qed
  from initialize_configuration [OF i] show ?thesis using i by blast
qed

end
