(* ===== verification/Namespaces.thy ===== *)
theory Namespaces
  imports KubeFiles History GoOS
begin

text \<open>
  Switching the namespace (\<^verbatim>\<open>pkg/subcommands/ns/ns.go\<close>, \<^verbatim>\<open>ns_index.go\<close>): the cache of the namespaces of a
  context, the list that is brought up to date from the cluster, and the commands that set a namespace in the
  current kubeconfig file.
\<close>

section \<open>The cache\<close>

record NamespaceCache =
  nc_cacheFilepath :: string
  nc_content :: "string list option"      \<comment> \<open>nil when the file has no line\<close>

definition namespaceSubdirectory :: string where "namespaceSubdirectory = ''namespace''"

definition nc_dir :: "string \<Rightarrow> string" where
  "nc_dir stateDirectory = stateDirectory @ ''/'' @ namespaceSubdirectory"

definition nc_path :: "string \<Rightarrow> string \<Rightarrow> string" where
  "nc_path stateDirectory contextName = nc_dir stateDirectory @ ''/'' @ ReplaceAll contextName ''/'' []"

text \<open>\<^verbatim>\<open>nc_loadFromFile\<close> puts each line before those read so far.\<close>

definition nc_loadFromFile :: "string \<Rightarrow> string list option io" where
  "nc_loadFromFile p = bindIO (os_Stat p) (\<lambda>_. bindIO (os_ReadFile p) (\<lambda>bs. case ScanLines bs of (lines, okay) \<Rightarrow>
     if okay then returnIO (if lines = [] then None else Some (fold (#) lines []))
     else failIO (LibErr ''bufio.Scanner: token too long'')))"

definition NewNamespaceCache :: "string \<Rightarrow> string \<Rightarrow> NamespaceCache io" where
  "NewNamespaceCache stateDirectory contextName = bindIO
     (tryIO (os_Stat (nc_dir stateDirectory)) (\<lambda>_. returnIO ())
        (\<lambda>e. if IsNotExist e then os_Mkdir (nc_dir stateDirectory) 448 else returnIO ()))
     (\<lambda>_. let p = nc_path stateDirectory contextName
        in tryIO (nc_loadFromFile p) (\<lambda>c. returnIO \<lparr>nc_cacheFilepath = p, nc_content = c\<rparr>)
          (\<lambda>e. if IsNotExist e then returnIO \<lparr>nc_cacheFilepath = p, nc_content = None\<rparr> else failIO e))"

definition nc_HasContent :: "NamespaceCache \<Rightarrow> bool" where
  "nc_HasContent i \<longleftrightarrow> nc_content i \<noteq> None \<or> length (case nc_content i of None \<Rightarrow> [] | Some c \<Rightarrow> c) = 0"

text \<open>The methods take a nil cache too.\<close>

definition nc_GetContent :: "NamespaceCache option \<Rightarrow> string list" where
  "nc_GetContent i = (case i of None \<Rightarrow> [] | Some c \<Rightarrow> (case nc_content c of None \<Rightarrow> [] | Some xs \<Rightarrow> xs))"

definition nc_Write :: "NamespaceCache option \<Rightarrow> string list \<Rightarrow> unit io" where
  "nc_Write i toWrite = (case i of None \<Rightarrow> returnIO ()
     | Some c \<Rightarrow> bindIO (os_Create (nc_cacheFilepath c)) (\<lambda>_.
         foldIO (\<lambda>value _. file_Write (nc_cacheFilepath c) (value @ [CHR 0x0A])) toWrite ()))"

section \<open>The list of namespaces\<close>

text \<open>The loop that filters the slice in place: the slice and the number of elements kept.\<close>

definition keep_step :: "('a \<Rightarrow> bool) \<Rightarrow> nat \<Rightarrow> 'a list \<times> nat \<Rightarrow> 'a list \<times> nat" where
  "keep_step P i st = (case st of (xs, n) \<Rightarrow> if P (xs ! i) then (xs[n := xs ! i], n + 1) else (xs, n))"

definition keep_in_place :: "('a \<Rightarrow> bool) \<Rightarrow> 'a list \<Rightarrow> 'a list" where
  "keep_in_place P xs = (case fold (keep_step P) [0..<length xs] (xs, 0) of (ys, n) \<Rightarrow> take n ys)"

text \<open>\<^verbatim>\<open>sets.String.List\<close> is sorted.\<close>

definition reconcile :: "string list \<Rightarrow> string list \<Rightarrow> string list" where
  "reconcile names cache_list = (let realNs = sort (remdups names)
     in keep_in_place (\<lambda>n. n \<in> set realNs) cache_list @ filter (\<lambda>n. n \<notin> set cache_list) realNs)"

text \<open>
  The cluster of a kubeconfig file: whether a namespace exists (the flag says that the error is not found), and
  the names of all. \<^verbatim>\<open>ListNamespaces\<close> builds its own client.
\<close>

record ns_client =
  cl_Get :: "string \<Rightarrow> (bool \<times> gerror) option"
  cl_List :: "string list res"

record ns_libs =
  nl_getClient :: "string \<Rightarrow> ns_client io"
  nl_clientset :: "string \<Rightarrow> string list res io"
  nl_RunList :: "string list \<Rightarrow> int io"
  nl_um :: "string \<Rightarrow> ynode res"
  nl_enc :: "ynode \<Rightarrow> string res"

definition refreshNamespacesFromCluster :: "ns_libs \<Rightarrow> string \<Rightarrow> string list \<Rightarrow> string list io" where
  "refreshNamespacesFromCluster L kcPath cache_list =
     tryIO (nl_getClient L kcPath)
       (\<lambda>cl. case cl_List cl of Ok names \<Rightarrow> returnIO (reconcile names cache_list) | _ \<Rightarrow> returnIO cache_list)
       (\<lambda>_. returnIO cache_list)"

section \<open>The commands\<close>

definition ns_getKubeconfigPath :: "string \<Rightarrow> string io" where
  "ns_getKubeconfigPath flag = (\<lambda>w. let env = getenv w ''KUBECONFIG'' in
     if (length flag = 0 \<or> flag = os_ExpandEnv w ''$HOME/.kube/config'') \<and> length env > 0 \<and> length (Split env '':'') > 1
     then (Err (Errorf ''providing multiple kubeconfig files via environment variable KUBECONFIG is not supported for namespace switching'' []), w)
     else let p = (if (length flag = 0 \<or> flag = os_ExpandEnv w ''$HOME/.kube/config'') \<and> length env > 0 then os_ExpandEnv w env else flag)
       in tryIO (os_Stat p) (\<lambda>_. returnIO p)
            (\<lambda>_. failIO (Errorf ''unable to list namespaces. The kubeconfig file %q does not exist'' [p])) w)"

definition check_namespace :: "ns_libs \<Rightarrow> string \<Rightarrow> string \<Rightarrow> unit io" where
  "check_namespace L kcPath target = bindIO
     (wrapIO ''failed to retrieve current namespaces: %w'' [] (nl_getClient L kcPath))
     (\<lambda>c. case cl_Get c target of None \<Rightarrow> returnIO ()
        | Some (notFound, e) \<Rightarrow> if notFound then failIO (Errorf ''namespace %q not found'' [target])
            else failIO (Wrapf ''failed to find namespace %q: %w'' [target] e))"

text \<open>Set the namespace of the current context and write the file; the result is the kubeconfig.\<close>

definition set_and_write :: "ns_libs \<Rightarrow> string \<Rightarrow> kubeconfig \<Rightarrow> kubeconfig io" where
  "set_and_write L ns k = bindIO (wrapIO ''failed to set namespace %q: %w'' [ns] (liftR (SetNamespaceForCurrentContext ns k))) (\<lambda>k'.
     bindIO (wrapIO ''failed to write kubeconfig file: %w'' [] (WriteKubeconfigFile (nl_enc L) k')) (\<lambda>_. returnIO k'))"

definition SwitchToNamespace :: "ns_libs \<Rightarrow> string \<Rightarrow> string \<Rightarrow> bool \<Rightarrow> unit io" where
  "SwitchToNamespace L target flag checkExistence = bindIO (ns_getKubeconfigPath flag) (\<lambda>p.
     bindIO (if checkExistence then check_namespace L p target else returnIO ()) (\<lambda>_.
     bindIO (NewKubeconfigForPath (nl_um L) p) (\<lambda>k.
     bindIO (set_and_write L target k) (\<lambda>k'.
     bindIO (liftR (GetKswitchContext k')) (\<lambda>ctx.
       wrapIO ''failed to write namespace history: %w'' [] (AppendToHistory ctx target))))))"

text \<open>The cache of a context: none without a context, with \<^verbatim>\<open>--no-index\<close>, and after an error.\<close>

definition cache_of :: "string \<Rightarrow> string \<Rightarrow> bool \<Rightarrow> NamespaceCache option io" where
  "cache_of stateDir ctx noIndex =
     (if length ctx > 0 \<and> \<not> noIndex
      then tryIO (NewNamespaceCache stateDir ctx) (\<lambda>c. returnIO (Some c)) (\<lambda>_. returnIO None)
      else returnIO None)"

definition SwitchNamespace :: "ns_libs \<Rightarrow> string \<Rightarrow> string \<Rightarrow> bool \<Rightarrow> unit io" where
  "SwitchNamespace L flag stateDir noIndex = bindIO (ns_getKubeconfigPath flag) (\<lambda>p.
     bindIO (NewKubeconfigForPath (nl_um L) p) (\<lambda>k.
     bindIO (liftR (GetKswitchContext k)) (\<lambda>ctx.
     bindIO (cache_of stateDir ctx noIndex) (\<lambda>c.
     bindIO (refreshNamespacesFromCluster L p (nc_GetContent c)) (\<lambda>allNamespaces.
     bindIO (nl_RunList L allNamespaces) (\<lambda>idx.
       if idx < 0 \<or> idx \<ge> int (length allNamespaces) then failIO (Errorf ''invalid namespace selection'' [])
       else let selected = allNamespaces ! nat idx in
         bindIO (set_and_write L selected k) (\<lambda>_.
           if length ctx = 0 then returnIO ()
           else bindIO (wrapIO ''failed to write namespace history: %w'' [] (AppendToHistory ctx selected)) (\<lambda>_.
             nc_Write c allNamespaces))))))))"

definition ListNamespaces :: "ns_libs \<Rightarrow> string \<Rightarrow> string \<Rightarrow> bool \<Rightarrow> string list io" where
  "ListNamespaces L flag stateDir noIndex = bindIO (ns_getKubeconfigPath flag) (\<lambda>p.
     bindIO (NewKubeconfigForPath (nl_um L) p) (\<lambda>k.
     bindIO (liftR (GetKswitchContext k)) (\<lambda>ctx.
       if length ctx = 0 then returnIO []
       else bindIO (cache_of stateDir ctx noIndex) (\<lambda>c.
         bindIO (nl_clientset L p) (\<lambda>names. bindIO (liftR names) (\<lambda>names.
           let allNamespaces = reconcile names (nc_GetContent c)
           in bindIO (nc_Write c allNamespaces) (\<lambda>_. returnIO allNamespaces)))))))"

section \<open>The list\<close>

text \<open>Filtering in place is filtering: what is written is always at or before what is read.\<close>

lemma keep_step_apply: "keep_step P i (xs, n) = (if P (xs ! i) then (xs[n := xs ! i], n + 1) else (xs, n))"
  by (simp add: keep_step_def)

lemma keep_loop:
  "i \<le> length xs \<Longrightarrow> \<exists>ys. fold (keep_step P) [0..<i] (xs, 0) = (ys, length (filter P (take i xs))) \<and> length ys = length xs \<and>
     take (length (filter P (take i xs))) ys = filter P (take i xs) \<and> drop i ys = drop i xs"
proof (induction i)
  case (Suc i)
  let ?n = "length (filter P (take i xs))"
  obtain ys where ys: "fold (keep_step P) [0..<i] (xs, 0) = (ys, ?n)" "length ys = length xs"
      "take ?n ys = filter P (take i xs)" "drop i ys = drop i xs"
    using Suc by auto
  have i: "i < length xs" using Suc by simp
  have nth: "ys ! i = xs ! i" using ys(2,4) i by (metis Cons_nth_drop_Suc list.inject)
  have dS: "drop (Suc i) ys = drop (Suc i) xs" using ys(4) by (metis drop_Suc drop_drop plus_1_eq_Suc add.commute drop_tl tl_drop)
  have n: "?n \<le> i" using length_filter_le [of P "take i xs"] i by simp
  have t: "take (Suc i) xs = take i xs @ [xs ! i]" using i by (rule take_Suc_conv_app_nth)
  show ?case
  proof (cases "P (xs ! i)")
    case False
    then show ?thesis using ys nth t dS by (simp add: keep_step_apply)
  next
    case True
    have "take (Suc ?n) (ys[?n := xs ! i]) = take ?n ys @ [xs ! i]"
      using n i ys(2) by (simp add: take_Suc_conv_app_nth)
    then show ?thesis using True ys nth t dS n by (simp add: keep_step_apply)
  qed
qed simp

theorem keep_in_place_filter: "keep_in_place P xs = filter P xs"
  using keep_loop [of "length xs" xs P] by (auto simp: keep_in_place_def)

text \<open>
  C19. The list that is shown: the cached namespaces that still exist, in their order, then the new ones sorted; as
  a set it is what the cluster has, and it has no duplicates unless the cache had.
\<close>

theorem reconcile_spec:
  "reconcile names cs = filter (\<lambda>n. n \<in> set names) cs @ sort (remdups (filter (\<lambda>n. n \<notin> set cs) names)) \<and>
     set (reconcile names cs) = set names \<and> (distinct (reconcile names cs) \<longleftrightarrow> distinct (filter (\<lambda>n. n \<in> set names) cs))"
proof -
  have s: "filter Q (sort (remdups names)) = sort (remdups (filter Q names))" for Q
    by (simp add: filter_sort remdups_filter)
  have r: "reconcile names cs = filter (\<lambda>n. n \<in> set names) cs @ sort (remdups (filter (\<lambda>n. n \<notin> set cs) names))"
    by (simp add: reconcile_def keep_in_place_filter s)
  then show ?thesis by auto
qed

section \<open>The cache file\<close>

text \<open>A test that is always true.\<close>

theorem HasContent_always: "nc_HasContent i"
  by (cases "nc_content i") (simp_all add: nc_HasContent_def)

lemma fold_Cons_rev: "fold (#) xs ys = rev xs @ ys"
  by (induction xs arbitrary: ys) auto

lemma foldIO_writes:
  "faults w OpWrite p = None \<Longrightarrow> foldIO (\<lambda>v _. file_Write p (v @ [CHR 0x0A])) vs () (put_file mode p b w) =
     (Ok (), put_file mode p (b @ unlines vs) w)"
  by (induction vs arbitrary: b) (simp_all add: bindIO_apply file_Write_after_open)

lemma nc_Write_ok:
  assumes "writable w (nc_cacheFilepath c)"
  shows "nc_Write (Some c) vs w = (Ok (), put_file 438 (nc_cacheFilepath c) (unlines vs) w)"
  using assms by (simp add: nc_Write_def os_Create_def os_open_write_True writable_def bindIO_apply foldIO_writes)

text \<open>
  A list that was cached is read back reversed: the order of the namespaces flips with every switch.
\<close>

theorem cache_reverses:
  assumes "writable w (nc_path dir ctx)" "list_all line_ok vs" "vs \<noteq> []"
    and "nc_Write (Some \<lparr>nc_cacheFilepath = nc_path dir ctx, nc_content = old\<rparr>) vs w = (Ok (), w')"
    and "faults w OpStat (nc_dir dir) = None" "faults w OpStat (nc_path dir ctx) = None" "faults w OpRead (nc_path dir ctx) = None"
    and "map_of (disk w) (nc_dir dir) = Some (DirE m)"
  shows "NewNamespaceCache dir ctx w' = (Ok \<lparr>nc_cacheFilepath = nc_path dir ctx, nc_content = Some (rev vs)\<rparr>, w')"
proof -
  let ?p = "nc_path dir ctx"
  have w': "w' = put_file 438 ?p (unlines vs) w"
    using nc_Write_ok [of w "\<lparr>nc_cacheFilepath = ?p, nc_content = old\<rparr>" vs] assms(1,4) by simp
  have f: "faults w' = faults w" by (simp add: w')
  have b: "file_bytes w' ?p = Some (unlines vs)" by (simp add: w')
  have "?p \<noteq> nc_dir dir" by (simp add: nc_path_def)
  then have "map_of (disk w') (nc_dir dir) = Some (DirE m)"
    using assms(8) by (simp add: w' put_file_def update_conv')
  then have d: "os_Stat (nc_dir dir) w' = (Ok (DirE m), w')"
    using f assms(5) by (simp add: os_Stat_def with_fault_def)
  have "is_file w' ?p" using b by (simp add: is_file_def)
  then obtain fe where s: "os_Stat ?p w' = (Ok fe, w')" using os_Stat_file [of w' ?p] f assms(6) by auto
  have r: "os_ReadFile ?p w' = (Ok (unlines vs), w')" using b f assms(7) by (simp add: os_ReadFile_Ok)
  have "nc_loadFromFile ?p w' = (Ok (Some (rev vs)), w')"
    using s r ScanLines_unlines [OF assms(2)] assms(3) by (simp add: nc_loadFromFile_def fold_Cons_rev)
  then show ?thesis using d by (simp add: NewNamespaceCache_def Let_def)
qed

text \<open>
  The contexts of two stores share a cache file as soon as their names differ only in where the slash is, so
  the namespaces of one are shown for the other when its cluster does not answer.
\<close>

theorem cache_file_shared:
  "nc_path dir (store1 @ ''/'' @ ctx1) = nc_path dir (store2 @ ''/'' @ ctx2) \<longleftrightarrow>
     filter (\<lambda>c. c \<noteq> CHR ''/'') (store1 @ ctx1) = filter (\<lambda>c. c \<noteq> CHR ''/'') (store2 @ ctx2)"
  by (simp add: nc_path_def ReplaceAll_delete)

section \<open>Switching\<close>

lemma SetNamespaceForCurrentContext_same:
  "SetNamespaceForCurrentContext ns k = Ok k' \<Longrightarrow> kc_path k' = kc_path k \<and> kc_useTmpFile k' = kc_useTmpFile k"
  by (auto simp: SetNamespaceForCurrentContext_def SetNamespace_def Let_def set_contexts_def split: if_splits)

lemma New_same: "New um bs p b = Ok k \<Longrightarrow> kc_path k = p \<and> kc_useTmpFile k = b"
proof -
  assume "New um bs p b = Ok k"
  then obtain n where n: "um bs = Ok n" and k: "New um bs p b = Ok k" by (auto simp: New_def)
  then show ?thesis by (cases "Content n") (auto simp: New_def split: if_splits)
qed

text \<open>
  A namespace that the cluster does not have is refused, and then nothing is written: neither the kubeconfig
  nor the history.
\<close>

theorem SwitchToNamespace_refuses:
  assumes "ns_getKubeconfigPath flag w = (Ok p, w)" and "nl_getClient L p w = (Ok cl, w)" and "cl_Get cl ns = Some (nf, e)"
  shows "\<exists>e'. SwitchToNamespace L ns flag True w = (Err e', w)"
  using assms by (cases nf) (auto simp: SwitchToNamespace_def check_namespace_def)

text \<open>
  A switch that succeeds has set the namespace of the current context in the kubeconfig file that is in use, and
  has not touched any other file but the history.
\<close>

theorem SwitchToNamespace_writes:
  assumes "SwitchToNamespace L ns flag False w = (Ok (), w')" and "ns_getKubeconfigPath flag w = (Ok p, w)"
    and "NewKubeconfigForPath (nl_um L) p w = (Ok k, w)" and "p \<noteq> historyFilePath w"
  shows "\<exists>k' bs. SetNamespaceForCurrentContext ns k = Ok k' \<and> nl_enc L (kc_rootNode k') = Ok bs \<and> file_bytes w' p = Some bs \<and>
     (\<forall>q. q \<noteq> p \<and> q \<noteq> historyFilePath w \<longrightarrow> file_bytes w' q = file_bytes w q)"
proof -
  have kp: "kc_path k = p" "\<not> kc_useTmpFile k"
    using assms(3) by (auto simp: NewKubeconfigForPath_def bindIO_Ok_iff dest: New_same)
  obtain k' name w1 ctx where k': "SetNamespaceForCurrentContext ns k = Ok k'"
    and wr: "WriteKubeconfigFile (nl_enc L) k' w = (Ok name, w1)"
    and h: "AppendToHistory ctx ns w1 = (Ok (), w')"
    using assms(1-3) by (auto simp: SwitchToNamespace_def set_and_write_def bindIO_Ok_iff)
  have same: "kc_path k' = p \<and> \<not> kc_useTmpFile k'" using SetNamespaceForCurrentContext_same [OF k'] kp by simp
  from WriteKubeconfigFile_Ok [OF wr] obtain bs w2 where bs: "nl_enc L (kc_rootNode k') = Ok bs" "w1 = put_file 384 name bs w2"
    "getenv w2 = getenv w" "file_bytes w2 = file_bytes w" "name = p"
    using same by auto
  have hp: "historyFilePath w1 = historyFilePath w" using bs by (simp add: historyFilePath_def)
  have fr: "file_bytes w' q = file_bytes w1 q" if "q \<noteq> historyFilePath w" for q
    using AppendToHistory_frame [OF h] that hp by simp
  show ?thesis using k' bs fr assms(4) by (intro exI [of _ k'] exI [of _ bs]) auto
qed

end
