(* ===== verification/ListContexts.thy ===== *)
theory ListContexts
  imports Commands GardenerIds GoGlob Util
begin

text \<open>
  Listing the contexts that match a pattern (\<^verbatim>\<open>pkg/subcommands/list-contexts/list-contexts.go\<close>) and running a
  command on each of them (\<^verbatim>\<open>pkg/subcommands/exec/exec.go\<close>, \<^verbatim>\<open>cmd/kswitch/exec.go\<close>). \<^verbatim>\<open>re\<close> compiles a regular
  expression.
\<close>

section \<open>Matching a name\<close>

type_synonym regexp = "string \<Rightarrow> (string \<Rightarrow> bool) res"

definition matchesRegexp :: "regexp \<Rightarrow> string \<Rightarrow> string \<Rightarrow> bool res" where
  "matchesRegexp re pattern name = bindR (re pattern) (\<lambda>m. Ok (m name \<or> list_ex m (Split name ''/'')))"

definition matchesPattern :: "string \<Rightarrow> string \<Rightarrow> bool res" where
  "matchesPattern pattern name =
     (if pattern = ''*'' then Ok True
      else bindR (path_Match pattern name) (\<lambda>okay.
        Ok (okay \<or> list_ex (\<lambda>seg. path_Match pattern seg = Ok True) (Split name ''/''))))"

section \<open>The list\<close>

record ListEntry =
  le_Name :: string
  le_Display :: string
  le_Suffix :: string

definition shown_name :: "DiscoveredContext \<Rightarrow> string" where
  "shown_name dc = (if dc_Alias dc \<noteq> [] then dc_Alias dc else dc_Name dc)"

definition candidates :: "DiscoveredContext \<Rightarrow> string list" where
  "candidates dc = shown_name dc # (if dc_Alias dc \<noteq> [] \<and> dc_Alias dc \<noteq> dc_Name dc then [dc_Name dc] else [])"

text \<open>An error of the pattern is logged and ends the candidates of the context.\<close>

fun any_matches :: "(string \<Rightarrow> bool res) \<Rightarrow> string list \<Rightarrow> bool" where
  "any_matches f [] = False"
| "any_matches f (c # cs) = (case f c of Ok okay \<Rightarrow> okay \<or> any_matches f cs | _ \<Rightarrow> False)"

definition list_entry :: "DiscoveredContext \<Rightarrow> store \<Rightarrow> ListEntry" where
  "list_entry dc s = (case FormatDisplayName (st_GetKind s) (dc_Path dc) (dc_Name dc) (dc_Alias dc) (dc_Tags dc) (labelDisplayKeys s) of
     (disp, suff) \<Rightarrow> \<lparr>le_Name = shown_name dc, le_Display = disp, le_Suffix = suff\<rparr>)"

fun collect_entries :: "(string \<Rightarrow> bool res) \<Rightarrow> DiscoveredContext list \<Rightarrow> ListEntry list res" where
  "collect_entries f [] = Ok []"
| "collect_entries f (dc # dcs) = bindR (store_of dc) (\<lambda>s.
     if any_matches f (candidates dc) then mapR ((#) (list_entry dc s)) (collect_entries f dcs) else collect_entries f dcs)"

text \<open>\<^verbatim>\<open>sort.Slice\<close> by the text shown; entries with the same text keep their order here.\<close>

definition entry_text :: "ListEntry \<Rightarrow> string" where
  "entry_text e = le_Display e @ le_Suffix e"

definition ListContextsVerbose ::
    "search_libs \<Rightarrow> merge \<Rightarrow> regexp \<Rightarrow> string \<Rightarrow> bool \<Rightarrow> store list \<Rightarrow> Config option \<Rightarrow> string \<Rightarrow> bool \<Rightarrow> ListEntry list io" where
  "ListContextsVerbose L merge re pattern isRegexp stores config stateDir noIndex =
     bindIO (wrapIO ''cannot list contexts: %w'' []
        (if noIndex then DoSearch L stores config stateDir True else DoSearchFromIndex L stores config stateDir)) (\<lambda>c.
     bindIO (received_contexts L merge stateDir c) (\<lambda>dcs.
     bindIO (ApplyContextFilters (sl_um_kube L) (filter (\<lambda>d. dc_Error d = None) dcs)) (\<lambda>all.
       liftR (mapR (sort_key entry_text)
         (collect_entries (if isRegexp then matchesRegexp re pattern else matchesPattern pattern) all)))))"

definition ListContextsFiltered ::
    "search_libs \<Rightarrow> merge \<Rightarrow> regexp \<Rightarrow> string \<Rightarrow> bool \<Rightarrow> store list \<Rightarrow> Config option \<Rightarrow> string \<Rightarrow> bool \<Rightarrow> string list io" where
  "ListContextsFiltered L merge re pattern isRegexp stores config stateDir noIndex =
     bindIO (ListContextsVerbose L merge re pattern isRegexp stores config stateDir noIndex) (\<lambda>es. returnIO (map le_Name es))"

definition ListContexts ::
    "search_libs \<Rightarrow> merge \<Rightarrow> regexp \<Rightarrow> string \<Rightarrow> store list \<Rightarrow> Config option \<Rightarrow> string \<Rightarrow> bool \<Rightarrow> string list io" where
  "ListContexts L merge re pattern = ListContextsFiltered L merge re pattern False"

definition ListContextsRegexp ::
    "search_libs \<Rightarrow> merge \<Rightarrow> regexp \<Rightarrow> string \<Rightarrow> store list \<Rightarrow> Config option \<Rightarrow> string \<Rightarrow> bool \<Rightarrow> string list io" where
  "ListContextsRegexp L merge re pattern = ListContextsFiltered L merge re pattern True"

section \<open>Exec\<close>

definition Replace1 :: "string \<Rightarrow> string \<Rightarrow> string \<Rightarrow> string" where
  "Replace1 s old new = (case Cut s old of None \<Rightarrow> s | Some (a, b) \<Rightarrow> a @ new @ b)"

definition format_line :: "string \<Rightarrow> string \<Rightarrow> string \<Rightarrow> string \<Rightarrow> string" where
  "format_line LogFormat time level message =
     Replace1 (Replace1 (Replace1 LogFormat ''%time%'' time) ''%msg%'' message) ''%lvl%'' level"

definition quote :: char where "quote = CHR 0x27"
definition backslash :: char where "backslash = CHR 0x5C"

definition shellQuote :: "string \<Rightarrow> string" where
  "shellQuote s = [quote] @ ReplaceAll s [quote] [quote, backslash, quote, quote] @ [quote]"

definition shellCommand :: "string list \<Rightarrow> string" where
  "shellCommand command = (if length command < 2 then Join command [] else Join (map shellQuote command) '' '')"

text \<open>The program and its arguments; indexing an empty command is a panic.\<close>

definition exec_argv :: "Config option \<Rightarrow> string list \<Rightarrow> (string \<times> string list) res" where
  "exec_argv config command = (case config of
     Some c \<Rightarrow> (case cfg_ExecShell c of Some sh \<Rightarrow> Ok (sh, [''-c'', shellCommand command])
        | None \<Rightarrow> (case command of [] \<Rightarrow> Panic ''index out of range'' | p # ps \<Rightarrow> Ok (p, ps)))
   | None \<Rightarrow> (case command of [] \<Rightarrow> Panic ''index out of range'' | p # ps \<Rightarrow> Ok (p, ps)))"

text \<open>
  The contexts one after the other: \<^verbatim>\<open>setctx\<close> makes the kubeconfig of one, \<^verbatim>\<open>run\<close> runs a program with additional
  environment variables and prints its output; its status is dropped. The first context that cannot be set ends
  the loop.
\<close>

fun exec_loop ::
    "(string \<Rightarrow> (string \<times> string) io) \<Rightarrow> (string \<Rightarrow> string list \<Rightarrow> string \<Rightarrow> unit io) \<Rightarrow> Config option \<Rightarrow> string list \<Rightarrow> string list \<Rightarrow> unit io" where
  "exec_loop setctx run config command [] = returnIO ()"
| "exec_loop setctx run config command (ctx # ctxs) =
     bindIO (setctx ctx) (\<lambda>(tmpKubeconfigFile, _).
     bindIO (liftR (exec_argv config command)) (\<lambda>(prog, args).
     bindIO (run prog args (''KUBECONFIG='' @ tmpKubeconfigFile)) (\<lambda>_. exec_loop setctx run config command ctxs)))"

definition ExecuteCommand ::
    "search_libs \<Rightarrow> merge \<Rightarrow> regexp \<Rightarrow> (string \<Rightarrow> ynode res) \<Rightarrow> (ynode \<Rightarrow> string res) \<Rightarrow> (string \<Rightarrow> string list \<Rightarrow> string \<Rightarrow> unit io) \<Rightarrow>
     string \<Rightarrow> string list \<Rightarrow> store list \<Rightarrow> Config option \<Rightarrow> string \<Rightarrow> bool \<Rightarrow> unit io" where
  "ExecuteCommand L merge re um enc run pattern command stores config stateDir noIndex =
     bindIO (ListContexts L merge re pattern stores config stateDir noIndex)
       (exec_loop (\<lambda>ctx. cmd_SetContext L merge um enc ctx stores config stateDir noIndex False) run config command)"

text \<open>The arguments of \<^verbatim>\<open>kswitch exec\<close>: the pattern and the command after the two dashes.\<close>

definition command_args :: "string list \<Rightarrow> string list \<Rightarrow> (string \<times> string list) res" where
  "command_args osArgs args = bindR (SplitAdditionalArgs osArgs args) (\<lambda>(cmdArgs, args).
     if length cmdArgs \<ge> 1
     then (case args of [] \<Rightarrow> Panic ''index out of range''
        | a # _ \<Rightarrow> if length a > 0 then Ok (a, cmdArgs) else Err (Errorf ''please provide a search string and the command to execute on each cluster'' []))
     else Err (Errorf ''please provide a search string and the command to execute on each cluster'' []))"

section \<open>What is listed\<close>

text \<open>
  The list: every context whose alias or name the pattern accepts, and no other, once per context and sorted by
  the text shown; a context without a store is the only way to fail.
\<close>

theorem collect_entries_spec:
  "collect_entries f all = (if list_all (\<lambda>d. dc_Store d \<noteq> None) all
     then Ok (map (\<lambda>d. list_entry d (the (dc_Store d))) (filter (\<lambda>d. any_matches f (candidates d)) all))
     else Panic nil_deref)"
proof (induction all)
  case (Cons d all)
  then show ?case by (cases "dc_Store d") (auto simp: store_of_def)
qed simp

text \<open>
  A pattern without special characters matches a name that is it or has it as a segment; the star alone matches
  every name. But a star inside a pattern does not match across a slash, although the comment says so.
\<close>

theorem matchesPattern_literal:
  assumes "literal p" "p \<noteq> ''*''"
  shows "matchesPattern p name = Ok (name = p \<or> p \<in> set (Split name ''/''))"
  using assms by (auto simp: matchesPattern_def path_Match_literal list_ex_iff)

lemma matchesPattern_star: "matchesPattern ''*'' name = Ok True"
  by (simp add: matchesPattern_def)

lemma star_stops_at_slash: "matchesPattern ''ns*ext'' ''ns/ctx-ext'' = Ok False"
  by code_simp

section \<open>Quoting for the shell\<close>

text \<open>
  How a POSIX shell splits a script into words, as far as quotes and backslashes go: nothing when the script needs
  more than that (an expansion, a redirection, a comment, an operator) or a quote is not closed. The second
  argument is the word that is open.
\<close>

definition shell_plain :: "char \<Rightarrow> bool" where
  "shell_plain c \<longleftrightarrow> c \<notin> set (''$`|&;<>(){}*?[]~#=%!'' @ [CHR 0x22, CHR 0x09, CHR 0x0A])"

function sh_words :: "string \<Rightarrow> string option \<Rightarrow> string list option" where
  "sh_words [] cur = Some (case cur of None \<Rightarrow> [] | Some w \<Rightarrow> [w])"
| "sh_words (c # s) cur = (let w = (case cur of None \<Rightarrow> [] | Some w \<Rightarrow> w) in
     if c = CHR '' '' then map_option ((@) (case cur of None \<Rightarrow> [] | Some w \<Rightarrow> [w])) (sh_words s None)
     else if c = quote then (case Cut s [quote] of None \<Rightarrow> None | Some (q, rest) \<Rightarrow> sh_words rest (Some (w @ q)))
     else if c = backslash then (case s of [] \<Rightarrow> None | x # s' \<Rightarrow> sh_words s' (Some (w @ [x])))
     else if shell_plain c then sh_words s (Some (w @ [c])) else None)"
  by pat_completeness auto
termination
  by (relation "measure (\<lambda>(s, cur). length s)") (auto dest: Cut_shorter simp: less_SucI)

declare sh_words.simps [simp del]

lemma ReplaceAll_char: "ReplaceAll s [c] r = concat (map (\<lambda>x. if x = c then r else [x]) s)"
proof (induction s "[c]" rule: Split.induct)
  case (1 s)
  have plain: "concat (map (\<lambda>x. if x = c then r else [x]) s) = s" if "c \<notin> set s" for s
    using that by (induction s) auto
  show ?case
  proof (cases "c \<in> set s")
    case False
    then show ?thesis using plain by (simp add: ReplaceAll_def Split_single_no)
  next
    case True
    then obtain a b where s: "s = a @ c # b" "c \<notin> set a" by (meson split_list_first)
    have "ReplaceAll b [c] r = concat (map (\<lambda>x. if x = c then r else [x]) b)"
      using 1 s by (auto simp: Cut_single)
    then show ?thesis using s plain [OF s(2)] by (simp add: ReplaceAll_def Split_single_Cons Join_Cons)
  qed
qed

abbreviation quoted_char :: "char \<Rightarrow> string" where
  "quoted_char \<equiv> (\<lambda>x. if x = quote then [quote, backslash, quote, quote] else [x])"

text \<open>A quoted word inside a script: the open word is continued by it.\<close>

lemma sh_words_quote:
  "quote \<notin> set q \<Longrightarrow> sh_words ((quote # q @ [quote]) @ t) cur = sh_words t (Some ((case cur of None \<Rightarrow> [] | Some w \<Rightarrow> w) @ q))"
  using Cut_single [of quote q t] by (simp add: sh_words.simps(2) quote_def Let_def)

lemma sh_words_escape:
  "sh_words (backslash # x # t) cur = sh_words t (Some ((case cur of None \<Rightarrow> [] | Some w \<Rightarrow> w) @ [x]))"
  by (simp add: sh_words.simps(2) backslash_def quote_def Let_def)

lemma sh_words_shellQuote:
  "sh_words (shellQuote s @ t) cur = sh_words t (Some ((case cur of None \<Rightarrow> [] | Some w \<Rightarrow> w) @ s))"
proof -
  have "sh_words (quote # concat (map quoted_char s) @ quote # t) cur = sh_words t (Some ((case cur of None \<Rightarrow> [] | Some w \<Rightarrow> w) @ s))"
  proof (induction s arbitrary: cur rule: length_induct)
    case (1 s)
    show ?case
    proof (cases "quote \<in> set s")
      case False
      then have "concat (map quoted_char s) = s" by (induction s) auto
      then show ?thesis using sh_words_quote [OF False, of t cur] by simp
    next
      case True
      then obtain a b where s: "s = a @ quote # b" "quote \<notin> set a" by (meson split_list_first)
      have a: "concat (map quoted_char a) = a" using s(2) by (induction a) auto
      have "sh_words (quote # concat (map quoted_char s) @ quote # t) cur =
          sh_words ((quote # a @ [quote]) @ backslash # quote # (quote # concat (map quoted_char b) @ quote # t)) cur"
        using s(1) a by simp
      also have "\<dots> = sh_words (quote # concat (map quoted_char b) @ quote # t) (Some (((case cur of None \<Rightarrow> [] | Some w \<Rightarrow> w) @ a) @ [quote]))"
        unfolding sh_words_quote [OF s(2)] sh_words_escape by simp
      also have "\<dots> = sh_words t (Some ((((case cur of None \<Rightarrow> [] | Some w \<Rightarrow> w) @ a) @ [quote]) @ b))"
        using 1 s(1) by simp
      finally show ?thesis using s(1) by simp
    qed
  qed
  then show ?thesis by (simp add: shellQuote_def ReplaceAll_char)
qed

lemma sh_words_blank: "sh_words (CHR '' '' # t) (Some w) = map_option ((#) w) (sh_words t None)"
  by (simp add: sh_words.simps(2)) (cases "sh_words t None"; simp)

text \<open>
  C17. Several arguments after the two dashes reach the shell as these very words, whatever characters they hold:
  splitting the script of \<^verbatim>\<open>shellCommand\<close> the way a shell does gives the command back.
\<close>

theorem shellCommand_words: "length command \<ge> 2 \<Longrightarrow> sh_words (shellCommand command) None = Some command"
proof -
  have "sh_words (Join (map shellQuote (c # cs)) '' '') None = Some (c # cs)" for c cs
  proof (induction cs arbitrary: c)
    case Nil
    show ?case using sh_words_shellQuote [of c "[]" None] by (simp add: sh_words.simps(1))
  next
    case (Cons d ds)
    have "sh_words (Join (map shellQuote (c # d # ds)) '' '') None =
        sh_words (shellQuote c @ CHR '' '' # Join (map shellQuote (d # ds)) '' '') None" by simp
    also have "\<dots> = map_option ((#) c) (sh_words (Join (map shellQuote (d # ds)) '' '') None)"
      unfolding sh_words_shellQuote by (simp add: sh_words_blank)
    finally show ?case using Cons by simp
  qed
  then show "length command \<ge> 2 \<Longrightarrow> sh_words (shellCommand command) None = Some command"
    by (cases command) (auto simp: shellCommand_def)
qed

text \<open>A single argument is passed on as a script, so its words are the shell's.\<close>

lemma shellCommand_single: "shellCommand [c] = c"
  by (simp add: shellCommand_def)

lemma shellCommand_words_witness:
  "sh_words (shellCommand [''a'' @ [quote] @ ''; b'', [], ''c d'']) None = Some [''a'' @ [quote] @ ''; b'', [], ''c d'']"
  by (rule shellCommand_words) simp

section \<open>Running a command\<close>

text \<open>A pattern is required, but leaving it out ends the program with a panic instead of the message.\<close>

lemma exec_without_pattern_panics: "is_panic (command_args [''kswitch'', ''exec'', ''--'', ''ls''] [''ls''])"
  by code_simp

text \<open>A line of output that holds \<^verbatim>\<open>%lvl%\<close> is not printed as it is.\<close>

lemma output_changed: "format_line ''%msg%'' [] ''INFO'' ''a%lvl%b'' = ''aINFOb''"
  by code_simp

text \<open>
  When every context can be set, the program runs once per listed context, in the order of the list, with that
  context's kubeconfig; otherwise it runs for those before the first that cannot be set.
\<close>

fun runs_for :: "(string \<Rightarrow> string) \<Rightarrow> (string \<Rightarrow> bool) \<Rightarrow> string list \<Rightarrow> string list" where
  "runs_for file okay ctxs = map file (takeWhile okay ctxs)"

theorem exec_loop_spec:
  assumes "exec_argv config command = Ok (prog, args)"
    and "\<forall>c v. setctx c v = ((if okay c then Ok (file c, c) else Err (e c)), v)"
    and "\<forall>p as k v. run p as k v = (Ok (), v\<lparr>out := (p @ k) # out v\<rparr>)"
  shows "\<exists>r. exec_loop setctx run config command ctxs w =
      (r, w\<lparr>out := rev (map (\<lambda>f. prog @ ''KUBECONFIG='' @ f) (runs_for file okay ctxs)) @ out w\<rparr>) \<and>
     (is_ok r \<longleftrightarrow> list_all okay ctxs)"
proof (induction ctxs arbitrary: w)
  case (Cons c cs)
  show ?case
  proof (cases "okay c")
    case False
    then show ?thesis using assms(2) by (auto simp: bindIO_apply is_ok_iff)
  next
    case True
    then have "exec_loop setctx run config command (c # cs) w =
        exec_loop setctx run config command cs (w\<lparr>out := (prog @ ''KUBECONFIG='' @ file c) # out w\<rparr>)"
      using assms by (simp add: bindIO_apply)
    then show ?thesis using Cons [of "w\<lparr>out := (prog @ ''KUBECONFIG='' @ file c) # out w\<rparr>"] True by simp
  qed
qed (simp add: is_ok_iff)

end
