(* ===== verification/CommandLine.thy ===== *)
theory CommandLine
  imports Startup ListContexts Namespaces MergeDefault GardenerControl Hooks
begin

text \<open>
  The commands of \<^verbatim>\<open>cmd/kswitch\<close>: what each \<^verbatim>\<open>RunE\<close> does with the flags and the arguments, from the start of the
  stores to the line it prints. Cobra's parsing of flags and its help are left out: the flags are a record.
\<close>

section \<open>Flags, libraries, and the line that reports a context\<close>

record cli =
  c_flags :: flags
  c_root :: root_flags
  c_noIndex :: bool
  c_showPreview :: bool
  c_write :: bool
  c_verbose :: bool
  c_regexp :: bool
  c_checkExistence :: bool
  c_hookName :: string
  c_runImmediately :: bool
  c_args :: "string list"                       \<comment> \<open>\<^verbatim>\<open>os.Args\<close>\<close>

record 'r cli_libs =
  cl_init :: init_libs
  cl_search :: search_libs
  cl_merge :: merge
  cl_um :: "string \<Rightarrow> ynode res"
  cl_enc :: "ynode \<Rightarrow> string res"
  cl_re :: regexp
  cl_RunList :: "string list \<Rightarrow> nat io"
  cl_tui :: "ContextItem list \<Rightarrow> (string, store) gomap \<Rightarrow> bool \<Rightarrow> tui_result io"
  cl_ns :: ns_libs
  cl_gardener :: "'r gardener_libs"
  cl_listed :: "store \<Rightarrow> listed_store"
  cl_exec :: "string \<Rightarrow> string list \<Rightarrow> string \<Rightarrow> unit io"
  cl_load :: "string \<Rightarrow> Config option io"        \<comment> \<open>\<^verbatim>\<open>LoadConfigFromFile\<close> for the hooks\<close>
  cl_hook_um :: "string \<Rightarrow> HookState option res"
  cl_hook_marshal :: "HookState \<Rightarrow> string res"
  cl_hook_run :: "string \<Rightarrow> string list \<Rightarrow> string list io"
  cl_alias_um :: "string \<Rightarrow> (string, string) gomap option res"

definition response :: "string \<Rightarrow> string \<Rightarrow> string" where
  "response kcPath contextName = ''__ '' @ kcPath @ '','' @ contextName"

definition reportNewContext :: "string option \<Rightarrow> string option \<Rightarrow> unit io" where
  "reportNewContext kcPath contextName = (case kcPath of None \<Rightarrow> returnIO ()
     | Some p \<Rightarrow> (case contextName of None \<Rightarrow> returnIO () | Some c \<Rightarrow> fmt_Print (response p c)))"

text \<open>The history commands return a file, perhaps a context, and perhaps an error, all of which are used.\<close>

definition report_all :: "string option \<times> string option \<times> gerror option \<Rightarrow> unit io" where
  "report_all = (\<lambda>(kcPath, contextName, err). bindIO (reportNewContext kcPath contextName)
     (\<lambda>_. case err of None \<Rightarrow> returnIO () | Some e \<Rightarrow> failIO e))"

definition with_stores :: "'r cli_libs \<Rightarrow> cli \<Rightarrow> (store list \<Rightarrow> Config \<Rightarrow> flags \<Rightarrow> 'b io) \<Rightarrow> 'b io" where
  "with_stores L c f = bindIO (cmd_initialize (cl_init L) (c_flags c)) (\<lambda>(stores, config, fl). f stores config fl)"

definition first_arg :: "string list \<Rightarrow> string io" where
  "first_arg args = (case args of [] \<Rightarrow> liftR (Panic ''index out of range'') | a # _ \<Rightarrow> returnIO a)"

section \<open>Commands on contexts\<close>

definition set_context :: "'r cli_libs \<Rightarrow> cli \<Rightarrow> store list \<Rightarrow> Config \<Rightarrow> flags \<Rightarrow> bool \<Rightarrow> string \<Rightarrow> (string \<times> string) io" where
  "set_context L c stores config fl appendToHistory ctx =
     cmd_SetContext (cl_search L) (cl_merge L) (cl_um L) (cl_enc L) ctx stores (Some config) (fl_stateDirectory fl) (c_noIndex c) appendToHistory"

definition setContextCmd :: "'r cli_libs \<Rightarrow> cli \<Rightarrow> string list \<Rightarrow> unit io" where
  "setContextCmd L c args = with_stores L c (\<lambda>stores config fl. bindIO (first_arg args) (\<lambda>a.
     bindIO (set_context L c stores config fl True a) (\<lambda>(p, ctx). reportNewContext (Some p) (Some ctx))))"

text \<open>\<^verbatim>\<open>PreRunE\<close> of the command, which the root command does not run.\<close>

definition setContext_PreRun :: "'r cli_libs \<Rightarrow> cli \<Rightarrow> unit io" where
  "setContext_PreRun L c = RunHooks (cl_load L) (cl_hook_um L) (cl_hook_marshal L) (cl_hook_run L)
     (fl_configPath (c_flags c)) (fl_stateDirectory (c_flags c)) [] False"

definition previousContextCmd :: "'r cli_libs \<Rightarrow> cli \<Rightarrow> unit io" where
  "previousContextCmd L c = with_stores L c (\<lambda>stores config fl.
     bindIO (SetPreviousContext (set_context L c stores config fl False) (cl_um L) (cl_enc L)) report_all)"

definition lastContextCmd :: "'r cli_libs \<Rightarrow> cli \<Rightarrow> unit io" where
  "lastContextCmd L c = with_stores L c (\<lambda>stores config fl.
     bindIO (SetLastContext (set_context L c stores config fl False) (cl_um L) (cl_enc L)) report_all)"

definition historyCmd :: "'r cli_libs \<Rightarrow> cli \<Rightarrow> unit io" where
  "historyCmd L c = with_stores L c (\<lambda>stores config fl.
     bindIO (SwitchToHistory (cl_RunList L) (set_context L c stores config fl False) (cl_um L) (cl_enc L)) report_all)"

definition list_pattern :: "string list \<Rightarrow> string" where
  "list_pattern args = (case args of [a] \<Rightarrow> if length a > 0 then a else ''*'' | _ \<Rightarrow> ''*'')"

definition entry_line :: "ListEntry \<Rightarrow> string" where
  "entry_line e = (if le_Suffix e \<noteq> [] then le_Display e @ '' '' @ le_Suffix e else le_Display e)"

definition listContextsCmd :: "'r cli_libs \<Rightarrow> cli \<Rightarrow> string list \<Rightarrow> unit io" where
  "listContextsCmd L c args = with_stores L c (\<lambda>stores config fl. let pattern = list_pattern args
     in if c_verbose c
        then bindIO (ListContextsVerbose (cl_search L) (cl_merge L) (cl_re L) pattern (c_regexp c) stores (Some config) (fl_stateDirectory fl) (c_noIndex c))
          (\<lambda>es. foldIO (\<lambda>e _. fmt_Print (entry_line e)) es ())
        else bindIO (ListContextsFiltered (cl_search L) (cl_merge L) (cl_re L) pattern (c_regexp c) stores (Some config) (fl_stateDirectory fl) (c_noIndex c))
          (\<lambda>ns. foldIO (\<lambda>n _. fmt_Print n) ns ()))"

text \<open>The names offered when a context is completed.\<close>

definition complete_contexts :: "'r cli_libs \<Rightarrow> cli \<Rightarrow> string \<Rightarrow> string list io" where
  "complete_contexts L c start = with_stores L c (\<lambda>stores config fl.
     ListContexts (cl_search L) (cl_merge L) (cl_re L) (if start \<noteq> [] then start @ ''*'' else ''*'') stores (Some config) (fl_stateDirectory fl) (c_noIndex c))"

definition resolveContextName :: "'r cli_libs \<Rightarrow> string \<Rightarrow> string io" where
  "resolveContextName L contextName = (if contextName = ''.'' then util_GetCurrentContext (cl_um L) else returnIO contextName)"

definition deleteContextCmd :: "'r cli_libs \<Rightarrow> string list \<Rightarrow> unit io" where
  "deleteContextCmd L args = bindIO (first_arg args) (\<lambda>a. bindIO (resolveContextName L a) (DeleteContext (cl_um L) (cl_enc L)))"

definition unsetContextCmd :: "'r cli_libs \<Rightarrow> unit io" where
  "unsetContextCmd L = UnsetCurrentContext (cl_um L) (cl_enc L)"

definition currentContextCmd :: "'r cli_libs \<Rightarrow> unit io" where
  "currentContextCmd L = bindIO (util_GetCurrentContext (cl_um L)) fmt_Print"

section \<open>The other commands\<close>

definition aliasContextCmd :: "'r cli_libs \<Rightarrow> cli \<Rightarrow> string list \<Rightarrow> unit io" where
  "aliasContextCmd L c args = (case args of
     [a] \<Rightarrow> (case Split a ''='' of
         [aliasName, ctx] \<Rightarrow> bindIO (resolveContextName L ctx) (\<lambda>ctxName. with_stores L c (\<lambda>stores config fl.
            cmd_Alias (cl_search L) (cl_merge L) aliasName ctxName stores (Some config) (fl_stateDirectory fl) (c_noIndex c)))
       | _ \<Rightarrow> failIO (Errorf ''please provide the alias in the form ALIAS=CONTEXT_NAME'' []))
   | _ \<Rightarrow> failIO (Errorf ''please provide the alias in the form ALIAS=CONTEXT_NAME'' []))"

definition aliasRmCmd :: "'r cli_libs \<Rightarrow> cli \<Rightarrow> string list \<Rightarrow> unit io" where
  "aliasRmCmd L c args = bindIO (first_arg args) (\<lambda>a. RemoveAlias (cl_alias_um L) a (fl_stateDirectory (c_flags c)))"

definition cleanCmd :: "'r cli_libs \<Rightarrow> cli \<Rightarrow> unit io" where
  "cleanCmd L c = with_stores L c (\<lambda>stores config fl. Clean_cmd stores)"

definition showCmd :: "'r cli_libs \<Rightarrow> cli \<Rightarrow> string list \<Rightarrow> unit io" where
  "showCmd L c args = bindIO (wrapIO ''cannot initialize: %w'' [] (cmd_initialize (cl_init L) (c_flags c))) (\<lambda>(stores, config, fl).
     bindIO (first_arg args) (\<lambda>a.
     bindIO (wrapIO ''cannot show kubeconfig: %w'' []
       (cmd_Show (cl_search L) (cl_merge L) a stores (Some config) (fl_stateDirectory fl) (c_noIndex c))) fmt_Print))"

definition execCmd :: "'r cli_libs \<Rightarrow> cli \<Rightarrow> string list \<Rightarrow> unit io" where
  "execCmd L c args = with_stores L c (\<lambda>stores config fl. bindIO (liftR (command_args (c_args c) args)) (\<lambda>(pattern, command).
     ExecuteCommand (cl_search L) (cl_merge L) (cl_re L) (cl_um L) (cl_enc L) (cl_exec L) pattern command stores (Some config)
       (fl_stateDirectory fl) (c_noIndex c)))"

definition namespaceCommand :: "'r cli_libs \<Rightarrow> cli \<Rightarrow> string list \<Rightarrow> unit io" where
  "namespaceCommand L c args = bindIO (getKubeconfigPathFromFlag (c_flags c)) (\<lambda>(flag, fl).
     case args of [a] \<Rightarrow> if length a > 0 then SwitchToNamespace (cl_ns L) a flag (c_checkExistence c)
                         else SwitchNamespace (cl_ns L) flag (fl_stateDirectory fl) (c_noIndex c)
      | _ \<Rightarrow> SwitchNamespace (cl_ns L) flag (fl_stateDirectory fl) (c_noIndex c))"

definition unsetNamespaceCommand :: "'r cli_libs \<Rightarrow> cli \<Rightarrow> unit io" where
  "unsetNamespaceCommand L c = bindIO (getKubeconfigPathFromFlag (c_flags c)) (\<lambda>(flag, fl).
     SwitchToNamespace (cl_ns L) ''default'' flag False)"

definition controlplaneCmd :: "'r cli_libs \<Rightarrow> cli \<Rightarrow> unit io" where
  "controlplaneCmd L c = with_stores L c (\<lambda>stores config fl. bindIO (getKubeconfigPathFromFlag fl) (\<lambda>(flag, _).
     bindIO (SwitchToControlplane (cl_gardener L) (map (cl_listed L) stores) flag) (\<lambda>_. returnIO ())))"

definition hookCmd :: "'r cli_libs \<Rightarrow> cli \<Rightarrow> unit io" where
  "hookCmd L c = RunHooks (cl_load L) (cl_hook_um L) (cl_hook_marshal L) (cl_hook_run L)
     (fl_configPath (c_flags c)) (fl_stateDirectory (c_flags c)) (c_hookName c) (c_runImmediately c)"

definition mergeToDefaultCmd :: "'r cli_libs \<Rightarrow> unit io" where
  "mergeToDefaultCmd L = bindIO (MergeToDefault (cl_um L) (cl_enc L))
     (\<lambda>r. fmt_Print (''Merged context '' @ mr_Context r @ '' into '' @ mr_Destination r))"

definition getSupportedStores :: string where
  "getSupportedStores = fold (\<lambda>kind s. s @ '' '' @ kind) (sort ValidStoreKinds) ''['' @ '' ]''"

section \<open>The root command\<close>

text \<open>Without arguments: the list of contexts; with \<^verbatim>\<open>--write\<close> the file made for the context is merged.\<close>

definition report_or_merge :: "'r cli_libs \<Rightarrow> bool \<Rightarrow> (string \<times> string) option \<Rightarrow> unit io" where
  "report_or_merge L write r = (case r of None \<Rightarrow> returnIO ()
     | Some (p, contextName) \<Rightarrow>
         if write
         then bindIO (wrapIO ''failed to read temporary kubeconfig: %w'' [] (os_ReadFile p)) (\<lambda>kubeconfigData.
              bindIO ResolveWriteTarget (\<lambda>targetPath.
              bindIO (MergeDataToTarget (cl_um L) (cl_enc L) kubeconfigData targetPath) (\<lambda>result.
                reportNewContext (Some (mr_Destination result)) (Some contextName))))
         else reportNewContext (Some p) (Some contextName))"

definition search_action :: "'r cli_libs \<Rightarrow> cli \<Rightarrow> unit io" where
  "search_action L c = with_stores L c (\<lambda>stores config fl.
     bindIO (Switcher (cl_search L) (cl_merge L) (cl_um L) (cl_enc L) (cl_tui L) [] stores (Some config) (fl_stateDirectory fl)
       (c_noIndex c) (effective_preview (c_showPreview c) config)) (report_or_merge L (effective_write (c_write c) config)))"

definition root_RunE :: "'r cli_libs \<Rightarrow> cli \<Rightarrow> string list \<Rightarrow> unit io" where
  "root_RunE L c args = (case root_action (c_root c) args of
     RunDelete as \<Rightarrow> deleteContextCmd L as
   | RunUnset as \<Rightarrow> unsetContextCmd L
   | RunCurrent as \<Rightarrow> currentContextCmd L
   | RunPrevious as \<Rightarrow> previousContextCmd L c
   | RunLast as \<Rightarrow> lastContextCmd L c
   | RunSet as \<Rightarrow> setContextCmd L c as
   | RunSearch \<Rightarrow> search_action L c)"

end
