(* ===== verification/CommandTree.thy ===== *)
theory CommandTree
  imports CommandLine
begin

text \<open>
  The tree of commands that the \<^verbatim>\<open>init\<close> functions of \<^verbatim>\<open>cmd/kswitch\<close> build: names, aliases, argument rules, completion, flags
  with their variables and defaults, and how a line of words reaches the handler of \<^verbatim>\<open>CommandLine\<close>. Of cobra the model has
  what its documentation says: a word selects a subcommand by name or alias, the arguments are checked, then the hooks and the
  command run; defining a flag or a shorthand twice in one command is a panic. Help texts are left out.
\<close>

section \<open>A command\<close>

text \<open>The texts and tools of \<^verbatim>\<open>init\<close> and \<^verbatim>\<open>version\<close>, and \<^verbatim>\<open>cobra.AppendActiveHelp\<close> for one text.\<close>

record 'r tree_libs =
  tr_cli :: "'r cli_libs"
  tr_Executable :: "string option"                \<comment> \<open>\<^verbatim>\<open>os.Executable\<close>\<close>
  tr_shellScriptTemplate :: string
  tr_fishScript :: string
  tr_powershellScript :: string
  tr_GenCompletion :: "string \<Rightarrow> unit io"
  tr_goVersion :: string
  tr_goCompiler :: string
  tr_GOOS :: string
  tr_GOARCH :: string
  tr_version :: string
  tr_buildDate :: string
  tr_ActiveHelp :: "string \<Rightarrow> string"
  tr_Help :: "string \<Rightarrow> unit io"

record 'r command =
  co_Use :: string
  co_Aliases :: "string list"
  co_Args :: "root_flags \<Rightarrow> string list \<Rightarrow> unit res"
  co_ValidArgs :: "('r tree_libs \<Rightarrow> cli \<Rightarrow> string list \<Rightarrow> string \<Rightarrow> string list io) option"
  co_PreRunE :: "'r tree_libs \<Rightarrow> cli \<Rightarrow> unit io"
  co_RunE :: "('r tree_libs \<Rightarrow> cli \<Rightarrow> string list \<Rightarrow> unit io) option"

definition AnyArgs :: "root_flags \<Rightarrow> string list \<Rightarrow> unit res" where
  "AnyArgs f args = Ok ()"

definition NoArgs :: "root_flags \<Rightarrow> string list \<Rightarrow> unit res" where
  "NoArgs f args = (case args of [] \<Rightarrow> Ok () | a # _ \<Rightarrow> Err (Errorf ''unknown command %q for %q'' [a]))"

definition ExactArgs :: "nat \<Rightarrow> root_flags \<Rightarrow> string list \<Rightarrow> unit res" where
  "ExactArgs n f args = (if length args = n then Ok () else Err (Errorf ''accepts %d arg(s), received %d'' [itoa n, itoa (length args)]))"

text \<open>\<^verbatim>\<open>ShellCompDirectiveNoFileComp\<close> with no candidates, and the handlers that ask a function and drop its error.\<close>

definition no_completion :: "'r tree_libs \<Rightarrow> cli \<Rightarrow> string list \<Rightarrow> string \<Rightarrow> string list io" where
  "no_completion L c args start = returnIO []"

definition first_only :: "('r tree_libs \<Rightarrow> cli \<Rightarrow> string \<Rightarrow> string list io) \<Rightarrow> 'r tree_libs \<Rightarrow> cli \<Rightarrow> string list \<Rightarrow> string \<Rightarrow> string list io" where
  "first_only f L c args start =
     (if length args \<noteq> 0 then returnIO []
      else (\<lambda>w. case f L c start w of (Ok xs, w') \<Rightarrow> (Ok xs, w') | (Err e, w') \<Rightarrow> (Ok [], w') | (Panic p, w') \<Rightarrow> (Panic p, w')))"

definition quoted :: "string \<Rightarrow> string" where
  "quoted s = [CHR 0x27] @ s @ [CHR 0x27]"

definition no_hook :: "'r tree_libs \<Rightarrow> cli \<Rightarrow> unit io" where
  "no_hook L c = returnIO ()"

definition plain_command :: "string \<Rightarrow> string list \<Rightarrow> (root_flags \<Rightarrow> string list \<Rightarrow> unit res) \<Rightarrow>
    ('r tree_libs \<Rightarrow> cli \<Rightarrow> string list \<Rightarrow> unit io) \<Rightarrow> 'r command" where
  "plain_command use al ar run = \<lparr>co_Use = use, co_Aliases = al, co_Args = ar, co_ValidArgs = None, co_PreRunE = no_hook, co_RunE = Some run\<rparr>"

definition completed :: "('r tree_libs \<Rightarrow> cli \<Rightarrow> string list \<Rightarrow> string \<Rightarrow> string list io) \<Rightarrow> 'r command \<Rightarrow> 'r command" where
  "completed f co = co\<lparr>co_ValidArgs := Some f\<rparr>"

section \<open>The commands\<close>

definition aliasContext_command :: "'r command" where
  "aliasContext_command = plain_command ''alias'' [] AnyArgs (\<lambda>L c args. aliasContextCmd (tr_cli L) c args)"

definition aliasLs_command :: "'r command" where
  "aliasLs_command = completed no_completion (plain_command ''ls'' [] NoArgs (\<lambda>L c args. ListAliases (cl_alias_um (tr_cli L)) (fl_stateDirectory (c_flags c))))"

definition aliasRm_command :: "'r command" where
  "aliasRm_command = (plain_command ''rm'' [] (ExactArgs 1) (\<lambda>L c args. aliasRmCmd (tr_cli L) c args))
     \<lparr>co_ValidArgs := Some (first_only (\<lambda>L c start. GetAliases (cl_alias_um (tr_cli L)) (fl_stateDirectory (c_flags c))))\<rparr>"

definition clean_command :: "'r command" where
  "clean_command = completed no_completion (plain_command ''clean'' [] NoArgs (\<lambda>L c args. cleanCmd (tr_cli L) c))"

definition previousContext_command :: "'r command" where
  "previousContext_command = completed no_completion (plain_command ''set-previous-context'' [''spc''] NoArgs (\<lambda>L c args. previousContextCmd (tr_cli L) c))"

definition lastContext_command :: "'r command" where
  "lastContext_command = completed no_completion (plain_command ''set-last-context'' [''slc''] NoArgs (\<lambda>L c args. lastContextCmd (tr_cli L) c))"

definition listContexts_command :: "'r command" where
  "listContexts_command = (plain_command ''list-contexts [search]'' [''ls''] AnyArgs (\<lambda>L c args. listContextsCmd (tr_cli L) c args))
     \<lparr>co_ValidArgs := Some ((\<lambda>L c args start. returnIO (if length args \<noteq> 0 then []
        else [tr_ActiveHelp L (''You can provide a wildcard search string, like so: '' @ quoted ''*-dev-*'' @ '' to limit the search'')])))\<rparr>"

definition setContext_command :: "'r command" where
  "setContext_command = (plain_command ''set-context'' [''set'', ''sc'', ''set-context''] (ExactArgs 1) (\<lambda>L c args. setContextCmd (tr_cli L) c args))
     \<lparr>co_ValidArgs := Some (first_only (\<lambda>L. complete_contexts (tr_cli L))), co_PreRunE := (\<lambda>L. setContext_PreRun (tr_cli L))\<rparr>"

definition deleteContext_command :: "'r command" where
  "deleteContext_command = (plain_command ''delete-context'' [] (ExactArgs 1) (\<lambda>L c args. deleteContextCmd (tr_cli L) args))
     \<lparr>co_ValidArgs := Some (first_only (\<lambda>L. complete_contexts (tr_cli L)))\<rparr>"

definition unsetContext_command :: "'r command" where
  "unsetContext_command = completed no_completion (plain_command ''unset-context'' [] NoArgs (\<lambda>L c args. unsetContextCmd (tr_cli L)))"

definition currentContext_command :: "'r command" where
  "currentContext_command = completed no_completion (plain_command ''current-context'' [] NoArgs (\<lambda>L c args. currentContextCmd (tr_cli L)))"

definition exec_command :: "'r command" where
  "exec_command = (plain_command ''exec wildcard-search -- COMMAND [args...]'' [''e''] AnyArgs (\<lambda>L c args. execCmd (tr_cli L) c args))
     \<lparr>co_ValidArgs := Some ((\<lambda>L c args start. returnIO [tr_ActiveHelp L
        (if length args = 0 then ''You must provide a wildcard search string, like so: '' @ quoted ''*-dev-*''
         else if length args = 1 then ''Give a '' @ quoted ''--'' @ '' to indicate start of command''
         else ''Provide the command to send to the contexts'')]))\<rparr>"

text \<open>This command only holds another one.\<close>

definition gardener_command :: "'r command" where
  "gardener_command = (plain_command ''gardener'' [] AnyArgs (\<lambda>L c args. returnIO ()))\<lparr>co_RunE := None\<rparr>"

definition controlplane_command :: "'r command" where
  "controlplane_command = plain_command ''controlplane'' [] AnyArgs (\<lambda>L c args. controlplaneCmd (tr_cli L) c)"

definition history_command :: "'r command" where
  "history_command = completed no_completion (plain_command ''history'' [''h'', ''history''] NoArgs (\<lambda>L c args. historyCmd (tr_cli L) c))"

definition hook_command :: "'r command" where
  "hook_command = plain_command ''hooks'' [] AnyArgs (\<lambda>L c args. hookCmd (tr_cli L) c)"

definition hookLs_command :: "'r command" where
  "hookLs_command = completed no_completion (plain_command ''ls'' [] NoArgs (\<lambda>L c args. bindIO
     (ListHooks (cl_load (tr_cli L)) (cl_hook_um (tr_cli L)) (fl_configPath (c_flags c)) (fl_stateDirectory (c_flags c))) (\<lambda>_. returnIO ())))"

definition executablePath :: "'r tree_libs \<Rightarrow> string" where
  "executablePath L = (case tr_Executable L of None \<Rightarrow> ''kswitch'' | Some path \<Rightarrow> path)"

definition initCmd :: "'r tree_libs \<Rightarrow> string list \<Rightarrow> unit io" where
  "initCmd L args = (let shellScript = ReplaceAll (tr_shellScriptTemplate L) ''{{KSWITCH_EXECUTABLE}}'' (executablePath L)
     in bindIO (first_arg args) (\<lambda>a.
       if a = ''bash'' then bindIO (fmt_Print shellScript) (\<lambda>_. tr_GenCompletion L ''bash'')
       else if a = ''zsh'' then bindIO (fmt_Print shellScript) (\<lambda>_. tr_GenCompletion L ''zsh'')
       else if a = ''fish'' then bindIO (fmt_Print (tr_fishScript L)) (\<lambda>_. tr_GenCompletion L ''fish'')
       else if a = ''powershell'' then bindIO (fmt_Print (tr_powershellScript L)) (\<lambda>_. tr_GenCompletion L ''powershell'')
       else failIO (Errorf ''unsupported shell type: %s'' [a])))"

definition init_command :: "'r command" where
  "init_command = (plain_command ''init [bash|zsh|fish|powershell]'' [] (ExactArgs 1) (\<lambda>L c args. initCmd L args))
     \<lparr>co_ValidArgs := Some ((\<lambda>L c args start. returnIO [''bash'', ''zsh'', ''fish'', ''powershell'']))\<rparr>"

definition mergeToDefault_command :: "'r command" where
  "mergeToDefault_command = plain_command ''merge-to-default-kubeconfig'' [] NoArgs (\<lambda>L c args. mergeToDefaultCmd (tr_cli L))"

definition namespace_command :: "'r command" where
  "namespace_command = (plain_command ''namespace'' [''ns''] AnyArgs (\<lambda>L c args. namespaceCommand (tr_cli L) c args))
     \<lparr>co_ValidArgs := Some (first_only (\<lambda>L c start. bindIO (getKubeconfigPathFromFlag (c_flags c)) (\<lambda>(flag, fl).
        ListNamespaces (cl_ns (tr_cli L)) flag (fl_stateDirectory fl) (c_noIndex c))))\<rparr>"

definition unsetNamespace_command :: "'r command" where
  "unsetNamespace_command = completed no_completion (plain_command ''unset-namespace'' [] NoArgs (\<lambda>L c args. unsetNamespaceCommand (tr_cli L) c))"

definition show_command :: "'r command" where
  "show_command = plain_command ''show'' [] (ExactArgs 1) (\<lambda>L c args. showCmd (tr_cli L) c args)"

definition versionCmd :: "'r tree_libs \<Rightarrow> unit io" where
  "versionCmd L = (let ln = [CHR 0x0A, CHR 0x09, CHR 0x09]
     in fmt_Print (''Switch:'' @ ln @ ''version       : '' @ tr_version L @ ln @ ''build date    : '' @ tr_buildDate L @
       ln @ ''go version    : '' @ tr_goVersion L @ ln @ ''go compiler   : '' @ tr_goCompiler L @
       ln @ ''platform      : '' @ tr_GOOS L @ ''/'' @ tr_GOARCH L @ ln @ ''backing-stores: '' @ getSupportedStores @ [CHR 0x0A]))"

definition version_command :: "'r command" where
  "version_command = plain_command ''version'' [] AnyArgs (\<lambda>L c args. versionCmd L)"

definition root_Args :: "root_flags \<Rightarrow> string list \<Rightarrow> unit res" where
  "root_Args f args = (if rf_delete f then ExactArgs 1 f args else if rf_unset f \<or> rf_current f then NoArgs f args else Ok ())"

definition root_command_record :: "'r command" where
  "root_command_record = plain_command ''kswitch'' [] root_Args (\<lambda>L c args. root_RunE (tr_cli L) c args)"

section \<open>The tree and its flags\<close>

datatype cid = C_RootCommand | C_AliasContext | C_AliasLs | C_AliasRm | C_Clean | C_PreviousContext | C_LastContext | C_ListContexts | C_SetContext
  | C_DeleteContext | C_UnsetContext | C_CurrentContext | C_Exec | C_Gardener | C_Controlplane | C_History | C_Hook | C_HookLs | C_Init
  | C_MergeToDefault | C_Namespace | C_UnsetNamespace | C_Show | C_Version

primrec command_of :: "cid \<Rightarrow> 'r command" where
  "command_of C_RootCommand = root_command_record"
| "command_of C_AliasContext = aliasContext_command"
| "command_of C_AliasLs = aliasLs_command"
| "command_of C_AliasRm = aliasRm_command"
| "command_of C_Clean = clean_command"
| "command_of C_PreviousContext = previousContext_command"
| "command_of C_LastContext = lastContext_command"
| "command_of C_ListContexts = listContexts_command"
| "command_of C_SetContext = setContext_command"
| "command_of C_DeleteContext = deleteContext_command"
| "command_of C_UnsetContext = unsetContext_command"
| "command_of C_CurrentContext = currentContext_command"
| "command_of C_Exec = exec_command"
| "command_of C_Gardener = gardener_command"
| "command_of C_Controlplane = controlplane_command"
| "command_of C_History = history_command"
| "command_of C_Hook = hook_command"
| "command_of C_HookLs = hookLs_command"
| "command_of C_Init = init_command"
| "command_of C_MergeToDefault = mergeToDefault_command"
| "command_of C_Namespace = namespace_command"
| "command_of C_UnsetNamespace = unsetNamespace_command"
| "command_of C_Show = show_command"
| "command_of C_Version = version_command"

text \<open>The variables the flags set.\<close>

datatype flag_var = V_showDebugLogs | V_noIndex | V_kubeconfigPath | V_stateDirectory | V_storageBackend | V_kubeconfigName
  | V_vaultAPIAddressFromFlag | V_configPath | V_showPreview | V_listVerbose | V_listRegexp | V_deleteContext | V_unsetContext
  | V_currentContext | V_writeToKubeconfig | V_hookName | V_runImmediately | V_checkExistence

datatype flag_value = FBool bool | FString string

text \<open>
  What the \<^verbatim>\<open>init\<close> functions build: the children of the commands in order, the flags with their command, name and
  shorthand, and the variables, which are set to the default when a flag is defined.
\<close>

record cmd_tree =
  tr_children :: "(cid \<times> cid) list"
  tr_flags :: "(cid \<times> string \<times> string \<times> flag_var) list"
  tr_vars :: "(flag_var \<times> flag_value) list"

definition AddCommand :: "cid \<Rightarrow> cid \<Rightarrow> cmd_tree \<Rightarrow> cmd_tree res" where
  "AddCommand parent child t = (if parent = child then Panic ''Command can not be a child of itself''
     else Ok (t\<lparr>tr_children := tr_children t @ [(parent, child)]\<rparr>))"

definition VarP :: "flag_var \<Rightarrow> string \<Rightarrow> string \<Rightarrow> flag_value \<Rightarrow> cid \<Rightarrow> cmd_tree \<Rightarrow> cmd_tree res" where
  "VarP v nm short d cm t =
     (if \<exists>f \<in> set (tr_flags t). fst f = cm \<and> fst (snd f) = nm then Panic ''flag redefined''
      else if short \<noteq> [] \<and> (\<exists>f \<in> set (tr_flags t). fst f = cm \<and> fst (snd (snd f)) = short) then Panic ''shorthand already used''
      else Ok (t\<lparr>tr_flags := tr_flags t @ [(cm, nm, short, v)], tr_vars := AList.update v d (tr_vars t)\<rparr>))"

definition Var :: "flag_var \<Rightarrow> string \<Rightarrow> flag_value \<Rightarrow> cid \<Rightarrow> cmd_tree \<Rightarrow> cmd_tree res" where
  "Var v nm = VarP v nm []"

definition in_order :: "(cmd_tree \<Rightarrow> cmd_tree res) list \<Rightarrow> cmd_tree \<Rightarrow> cmd_tree res" where
  "in_order fs t = foldR (\<lambda>f. f) fs t"

definition setCommonFlags :: "string \<Rightarrow> cid \<Rightarrow> cmd_tree \<Rightarrow> cmd_tree res" where
  "setCommonFlags home cm = in_order
     [Var V_showDebugLogs ''debug'' (FBool False) cm,
      Var V_noIndex ''no-index'' (FBool False) cm,
      Var V_kubeconfigPath ''kubeconfig-path'' (FString cmd_defaultKubeconfigPath) cm,
      Var V_stateDirectory ''state-directory'' (FString (home @ ''/.kube/switch-state'')) cm]"

definition setFlagsForContextCommands :: "string \<Rightarrow> cid \<Rightarrow> cmd_tree \<Rightarrow> cmd_tree res" where
  "setFlagsForContextCommands home cm = in_order
     [setCommonFlags home cm,
      Var V_storageBackend ''store'' (FString ''filesystem'') cm,
      Var V_kubeconfigName ''kubeconfig-name'' (FString defaultKubeconfigName) cm,
      Var V_vaultAPIAddressFromFlag ''vault-api-address'' (FString []) cm,
      Var V_configPath ''config-path'' (FString (home @ ''/.kube/switch-config.yaml'')) cm,
      Var V_showPreview ''show-preview'' (FBool True) cm]"

definition init_alias :: "string \<Rightarrow> cmd_tree \<Rightarrow> cmd_tree res" where
  "init_alias home = in_order
     [Var V_stateDirectory ''state-directory'' (FString (home @ ''/.kube/switch-state'')) C_AliasRm,
      AddCommand C_AliasContext C_AliasLs,
      AddCommand C_AliasContext C_AliasRm,
      setFlagsForContextCommands home C_AliasContext,
      AddCommand C_RootCommand C_AliasContext]"

definition init_clean :: "cmd_tree \<Rightarrow> cmd_tree res" where
  "init_clean = AddCommand C_RootCommand C_Clean"

definition init_context :: "string \<Rightarrow> cmd_tree \<Rightarrow> cmd_tree res" where
  "init_context home = in_order
     [AddCommand C_RootCommand C_CurrentContext,
      AddCommand C_RootCommand C_DeleteContext,
      AddCommand C_RootCommand C_SetContext,
      AddCommand C_RootCommand C_ListContexts,
      AddCommand C_RootCommand C_UnsetContext,
      AddCommand C_RootCommand C_PreviousContext,
      AddCommand C_RootCommand C_LastContext,
      setFlagsForContextCommands home C_SetContext,
      setFlagsForContextCommands home C_ListContexts,
      VarP V_listVerbose ''verbose'' ''v'' (FBool False) C_ListContexts,
      VarP V_listRegexp ''regexp'' ''r'' (FBool False) C_ListContexts,
      setFlagsForContextCommands home C_PreviousContext,
      setFlagsForContextCommands home C_LastContext]"

definition init_exec :: "cmd_tree \<Rightarrow> cmd_tree res" where
  "init_exec = in_order [Var V_showDebugLogs ''debug'' (FBool False) C_Exec, AddCommand C_RootCommand C_Exec]"

definition init_gardener_commands :: "string \<Rightarrow> cmd_tree \<Rightarrow> cmd_tree res" where
  "init_gardener_commands home = in_order
     [setCommonFlags home C_Controlplane,
      Var V_configPath ''config-path'' (FString (home @ ''/.kube/switch-config.yaml'')) C_Controlplane,
      AddCommand C_Gardener C_Controlplane,
      AddCommand C_RootCommand C_Gardener]"

definition init_history :: "string \<Rightarrow> cmd_tree \<Rightarrow> cmd_tree res" where
  "init_history home = in_order [setFlagsForContextCommands home C_History, AddCommand C_RootCommand C_History]"

definition init_hooks :: "string \<Rightarrow> cmd_tree \<Rightarrow> cmd_tree res" where
  "init_hooks home = in_order
     [Var V_configPath ''config-path'' (FString (home @ ''/.kube/switch-config.yaml'')) C_HookLs,
      Var V_stateDirectory ''state-directory'' (FString (home @ ''/.kube/switch-state'')) C_HookLs,
      AddCommand C_Hook C_HookLs,
      Var V_configPath ''config-path'' (FString (home @ ''/.kube/switch-config.yaml'')) C_Hook,
      Var V_stateDirectory ''state-directory'' (FString (home @ ''/.kube/switch-state'')) C_Hook,
      Var V_hookName ''hook-name'' (FString []) C_Hook,
      Var V_runImmediately ''run-immediately'' (FBool True) C_Hook,
      AddCommand C_RootCommand C_Hook]"

definition init_init :: "cmd_tree \<Rightarrow> cmd_tree res" where
  "init_init = AddCommand C_RootCommand C_Init"

definition init_merge :: "cmd_tree \<Rightarrow> cmd_tree res" where
  "init_merge = AddCommand C_RootCommand C_MergeToDefault"

definition init_namespace :: "string \<Rightarrow> cmd_tree \<Rightarrow> cmd_tree res" where
  "init_namespace home = in_order
     [setCommonFlags home C_Namespace,
      Var V_checkExistence ''check-existence'' (FBool True) C_Namespace,
      AddCommand C_RootCommand C_Namespace,
      AddCommand C_RootCommand C_UnsetNamespace]"

definition init_show :: "cmd_tree \<Rightarrow> cmd_tree res" where
  "init_show = AddCommand C_RootCommand C_Show"

definition init_switcher :: "string \<Rightarrow> cmd_tree \<Rightarrow> cmd_tree res" where
  "init_switcher home = in_order
     [setFlagsForContextCommands home C_RootCommand,
      VarP V_deleteContext ''d'' ''d'' (FBool False) C_RootCommand,
      VarP V_unsetContext ''unset'' ''u'' (FBool False) C_RootCommand,
      VarP V_currentContext ''current'' ''c'' (FBool False) C_RootCommand,
      VarP V_writeToKubeconfig ''write'' ''w'' (FBool False) C_RootCommand]"

definition init_version :: "cmd_tree \<Rightarrow> cmd_tree res" where
  "init_version = AddCommand C_RootCommand C_Version"

text \<open>The functions run in the order of their files.\<close>

definition start_tree :: "string \<Rightarrow> cmd_tree res" where
  "start_tree home = in_order
     [init_alias home, init_clean, init_context home, init_exec, init_gardener_commands home, init_history home, init_hooks home,
      init_init, init_merge, init_namespace home, init_show, init_switcher home, init_version]
     \<lparr>tr_children = [], tr_flags = [], tr_vars = [(V_checkExistence, FBool True), (V_listVerbose, FBool False), (V_listRegexp, FBool False)]\<rparr>"

section \<open>From words to a command\<close>

definition command_name :: "cid \<Rightarrow> string" where
  "command_name cm = takeWhile (\<lambda>x. x \<noteq> CHR '' '') (co_Use (command_of cm :: unit command))"

definition word_selects :: "cid \<Rightarrow> string \<Rightarrow> bool" where
  "word_selects cm w \<longleftrightarrow> w = command_name cm \<or> w \<in> set (co_Aliases (command_of cm :: unit command))"

definition subcommands :: "cmd_tree \<Rightarrow> cid \<Rightarrow> cid list" where
  "subcommands t p = map snd (filter (\<lambda>e. fst e = p) (tr_children t))"

text \<open>\<^verbatim>\<open>Find\<close>: words are taken as long as they name a subcommand.\<close>

fun find_command :: "cmd_tree \<Rightarrow> cid \<Rightarrow> string list \<Rightarrow> cid \<times> string list" where
  "find_command t cm [] = (cm, [])"
| "find_command t cm (w # ws) = (case List.find (\<lambda>d. word_selects d w) (subcommands t cm) of
     Some d \<Rightarrow> find_command t d ws | None \<Rightarrow> (cm, w # ws))"

text \<open>Outside the shell function most commands end the process with status 1.\<close>

definition execute :: "'r tree_libs \<Rightarrow> cli \<Rightarrow> cmd_tree \<Rightarrow> string list \<Rightarrow> unit io" where
  "execute L c t ws = (let (cm, args) = find_command t C_RootCommand ws; co = command_of cm
     in case co_RunE co of None \<Rightarrow> tr_Help L (command_name cm)
        | Some run \<Rightarrow> bindIO (liftR (co_Args co (c_root c) args)) (\<lambda>_.
            bindIO (may_run (command_name cm)) (\<lambda>ok.
              if \<not> ok then failIO (LibErr ''exit status 1'')
              else bindIO (co_PreRunE co L c) (\<lambda>_. run L c args))))"

text \<open>
  The version: \<^verbatim>\<open>rootCommand\<close> is made, with the version that was linked in, before \<^verbatim>\<open>init\<close> puts another for an empty one.
\<close>

definition version_after_init :: "string \<Rightarrow> string option \<Rightarrow> string" where
  "version_after_init linked info = (if linked = [] then (case info of Some v \<Rightarrow> if v \<noteq> [] then v else ''dev'' | None \<Rightarrow> ''dev'') else linked)"

definition root_Version :: "string \<Rightarrow> string" where
  "root_Version linked = linked"

section \<open>The tree is built\<close>

lemma in_order_simps [simp]: "in_order [] t = Ok t" "in_order (f # fs) t = bindR (f t) (in_order fs)"
  by (simp_all add: in_order_def [abs_def])

lemma AddCommand_Ok [simp]: "p \<noteq> ch \<Longrightarrow> AddCommand p ch t = Ok (t\<lparr>tr_children := tr_children t @ [(p, ch)]\<rparr>)"
  by (simp add: AddCommand_def)

text \<open>The names and the shorthands a command has.\<close>

definition flag_names :: "cmd_tree \<Rightarrow> cid \<Rightarrow> string set" where
  "flag_names t cm = {nm. \<exists>s v. (cm, nm, s, v) \<in> set (tr_flags t)}"

definition flag_shorts :: "cmd_tree \<Rightarrow> cid \<Rightarrow> string set" where
  "flag_shorts t cm = {s. s \<noteq> [] \<and> (\<exists>nm v. (cm, nm, s, v) \<in> set (tr_flags t))}"

text \<open>A flag that is new to its command is added, and nothing else changes but its variable.\<close>

definition with_flag :: "flag_var \<Rightarrow> string \<Rightarrow> string \<Rightarrow> flag_value \<Rightarrow> cid \<Rightarrow> cmd_tree \<Rightarrow> cmd_tree" where
  "with_flag v nm short d cm t = t\<lparr>tr_flags := tr_flags t @ [(cm, nm, short, v)], tr_vars := AList.update v d (tr_vars t)\<rparr>"

lemma VarP_fresh:
  "nm \<notin> flag_names t cm \<Longrightarrow> short \<notin> flag_shorts t cm \<Longrightarrow> VarP v nm short d cm t = Ok (with_flag v nm short d cm t)"
  by (auto simp: VarP_def flag_names_def flag_shorts_def with_flag_def)

lemma with_flag_simps [simp]:
  "tr_children (with_flag v nm short d cm t) = tr_children t"
  "flag_names (with_flag v nm short d cm t) cm' = (if cm' = cm then insert nm (flag_names t cm') else flag_names t cm')"
  "flag_shorts (with_flag v nm short d cm t) cm' = (if cm' = cm \<and> short \<noteq> [] then insert short (flag_shorts t cm') else flag_shorts t cm')"
  by (auto simp: with_flag_def flag_names_def flag_shorts_def)

lemma children_simps [simp]:
  "flag_names (t\<lparr>tr_children := cs\<rparr>) = flag_names t" "flag_shorts (t\<lparr>tr_children := cs\<rparr>) = flag_shorts t"
  by (simp_all add: flag_names_def flag_shorts_def fun_eq_iff)

lemma no_empty_short [simp]: "[] \<notin> flag_shorts t cm"
  by (simp add: flag_shorts_def)

lemma init_flag_names [simp]:
  "flag_names \<lparr>tr_children = cs, tr_flags = [], tr_vars = vs\<rparr> cm = {}" "flag_shorts \<lparr>tr_children = cs, tr_flags = [], tr_vars = vs\<rparr> cm = {}"
  by (simp_all add: flag_names_def flag_shorts_def)

definition all_children :: "(cid \<times> cid) list" where
  "all_children = [(C_AliasContext, C_AliasLs), (C_AliasContext, C_AliasRm), (C_RootCommand, C_AliasContext), (C_RootCommand, C_Clean),
     (C_RootCommand, C_CurrentContext), (C_RootCommand, C_DeleteContext), (C_RootCommand, C_SetContext), (C_RootCommand, C_ListContexts),
     (C_RootCommand, C_UnsetContext), (C_RootCommand, C_PreviousContext), (C_RootCommand, C_LastContext), (C_RootCommand, C_Exec),
     (C_Gardener, C_Controlplane), (C_RootCommand, C_Gardener), (C_RootCommand, C_History), (C_Hook, C_HookLs), (C_RootCommand, C_Hook),
     (C_RootCommand, C_Init), (C_RootCommand, C_MergeToDefault), (C_RootCommand, C_Namespace), (C_RootCommand, C_UnsetNamespace),
     (C_RootCommand, C_Show), (C_RootCommand, C_Version)]"

lemma in_order_append: "in_order (fs @ gs) t = bindR (in_order fs t) (in_order gs)"
  by (simp add: in_order_def [abs_def] foldR_append)

text \<open>A step that adds children, and flags to commands that have none yet.\<close>

definition bare :: "cmd_tree \<Rightarrow> cid \<Rightarrow> bool" where
  "bare t cm \<longleftrightarrow> flag_names t cm = {} \<and> flag_shorts t cm = {}"

definition grown :: "(cid \<times> cid) list \<Rightarrow> cid list \<Rightarrow> cmd_tree \<Rightarrow> cmd_tree \<Rightarrow> bool" where
  "grown cs cms t t' \<longleftrightarrow> tr_children t' = tr_children t @ cs \<and> (\<forall>cm. cm \<notin> set cms \<longrightarrow> bare t cm \<longrightarrow> bare t' cm)"

definition builds :: "(cmd_tree \<Rightarrow> cmd_tree res) \<Rightarrow> (cid \<times> cid) list \<Rightarrow> cid list \<Rightarrow> bool" where
  "builds f cs cms \<longleftrightarrow> (\<forall>t. (\<forall>cm \<in> set cms. bare t cm) \<longrightarrow> (\<exists>t'. f t = Ok t' \<and> grown cs cms t t'))"

lemma builds_append:
  assumes "builds (in_order fs) cs cms" "builds (in_order gs) cs' cms'" "set cms \<inter> set cms' = {}"
  shows "builds (in_order (fs @ gs)) (cs @ cs') (cms @ cms')"
  unfolding builds_def
proof (intro allI impI)
  fix t
  assume b: "\<forall>cm \<in> set (cms @ cms'). bare t cm"
  then obtain t1 where t1: "in_order fs t = Ok t1" "grown cs cms t t1" using assms(1) by (auto simp: builds_def)
  then have "\<forall>cm \<in> set cms'. bare t1 cm" using b assms(3) by (auto simp: grown_def)
  then obtain t2 where "in_order gs t1 = Ok t2" "grown cs' cms' t1 t2" using assms(2) by (auto simp: builds_def)
  then show "\<exists>t'. in_order (fs @ gs) t = Ok t' \<and> grown (cs @ cs') (cms @ cms') t t'"
    using t1 by (auto simp: in_order_append grown_def)
qed

lemma builds_one: "builds f cs cms \<Longrightarrow> builds (in_order [f]) cs cms"
  by (simp add: builds_def in_order_def)

lemma builds_Cons:
  "builds f cs cms \<Longrightarrow> builds (in_order fs) cs' cms' \<Longrightarrow> set cms \<inter> set cms' = {} \<Longrightarrow> builds (in_order (f # fs)) (cs @ cs') (cms @ cms')"
  using builds_append [OF builds_one, of f cs cms fs] by simp

lemma builds_Nil: "builds (in_order []) [] []"
  by (simp add: builds_def grown_def)

lemma builds_AddCommand: "p \<noteq> ch \<Longrightarrow> builds (AddCommand p ch) [(p, ch)] []"
  by (auto simp: builds_def grown_def bare_def)

lemmas builds_flags = builds_def grown_def bare_def setFlagsForContextCommands_def setCommonFlags_def Var_def VarP_fresh

lemma builds_context_flags: "builds (setFlagsForContextCommands home cm) [] [cm]"
  by (simp add: builds_flags)

lemmas builds_steps = builds_Cons builds_Nil builds_AddCommand builds_context_flags

lemma builds_alias:
  "builds (init_alias home) [(C_AliasContext, C_AliasLs), (C_AliasContext, C_AliasRm), (C_RootCommand, C_AliasContext)] [C_AliasRm, C_AliasContext]"
proof -
  have "builds (Var V_stateDirectory ''state-directory'' d C_AliasRm) [] [C_AliasRm]" for d by (simp add: builds_flags)
  from builds_Cons [OF this builds_Cons [OF builds_AddCommand builds_Cons [OF builds_AddCommand builds_Cons [OF builds_context_flags
      builds_Cons [OF builds_AddCommand builds_Nil]]]]] show ?thesis by (simp add: init_alias_def)
qed

lemma builds_same: "builds f cs cms \<Longrightarrow> cs = cs' \<Longrightarrow> cms = cms' \<Longrightarrow> builds f cs' cms'"
  by simp

lemma builds_context:
  "builds (init_context home)
     (map (Pair C_RootCommand) [C_CurrentContext, C_DeleteContext, C_SetContext, C_ListContexts, C_UnsetContext, C_PreviousContext, C_LastContext])
     [C_SetContext, C_ListContexts, C_PreviousContext, C_LastContext]"
proof -
  have l: "builds (in_order [setFlagsForContextCommands home C_ListContexts, VarP V_listVerbose ''verbose'' ''v'' (FBool False) C_ListContexts,
      VarP V_listRegexp ''regexp'' ''r'' (FBool False) C_ListContexts]) [] [C_ListContexts]"
    by (simp add: builds_flags)
  note add = builds_Cons [OF builds_AddCommand]
  note rest = builds_append [OF l builds_Cons [OF builds_context_flags [of home C_PreviousContext]
    builds_Cons [OF builds_context_flags [of home C_LastContext] builds_Nil]]]
  from add [OF _ add [OF _ add [OF _ add [OF _ add [OF _ add [OF _ add [OF _
      builds_Cons [OF builds_context_flags [of home C_SetContext] rest]]]]]]],
    of C_RootCommand C_CurrentContext C_RootCommand C_DeleteContext C_RootCommand C_SetContext C_RootCommand C_ListContexts
      C_RootCommand C_UnsetContext C_RootCommand C_PreviousContext C_RootCommand C_LastContext]
  show ?thesis by (simp add: init_context_def)
qed

lemma builds_exec: "builds init_exec [(C_RootCommand, C_Exec)] [C_Exec]"
  by (simp add: init_exec_def builds_flags)

lemma builds_gardener: "builds (init_gardener_commands home) [(C_Gardener, C_Controlplane), (C_RootCommand, C_Gardener)] [C_Controlplane]"
  by (simp add: init_gardener_commands_def builds_flags)

lemma builds_history: "builds (init_history home) [(C_RootCommand, C_History)] [C_History]"
  by (simp add: init_history_def builds_flags)

lemma builds_hooks: "builds (init_hooks home) [(C_Hook, C_HookLs), (C_RootCommand, C_Hook)] [C_HookLs, C_Hook]"
  by (simp add: init_hooks_def builds_flags)

lemma builds_namespace: "builds (init_namespace home) [(C_RootCommand, C_Namespace), (C_RootCommand, C_UnsetNamespace)] [C_Namespace]"
  by (simp add: init_namespace_def builds_flags)

lemma builds_switcher: "builds (init_switcher home) [] [C_RootCommand]"
  by (simp add: init_switcher_def builds_flags)

lemma builds_single:
  "builds init_clean [(C_RootCommand, C_Clean)] []" "builds init_init [(C_RootCommand, C_Init)] []"
  "builds init_merge [(C_RootCommand, C_MergeToDefault)] []" "builds init_show [(C_RootCommand, C_Show)] []"
  "builds init_version [(C_RootCommand, C_Version)] []"
  by (simp_all add: init_clean_def init_init_def init_merge_def init_show_def init_version_def builds_AddCommand)

lemma builds_start:
  "builds (in_order [init_alias home, init_clean, init_context home, init_exec, init_gardener_commands home, init_history home, init_hooks home,
      init_init, init_merge, init_namespace home, init_show, init_switcher home, init_version]) all_children
     [C_AliasRm, C_AliasContext, C_SetContext, C_ListContexts, C_PreviousContext, C_LastContext, C_Exec, C_Controlplane, C_History,
      C_HookLs, C_Hook, C_Namespace, C_RootCommand]"
  by (rule builds_same [OF builds_Cons [OF builds_alias builds_Cons [OF builds_single(1) builds_Cons [OF builds_context
      builds_Cons [OF builds_exec builds_Cons [OF builds_gardener builds_Cons [OF builds_history builds_Cons [OF builds_hooks
      builds_Cons [OF builds_single(2) builds_Cons [OF builds_single(3) builds_Cons [OF builds_namespace builds_Cons [OF builds_single(4)
      builds_Cons [OF builds_switcher builds_Cons [OF builds_single(5) builds_Nil]]]]]]]]]]]]]]) (simp_all add: all_children_def)

lemma builds_empty: "builds f cs cms \<Longrightarrow> \<exists>t. f \<lparr>tr_children = [], tr_flags = [], tr_vars = vs\<rparr> = Ok t \<and> tr_children t = cs"
proof -
  assume "builds f cs cms"
  then obtain t where "f \<lparr>tr_children = [], tr_flags = [], tr_vars = vs\<rparr> = Ok t"
    "grown cs cms \<lparr>tr_children = [], tr_flags = [], tr_vars = vs\<rparr> t"
    unfolding builds_def by (metis bare_def init_flag_names)
  then show ?thesis by (simp add: grown_def)
qed

lemma start_tree_Ok: "\<exists>t. start_tree home = Ok t \<and> tr_children t = all_children"
  unfolding start_tree_def by (rule builds_empty [OF builds_start])

section \<open>What a word selects\<close>

definition words_of :: "cid \<Rightarrow> string list" where
  "words_of cm = command_name cm # co_Aliases (command_of cm :: unit command)"

lemma word_selects_words: "word_selects cm w \<longleftrightarrow> w \<in> set (words_of cm)"
  by (simp add: word_selects_def words_of_def)

definition word_table :: "((cid \<times> string) \<times> cid) list" where
  "word_table = [((C_AliasContext, ''ls''), C_AliasLs), ((C_AliasContext, ''rm''), C_AliasRm), ((C_RootCommand, ''alias''), C_AliasContext),
     ((C_RootCommand, ''clean''), C_Clean), ((C_RootCommand, ''current-context''), C_CurrentContext),
     ((C_RootCommand, ''delete-context''), C_DeleteContext), ((C_RootCommand, ''set''), C_SetContext),
     ((C_RootCommand, ''sc''), C_SetContext), ((C_RootCommand, ''set-context''), C_SetContext), ((C_RootCommand, ''list-contexts''), C_ListContexts),
     ((C_RootCommand, ''ls''), C_ListContexts), ((C_RootCommand, ''unset-context''), C_UnsetContext),
     ((C_RootCommand, ''set-previous-context''), C_PreviousContext), ((C_RootCommand, ''spc''), C_PreviousContext),
     ((C_RootCommand, ''set-last-context''), C_LastContext), ((C_RootCommand, ''slc''), C_LastContext), ((C_RootCommand, ''exec''), C_Exec),
     ((C_RootCommand, ''e''), C_Exec), ((C_Gardener, ''controlplane''), C_Controlplane), ((C_RootCommand, ''gardener''), C_Gardener),
     ((C_RootCommand, ''h''), C_History), ((C_RootCommand, ''history''), C_History), ((C_Hook, ''ls''), C_HookLs),
     ((C_RootCommand, ''hooks''), C_Hook), ((C_RootCommand, ''init''), C_Init), ((C_RootCommand, ''merge-to-default-kubeconfig''), C_MergeToDefault),
     ((C_RootCommand, ''namespace''), C_Namespace), ((C_RootCommand, ''ns''), C_Namespace), ((C_RootCommand, ''unset-namespace''), C_UnsetNamespace),
     ((C_RootCommand, ''show''), C_Show), ((C_RootCommand, ''version''), C_Version)]"

lemma table_words: "concat (map (\<lambda>(p, d). map (\<lambda>w. ((p, w), d)) (remdups (words_of d))) all_children) = word_table"
  by code_simp

lemma table_keys: "distinct (map fst word_table)"
  by (simp add: word_table_def)

lemma word_in_table: "(p, d) \<in> set all_children \<Longrightarrow> word_selects d w \<Longrightarrow> map_of word_table (p, w) = Some d"
proof -
  assume "(p, d) \<in> set all_children" "word_selects d w"
  then have "((p, w), d) \<in> set (concat (map (\<lambda>(p, d). map (\<lambda>w. ((p, w), d)) (remdups (words_of d))) all_children))"
    by (auto simp: word_selects_words)
  then show ?thesis using table_keys unfolding table_words by (simp add: map_of_is_SomeI)
qed

lemma word_selects_unique:
  assumes "tr_children t = all_children" "d \<in> set (subcommands t p)" "d' \<in> set (subcommands t p)" "word_selects d w" "word_selects d' w"
  shows "d = d'"
proof -
  have "(p, d) \<in> set all_children" "(p, d') \<in> set all_children" using assms(1-3) by (auto simp: subcommands_def)
  then have "map_of word_table (p, w) = Some d" "map_of word_table (p, w) = Some d'" using word_in_table assms(4,5) by blast+
  then show ?thesis by simp
qed

lemma find_unique: "d \<in> set ds \<Longrightarrow> P d \<Longrightarrow> (\<And>d'. d' \<in> set ds \<Longrightarrow> P d' \<Longrightarrow> d' = d) \<Longrightarrow> List.find P ds = Some d"
proof (induction ds)
  case (Cons a ds)
  show ?case
  proof (cases "P a")
    case True
    then show ?thesis using Cons.prems(3) [of a] by simp
  next
    case False
    then have "d \<in> set ds" using Cons.prems(1,2) by auto
    have "List.find P ds = Some d" by (rule Cons.IH [OF \<open>d \<in> set ds\<close> Cons.prems(2)]) (rule Cons.prems(3), simp_all)
    then show ?thesis using False by simp
  qed
qed simp

lemma find_command_word:
  assumes "tr_children t = all_children" "d \<in> set (subcommands t cm)" "word_selects d w"
  shows "find_command t cm (w # ws) = find_command t d ws"
proof -
  have "List.find (\<lambda>d. word_selects d w) (subcommands t cm) = Some d"
    by (rule find_unique [where P = "\<lambda>d. word_selects d w", OF assms(2,3)]) (rule word_selects_unique [OF assms(1) _ assms(2) _ assms(3)])
  then show ?thesis by simp
qed

lemma find_command_stays:
  assumes "\<forall>a \<in> set (take 1 ws). \<forall>e \<in> set (subcommands t cm). \<not> word_selects e a"
  shows "find_command t cm ws = (cm, ws)"
proof (cases ws)
  case (Cons a as)
  then have "List.find (\<lambda>d. word_selects d a) (subcommands t cm) = None" using assms by (simp add: find_None_all)
  then show ?thesis using Cons by simp
qed simp

text \<open>
  The program starts: no \<^verbatim>\<open>init\<close> function defines a flag or a shorthand twice in a command. In the tree that is built a word
  selects at most one subcommand, wherever it stands; a name or an alias at the front of a line selects its command with the
  rest as arguments, and a word that no command word_selects is left to the root command, which takes it for a context.
\<close>

theorem command_tree_dispatch:
  "\<exists>t. start_tree home = Ok t \<and>
     (\<forall>p d d' w. d \<in> set (subcommands t p) \<and> d' \<in> set (subcommands t p) \<and> word_selects d w \<and> word_selects d' w \<longrightarrow> d = d') \<and>
     (\<forall>d w ws. d \<in> set (subcommands t C_RootCommand) \<and> word_selects d w \<and> (\<forall>a \<in> set (take 1 ws). \<forall>e \<in> set (subcommands t d). \<not> word_selects e a) \<longrightarrow>
        find_command t C_RootCommand (w # ws) = (d, ws)) \<and>
     (\<forall>w ws. (\<forall>d \<in> set (subcommands t C_RootCommand). \<not> word_selects d w) \<longrightarrow>
        find_command t C_RootCommand (w # ws) = (C_RootCommand, w # ws))"
proof -
  obtain t where t: "start_tree home = Ok t" "tr_children t = all_children" using start_tree_Ok by blast
  have "find_command t C_RootCommand (w # ws) = (d, ws)"
    if "d \<in> set (subcommands t C_RootCommand)" "word_selects d w" "\<forall>a \<in> set (take 1 ws). \<forall>e \<in> set (subcommands t d). \<not> word_selects e a" for d w ws
    unfolding find_command_word [OF t(2) that(1,2)] by (rule find_command_stays [OF that(3)])
  moreover have "find_command t C_RootCommand (w # ws) = (C_RootCommand, w # ws)"
    if "\<forall>d \<in> set (subcommands t C_RootCommand). \<not> word_selects d w" for w ws
    by (rule find_command_stays) (use that in simp)
  ultimately show ?thesis using t word_selects_unique [OF t(2)] by blast
qed

text \<open>
  A context that has the name of a command, such as \<^verbatim>\<open>e\<close>, cannot be given to the root command; \<^verbatim>\<open>set-context\<close> still takes
  it, and only that way runs the hooks.
\<close>

lemma execute_found:
  "find_command t C_RootCommand ws = (cm, args) \<Longrightarrow> co_RunE (command_of cm) = Some run \<Longrightarrow> co_Args (command_of cm :: 'r command) (c_root c) args = Ok () \<Longrightarrow>
     execute (L :: 'r tree_libs) c t ws = bindIO (may_run (command_name cm)) (\<lambda>ok.
       if \<not> ok then failIO (LibErr ''exit status 1'') else bindIO (co_PreRunE (command_of cm) L c) (\<lambda>_. run L c args))"
  by (simp add: execute_def liftR_def bindIO_def fun_eq_iff)

lemma set_context_line:
  assumes "start_tree home = Ok t"
  shows "execute L c t [''set-context'', ctx] = bindIO (may_run ''set-context'') (\<lambda>ok.
    if \<not> ok then failIO (LibErr ''exit status 1'')
    else bindIO (setContext_PreRun (tr_cli L) c) (\<lambda>_. setContextCmd (tr_cli L) c [ctx]))"
proof -
  have t: "tr_children t = all_children" using start_tree_Ok [of home] assms by auto
  have s: "C_SetContext \<in> set (subcommands t C_RootCommand)" by (simp add: subcommands_def t all_children_def)
  have n: "subcommands t C_SetContext = []" by (simp add: subcommands_def t all_children_def)
  have w: "word_selects C_SetContext ''set-context''" by code_simp
  have nm: "command_name C_SetContext = ''set-context''" by code_simp
  have f: "find_command t C_RootCommand [''set-context'', ctx] = (C_SetContext, [ctx])"
    unfolding find_command_word [OF t s w] by (rule find_command_stays) (simp add: n)
  have p: "co_PreRunE (command_of C_SetContext) L c = setContext_PreRun (tr_cli L) c" by (simp add: setContext_command_def)
  show ?thesis using execute_found [OF f, of "\<lambda>L c args. setContextCmd (tr_cli L) c args" c L, unfolded p nm]
    by (simp add: setContext_command_def plain_command_def ExactArgs_def)
qed

lemma bindIO_done: "bindIO (no_hook L c) (\<lambda>_. f) = f"
  by (simp add: bindIO_def no_hook_def returnIO_def fun_eq_iff)

lemma plain_context_line:
  assumes "start_tree home = Ok t" "\<forall>d \<in> set (subcommands t C_RootCommand). \<not> word_selects d ctx"
    and "c_root c = \<lparr>rf_delete = False, rf_unset = False, rf_current = False\<rparr>"
  shows "execute L c t [ctx] = bindIO (may_run ''kswitch'') (\<lambda>ok.
    if \<not> ok then failIO (LibErr ''exit status 1'') else root_RunE (tr_cli L) c [ctx])"
proof -
  have nm: "command_name C_RootCommand = ''kswitch''" by code_simp
  have f: "find_command t C_RootCommand [ctx] = (C_RootCommand, [ctx])" by (rule find_command_stays) (use assms(2) in simp)
  have p: "co_PreRunE (command_of C_RootCommand) L c = no_hook L c" by (simp add: root_command_record_def plain_command_def)
  show ?thesis using execute_found [OF f, of "\<lambda>L c args. root_RunE (tr_cli L) c args" c L, unfolded p nm bindIO_done] assms(3)
    by (simp add: root_command_record_def plain_command_def root_Args_def)
qed

text \<open>The version that \<^verbatim>\<open>init\<close> finds does not reach the root command, so there is no \<^verbatim>\<open>--version\<close> without a linked version.\<close>

lemma root_version_lost: "version_after_init [] info \<noteq> [] \<and> root_Version [] = []"
  by (auto simp: version_after_init_def root_Version_def split: option.splits)

lemma root_Args_ok: "is_ok (root_Args f args) \<longleftrightarrow> root_args_ok f args"
  by (auto simp: root_Args_def root_args_ok_def ExactArgs_def NoArgs_def split: list.splits)

end
