(* ===== verification/ShellWrapper.thy ===== *)
theory ShellWrapper
  imports CommandLine
begin

text \<open>
  The shell function that \<^verbatim>\<open>kswitch init\<close> prints (\<^verbatim>\<open>cmd/kswitch/init.go\<close>): it runs the program, takes the line of
  \<^verbatim>\<open>reportNewContext\<close> apart and sets \<^verbatim>\<open>KUBECONFIG\<close> for the shell. Both texts are translated, the one for bash
  and zsh and the one for fish (\<^verbatim>\<open>PowerShell\<close> has the third). With them go the laws of a whole session:
  what \<^verbatim>\<open>KUBECONFIG\<close> is after any sequence of switches, and what the next command makes of it.
\<close>

section \<open>The function for bash and zsh\<close>

text \<open>\<^verbatim>\<open>${s%%,*}\<close> and \<^verbatim>\<open>${s#*,}\<close> for a character; \<^verbatim>\<open>$(...)\<close> drops the newlines at the end.\<close>

definition before_first :: "char \<Rightarrow> string \<Rightarrow> string" where
  "before_first c s = takeWhile (\<lambda>x. x \<noteq> c) s"

definition after_first :: "char \<Rightarrow> string \<Rightarrow> string" where
  "after_first c s = (if c \<in> set s then tl (dropWhile (\<lambda>x. x \<noteq> c) s) else s)"

definition substitution :: "string \<Rightarrow> string" where
  "substitution s = rev (dropWhile (\<lambda>c. c = CHR 0x0A) (rev s))"

text \<open>\<^verbatim>\<open>$HOME\<close>, \<^verbatim>\<open>$KUBECONFIG\<close>, the files given to \<^verbatim>\<open>rm -f\<close>, and what was printed.\<close>

record shell =
  sh_HOME :: string
  sh_KUBECONFIG :: string
  sh_removed :: "string list"
  sh_printed :: "string list"

definition switchTmpDirectory :: "shell \<Rightarrow> string" where
  "switchTmpDirectory sh = sh_HOME sh @ ''/.kube/.switch_tmp/config''"

text \<open>The arguments: \<^verbatim>\<open>--executable-path\<close> takes the next one, the others are passed on.\<close>

fun wrapper_args :: "string \<Rightarrow> string list \<Rightarrow> string \<times> string list" where
  "wrapper_args exe [] = (exe, [])"
| "wrapper_args exe [a] = (if a = ''--executable-path'' then ([], []) else (exe, [a]))"
| "wrapper_args exe (a # b # as) = (if a = ''--executable-path'' then wrapper_args b as
     else (case wrapper_args exe (b # as) of (e, opts) \<Rightarrow> (e, a # opts)))"

definition wrapper_exe :: "string \<Rightarrow> string \<Rightarrow> string list \<Rightarrow> string \<times> string list" where
  "wrapper_exe DEFAULT exe args = (case wrapper_args exe args of (e, opts) \<Rightarrow> (if e = [] then DEFAULT else e, opts))"

lemma after_first_shorter: "c \<in> set s \<Longrightarrow> length (after_first c s) < length s"
proof -
  assume "c \<in> set s"
  then have "dropWhile (\<lambda>x. x \<noteq> c) s \<noteq> []" by (auto simp: dropWhile_eq_Nil_conv)
  then show ?thesis using \<open>c \<in> set s\<close> length_dropWhile_le [of "\<lambda>x. x \<noteq> c" s]
    by (cases "dropWhile (\<lambda>x. x \<noteq> c) s") (auto simp: after_first_def)
qed

text \<open>The loop over the parts of the old \<^verbatim>\<open>KUBECONFIG\<close>.\<close>

function kept_parts :: "string \<Rightarrow> string \<Rightarrow> string list" where
  "kept_parts dir rest = (if rest = [] then [] else
     let part = before_first (CHR '':'') rest;
         rest' = (if CHR '':'' \<in> set rest then after_first (CHR '':'') rest else [])
     in (if part \<noteq> [] \<and> \<not> Contains part dir then [part] else []) @ kept_parts dir rest')"
  by pat_completeness auto
termination
  by (relation "measure (\<lambda>(dir, rest). length rest)") (auto dest: after_first_shorter)

declare kept_parts.simps [simp del]

definition new_kubeconfig :: "string \<Rightarrow> string list \<Rightarrow> string" where
  "new_kubeconfig path parts = foldl (\<lambda>kc part. kc @ '':'' @ part) path parts"

text \<open>
  The function after the program has printed \<^verbatim>\<open>output\<close> and ended with \<^verbatim>\<open>status\<close>: the value it returns, and the shell.
  The two tests of \<^verbatim>\<open>${VAR+x}\<close> never hold, as both variables were just set.
\<close>

definition print_line :: "string \<Rightarrow> shell \<Rightarrow> shell" where
  "print_line l sh = sh\<lparr>sh_printed := sh_printed sh @ [l]\<rparr>"

definition wrapper :: "nat \<Rightarrow> string \<Rightarrow> shell \<Rightarrow> nat \<times> shell" where
  "wrapper status output sh = (let RESPONSE = substitution output in
     if status \<noteq> 0 \<or> RESPONSE = [] \<or> \<not> HasPrefix RESPONSE ''__ '' then (0, print_line RESPONSE sh)
     else let remainder = TrimPrefix RESPONSE ''__ '';
              KUBECONFIG_PATH = before_first (CHR '','') remainder;
              SELECTED_CONTEXT = before_first (CHR '','') (after_first (CHR '','') remainder);
              old = sh_KUBECONFIG sh;
              dir = switchTmpDirectory sh;
              sh1 = (if old \<noteq> [] \<and> Contains old dir then sh\<lparr>sh_removed := sh_removed sh @ [old]\<rparr> else sh)
          in (0, print_line (''switched to context '' @ SELECTED_CONTEXT)
                (sh1\<lparr>sh_KUBECONFIG := new_kubeconfig KUBECONFIG_PATH (kept_parts dir old)\<rparr>)))"

section \<open>The function for fish\<close>

text \<open>
  Here the loop over the arguments keeps the option itself as the path, and passes its value on. The response is one
  line, and \<^verbatim>\<open>test -e\<close> says whether the path in it exists.
\<close>

definition fish_args :: "string list \<Rightarrow> string option \<times> string list" where
  "fish_args argv = foldl (\<lambda>(exe, opts) i. if i = ''--executable-path'' then (Some i, opts) else (exe, opts @ [i])) (None, []) argv"

definition fish_parts :: "string \<Rightarrow> string \<Rightarrow> string list" where
  "fish_parts dir old = (if old = [] then [] else filter (\<lambda>part. part \<noteq> [] \<and> \<not> Contains part dir) (Split old '':''))"

definition fish_wrapper :: "bool \<Rightarrow> nat \<Rightarrow> string \<Rightarrow> shell \<Rightarrow> nat \<times> shell" where
  "fish_wrapper path_exists status RESPONSE sh =
     (if status \<noteq> 0 \<or> RESPONSE = [] then (status, print_line RESPONSE sh)
      else if \<not> HasPrefix RESPONSE ''__ '' then (0, print_line RESPONSE sh)
      else case Split (TrimPrefix RESPONSE ''__ '') '','' of
          KUBECONFIG_PATH # SELECTED_CONTEXT # _ \<Rightarrow>
            if \<not> path_exists then (1, print_line (''ERROR: \"'' @ KUBECONFIG_PATH @ ''\" does not exist'') sh)
            else let old = sh_KUBECONFIG sh;
                     dir = switchTmpDirectory sh;
                     sh1 = (if old \<noteq> [] \<and> Contains old dir then sh\<lparr>sh_removed := sh_removed sh @ [old]\<rparr> else sh)
                 in (0, print_line (''switched to context '' @ SELECTED_CONTEXT)
                       (sh1\<lparr>sh_KUBECONFIG := new_kubeconfig KUBECONFIG_PATH (fish_parts dir old)\<rparr>))
        | _ \<Rightarrow> (0, print_line (TrimPrefix RESPONSE ''__ '') sh))"

section \<open>The parts that are kept\<close>

lemma before_after: "c \<in> set s \<Longrightarrow> s = before_first c s @ c # after_first c s"
  unfolding before_first_def after_first_def by (induction s) auto

lemma before_first_no: "c \<notin> set (before_first c s)"
  unfolding before_first_def by (induction s) auto

lemma before_first_append [simp]: "c \<notin> set a \<Longrightarrow> before_first c (a @ c # b) = a"
  by (induction a) (auto simp: before_first_def)

lemma after_first_append [simp]: "c \<notin> set a \<Longrightarrow> after_first c (a @ c # b) = b"
  by (induction a) (auto simp: after_first_def)

lemma before_first_same [simp]: "c \<notin> set a \<Longrightarrow> before_first c a = a"
  by (induction a) (auto simp: before_first_def)

lemma kept_parts_split: "kept_parts dir s = filter (\<lambda>p. p \<noteq> [] \<and> \<not> Contains p dir) (Split s '':'')"
proof (induction dir s rule: kept_parts.induct)
  case (1 dir s)
  show ?case
  proof (cases "CHR '':'' \<in> set s")
    case True
    let ?a = "before_first (CHR '':'') s" and ?b = "after_first (CHR '':'') s"
    have s: "s = ?a @ CHR '':'' # ?b" using before_after [OF True] .
    have "Split s '':'' = ?a # Split ?b '':''"
      by (subst s) (rule Split_single_Cons [OF before_first_no])
    moreover have "s \<noteq> []" using True by auto
    moreover from this have "kept_parts dir ?b = filter (\<lambda>p. p \<noteq> [] \<and> \<not> Contains p dir) (Split ?b '':'')"
      using 1 True by (simp add: Let_def)
    ultimately show ?thesis using True by (subst kept_parts.simps) (simp add: Let_def)
  next
    case False
    have "kept_parts dir [] = []" by (simp add: kept_parts.simps)
    then show ?thesis using False by (subst kept_parts.simps) (simp add: Split_single_no Let_def)
  qed
qed

lemma kept_parts_fish: "fish_parts dir s = kept_parts dir s"
  by (simp add: fish_parts_def kept_parts_split Split_single_no)

lemma new_kubeconfig_Join: "new_kubeconfig p parts = Join (p # parts) '':''"
proof (induction parts rule: rev_induct)
  case (snoc x xs)
  then show ?case using Join_snoc [of "p # xs" x "'':''"] by (simp add: new_kubeconfig_def)
qed (simp add: new_kubeconfig_def)

lemma kept_parts_new:
  assumes "CHR '':'' \<notin> set p" and "Contains p dir"
  shows "kept_parts dir (new_kubeconfig p (kept_parts dir old)) = kept_parts dir old"
proof -
  let ?k = "kept_parts dir old"
  have k: "list_all (\<lambda>x. CHR '':'' \<notin> set x) ?k"
    by (auto simp: kept_parts_split list_all_iff dest: Split_single_no_sep)
  have "Split (new_kubeconfig p ?k) '':'' = p # ?k"
    unfolding new_kubeconfig_Join by (rule Split_Join) (use assms(1) k in auto)
  then have "kept_parts dir (new_kubeconfig p ?k) = filter (\<lambda>p. p \<noteq> [] \<and> \<not> Contains p dir) (p # ?k)"
    by (subst kept_parts_split) simp
  also have "\<dots> = ?k" using assms(2) by (simp add: kept_parts_split)
  finally show ?thesis .
qed

section \<open>A session of switches\<close>

definition tmp_file :: "string \<Rightarrow> string \<Rightarrow> string" where
  "tmp_file home r = home @ ''/.kube/.switch_tmp/config.'' @ r @ ''.tmp''"

text \<open>A name that the program can have made for a shell with this home, and a context the line can carry.\<close>

definition plain_switch :: "string \<Rightarrow> string \<times> string \<Rightarrow> bool" where
  "plain_switch home = (\<lambda>(r, ctx). CHR '':'' \<notin> set (tmp_file home r) \<and> CHR '','' \<notin> set (tmp_file home r) \<and> CHR 0x0A \<notin> set ctx)"

definition switch_shell :: "string \<times> string \<Rightarrow> shell \<Rightarrow> shell" where
  "switch_shell = (\<lambda>(r, ctx) sh. snd (wrapper 0 (response (tmp_file (sh_HOME sh) r) ctx) sh))"

lemma substitution_same: "c \<noteq> [] \<Longrightarrow> last c \<noteq> CHR 0x0A \<Longrightarrow> substitution c = c"
  by (cases c rule: rev_cases) (auto simp: substitution_def)

lemma substitution_response: "CHR 0x0A \<notin> set ctx \<Longrightarrow> substitution (response p ctx) = response p ctx"
  by (rule substitution_same) (cases ctx rule: rev_cases; auto simp: response_def)+

lemma HasPrefix_response [simp]: "HasPrefix (response p ctx) ''__ ''" "TrimPrefix (response p ctx) ''__ '' = p @ '','' @ ctx"
  using HasPrefix_append [of "''__ ''"] TrimPrefix_append [of "''__ ''"] by (simp_all add: response_def)

lemma wrapper_switch:
  assumes "CHR '','' \<notin> set p" "CHR 0x0A \<notin> set ctx"
  shows "sh_KUBECONFIG (snd (wrapper 0 (response p ctx) sh)) =
      Join (p # kept_parts (switchTmpDirectory sh) (sh_KUBECONFIG sh)) '':''"
    and "sh_HOME (snd (wrapper 0 (response p ctx) sh)) = sh_HOME sh"
    and "sh_printed (snd (wrapper 0 (response p ctx) sh)) = sh_printed sh @ [''switched to context '' @ before_first (CHR '','') ctx]"
    and "sh_removed (snd (wrapper 0 (response p ctx) sh)) = sh_removed sh @
      (if sh_KUBECONFIG sh \<noteq> [] \<and> Contains (sh_KUBECONFIG sh) (switchTmpDirectory sh) then [sh_KUBECONFIG sh] else [])"
  using assms by (auto simp: wrapper_def Let_def substitution_response new_kubeconfig_Join print_line_def)
    (auto simp: response_def)

lemma Contains_infix: "Contains s sub \<longleftrightarrow> (\<exists>a b. s = a @ sub @ b)"
  using Index_None [of s sub] by (auto simp: Contains_def)

lemma tmp_file_Contains: "Contains (tmp_file home r) (home @ ''/.kube/.switch_tmp/config'')"
  unfolding Contains_infix tmp_file_def by (rule exI [of _ "[]"]) simp

lemma switch_shell_apply: "switch_shell (r, ctx) sh = snd (wrapper 0 (response (tmp_file (sh_HOME sh) r) ctx) sh)"
  by (simp add: switch_shell_def)

lemma switch_shell_session:
  assumes "list_all (plain_switch (sh_HOME sh)) rs"
  shows "sh_HOME (fold switch_shell rs sh) = sh_HOME sh \<and>
    (rs \<noteq> [] \<longrightarrow> sh_KUBECONFIG (fold switch_shell rs sh) =
       Join (tmp_file (sh_HOME sh) (fst (last rs)) # kept_parts (switchTmpDirectory sh) (sh_KUBECONFIG sh)) '':'')"
  using assms
proof (induction rs rule: rev_induct)
  case (snoc x rs)
  obtain r ctx where x: "x = (r, ctx)" by force
  let ?s = "fold switch_shell rs sh" and ?p = "tmp_file (sh_HOME sh) r"
  have h: "sh_HOME ?s = sh_HOME sh" and d: "switchTmpDirectory ?s = switchTmpDirectory sh"
    using snoc by (simp_all add: switchTmpDirectory_def)
  have k: "kept_parts (switchTmpDirectory sh) (sh_KUBECONFIG ?s) = kept_parts (switchTmpDirectory sh) (sh_KUBECONFIG sh)"
  proof (cases "rs = []")
    case False
    then have "plain_switch (sh_HOME sh) (last rs)" using snoc.prems by (auto simp: list_all_iff)
    then have "CHR '':'' \<notin> set (tmp_file (sh_HOME sh) (fst (last rs)))" by (auto simp: plain_switch_def split: prod.splits)
    from kept_parts_new [OF this, of "switchTmpDirectory sh"] tmp_file_Contains [of "sh_HOME sh"] snoc False
    show ?thesis by (simp add: switchTmpDirectory_def new_kubeconfig_Join)
  qed simp
  have "CHR '','' \<notin> set ?p" "CHR 0x0A \<notin> set ctx" using snoc.prems x by (auto simp: plain_switch_def)
  from wrapper_switch(1,2) [OF this, of ?s] show ?case using h d k by (simp add: x switch_shell_apply)
qed simp

text \<open>
  C3. After any number of switches \<^verbatim>\<open>KUBECONFIG\<close> is the file of the last one followed by the parts that the user
  had before the first one, in their order: the files of earlier switches are gone from it, and nothing of the
  user's is lost or repeated.
\<close>

theorem session_keeps_own_parts:
  assumes "list_all (plain_switch (sh_HOME sh)) rs" and "rs \<noteq> []"
  shows "Split (sh_KUBECONFIG (fold switch_shell rs sh)) '':'' =
     tmp_file (sh_HOME sh) (fst (last rs)) #
     filter (\<lambda>p. p \<noteq> [] \<and> \<not> Contains p (switchTmpDirectory sh)) (Split (sh_KUBECONFIG sh) '':'')"
proof -
  have "plain_switch (sh_HOME sh) (last rs)" using assms by (auto simp: list_all_iff)
  then have "CHR '':'' \<notin> set (tmp_file (sh_HOME sh) (fst (last rs)))" by (auto simp: plain_switch_def split: prod.splits)
  then have "Split (Join (tmp_file (sh_HOME sh) (fst (last rs)) # kept_parts (switchTmpDirectory sh) (sh_KUBECONFIG sh)) '':'') '':'' =
      tmp_file (sh_HOME sh) (fst (last rs)) # kept_parts (switchTmpDirectory sh) (sh_KUBECONFIG sh)"
    by (intro Split_Join) (auto simp: list_all_iff kept_parts_split dest: Split_single_no_sep)
  then show ?thesis using switch_shell_session [OF assms(1)] assms(2) by (simp add: kept_parts_split)
qed

definition sample_shell :: shell where
  "sample_shell = \<lparr>sh_HOME = ''/h'', sh_KUBECONFIG = ''/h/a::/h/b'', sh_removed = [], sh_printed = []\<rparr>"

lemma session_keeps_own_parts_witness:
  "Split (sh_KUBECONFIG (fold switch_shell [(''1'', ''dev''), (''2'', ''prod'')] sample_shell)) '':'' =
     [''/h/.kube/.switch_tmp/config.2.tmp'', ''/h/a'', ''/h/b'']"
proof -
  have "list_all (plain_switch (sh_HOME sample_shell)) [(''1'', ''dev''), (''2'', ''prod'')]"
    by (simp add: plain_switch_def tmp_file_def sample_shell_def)
  from session_keeps_own_parts [OF this] show ?thesis
    by (simp add: sample_shell_def switchTmpDirectory_def tmp_file_def) code_simp
qed

lemma substitution_one_line: "CHR 0x0A \<notin> set s \<Longrightarrow> substitution s = s"
  by (cases s rule: rev_cases) (auto simp: substitution_def)

text \<open>What the two functions do with a response of a program that succeeded.\<close>

lemma fish_wrapper_success:
  assumes "substitution resp = resp" and "HasPrefix resp ''__ '' \<longrightarrow> CHR '','' \<in> set resp"
  shows "fish_wrapper True 0 resp sh = wrapper 0 resp sh"
proof (cases "resp = [] \<or> \<not> HasPrefix resp ''__ ''")
  case True
  then show ?thesis using assms(1) by (auto simp: fish_wrapper_def wrapper_def)
next
  case False
  then obtain s where s: "resp = ''__ '' @ s" by (auto simp: HasPrefix_iff)
  with assms(2) False have c: "CHR '','' \<in> set s" by auto
  let ?a = "before_first (CHR '','') s" and ?b = "after_first (CHR '','') s"
  have "Split s '','' = ?a # Split ?b '',''"
    by (subst before_after [OF c]) (rule Split_single_Cons [OF before_first_no])
  moreover have "\<exists>r. Split ?b '','' = before_first (CHR '','') ?b # r"
  proof (cases "CHR '','' \<in> set ?b")
    case True
    have "Split ?b '','' = before_first (CHR '','') ?b # Split (after_first (CHR '','') ?b) '',''"
      by (subst before_after [OF True]) (rule Split_single_Cons [OF before_first_no])
    then show ?thesis by blast
  qed (simp add: Split_single_no)
  ultimately obtain r where r: "Split s '','' = ?a # before_first (CHR '','') ?b # r" by auto
  have t: "TrimPrefix resp ''__ '' = s" unfolding s by (rule TrimPrefix_append)
  show ?thesis using False assms(1) r
    unfolding fish_wrapper_def wrapper_def by (simp add: t Let_def kept_parts_fish)
qed

text \<open>
  C27. What bash and zsh do with a response fish does too: for every status of the program and every response of one
  line the two functions leave the same shell, provided that a response that begins with the prefix of a switch
  holds the comma before the context, and that the path in it exists (only fish looks). Fish returns the status of
  the program; the other function does so when that is 0 (else see \<^verbatim>\<open>failure_returns_0\<close>).
\<close>

theorem fish_wrapper_same:
  assumes "CHR 0x0A \<notin> set resp" and "HasPrefix resp ''__ '' \<longrightarrow> CHR '','' \<in> set resp"
  shows "snd (fish_wrapper True status resp sh) = snd (wrapper status resp sh) \<and>
     fst (fish_wrapper True status resp sh) = status \<and> (status = 0 \<longrightarrow> fst (wrapper status resp sh) = 0)"
proof (cases "status = 0")
  case True
  have "fst (wrapper 0 resp sh) = 0" by (simp add: wrapper_def Let_def)
  then show ?thesis using True fish_wrapper_success [OF substitution_one_line [OF assms(1)] assms(2), of sh] by simp
next
  case False
  then show ?thesis using substitution_one_line [OF assms(1)] by (simp add: fish_wrapper_def wrapper_def)
qed

lemma fish_wrapper_same_witness:
  "snd (fish_wrapper True 0 ''__ /t,dev'' sample_shell) = snd (wrapper 0 ''__ /t,dev'' sample_shell) \<and>
   sh_KUBECONFIG (snd (fish_wrapper True 0 ''__ /t,dev'' sample_shell)) = ''/t:/h/a:/h/b''"
proof -
  have k: "sh_KUBECONFIG (snd (fish_wrapper True 0 ''__ /t,dev'' sample_shell)) = ''/t:/h/a:/h/b''" by code_simp
  have "snd (fish_wrapper True 0 ''__ /t,dev'' sample_shell) = snd (wrapper 0 ''__ /t,dev'' sample_shell)"
    using fish_wrapper_same [of "''__ /t,dev''" 0 sample_shell] by simp
  then show ?thesis using k by simp
qed

section \<open>What the next command makes of it\<close>

text \<open>
  C15. The next command in such a session searches the same paths as before the first switch: the paths of the
  user's own \<^verbatim>\<open>KUBECONFIG\<close>, never the file of a switch.
\<close>

theorem session_keeps_search_paths:
  assumes "list_all (plain_switch (sh_HOME sh)) rs" and "rs \<noteq> []"
    and "getenv w ''KUBECONFIG'' = sh_KUBECONFIG (fold switch_shell rs sh)"
    and "\<forall>p \<in> set (Split (sh_KUBECONFIG sh) '':''). Contains p (switchTmpDirectory sh) \<longrightarrow> HasSuffix p ''.tmp''"
  shows "env_paths w config = map (util_ExpandEnv w)
     (filter (\<lambda>p. p \<noteq> [] \<and> \<not> HasSuffix p ''.tmp'' \<and> \<not> isDuplicatePath (cfg_KubeconfigStores config) p)
        (Split (sh_KUBECONFIG sh) '':''))"
proof -
  let ?t = "tmp_file (sh_HOME sh) (fst (last rs))" and ?ps = "Split (sh_KUBECONFIG sh) '':''"
  have "plain_switch (sh_HOME sh) (last rs)" using assms(1,2) by (auto simp: list_all_iff)
  then have n: "CHR '':'' \<notin> set ?t" by (auto simp: plain_switch_def split: prod.splits)
  have "HasSuffix ?t ''.tmp''" unfolding tmp_file_def HasSuffix_iff by (metis append.assoc)
  moreover have "Split (sh_KUBECONFIG (fold switch_shell rs sh)) '':'' = ?t # kept_parts (switchTmpDirectory sh) (sh_KUBECONFIG sh)"
  proof -
    have "Split (Join (?t # kept_parts (switchTmpDirectory sh) (sh_KUBECONFIG sh)) '':'') '':'' =
        ?t # kept_parts (switchTmpDirectory sh) (sh_KUBECONFIG sh)"
      using n by (intro Split_Join) (auto simp: list_all_iff kept_parts_split dest: Split_single_no_sep)
    then show ?thesis using switch_shell_session [OF assms(1)] assms(2) by simp
  qed
  moreover have "filter (\<lambda>p. p \<noteq> [] \<and> \<not> HasSuffix p ''.tmp'' \<and> \<not> isDuplicatePath (cfg_KubeconfigStores config) p)
        (kept_parts (switchTmpDirectory sh) (sh_KUBECONFIG sh)) =
      filter (\<lambda>p. p \<noteq> [] \<and> \<not> HasSuffix p ''.tmp'' \<and> \<not> isDuplicatePath (cfg_KubeconfigStores config) p) ?ps"
    unfolding kept_parts_split filter_filter using assms(4) by (intro filter_cong) auto
  ultimately show ?thesis
    by (simp add: env_paths_def linuxEnvKubeconfigSeperator_def assms(3) conj_ac)
qed

definition session_world :: world where
  "session_world = cli_world\<lparr>getenv := (\<lambda>v. if v = ''KUBECONFIG''
     then sh_KUBECONFIG (fold switch_shell [(''1'', ''dev''), (''2'', ''prod'')] sample_shell) else [])\<rparr>"

lemma session_keeps_search_paths_witness:
  "env_paths session_world zero_config = [''/h/a'', ''/h/b'']"
proof -
  have 1: "list_all (plain_switch (sh_HOME sample_shell)) [(''1'', ''dev''), (''2'', ''prod'')]"
    by (simp add: plain_switch_def tmp_file_def sample_shell_def)
  have 2: "\<forall>p \<in> set (Split (sh_KUBECONFIG sample_shell) '':''). Contains p (switchTmpDirectory sample_shell) \<longrightarrow> HasSuffix p ''.tmp''"
    by code_simp
  have "env_paths session_world zero_config = map (util_ExpandEnv session_world)
     (filter (\<lambda>p. p \<noteq> [] \<and> \<not> HasSuffix p ''.tmp'' \<and> \<not> isDuplicatePath (cfg_KubeconfigStores zero_config) p)
        (Split (sh_KUBECONFIG sample_shell) '':''))"
    by (rule session_keeps_search_paths [OF 1 _ _ 2]) (simp_all add: session_world_def)
  also have "\<dots> = [''/h/a'', ''/h/b'']" by code_simp
  finally show ?thesis .
qed

text \<open>
  C25. With a part of the user's own in \<^verbatim>\<open>KUBECONFIG\<close>, a switch leaves a list there, and then no command that works on
  the current kubeconfig runs: the current context, the switch of the namespace and the switch to the control plane
  refuse more than one file.
\<close>

theorem own_part_blocks_commands:
  assumes "CHR '','' \<notin> set p" "CHR 0x0A \<notin> set ctx" "CHR '':'' \<notin> set p"
    and "kept_parts (switchTmpDirectory sh) (sh_KUBECONFIG sh) \<noteq> []"
    and "getenv w ''KUBECONFIG'' = sh_KUBECONFIG (snd (wrapper 0 (response p ctx) sh))"
    and "flag = [] \<or> flag = os_ExpandEnv w ''$HOME/.kube/config''"
  shows "(\<exists>e. currentContextCmd L w = (Err e, w)) \<and> (\<exists>e. SwitchToNamespace (cl_ns L) ns flag check w = (Err e, w)) \<and>
    (\<exists>e. SwitchNamespace (cl_ns L) flag dir noIndex w = (Err e, w)) \<and>
    (\<exists>e. SwitchToControlplane (cl_gardener L) stores flag w = (Err e, w))"
proof -
  let ?k = "kept_parts (switchTmpDirectory sh) (sh_KUBECONFIG sh)"
  have k: "getenv w ''KUBECONFIG'' = Join (p # ?k) '':''" using wrapper_switch(1) [OF assms(1,2)] assms(5) by simp
  have "Split (Join (p # ?k) '':'') '':'' = p # ?k"
    using assms(3) by (intro Split_Join) (auto simp: list_all_iff kept_parts_split dest: Split_single_no_sep)
  moreover have "Join (p # ?k) '':'' \<noteq> []" using assms(4) by (simp add: Join_Cons)
  ultimately have s: "length (Split (getenv w ''KUBECONFIG'') '':'') > 1" "getenv w ''KUBECONFIG'' \<noteq> []"
    using k assms(4) by simp_all
  have "\<exists>e. kubeconfigPath w = (Err e, w)" using s by (simp add: kubeconfigPath_def SplitList_def bindIO_apply os_Getenv_def)
  moreover have "\<exists>e. ns_getKubeconfigPath flag w = (Err e, w)"
    using s assms(6) by (auto simp: ns_getKubeconfigPath_def)
  moreover have "\<exists>e. getKubeconfig (gl_um (cl_gardener L)) flag w = (Err e, w)"
    using s assms(6) by (auto simp: getKubeconfig_def)
  ultimately show ?thesis
    by (auto simp: currentContextCmd_def util_GetCurrentContext_def LoadCurrentKubeconfig_def SwitchToNamespace_def
        SwitchNamespace_def SwitchToControlplane_def bindIO_apply)
qed

lemma own_part_blocks_commands_witness:
  "\<exists>w. getenv w ''KUBECONFIG'' = ''/t:/h/a:/h/b'' \<and> (\<forall>L :: unit cli_libs. \<exists>e. currentContextCmd L w = (Err e, w))"
proof -
  let ?w = "cli_world\<lparr>getenv := (\<lambda>v. if v = ''KUBECONFIG'' then ''/t:/h/a:/h/b'' else [])\<rparr>"
  have k: "kept_parts (switchTmpDirectory sample_shell) (sh_KUBECONFIG sample_shell) = [''/h/a'', ''/h/b'']" by code_simp
  have "getenv ?w ''KUBECONFIG'' = sh_KUBECONFIG (snd (wrapper 0 (response ''/t'' ''dev'') sample_shell))"
    using wrapper_switch(1) [of "''/t''" "''dev''" sample_shell] k by simp
  then have "\<exists>e. currentContextCmd L ?w = (Err e, ?w)" for L :: "unit cli_libs"
    using own_part_blocks_commands [of "''/t''" "''dev''" sample_shell ?w "[]" L "[]" False "[]" False "[]"] k by simp
  then show ?thesis by (intro exI [of _ ?w]) simp
qed

text \<open>
  The file of the switch before is not removed then either, as \<^verbatim>\<open>rm\<close> is given the whole list; and each
  \<^verbatim>\<open>kswitch --write\<close> puts its target once more in front, since only files of switches are dropped.
\<close>

lemma own_part_keeps_old_file:
  assumes "CHR '','' \<notin> set p" "CHR 0x0A \<notin> set ctx" "own \<noteq> []" "sh_KUBECONFIG sh = t @ '':'' @ own" "CHR '':'' \<notin> set t"
    and "t \<notin> set (sh_removed sh)"
  shows "t \<notin> set (sh_removed (snd (wrapper 0 (response p ctx) sh)))"
  using wrapper_switch(4) [OF assms(1,2), of sh] assms(3-6) by auto

lemma written_target_repeats:
  assumes "CHR '':'' \<notin> set p" "p \<noteq> []" "\<not> Contains p dir"
  shows "kept_parts dir (new_kubeconfig p (kept_parts dir old)) = p # kept_parts dir old"
proof -
  have "Split (new_kubeconfig p (kept_parts dir old)) '':'' = p # kept_parts dir old"
    unfolding new_kubeconfig_Join
    by (rule Split_Join) (use assms(1) in \<open>auto simp: list_all_iff kept_parts_split dest: Split_single_no_sep\<close>)
  then show ?thesis using assms by (simp add: kept_parts_split)
qed

text \<open>A failed command is a success for bash: the value returned is that of the \<^verbatim>\<open>printf\<close> before it.\<close>

lemma failure_returns_0: "fst (wrapper (Suc n) resp sh) = 0"
  by (simp add: wrapper_def Let_def)

lemma fish_option_lost: "fish_args [''--executable-path'', ''/opt/k'', ''ns''] = (Some ''--executable-path'', [''/opt/k'', ''ns''])"
  by (simp add: fish_args_def)

end
