(* ===== verification/PowerShell.thy ===== *)
theory PowerShell
  imports ShellWrapper
begin

text \<open>
  The shell function for PowerShell (\<^verbatim>\<open>cmd/kswitch/init.go\<close>), for a response of one line. It stores the path of the
  kubeconfig with slashes and without the drive, but looks for its own files by a path with backslashes, so it never finds
  them: the laws below say what becomes of \<^verbatim>\<open>KUBECONFIG\<close> and of the temporary files in a session.
\<close>

section \<open>The function\<close>

text \<open>\<^verbatim>\<open>-replace "C:", ""\<close> takes out every drive name, whatever its case.\<close>

fun drop_drive :: "string \<Rightarrow> string" where
  "drop_drive (a # b # s) = (if a \<in> {CHR ''C'', CHR ''c''} \<and> b = CHR '':'' then drop_drive s else a # drop_drive (b # s))"
| "drop_drive s = s"

definition ps_path :: "string \<Rightarrow> string" where
  "ps_path p = drop_drive (map (\<lambda>c. if c = CHR 0x5C then CHR ''/'' else c) p)"

text \<open>\<^verbatim>\<open>$env:USERPROFILE\<close> is the home of the shell.\<close>

definition ps_TmpDirectory :: "shell \<Rightarrow> string" where
  "ps_TmpDirectory sh = sh_HOME sh @ [CHR 0x5C] @ ''.kube'' @ [CHR 0x5C] @ ''.switch_tmp'' @ [CHR 0x5C] @ ''config''"

text \<open>
  The operator \<^verbatim>\<open>-like\<close> with a star on both sides is a parameter: it matches wildcards and does not look at the case.
  The value is what \<^verbatim>\<open>return\<close> gives, if anything.
\<close>

definition ps_wrapper :: "(string \<Rightarrow> string \<Rightarrow> bool) \<Rightarrow> nat \<Rightarrow> string \<Rightarrow> shell \<Rightarrow> nat option \<times> shell" where
  "ps_wrapper like status RESPONSE sh =
     (if status \<noteq> 0 \<or> RESPONSE = [] then (Some status, print_line RESPONSE sh)
      else if \<not> HasPrefix RESPONSE ''__ '' then (None, print_line RESPONSE sh)
      else let remainder = ReplaceAll RESPONSE ''__ '' [];
               fields = Split remainder '','';
               KUBECONFIG_PATH = ps_path (hd fields);
               SELECTED_CONTEXT = (case fields of _ # c # _ \<Rightarrow> c | _ \<Rightarrow> [])
           in if KUBECONFIG_PATH = [] \<or> SELECTED_CONTEXT = [] then (None, print_line remainder sh)
              else let old = sh_KUBECONFIG sh;
                       dir = ps_TmpDirectory sh;
                       sh1 = (if old \<noteq> [] \<and> like dir old then sh\<lparr>sh_removed := sh_removed sh @ [old]\<rparr> else sh);
                       parts = (if old = [] then [] else filter (\<lambda>part. part \<noteq> [] \<and> \<not> Contains part dir) (Split old '':''))
                   in (None, print_line (''switched to context '' @ SELECTED_CONTEXT)
                         (sh1\<lparr>sh_KUBECONFIG := new_kubeconfig KUBECONFIG_PATH parts\<rparr>)))"

section \<open>A switch\<close>

definition ps_plain :: "string \<times> string \<Rightarrow> bool" where
  "ps_plain = (\<lambda>(p, ctx). CHR '' '' \<notin> set p \<and> CHR '','' \<notin> set p \<and> CHR '' '' \<notin> set ctx \<and> CHR '','' \<notin> set ctx \<and> ctx \<noteq> [] \<and>
     ps_path p \<noteq> [] \<and> CHR '':'' \<notin> set (ps_path p))"

lemma drop_drive_set: "set (drop_drive s) \<subseteq> set s"
  by (induction s rule: drop_drive.induct) auto

lemma ps_path_no_backslash: "CHR 0x5C \<notin> set (ps_path p)"
  using drop_drive_set [of "map (\<lambda>c. if c = CHR 0x5C then CHR ''/'' else c) p"] by (auto simp: ps_path_def split: if_splits)

lemma remove_prefix: "CHR '' '' \<notin> set x \<Longrightarrow> ReplaceAll (''__ '' @ x) ''__ '' [] = x"
proof -
  assume x: "CHR '' '' \<notin> set x"
  have "Index x ''__ '' = None" unfolding Index_None
  proof (intro allI notI)
    fix a b
    assume "x = a @ ''__ '' @ b"
    then have "CHR '' '' \<in> set x" by simp
    then show False using x by contradiction
  qed
  then have "Split x ''__ '' = [x]" by (subst Split.simps) (simp add: Cut_def)
  moreover have "Cut (''__ '' @ x) ''__ '' = Some ([], x)" by (simp add: Cut_def HasPrefix_def)
  ultimately have "Split (''__ '' @ x) ''__ '' = [[], x]" by (subst Split.simps) simp
  then show ?thesis by (simp add: ReplaceAll_def)
qed

text \<open>The parts of a \<^verbatim>\<open>KUBECONFIG\<close>, the empty ones left out.\<close>

definition kc_parts :: "string \<Rightarrow> string list" where
  "kc_parts s = filter (\<lambda>p. p \<noteq> []) (Split s '':'')"

lemma kc_parts_Nil [simp]: "kc_parts [] = []"
  by (simp add: kc_parts_def Split_single_no)

lemma Join_chars: "x \<in> set xs \<Longrightarrow> set x \<subseteq> set (Join xs sep)"
  by (induction xs sep rule: Join.induct) auto

lemma part_chars: "x \<in> set (Split s sep) \<Longrightarrow> set x \<subseteq> set s"
  using Join_chars [of x "Split s sep" sep] by (simp add: Join_Split)

text \<open>
  A switch where \<^verbatim>\<open>KUBECONFIG\<close> has no backslash: nothing is removed, every part stays behind the new file, whoever made it,
  and there is no backslash after it either.
\<close>

lemma ps_switch:
  assumes like: "\<And>d s. like d s \<Longrightarrow> CHR 0x5C \<in> set d \<Longrightarrow> CHR 0x5C \<in> set s"
    and p: "ps_plain (p, ctx)" and old: "CHR 0x5C \<notin> set (sh_KUBECONFIG sh)"
    and sh': "sh' = snd (ps_wrapper like 0 (response p ctx) sh)"
  shows "kc_parts (sh_KUBECONFIG sh') = ps_path p # kc_parts (sh_KUBECONFIG sh) \<and> sh_removed sh' = sh_removed sh \<and>
    CHR 0x5C \<notin> set (sh_KUBECONFIG sh') \<and> sh_HOME sh' = sh_HOME sh"
proof -
  let ?old = "sh_KUBECONFIG sh" and ?dir = "ps_TmpDirectory sh"
  have r: "ReplaceAll (response p ctx) ''__ '' [] = p @ '','' @ ctx" "HasPrefix (response p ctx) ''__ ''" "response p ctx \<noteq> []"
    using remove_prefix [of "p @ '','' @ ctx"] p by (simp_all add: response_def ps_plain_def HasPrefix_def)
  have f: "Split (p @ '','' @ ctx) '','' = [p, ctx]" using p by (simp add: ps_plain_def Split_single_Cons Split_single_no)
  have d: "CHR 0x5C \<in> set ?dir" by (simp add: ps_TmpDirectory_def)
  have nl: "\<not> like ?dir ?old" using like [of ?dir ?old] d old by blast
  have "\<not> Contains part ?dir" if "part \<in> set (Split ?old '':'')" for part
  proof
    assume "Contains part ?dir"
    then have "set ?dir \<subseteq> set part" by (auto simp: Contains_iff)
    then show False using part_chars [OF that] d old by blast
  qed
  then have "filter (\<lambda>part. part \<noteq> [] \<and> \<not> Contains part ?dir) (Split ?old '':'') = kc_parts ?old"
    unfolding kc_parts_def by (intro filter_cong) auto
  then have parts: "(if ?old = [] then [] else filter (\<lambda>part. part \<noteq> [] \<and> \<not> Contains part ?dir) (Split ?old '':'')) = kc_parts ?old" by simp
  have e: "sh' = print_line (''switched to context '' @ ctx) (sh\<lparr>sh_KUBECONFIG := Join (ps_path p # kc_parts ?old) '':''\<rparr>)"
    using p unfolding sh' ps_wrapper_def Let_def r(1) f parts
    by (simp add: r nl ps_plain_def new_kubeconfig_Join)
  have k: "\<forall>x \<in> set (ps_path p # kc_parts ?old). CHR '':'' \<notin> set x \<and> x \<noteq> [] \<and> CHR 0x5C \<notin> set x"
  proof (intro ballI)
    fix x
    assume "x \<in> set (ps_path p # kc_parts ?old)"
    then consider "x = ps_path p" | "x \<in> set (Split ?old '':'')" "x \<noteq> []" by (auto simp: kc_parts_def)
    then show "CHR '':'' \<notin> set x \<and> x \<noteq> [] \<and> CHR 0x5C \<notin> set x"
    proof cases
      case 1
      then show ?thesis using p ps_path_no_backslash by (simp add: ps_plain_def)
    next
      case 2
      have "CHR 0x5C \<notin> set x" using part_chars [OF 2(1)] old by (rule contra_subsetD)
      then show ?thesis using Split_single_no_sep [OF 2(1)] 2(2) by simp
    qed
  qed
  define xs where "xs = ps_path p # kc_parts ?old"
  have "Split (Join xs '':'') '':'' = xs" by (rule Split_Join) (use k in \<open>auto simp: xs_def [symmetric] list_all_iff\<close>, simp add: xs_def)
  moreover have "filter (\<lambda>p. p \<noteq> []) xs = xs" by (rule filter_True) (use k in \<open>simp add: xs_def\<close>)
  ultimately have "kc_parts (Join xs '':'') = xs" by (simp only: kc_parts_def)
  then have "kc_parts (sh_KUBECONFIG sh') = ps_path p # kc_parts ?old" by (simp only: e print_line_def xs_def) simp
  moreover have "c \<in> set (Join xs '':'') \<Longrightarrow> c = CHR '':'' \<or> (\<exists>x \<in> set xs. c \<in> set x)" for c xs
    by (induction xs "'':''" rule: Join.induct) auto
  then have "CHR 0x5C \<notin> set (Join (ps_path p # kc_parts ?old) '':'')" using k by blast
  ultimately show ?thesis by (simp add: e print_line_def)
qed

section \<open>A session\<close>

definition ps_session :: "(string \<Rightarrow> string \<Rightarrow> bool) \<Rightarrow> (string \<times> string) list \<Rightarrow> shell \<Rightarrow> shell" where
  "ps_session like rs sh = fold (\<lambda>(p, ctx) sh. snd (ps_wrapper like 0 (response p ctx) sh)) rs sh"

text \<open>
  After any number of switches \<^verbatim>\<open>KUBECONFIG\<close> lists the files of all of them, the latest first, before the parts the user
  had, and none of the files has been removed; the function for bash keeps the last one only.
\<close>

theorem powershell_session_grows:
  assumes "\<And>d s. like d s \<Longrightarrow> CHR 0x5C \<in> set d \<Longrightarrow> CHR 0x5C \<in> set s"
    and "list_all ps_plain rs" "CHR 0x5C \<notin> set (sh_KUBECONFIG sh)"
  shows "kc_parts (sh_KUBECONFIG (ps_session like rs sh)) = rev (map (ps_path \<circ> fst) rs) @ kc_parts (sh_KUBECONFIG sh) \<and>
    sh_removed (ps_session like rs sh) = sh_removed sh"
  using assms(2,3)
proof (induction rs arbitrary: sh)
  case (Cons r rs)
  obtain p ctx where r: "r = (p, ctx)" by (cases r)
  define sh1 where "sh1 = snd (ps_wrapper like 0 (response p ctx) sh)"
  have s: "kc_parts (sh_KUBECONFIG sh1) = ps_path p # kc_parts (sh_KUBECONFIG sh) \<and> sh_removed sh1 = sh_removed sh \<and>
      CHR 0x5C \<notin> set (sh_KUBECONFIG sh1) \<and> sh_HOME sh1 = sh_HOME sh"
    by (rule ps_switch [OF assms(1) _ _ sh1_def]) (use Cons.prems r in auto)
  have "ps_session like (r # rs) sh = ps_session like rs sh1" by (simp add: ps_session_def r sh1_def)
  then show ?case using Cons.IH [of sh1] Cons.prems(1) s r by simp
qed (simp add: ps_session_def)

definition windows_shell :: shell where
  "windows_shell = \<lparr>sh_HOME = ''C:'' @ [CHR 0x5C] @ ''u'', sh_KUBECONFIG = ''/u/own'', sh_removed = [], sh_printed = []\<rparr>"

definition windows_file :: "string \<Rightarrow> string" where
  "windows_file n = ps_TmpDirectory windows_shell @ n"

lemma powershell_session_grows_witness:
  "kc_parts (sh_KUBECONFIG (ps_session (\<lambda>d s. Contains s d) [(windows_file ''1'', ''dev''), (windows_file ''2'', ''prod'')] windows_shell)) =
     [''/u/.kube/.switch_tmp/config2'', ''/u/.kube/.switch_tmp/config1'', ''/u/own'']"
proof -
  have "Contains s d \<Longrightarrow> CHR 0x5C \<in> set d \<Longrightarrow> CHR 0x5C \<in> set s" for d s by (auto simp: Contains_iff)
  moreover have "list_all ps_plain [(windows_file ''1'', ''dev''), (windows_file ''2'', ''prod'')]"
    by (simp add: ps_plain_def windows_file_def ps_TmpDirectory_def windows_shell_def ps_path_def)
  moreover have "CHR 0x5C \<notin> set (sh_KUBECONFIG windows_shell)" by (simp add: windows_shell_def)
  ultimately have "kc_parts (sh_KUBECONFIG (ps_session (\<lambda>d s. Contains s d) [(windows_file ''1'', ''dev''), (windows_file ''2'', ''prod'')] windows_shell)) =
      rev (map (ps_path \<circ> fst) [(windows_file ''1'', ''dev''), (windows_file ''2'', ''prod'')]) @ kc_parts (sh_KUBECONFIG windows_shell)"
    using powershell_session_grows [of "\<lambda>d s. Contains s d"] by blast
  then show ?thesis
    by (simp add: windows_file_def ps_TmpDirectory_def windows_shell_def ps_path_def kc_parts_def Split_single_no)
qed

end
