(* ===== verification/Registry.thy ===== *)
theory Registry
  imports Startup
begin

text \<open>
  The registrations of \<^verbatim>\<open>pkg/store\<close>: the \<^verbatim>\<open>init\<close> function of each store file, which registers the factory of its
  kind, in the order in which Go runs the files of a package. The constructors themselves are modelled with the
  stores; here each is what its factory sees of it, a store behind the interface or an error.
\<close>

record ctors =
  ct_Akamai :: "KubeconfigStore \<Rightarrow> store io"
  ct_Azure :: "KubeconfigStore \<Rightarrow> string \<Rightarrow> store io"
  ct_Capi :: "KubeconfigStore \<Rightarrow> string \<Rightarrow> store io"
  ct_DigitalOcean :: "KubeconfigStore \<Rightarrow> store option io"   \<comment> \<open>nil without a doctl configuration\<close>
  ct_EKS :: "KubeconfigStore \<Rightarrow> string \<Rightarrow> store io"
  ct_Exoscale :: "KubeconfigStore \<Rightarrow> store io"
  ct_Filesystem :: "string \<Rightarrow> KubeconfigStore \<Rightarrow> store io"
  ct_Gardener :: "KubeconfigStore \<Rightarrow> string \<Rightarrow> store io"
  ct_GKE :: "KubeconfigStore \<Rightarrow> string \<Rightarrow> store io"
  ct_Kind :: "KubeconfigStore \<Rightarrow> store io"
  ct_Kubernetes :: "KubeconfigStore \<Rightarrow> store io"
  ct_OVH :: "KubeconfigStore \<Rightarrow> store io"
  ct_Plugin :: "KubeconfigStore \<Rightarrow> store io"
  ct_Rancher :: "KubeconfigStore \<Rightarrow> store io"
  ct_Scaleway :: "KubeconfigStore \<Rightarrow> store io"
  ct_Vault :: "string \<Rightarrow> string \<Rightarrow> string \<Rightarrow> KubeconfigStore \<Rightarrow> store io"

definition built :: "store io \<Rightarrow> store option io" where
  "built m = bindIO m (\<lambda>s. returnIO (Some s))"

definition init_akamai :: "ctors \<Rightarrow> StoreKind \<times> Factory" where
  "init_akamai C = (StoreKindAkamai, \<lambda>s deps. built (ct_Akamai C s))"
definition init_azure :: "ctors \<Rightarrow> StoreKind \<times> Factory" where
  "init_azure C = (StoreKindAzure, \<lambda>s deps. built (ct_Azure C s (dep_StateDirectory deps)))"
definition init_capi :: "ctors \<Rightarrow> StoreKind \<times> Factory" where
  "init_capi C = (StoreKindCapi, \<lambda>s deps. built (ct_Capi C s (dep_StateDirectory deps)))"
definition init_digital_ocean :: "ctors \<Rightarrow> StoreKind \<times> Factory" where
  "init_digital_ocean C = (StoreKindDigitalOcean, \<lambda>s deps. ct_DigitalOcean C s)"
definition init_eks :: "ctors \<Rightarrow> StoreKind \<times> Factory" where
  "init_eks C = (StoreKindEKS, \<lambda>s deps. built (ct_EKS C s (dep_StateDirectory deps)))"
definition init_exoscale :: "ctors \<Rightarrow> StoreKind \<times> Factory" where
  "init_exoscale C = (StoreKindExoscale, \<lambda>s deps. built (ct_Exoscale C s))"
definition init_file :: "ctors \<Rightarrow> StoreKind \<times> Factory" where
  "init_file C = (StoreKindFilesystem, \<lambda>s deps. built (ct_Filesystem C (dep_KubeconfigName deps) s))"
definition init_gardener :: "ctors \<Rightarrow> StoreKind \<times> Factory" where
  "init_gardener C = (StoreKindGardener, \<lambda>s deps. built (ct_Gardener C s (dep_StateDirectory deps)))"
definition init_gke :: "ctors \<Rightarrow> StoreKind \<times> Factory" where
  "init_gke C = (StoreKindGKE, \<lambda>s deps. built (ct_GKE C s (dep_StateDirectory deps)))"
definition init_kind :: "ctors \<Rightarrow> StoreKind \<times> Factory" where
  "init_kind C = (StoreKindKind, \<lambda>s deps. built (ct_Kind C s))"
definition init_kubernetes :: "ctors \<Rightarrow> StoreKind \<times> Factory" where
  "init_kubernetes C = (StoreKindKubernetes, \<lambda>s deps. built (ct_Kubernetes C s))"
definition init_ovh :: "ctors \<Rightarrow> StoreKind \<times> Factory" where
  "init_ovh C = (StoreKindOVH, \<lambda>s deps. built (ct_OVH C s))"
definition init_plugins :: "ctors \<Rightarrow> StoreKind \<times> Factory" where
  "init_plugins C = (StoreKindPlugin, \<lambda>s deps. built (ct_Plugin C s))"
definition init_rancher :: "ctors \<Rightarrow> StoreKind \<times> Factory" where
  "init_rancher C = (StoreKindRancher, \<lambda>s deps. built (ct_Rancher C s))"
definition init_scaleway :: "ctors \<Rightarrow> StoreKind \<times> Factory" where
  "init_scaleway C = (StoreKindScaleway, \<lambda>s deps. built (ct_Scaleway C s))"
definition init_vault :: "ctors \<Rightarrow> StoreKind \<times> Factory" where
  "init_vault C = (StoreKindVault, \<lambda>s deps. built (ct_Vault C (dep_VaultAPIAddressFromFlag deps)
     (dep_VaultTokenFileName deps) (dep_KubeconfigName deps) s))"

definition all_inits :: "ctors \<Rightarrow> (StoreKind \<times> Factory) list" where
  "all_inits C = [init_akamai C, init_azure C, init_capi C, init_digital_ocean C, init_eks C, init_exoscale C, init_file C,
     init_gardener C, init_gke C, init_kind C, init_kubernetes C, init_ovh C, init_plugins C, init_rancher C, init_scaleway C,
     init_vault C]"

definition start_registry :: "ctors \<Rightarrow> registry res" where
  "start_registry C = foldR (\<lambda>(k, f). Register k f) (all_inits C) []"

lemmas init_defs = init_akamai_def init_azure_def init_capi_def init_digital_ocean_def init_eks_def init_exoscale_def init_file_def
  init_gardener_def init_gke_def init_kind_def init_kubernetes_def init_ovh_def init_plugins_def init_rancher_def
  init_scaleway_def init_vault_def

lemmas kind_defs = StoreKindFilesystem_def StoreKindVault_def StoreKindGardener_def StoreKindGKE_def StoreKindAzure_def
  StoreKindEKS_def StoreKindExoscale_def StoreKindRancher_def StoreKindOVH_def StoreKindScaleway_def StoreKindDigitalOcean_def
  StoreKindAkamai_def StoreKindCapi_def StoreKindPlugin_def StoreKindKind_def StoreKindKubernetes_def

lemma init_kinds: "map fst (all_inits C) = [StoreKindAkamai, StoreKindAzure, StoreKindCapi, StoreKindDigitalOcean, StoreKindEKS,
    StoreKindExoscale, StoreKindFilesystem, StoreKindGardener, StoreKindGKE, StoreKindKind, StoreKindKubernetes, StoreKindOVH,
    StoreKindPlugin, StoreKindRancher, StoreKindScaleway, StoreKindVault]"
  by (simp add: all_inits_def init_defs)

lemma distinct_init_kinds: "distinct (map fst (all_inits C))"
  unfolding init_kinds by (simp add: kind_defs)

lemma init_kinds_valid: "fst ` set (all_inits C) = set ValidStoreKinds"
proof -
  have "fst ` set (all_inits C) = set (map fst (all_inits C))" by simp
  also have "\<dots> = set ValidStoreKinds" unfolding init_kinds by (auto simp: ValidStoreKinds_def)
  finally show ?thesis .
qed

lemma Register_all: "distinct (map fst fs) \<Longrightarrow> \<forall>k \<in> fst ` set fs. mget r k = None \<Longrightarrow>
    foldR (\<lambda>(k, f). Register k f) fs r = Ok (fold (\<lambda>(k, f). mset k f) fs r)"
proof (induction fs arbitrary: r)
  case (Cons p fs)
  obtain k f where p: "p = (k, f)" by force
  have "Register k f r = Ok (mset k f r)" using Cons.prems p by (simp add: Register_def)
  moreover have "foldR (\<lambda>(k, f). Register k f) fs (mset k f r) = Ok (fold (\<lambda>(k, f). mset k f) fs (mset k f r))"
    by (rule Cons.IH) (use Cons.prems p in auto)
  ultimately show ?case by (simp add: p)
qed simp

lemma start_registry_fold: "start_registry C = Ok (fold (\<lambda>(k, f). mset k f) (all_inits C) [])"
  unfolding start_registry_def by (rule Register_all [OF distinct_init_kinds]) simp

text \<open>
  C26. The registrations of the program never panic, and every store of a configuration file that is accepted at the
  start has a registered kind: it is built by the factory of its own kind, so the start never fails for an
  unknown store of the file.
\<close>

theorem accepted_store_has_factory:
  assumes "load_config L fl w = (Ok c, w')" and "s \<in> set (cfg_KubeconfigStores c)"
  shows "\<exists>r f. start_registry C = Ok r \<and> (ks_Kind s, f) \<in> set (all_inits C) \<and> Create r s deps = f s deps"
proof -
  have "list_all store_ok (cfg_KubeconfigStores c)"
    using load_config_valid [OF assms(1)] accepted_stores_ok by (auto simp: zero_config_def)
  then have "ks_Kind s \<in> set ValidStoreKinds" using assms(2) by (auto simp: list_all_iff store_ok_def)
  then obtain f where f: "(ks_Kind s, f) \<in> set (all_inits C)"
    using init_kinds_valid [of C] by (metis (no_types, lifting) imageE prod.collapse)
  have "mget (fold (\<lambda>(k, f). mset k f) (all_inits C) []) (ks_Kind s) = Some f"
    using gomap.get_puts_distinct [OF wf_map_Nil distinct_init_kinds f] .
  then show ?thesis using f start_registry_fold by (auto simp: Create_def)
qed

text \<open>The kind of the store of the flag and the environment is the flag \<^verbatim>\<open>--store\<close>, which is not checked.\<close>

lemma flag_store_unknown:
  assumes "fl_storageBackend fl \<notin> set ValidStoreKinds"
  shows "\<exists>r. start_registry C = Ok r \<and>
    Create r (flag_store fl paths) deps = failIO (Errorf ''unknown store %q'' [fl_storageBackend fl])"
proof -
  have "mget (fold (\<lambda>(k, f). mset k f) (all_inits C) []) (fl_storageBackend fl) = None"
    using gomap.get_puts_other [OF wf_map_Nil, of "fl_storageBackend fl" "all_inits C"] assms init_kinds_valid [of C] by simp
  then show ?thesis using start_registry_fold by (auto simp: Create_def flag_store_def)
qed

definition registry_config :: Config where
  "registry_config = zero_config\<lparr>cfg_Version := ''v1alpha1'', cfg_KubeconfigStores := [zero_store\<lparr>ks_Kind := ''kind''\<rparr>]\<rparr>"

definition registry_world :: world where
  "registry_world = start_world\<lparr>disk := [(''/none'', FileE ''x'' 420)]\<rparr>"

lemma accepted_store_has_factory_witness:
  "\<forall>C deps. \<exists>r f. start_registry C = Ok r \<and> (''kind'', f) \<in> set (all_inits C) \<and>
     Create r (zero_store\<lparr>ks_Kind := ''kind''\<rparr>) deps = f (zero_store\<lparr>ks_Kind := ''kind''\<rparr>) deps"
proof -
  let ?L = "startup_libs\<lparr>in_New := (\<lambda>_. Ok (Some registry_config))\<rparr>"
  have "util_ExpandEnv registry_world ''/none'' = ''/none''"
    by (simp add: util_ExpandEnv_def os_ExpandEnv_def ReplaceAll_def Split_single_no)
  moreover have "LoadConfigFromFile (in_New ?L) (in_Old ?L) (in_WriteOld ?L) (in_WriteNew ?L) ''/none'' registry_world =
      (Ok (Some registry_config), registry_world)"
    by (simp add: LoadConfigFromFile_def tryIO_apply bindIO_apply os_Stat_def os_ReadFile_def with_fault_def registry_world_def
        start_world_def registry_config_def zero_config_def)
  moreover have "ValidateConfig (in_Gardener ?L) (in_GKE ?L) registry_config = []"
    by (simp add: ValidateConfig_def registry_config_def zero_config_def zero_store_def validate_store_def ValidStoreKinds_def
        ValidConfigVersions_def kind_defs)
  ultimately have l: "load_config ?L sample_flags registry_world = (Ok registry_config, registry_world)"
    by (simp add: load_config_def sample_flags_def bindIO_apply wrapIO_apply)
  from accepted_store_has_factory [OF l, of "zero_store\<lparr>ks_Kind := ''kind''\<rparr>"] show ?thesis
    by (simp add: registry_config_def zero_config_def zero_store_def)
qed

end
