(* ===== verification/Spec2Isabelle.thy ===== *)
theory Spec2Isabelle
  imports Commands Hooks TuiView GardenerControl GardenerFind KubernetesStore ClusterStores Plugins CloudStores CloudPaths
    GoogleStore DigitalOcean Vault FileStore Startup Namespaces ListContexts CommandTree PowerShell Registry
begin

text \<open>
  kswitch finds the Kubernetes contexts of many places (directories, clusters, cloud accounts, vaults), shows them
  in one list, and gives the shell a kubeconfig in which the chosen context is current. This development models
  the program at the level of its functions: each definition carries the name of the function, type or loop it
  translates, and the theorems state what the parts promise to each other and to the user.

  \<^bold>\<open>How the parts interact.\<close> A command first builds its stores from the configuration file, the flags and the
  environment (\<^verbatim>\<open>Startup\<close>, \<^verbatim>\<open>SwitchConfig\<close>), each behind a cache (\<^verbatim>\<open>Caches\<close>). The search (\<^verbatim>\<open>Search\<close>) runs one goroutine
  per store, which reads the index of the store (\<^verbatim>\<open>SearchIndex\<close>) or asks the store itself, and sends contexts
  over one channel. They are filtered (\<^verbatim>\<open>Filters\<close>) and listed (\<^verbatim>\<open>ListContexts\<close>), shown in a terminal list (\<^verbatim>\<open>Tui\<close>,
  \<^verbatim>\<open>TuiRun\<close>, \<^verbatim>\<open>TuiList\<close>), or searched for a name (\<^verbatim>\<open>Commands\<close>). The kubeconfig of the choice is fetched from its store,
  edited as a tree of YAML nodes (\<^verbatim>\<open>KubeNode\<close>, \<^verbatim>\<open>Kubeconfig\<close>), written to a temporary file, entered in the history
  (\<^verbatim>\<open>History\<close>), and reported in a line (\<^verbatim>\<open>CommandLine\<close>) that the shell function takes apart to set \<^verbatim>\<open>KUBECONFIG\<close>
  (\<^verbatim>\<open>ShellWrapper\<close>).

  \<^bold>\<open>Theories and sources.\<close>
  \<^item> \<^verbatim>\<open>Prelude\<close>, \<^verbatim>\<open>GoStrings\<close>, \<^verbatim>\<open>GoOS\<close>, \<^verbatim>\<open>GoGlob\<close>, \<^verbatim>\<open>Encoding\<close>, \<^verbatim>\<open>PathElems\<close>: what the code uses of Go. A call ends in a
    value, an error or a panic (\<^verbatim>\<open>res\<close>); effects are functions on a \<^verbatim>\<open>world\<close> (\<^verbatim>\<open>'a io\<close>) with a disk, faults of
    system calls, an environment, a clock and the output. Strings are bytes, maps are association lists in the
    order of one iteration. \<^verbatim>\<open>Contracts\<close> and \<^verbatim>\<open>StoreContracts\<close> hold the interfaces as locales.
  \<^item> \<^verbatim>\<open>Types\<close> (\<^verbatim>\<open>types/\<close>), \<^verbatim>\<open>SwitchConfig\<close> (\<^verbatim>\<open>pkg/config\<close>), \<^verbatim>\<open>Util\<close> (\<^verbatim>\<open>pkg/util/util.go\<close>), \<^verbatim>\<open>Hooks\<close>
    (\<^verbatim>\<open>pkg/subcommands/hooks\<close>, \<^verbatim>\<open>pkg/state\<close>), \<^verbatim>\<open>History\<close>, \<^verbatim>\<open>AliasState\<close> (\<^verbatim>\<open>pkg/subcommands/alias\<close>).
  \<^item> \<^verbatim>\<open>KubeNode\<close>, \<^verbatim>\<open>Kubeconfig\<close>, \<^verbatim>\<open>KubeFiles\<close>, \<^verbatim>\<open>KubeLaws\<close> (\<^verbatim>\<open>pkg/util/kubectx_copied\<close>), \<^verbatim>\<open>MergeDefault\<close>
    (\<^verbatim>\<open>pkg/subcommands/merge-to-default\<close>).
  \<^item> \<^verbatim>\<open>Stores\<close> (\<^verbatim>\<open>pkg/store\<close>: base, registry, cluster cache, lazy initialisation), \<^verbatim>\<open>Registry\<close> (the registrations of all stores), \<^verbatim>\<open>Caches\<close> (\<^verbatim>\<open>pkg/cache\<close>), \<^verbatim>\<open>SearchIndex\<close>
    (\<^verbatim>\<open>pkg/index\<close>), \<^verbatim>\<open>Search\<close> (\<^verbatim>\<open>pkg/search.go\<close>), \<^verbatim>\<open>Filters\<close> (\<^verbatim>\<open>pkg/context_filters.go\<close>).
  \<^item> The stores, in \<^verbatim>\<open>pkg/store/kubeconfig_store_*.go\<close>: \<^verbatim>\<open>FileStore\<close> (file), \<^verbatim>\<open>ClusterStores\<close> (kind, capi),
    \<^verbatim>\<open>KubernetesStore\<close> (kubernetes, with the references between stores), \<^verbatim>\<open>Vault\<close>, \<^verbatim>\<open>CloudStores\<close> (akamai, rancher,
    exoscale, ovh, scaleway), \<^verbatim>\<open>CloudPaths\<close> (eks, azure), \<^verbatim>\<open>GoogleStore\<close> (gke), \<^verbatim>\<open>DigitalOcean\<close> (digital_ocean, doks),
    \<^verbatim>\<open>Plugins\<close> (plugins and both ends of their remote calls), \<^verbatim>\<open>GardenerIds\<close>, \<^verbatim>\<open>GardenerClient\<close>, \<^verbatim>\<open>GardenerStore\<close>,
    \<^verbatim>\<open>GardenerLaws\<close>, \<^verbatim>\<open>GardenerFind\<close> (gardener), and the store of discovered k0smotron clusters in \<^verbatim>\<open>TuiRun\<close>. A store is a record of
    its fields; the client of a service is a record of the calls the store makes.
  \<^item> \<^verbatim>\<open>Tui\<close>, \<^verbatim>\<open>TuiLaws\<close>, \<^verbatim>\<open>TuiRun\<close>, \<^verbatim>\<open>TuiList\<close>, \<^verbatim>\<open>TuiView\<close> (\<^verbatim>\<open>pkg/tui\<close>): the lists as functions from a message and a
    model to a model and a command, and what they draw, on the code points of \<^verbatim>\<open>Utf8\<close>.
  \<^item> \<^verbatim>\<open>Commands\<close> (\<^verbatim>\<open>pkg/main.go\<close>, set, show, alias, history, unset, delete, clean), \<^verbatim>\<open>Namespaces\<close> (\<^verbatim>\<open>pkg/subcommands/ns\<close>),
    \<^verbatim>\<open>ListContexts\<close> (list-contexts and exec), \<^verbatim>\<open>GardenerControl\<close> (gardener controlplane), \<^verbatim>\<open>Startup\<close>,
    \<^verbatim>\<open>CommandLine\<close> and \<^verbatim>\<open>CommandTree\<close> (\<^verbatim>\<open>cmd/kswitch\<close>), \<^verbatim>\<open>ShellWrapper\<close> and \<^verbatim>\<open>PowerShell\<close> (\<^verbatim>\<open>cmd/kswitch/init.go\<close>).

  \<^bold>\<open>What the lemmas show.\<close>
  \<^item> Selection: a switch takes the first context that matches, makes it current in the file written, and changes
    nothing when it fails; edits of a kubeconfig in place implement the edits of the tree and touch no other file.
  \<^item> Concurrency: in every interleaving of store goroutines, wait group and closer there is no send on a closed
    channel, and when the channel closes everything sent has arrived; the run ends. Lazy initialisation happens
    once, and concurrent lookups in the memory cache return answers of the store. These are step relations with
    invariants by rule induction.
  \<^item> Round trips: what a search sends can be fetched, for names that its paths keep apart. Every store has its own statement over the locale
    \<^verbatim>\<open>fetchable\<close> (a path with its tags leads back to the cluster) or \<^verbatim>\<open>fetchable_by_path\<close> (the path alone does, as
    when the context comes from an index), interpreted on its model. Index, history, aliases, identifiers, shell
    words and the report line are read back as they were written.
  \<^item> Equivalence and refinement: the index agrees with a live search that found no context name twice, a Gardener store
    with the caches of a search answers like one without, the memory cache gives the first successful answer for a
    path, the migration of the configuration is done once, filtering a slice in place is a filter, and the
    functions for bash and fish leave the same shell.
  \<^item> Commands: the tree is built without a flag defined twice, and a word selects at most one command in it.
  \<^item> The screen: the window shows the rows it should, the marked line is the cursor's, rows keep to their width exactly
    when the part that is never cut does, and matches are marked code point by code point.
  \<^item> Safety: aliases stay in their directory, credentials do not reach the preview, filters lose no path.
  \<^item> Sessions: after any number of switches \<^verbatim>\<open>KUBECONFIG\<close> is the last file and the user's own parts, and the next
    command searches the user's paths only. The theorems named after a defect show where a part does not keep its
    promise, each on the model of the code as it is.

  \<^bold>\<open>Loops and fuel.\<close> Most loops are structural or have a measure. The walks over a file system and over a vault
  take fuel for the depth of their calls, with \<^verbatim>\<open>None\<close> when it is spent: four more than the depth of the file system,
  and the depth of the tree of secrets, are proved enough, and then the result is exact. Following links in a
  path takes fuel for the number of links, as the system does. The loop over the pages of Digital Ocean and the
  walk up the parents in the list are partial functions that give \<^verbatim>\<open>None\<close> when the loop never ends; that they return
  is proved for a well-behaved API and for every reachable list, and one lemma shows a list where the walk hangs.

  \<^bold>\<open>Not modelled.\<close> The YAML and JSON libraries, the clients of Kubernetes and of the providers, the commands that are
  run, fuzzy matching and the text input are parameters; what is assumed of them is a named hypothesis. Texts of
  errors are kept with their arguments but without the formatting verbs expanded; log lines are dropped. Left out
  are the colours a style paints, the drawing of tables, help texts and the way cobra splits a line into flags and words,
  the generated protocol code and the example plugin. Parallel searches of directories send their results in one fixed order.
\<close>

end
